(* ===== verification/Ariava_Prelude.thy ===== *)
theory Ariava_Prelude
  imports Main "HOL-Library.Word" "HOL-Library.List_Lexorder" "HOL-Library.AList"
begin

section \<open>Prelude: strings, errors, JavaScript objects, guarded operations\<close>

text \<open>
  What every component of the development shares:
  \<^item> JavaScript strings as lists of UTF-16 code units (\<open>jsstring\<close>), the conversion \<open>js\<close>
    from ASCII literals, the relational operators on strings (the lexicographic order of
    \<open>List_Lexorder\<close> on code units is exactly the order of the language);
  \<^item> thrown errors as the left summand of a sum (\<open>'a result\<close>), its sequencing \<open>rbind\<close>;
  \<^item> \<open>Record<string, T>\<close> objects as association lists: a write to a present key keeps its
    position, a write to a new key appends it, \<open>delete\<close> removes it (insertion order of own
    string keys);
  \<^item> the safe integers, the range in which a \<open>number\<close> is an exact integer.
\<close>

subsection \<open>Strings\<close>

type_synonym code_unit = "16 word"
type_synonym jsstring = "code_unit list"

definition js :: "string \<Rightarrow> jsstring" where
  "js s = map of_char s"

lemma js_Nil [simp]: "js [] = []"
  by (simp add: js_def)

lemma js_append: "js (s @ t) = js s @ js t"
  by (simp add: js_def)

lemma unat_of_char_unit: "unat (of_char c :: code_unit) = of_char c"
proof -
  have "(of_char c :: nat) < 256" by simp
  then have "(of_char c :: nat) mod 65536 = of_char c" by (intro mod_less) linarith
  then have "unat (of_nat (of_char c) :: code_unit) = of_char c"
    by (simp add: unat_of_nat)
  moreover have "(of_nat (of_char c) :: code_unit) = of_char c"
    by (rule of_nat_of_char)
  ultimately show ?thesis by simp
qed

lemma of_char_unit_inject: "(of_char c :: code_unit) = of_char d \<longleftrightarrow> c = d"
  by (metis of_char_eq_iff unat_of_char_unit)

lemma js_Cons: "js (c # s) = of_char c # js s"
  by (simp add: js_def)

lemma js_replicate: "js (replicate n c) = replicate n (of_char c)"
  by (simp add: js_def)

lemma list_all_replicate_iff: "list_all P (replicate n x) \<longleftrightarrow> n = 0 \<or> P x"
  by (induction n) auto

lemma js_eq_iff [simp]: "js s = js t \<longleftrightarrow> s = t"
  unfolding js_def
  by (rule inj_map_eq_map) (rule injI, simp add: of_char_unit_inject)

lemma js_eq_Nil_iff [simp]: "js s = [] \<longleftrightarrow> s = []" "[] = js s \<longleftrightarrow> s = []"
  by (auto simp: js_def)

lemma length_js [simp]: "length (js s) = length s"
  by (simp add: js_def)

subsection \<open>Errors\<close>

text \<open>
  What the code throws: a \<open>TypeError\<close> or \<open>Error\<close> with its message, an \<open>AriavaCliError\<close> with its
  code and message, or a \<open>HostIdentityError\<close> with its code. Interpolated parts of a message are
  left out of the model.
\<close>

datatype js_error =
    TypeError string
  | PlainError string
  | CliError string string
  | IdentityError string

type_synonym 'a result = "js_error + 'a"

abbreviation throw :: "js_error \<Rightarrow> 'a result" where
  "throw \<equiv> Inl"

abbreviation ok :: "'a \<Rightarrow> 'a result" where
  "ok \<equiv> Inr"

fun rbind :: "'a result \<Rightarrow> ('a \<Rightarrow> 'b result) \<Rightarrow> 'b result" where
  "rbind (Inl e) f = Inl e"
| "rbind (Inr a) f = f a"

fun_cases rbind_InrE: "rbind r f = Inr b"

lemma rbind_Inr_iff: "rbind r f = Inr b \<longleftrightarrow> (\<exists>a. r = Inr a \<and> f a = Inr b)"
  by (cases r) auto

lemma rbind_Inl_iff: "rbind r f = Inl e \<longleftrightarrow> r = Inl e \<or> (\<exists>a. r = Inr a \<and> f a = Inl e)"
  by (cases r) auto

definition is_ok :: "'a result \<Rightarrow> bool" where
  "is_ok r = (case r of Inl _ \<Rightarrow> False | Inr _ \<Rightarrow> True)"

lemma is_ok_simps [simp]: "is_ok (Inr a)" "\<not> is_ok (Inl e)"
  by (simp_all add: is_ok_def)

lemma is_ok_iff: "is_ok r \<longleftrightarrow> (\<exists>a. r = Inr a)"
  by (cases r) auto

subsection \<open>Safe integers\<close>

definition is_safe_integer :: "int \<Rightarrow> bool" where
  "is_safe_integer n \<longleftrightarrow> \<bar>n\<bar> \<le> 2 ^ 53 - 1"

definition isPositiveInteger :: "int \<Rightarrow> bool" where
  "isPositiveInteger n \<longleftrightarrow> is_safe_integer n \<and> 0 < n"

subsection \<open>Objects used as dictionaries\<close>

type_synonym ('k, 'v) object = "('k \<times> 'v) list"

definition oget :: "('k, 'v) object \<Rightarrow> 'k \<Rightarrow> 'v option" where
  "oget m k = map_of m k"

definition oput :: "'k \<Rightarrow> 'v \<Rightarrow> ('k, 'v) object \<Rightarrow> ('k, 'v) object" where
  "oput k v m = AList.update k v m"

definition odel :: "'k \<Rightarrow> ('k, 'v) object \<Rightarrow> ('k, 'v) object" where
  "odel k m = AList.delete k m"

definition okeys :: "('k, 'v) object \<Rightarrow> 'k list" where
  "okeys m = map fst m"

definition ovalues :: "('k, 'v) object \<Rightarrow> 'v list" where
  "ovalues m = map snd m"

definition oinv :: "('k, 'v) object \<Rightarrow> bool" where
  "oinv m \<longleftrightarrow> distinct (map fst m)"

lemma oget_Nil [simp]: "oget [] k = None"
  by (simp add: oget_def)

lemma oget_Cons [simp]: "oget ((k', v) # m) k = (if k = k' then Some v else oget m k)"
  by (simp add: oget_def)

lemma oget_oput: "oget (oput k v m) k' = (if k' = k then Some v else oget m k')"
  by (simp add: oget_def oput_def update_conv)

lemma oget_odel: "oget (odel k m) k' = (if k' = k then None else oget m k')"
  by (simp add: oget_def odel_def delete_conv')

lemma oinv_Nil [simp]: "oinv []"
  by (simp add: oinv_def)

lemma oinv_oput: "oinv m \<Longrightarrow> oinv (oput k v m)"
  by (simp add: oinv_def oput_def distinct_update)

lemma oinv_odel: "oinv m \<Longrightarrow> oinv (odel k m)"
  by (simp add: oinv_def odel_def distinct_delete)

lemma oget_SomeD: "oget m k = Some v \<Longrightarrow> (k, v) \<in> set m"
  by (simp add: oget_def map_of_SomeD)

lemma oinv_mem_oget: "oinv m \<Longrightarrow> (k, v) \<in> set m \<Longrightarrow> oget m k = Some v"
  by (simp add: oinv_def oget_def)

lemma set_okeys: "set (okeys m) = dom (oget m)"
  by (simp add: okeys_def oget_def[abs_def] dom_map_of_conv_image_fst)

lemma set_ovalues: "oinv m \<Longrightarrow> set (ovalues m) = ran (oget m)"
  unfolding oinv_def ovalues_def
  by (simp add: ran_distinct oget_def[abs_def])

lemma length_oput: "length (oput k v m) \<le> Suc (length m)"
  unfolding oput_def by (induction m) auto

end
