(* ===== verification/Timestamps.thy ===== *)
theory Timestamps
  imports Ariava_Prelude
begin

section \<open>Canonical timestamps\<close>

text \<open>
  Every timestamp the Bridge persists is checked by \<open>isCanonicalTimestamp\<close>
  (packages/protocol/src/validation.ts, and the private copy in
  host-domain-reset-journal-schema.ts): the 24-character form of \<open>Date.prototype.toISOString\<close>.
  This theory models the calendar arithmetic of the language standard (days from the epoch,
  proleptic Gregorian years), \<open>Date.parse\<close> on that form, \<open>toISOString\<close>, and proves that
  canonical timestamps are exactly the printed instants of the years 0 to 9999 and that the
  string order the code uses on them (\<open><\<close>, \<open>>\<close>) is the order of time.
  \<open>Date.parse\<close> on other forms is not modelled: the code parses canonical strings only.
\<close>

subsection \<open>Fixed-width decimal fields\<close>

definition is_digit :: "code_unit \<Rightarrow> bool" where
  "is_digit u \<longleftrightarrow> 48 \<le> unat u \<and> unat u \<le> 57"

fun pad :: "nat \<Rightarrow> nat \<Rightarrow> jsstring" where
  "pad 0 k = []"
| "pad (Suc n) k = pad n (k div 10) @ [of_nat (48 + k mod 10)]"

definition num :: "jsstring \<Rightarrow> nat" where
  "num s = foldl (\<lambda>a u. 10 * a + (unat u - 48)) 0 s"

lemma length_pad [simp]: "length (pad n k) = n"
  by (induction n arbitrary: k) auto

lemma unat_digit: "unat (of_nat (48 + k mod 10) :: code_unit) = 48 + k mod 10"
proof -
  have "(48 + k mod 10) mod 65536 = 48 + k mod (10::nat)"
    by (rule mod_less) (use mod_less_divisor [of 10 k] in linarith)
  then show ?thesis by (simp add: unat_of_nat del: of_nat_add)
qed

lemma num_snoc: "num (s @ [u]) = 10 * num s + (unat u - 48)"
  by (simp add: num_def)

lemma num_pad: "k < 10 ^ n \<Longrightarrow> num (pad n k) = k"
proof (induction n arbitrary: k)
  case 0
  then show ?case by (simp add: num_def)
next
  case (Suc n)
  then have "k div 10 < 10 ^ n" by (simp add: less_mult_imp_div_less mult.commute)
  then show ?case by (simp only: pad.simps num_snoc Suc.IH unat_digit) simp
qed

lemma digits_pad: "u \<in> set (pad n k) \<Longrightarrow> is_digit u"
proof (induction n arbitrary: k)
  case (Suc n)
  then show ?case
    using mod_less_divisor [of 10 k] by (auto simp only: pad.simps set_append set_simps is_digit_def unat_digit)
qed simp

lemma num_bound: "(\<forall>u \<in> set s. is_digit u) \<Longrightarrow> num s < 10 ^ length s"
  by (induction s rule: rev_induct) (auto simp: num_snoc num_def[of "[]"] is_digit_def)

lemma pad_num: "(\<forall>u \<in> set s. is_digit u) \<Longrightarrow> pad (length s) (num s) = s"
proof (induction s rule: rev_induct)
  case (snoc u s)
  then have u: "48 \<le> unat u" "unat u \<le> 57" by (auto simp: is_digit_def)
  then have "unat u - 48 < 10" by simp
  then have d: "(10 * num s + (unat u - 48)) div 10 = num s"
    "(10 * num s + (unat u - 48)) mod 10 = unat u - 48"
    by (simp_all add: div_add1_eq mod_add_eq [symmetric] del: diff_is_0_eq)
  from u have "48 + (unat u - 48) = unat u" by simp
  then have "of_nat (48 + (unat u - 48)) = u" by (simp only: of_nat_unat ucast_id)
  with snoc d show ?case by (simp only: length_append_singleton pad.simps num_snoc) simp
qed simp

lemma append_less_append:
  "length a = length b \<Longrightarrow> (a @ c < b @ d) = (a < b \<or> (a = b \<and> c < (d :: 'a::linorder list)))"
  by (induction a b rule: list_induct2) auto

lemma digit_less_iff:
  "(of_nat (48 + j mod 10) :: code_unit) < of_nat (48 + k mod 10) \<longleftrightarrow> j mod 10 < k mod 10"
  by (simp only: word_less_nat_alt unat_digit) simp

lemma digit_eq_iff:
  "(of_nat (48 + j mod 10) :: code_unit) = of_nat (48 + k mod 10) \<longleftrightarrow> j mod 10 = k mod 10"
  by (metis unat_digit add_left_cancel)

lemma pad_eq_iff: "j < 10 ^ n \<Longrightarrow> k < 10 ^ n \<Longrightarrow> pad n j = pad n k \<longleftrightarrow> j = k"
  by (metis num_pad)

lemma digit_split_less:
  "b < 10 \<Longrightarrow> d < 10 \<Longrightarrow> (a < c \<or> (a = c \<and> b < d)) \<longleftrightarrow> 10 * a + b < 10 * c + (d :: nat)"
  by arith

lemma pad_less_iff: "j < 10 ^ n \<Longrightarrow> k < 10 ^ n \<Longrightarrow> pad n j < pad n k \<longleftrightarrow> j < k"
proof (induction n arbitrary: j k)
  case (Suc n)
  then have b: "j div 10 < 10 ^ n" "k div 10 < 10 ^ n"
    by (simp_all add: less_mult_imp_div_less mult.commute)
  have "pad (Suc n) j < pad (Suc n) k \<longleftrightarrow>
      pad n (j div 10) < pad n (k div 10)
      \<or> (pad n (j div 10) = pad n (k div 10)
         \<and> [of_nat (48 + j mod 10) :: code_unit] < [of_nat (48 + k mod 10)])"
    unfolding pad.simps by (rule append_less_append) simp
  also have "\<dots> \<longleftrightarrow> j div 10 < k div 10 \<or> (j div 10 = k div 10 \<and> j mod 10 < k mod 10)"
    unfolding Suc.IH [OF b] pad_eq_iff [OF b]
    by (simp only: Cons_less_Cons digit_less_iff) simp
  also have "\<dots> \<longleftrightarrow> 10 * (j div 10) + j mod 10 < 10 * (k div 10) + k mod 10"
    by (rule digit_split_less) simp_all
  also have "\<dots> \<longleftrightarrow> j < k" by (simp only: mult_div_mod_eq)
  finally show ?case .
qed simp

subsection \<open>Calendar arithmetic\<close>

definition leap :: "int \<Rightarrow> bool" where
  "leap y \<longleftrightarrow> y mod 4 = 0 \<and> (y mod 100 \<noteq> 0 \<or> y mod 400 = 0)"

definition day_from_year :: "int \<Rightarrow> int" where
  "day_from_year y =
     365 * (y - 1970) + (y - 1969) div 4 - (y - 1901) div 100 + (y - 1601) div 400"

definition year_of_day :: "int \<Rightarrow> int" where
  "year_of_day d =
     (let e = 1970 + (400 * d) div 146097 in
      if day_from_year (e + 1) \<le> d then e + 1 else if d < day_from_year e then e - 1 else e)"

definition days_before_month :: "bool \<Rightarrow> nat \<Rightarrow> int" where
  "days_before_month lp mo =
     [0, 31, 59, 90, 120, 151, 181, 212, 243, 273, 304, 334] ! (mo - 1)
     + (if lp \<and> 2 < mo then 1 else 0)"

definition days_in_month :: "bool \<Rightarrow> nat \<Rightarrow> nat" where
  "days_in_month lp mo =
     (if mo = 2 then if lp then 29 else 28 else if mo \<in> {4, 6, 9, 11} then 30 else 31)"

definition month_of_day :: "bool \<Rightarrow> int \<Rightarrow> nat" where
  "month_of_day lp n =
     (let l = (if lp then 1 else 0) in
      if n < 31 then 1 else if n < 59 + l then 2 else if n < 90 + l then 3
      else if n < 120 + l then 4 else if n < 151 + l then 5 else if n < 181 + l then 6
      else if n < 212 + l then 7 else if n < 243 + l then 8 else if n < 273 + l then 9
      else if n < 304 + l then 10 else if n < 334 + l then 11 else 12)"

record date_fields =
  year :: int
  month :: nat
  day :: nat
  hour :: nat
  minute :: nat
  second :: nat
  millisecond :: nat

definition valid_fields :: "date_fields \<Rightarrow> bool" where
  "valid_fields f \<longleftrightarrow>
     1 \<le> month f \<and> month f \<le> 12 \<and> 1 \<le> day f \<and> day f \<le> days_in_month (leap (year f)) (month f)
     \<and> hour f < 24 \<and> minute f < 60 \<and> second f < 60 \<and> millisecond f < 1000"

definition time_of_fields :: "date_fields \<Rightarrow> int" where
  "time_of_fields f =
     86400000 * (day_from_year (year f) + days_before_month (leap (year f)) (month f)
       + int (day f) - 1)
     + int (((hour f * 60 + minute f) * 60 + second f) * 1000 + millisecond f)"

definition fields_of_time :: "int \<Rightarrow> date_fields" where
  "fields_of_time t =
     (let d = t div 86400000; tod = nat (t mod 86400000); y = year_of_day d;
          n = d - day_from_year y; mo = month_of_day (leap y) n
      in \<lparr>year = y, month = mo, day = nat (n - days_before_month (leap y) mo + 1),
          hour = tod div 3600000, minute = tod div 60000 mod 60,
          second = tod div 1000 mod 60, millisecond = tod mod 1000\<rparr>)"

lemma div_bounds: "0 < k \<Longrightarrow> k * (a div k) \<le> a \<and> a < k * (a div k) + (k :: int)"
  using pos_mod_bound [of k a] pos_mod_sign [of k a] mult_div_mod_eq [of k a] by linarith

lemma div_step:
  assumes "0 < (k :: int)"
  shows "(a + 1) div k = a div k + (if (a + 1) mod k = 0 then 1 else 0)"
proof -
  have a: "a = k * (a div k) + a mod k" by simp
  have r: "0 \<le> a mod k" "a mod k < k" using assms by simp_all
  show ?thesis
  proof (cases "a mod k = k - 1")
    case True
    with a have "a + 1 = k * (a div k + 1)" by (simp add: algebra_simps)
    then show ?thesis using assms by (simp del: mult_div_mod_eq)
  next
    case False
    with a r have s: "a + 1 = k * (a div k) + (a mod k + 1)" "a mod k + 1 < k" by auto
    have "(a + 1) div k = a div k"
      by (rule int_div_pos_eq [OF s(1)]) (use r s in auto)
    moreover have "(a + 1) mod k = a mod k + 1"
      by (rule int_mod_pos_eq [OF s(1)]) (use r s in auto)
    ultimately show ?thesis using r by simp
  qed
qed

lemma year_mods:
  "(y - 1968) mod 4 = y mod (4 :: int)" "(y - 1900) mod 100 = y mod (100 :: int)"
  "(y - 1600) mod 400 = y mod (400 :: int)"
  using mod_mult_self2 [of y 4 "- 492"] mod_mult_self2 [of y 100 "- 19"]
    mod_mult_self2 [of y 400 "- 4"] by simp_all

lemma leap_step_arith:
  assumes "a' = a + (if p then 1 else 0)" "b' = b + (if q then 1 else 0)"
    "c' = c + (if r then 1 else (0 :: int))" "r \<longrightarrow> q" "q \<longrightarrow> p"
  shows "z + a' - b' + c' = z + a - b + c + (if p \<and> (\<not> q \<or> r) then 1 else 0)"
  using assms by (cases p; cases q; cases r) simp_all

lemma day_from_year_Suc: "day_from_year (y + 1) = day_from_year y + (if leap y then 366 else 365)"
proof -
  have shift: "y - 1969 + 1 = y - 1968" "y - 1901 + 1 = y - 1900" "y - 1601 + 1 = y - 1600"
    by simp_all
  have d4: "(y - 1968) div 4 = (y - 1969) div 4 + (if y mod 4 = 0 then 1 else 0)"
    by (rule div_step [of 4 "y - 1969", OF zero_less_numeral, unfolded shift(1) year_mods(1)])
  have d100: "(y - 1900) div 100 = (y - 1901) div 100 + (if y mod 100 = 0 then 1 else 0)"
    by (rule div_step [of 100 "y - 1901", OF zero_less_numeral, unfolded shift(2) year_mods(2)])
  have d400: "(y - 1600) div 400 = (y - 1601) div 400 + (if y mod 400 = 0 then 1 else 0)"
    by (rule div_step [of 400 "y - 1601", OF zero_less_numeral, unfolded shift(3) year_mods(3)])
  have i: "y mod 400 = 0 \<longrightarrow> y mod 100 = 0" "y mod 100 = 0 \<longrightarrow> y mod 4 = 0"
    using mod_mod_cancel [of 100 400 y] mod_mod_cancel [of 4 100 y] by auto
  have "day_from_year (y + 1) = 365 * (y - 1970) + 365 + (y - 1968) div 4
      - (y - 1900) div 100 + (y - 1600) div 400"
    by (simp add: day_from_year_def)
  also have "\<dots> = 365 * (y - 1970) + 365 + (y - 1969) div 4 - (y - 1901) div 100
      + (y - 1601) div 400 + (if leap y then 1 else 0)"
    unfolding leap_def by (rule leap_step_arith [OF d4 d100 d400 i])
  also have "\<dots> = day_from_year y + (if leap y then 366 else 365)"
    unfolding day_from_year_def by simp
  finally show ?thesis .
qed

lemma day_from_year_mono: "y < z \<Longrightarrow> day_from_year y + 365 \<le> day_from_year z"
proof (induction "nat (z - y)" arbitrary: z)
  case (Suc n)
  show ?case
  proof (cases "z = y + 1")
    case True
    then show ?thesis by (simp add: day_from_year_Suc)
  next
    case False
    with Suc.prems Suc.hyps(2) have "n = nat (z - 1 - y)" "y < z - 1" by auto
    then have "day_from_year y + 365 \<le> day_from_year (z - 1)" by (rule Suc.hyps(1))
    then show ?thesis using day_from_year_Suc [of "z - 1"] by (auto split: if_splits)
  qed
qed simp

lemma day_from_year_estimate:
  "\<bar>400 * day_from_year y - 146097 * (y - 1970)\<bar> \<le> 2000"
  using div_bounds [of 4 "y - 1969"] div_bounds [of 100 "y - 1901"] div_bounds [of 400 "y - 1601"]
  unfolding day_from_year_def by auto

lemma year_of_day: "day_from_year (year_of_day d) \<le> d \<and> d < day_from_year (year_of_day d + 1)"
proof -
  let ?e = "1970 + (400 * d) div 146097"
  have e: "146097 * (?e - 1970) \<le> 400 * d" "400 * d < 146097 * (?e - 1970) + 146097"
    using div_bounds [of 146097 "400 * d"] by auto
  from e have "day_from_year (?e - 1) \<le> d"
    using day_from_year_estimate [of "?e - 1"] by (auto simp: abs_le_iff)
  moreover from e have "d < day_from_year (?e + 2)"
    using day_from_year_estimate [of "?e + 2"] by (auto simp: abs_le_iff)
  ultimately show ?thesis by (auto simp: year_of_day_def Let_def add.assoc)
qed

lemma year_of_day_unique:
  assumes "day_from_year y \<le> d" and "d < day_from_year (y + 1)"
  shows "year_of_day d = y"
proof (rule linorder_cases [of "year_of_day d" y])
  assume "year_of_day d < y"
  then have "day_from_year (year_of_day d + 1) \<le> day_from_year y"
    using day_from_year_mono [of "year_of_day d + 1" y] by (cases "year_of_day d + 1 = y") auto
  with assms year_of_day [of d] show ?thesis by linarith
next
  assume "y < year_of_day d"
  then have "day_from_year (y + 1) \<le> day_from_year (year_of_day d)"
    using day_from_year_mono [of "y + 1" "year_of_day d"] by (cases "y + 1 = year_of_day d") auto
  with assms year_of_day [of d] show ?thesis by linarith
qed

text \<open>Instants and their calendar fields determine each other.\<close>

lemma month_of_day:
  assumes "0 \<le> n" and "n < (if lp then 366 else 365)"
  shows "1 \<le> month_of_day lp n \<and> month_of_day lp n \<le> 12
    \<and> days_before_month lp (month_of_day lp n) \<le> n
    \<and> n < days_before_month lp (month_of_day lp n) + int (days_in_month lp (month_of_day lp n))"
  using assms
  by (cases lp) (auto simp: month_of_day_def days_before_month_def days_in_month_def Let_def)

lemma month_cases:
  "1 \<le> mo \<Longrightarrow> mo \<le> 12 \<Longrightarrow>
   mo = 1 \<or> mo = 2 \<or> mo = 3 \<or> mo = 4 \<or> mo = 5 \<or> mo = 6 \<or> mo = 7 \<or> mo = 8 \<or> mo = 9
   \<or> mo = 10 \<or> mo = 11 \<or> mo = (12 :: nat)"
  by arith

lemma days_before_next_month:
  assumes "1 \<le> mo" "mo < 12"
  shows "days_before_month lp (Suc mo) = days_before_month lp mo + int (days_in_month lp mo)"
  using month_cases [OF assms(1) less_imp_le [OF assms(2)]] assms(2)
  by (elim disjE; cases lp; simp add: days_before_month_def days_in_month_def)

lemma days_before_month_mono:
  assumes "1 \<le> mo"
  shows "mo < mo' \<Longrightarrow> mo' \<le> 12 \<Longrightarrow>
    days_before_month lp mo + int (days_in_month lp mo) \<le> days_before_month lp mo'"
proof (induction mo')
  case (Suc k)
  show ?case
  proof (cases "mo = k")
    case True
    with assms Suc.prems show ?thesis by (simp add: days_before_next_month)
  next
    case False
    with Suc have "days_before_month lp mo + int (days_in_month lp mo) \<le> days_before_month lp k"
      by simp
    moreover have "days_before_month lp (Suc k) = days_before_month lp k + int (days_in_month lp k)"
      using assms Suc.prems False by (intro days_before_next_month) auto
    ultimately show ?thesis by simp
  qed
qed simp

lemma month_of_day_unique:
  assumes "1 \<le> mo" "mo \<le> 12" "1 \<le> d" "d \<le> days_in_month lp mo"
    and n: "days_before_month lp mo + int d - 1 < (if lp then 366 else 365)"
      "0 \<le> days_before_month lp mo + int d - 1"
  shows "month_of_day lp (days_before_month lp mo + int d - 1) = mo"
proof -
  let ?m = "month_of_day lp (days_before_month lp mo + int d - 1)"
  note b = month_of_day [OF n(2,1)]
  have "\<not> ?m < mo" and "\<not> mo < ?m"
    using b days_before_month_mono [of ?m mo lp] days_before_month_mono [of mo ?m lp] assms
    by auto
  then show ?thesis by simp
qed

lemma day_of_year_bound:
  assumes "1 \<le> mo" "mo \<le> 12" "1 \<le> d" "d \<le> days_in_month lp mo"
  shows "0 \<le> days_before_month lp mo + int d - 1
    \<and> days_before_month lp mo + int d - 1 < (if lp then 366 else 365)"
  using month_cases [OF assms(1,2)] assms(3,4)
  by (elim disjE; cases lp; simp add: days_before_month_def days_in_month_def)

lemma year_of_day_length: "d - day_from_year (year_of_day d) < (if leap (year_of_day d) then 366 else 365)"
  using year_of_day [of d] day_from_year_Suc [of "year_of_day d"] by linarith

lemma div_mod_append:
  "b < k \<Longrightarrow> (a * k + b) div k = a" "b < k \<Longrightarrow> (a * k + b) mod k = (b :: nat)"
  by (simp_all add: div_mult_self3)

lemma time_of_day_split:
  assumes "h < 24" "mi < 60" "s < 60" "ms < (1000 :: nat)"
  defines "n \<equiv> ((h * 60 + mi) * 60 + s) * 1000 + ms"
  shows "n < 86400000" "n div 3600000 = h" "n div 60000 mod 60 = mi" "n div 1000 mod 60 = s"
    "n mod 1000 = ms"
proof -
  have n1: "n div 1000 = (h * 60 + mi) * 60 + s"
    unfolding n_def by (rule div_mod_append(1) [OF assms(4)])
  have n2: "n div 60000 = h * 60 + mi"
    using div_mult2_eq [of n 1000 60] div_mod_append(1) [OF assms(3), of "h * 60 + mi"]
    by (simp only: n1) simp
  have n3: "n div 3600000 = h"
    using div_mult2_eq [of n 60000 60] div_mod_append(1) [OF assms(2), of h]
    by (simp only: n2) simp
  show "n div 3600000 = h" by (rule n3)
  show "n < 86400000" using assms by simp
  show "n div 60000 mod 60 = mi" unfolding n2 by (rule div_mod_append(2) [OF assms(2)])
  show "n div 1000 mod 60 = s" unfolding n1 by (rule div_mod_append(2) [OF assms(3)])
  show "n mod 1000 = ms" unfolding n_def by (rule div_mod_append(2) [OF assms(4)])
qed

lemma fields_of_time_of_fields:
  assumes "valid_fields f"
  shows "fields_of_time (time_of_fields f) = f"
proof -
  let ?lp = "leap (year f)"
  let ?doy = "days_before_month ?lp (month f) + int (day f) - 1"
  let ?n = "((hour f * 60 + minute f) * 60 + second f) * 1000 + millisecond f"
  let ?d = "day_from_year (year f) + ?doy"
  from assms have v: "1 \<le> month f" "month f \<le> 12" "1 \<le> day f" "day f \<le> days_in_month ?lp (month f)"
    "hour f < 24" "minute f < 60" "second f < 60" "millisecond f < 1000"
    by (auto simp: valid_fields_def)
  note tod = time_of_day_split [OF v(5-8)]
  have t: "time_of_fields f = 86400000 * ?d + int ?n"
    by (simp add: time_of_fields_def algebra_simps)
  have d: "time_of_fields f div 86400000 = ?d" and m: "time_of_fields f mod 86400000 = int ?n"
    using tod(1) by (intro int_div_pos_eq [OF t] int_mod_pos_eq [OF t]; simp only: of_nat_0_le_iff
      of_nat_less_numeral_iff)+
  have y: "year_of_day ?d = year f"
    using day_of_year_bound [OF v(1-4)] by (intro year_of_day_unique) (auto simp: day_from_year_Suc)
  have mo: "month_of_day ?lp ?doy = month f"
    using day_of_year_bound [OF v(1-4)] by (intro month_of_day_unique v) auto
  have n: "nat (time_of_fields f mod 86400000) = ?n"
    by (simp only: m nat_int)
  show ?thesis
    unfolding fields_of_time_def Let_def n d y add_diff_cancel_left' mo
    by (simp only: tod, simp)
qed

lemma valid_fields_of_time: "valid_fields (fields_of_time t)"
  and time_of_fields_of_time: "time_of_fields (fields_of_time t) = t"
proof -
  let ?d = "t div 86400000" and ?n = "nat (t mod 86400000)"
  let ?y = "year_of_day ?d"
  let ?doy = "?d - day_from_year ?y"
  let ?mo = "month_of_day (leap ?y) ?doy"
  have mo: "1 \<le> ?mo" "?mo \<le> 12" "days_before_month (leap ?y) ?mo \<le> ?doy"
    "?doy < days_before_month (leap ?y) ?mo + int (days_in_month (leap ?y) ?mo)"
    using month_of_day [of ?doy "leap ?y"] year_of_day [of ?d] year_of_day_length [of ?d] by auto
  have n: "?n < 86400000" by (simp add: nat_less_iff)
  then have h: "?n div 3600000 < 24" by (simp add: less_mult_imp_div_less)
  show "valid_fields (fields_of_time t)"
    unfolding valid_fields_def fields_of_time_def Let_def date_fields.simps
    using mo h by (intro conjI) (simp_all only: nat_le_iff, linarith+)
  have s1: "?n = ?n div 1000 * 1000 + ?n mod 1000" by simp
  have s2: "?n div 1000 = ?n div 60000 * 60 + ?n div 1000 mod 60"
    using div_mult2_eq [of ?n 1000 60] by simp
  have s3: "?n div 60000 = ?n div 3600000 * 60 + ?n div 60000 mod 60"
    using div_mult2_eq [of ?n 60000 60] by simp
  have tod: "((?n div 3600000 * 60 + ?n div 60000 mod 60) * 60 + ?n div 1000 mod 60) * 1000
      + ?n mod 1000 = ?n"
    by (simp only: s3 [symmetric] s2 [symmetric] s1 [symmetric])
  have day: "int (nat (?doy - days_before_month (leap ?y) ?mo + 1))
      = ?doy - days_before_month (leap ?y) ?mo + 1"
    using mo(3) by simp
  show "time_of_fields (fields_of_time t) = t"
    unfolding time_of_fields_def fields_of_time_def Let_def date_fields.simps tod day
    by simp
qed

subsection \<open>Printing, parsing, canonicity\<close>

definition midnight24 :: "date_fields \<Rightarrow> bool" where
  "midnight24 f \<longleftrightarrow> hour f = 24 \<and> minute f = 0 \<and> second f = 0 \<and> millisecond f = 0"

definition print_year :: "int \<Rightarrow> jsstring" where
  "print_year y =
     (if 0 \<le> y \<and> y \<le> 9999 then pad 4 (nat y)
      else if y < 0 then js ''-'' @ pad 6 (nat (- y)) else js ''+'' @ pad 6 (nat y))"

definition print_fields :: "date_fields \<Rightarrow> jsstring" where
  "print_fields f =
     print_year (year f) @ js ''-'' @ pad 2 (month f) @ js ''-'' @ pad 2 (day f) @ js ''T''
     @ pad 2 (hour f) @ js '':'' @ pad 2 (minute f) @ js '':'' @ pad 2 (second f)
     @ js ''.'' @ pad 3 (millisecond f) @ js ''Z''"

text \<open>\<open>Date.prototype.toISOString\<close>, with its \<open>RangeError\<close> beyond the largest time value.\<close>

definition to_iso_string :: "int \<Rightarrow> jsstring result" where
  "to_iso_string t =
     (if \<bar>t\<bar> \<le> 8640000000000000 then ok (print_fields (fields_of_time t))
      else throw (PlainError ''Invalid time value''))"

text \<open>The regular expression of the canonical form.\<close>

definition iso_shape :: "jsstring \<Rightarrow> bool" where
  "iso_shape s \<longleftrightarrow>
     length s = 24
     \<and> list_all is_digit (take 4 s) \<and> [s ! 4] = js ''-''
     \<and> list_all is_digit (take 2 (drop 5 s)) \<and> [s ! 7] = js ''-''
     \<and> list_all is_digit (take 2 (drop 8 s)) \<and> [s ! 10] = js ''T''
     \<and> list_all is_digit (take 2 (drop 11 s)) \<and> [s ! 13] = js '':''
     \<and> list_all is_digit (take 2 (drop 14 s)) \<and> [s ! 16] = js '':''
     \<and> list_all is_digit (take 2 (drop 17 s)) \<and> [s ! 19] = js ''.''
     \<and> list_all is_digit (take 3 (drop 20 s)) \<and> [s ! 23] = js ''Z''"

definition parse_fields :: "jsstring \<Rightarrow> date_fields" where
  "parse_fields s =
     \<lparr>year = int (num (take 4 s)), month = num (take 2 (drop 5 s)), day = num (take 2 (drop 8 s)),
      hour = num (take 2 (drop 11 s)), minute = num (take 2 (drop 14 s)),
      second = num (take 2 (drop 17 s)), millisecond = num (take 3 (drop 20 s))\<rparr>"

text \<open>\<open>Date.parse\<close> on the canonical form; \<open>None\<close> is \<open>NaN\<close>.\<close>

definition date_parse :: "jsstring \<Rightarrow> int option" where
  "date_parse s =
     (if iso_shape s then
        let f = parse_fields s in
        if valid_fields f \<or> (midnight24 f \<and> valid_fields (f\<lparr>hour := 0\<rparr>))
        then Some (time_of_fields f) else None
      else None)"

definition is_canonical_timestamp :: "jsstring \<Rightarrow> bool" where
  "is_canonical_timestamp s \<longleftrightarrow>
     iso_shape s
     \<and> (case date_parse s of None \<Rightarrow> False | Some t \<Rightarrow> to_iso_string t = ok s)"

lemma length_24_cases:
  assumes "length s = 24"
  obtains a0 a1 a2 a3 a4 a5 a6 a7 a8 a9 a10 a11 a12 a13 a14 a15 a16 a17 a18 a19 a20 a21 a22 a23
  where "s = [a0,a1,a2,a3,a4,a5,a6,a7,a8,a9,a10,a11,a12,a13,a14,a15,a16,a17,a18,a19,a20,a21,a22,a23]"
  using assms by (auto simp: length_Suc_conv numeral_eq_Suc)

lemma pad_num_list_all: "list_all is_digit s \<Longrightarrow> length s = n \<Longrightarrow> pad n (num s) = s"
  by (auto simp: pad_num list_all_iff)

lemma num_bound_list_all: "list_all is_digit s \<Longrightarrow> num s < 10 ^ length s"
  by (simp add: num_bound list_all_iff)

lemma print_parse_fields:
  assumes "iso_shape s"
  shows "print_fields (parse_fields s) = s"
proof -
  from assms have "length s = 24" by (simp add: iso_shape_def)
  then obtain a0 a1 a2 a3 a4 a5 a6 a7 a8 a9 a10 a11 a12 a13 a14 a15 a16 a17 a18 a19 a20 a21 a22 a23
    where s: "s = [a0,a1,a2,a3,a4,a5,a6,a7,a8,a9,a10,a11,a12,a13,a14,a15,a16,a17,a18,a19,a20,a21,a22,a23]"
    by (rule length_24_cases)
  from assms have d:
    "list_all is_digit [a0,a1,a2,a3]" "list_all is_digit [a5,a6]" "list_all is_digit [a8,a9]"
    "list_all is_digit [a11,a12]" "list_all is_digit [a14,a15]" "list_all is_digit [a17,a18]"
    "list_all is_digit [a20,a21,a22]"
    and c: "js ''-'' = [a4]" "js ''-'' = [a7]" "js ''T'' = [a10]" "js '':'' = [a13]"
    "js '':'' = [a16]" "js ''.'' = [a19]" "js ''Z'' = [a23]"
    by (simp_all add: iso_shape_def s)
  have y: "num [a0,a1,a2,a3] < 10000" using num_bound_list_all [OF d(1)] by simp
  have "print_fields (parse_fields s)
      = pad 4 (num [a0,a1,a2,a3]) @ [a4] @ pad 2 (num [a5,a6]) @ [a7] @ pad 2 (num [a8,a9]) @ [a10]
        @ pad 2 (num [a11,a12]) @ [a13] @ pad 2 (num [a14,a15]) @ [a16] @ pad 2 (num [a17,a18])
        @ [a19] @ pad 3 (num [a20,a21,a22]) @ [a23]"
    using y c unfolding print_fields_def parse_fields_def print_year_def s
    by (simp del: pad.simps)
  also have "\<dots> = s"
    using d by (simp add: pad_num_list_all s del: pad.simps)
  finally show ?thesis .
qed

lemma length_print_year: "length (print_year y) = (if 0 \<le> y \<and> y \<le> 9999 then 4 else 7)"
  by (simp add: print_year_def del: pad.simps)

lemma length_print_fields:
  "length (print_fields f) = (if 0 \<le> year f \<and> year f \<le> 9999 then 24 else 27)"
  by (simp add: print_fields_def length_print_year del: pad.simps)

lemma nth_after: "length a = n \<Longrightarrow> (a @ x # b) ! n = x"
  by (simp add: nth_append)

lemma list_all_digits_pad: "list_all is_digit (pad n k)"
  by (simp add: list_all_iff digits_pad)

lemma valid_fields_bounds:
  assumes "valid_fields f"
  shows "month f < 100" "day f < 100" "hour f < 100" "minute f < 100" "second f < 100"
    "millisecond f < 1000"
  using assms
  by (auto simp: valid_fields_def days_in_month_def split: if_splits)

lemma print_fields_shape:
  assumes "valid_fields f" "0 \<le> year f" "year f \<le> 9999"
  shows "iso_shape (print_fields f)" and "parse_fields (print_fields f) = f"
proof -
  let ?Y = "pad 4 (nat (year f))" and ?M = "pad 2 (month f)" and ?D = "pad 2 (day f)"
    and ?h = "pad 2 (hour f)" and ?m = "pad 2 (minute f)" and ?s = "pad 2 (second f)"
    and ?i = "pad 3 (millisecond f)"
  have p: "print_fields f = ?Y @ js ''-'' @ ?M @ js ''-'' @ ?D @ js ''T'' @ ?h @ js '':'' @ ?m
      @ js '':'' @ ?s @ js ''.'' @ ?i @ js ''Z''"
    using assms by (simp add: print_fields_def print_year_def del: pad.simps)
  have nums: "num ?Y = nat (year f)" "num ?M = month f" "num ?D = day f" "num ?h = hour f"
    "num ?m = minute f" "num ?s = second f" "num ?i = millisecond f"
    using valid_fields_bounds [OF assms(1)] assms(2,3)
    by (intro num_pad; simp add: nat_less_iff)+
  note len = take_append drop_append nth_append length_append length_pad length_js list.size
  show "iso_shape (print_fields f)"
    unfolding iso_shape_def p
    by (simp add: len list_all_digits_pad js_def del: pad.simps)
  show "parse_fields (print_fields f) = f"
    unfolding parse_fields_def p
    using assms(2) by (simp add: len nums del: pad.simps)
qed

subsection \<open>Canonical timestamps are the instants of the years 0 to 9999, in order\<close>

lemma scaled_bound:
  assumes "\<bar>x\<bar> \<le> 6000000" "t = 86400000 * x + r" "r < 86400000" "0 \<le> (r :: int)"
  shows "\<bar>t\<bar> \<le> 8640000000000000"
  using assms by linarith

lemma time_of_fields_bound:
  assumes "valid_fields f" "0 \<le> year f" "year f \<le> 9999"
  shows "\<bar>time_of_fields f\<bar> \<le> 8640000000000000"
proof -
  have tod: "((hour f * 60 + minute f) * 60 + second f) * 1000 + millisecond f < 86400000"
    using assms(1) by (intro time_of_day_split(1)) (auto simp: valid_fields_def)
  have doy: "0 \<le> days_before_month (leap (year f)) (month f) + int (day f) - 1"
    "days_before_month (leap (year f)) (month f) + int (day f) - 1 < 366"
    using day_of_year_bound [of "month f" "day f" "leap (year f)"] assms(1)
    by (auto simp: valid_fields_def split: if_splits)
  have "\<bar>day_from_year (year f)\<bar> \<le> 5000000"
    using day_from_year_estimate [of "year f"] assms(2,3) by (auto simp: abs_le_iff)
  with doy have "\<bar>day_from_year (year f) + (days_before_month (leap (year f)) (month f) + int (day f) - 1)\<bar>
      \<le> 6000000" by linarith
  moreover have "time_of_fields f = 86400000 * (day_from_year (year f)
      + (days_before_month (leap (year f)) (month f) + int (day f) - 1))
      + int (((hour f * 60 + minute f) * 60 + second f) * 1000 + millisecond f)"
    unfolding time_of_fields_def by (simp only: algebra_simps)
  moreover have "int (((hour f * 60 + minute f) * 60 + second f) * 1000 + millisecond f) < 86400000"
    using tod by (simp only: of_nat_less_numeral_iff)
  moreover have "0 \<le> int (((hour f * 60 + minute f) * 60 + second f) * 1000 + millisecond f)"
    by (rule of_nat_0_le_iff)
  ultimately show ?thesis by (rule scaled_bound)
qed

lemma to_iso_string_of_fields:
  assumes "valid_fields f" "0 \<le> year f" "year f \<le> 9999"
  shows "to_iso_string (time_of_fields f) = ok (print_fields f)"
  using time_of_fields_bound [OF assms] fields_of_time_of_fields [OF assms(1)]
  by (simp add: to_iso_string_def)

lemma canonical_timestamp_iff:
  "is_canonical_timestamp s \<longleftrightarrow> iso_shape s \<and> valid_fields (parse_fields s)"
proof
  assume c: "is_canonical_timestamp s"
  then obtain t where shape: "iso_shape s" and t: "to_iso_string t = ok s"
    by (auto simp: is_canonical_timestamp_def split: option.splits)
  from t have s: "s = print_fields (fields_of_time t)"
    by (auto simp: to_iso_string_def split: if_splits)
  moreover have "length s = 24" using shape by (simp add: iso_shape_def)
  ultimately have "0 \<le> year (fields_of_time t) \<and> year (fields_of_time t) \<le> 9999"
    by (simp add: length_print_fields split: if_splits)
  then have "parse_fields s = fields_of_time t"
    using print_fields_shape(2) [OF valid_fields_of_time] s by simp
  with shape show "iso_shape s \<and> valid_fields (parse_fields s)"
    by (simp add: valid_fields_of_time)
next
  assume a: "iso_shape s \<and> valid_fields (parse_fields s)"
  have y: "0 \<le> year (parse_fields s)" "year (parse_fields s) \<le> 9999"
    using a num_bound_list_all [of "take 4 s"] by (auto simp: parse_fields_def iso_shape_def)
  show "is_canonical_timestamp s"
    using a to_iso_string_of_fields [OF _ y] print_parse_fields [of s]
    by (simp add: is_canonical_timestamp_def date_parse_def Let_def)
qed

lemma print_fields_canonical:
  assumes "valid_fields f" "0 \<le> year f" "year f \<le> 9999"
  shows "is_canonical_timestamp (print_fields f)"
  using print_fields_shape [OF assms] assms by (simp add: canonical_timestamp_iff)

definition instant :: "jsstring \<Rightarrow> int" where
  "instant s = time_of_fields (parse_fields s)"

lemma instant_print_fields:
  assumes "valid_fields f" "0 \<le> year f" "year f \<le> 9999"
  shows "instant (print_fields f) = time_of_fields f"
  using print_fields_shape [OF assms] by (simp add: instant_def)

lemma date_parse_canonical: "is_canonical_timestamp s \<Longrightarrow> date_parse s = Some (instant s)"
  by (simp add: canonical_timestamp_iff date_parse_def instant_def Let_def)

lemma to_iso_string_instant: "is_canonical_timestamp s \<Longrightarrow> to_iso_string (instant s) = ok s"
  using date_parse_canonical [of s] by (simp add: is_canonical_timestamp_def)

lemma instant_inject:
  "is_canonical_timestamp s \<Longrightarrow> is_canonical_timestamp s' \<Longrightarrow> instant s = instant s' \<longleftrightarrow> s = s'"
  by (metis sum.inject(2) to_iso_string_instant)

definition date_key :: "date_fields \<Rightarrow> int list" where
  "date_key f = [year f, int (month f), int (day f), int (hour f), int (minute f),
     int (second f), int (millisecond f)]"

definition fields_less :: "date_fields \<Rightarrow> date_fields \<Rightarrow> bool" where
  "fields_less f g \<longleftrightarrow> date_key f < date_key g"

lemma fields_less_iff:
  "fields_less f g \<longleftrightarrow>
     year f < year g \<or> (year f = year g \<and>
     (month f < month g \<or> (month f = month g \<and>
     (day f < day g \<or> (day f = day g \<and>
     (hour f < hour g \<or> (hour f = hour g \<and>
     (minute f < minute g \<or> (minute f = minute g \<and>
     (second f < second g \<or> (second f = second g \<and> millisecond f < millisecond g)))))))))))"
  by (simp add: fields_less_def date_key_def)

lemma date_key_inject: "date_key f = date_key g \<longleftrightarrow> f = g"
  by (cases f; cases g) (simp add: date_key_def)

lemma fields_less_total: "fields_less f g \<or> f = g \<or> fields_less g f"
  using less_linear [of "date_key f" "date_key g"] by (simp add: fields_less_def date_key_inject)

lemma time_of_day_less:
  assumes "h < h' \<or> (h = h' \<and> (mi < mi' \<or> (mi = mi' \<and> (s < s' \<or> (s = s' \<and> ms < ms')))))"
    and "mi < 60" "s < 60" "ms < (1000 :: nat)"
  shows "((h * 60 + mi) * 60 + s) * 1000 + ms < ((h' * 60 + mi') * 60 + s') * 1000 + ms'"
  using assms by (elim disjE conjE) simp_all

lemma fields_less_time:
  assumes f: "valid_fields f" and g: "valid_fields g" and less: "fields_less f g"
  shows "time_of_fields f < time_of_fields g"
proof -
  let ?tod = "\<lambda>f. ((hour f * 60 + minute f) * 60 + second f) * 1000 + millisecond f"
  let ?dy = "\<lambda>f. days_before_month (leap (year f)) (month f) + int (day f) - 1"
  let ?d = "\<lambda>f. day_from_year (year f) + ?dy f"
  have t: "time_of_fields k = 86400000 * ?d k + int (?tod k)" for k
    unfolding time_of_fields_def by (simp only: algebra_simps)
  have tod: "?tod f < 86400000" "?tod g < 86400000"
    using f g by (intro time_of_day_split(1); simp add: valid_fields_def)+
  have b: "0 \<le> ?dy f" "?dy f < (if leap (year f) then 366 else 365)" "0 \<le> ?dy g"
    using day_of_year_bound [of "month f" "day f" "leap (year f)"]
      day_of_year_bound [of "month g" "day g" "leap (year g)"] f g
    by (auto simp: valid_fields_def)
  consider "?d f < ?d g" | "year f = year g" "month f = month g" "day f = day g" "?tod f < ?tod g"
  proof (cases "year f < year g")
    case True
    then have "day_from_year (year f + 1) \<le> day_from_year (year g)"
      using day_from_year_mono [of "year f + 1" "year g"] by (cases "year f + 1 = year g") auto
    then show ?thesis using b day_from_year_Suc [of "year f"] that(1) by linarith
  next
    case False
    with less have y: "year f = year g" by (auto simp: fields_less_iff)
    show ?thesis
    proof (cases "month f < month g")
      case True
      then have "days_before_month (leap (year f)) (month f) + int (days_in_month (leap (year f)) (month f))
          \<le> days_before_month (leap (year f)) (month g)"
        using f g by (intro days_before_month_mono) (auto simp: valid_fields_def)
      then show ?thesis using f g y that(1) by (auto simp: valid_fields_def)
    next
      case False
      with less y have m: "month f = month g" by (auto simp: fields_less_iff)
      show ?thesis
      proof (cases "day f < day g")
        case True
        then show ?thesis using y m that(1) by simp
      next
        case False
        with less y m have d: "day f = day g" by (auto simp: fields_less_iff)
        with less y m have "?tod f < ?tod g"
          using f by (intro time_of_day_less) (auto simp: fields_less_iff valid_fields_def)
        with y m d that(2) show ?thesis by simp
      qed
    qed
  qed
  then show ?thesis
  proof cases
    case 1
    then have "?d f + 1 \<le> ?d g" by simp
    then have "86400000 * ?d f + 86400000 \<le> 86400000 * ?d g" by simp
    moreover have "int (?tod f) < 86400000" "0 \<le> int (?tod g)"
      using tod(1) by (simp_all only: of_nat_less_numeral_iff of_nat_0_le_iff)
    ultimately show ?thesis unfolding t by linarith
  next
    case 2
    then show ?thesis unfolding t by (simp only: of_nat_less_iff add_less_cancel_left)
  qed
qed

lemma print_fields_less:
  assumes f: "valid_fields f" "0 \<le> year f" "year f \<le> 9999"
    and g: "valid_fields g" "0 \<le> year g" "year g \<le> 9999"
  shows "print_fields f < print_fields g \<longleftrightarrow> fields_less f g"
proof -
  note bf = valid_fields_bounds [OF f(1)] and bg = valid_fields_bounds [OF g(1)]
  have p2: "j < 100 \<Longrightarrow> k < 100 \<Longrightarrow> pad 2 j < pad 2 k \<longleftrightarrow> j < k"
    "j < 100 \<Longrightarrow> k < 100 \<Longrightarrow> pad 2 j = pad 2 k \<longleftrightarrow> j = k" for j k
    using pad_less_iff [of j 2 k] pad_eq_iff [of j 2 k] by simp_all
  have p3: "pad 3 (millisecond f) < pad 3 (millisecond g) \<longleftrightarrow> millisecond f < millisecond g"
    "pad 3 (millisecond f) = pad 3 (millisecond g) \<longleftrightarrow> millisecond f = millisecond g"
    using pad_less_iff [of _ 3] pad_eq_iff [of _ 3] bf bg by simp_all
  have p4: "pad 4 (nat (year f)) < pad 4 (nat (year g)) \<longleftrightarrow> year f < year g"
    "pad 4 (nat (year f)) = pad 4 (nat (year g)) \<longleftrightarrow> year f = year g"
  proof -
    have n: "nat (year f) < 10 ^ 4" "nat (year g) < 10 ^ 4" using f g by simp_all
    show "pad 4 (nat (year f)) < pad 4 (nat (year g)) \<longleftrightarrow> year f < year g"
      unfolding pad_less_iff [OF n] using f g by linarith
    show "pad 4 (nat (year f)) = pad 4 (nat (year g)) \<longleftrightarrow> year f = year g"
      unfolding pad_eq_iff [OF n] using f g by linarith
  qed
  show ?thesis
    using f g bf bg
    by (simp add: print_fields_def print_year_def fields_less_iff append_less_append p2 p3 p4
        del: pad.simps)
qed

theorem canonical_timestamp_less:
  assumes "is_canonical_timestamp s" "is_canonical_timestamp s'"
  shows "s < s' \<longleftrightarrow> instant s < instant s'"
proof -
  let ?f = "parse_fields s" and ?g = "parse_fields s'"
  have v: "valid_fields ?f" "valid_fields ?g"
    and p: "print_fields ?f = s" "print_fields ?g = s'"
    using assms by (simp_all add: canonical_timestamp_iff print_parse_fields)
  have y: "0 \<le> year ?f" "year ?f \<le> 9999" "0 \<le> year ?g" "year ?g \<le> 9999"
    using assms num_bound_list_all [of "take 4 s"] num_bound_list_all [of "take 4 s'"]
    by (auto simp: canonical_timestamp_iff parse_fields_def iso_shape_def)
  have "s < s' \<longleftrightarrow> fields_less ?f ?g"
    using print_fields_less [OF v(1) y(1,2) v(2) y(3,4)] by (simp add: p)
  also have "\<dots> \<longleftrightarrow> instant s < instant s'"
    unfolding instant_def
    using fields_less_time [OF v] fields_less_time [OF v(2,1)] fields_less_total [of ?f ?g]
    by (metis less_asym less_irrefl)
  finally show ?thesis .
qed

lemma canonical_timestamp_le:
  "is_canonical_timestamp s \<Longrightarrow> is_canonical_timestamp s' \<Longrightarrow> s \<le> s' \<longleftrightarrow> instant s \<le> instant s'"
  by (auto simp: le_less canonical_timestamp_less instant_inject)

subsection \<open>Clock readings\<close>

text \<open>
  \<open>new Date().toISOString()\<close> of a clock that reads between 1970 and 9999: the bound under which
  the properties speak of the timestamps the code writes.
\<close>

definition clock_in_range :: "int \<Rightarrow> bool" where
  "clock_in_range t \<longleftrightarrow> 0 \<le> t \<and> t < 253402300800000"

lemma year_of_clock:
  assumes "clock_in_range t"
  shows "0 \<le> year (fields_of_time t)" "year (fields_of_time t) \<le> 9999"
proof -
  let ?d = "t div 86400000"
  have d: "0 \<le> ?d" "?d < 2932897" using assms by (auto simp: clock_in_range_def)
  have c: "day_from_year 10000 = 2932897" "day_from_year 1970 = 0" by (simp_all add: day_from_year_def)
  have "\<not> 10000 \<le> year_of_day ?d"
    using year_of_day [of ?d] day_from_year_mono [of 10000 "year_of_day ?d"] c d
    by (cases "year_of_day ?d = 10000") auto
  moreover have "\<not> year_of_day ?d + 1 \<le> 1970"
    using year_of_day [of ?d] day_from_year_mono [of "year_of_day ?d + 1" 1970] c d
    by (cases "year_of_day ?d + 1 = 1970") auto
  ultimately show "0 \<le> year (fields_of_time t)" "year (fields_of_time t) \<le> 9999"
    by (simp_all add: fields_of_time_def Let_def)
qed

lemma clock_stamp:
  assumes "clock_in_range t"
  obtains s where "to_iso_string t = ok s" "is_canonical_timestamp s" "instant s = t"
proof -
  let ?f = "fields_of_time t"
  have v: "valid_fields ?f" by (rule valid_fields_of_time)
  have y: "0 \<le> year ?f" "year ?f \<le> 9999" using year_of_clock [OF assms] .
  have s: "to_iso_string t = ok (print_fields ?f)"
    using to_iso_string_of_fields [OF v y] by (simp add: time_of_fields_of_time)
  have p: "iso_shape (print_fields ?f)" "parse_fields (print_fields ?f) = ?f"
    using print_fields_shape [OF v y] by auto
  show thesis
    using that [OF s] v p by (simp add: canonical_timestamp_iff instant_def time_of_fields_of_time)
qed

end
