(* ===== verification/Reset_Journal.thy ===== *)
theory Reset_Journal
  imports Timestamps
begin

section \<open>The Host-domain reset journal\<close>

text \<open>
  apps/bridge/src/cli/operations/host-domain-reset-journal-schema.ts and
  host-domain-reset-journal-binding.ts: the durable record of a Host reset
  (\<open>HostDomainResetJournalV1\<close>), its phases, and \<open>parseHostDomainResetJournal\<close>, the schema every
  read and every write of the journal goes through.

  The record types carry what the structural checks of the source establish (\<open>isRecord\<close>,
  \<open>hasExactKeys\<close>, \<open>typeof\<close>, membership of the literal unions), so \<open>parse_journal\<close> starts where
  they have passed. \<open>null\<close> is \<open>None\<close>. SHA-256 (\<open>node:crypto\<close>) and the digest of the resource
  paths are parameters.
\<close>

subsection \<open>Data\<close>

datatype reset_phase =
    Quarantine_pending
  | Quarantined
  | Prepared
  | Revoke_pending
  | Old_identity_revoked
  | Signing_replacement_pending
  | Signing_identity_replaced
  | Encryption_identity_replaced
  | Runtime_artifacts_cleared
  | Config_saved
  | Enrolled
  | Service_metadata_synchronized
  | Service_restore_pending

datatype revoke_state = Not_attempted | Pending | Complete | Skipped

datatype revoke_outcome = Revoked | Identity_already_revoked | Old_identity_unreadable

datatype service_backend = Launchd | Systemd_user | No_backend

datatype profile_id = Default_profile | Dev_profile

datatype cleanup_kind = Linux_json | Macos_keychain

record signing_cleanup =
  kind :: cleanup_kind
  cleanupDigest :: jsstring
  cleanupProfile :: profile_id
  previousAccount :: "jsstring option"
  previousPendingAccount :: "jsstring option"
  interruptedCreationAccount :: "jsstring option"

record revoke_decision =
  revokeState :: revoke_state
  revokeOutcome :: "revoke_outcome option"

record service_snapshot =
  managed :: bool
  installed :: bool
  enabled :: bool
  wasRunning :: bool
  backend :: service_backend

record journal =
  version :: nat
  operationId :: jsstring
  profile :: profile_id
  phase :: reset_phase
  oldHostId :: "jsstring option"
  oldKeyId :: "jsstring option"
  newHostId :: "jsstring option"
  newKeyId :: "jsstring option"
  oldEncryptionKeyId :: "jsstring option"
  signingCleanup :: "signing_cleanup option"
  signingReplacementAttemptedAt :: "jsstring option"
  encryptionIdentityReplacedAt :: "jsstring option"
  runtimeArtifactsClearedAt :: "jsstring option"
  configSavedAt :: "jsstring option"
  enrolledAt :: "jsstring option"
  serviceMetadataSynchronizedAt :: "jsstring option"
  resourceDigest :: jsstring
  createdAt :: jsstring
  updatedAt :: jsstring
  revoke :: revoke_decision
  service :: service_snapshot

text \<open>
  What the schema reads of the profile's resource set: its profile, the digest of its sixteen
  paths (\<open>hostDomainResourceDigest\<close>) and the digest of its identity metadata path
  (\<open>identityResourceDigest\<close>).
\<close>

record reset_resources =
  identityProfile :: profile_id
  pathsDigest :: jsstring
  identityPathDigest :: jsstring

subsection \<open>The order of the phases\<close>

definition HOST_DOMAIN_RESET_PHASES :: "reset_phase list" where
  "HOST_DOMAIN_RESET_PHASES =
     [Quarantine_pending, Quarantined, Prepared, Revoke_pending, Old_identity_revoked,
      Signing_replacement_pending, Signing_identity_replaced, Encryption_identity_replaced,
      Runtime_artifacts_cleared, Config_saved, Enrolled, Service_metadata_synchronized,
      Service_restore_pending]"

fun index_of :: "'a \<Rightarrow> 'a list \<Rightarrow> nat" where
  "index_of x [] = 0"
| "index_of x (y # ys) = (if x = y then 0 else Suc (index_of x ys))"

definition PHASE_INDEX :: "reset_phase \<Rightarrow> nat" where
  "PHASE_INDEX p = index_of p HOST_DOMAIN_RESET_PHASES"

lemma PHASE_INDEX_simps [simp]:
  "PHASE_INDEX Quarantine_pending = 0"
  "PHASE_INDEX Quarantined = 1"
  "PHASE_INDEX Prepared = 2"
  "PHASE_INDEX Revoke_pending = 3"
  "PHASE_INDEX Old_identity_revoked = 4"
  "PHASE_INDEX Signing_replacement_pending = 5"
  "PHASE_INDEX Signing_identity_replaced = 6"
  "PHASE_INDEX Encryption_identity_replaced = 7"
  "PHASE_INDEX Runtime_artifacts_cleared = 8"
  "PHASE_INDEX Config_saved = 9"
  "PHASE_INDEX Enrolled = 10"
  "PHASE_INDEX Service_metadata_synchronized = 11"
  "PHASE_INDEX Service_restore_pending = 12"
  by (simp_all add: PHASE_INDEX_def HOST_DOMAIN_RESET_PHASES_def)

lemma PHASE_INDEX_inject [simp]: "PHASE_INDEX p = PHASE_INDEX q \<longleftrightarrow> p = q"
  by (cases p; cases q; simp)

lemma PHASE_INDEX_le: "PHASE_INDEX p \<le> 12"
  by (cases p) simp_all

instantiation reset_phase :: linorder
begin

definition less_eq_reset_phase :: "reset_phase \<Rightarrow> reset_phase \<Rightarrow> bool" where
  "less_eq_reset_phase p q \<longleftrightarrow> PHASE_INDEX p \<le> PHASE_INDEX q"

definition less_reset_phase :: "reset_phase \<Rightarrow> reset_phase \<Rightarrow> bool" where
  "less_reset_phase p q \<longleftrightarrow> PHASE_INDEX p < PHASE_INDEX q"

instance
  by standard (auto simp: less_eq_reset_phase_def less_reset_phase_def)

end

lemmas phase_order = less_eq_reset_phase_def less_reset_phase_def

subsection \<open>Timestamps of the journal\<close>

text \<open>
  The journal has a private \<open>isCanonicalTimestamp\<close> without the regular expression of the protocol
  package: it also accepts the expanded years of \<open>toISOString\<close> (a sign and six digits).
\<close>

definition expanded_shape :: "jsstring \<Rightarrow> bool" where
  "expanded_shape s \<longleftrightarrow>
     length s = 27 \<and> (take 1 s = js ''+'' \<or> take 1 s = js ''-'')
     \<and> list_all is_digit (take 6 (drop 1 s)) \<and> iso_shape (js ''0000'' @ drop 7 s)"

definition journal_date_parse :: "jsstring \<Rightarrow> int option" where
  "journal_date_parse s =
     (if expanded_shape s then
        let y = int (num (take 6 (drop 1 s)));
            f = (parse_fields (js ''0000'' @ drop 7 s))
                  \<lparr>year := if take 1 s = js ''-'' then - y else y\<rparr> in
        if valid_fields f then Some (time_of_fields f) else None
      else date_parse s)"

definition journal_canonical_timestamp :: "jsstring \<Rightarrow> bool" where
  "journal_canonical_timestamp s \<longleftrightarrow>
     (case journal_date_parse s of None \<Rightarrow> False | Some t \<Rightarrow> to_iso_string t = ok s)"

text \<open>\<open>Date.parse(a) < Date.parse(b)\<close>: a comparison with \<open>NaN\<close> is false.\<close>

definition parsed_less :: "jsstring \<Rightarrow> jsstring \<Rightarrow> bool" where
  "parsed_less a b \<longleftrightarrow>
     (case (journal_date_parse a, journal_date_parse b) of
        (Some t, Some u) \<Rightarrow> t < u | _ \<Rightarrow> False)"

definition parsed_less_eq :: "jsstring \<Rightarrow> jsstring \<Rightarrow> bool" where
  "parsed_less_eq a b \<longleftrightarrow>
     (case (journal_date_parse a, journal_date_parse b) of
        (Some t, Some u) \<Rightarrow> t \<le> u | _ \<Rightarrow> False)"

lemma journal_date_parse_canonical:
  assumes "is_canonical_timestamp s"
  shows "journal_date_parse s = Some (instant s)"
  using assms date_parse_canonical [OF assms]
  by (auto simp: journal_date_parse_def expanded_shape_def is_canonical_timestamp_def iso_shape_def)

lemma journal_canonical:
  assumes "is_canonical_timestamp s"
  shows "journal_canonical_timestamp s"
  using assms by (simp add: journal_canonical_timestamp_def journal_date_parse_canonical to_iso_string_instant)

lemma journal_canonical_parse:
  "journal_canonical_timestamp s \<Longrightarrow> \<exists>t. journal_date_parse s = Some t"
  by (auto simp: journal_canonical_timestamp_def split: option.splits)

lemma parsed_less_iff:
  assumes "journal_canonical_timestamp a" "journal_canonical_timestamp b"
  shows "parsed_less a b \<longleftrightarrow> \<not> parsed_less_eq b a"
  using assms [THEN journal_canonical_parse] by (auto simp: parsed_less_def parsed_less_eq_def)

lemma parsed_less_eq_refl: "journal_canonical_timestamp a \<Longrightarrow> parsed_less_eq a a"
  by (auto simp: parsed_less_eq_def dest: journal_canonical_parse)

lemma parsed_less_eq_trans: "parsed_less_eq a b \<Longrightarrow> parsed_less_eq b c \<Longrightarrow> parsed_less_eq a c"
  by (auto simp: parsed_less_eq_def split: option.splits)

subsection \<open>Identifiers\<close>

definition is_alnum_unit :: "code_unit \<Rightarrow> bool" where
  "is_alnum_unit u \<longleftrightarrow>
     (48 \<le> unat u \<and> unat u \<le> 57) \<or> (65 \<le> unat u \<and> unat u \<le> 90) \<or> (97 \<le> unat u \<and> unat u \<le> 122)"

definition is_base64url_unit :: "code_unit \<Rightarrow> bool" where
  "is_base64url_unit u \<longleftrightarrow> is_alnum_unit u \<or> unat u = 95 \<or> unat u = 45"

definition is_lower_hex_unit :: "code_unit \<Rightarrow> bool" where
  "is_lower_hex_unit u \<longleftrightarrow> (48 \<le> unat u \<and> unat u \<le> 57) \<or> (97 \<le> unat u \<and> unat u \<le> 102)"

definition starts_with :: "jsstring \<Rightarrow> jsstring \<Rightarrow> bool" where
  "starts_with p s \<longleftrightarrow> take (length p) s = p"

definition isOperationId :: "jsstring \<Rightarrow> bool" where
  "isOperationId s \<longleftrightarrow>
     8 \<le> length s \<and> length s \<le> 128 \<and> is_alnum_unit (hd s) \<and> list_all is_base64url_unit (tl s)"

definition public_id :: "string \<Rightarrow> jsstring \<Rightarrow> bool" where
  "public_id p s \<longleftrightarrow>
     starts_with (js p) s
     \<and> length (drop (length p) s) = 43 \<and> list_all is_base64url_unit (drop (length p) s)"

definition isNullablePublicId :: "jsstring option \<Rightarrow> string \<Rightarrow> bool" where
  "isNullablePublicId v p \<longleftrightarrow> (case v of None \<Rightarrow> True | Some s \<Rightarrow> public_id p s)"

definition isDigest :: "jsstring \<Rightarrow> bool" where
  "isDigest s \<longleftrightarrow> length s = 64 \<and> list_all is_lower_hex_unit s"

definition isNullableEncryptionKeyId :: "jsstring option \<Rightarrow> bool" where
  "isNullableEncryptionKeyId v \<longleftrightarrow> (case v of None \<Rightarrow> True | Some s \<Rightarrow> public_id ''ekey_'' s)"

subsection \<open>The parts of the journal\<close>

definition isNullableJournalTimestamp :: "jsstring option \<Rightarrow> jsstring \<Rightarrow> jsstring \<Rightarrow> bool" where
  "isNullableJournalTimestamp v created updated \<longleftrightarrow>
     (case v of
        None \<Rightarrow> True
      | Some s \<Rightarrow> journal_canonical_timestamp s \<and> journal_canonical_timestamp created
          \<and> journal_canonical_timestamp updated \<and> parsed_less_eq created s \<and> parsed_less_eq s updated)"

definition isRevoke :: "revoke_decision \<Rightarrow> bool" where
  "isRevoke r \<longleftrightarrow>
     (case revokeState r of
        Not_attempted \<Rightarrow> revokeOutcome r = None
      | Pending \<Rightarrow> revokeOutcome r = None
      | Complete \<Rightarrow> revokeOutcome r = Some Revoked \<or> revokeOutcome r = Some Identity_already_revoked
      | Skipped \<Rightarrow> revokeOutcome r = Some Old_identity_unreadable)"

definition isService :: "service_snapshot \<Rightarrow> bool" where
  "isService s \<longleftrightarrow>
     (if \<not> managed s then backend s = No_backend \<and> \<not> installed s \<and> \<not> enabled s \<and> \<not> wasRunning s
      else if backend s = No_backend then False
      else if \<not> installed s \<and> (enabled s \<or> wasRunning s) then False
      else True)"

definition isUnmanagedService :: "service_snapshot \<Rightarrow> bool" where
  "isUnmanagedService s \<longleftrightarrow>
     \<not> managed s \<and> \<not> installed s \<and> \<not> enabled s \<and> \<not> wasRunning s \<and> backend s = No_backend"

text \<open>
  The template \<open>`${previous}.pending`\<close> prints \<open>null\<close> as \<open>null\<close>, so a cleanup record with no previous
  account may name the pending account \<open>null.pending\<close>.
\<close>

definition pending_account :: "jsstring option \<Rightarrow> jsstring" where
  "pending_account previous =
     (case previous of None \<Rightarrow> js ''null'' | Some a \<Rightarrow> a) @ js ''.pending''"

definition isSigningCleanup :: "signing_cleanup option \<Rightarrow> reset_resources \<Rightarrow> bool" where
  "isSigningCleanup v res \<longleftrightarrow>
     (case v of
        None \<Rightarrow> True
      | Some c \<Rightarrow>
          if cleanupDigest c \<noteq> identityPathDigest res \<or> cleanupProfile c \<noteq> identityProfile res then False
          else if kind c = Linux_json then
            previousAccount c = None \<and> previousPendingAccount c = None
            \<and> interruptedCreationAccount c = None
          else
            isNullablePublicId (previousAccount c) ''host_''
            \<and> (previousPendingAccount c = None
               \<or> previousPendingAccount c = Some (pending_account (previousAccount c)))
            \<and> (case interruptedCreationAccount c of
                 None \<Rightarrow> True
               | Some a \<Rightarrow> public_id ''host_'' a
                   \<and> (previousAccount c = None \<or> previousAccount c = Some a)))"

subsection \<open>Phase invariants\<close>

definition preInspection :: "journal \<Rightarrow> bool" where
  "preInspection j \<longleftrightarrow> phase j = Quarantine_pending \<or> phase j = Quarantined"

definition revokeSkipped :: "journal \<Rightarrow> bool" where
  "revokeSkipped j \<longleftrightarrow>
     revokeState (revoke j) = Skipped \<and> revokeOutcome (revoke j) = Some Old_identity_unreadable"

definition expectedRevokeState :: "journal \<Rightarrow> revoke_state" where
  "expectedRevokeState j =
     (if preInspection j then Not_attempted
      else if revokeSkipped j then Skipped
      else if oldHostId j = None then Skipped
      else if phase j = Prepared then Not_attempted
      else if phase j = Revoke_pending then Pending
      else Complete)"

definition exactEvidence :: "journal \<Rightarrow> reset_phase \<Rightarrow> bool \<Rightarrow> bool" where
  "exactEvidence j p present \<longleftrightarrow> (PHASE_INDEX (phase j) \<ge> PHASE_INDEX p) = present"

definition hasValidPhaseInvariants :: "journal \<Rightarrow> bool" where
  "hasValidPhaseInvariants j \<longleftrightarrow>
     (if oldHostId j \<noteq> None \<and> newHostId j = oldHostId j then False
      else if (phase j = Revoke_pending \<or> phase j = Old_identity_revoked) \<and> oldHostId j = None then False
      else if revokeState (revoke j) \<noteq> expectedRevokeState j then False
      else if preInspection j
        \<and> (oldHostId j \<noteq> None \<or> oldEncryptionKeyId j \<noteq> None
           \<or> revokeOutcome (revoke j) \<noteq> None \<or> signingCleanup j \<noteq> None) then False
      else if \<not> preInspection j \<and> oldHostId j = None \<and> \<not> revokeSkipped j then False
      else if revokeSkipped j \<and> signingCleanup j = None then False
      else if \<not> exactEvidence j Signing_replacement_pending (signingReplacementAttemptedAt j \<noteq> None) then False
      else if \<not> exactEvidence j Signing_identity_replaced (newHostId j \<noteq> None \<and> newKeyId j \<noteq> None) then False
      else if \<not> exactEvidence j Encryption_identity_replaced (encryptionIdentityReplacedAt j \<noteq> None) then False
      else if \<not> exactEvidence j Runtime_artifacts_cleared (runtimeArtifactsClearedAt j \<noteq> None) then False
      else if \<not> exactEvidence j Config_saved (configSavedAt j \<noteq> None) then False
      else if \<not> exactEvidence j Enrolled (enrolledAt j \<noteq> None) then False
      else if \<not> exactEvidence j Service_metadata_synchronized (serviceMetadataSynchronizedAt j \<noteq> None) then False
      else True)"

subsection \<open>The schema\<close>

definition valid_fields_of_journal :: "journal \<Rightarrow> reset_resources \<Rightarrow> bool" where
  "valid_fields_of_journal j res \<longleftrightarrow>
     version j = 1
     \<and> isOperationId (operationId j)
     \<and> profile j = identityProfile res
     \<and> isNullablePublicId (oldHostId j) ''host_''
     \<and> isNullablePublicId (oldKeyId j) ''key_''
     \<and> isNullablePublicId (newHostId j) ''host_''
     \<and> isNullablePublicId (newKeyId j) ''key_''
     \<and> isNullableEncryptionKeyId (oldEncryptionKeyId j)
     \<and> isSigningCleanup (signingCleanup j) res
     \<and> isDigest (resourceDigest j)
     \<and> resourceDigest j = pathsDigest res
     \<and> journal_canonical_timestamp (createdAt j)
     \<and> journal_canonical_timestamp (updatedAt j)
     \<and> \<not> parsed_less (updatedAt j) (createdAt j)
     \<and> isRevoke (revoke j)
     \<and> isService (service j)
     \<and> (identityProfile res = Dev_profile \<longrightarrow> isUnmanagedService (service j))
     \<and> (oldHostId j = None) = (oldKeyId j = None)
     \<and> (newHostId j = None) = (newKeyId j = None)
     \<and> isNullableJournalTimestamp (signingReplacementAttemptedAt j) (createdAt j) (updatedAt j)
     \<and> isNullableJournalTimestamp (encryptionIdentityReplacedAt j) (createdAt j) (updatedAt j)
     \<and> isNullableJournalTimestamp (runtimeArtifactsClearedAt j) (createdAt j) (updatedAt j)
     \<and> isNullableJournalTimestamp (configSavedAt j) (createdAt j) (updatedAt j)
     \<and> isNullableJournalTimestamp (enrolledAt j) (createdAt j) (updatedAt j)
     \<and> isNullableJournalTimestamp (serviceMetadataSynchronizedAt j) (createdAt j) (updatedAt j)"

definition invalidJournal :: js_error where
  "invalidJournal = TypeError ''Host-domain reset journal is invalid''"

definition parseHostDomainResetJournal :: "journal \<Rightarrow> reset_resources \<Rightarrow> journal result" where
  "parseHostDomainResetJournal j res =
     (if \<not> valid_fields_of_journal j res then throw invalidJournal
      else if \<not> hasValidPhaseInvariants j then throw invalidJournal
      else ok j)"

definition valid_journal :: "reset_resources \<Rightarrow> journal \<Rightarrow> bool" where
  "valid_journal res j \<longleftrightarrow> valid_fields_of_journal j res \<and> hasValidPhaseInvariants j"

lemma parse_journal_eq:
  "parseHostDomainResetJournal j res = (if valid_journal res j then ok j else throw invalidJournal)"
  by (simp add: parseHostDomainResetJournal_def valid_journal_def)

lemma parse_journal_iff [simp]:
  "parseHostDomainResetJournal j res = ok j' \<longleftrightarrow> j' = j \<and> valid_journal res j"
  by (auto simp: parseHostDomainResetJournal_def valid_journal_def)

subsection \<open>Consequences of validity\<close>

lemma if_reject: "(if c then False else P) \<longleftrightarrow> \<not> c \<and> P"
  by simp

lemmas phase_invariants_conj = hasValidPhaseInvariants_def [unfolded if_reject if_True if_False]

lemma exact_evidence_iff:
  "exactEvidence j p present \<longleftrightarrow> (\<not> present \<longleftrightarrow> phase j < p)"
  by (auto simp: exactEvidence_def phase_order)

lemma valid_fields: "valid_journal res a \<Longrightarrow> valid_fields_of_journal a res"
  by (simp add: valid_journal_def)

lemma valid_phase_invariants: "valid_journal res a \<Longrightarrow> hasValidPhaseInvariants a"
  by (simp add: valid_journal_def)

lemma valid_evidence:
  assumes "valid_journal res a"
  shows "signingReplacementAttemptedAt a = None \<longleftrightarrow> phase a < Signing_replacement_pending"
    and "newHostId a = None \<longleftrightarrow> phase a < Signing_identity_replaced"
    and "newKeyId a = None \<longleftrightarrow> phase a < Signing_identity_replaced"
    and "encryptionIdentityReplacedAt a = None \<longleftrightarrow> phase a < Encryption_identity_replaced"
    and "runtimeArtifactsClearedAt a = None \<longleftrightarrow> phase a < Runtime_artifacts_cleared"
    and "configSavedAt a = None \<longleftrightarrow> phase a < Config_saved"
    and "enrolledAt a = None \<longleftrightarrow> phase a < Enrolled"
    and "serviceMetadataSynchronizedAt a = None \<longleftrightarrow> phase a < Service_metadata_synchronized"
proof -
  have n: "newHostId a = None \<longleftrightarrow> newKeyId a = None"
    using valid_fields [OF assms] unfolding valid_fields_of_journal_def by argo
  note e = valid_phase_invariants [OF assms, unfolded phase_invariants_conj exact_evidence_iff not_not]
  show "signingReplacementAttemptedAt a = None \<longleftrightarrow> phase a < Signing_replacement_pending"
    and "encryptionIdentityReplacedAt a = None \<longleftrightarrow> phase a < Encryption_identity_replaced"
    and "runtimeArtifactsClearedAt a = None \<longleftrightarrow> phase a < Runtime_artifacts_cleared"
    and "configSavedAt a = None \<longleftrightarrow> phase a < Config_saved"
    and "enrolledAt a = None \<longleftrightarrow> phase a < Enrolled"
    and "serviceMetadataSynchronizedAt a = None \<longleftrightarrow> phase a < Service_metadata_synchronized"
    using e by blast+
  show "newHostId a = None \<longleftrightarrow> phase a < Signing_identity_replaced"
    and "newKeyId a = None \<longleftrightarrow> phase a < Signing_identity_replaced"
    using e n by blast+
qed

lemma valid_revoke_state:
  assumes "valid_journal res a"
  shows "revokeState (revoke a) = expectedRevokeState a" and "isRevoke (revoke a)"
proof -
  show "revokeState (revoke a) = expectedRevokeState a"
    using valid_phase_invariants [OF assms, unfolded phase_invariants_conj] by blast
  show "isRevoke (revoke a)"
    using valid_fields [OF assms, unfolded valid_fields_of_journal_def] by blast
qed

lemma valid_pre_inspection:
  assumes "valid_journal res a" and p: "preInspection a"
  shows "oldHostId a = None" and "oldKeyId a = None" and "oldEncryptionKeyId a = None"
    and "signingCleanup a = None" and "revoke a = \<lparr>revokeState = Not_attempted, revokeOutcome = None\<rparr>"
proof -
  note e = valid_phase_invariants [OF assms(1), unfolded phase_invariants_conj]
  show "oldHostId a = None" "oldEncryptionKeyId a = None" "signingCleanup a = None"
    using e p by blast+
  then show "oldKeyId a = None"
    using valid_fields [OF assms(1), unfolded valid_fields_of_journal_def] by blast
  show "revoke a = \<lparr>revokeState = Not_attempted, revokeOutcome = None\<rparr>"
    using valid_revoke_state [OF assms(1)] p
    by (intro revoke_decision.equality) (auto simp: expectedRevokeState_def isRevoke_def)
qed

lemma valid_revoking_old_known:
  assumes "valid_journal res a" and p: "phase a = Revoke_pending \<or> phase a = Old_identity_revoked"
  shows "oldHostId a \<noteq> None"
  using valid_phase_invariants [OF assms(1), unfolded phase_invariants_conj] p by argo

lemma valid_old_known:
  assumes "valid_journal res a" "\<not> preInspection a" "\<not> revokeSkipped a"
  shows "oldHostId a \<noteq> None" and "oldKeyId a \<noteq> None"
  using valid_phase_invariants [OF assms(1), unfolded phase_invariants_conj]
    valid_fields [OF assms(1), unfolded valid_fields_of_journal_def] assms by blast+

end
