(* ===== verification/Reset_Policy.thy ===== *)
theory Reset_Policy
  imports Reset_Journal
begin

section \<open>The transition policy of the reset journal\<close>

text \<open>
  apps/bridge/src/cli/operations/host-domain-reset-journal-policy.ts: the union of transitions, how
  one is applied to a journal, the table of edges with their writable and fill-only fields, and
  \<open>validateHostDomainResetTransition\<close>, which the secure store consults before every write. The
  table and the union are written independently in the source; the lemmas at the end connect them.
\<close>

subsection \<open>Phase order of the policy\<close>

text \<open>The policy keeps its own copy of the phase order of the schema.\<close>

definition HOST_DOMAIN_RESET_PHASE_ORDER :: "reset_phase list" where
  "HOST_DOMAIN_RESET_PHASE_ORDER =
     [Quarantine_pending, Quarantined, Prepared, Revoke_pending, Old_identity_revoked,
      Signing_replacement_pending, Signing_identity_replaced, Encryption_identity_replaced,
      Runtime_artifacts_cleared, Config_saved, Enrolled, Service_metadata_synchronized,
      Service_restore_pending]"

definition phaseIndex :: "reset_phase \<Rightarrow> nat" where
  "phaseIndex p = index_of p HOST_DOMAIN_RESET_PHASE_ORDER"

lemma phaseIndex_eq [simp]: "phaseIndex p = PHASE_INDEX p"
  by (simp add: phaseIndex_def PHASE_INDEX_def HOST_DOMAIN_RESET_PHASE_ORDER_def
      HOST_DOMAIN_RESET_PHASES_def)

subsection \<open>Fields\<close>

datatype journal_field =
    F_version | F_operationId | F_profile | F_resourceDigest | F_createdAt | F_updatedAt
  | F_service | F_revoke | F_oldHostId | F_oldKeyId | F_newHostId | F_newKeyId
  | F_oldEncryptionKeyId | F_signingCleanup | F_signingReplacementAttemptedAt
  | F_encryptionIdentityReplacedAt | F_runtimeArtifactsClearedAt | F_configSavedAt | F_enrolledAt
  | F_serviceMetadataSynchronizedAt

definition TRANSITION_FIELDS :: "journal_field list" where
  "TRANSITION_FIELDS =
     [F_service, F_revoke, F_oldHostId, F_oldKeyId, F_newHostId, F_newKeyId,
      F_oldEncryptionKeyId, F_signingCleanup, F_signingReplacementAttemptedAt,
      F_encryptionIdentityReplacedAt, F_runtimeArtifactsClearedAt, F_configSavedAt, F_enrolledAt,
      F_serviceMetadataSynchronizedAt]"

definition IMMUTABLE_FIELDS :: "journal_field list" where
  "IMMUTABLE_FIELDS =
     [F_version, F_operationId, F_profile, F_resourceDigest, F_createdAt, F_service]"

text \<open>\<open>sameValue(current[field], candidate[field])\<close> and \<open>current[field] === null\<close>.\<close>

fun same_field :: "journal_field \<Rightarrow> journal \<Rightarrow> journal \<Rightarrow> bool" where
  "same_field F_version a b = (version a = version b)"
| "same_field F_operationId a b = (operationId a = operationId b)"
| "same_field F_profile a b = (profile a = profile b)"
| "same_field F_resourceDigest a b = (resourceDigest a = resourceDigest b)"
| "same_field F_createdAt a b = (createdAt a = createdAt b)"
| "same_field F_updatedAt a b = (updatedAt a = updatedAt b)"
| "same_field F_service a b = (service a = service b)"
| "same_field F_revoke a b = (revoke a = revoke b)"
| "same_field F_oldHostId a b = (oldHostId a = oldHostId b)"
| "same_field F_oldKeyId a b = (oldKeyId a = oldKeyId b)"
| "same_field F_newHostId a b = (newHostId a = newHostId b)"
| "same_field F_newKeyId a b = (newKeyId a = newKeyId b)"
| "same_field F_oldEncryptionKeyId a b = (oldEncryptionKeyId a = oldEncryptionKeyId b)"
| "same_field F_signingCleanup a b = (signingCleanup a = signingCleanup b)"
| "same_field F_signingReplacementAttemptedAt a b =
     (signingReplacementAttemptedAt a = signingReplacementAttemptedAt b)"
| "same_field F_encryptionIdentityReplacedAt a b =
     (encryptionIdentityReplacedAt a = encryptionIdentityReplacedAt b)"
| "same_field F_runtimeArtifactsClearedAt a b =
     (runtimeArtifactsClearedAt a = runtimeArtifactsClearedAt b)"
| "same_field F_configSavedAt a b = (configSavedAt a = configSavedAt b)"
| "same_field F_enrolledAt a b = (enrolledAt a = enrolledAt b)"
| "same_field F_serviceMetadataSynchronizedAt a b =
     (serviceMetadataSynchronizedAt a = serviceMetadataSynchronizedAt b)"

fun null_field :: "journal_field \<Rightarrow> journal \<Rightarrow> bool" where
  "null_field F_oldHostId j = (oldHostId j = None)"
| "null_field F_oldKeyId j = (oldKeyId j = None)"
| "null_field F_newHostId j = (newHostId j = None)"
| "null_field F_newKeyId j = (newKeyId j = None)"
| "null_field F_oldEncryptionKeyId j = (oldEncryptionKeyId j = None)"
| "null_field F_signingCleanup j = (signingCleanup j = None)"
| "null_field F_signingReplacementAttemptedAt j = (signingReplacementAttemptedAt j = None)"
| "null_field F_encryptionIdentityReplacedAt j = (encryptionIdentityReplacedAt j = None)"
| "null_field F_runtimeArtifactsClearedAt j = (runtimeArtifactsClearedAt j = None)"
| "null_field F_configSavedAt j = (configSavedAt j = None)"
| "null_field F_enrolledAt j = (enrolledAt j = None)"
| "null_field F_serviceMetadataSynchronizedAt j = (serviceMetadataSynchronizedAt j = None)"
| "null_field F_version j = False"
| "null_field F_operationId j = False"
| "null_field F_profile j = False"
| "null_field F_resourceDigest j = False"
| "null_field F_createdAt j = False"
| "null_field F_updatedAt j = False"
| "null_field F_service j = False"
| "null_field F_revoke j = False"

datatype violation =
    Same_phase_modification journal_field
  | Phase_rollback reset_phase reset_phase
  | Non_adjacent_transition reset_phase reset_phase
  | Unreadable_skip_without_evidence reset_phase reset_phase
  | Revoke_precondition_mismatch reset_phase reset_phase
  | Immutable_field_changed journal_field
  | Field_change_not_allowed journal_field reset_phase reset_phase
  | One_way_fill_violation journal_field
  | Timestamp_rollback

subsection \<open>The transition union\<close>

text \<open>
  One constructor per variant of \<open>HostDomainResetTransition\<close>, with the fields the variant carries;
  the literal revoke records of the two revoke variants are written out by \<open>apply\<close>.
\<close>

datatype transition =
    To_quarantined
  | To_prepared "jsstring option" "jsstring option" "jsstring option" "signing_cleanup option"
      revoke_decision
  | To_revoke_pending
  | To_old_identity_revoked revoke_outcome
  | To_signing_replacement_pending jsstring
  | To_signing_identity_replaced jsstring jsstring
  | To_encryption_identity_replaced jsstring
  | To_runtime_artifacts_cleared jsstring
  | To_config_saved jsstring
  | To_enrolled jsstring
  | To_service_metadata_synchronized jsstring
  | To_service_restore_pending

fun applyHostDomainResetTransition :: "journal \<Rightarrow> transition \<Rightarrow> jsstring \<Rightarrow> journal" where
  "applyHostDomainResetTransition j To_quarantined u = j\<lparr>phase := Quarantined, updatedAt := u\<rparr>"
| "applyHostDomainResetTransition j (To_prepared host key ekey cleanup rv) u =
     j\<lparr>phase := Prepared, oldHostId := host, oldKeyId := key, oldEncryptionKeyId := ekey,
       signingCleanup := cleanup, revoke := rv, updatedAt := u\<rparr>"
| "applyHostDomainResetTransition j To_revoke_pending u =
     j\<lparr>phase := Revoke_pending, revoke := \<lparr>revokeState = Pending, revokeOutcome = None\<rparr>,
       updatedAt := u\<rparr>"
| "applyHostDomainResetTransition j (To_old_identity_revoked oc) u =
     j\<lparr>phase := Old_identity_revoked, revoke := \<lparr>revokeState = Complete, revokeOutcome = Some oc\<rparr>,
       updatedAt := u\<rparr>"
| "applyHostDomainResetTransition j (To_signing_replacement_pending at) u =
     j\<lparr>phase := Signing_replacement_pending, signingReplacementAttemptedAt := Some at, updatedAt := u\<rparr>"
| "applyHostDomainResetTransition j (To_signing_identity_replaced host key) u =
     j\<lparr>phase := Signing_identity_replaced, newHostId := Some host, newKeyId := Some key, updatedAt := u\<rparr>"
| "applyHostDomainResetTransition j (To_encryption_identity_replaced at) u =
     j\<lparr>phase := Encryption_identity_replaced, encryptionIdentityReplacedAt := Some at, updatedAt := u\<rparr>"
| "applyHostDomainResetTransition j (To_runtime_artifacts_cleared at) u =
     j\<lparr>phase := Runtime_artifacts_cleared, runtimeArtifactsClearedAt := Some at, updatedAt := u\<rparr>"
| "applyHostDomainResetTransition j (To_config_saved at) u =
     j\<lparr>phase := Config_saved, configSavedAt := Some at, updatedAt := u\<rparr>"
| "applyHostDomainResetTransition j (To_enrolled at) u =
     j\<lparr>phase := Enrolled, enrolledAt := Some at, updatedAt := u\<rparr>"
| "applyHostDomainResetTransition j (To_service_metadata_synchronized at) u =
     j\<lparr>phase := Service_metadata_synchronized, serviceMetadataSynchronizedAt := Some at, updatedAt := u\<rparr>"
| "applyHostDomainResetTransition j To_service_restore_pending u =
     j\<lparr>phase := Service_restore_pending, updatedAt := u\<rparr>"

subsection \<open>The table of edges\<close>

record transition_edge =
  edge_from :: reset_phase
  edge_to :: reset_phase
  writable :: "journal_field list"
  fillOnly :: "journal_field list"
  require :: "(journal \<Rightarrow> bool) option"
  requireViolation :: violation

definition plain_edge ::
    "reset_phase \<Rightarrow> reset_phase \<Rightarrow> journal_field list \<Rightarrow> journal_field list \<Rightarrow> transition_edge" where
  "plain_edge p q ws fs =
     \<lparr>edge_from = p, edge_to = q, writable = ws, fillOnly = fs, require = None,
      requireViolation = Non_adjacent_transition p q\<rparr>"

definition TRANSITION_EDGES :: "transition_edge list" where
  "TRANSITION_EDGES =
     [plain_edge Quarantine_pending Quarantined [] [],
      plain_edge Quarantined Prepared
        [F_oldHostId, F_oldKeyId, F_oldEncryptionKeyId, F_signingCleanup, F_revoke]
        [F_oldHostId, F_oldKeyId, F_oldEncryptionKeyId, F_signingCleanup],
      \<lparr>edge_from = Prepared, edge_to = Revoke_pending, writable = [F_revoke], fillOnly = [],
       require = Some (\<lambda>j. revokeState (revoke j) = Not_attempted \<and> revokeOutcome (revoke j) = None),
       requireViolation = Revoke_precondition_mismatch Prepared Revoke_pending\<rparr>,
      \<lparr>edge_from = Prepared, edge_to = Signing_replacement_pending,
       writable = [F_signingReplacementAttemptedAt], fillOnly = [F_signingReplacementAttemptedAt],
       require = Some (\<lambda>j. revokeState (revoke j) = Skipped
                       \<and> revokeOutcome (revoke j) = Some Old_identity_unreadable),
       requireViolation = Unreadable_skip_without_evidence Prepared Signing_replacement_pending\<rparr>,
      \<lparr>edge_from = Revoke_pending, edge_to = Old_identity_revoked, writable = [F_revoke], fillOnly = [],
       require = Some (\<lambda>j. revokeState (revoke j) = Pending),
       requireViolation = Revoke_precondition_mismatch Revoke_pending Old_identity_revoked\<rparr>,
      plain_edge Old_identity_revoked Signing_replacement_pending
        [F_signingReplacementAttemptedAt] [F_signingReplacementAttemptedAt],
      plain_edge Signing_replacement_pending Signing_identity_replaced
        [F_newHostId, F_newKeyId] [F_newHostId, F_newKeyId],
      plain_edge Signing_identity_replaced Encryption_identity_replaced
        [F_encryptionIdentityReplacedAt] [F_encryptionIdentityReplacedAt],
      plain_edge Encryption_identity_replaced Runtime_artifacts_cleared
        [F_runtimeArtifactsClearedAt] [F_runtimeArtifactsClearedAt],
      plain_edge Runtime_artifacts_cleared Config_saved [F_configSavedAt] [F_configSavedAt],
      plain_edge Config_saved Enrolled [F_enrolledAt] [F_enrolledAt],
      plain_edge Enrolled Service_metadata_synchronized
        [F_serviceMetadataSynchronizedAt] [F_serviceMetadataSynchronizedAt],
      plain_edge Service_metadata_synchronized Service_restore_pending [] []]"

definition findEdge :: "reset_phase \<Rightarrow> reset_phase \<Rightarrow> transition_edge option" where
  "findEdge p q = List.find (\<lambda>e. edge_from e = p \<and> edge_to e = q) TRANSITION_EDGES"

subsection \<open>Validation\<close>

definition firstDifferingField :: "journal \<Rightarrow> journal \<Rightarrow> journal_field option" where
  "firstDifferingField a b = List.find (\<lambda>f. \<not> same_field f a b) TRANSITION_FIELDS"

definition edge_field_violation ::
    "transition_edge \<Rightarrow> journal \<Rightarrow> journal \<Rightarrow> journal_field \<Rightarrow> violation option" where
  "edge_field_violation e a b f =
     (if f \<in> set IMMUTABLE_FIELDS then None
      else if \<not> same_field f a b then
        if f \<notin> set (writable e) then Some (Field_change_not_allowed f (phase a) (phase b))
        else if f \<in> set (fillOnly e) \<and> \<not> null_field f a then Some (One_way_fill_violation f)
        else None
      else None)"

fun first_violation :: "('f \<Rightarrow> violation option) \<Rightarrow> 'f list \<Rightarrow> violation option" where
  "first_violation v [] = None"
| "first_violation v (f # fs) = (case v f of None \<Rightarrow> first_violation v fs | Some x \<Rightarrow> Some x)"

definition validateHostDomainResetTransition :: "journal \<Rightarrow> journal \<Rightarrow> violation + journal" where
  "validateHostDomainResetTransition current candidate =
     (if phase candidate = phase current then
        if current = candidate then Inr candidate
        else Inl (Same_phase_modification
          (case firstDifferingField current candidate of None \<Rightarrow> F_updatedAt | Some f \<Rightarrow> f))
      else if phaseIndex (phase candidate) < phaseIndex (phase current) then
        Inl (Phase_rollback (phase current) (phase candidate))
      else case findEdge (phase current) (phase candidate) of
        None \<Rightarrow> Inl (Non_adjacent_transition (phase current) (phase candidate))
      | Some e \<Rightarrow>
          if (case require e of None \<Rightarrow> False | Some p \<Rightarrow> \<not> p current) then Inl (requireViolation e)
          else if parsed_less (updatedAt candidate) (updatedAt current) then Inl Timestamp_rollback
          else case first_violation
              (\<lambda>f. if same_field f current candidate then None else Some (Immutable_field_changed f))
              IMMUTABLE_FIELDS of
            Some v \<Rightarrow> Inl v
          | None \<Rightarrow>
              case first_violation (edge_field_violation e current candidate) TRANSITION_FIELDS of
                Some v \<Rightarrow> Inl v
              | None \<Rightarrow> Inr candidate)"

fun hostResetJournalViolationMessage :: "violation \<Rightarrow> string" where
  "hostResetJournalViolationMessage (Same_phase_modification f) =
     ''Host-domain reset journal field cannot change without a phase transition''"
| "hostResetJournalViolationMessage (Phase_rollback p q) =
     ''Host-domain reset journal phase rollback is not allowed''"
| "hostResetJournalViolationMessage (Non_adjacent_transition p q) =
     ''Host-domain reset journal non-adjacent phase transition is not allowed''"
| "hostResetJournalViolationMessage (Unreadable_skip_without_evidence p q) =
     ''Host-domain reset journal unreadable skip requires journaled skipped/old-identity-unreadable revoke evidence''"
| "hostResetJournalViolationMessage (Revoke_precondition_mismatch p q) =
     ''Host-domain reset journal revoke transition is not allowed''"
| "hostResetJournalViolationMessage (Immutable_field_changed f) =
     ''Host-domain reset journal field cannot change''"
| "hostResetJournalViolationMessage (Field_change_not_allowed f p q) =
     ''Host-domain reset journal field cannot change on transition''"
| "hostResetJournalViolationMessage (One_way_fill_violation f) =
     ''Host-domain reset journal field can only be filled once''"
| "hostResetJournalViolationMessage Timestamp_rollback =
     ''Host-domain reset journal timestamp rollback is not allowed''"

subsection \<open>What the policy accepts\<close>

text \<open>
  The contract: the phase each transition starts from, with the evidence it needs. Nothing of the
  table of edges appears in it.
\<close>

fun transition_allowed :: "journal \<Rightarrow> transition \<Rightarrow> bool" where
  "transition_allowed j To_quarantined = (phase j = Quarantine_pending)"
| "transition_allowed j (To_prepared host key ekey cleanup rv) = (phase j = Quarantined)"
| "transition_allowed j To_revoke_pending =
     (phase j = Prepared \<and> revoke j = \<lparr>revokeState = Not_attempted, revokeOutcome = None\<rparr>)"
| "transition_allowed j (To_old_identity_revoked oc) = (phase j = Revoke_pending)"
| "transition_allowed j (To_signing_replacement_pending at) =
     (phase j = Old_identity_revoked \<or> (phase j = Prepared \<and> revokeSkipped j))"
| "transition_allowed j (To_signing_identity_replaced host key) = (phase j = Signing_replacement_pending)"
| "transition_allowed j (To_encryption_identity_replaced at) = (phase j = Signing_identity_replaced)"
| "transition_allowed j (To_runtime_artifacts_cleared at) = (phase j = Encryption_identity_replaced)"
| "transition_allowed j (To_config_saved at) = (phase j = Runtime_artifacts_cleared)"
| "transition_allowed j (To_enrolled at) = (phase j = Config_saved)"
| "transition_allowed j (To_service_metadata_synchronized at) = (phase j = Enrolled)"
| "transition_allowed j To_service_restore_pending = (phase j = Service_metadata_synchronized)"

lemma first_violation_None_iff: "first_violation v fs = None \<longleftrightarrow> (\<forall>f \<in> set fs. v f = None)"
  by (induction fs) (auto split: option.splits)

lemma none_or_violation:
  "(case x of None \<Rightarrow> y | Some v \<Rightarrow> Inl v) = Inr c \<longleftrightarrow> x = None \<and> y = Inr c"
  by (cases x) auto

lemma immutable_transition_field [simp]:
  "f \<in> set TRANSITION_FIELDS \<Longrightarrow> f \<in> set IMMUTABLE_FIELDS \<longleftrightarrow> f = F_service"
  by (auto simp: TRANSITION_FIELDS_def IMMUTABLE_FIELDS_def)

text \<open>Acceptance of a change of phase, with the loops over the fields read as quantifiers.\<close>

lemma validate_step_iff:
  assumes "phase b \<noteq> phase a"
  shows "validateHostDomainResetTransition a b = Inr c \<longleftrightarrow>
    c = b \<and> PHASE_INDEX (phase a) \<le> PHASE_INDEX (phase b)
    \<and> (\<exists>e. findEdge (phase a) (phase b) = Some e
        \<and> (case require e of None \<Rightarrow> True | Some p \<Rightarrow> p a)
        \<and> \<not> parsed_less (updatedAt b) (updatedAt a)
        \<and> (\<forall>f \<in> set IMMUTABLE_FIELDS. same_field f a b)
        \<and> (\<forall>f \<in> set TRANSITION_FIELDS. same_field f a b \<or>
             (f \<in> set (writable e) \<and> f \<noteq> F_service
              \<and> (f \<in> set (fillOnly e) \<longrightarrow> null_field f a))))"
proof -
  have im: "first_violation (\<lambda>f. if same_field f a b then None else Some (Immutable_field_changed f))
      IMMUTABLE_FIELDS = None \<longleftrightarrow> (\<forall>f \<in> set IMMUTABLE_FIELDS. same_field f a b)"
    by (auto simp: first_violation_None_iff)
  have tr: "first_violation (edge_field_violation e a b) TRANSITION_FIELDS = None
      \<longleftrightarrow> (\<forall>f \<in> set TRANSITION_FIELDS. same_field f a b \<or>
             (f \<in> set (writable e) \<and> f \<noteq> F_service
              \<and> (f \<in> set (fillOnly e) \<longrightarrow> null_field f a)))"
    if "same_field F_service a b" for e
    unfolding first_violation_None_iff
    using that by (intro ball_cong) (auto simp: edge_field_violation_def)
  have sv: "\<forall>f \<in> set IMMUTABLE_FIELDS. same_field f a b \<Longrightarrow> same_field F_service a b"
    by (simp add: IMMUTABLE_FIELDS_def)
  show ?thesis
    unfolding validateHostDomainResetTransition_def none_or_violation
    using assms tr [OF sv] by (auto simp: im none_or_violation split: option.splits)
qed

lemma validate_same_phase:
  "phase b = phase a \<Longrightarrow> validateHostDomainResetTransition a b = Inr c \<longleftrightarrow> c = b \<and> a = b"
  by (auto simp: validateHostDomainResetTransition_def)

end
