(* ===== verification/Reset_Machine.thy ===== *)
theory Reset_Machine
  imports Reset_Policy
begin

section \<open>The reset state machine and its agreement with schema and policy\<close>

text \<open>
  apps/bridge/src/cli/operations/host-domain-reset-machine.ts: \<open>assertLegalJournal\<close> and
  \<open>nextHostResetAction\<close>, the map from a journal to the one action that comes next. The second half
  relates the three independent descriptions of a reset: the schema, the policy table and the
  machine.
\<close>

datatype reset_action =
    Stop_quarantine_and_acquire_runtime
  | Inspect_and_bind_old_domain
  | Persist_revoke_intent
  | Revoke_old_identity
  | Persist_signing_replacement_intent
  | Replace_signing_identity
  | Finalize_signing_and_replace_encryption_identity
  | Finalize_encryption_and_clear_runtime_artifacts
  | Persist_config
  | Enroll_new_identity
  | Sync_service_metadata
  | Persist_service_restore_intent
  | Restore_service_and_remove_journal

definition isLegalRevokeCombination :: "revoke_state \<Rightarrow> revoke_outcome option \<Rightarrow> bool" where
  "isLegalRevokeCombination st oc \<longleftrightarrow>
     (if st = Not_attempted \<or> st = Pending then oc = None
      else if st = Complete then oc = Some Revoked \<or> oc = Some Identity_already_revoked
      else st = Skipped \<and> oc = Some Old_identity_unreadable)"

definition legal_for_machine :: "journal \<Rightarrow> bool" where
  "legal_for_machine j \<longleftrightarrow>
     (let st = revokeState (revoke j); oc = revokeOutcome (revoke j); p = phase j in
      if \<not> isLegalRevokeCombination st oc then False
      else if p = Quarantine_pending \<or> p = Quarantined then st = Not_attempted \<and> oc = None
      else if p = Revoke_pending then st = Pending \<and> oc = None
      else if p = Old_identity_revoked then
        st = Complete \<and> (oc = Some Revoked \<or> oc = Some Identity_already_revoked)
      else if p = Prepared then st = Not_attempted \<or> st = Skipped
      else st = Complete \<or> st = Skipped)"

definition invalidMachineJournal :: js_error where
  "invalidMachineJournal = TypeError ''Host-domain reset journal is invalid''"

definition assertLegalJournal :: "journal \<Rightarrow> unit result" where
  "assertLegalJournal j = (if legal_for_machine j then ok () else throw invalidMachineJournal)"

definition prepared_action :: "journal \<Rightarrow> reset_action result" where
  "prepared_action j =
     (if revokeState (revoke j) = Skipped then
        if revokeOutcome (revoke j) \<noteq> Some Old_identity_unreadable then throw invalidMachineJournal
        else ok Persist_signing_replacement_intent
      else if revokeState (revoke j) \<noteq> Not_attempted then throw invalidMachineJournal
      else if revokeOutcome (revoke j) \<noteq> None then throw invalidMachineJournal
      else ok Persist_revoke_intent)"

definition nextHostResetAction :: "journal \<Rightarrow> reset_action result" where
  "nextHostResetAction j =
     rbind (assertLegalJournal j) (\<lambda>_.
       case phase j of
         Quarantine_pending \<Rightarrow> ok Stop_quarantine_and_acquire_runtime
       | Quarantined \<Rightarrow> ok Inspect_and_bind_old_domain
       | Prepared \<Rightarrow> prepared_action j
       | Revoke_pending \<Rightarrow> ok Revoke_old_identity
       | Old_identity_revoked \<Rightarrow> ok Persist_signing_replacement_intent
       | Signing_replacement_pending \<Rightarrow> ok Replace_signing_identity
       | Signing_identity_replaced \<Rightarrow> ok Finalize_signing_and_replace_encryption_identity
       | Encryption_identity_replaced \<Rightarrow> ok Finalize_encryption_and_clear_runtime_artifacts
       | Runtime_artifacts_cleared \<Rightarrow> ok Persist_config
       | Config_saved \<Rightarrow> ok Enroll_new_identity
       | Enrolled \<Rightarrow> ok Sync_service_metadata
       | Service_metadata_synchronized \<Rightarrow> ok Persist_service_restore_intent
       | Service_restore_pending \<Rightarrow> ok Restore_service_and_remove_journal)"

subsection \<open>Legal journals\<close>

text \<open>
  A journal that both the schema and the machine accept. The schema alone is weaker: at
  \<open>revoke-pending\<close> and \<open>old-identity-revoked\<close> it accepts the revoke decision
  \<open>skipped/old-identity-unreadable\<close>, which the machine refuses.
\<close>

definition legal_journal :: "reset_resources \<Rightarrow> journal \<Rightarrow> bool" where
  "legal_journal res j \<longleftrightarrow> valid_journal res j \<and> legal_for_machine j"

lemma legal_valid: "legal_journal res j \<Longrightarrow> valid_journal res j"
  by (simp add: legal_journal_def)

lemma isRevoke_machine: "isRevoke r \<longleftrightarrow> isLegalRevokeCombination (revokeState r) (revokeOutcome r)"
  by (cases "revokeState r") (auto simp: isRevoke_def isLegalRevokeCombination_def)

lemma expected_revoke_cases:
  assumes v: "valid_journal res j" and n: "\<not> preInspection j" "\<not> revokeSkipped j"
  shows "revokeState (revoke j) =
    (if phase j = Prepared then Not_attempted else if phase j = Revoke_pending then Pending else Complete)"
  using valid_revoke_state(1) [OF v] valid_old_known [OF v n] n by (simp add: expectedRevokeState_def)

lemma valid_legal_iff:
  assumes v: "valid_journal res j"
  shows "legal_for_machine j \<longleftrightarrow>
    \<not> ((phase j = Revoke_pending \<or> phase j = Old_identity_revoked) \<and> revokeSkipped j)"
proof -
  have comb: "isLegalRevokeCombination (revokeState (revoke j)) (revokeOutcome (revoke j))"
    using valid_revoke_state(2) [OF v] by (simp add: isRevoke_machine)
  consider (pre) "preInspection j" | (skip) "\<not> preInspection j" "revokeSkipped j"
    | (rest) "\<not> preInspection j" "\<not> revokeSkipped j" by blast
  then show ?thesis
  proof cases
    case pre
    then have "revoke j = \<lparr>revokeState = Not_attempted, revokeOutcome = None\<rparr>"
      by (rule valid_pre_inspection(5) [OF v])
    with pre show ?thesis
      by (simp add: legal_for_machine_def Let_def preInspection_def isLegalRevokeCombination_def revokeSkipped_def)
  next
    case skip
    then have "revokeState (revoke j) = Skipped" "revokeOutcome (revoke j) = Some Old_identity_unreadable"
      by (simp_all add: revokeSkipped_def)
    with skip show ?thesis
      by (auto simp: legal_for_machine_def Let_def preInspection_def isLegalRevokeCombination_def)
  next
    case rest
    with comb expected_revoke_cases [OF v rest] show ?thesis
      by (simp add: legal_for_machine_def Let_def preInspection_def isLegalRevokeCombination_def
          split: if_splits)
  qed
qed

lemma legal_combination:
  "legal_journal res j \<Longrightarrow> isLegalRevokeCombination (revokeState (revoke j)) (revokeOutcome (revoke j))"
  unfolding legal_journal_def legal_for_machine_def Let_def by argo

lemma legal_machine: "legal_journal res j \<Longrightarrow> legal_for_machine j"
  by (simp add: legal_journal_def)

lemma legal_revoke_pending:
  assumes "legal_journal res j" "phase j = Revoke_pending"
  shows "revoke j = \<lparr>revokeState = Pending, revokeOutcome = None\<rparr>"
  using legal_machine [OF assms(1)] assms(2)
  by (intro revoke_decision.equality) (simp_all add: legal_for_machine_def Let_def split: if_splits)

lemma legal_old_identity_revoked:
  assumes "legal_journal res j" "phase j = Old_identity_revoked"
  shows "\<exists>oc. oc \<noteq> Old_identity_unreadable
    \<and> revoke j = \<lparr>revokeState = Complete, revokeOutcome = Some oc\<rparr>"
proof -
  have "revokeState (revoke j) = Complete"
    "revokeOutcome (revoke j) = Some Revoked \<or> revokeOutcome (revoke j) = Some Identity_already_revoked"
    using legal_machine [OF assms(1)] assms(2)
    by (simp_all add: legal_for_machine_def Let_def split: if_splits)
  then show ?thesis
    by (elim disjE) (rule exI [of _ Revoked] exI [of _ Identity_already_revoked],
        simp add: revoke_decision.equality)+
qed

lemma legal_prepared:
  assumes "legal_journal res j" "phase j = Prepared"
  shows "revokeSkipped j \<or> revoke j = \<lparr>revokeState = Not_attempted, revokeOutcome = None\<rparr>"
proof -
  have "revokeState (revoke j) = Not_attempted \<or> revokeState (revoke j) = Skipped"
    using legal_machine [OF assms(1)] assms(2)
    by (simp add: legal_for_machine_def Let_def split: if_splits)
  then show ?thesis
    using legal_combination [OF assms(1)]
    by (elim disjE) (simp_all add: isLegalRevokeCombination_def revokeSkipped_def
        revoke_decision.equality)
qed

lemma next_action_legal:
  assumes "legal_journal res j"
  shows "\<exists>a. nextHostResetAction j = ok a"
  using legal_machine [OF assms] legal_prepared [OF assms]
  by (cases "phase j")
    (auto simp: nextHostResetAction_def assertLegalJournal_def prepared_action_def revokeSkipped_def)

subsection \<open>The table accepts exactly the transitions of the union\<close>

lemma transition_phase_less:
  "transition_allowed a t \<Longrightarrow> phase a < phase (applyHostDomainResetTransition a t u)"
  by (cases t) (auto simp: phase_order)

lemma apply_updatedAt [simp]: "updatedAt (applyHostDomainResetTransition a t u) = u"
  by (cases t) simp_all

lemmas edge_fields = TRANSITION_FIELDS_def IMMUTABLE_FIELDS_def plain_edge_def

lemma apply_validates:
  assumes l: "legal_journal res a" and t: "transition_allowed a t"
    and u: "\<not> parsed_less u (updatedAt a)"
  shows "validateHostDomainResetTransition a (applyHostDomainResetTransition a t u)
      = Inr (applyHostDomainResetTransition a t u)"
proof -
  note ev = valid_evidence [OF legal_valid [OF l]] and pre = valid_pre_inspection [OF legal_valid [OF l]]
    and rp = legal_revoke_pending [OF l]
  have ne: "phase (applyHostDomainResetTransition a t u) \<noteq> phase a"
    using transition_phase_less [OF t, of u] by auto
  show ?thesis
    unfolding validate_step_iff [OF ne]
    using t u ev pre rp
    by (cases t) (auto simp: findEdge_def TRANSITION_EDGES_def edge_fields
        preInspection_def phase_order revokeSkipped_def)
qed

fun transition_to :: "journal \<Rightarrow> transition" where
  "transition_to b =
     (case phase b of
        Quarantine_pending \<Rightarrow> To_quarantined
      | Quarantined \<Rightarrow> To_quarantined
      | Prepared \<Rightarrow> To_prepared (oldHostId b) (oldKeyId b) (oldEncryptionKeyId b) (signingCleanup b) (revoke b)
      | Revoke_pending \<Rightarrow> To_revoke_pending
      | Old_identity_revoked \<Rightarrow> To_old_identity_revoked (the (revokeOutcome (revoke b)))
      | Signing_replacement_pending \<Rightarrow> To_signing_replacement_pending (the (signingReplacementAttemptedAt b))
      | Signing_identity_replaced \<Rightarrow> To_signing_identity_replaced (the (newHostId b)) (the (newKeyId b))
      | Encryption_identity_replaced \<Rightarrow> To_encryption_identity_replaced (the (encryptionIdentityReplacedAt b))
      | Runtime_artifacts_cleared \<Rightarrow> To_runtime_artifacts_cleared (the (runtimeArtifactsClearedAt b))
      | Config_saved \<Rightarrow> To_config_saved (the (configSavedAt b))
      | Enrolled \<Rightarrow> To_enrolled (the (enrolledAt b))
      | Service_metadata_synchronized \<Rightarrow> To_service_metadata_synchronized (the (serviceMetadataSynchronizedAt b))
      | Service_restore_pending \<Rightarrow> To_service_restore_pending)"

lemma findEdge_SomeD:
  "findEdge p q = Some e \<Longrightarrow> e \<in> set TRANSITION_EDGES \<and> edge_from e = p \<and> edge_to e = q"
  by (auto simp: findEdge_def find_Some_iff)

definition unchanged :: "transition_edge \<Rightarrow> journal \<Rightarrow> journal \<Rightarrow> bool" where
  "unchanged e a b \<longleftrightarrow>
     version a = version b \<and> operationId a = operationId b \<and> profile a = profile b
     \<and> resourceDigest a = resourceDigest b \<and> createdAt a = createdAt b \<and> service a = service b
     \<and> (F_revoke \<notin> set (writable e) \<longrightarrow> revoke a = revoke b)
     \<and> (F_oldHostId \<notin> set (writable e) \<longrightarrow> oldHostId a = oldHostId b)
     \<and> (F_oldKeyId \<notin> set (writable e) \<longrightarrow> oldKeyId a = oldKeyId b)
     \<and> (F_newHostId \<notin> set (writable e) \<longrightarrow> newHostId a = newHostId b)
     \<and> (F_newKeyId \<notin> set (writable e) \<longrightarrow> newKeyId a = newKeyId b)
     \<and> (F_oldEncryptionKeyId \<notin> set (writable e) \<longrightarrow> oldEncryptionKeyId a = oldEncryptionKeyId b)
     \<and> (F_signingCleanup \<notin> set (writable e) \<longrightarrow> signingCleanup a = signingCleanup b)
     \<and> (F_signingReplacementAttemptedAt \<notin> set (writable e) \<longrightarrow>
          signingReplacementAttemptedAt a = signingReplacementAttemptedAt b)
     \<and> (F_encryptionIdentityReplacedAt \<notin> set (writable e) \<longrightarrow>
          encryptionIdentityReplacedAt a = encryptionIdentityReplacedAt b)
     \<and> (F_runtimeArtifactsClearedAt \<notin> set (writable e) \<longrightarrow>
          runtimeArtifactsClearedAt a = runtimeArtifactsClearedAt b)
     \<and> (F_configSavedAt \<notin> set (writable e) \<longrightarrow> configSavedAt a = configSavedAt b)
     \<and> (F_enrolledAt \<notin> set (writable e) \<longrightarrow> enrolledAt a = enrolledAt b)
     \<and> (F_serviceMetadataSynchronizedAt \<notin> set (writable e) \<longrightarrow>
          serviceMetadataSynchronizedAt a = serviceMetadataSynchronizedAt b)"

lemma accepted_unchanged:
  assumes ne: "phase b \<noteq> phase a" and ok: "validateHostDomainResetTransition a b = Inr c"
  obtains e where "e \<in> set TRANSITION_EDGES" "edge_from e = phase a" "edge_to e = phase b"
    "case require e of None \<Rightarrow> True | Some p \<Rightarrow> p a" "unchanged e a b"
proof -
  obtain e where e: "findEdge (phase a) (phase b) = Some e"
    and req: "case require e of None \<Rightarrow> True | Some p \<Rightarrow> p a"
    and im: "\<forall>f \<in> set IMMUTABLE_FIELDS. same_field f a b"
    and tr: "\<forall>f \<in> set TRANSITION_FIELDS. same_field f a b \<or>
             (f \<in> set (writable e) \<and> f \<noteq> F_service \<and> (f \<in> set (fillOnly e) \<longrightarrow> null_field f a))"
    using ok unfolding validate_step_iff [OF ne] by blast
  have t: "f \<in> set TRANSITION_FIELDS \<Longrightarrow> f \<notin> set (writable e) \<longrightarrow> same_field f a b" for f
    using tr by blast
  have "unchanged e a b"
    unfolding unchanged_def
    using im t [of F_revoke] t [of F_oldHostId] t [of F_oldKeyId] t [of F_newHostId] t [of F_newKeyId]
      t [of F_oldEncryptionKeyId] t [of F_signingCleanup] t [of F_signingReplacementAttemptedAt]
      t [of F_encryptionIdentityReplacedAt] t [of F_runtimeArtifactsClearedAt] t [of F_configSavedAt]
      t [of F_enrolledAt] t [of F_serviceMetadataSynchronizedAt]
    by (simp add: IMMUTABLE_FIELDS_def TRANSITION_FIELDS_def)
  with findEdge_SomeD [OF e] req that show thesis by blast
qed

lemma accepted_is_transition:
  assumes a: "legal_journal res a" and b: "legal_journal res b" and ne: "phase b \<noteq> phase a"
    and ok: "validateHostDomainResetTransition a b = Inr c"
  shows "transition_allowed a (transition_to b)
    \<and> b = applyHostDomainResetTransition a (transition_to b) (updatedAt b)"
proof -
  obtain e where m: "e \<in> set TRANSITION_EDGES" and p: "edge_from e = phase a" "edge_to e = phase b"
    and req: "case require e of None \<Rightarrow> True | Some p \<Rightarrow> p a" and un: "unchanged e a b"
    by (rule accepted_unchanged [OF ne ok])
  note ev = valid_evidence [OF legal_valid [OF b], unfolded phase_order, folded not_le]
  have rp: "phase b = Revoke_pending \<Longrightarrow> revoke b = \<lparr>revokeState = Pending, revokeOutcome = None\<rparr>"
    by (rule legal_revoke_pending [OF b])
  have oir: "phase b = Old_identity_revoked \<Longrightarrow>
      revoke b = \<lparr>revokeState = Complete, revokeOutcome = Some (the (revokeOutcome (revoke b)))\<rparr>"
    using legal_old_identity_revoked [OF b] by auto
  have some: "v \<noteq> None \<Longrightarrow> v = Some (the v)" for v :: "jsstring option" by simp
  show ?thesis
    using m unfolding TRANSITION_EDGES_def list.set insert_iff empty_iff
    by (elim disjE) (use p un req rp oir ev some in \<open>simp_all add: plain_edge_def unchanged_def revokeSkipped_def\<close>)
qed

end
