(* ===== verification/Reset_World.thy ===== *)
theory Reset_World
  imports Reset_Machine
begin

section \<open>The world of a Host reset\<close>

text \<open>
  The stateful side of the Host reset: the journal file, the runtime coordinator the process holds,
  the ports the executors call (\<open>HostResetExecutorDependencies\<close> in host-domain-reset-executor.ts and
  \<open>HostResetRecoveryDependencies\<close> in host-domain-reset-recovery.ts), and the sequencing of
  fallible calls.

  Everything outside the reset itself (key stores, Relay, service manager, clock, configuration,
  file-system faults) is a port: an arbitrary function of an arbitrary outside world \<open>'w\<close> that
  returns a result or an error. Each call is recorded in \<open>log\<close> together with the journal that was
  on disk when it was made, which is what the ordering properties speak of.
\<close>

datatype key_storage =
    Linux_key_file jsstring
  | Keychain_account jsstring

record host_identity =
  identityHostId :: jsstring
  identityKeyId :: jsstring
  identityMaterial :: jsstring
  privateKeyStorage :: key_storage

record encryption_identity =
  encryptionHostId :: jsstring
  encryptionKeyId :: jsstring

record cleanup_plan =
  planPreviousAccount :: "jsstring option"
  planPreviousPendingAccount :: "jsstring option"
  planInterruptedCreationAccount :: "jsstring option"

record legacy_evidence =
  oldIdentityUnreadable :: bool
  evidenceHostId :: "jsstring option"
  evidenceKeyId :: "jsstring option"
  sourceKind :: cleanup_kind
  sourcePath :: jsstring
  sourceProfile :: "profile_id option"
  cleanup :: "cleanup_plan option"

record host_config =
  configIdentity :: "host_identity option"
  configRest :: jsstring

datatype effect_name =
    Signing_replaced | Encryption_replaced | Artifacts_cleared | Config_was_saved | Was_enrolled
  | Service_metadata_was_synchronized | Service_restored

datatype effect =
    E_clock
  | E_random
  | E_prepare
  | E_stop service_snapshot
  | E_acquire_runtime
  | E_dispose_runtime
  | E_load_identity
  | E_inspect_legacy
  | E_load_encryption
  | E_revoke host_identity
  | E_recover_signing jsstring
  | E_replace_signing jsstring
  | E_complete_signing jsstring
  | E_delete_old_signing jsstring
  | E_recover_encryption jsstring jsstring
  | E_replace_encryption jsstring jsstring
  | E_complete_encryption jsstring
  | E_delete_old_encryption jsstring
  | E_clear_artifacts "jsstring option"
  | E_load_config
  | E_save_config host_config
  | E_enroll host_identity encryption_identity
  | E_sync_metadata service_snapshot key_storage
  | E_restore service_snapshot key_storage
  | E_inspect_artifacts
  | E_lock
  | E_read_journal
  | E_stage_journal
  | E_sync_directory
  | E_remove_journal
  | E_hook effect_name
  | E_phase_hook reset_phase

type_synonym ('w, 'a) port = "'w \<Rightarrow> 'a result \<times> 'w"

record 'w reset_deps =
  profileId :: profile_id
  resources :: reset_resources
  sha256Hex :: "jsstring \<Rightarrow> jsstring"
  identityMetadataPath :: jsstring
  baseConfig :: host_config
  clock :: "'w \<Rightarrow> int \<times> 'w"
  randomUuidHex :: "'w \<Rightarrow> jsstring \<times> 'w"
  prepare :: "('w, service_snapshot) port"
  stopAndConfirm :: "service_snapshot \<Rightarrow> ('w, unit) port"
  synchronizeMetadata :: "service_snapshot \<Rightarrow> key_storage \<Rightarrow> ('w, unit) port"
  restoreAndConfirm :: "service_snapshot \<Rightarrow> key_storage \<Rightarrow> ('w, bool) port"
  acquireRuntime :: "('w, unit) port"
  disposeRuntime :: "('w, unit) port"
  loadIdentity :: "('w, host_identity option) port"
  hasEvidenceSource :: bool
  inspectLegacy :: "('w, legacy_evidence) port"
  recoverExplicitReset :: "(jsstring \<Rightarrow> ('w, host_identity option) port) option"
  replaceIdentity :: "jsstring \<Rightarrow> ('w, host_identity) port"
  completeExplicitReset :: "(jsstring \<Rightarrow> ('w, unit) port) option"
  deleteOldSigning :: "(jsstring \<Rightarrow> ('w, unit) port) option"
  loadEncryption :: "('w, encryption_identity option) port"
  recoverReset :: "(jsstring \<Rightarrow> jsstring \<Rightarrow> ('w, encryption_identity option) port) option"
  replaceForReset :: "jsstring \<Rightarrow> jsstring \<Rightarrow> ('w, encryption_identity) port"
  completeReset :: "(jsstring \<Rightarrow> ('w, unit) port) option"
  deleteOldEncryption :: "(jsstring \<Rightarrow> ('w, unit) port) option"
  clearArtifacts :: "jsstring option \<Rightarrow> ('w, unit) port"
  loadConfig :: "('w, host_config) port"
  saveConfig :: "host_config \<Rightarrow> ('w, unit) port"
  relayRevoke :: "host_identity \<Rightarrow> ('w, revoke_outcome) port"
  relayEnroll :: "host_identity \<Rightarrow> encryption_identity \<Rightarrow> ('w, unit) port"
  reintroducedArtifacts :: "('w, bool) port"
  stateExists :: "('w, bool) port"
  spoolExists :: "('w, bool) port"
  assertCurrentArtifacts :: "jsstring \<Rightarrow> ('w, unit) port"
  assertSpoolKeyAbsent :: "('w, unit) port"
  advanceLock :: "('w, unit) port"
  advanceLockOwned :: "('w, unit) port"
  advanceUnlock :: "('w, unit) port"
  leaseOwned :: "('w, unit) port"
  readJournal :: "('w, unit) port"
  stageJournal :: "('w, unit) port"
  syncDirectory :: "('w, unit) port"
  removeStaged :: "('w, bool) port"
  unlinkJournal :: "('w, unit) port"
  afterEffect :: "effect_name \<Rightarrow> ('w, unit) port"
  afterPhase :: "reset_phase \<Rightarrow> ('w, unit) port"

text \<open>
  The state: the outside world, the log, the journal file (\<open>None\<close>: no file), whether the process
  holds the runtime coordinator, and the in-process table of restore confirmations
  (\<open>CONFIRMATIONS\<close> of host-domain-reset-journal-store.ts, keyed by issue number).
\<close>

record confirmation =
  confOperationId :: jsstring
  confJournal :: journal
  confService :: service_snapshot
  confHostId :: jsstring
  confKeyId :: jsstring
  confReference :: key_storage
  confReturn :: bool

record 'w host =
  world :: 'w
  log :: "(effect \<times> journal option) list"
  disk :: "journal option"
  held :: bool
  confirmations :: "(nat, confirmation) object"
  issued :: nat

type_synonym ('w, 'a) io = "'w host \<Rightarrow> 'a result \<times> 'w host"

definition io_return :: "'a \<Rightarrow> ('w, 'a) io" where
  "io_return a h = (ok a, h)"

definition io_throw :: "js_error \<Rightarrow> ('w, 'a) io" where
  "io_throw e h = (throw e, h)"

definition io_bind :: "('w, 'a) io \<Rightarrow> ('a \<Rightarrow> ('w, 'b) io) \<Rightarrow> ('w, 'b) io" where
  "io_bind m f h = (case m h of (Inl e, h') \<Rightarrow> (Inl e, h') | (Inr a, h') \<Rightarrow> f a h')"

definition io_catch :: "('w, 'a) io \<Rightarrow> (js_error \<Rightarrow> ('w, 'a) io) \<Rightarrow> ('w, 'a) io" where
  "io_catch m f h = (case m h of (Inl e, h') \<Rightarrow> f e h' | (Inr a, h') \<Rightarrow> (Inr a, h'))"

text \<open>\<open>try { m } finally { c }\<close>: an error of the cleanup replaces the outcome of the body.\<close>

definition io_finally :: "('w, 'a) io \<Rightarrow> ('w, unit) io \<Rightarrow> ('w, 'a) io" where
  "io_finally m c h =
     (case m h of (r, h') \<Rightarrow> case c h' of (Inl e, h'') \<Rightarrow> (Inl e, h'') | (Inr _, h'') \<Rightarrow> (r, h''))"

definition io_lift :: "'a result \<Rightarrow> ('w, 'a) io" where
  "io_lift r h = (r, h)"

text \<open>A port call, recorded.\<close>

definition call :: "effect \<Rightarrow> ('w, 'a) port \<Rightarrow> ('w, 'a) io" where
  "call e p h =
     (case p (world h) of (r, w) \<Rightarrow> (r, h\<lparr>world := w, log := log h @ [(e, disk h)]\<rparr>))"

text \<open>An optional method, \<open>store.method?.(...)\<close>.\<close>

definition call_option :: "effect \<Rightarrow> ('w, unit) port option \<Rightarrow> ('w, unit) io" where
  "call_option e p = (case p of None \<Rightarrow> io_return () | Some q \<Rightarrow> call e q)"

text \<open>\<open>(deps.now?.() ?? new Date()).toISOString()\<close>\<close>

definition stamp :: "'w reset_deps \<Rightarrow> ('w, jsstring) io" where
  "stamp d = call E_clock (\<lambda>w. case clock d w of (t, w') \<Rightarrow> (to_iso_string t, w'))"

lemma io_run_simps:
  "io_return a h = (Inr a, h)"
  "io_throw e h = (Inl e, h)"
  "io_lift r h = (r, h)"
  by (simp_all add: io_return_def io_throw_def io_lift_def)

lemma io_bind_cases:
  assumes "io_bind m f h = (r, h')"
  obtains e where "m h = (Inl e, h')" "r = Inl e"
    | a h1 where "m h = (Inr a, h1)" "f a h1 = (r, h')"
  using assms by (auto simp: io_bind_def split: prod.splits sum.splits)

subsection \<open>The contract of the calls\<close>

text \<open>
  \<open>runs R m Q\<close>: whatever the ports do, a run of \<open>m\<close> relates the states before and after by \<open>R\<close>, and
  if it returns a value, \<open>Q\<close> holds of it. For a reflexive and transitive \<open>R\<close> the contract composes
  along the sequencing of the code.
\<close>

definition runs :: "('w host \<Rightarrow> 'w host \<Rightarrow> bool) \<Rightarrow> ('w, 'a) io \<Rightarrow> ('a \<Rightarrow> bool) \<Rightarrow> bool" where
  "runs R m Q \<longleftrightarrow> (\<forall>h. R h (snd (m h)) \<and> (\<forall>a. fst (m h) = Inr a \<longrightarrow> Q a))"

lemma runsD: "runs R m Q \<Longrightarrow> R h (snd (m h))" "runs R m Q \<Longrightarrow> fst (m h) = Inr a \<Longrightarrow> Q a"
  by (auto simp: runs_def)

lemma runs_conseq: "runs R m Q \<Longrightarrow> (\<And>a. Q a \<Longrightarrow> S a) \<Longrightarrow> runs R m S"
  by (auto simp: runs_def)

lemma runs_weaken: "runs R m Q \<Longrightarrow> runs R m (\<lambda>_. True)"
  by (auto simp: runs_def)

lemma runs_if:
  "(c \<Longrightarrow> runs R m Q) \<Longrightarrow> (\<not> c \<Longrightarrow> runs R n Q) \<Longrightarrow> runs R (if c then m else n) Q"
  by simp

lemma runs_case_option:
  "(x = None \<Longrightarrow> runs R m Q) \<Longrightarrow> (\<And>a. x = Some a \<Longrightarrow> runs R (f a) Q)
    \<Longrightarrow> runs R (case x of None \<Rightarrow> m | Some a \<Rightarrow> f a) Q"
  by (cases x) auto

lemma runs_case_sum:
  "(\<And>a. x = Inl a \<Longrightarrow> runs R (f a) Q) \<Longrightarrow> (\<And>b. x = Inr b \<Longrightarrow> runs R (g b) Q)
    \<Longrightarrow> runs R (case x of Inl a \<Rightarrow> f a | Inr b \<Rightarrow> g b) Q"
  by (cases x) auto

lemma runs_case_prod:
  "(\<And>a b. x = (a, b) \<Longrightarrow> runs R (f a b) Q) \<Longrightarrow> runs R (case x of (a, b) \<Rightarrow> f a b) Q"
  by (cases x) auto

lemmas runs_splits = runs_if runs_case_option runs_case_sum runs_case_prod

locale host_order =
  fixes R :: "'w host \<Rightarrow> 'w host \<Rightarrow> bool"
  assumes refl: "R h h"
    and trans: "R h1 h2 \<Longrightarrow> R h2 h3 \<Longrightarrow> R h1 h3"
begin

lemma runs_return: "Q a \<Longrightarrow> runs R (io_return a) Q"
  by (simp add: runs_def io_return_def refl)

lemma runs_throw: "runs R (io_throw e) Q"
  by (simp add: runs_def io_throw_def refl)

lemma runs_lift: "(\<And>a. r = Inr a \<Longrightarrow> Q a) \<Longrightarrow> runs R (io_lift r) Q"
  by (simp add: runs_def io_lift_def refl)

lemma runs_bind:
  assumes m: "runs R m Q" and f: "\<And>a. Q a \<Longrightarrow> runs R (f a) S"
  shows "runs R (io_bind m f) S"
  unfolding runs_def
proof (intro allI)
  fix h
  show "R h (snd (io_bind m f h)) \<and> (\<forall>b. fst (io_bind m f h) = Inr b \<longrightarrow> S b)"
  proof (cases "m h")
    case (Pair r h1)
    have r1: "R h h1" using runsD(1) [OF m, of h] Pair by simp
    show ?thesis
    proof (cases r)
      case (Inl e)
      with Pair r1 show ?thesis by (simp add: io_bind_def)
    next
      case (Inr a)
      then have "runs R (f a) S" using f runsD(2) [OF m, of h a] Pair by simp
      then show ?thesis
        using Pair Inr trans [OF r1] by (simp add: io_bind_def runs_def)
    qed
  qed
qed

lemma runs_seq:
  "runs R m (\<lambda>_. True) \<Longrightarrow> (\<And>a. runs R (f a) S) \<Longrightarrow> runs R (io_bind m f) S"
  by (rule runs_bind)

lemma runs_catch:
  assumes m: "runs R m Q" and f: "\<And>e. runs R (f e) Q"
  shows "runs R (io_catch m f) Q"
  unfolding runs_def
proof (intro allI)
  fix h
  show "R h (snd (io_catch m f h)) \<and> (\<forall>b. fst (io_catch m f h) = Inr b \<longrightarrow> Q b)"
  proof (cases "m h")
    case (Pair r h1)
    have r1: "R h h1" using runsD(1) [OF m, of h] Pair by simp
    show ?thesis
      using runsD(2) [OF m, of h] f [unfolded runs_def] Pair r1
      by (cases r) (auto simp: io_catch_def intro: trans)
  qed
qed

lemma runs_finally:
  assumes m: "runs R m Q" and c: "runs R c P"
  shows "runs R (io_finally m c) Q"
  unfolding runs_def
proof (intro allI)
  fix h
  show "R h (snd (io_finally m c h)) \<and> (\<forall>b. fst (io_finally m c h) = Inr b \<longrightarrow> Q b)"
  proof (cases "m h")
    case (Pair r h1)
    have r1: "R h h1" using runsD(1) [OF m, of h] Pair by simp
    show ?thesis
      using trans [OF r1 runsD(1) [OF c, of h1]] runsD(2) [OF m, of h] Pair
      by (cases "c h1"; cases "fst (c h1)") (auto simp: io_finally_def)
  qed
qed

lemma runs_call_option:
  assumes "\<And>q. p = Some q \<Longrightarrow> runs R (call e q) (\<lambda>_. True)"
  shows "runs R (call_option e p) (\<lambda>_. True)"
  using assms by (cases p) (simp_all add: call_option_def runs_return)

end

end
