(* ===== verification/Reset_Store.thy ===== *)
theory Reset_Store
  imports Reset_World
begin

section \<open>The secure journal store\<close>

text \<open>
  apps/bridge/src/cli/operations/host-domain-reset-journal-store.ts: loading, creating and advancing
  the journal file, the restore seam that issues a single-use confirmation and the guarded removal
  that consumes it. The write protocol of \<open>writeSecureFile\<close>
  (host-manager/secure-files/secret-files.ts) is kept at its three stages: everything before the
  rename or link (which leaves the file as it was), the promotion itself, and the directory sync
  after it (which may fail with the new file already in place).

  The encoded journal that a confirmation carries (\<open>encodeHostDomainResetJournal\<close>) is the text of
  the validated journal; the model keeps the journal itself.
\<close>

subsection \<open>Files\<close>

definition set_disk :: "journal option \<Rightarrow> ('w, unit) io" where
  "set_disk v h = (ok (), h\<lparr>disk := v\<rparr>)"

definition get_host :: "('w host \<Rightarrow> 'a) \<Rightarrow> ('w, 'a) io" where
  "get_host f h = (ok (f h), h)"

definition loadHostDomainResetJournal :: "'w reset_deps \<Rightarrow> ('w, journal option) io" where
  "loadHostDomainResetJournal d =
     io_bind (get_host disk) (\<lambda>stored.
       case stored of
         None \<Rightarrow> io_return None
       | Some j \<Rightarrow>
           io_bind
             (io_catch (call E_read_journal (readJournal d))
               (\<lambda>_. io_throw (TypeError ''Host-domain reset journal could not be read securely'')))
             (\<lambda>_. io_bind (io_lift (parseHostDomainResetJournal j (resources d)))
               (\<lambda>v. io_return (Some v))))"

text \<open>\<open>writeSecureJsonExclusive\<close>: a failure after the link removes the new file again, if it can.\<close>

definition undo_link :: "'w reset_deps \<Rightarrow> js_error \<Rightarrow> ('w, unit) io" where
  "undo_link d e =
     io_bind (call E_sync_directory (removeStaged d)) (\<lambda>removed.
     if removed then io_bind (set_disk None) (\<lambda>_. io_throw e) else io_throw e)"

definition link_journal :: "'w reset_deps \<Rightarrow> journal \<Rightarrow> ('w, unit) io" where
  "link_journal d j =
     io_bind (call E_stage_journal (stageJournal d)) (\<lambda>_.
     io_bind (call E_lock (leaseOwned d)) (\<lambda>_.
     io_bind (set_disk (Some j)) (\<lambda>_.
     io_catch (call E_sync_directory (syncDirectory d)) (undo_link d))))"

definition writeJournalExclusive :: "'w reset_deps \<Rightarrow> journal \<Rightarrow> ('w, unit) io" where
  "writeJournalExclusive d j =
     io_bind (get_host disk) (\<lambda>present.
     if present \<noteq> None then io_throw (PlainError ''Secure target already exists'')
     else link_journal d j)"

definition createHostDomainResetJournal :: "'w reset_deps \<Rightarrow> journal \<Rightarrow> ('w, journal) io" where
  "createHostDomainResetJournal d initial =
     (if phase initial \<noteq> Quarantine_pending then
        io_throw (TypeError ''Host-domain reset journal must be created in quarantine-pending'')
      else
        io_bind (io_lift (parseHostDomainResetJournal initial (resources d))) (\<lambda>validated.
        io_bind (call E_lock (leaseOwned d)) (\<lambda>_.
        io_bind (writeJournalExclusive d validated) (\<lambda>_.
        io_bind (call E_lock (leaseOwned d)) (\<lambda>_.
        io_return validated)))))"

definition writeJournal :: "'w reset_deps \<Rightarrow> journal \<Rightarrow> ('w, unit) io" where
  "writeJournal d j =
     io_bind (call E_stage_journal (stageJournal d)) (\<lambda>_.
     io_bind (call E_lock (advanceLockOwned d)) (\<lambda>_.
     io_bind (call E_lock (leaseOwned d)) (\<lambda>_.
     io_bind (set_disk (Some j)) (\<lambda>_.
     call E_sync_directory (syncDirectory d)))))"

definition commit_transition :: "'w reset_deps \<Rightarrow> journal \<Rightarrow> transition \<Rightarrow> ('w, journal) io" where
  "commit_transition d stored t =
     io_bind (stamp d) (\<lambda>u.
     io_bind (io_lift (parseHostDomainResetJournal (applyHostDomainResetTransition stored t u)
                (resources d))) (\<lambda>candidate.
     case validateHostDomainResetTransition stored candidate of
       Inl reason \<Rightarrow> io_throw (TypeError (hostResetJournalViolationMessage reason))
     | Inr accepted \<Rightarrow>
         io_bind (call E_lock (leaseOwned d)) (\<lambda>_.
         io_bind (writeJournal d accepted) (\<lambda>_.
         io_return accepted))))"

definition advanceHostDomainResetJournal ::
    "'w reset_deps \<Rightarrow> journal \<Rightarrow> transition \<Rightarrow> ('w, journal) io" where
  "advanceHostDomainResetJournal d current t =
     io_bind (call E_lock (advanceLock d)) (\<lambda>_.
       io_finally
         (io_bind (loadHostDomainResetJournal d) (\<lambda>stored.
            case stored of
              None \<Rightarrow> io_throw (TypeError ''Host-domain reset journal changed before advancement'')
            | Some s \<Rightarrow>
                if s \<noteq> current then
                  io_throw (TypeError ''Host-domain reset journal changed before advancement'')
                else commit_transition d s t))
         (call E_lock (advanceUnlock d)))"

subsection \<open>Restore confirmation and guarded removal\<close>

definition forgedConfirmation :: js_error where
  "forgedConfirmation =
     CliError ''ERR_HOST_RESET_CONFIRMATION_FORGED''
       ''Host restore confirmation is forged, reused, or unrecognized.''"

definition removalBindingError :: "string \<Rightarrow> js_error" where
  "removalBindingError code =
     CliError code ''Host restore confirmation does not match the current reset journal.''"

definition isExactIdentityReference :: "'w reset_deps \<Rightarrow> jsstring option \<Rightarrow> key_storage \<Rightarrow> bool" where
  "isExactIdentityReference d hostId ref =
     (case ref of
        Linux_key_file path \<Rightarrow> path = identityMetadataPath d
      | Keychain_account account \<Rightarrow> hostId = Some account)"

definition assertReplacementIdentity ::
    "'w reset_deps \<Rightarrow> journal \<Rightarrow> host_identity \<Rightarrow> ('w, unit) io" where
  "assertReplacementIdentity d j replacement =
     (if Some (identityHostId replacement) \<noteq> newHostId j
         \<or> Some (identityKeyId replacement) \<noteq> newKeyId j
         \<or> \<not> isExactIdentityReference d (Some (identityHostId replacement)) (privateKeyStorage replacement)
      then io_throw (removalBindingError ''ERR_HOST_RESET_REMOVE_WRONG_IDENTITY'')
      else io_return ())"

definition issue_confirmation :: "confirmation \<Rightarrow> ('w, nat) io" where
  "issue_confirmation c h =
     (ok (issued h), h\<lparr>confirmations := oput (issued h) c (confirmations h), issued := Suc (issued h)\<rparr>)"

definition restoreHostDomainServiceAndConfirm ::
    "'w reset_deps \<Rightarrow> journal \<Rightarrow> host_identity \<Rightarrow> ('w, bool \<times> nat) io" where
  "restoreHostDomainServiceAndConfirm d current replacement =
     io_bind (call E_lock (leaseOwned d)) (\<lambda>_.
     if phase current \<noteq> Service_restore_pending then
       io_throw (TypeError ''Host-domain reset service restoration requires service-restore-pending'')
     else
       io_bind (loadHostDomainResetJournal d) (\<lambda>stored.
       if stored \<noteq> Some current then
         io_throw (CliError ''ERR_HOST_RESET_REMOVE_STALE_JOURNAL''
           ''Host-domain reset journal changed before service restoration.'')
       else
         io_bind (assertReplacementIdentity d current replacement) (\<lambda>_.
         io_bind (call (E_restore (service current) (privateKeyStorage replacement))
                    (restoreAndConfirm d (service current) (privateKeyStorage replacement)))
           (\<lambda>processRunning.
         io_bind (call E_lock (leaseOwned d)) (\<lambda>_.
         io_bind (io_lift (parseHostDomainResetJournal current (resources d))) (\<lambda>encoded.
         io_bind (issue_confirmation
                    \<lparr>confOperationId = operationId current, confJournal = encoded,
                     confService = service current, confHostId = identityHostId replacement,
                     confKeyId = identityKeyId replacement,
                     confReference = privateKeyStorage replacement, confReturn = processRunning\<rparr>)
           (\<lambda>token. io_return (processRunning, token))))))))"

definition delete_confirmation :: "nat \<Rightarrow> ('w, unit) io" where
  "delete_confirmation n h = (ok (), h\<lparr>confirmations := odel n (confirmations h)\<rparr>)"

definition consumeRestoreConfirmation :: "'w reset_deps \<Rightarrow> nat \<Rightarrow> journal \<Rightarrow> ('w, unit) io" where
  "consumeRestoreConfirmation d token stored =
     io_bind (get_host (\<lambda>h. oget (confirmations h) token)) (\<lambda>payload.
     case payload of
       None \<Rightarrow> io_throw forgedConfirmation
     | Some c \<Rightarrow>
         if confOperationId c \<noteq> operationId stored then
           io_throw (removalBindingError ''ERR_HOST_RESET_REMOVE_WRONG_OPERATION'')
         else
           io_bind (io_lift (parseHostDomainResetJournal stored (resources d))) (\<lambda>encoded.
           if confJournal c \<noteq> encoded then
             io_throw (removalBindingError ''ERR_HOST_RESET_REMOVE_STALE_JOURNAL'')
           else if confService c \<noteq> service stored then
             io_throw (removalBindingError ''ERR_HOST_RESET_REMOVE_WRONG_SERVICE'')
           else if Some (confHostId c) \<noteq> newHostId stored \<or> Some (confKeyId c) \<noteq> newKeyId stored
             \<or> \<not> isExactIdentityReference d (newHostId stored) (confReference c) then
             io_throw (removalBindingError ''ERR_HOST_RESET_REMOVE_WRONG_IDENTITY'')
           else delete_confirmation token))"

text \<open>\<open>removeSecureFileIfPresent\<close>: checks and the lease, the unlink, the directory sync.\<close>

definition removeJournalFile :: "'w reset_deps \<Rightarrow> ('w, unit) io" where
  "removeJournalFile d =
     io_bind (call E_remove_journal (unlinkJournal d)) (\<lambda>_.
     io_bind (call E_lock (leaseOwned d)) (\<lambda>_.
     io_bind (set_disk None) (\<lambda>_.
     call E_sync_directory (syncDirectory d))))"

definition removeAfterServiceRestoreConfirmed ::
    "'w reset_deps \<Rightarrow> journal \<Rightarrow> nat \<Rightarrow> ('w, unit) io" where
  "removeAfterServiceRestoreConfirmed d current token =
     io_bind (call E_lock (leaseOwned d)) (\<lambda>_.
     if phase current \<noteq> Service_restore_pending then
       io_throw (CliError ''ERR_HOST_RESET_REMOVE_WRONG_PHASE''
         ''guarded removal requires service-restore-pending.'')
     else
       io_bind (loadHostDomainResetJournal d) (\<lambda>stored.
       if stored \<noteq> Some current then
         io_throw (CliError ''ERR_HOST_RESET_REMOVE_STALE_JOURNAL''
           ''Host-domain reset journal changed before guarded removal.'')
       else
         io_bind (consumeRestoreConfirmation d token current) (\<lambda>_.
         io_bind (call E_lock (leaseOwned d)) (\<lambda>_.
         removeJournalFile d))))"

end
