(* ===== verification/Reset_Executor.thy ===== *)
theory Reset_Executor
  imports Reset_Store
begin

section \<open>The effect executors\<close>

text \<open>
  apps/bridge/src/cli/operations/host-domain-reset-executor.ts: one executor per machine action. An
  executor performs its effects through the ports and returns the transition that the coordinator
  commits; it never writes the journal itself.
\<close>

definition recoveryRequired :: "string \<Rightarrow> js_error" where
  "recoveryRequired message = CliError ''ERR_HOST_RESET_RECOVERY_REQUIRED'' message"

definition activeRuntimeError :: js_error where
  "activeRuntimeError = CliError ''ERR_HOST_RESET_RUNTIME_ACTIVE'' ''Host reset runtime is active''"

definition isDefiniteResetRequiredIdentityError :: "js_error \<Rightarrow> bool" where
  "isDefiniteResetRequiredIdentityError e =
     (case e of
        IdentityError code \<Rightarrow>
          code \<in> {''ERR_IDENTITY_INVALID'', ''ERR_IDENTITY_MISSING'', ''ERR_IDENTITY_RESET_REQUIRED''}
      | _ \<Rightarrow> False)"

definition phaseBefore :: "reset_phase \<Rightarrow> reset_phase \<Rightarrow> bool" where
  "phaseBefore p q \<longleftrightarrow> PHASE_INDEX p < PHASE_INDEX q"

datatype executor_result = Transition_result transition | Restore_result journal

subsection \<open>Identity store helpers\<close>

definition loadExpectedOldIdentity :: "'w reset_deps \<Rightarrow> journal \<Rightarrow> ('w, host_identity option) io" where
  "loadExpectedOldIdentity d j =
     (if oldHostId j = None \<or> oldHostId j = Some [] \<or> revokeOutcome (revoke j) = Some Old_identity_unreadable
      then io_return None
      else
        io_bind (call E_load_identity (loadIdentity d)) (\<lambda>current.
        if (case current of
              None \<Rightarrow> True
            | Some i \<Rightarrow> Some (identityHostId i) \<noteq> oldHostId j \<or> Some (identityKeyId i) \<noteq> oldKeyId j)
           \<and> (phase j = Prepared \<or> phase j = Revoke_pending)
        then io_throw (recoveryRequired
          ''Old Host signing identity evidence changed before Relay revoke completed'')
        else io_return current))"

definition requireReplacement :: "'w reset_deps \<Rightarrow> journal \<Rightarrow> ('w, host_identity) io" where
  "requireReplacement d j =
     (case (newHostId j, newKeyId j) of
        (Some host, Some key) \<Rightarrow>
          if host = [] \<or> key = [] then
            io_throw (recoveryRequired ''Replacement Host identity is not journaled'')
          else
            io_bind (call E_load_identity (loadIdentity d)) (\<lambda>current.
            case current of
              None \<Rightarrow> io_throw (recoveryRequired ''Replacement Host signing identity evidence is invalid'')
            | Some i \<Rightarrow>
                if identityHostId i \<noteq> host \<or> identityKeyId i \<noteq> key then
                  io_throw (recoveryRequired ''Replacement Host signing identity evidence is invalid'')
                else io_return i)
      | _ \<Rightarrow> io_throw (recoveryRequired ''Replacement Host identity is not journaled''))"

definition cleanup_or_empty :: "cleanup_plan option \<Rightarrow> cleanup_plan" where
  "cleanup_or_empty c =
     (case c of
        None \<Rightarrow> \<lparr>planPreviousAccount = None, planPreviousPendingAccount = None,
                  planInterruptedCreationAccount = None\<rparr>
      | Some p \<Rightarrow> p)"

definition cleanup_matches :: "'w reset_deps \<Rightarrow> journal \<Rightarrow> signing_cleanup \<Rightarrow> legacy_evidence \<Rightarrow> bool" where
  "cleanup_matches d j expected e \<longleftrightarrow>
     oldIdentityUnreadable e
     \<and> evidenceHostId e = oldHostId j \<and> evidenceKeyId e = oldKeyId j
     \<and> sourceKind e = kind expected
     \<and> sha256Hex d (sourcePath e) = cleanupDigest expected
     \<and> (case sourceProfile e of None \<Rightarrow> True | Some p \<Rightarrow> p = cleanupProfile expected)
     \<and> cleanup_or_empty (cleanup e)
       = \<lparr>planPreviousAccount = previousAccount expected,
          planPreviousPendingAccount = previousPendingAccount expected,
          planInterruptedCreationAccount = interruptedCreationAccount expected\<rparr>"

definition prepareExactSigningCleanup :: "'w reset_deps \<Rightarrow> journal \<Rightarrow> ('w, unit) io" where
  "prepareExactSigningCleanup d j =
     (if phase j \<noteq> Signing_replacement_pending then io_return ()
      else case signingCleanup j of
        None \<Rightarrow> io_return ()
      | Some expected \<Rightarrow>
          io_bind (call E_inspect_legacy (inspectLegacy d)) (\<lambda>e.
          if cleanup_matches d j expected e then io_return ()
          else io_throw (recoveryRequired
            ''Old Host signing identity cleanup evidence changed before replacement'')))"

definition recover_candidate :: "'w reset_deps \<Rightarrow> journal \<Rightarrow> ('w, host_identity option) io" where
  "recover_candidate d j =
     io_catch
       (case recoverExplicitReset d of
          None \<Rightarrow> io_return None
        | Some recover \<Rightarrow> call (E_recover_signing (operationId j)) (recover (operationId j)))
       (\<lambda>e. if isDefiniteResetRequiredIdentityError e then io_return None else io_throw e)"

definition replace_now :: "'w reset_deps \<Rightarrow> journal \<Rightarrow> ('w, host_identity) io" where
  "replace_now d j = call (E_replace_signing (operationId j)) (replaceIdentity d (operationId j))"

text \<open>
  \<open>adoptOrReplaceSigningIdentity\<close>: the load of the second \<open>try\<close> returns, or its error has been
  handled by one of the two early returns of the \<open>catch\<close> block; the sum keeps the two apart.
\<close>

definition adopt_after_load ::
    "'w reset_deps \<Rightarrow> journal \<Rightarrow> host_identity option \<Rightarrow> host_identity option \<Rightarrow> ('w, host_identity) io" where
  "adopt_after_load d j proven current =
     (if newHostId j \<noteq> None then
        (case current of
           None \<Rightarrow> io_throw (recoveryRequired ''Replacement Host signing identity evidence is invalid'')
         | Some i \<Rightarrow>
             if Some (identityHostId i) \<noteq> newHostId j \<or> Some (identityKeyId i) \<noteq> newKeyId j then
               io_throw (recoveryRequired ''Replacement Host signing identity evidence is invalid'')
             else io_return i)
      else if (case current of None \<Rightarrow> False | Some i \<Rightarrow> Some (identityHostId i) \<noteq> oldHostId j) then
        (case (current, proven) of
           (Some i, Some p) \<Rightarrow>
             if identityHostId i \<noteq> identityHostId p \<or> identityKeyId i \<noteq> identityKeyId p then
               io_throw (recoveryRequired ''Foreign Host signing identity evidence appeared before replacement'')
             else io_return p
         | _ \<Rightarrow> io_throw (recoveryRequired ''Foreign Host signing identity evidence appeared before replacement''))
      else if phase j \<noteq> Signing_replacement_pending then
        io_throw (recoveryRequired ''Replacement Host signing identity evidence is missing'')
      else
        io_bind (prepareExactSigningCleanup d j) (\<lambda>_.
        case proven of Some p \<Rightarrow> io_return p | None \<Rightarrow> replace_now d j))"

definition adoptOrReplaceSigningIdentity :: "'w reset_deps \<Rightarrow> journal \<Rightarrow> ('w, host_identity) io" where
  "adoptOrReplaceSigningIdentity d j =
     io_bind (recover_candidate d j) (\<lambda>proven.
     io_bind
       (io_catch
         (io_bind (call E_load_identity (loadIdentity d)) (\<lambda>current. io_return (Inl current)))
         (\<lambda>e. if \<not> isDefiniteResetRequiredIdentityError e then io_throw e
              else case proven of
                Some p \<Rightarrow> io_return (Inr p)
              | None \<Rightarrow>
                  io_bind (prepareExactSigningCleanup d j) (\<lambda>_.
                  io_bind (replace_now d j) (\<lambda>i. io_return (Inr i)))))
       (\<lambda>loaded. case loaded of
          Inr i \<Rightarrow> io_return i
        | Inl current \<Rightarrow> adopt_after_load d j proven current))"

subsection \<open>Executors\<close>

definition same_service_binding :: "service_snapshot \<Rightarrow> service_snapshot \<Rightarrow> bool" where
  "same_service_binding a b \<longleftrightarrow>
     managed a = managed b \<and> installed a = installed b \<and> enabled a = enabled b \<and> backend a = backend b"

definition set_held :: "bool \<Rightarrow> ('w, unit) io" where
  "set_held b h = (ok (), h\<lparr>held := b\<rparr>)"

definition acquire_runtime :: "'w reset_deps \<Rightarrow> ('w, unit) io" where
  "acquire_runtime d =
     io_bind (io_catch (call E_acquire_runtime (acquireRuntime d)) (\<lambda>_. io_throw activeRuntimeError))
       (\<lambda>_. set_held True)"

definition executeStopQuarantineAndAcquireRuntime ::
    "'w reset_deps \<Rightarrow> journal \<Rightarrow> ('w, executor_result) io" where
  "executeStopQuarantineAndAcquireRuntime d j =
     io_bind (call E_prepare (prepare d)) (\<lambda>current.
     if \<not> same_service_binding current (service j) then
       io_throw (recoveryRequired ''Host reset service state changed during recovery'')
     else
       io_bind (call (E_stop (service j)) (stopAndConfirm d (service j))) (\<lambda>_.
       io_bind (acquire_runtime d) (\<lambda>_.
       io_return (Transition_result To_quarantined))))"

text \<open>The old identity, and the legacy evidence when it cannot be read.\<close>

definition inspect_old_identity ::
    "'w reset_deps \<Rightarrow> ('w, host_identity option \<times> legacy_evidence option) io" where
  "inspect_old_identity d =
     io_catch
       (io_bind (call E_load_identity (loadIdentity d)) (\<lambda>i. io_return (i, None)))
       (\<lambda>e. if \<not> isDefiniteResetRequiredIdentityError e then io_throw e
            else
              io_bind (call E_inspect_legacy (inspectLegacy d)) (\<lambda>ev.
              if \<not> oldIdentityUnreadable ev then io_throw e else io_return (None, Some ev)))"

definition keychain_evidence ::
    "'w reset_deps \<Rightarrow> host_identity option \<Rightarrow> legacy_evidence option \<Rightarrow> ('w, legacy_evidence option) io" where
  "keychain_evidence d old ev =
     (if old \<noteq> None \<and> hasEvidenceSource d then
        io_bind (call E_inspect_legacy (inspectLegacy d)) (\<lambda>decoded.
        io_return (if sourceKind decoded = Macos_keychain then Some decoded else ev))
      else io_return ev)"

definition bind_cleanup :: "'w reset_deps \<Rightarrow> legacy_evidence \<Rightarrow> signing_cleanup" where
  "bind_cleanup d e =
     \<lparr>kind = sourceKind e, cleanupDigest = sha256Hex d (sourcePath e), cleanupProfile = profileId d,
      previousAccount = planPreviousAccount (cleanup_or_empty (cleanup e)),
      previousPendingAccount = planPreviousPendingAccount (cleanup_or_empty (cleanup e)),
      interruptedCreationAccount = planInterruptedCreationAccount (cleanup_or_empty (cleanup e))\<rparr>"

definition prepared_transition ::
    "'w reset_deps \<Rightarrow> host_identity option \<Rightarrow> legacy_evidence option \<Rightarrow> encryption_identity option \<Rightarrow> transition" where
  "prepared_transition d old ev enc =
     To_prepared
       (case old of Some i \<Rightarrow> Some (identityHostId i)
                  | None \<Rightarrow> (case ev of Some e \<Rightarrow> evidenceHostId e | None \<Rightarrow> None))
       (case old of Some i \<Rightarrow> Some (identityKeyId i)
                  | None \<Rightarrow> (case ev of Some e \<Rightarrow> evidenceKeyId e | None \<Rightarrow> None))
       (map_option encryptionKeyId enc)
       (map_option (bind_cleanup d) ev)
       (if old \<noteq> None then \<lparr>revokeState = Not_attempted, revokeOutcome = None\<rparr>
        else \<lparr>revokeState = Skipped, revokeOutcome = Some Old_identity_unreadable\<rparr>)"

definition executeInspectAndBindOldDomain ::
    "'w reset_deps \<Rightarrow> journal \<Rightarrow> ('w, executor_result) io" where
  "executeInspectAndBindOldDomain d j =
     (if phase j \<noteq> Quarantined then
        io_throw (recoveryRequired ''Host reset identity inspection requires the quarantined phase'')
      else
        io_bind (inspect_old_identity d) (\<lambda>(old, ev0).
        io_bind (keychain_evidence d old ev0) (\<lambda>ev.
        io_bind (call E_load_encryption (loadEncryption d)) (\<lambda>enc.
        io_return (Transition_result (prepared_transition d old ev enc))))))"

definition executePersistRevokeIntent :: "journal \<Rightarrow> ('w, executor_result) io" where
  "executePersistRevokeIntent j =
     (if revokeState (revoke j) \<noteq> Not_attempted \<or> revokeOutcome (revoke j) \<noteq> None then
        io_throw (recoveryRequired
          ''Host reset revoke intent is not authorized by the journaled revoke evidence'')
      else io_return (Transition_result To_revoke_pending))"

definition executeRevokeOldIdentity :: "'w reset_deps \<Rightarrow> journal \<Rightarrow> ('w, executor_result) io" where
  "executeRevokeOldIdentity d j =
     io_bind (loadExpectedOldIdentity d j) (\<lambda>old.
     case old of
       None \<Rightarrow> io_throw (recoveryRequired ''Old Host identity is unavailable while Relay revoke is pending'')
     | Some i \<Rightarrow>
         io_bind
           (io_catch (call (E_revoke i) (relayRevoke d i))
             (\<lambda>_. io_throw (recoveryRequired
               ''Relay revoke could not be completed; retry to resume recovery'')))
           (\<lambda>oc. io_return (Transition_result (To_old_identity_revoked oc))))"

definition executePersistSigningReplacementIntent :: "'w reset_deps \<Rightarrow> ('w, executor_result) io" where
  "executePersistSigningReplacementIntent d =
     io_bind (stamp d) (\<lambda>at. io_return (Transition_result (To_signing_replacement_pending at)))"

definition executeReplaceSigningIdentity :: "'w reset_deps \<Rightarrow> journal \<Rightarrow> ('w, executor_result) io" where
  "executeReplaceSigningIdentity d j =
     io_bind (adoptOrReplaceSigningIdentity d j) (\<lambda>replacement.
     io_bind
       (case (oldHostId j, deleteOldSigning d, completeExplicitReset d) of
          (Some old, Some delete, None) \<Rightarrow>
            if old = [] then io_return () else call (E_delete_old_signing old) (delete old)
        | _ \<Rightarrow> io_return ())
       (\<lambda>_.
     io_bind (call (E_hook Signing_replaced) (afterEffect d Signing_replaced)) (\<lambda>_.
     io_return (Transition_result
       (To_signing_identity_replaced (identityHostId replacement) (identityKeyId replacement))))))"

definition recover_encryption ::
    "'w reset_deps \<Rightarrow> journal \<Rightarrow> host_identity \<Rightarrow> ('w, encryption_identity option) io" where
  "recover_encryption d j replacement =
     (case recoverReset d of
        None \<Rightarrow> io_return None
      | Some recover \<Rightarrow>
          call (E_recover_encryption (identityHostId replacement) (operationId j))
            (recover (identityHostId replacement) (operationId j)))"

definition executeFinalizeSigningAndReplaceEncryptionIdentity ::
    "'w reset_deps \<Rightarrow> journal \<Rightarrow> ('w, executor_result) io" where
  "executeFinalizeSigningAndReplaceEncryptionIdentity d j =
     io_bind (requireReplacement d j) (\<lambda>replacement.
     io_bind (call_option (E_complete_signing (operationId j))
                (map_option (\<lambda>f. f (operationId j)) (completeExplicitReset d))) (\<lambda>_.
     io_bind
       (io_bind (recover_encryption d j replacement) (\<lambda>r.
          case r of Some e \<Rightarrow> io_return (Some e)
                  | None \<Rightarrow> call E_load_encryption (loadEncryption d)))
       (\<lambda>enc0.
     let foreign = (case enc0 of None \<Rightarrow> False
                     | Some e \<Rightarrow> encryptionHostId e \<noteq> identityHostId replacement);
         enc = (if foreign then None else enc0) in
     if foreign \<and> \<not> phaseBefore (phase j) Encryption_identity_replaced then
       io_throw (recoveryRequired ''Replacement Host encryption identity evidence is invalid'')
     else
       io_bind
         (case enc of
            Some e \<Rightarrow> io_return e
          | None \<Rightarrow>
              if \<not> phaseBefore (phase j) Encryption_identity_replaced then
                io_throw (recoveryRequired ''Replacement Host encryption identity evidence is missing'')
              else
                io_bind (recover_encryption d j replacement) (\<lambda>r.
                case r of
                  Some e \<Rightarrow> io_return e
                | None \<Rightarrow>
                    call (E_replace_encryption (identityHostId replacement) (operationId j))
                      (replaceForReset d (identityHostId replacement) (operationId j))))
         (\<lambda>_.
       io_bind
         (case (oldEncryptionKeyId j, deleteOldEncryption d, completeReset d) of
            (Some old, Some delete, None) \<Rightarrow>
              if old = [] then io_return () else call (E_delete_old_encryption old) (delete old)
          | _ \<Rightarrow> io_return ())
         (\<lambda>_.
       io_bind (call (E_hook Encryption_replaced) (afterEffect d Encryption_replaced)) (\<lambda>_.
       io_bind (stamp d) (\<lambda>at.
       io_return (Transition_result (To_encryption_identity_replaced at)))))))))"

definition require_encryption ::
    "'w reset_deps \<Rightarrow> host_identity \<Rightarrow> ('w, encryption_identity) io" where
  "require_encryption d replacement =
     io_bind (call E_load_encryption (loadEncryption d)) (\<lambda>enc.
     case enc of
       None \<Rightarrow> io_throw (recoveryRequired ''Replacement Host encryption identity evidence is invalid'')
     | Some e \<Rightarrow>
         if encryptionHostId e \<noteq> identityHostId replacement then
           io_throw (recoveryRequired ''Replacement Host encryption identity evidence is invalid'')
         else io_return e)"

definition expectedOldSpoolHostId :: "journal \<Rightarrow> jsstring option" where
  "expectedOldSpoolHostId j =
     (if revokeOutcome (revoke j) = Some Old_identity_unreadable then None else oldHostId j)"

definition executeFinalizeEncryptionAndClearRuntimeArtifacts ::
    "'w reset_deps \<Rightarrow> journal \<Rightarrow> ('w, executor_result) io" where
  "executeFinalizeEncryptionAndClearRuntimeArtifacts d j =
     io_bind (requireReplacement d j) (\<lambda>replacement.
     io_bind (require_encryption d replacement) (\<lambda>_.
     io_bind (call_option (E_complete_encryption (operationId j))
                (map_option (\<lambda>f. f (operationId j)) (completeReset d))) (\<lambda>_.
     io_bind (get_host held) (\<lambda>coordinator.
     if \<not> coordinator then
       io_throw (recoveryRequired
         ''Runtime ownership was not held when clearing Host reset artifacts'')
     else
       io_bind (call (E_clear_artifacts (expectedOldSpoolHostId j))
                  (clearArtifacts d (expectedOldSpoolHostId j))) (\<lambda>_.
       io_bind (call (E_hook Artifacts_cleared) (afterEffect d Artifacts_cleared)) (\<lambda>_.
       io_bind (stamp d) (\<lambda>at.
       io_return (Transition_result (To_runtime_artifacts_cleared at)))))))))"

definition executePersistConfig :: "'w reset_deps \<Rightarrow> journal \<Rightarrow> ('w, executor_result) io" where
  "executePersistConfig d j =
     io_bind (requireReplacement d j) (\<lambda>replacement.
     let expected = (baseConfig d)\<lparr>configIdentity := Some replacement\<rparr> in
     io_bind (call E_load_config (loadConfig d)) (\<lambda>current.
     io_bind
       (if configIdentity current \<noteq> configIdentity expected then
          call (E_save_config expected) (saveConfig d expected)
        else io_return ())
       (\<lambda>_.
     io_bind (call (E_hook Config_was_saved) (afterEffect d Config_was_saved)) (\<lambda>_.
     io_bind (stamp d) (\<lambda>at.
     io_return (Transition_result (To_config_saved at)))))))"

definition require_config :: "'w reset_deps \<Rightarrow> host_identity \<Rightarrow> ('w, unit) io" where
  "require_config d replacement =
     io_bind (call E_load_config (loadConfig d)) (\<lambda>current.
     if configIdentity current \<noteq> Some replacement then
       io_throw (recoveryRequired ''Replacement Host config identity evidence is invalid'')
     else io_return ())"

definition executeEnrollNewIdentity :: "'w reset_deps \<Rightarrow> journal \<Rightarrow> ('w, executor_result) io" where
  "executeEnrollNewIdentity d j =
     io_bind (requireReplacement d j) (\<lambda>replacement.
     io_bind (require_config d replacement) (\<lambda>_.
     io_bind (require_encryption d replacement) (\<lambda>enc.
     io_bind (call (E_enroll replacement enc) (relayEnroll d replacement enc)) (\<lambda>_.
     io_bind (call (E_hook Was_enrolled) (afterEffect d Was_enrolled)) (\<lambda>_.
     io_bind (stamp d) (\<lambda>at.
     io_return (Transition_result (To_enrolled at))))))))"

definition executeSyncServiceMetadata :: "'w reset_deps \<Rightarrow> journal \<Rightarrow> ('w, executor_result) io" where
  "executeSyncServiceMetadata d j =
     io_bind (requireReplacement d j) (\<lambda>replacement.
     io_bind (call (E_sync_metadata (service j) (privateKeyStorage replacement))
                (synchronizeMetadata d (service j) (privateKeyStorage replacement))) (\<lambda>_.
     io_bind (call (E_hook Service_metadata_was_synchronized)
                (afterEffect d Service_metadata_was_synchronized)) (\<lambda>_.
     io_bind (stamp d) (\<lambda>at.
     io_return (Transition_result (To_service_metadata_synchronized at))))))"

definition executePersistServiceRestoreIntent :: "'w reset_deps \<Rightarrow> journal \<Rightarrow> ('w, executor_result) io" where
  "executePersistServiceRestoreIntent d j =
     io_bind (requireReplacement d j) (\<lambda>_.
     io_return (Transition_result To_service_restore_pending))"

definition executeRestoreServiceAndRemoveJournal :: "journal \<Rightarrow> ('w, executor_result) io" where
  "executeRestoreServiceAndRemoveJournal j =
     (if phase j \<noteq> Service_restore_pending then
        io_throw (recoveryRequired ''Restore requires a service-restore-pending journal'')
      else io_return (Restore_result j))"

fun executeHostResetAction :: "reset_action \<Rightarrow> journal \<Rightarrow> 'w reset_deps \<Rightarrow> ('w, executor_result) io" where
  "executeHostResetAction Stop_quarantine_and_acquire_runtime j d =
     executeStopQuarantineAndAcquireRuntime d j"
| "executeHostResetAction Inspect_and_bind_old_domain j d = executeInspectAndBindOldDomain d j"
| "executeHostResetAction Persist_revoke_intent j d = executePersistRevokeIntent j"
| "executeHostResetAction Revoke_old_identity j d = executeRevokeOldIdentity d j"
| "executeHostResetAction Persist_signing_replacement_intent j d =
     executePersistSigningReplacementIntent d"
| "executeHostResetAction Replace_signing_identity j d = executeReplaceSigningIdentity d j"
| "executeHostResetAction Finalize_signing_and_replace_encryption_identity j d =
     executeFinalizeSigningAndReplaceEncryptionIdentity d j"
| "executeHostResetAction Finalize_encryption_and_clear_runtime_artifacts j d =
     executeFinalizeEncryptionAndClearRuntimeArtifacts d j"
| "executeHostResetAction Persist_config j d = executePersistConfig d j"
| "executeHostResetAction Enroll_new_identity j d = executeEnrollNewIdentity d j"
| "executeHostResetAction Sync_service_metadata j d = executeSyncServiceMetadata d j"
| "executeHostResetAction Persist_service_restore_intent j d = executePersistServiceRestoreIntent d j"
| "executeHostResetAction Restore_service_and_remove_journal j d =
     executeRestoreServiceAndRemoveJournal j"

end
