(* ===== verification/Reset_Order.thy ===== *)
theory Reset_Order
  imports Reset_Executor
begin

section \<open>Effects wait for their intent to be journaled\<close>

text \<open>
  What the comments of host-domain-reset-executor.ts and host-domain-reset.ts promise of the
  ordering: an effect on the outside is issued only while the journal on disk is at the phase that
  records its intent, and on exactly the identities, operation and service the journal binds.
  \<open>entry_ok\<close> states this for one entry of the log; the lemmas show it for every executor, whatever
  the ports answer.
\<close>

fun entry_ok :: "effect \<times> journal option \<Rightarrow> bool" where
  "entry_ok (E_stop s, dj) = (\<exists>j. dj = Some j \<and> service j = s)"
| "entry_ok (E_revoke i, dj) =
     (\<exists>j. dj = Some j \<and> phase j = Revoke_pending
        \<and> oldHostId j = Some (identityHostId i) \<and> oldKeyId j = Some (identityKeyId i))"
| "entry_ok (E_recover_signing op, dj) =
     (\<exists>j. dj = Some j \<and> phase j = Signing_replacement_pending \<and> operationId j = op)"
| "entry_ok (E_replace_signing op, dj) =
     (\<exists>j. dj = Some j \<and> phase j = Signing_replacement_pending \<and> operationId j = op)"
| "entry_ok (E_delete_old_signing old, dj) =
     (\<exists>j. dj = Some j \<and> phase j = Signing_replacement_pending \<and> oldHostId j = Some old)"
| "entry_ok (E_complete_signing op, dj) =
     (\<exists>j. dj = Some j \<and> phase j = Signing_identity_replaced \<and> operationId j = op)"
| "entry_ok (E_recover_encryption host op, dj) =
     (\<exists>j. dj = Some j \<and> phase j = Signing_identity_replaced \<and> operationId j = op
        \<and> newHostId j = Some host)"
| "entry_ok (E_replace_encryption host op, dj) =
     (\<exists>j. dj = Some j \<and> phase j = Signing_identity_replaced \<and> operationId j = op
        \<and> newHostId j = Some host)"
| "entry_ok (E_delete_old_encryption old, dj) =
     (\<exists>j. dj = Some j \<and> phase j = Signing_identity_replaced \<and> oldEncryptionKeyId j = Some old)"
| "entry_ok (E_complete_encryption op, dj) =
     (\<exists>j. dj = Some j \<and> phase j = Encryption_identity_replaced \<and> operationId j = op)"
| "entry_ok (E_clear_artifacts old, dj) =
     (\<exists>j. dj = Some j \<and> phase j = Encryption_identity_replaced \<and> old = expectedOldSpoolHostId j)"
| "entry_ok (E_save_config c, dj) =
     (\<exists>j i. dj = Some j \<and> phase j = Runtime_artifacts_cleared \<and> configIdentity c = Some i
        \<and> newHostId j = Some (identityHostId i) \<and> newKeyId j = Some (identityKeyId i))"
| "entry_ok (E_enroll i e, dj) =
     (\<exists>j. dj = Some j \<and> phase j = Config_saved
        \<and> newHostId j = Some (identityHostId i) \<and> newKeyId j = Some (identityKeyId i)
        \<and> encryptionHostId e = identityHostId i)"
| "entry_ok (E_sync_metadata s ref, dj) =
     (\<exists>j. dj = Some j \<and> phase j = Enrolled \<and> service j = s)"
| "entry_ok (E_restore s ref, dj) =
     (\<exists>j. dj = Some j \<and> phase j = Service_restore_pending \<and> service j = s)"
| "entry_ok (E_remove_journal, dj) =
     (\<exists>j. dj = Some j \<and> phase j = Service_restore_pending)"
| "entry_ok (E_clock, dj) = True"
| "entry_ok (E_random, dj) = True"
| "entry_ok (E_prepare, dj) = True"
| "entry_ok (E_acquire_runtime, dj) = (dj \<noteq> None)"
| "entry_ok (E_dispose_runtime, dj) = True"
| "entry_ok (E_load_identity, dj) = (\<exists>j. dj = Some j \<and> Quarantined \<le> phase j)"
| "entry_ok (E_inspect_legacy, dj) = (\<exists>j. dj = Some j \<and> Quarantined \<le> phase j)"
| "entry_ok (E_load_encryption, dj) = (\<exists>j. dj = Some j \<and> Quarantined \<le> phase j)"
| "entry_ok (E_load_config, dj) = (dj \<noteq> None)"
| "entry_ok (E_inspect_artifacts, dj) = (\<exists>j. dj = Some j \<and> phase j = Service_restore_pending)"
| "entry_ok (E_lock, dj) = True"
| "entry_ok (E_read_journal, dj) = True"
| "entry_ok (E_stage_journal, dj) = True"
| "entry_ok (E_sync_directory, dj) = True"
| "entry_ok (E_hook f, dj) = (dj \<noteq> None)"
| "entry_ok (E_phase_hook p, dj) = (\<exists>j. dj = Some j \<and> phase j = p)"

definition log_extends :: "'w host \<Rightarrow> 'w host \<Rightarrow> bool" where
  "log_extends h h' \<longleftrightarrow> (\<exists>es. log h' = log h @ es \<and> list_all entry_ok es)"

text \<open>With journal \<open>J\<close> on disk: the file stays, and every new entry of the log is in order.\<close>

definition quiet :: "journal option \<Rightarrow> 'w host \<Rightarrow> 'w host \<Rightarrow> bool" where
  "quiet J h h' \<longleftrightarrow> (disk h = J \<longrightarrow> disk h' = J \<and> log_extends h h')"

lemma log_extends_refl: "log_extends h h"
  by (auto simp: log_extends_def)

lemma log_extends_trans: "log_extends a b \<Longrightarrow> log_extends b c \<Longrightarrow> log_extends a c"
  unfolding log_extends_def by (metis append.assoc list_all_append)

interpretation quiet: host_order "quiet J" for J
  by unfold_locales (auto simp: quiet_def log_extends_refl intro: log_extends_trans)

lemma quiet_call: "entry_ok (e, J) \<Longrightarrow> runs (quiet J) (call e p) (\<lambda>_. True)"
  by (auto simp: runs_def quiet_def call_def log_extends_def split: prod.splits)

lemma quiet_set_held: "runs (quiet J) (set_held b) (\<lambda>_. True)"
  by (simp add: runs_def quiet_def set_held_def log_extends_def)

lemma quiet_get_host: "runs (quiet J) (get_host f) (\<lambda>_. True)"
  by (simp add: runs_def quiet_def get_host_def log_extends_def)

lemma quiet_stamp: "runs (quiet J) (stamp d) (\<lambda>_. True)"
  unfolding stamp_def by (rule quiet_call) simp

lemmas quiet_intros =
  quiet.runs_seq quiet.runs_catch quiet.runs_finally quiet.runs_call_option quiet.runs_return
  quiet.runs_throw quiet_set_held quiet_get_host quiet_stamp quiet_call runs_splits

subsection \<open>Helpers of the executors\<close>

lemma quiet_requireReplacement:
  assumes "J = Some j" "Quarantined \<le> phase j"
  shows "runs (quiet J) (requireReplacement d j)
    (\<lambda>i. newHostId j = Some (identityHostId i) \<and> newKeyId j = Some (identityKeyId i))"
  unfolding requireReplacement_def
  by (intro quiet_intros) (use assms in auto)

lemma quiet_loadExpectedOldIdentity:
  assumes "J = Some j" "phase j = Revoke_pending"
  shows "runs (quiet J) (loadExpectedOldIdentity d j) (\<lambda>r. \<forall>i. r = Some i \<longrightarrow>
    oldHostId j = Some (identityHostId i) \<and> oldKeyId j = Some (identityKeyId i))"
  unfolding loadExpectedOldIdentity_def
  by (intro quiet_intros) (use assms in \<open>auto simp: phase_order split: option.splits\<close>)

lemma quiet_require_encryption:
  assumes "J = Some j" "Quarantined \<le> phase j"
  shows "runs (quiet J) (require_encryption d i) (\<lambda>e. encryptionHostId e = identityHostId i)"
  unfolding require_encryption_def
  by (intro quiet_intros) (use assms in auto)

lemma quiet_require_config:
  assumes "J \<noteq> None"
  shows "runs (quiet J) (require_config d i) (\<lambda>_. True)"
  unfolding require_config_def
  by (intro quiet_intros) (use assms in auto)

lemma quiet_prepareExactSigningCleanup:
  assumes "J = Some j" "Quarantined \<le> phase j"
  shows "runs (quiet J) (prepareExactSigningCleanup d j) (\<lambda>_. True)"
  unfolding prepareExactSigningCleanup_def
  by (intro quiet_intros) (use assms in auto)

lemma quiet_recover_candidate:
  assumes "J = Some j" "phase j = Signing_replacement_pending"
  shows "runs (quiet J) (recover_candidate d j) (\<lambda>_. True)"
  unfolding recover_candidate_def
  by (intro quiet_intros) (use assms in auto)

lemma quiet_replace_now:
  assumes "J = Some j" "phase j = Signing_replacement_pending"
  shows "runs (quiet J) (replace_now d j) (\<lambda>_. True)"
  unfolding replace_now_def using assms by (auto intro!: quiet_intros)

lemma quiet_adoptOrReplace:
  assumes J: "J = Some j" and p: "phase j = Signing_replacement_pending"
  shows "runs (quiet J) (adoptOrReplaceSigningIdentity d j) (\<lambda>_. True)"
proof -
  have q: "Quarantined \<le> phase j" using p by (simp add: phase_order)
  note helpers = quiet_recover_candidate [OF J p] quiet_replace_now [OF J p]
    quiet_prepareExactSigningCleanup [OF J q]
  have a: "runs (quiet J) (adopt_after_load d j proven current) (\<lambda>_. True)" for proven current
    unfolding adopt_after_load_def
    by (intro helpers quiet_intros) auto
  show ?thesis
    unfolding adoptOrReplaceSigningIdentity_def
    by (intro a helpers quiet_intros) (use J q in auto)
qed

lemma quiet_acquire_runtime: "J \<noteq> None \<Longrightarrow> runs (quiet J) (acquire_runtime d) (\<lambda>_. True)"
  unfolding acquire_runtime_def by (intro quiet_intros) auto

lemma quiet_recover_encryption:
  assumes "J = Some j" "phase j = Signing_identity_replaced"
    "newHostId j = Some (identityHostId i)"
  shows "runs (quiet J) (recover_encryption d j i) (\<lambda>_. True)"
  unfolding recover_encryption_def
  by (intro quiet_intros) (use assms in auto)

subsection \<open>Every executor\<close>

definition fits :: "journal \<Rightarrow> executor_result \<Rightarrow> bool" where
  "fits j r = (case r of Transition_result t \<Rightarrow> transition_allowed j t
     | Restore_result j' \<Rightarrow> j' = j \<and> phase j = Service_restore_pending)"

lemma fits_simps [simp]:
  "fits j (Transition_result t) = transition_allowed j t"
  "fits j (Restore_result j') \<longleftrightarrow> j' = j \<and> phase j = Service_restore_pending"
  by (simp_all add: fits_def)

lemma quiet_stop_quarantine:
  assumes "J = Some j" "phase j = Quarantine_pending"
  shows "runs (quiet J) (executeStopQuarantineAndAcquireRuntime d j) (fits j)"
  unfolding executeStopQuarantineAndAcquireRuntime_def
  by (intro quiet_acquire_runtime quiet_intros) (use assms in auto)

lemma quiet_inspect:
  assumes "J = Some j" "phase j = Quarantined"
  shows "runs (quiet J) (executeInspectAndBindOldDomain d j) (fits j)"
  unfolding executeInspectAndBindOldDomain_def inspect_old_identity_def keychain_evidence_def
  by (intro quiet_intros) (use assms in \<open>auto simp: prepared_transition_def phase_order\<close>)

lemma quiet_persist_revoke_intent:
  assumes "phase j = Prepared"
  shows "runs (quiet J) (executePersistRevokeIntent j) (fits j)"
  unfolding executePersistRevokeIntent_def
  by (intro quiet_intros) (use assms in \<open>auto intro!: revoke_decision.equality\<close>)

lemma quiet_revoke:
  assumes J: "J = Some j" and p: "phase j = Revoke_pending"
  shows "runs (quiet J) (executeRevokeOldIdentity d j) (fits j)"
  unfolding executeRevokeOldIdentity_def
  by (intro quiet.runs_bind [OF quiet_loadExpectedOldIdentity [OF J p]] quiet_intros)
    (use assms in auto)

lemma quiet_persist_signing_intent:
  assumes "phase j = Old_identity_revoked \<or> (phase j = Prepared \<and> revokeSkipped j)"
  shows "runs (quiet J) (executePersistSigningReplacementIntent d) (fits j)"
  unfolding executePersistSigningReplacementIntent_def
  by (intro quiet_intros) (use assms in auto)

lemma quiet_replace_signing:
  assumes J: "J = Some j" and p: "phase j = Signing_replacement_pending"
  shows "runs (quiet J) (executeReplaceSigningIdentity d j) (fits j)"
  unfolding executeReplaceSigningIdentity_def
  by (intro quiet_adoptOrReplace [OF J p] quiet_intros) (use assms in auto)

lemma quiet_replace_encryption:
  assumes J: "J = Some j" and p: "phase j = Signing_identity_replaced"
  shows "runs (quiet J) (executeFinalizeSigningAndReplaceEncryptionIdentity d j) (fits j)"
proof -
  have q: "Quarantined \<le> phase j" using p by (simp add: phase_order)
  show ?thesis
    unfolding executeFinalizeSigningAndReplaceEncryptionIdentity_def Let_def
    by (intro quiet.runs_bind [OF quiet_requireReplacement [OF J q]] quiet_recover_encryption
        quiet_intros) (use assms q in auto)
qed

lemma quiet_clear_artifacts:
  assumes J: "J = Some j" and p: "phase j = Encryption_identity_replaced"
  shows "runs (quiet J) (executeFinalizeEncryptionAndClearRuntimeArtifacts d j) (fits j)"
proof -
  have q: "Quarantined \<le> phase j" using p by (simp add: phase_order)
  show ?thesis
    unfolding executeFinalizeEncryptionAndClearRuntimeArtifacts_def
    by (intro quiet.runs_bind [OF quiet_requireReplacement [OF J q]]
        quiet.runs_bind [OF quiet_require_encryption [OF J q]] quiet_intros) (use assms q in auto)
qed

lemma quiet_persist_config:
  assumes J: "J = Some j" and p: "phase j = Runtime_artifacts_cleared"
  shows "runs (quiet J) (executePersistConfig d j) (fits j)"
proof -
  have q: "Quarantined \<le> phase j" using p by (simp add: phase_order)
  show ?thesis
    unfolding executePersistConfig_def Let_def
    by (intro quiet.runs_bind [OF quiet_requireReplacement [OF J q]] quiet_intros)
      (use assms q in auto)
qed

lemma quiet_enroll:
  assumes J: "J = Some j" and p: "phase j = Config_saved"
  shows "runs (quiet J) (executeEnrollNewIdentity d j) (fits j)"
proof -
  have q: "Quarantined \<le> phase j" using p by (simp add: phase_order)
  show ?thesis
    unfolding executeEnrollNewIdentity_def
    by (intro quiet.runs_bind [OF quiet_requireReplacement [OF J q]]
        quiet.runs_bind [OF quiet_require_encryption [OF J q]] quiet_require_config quiet_intros)
      (use assms q in auto)
qed

lemma quiet_sync_metadata:
  assumes J: "J = Some j" and p: "phase j = Enrolled"
  shows "runs (quiet J) (executeSyncServiceMetadata d j) (fits j)"
proof -
  have q: "Quarantined \<le> phase j" using p by (simp add: phase_order)
  show ?thesis
    unfolding executeSyncServiceMetadata_def
    by (intro quiet.runs_bind [OF quiet_requireReplacement [OF J q]] quiet_intros)
      (use assms q in auto)
qed

lemma quiet_persist_restore_intent:
  assumes J: "J = Some j" and p: "phase j = Service_metadata_synchronized"
  shows "runs (quiet J) (executePersistServiceRestoreIntent d j) (fits j)"
proof -
  have q: "Quarantined \<le> phase j" using p by (simp add: phase_order)
  show ?thesis
    unfolding executePersistServiceRestoreIntent_def
    by (intro quiet.runs_bind [OF quiet_requireReplacement [OF J q]] quiet_intros)
      (use assms q in auto)
qed

lemma quiet_restore_result:
  "runs (quiet J) (executeRestoreServiceAndRemoveJournal j) (fits j)"
  unfolding executeRestoreServiceAndRemoveJournal_def
  by (intro quiet_intros) auto

lemma next_action_eq:
  assumes "nextHostResetAction j = ok a"
  shows "case a of
      Stop_quarantine_and_acquire_runtime \<Rightarrow> phase j = Quarantine_pending
    | Inspect_and_bind_old_domain \<Rightarrow> phase j = Quarantined
    | Persist_revoke_intent \<Rightarrow> phase j = Prepared
    | Revoke_old_identity \<Rightarrow> phase j = Revoke_pending
    | Persist_signing_replacement_intent \<Rightarrow>
        phase j = Old_identity_revoked \<or> (phase j = Prepared \<and> revokeSkipped j)
    | Replace_signing_identity \<Rightarrow> phase j = Signing_replacement_pending
    | Finalize_signing_and_replace_encryption_identity \<Rightarrow> phase j = Signing_identity_replaced
    | Finalize_encryption_and_clear_runtime_artifacts \<Rightarrow> phase j = Encryption_identity_replaced
    | Persist_config \<Rightarrow> phase j = Runtime_artifacts_cleared
    | Enroll_new_identity \<Rightarrow> phase j = Config_saved
    | Sync_service_metadata \<Rightarrow> phase j = Enrolled
    | Persist_service_restore_intent \<Rightarrow> phase j = Service_metadata_synchronized
    | Restore_service_and_remove_journal \<Rightarrow> phase j = Service_restore_pending"
  using assms
  by (cases "phase j") (auto simp: nextHostResetAction_def prepared_action_def revokeSkipped_def
      rbind_Inr_iff split: if_splits)

lemma quiet_executor:
  assumes "nextHostResetAction j = ok a"
  shows "runs (quiet (Some j)) (executeHostResetAction a j d) (fits j)"
  using next_action_eq [OF assms]
  by (cases a) (simp_all add: quiet_stop_quarantine quiet_inspect quiet_persist_revoke_intent
      quiet_revoke quiet_persist_signing_intent quiet_replace_signing quiet_replace_encryption
      quiet_clear_artifacts quiet_persist_config quiet_enroll quiet_sync_metadata
      quiet_persist_restore_intent quiet_restore_result)

end
