(* ===== verification/Reset_Coordinator.thy ===== *)
theory Reset_Coordinator
  imports Reset_Order
begin

section \<open>Recovery and the coordinator\<close>

text \<open>
  apps/bridge/src/cli/operations/host-domain-reset-recovery.ts and host-domain-reset.ts: the
  rehydration guard, the \<open>service-restore-pending\<close> sequence, the bootstrap of a fresh reset and the
  loop that asks the machine for an action, runs its executor and commits the transition.

  The \<open>while (true)\<close> loop runs on fuel; \<open>None\<close> is a run that has not returned yet. Every iteration
  that does not return advances the phase, so thirteen iterations are enough for any journal and any
  ports (\<open>reset_loop_returns\<close>).
\<close>

subsection \<open>Recovery\<close>

definition prepareRecovery :: "'w reset_deps \<Rightarrow> journal \<Rightarrow> ('w, unit) io" where
  "prepareRecovery d j =
     io_bind (call E_prepare (prepare d)) (\<lambda>current.
     if \<not> same_service_binding current (service j) then
       io_throw (recoveryRequired ''Host reset service state changed during recovery'')
     else io_return ())"

text \<open>The runtime port's \<open>release\<close>: dispose the held coordinator, if any.\<close>

definition release_runtime :: "'w reset_deps \<Rightarrow> ('w, unit) io" where
  "release_runtime d =
     io_bind (get_host held) (\<lambda>b.
     if b then io_bind (call E_dispose_runtime (disposeRuntime d)) (\<lambda>_. set_held False)
     else io_return ())"

definition ensure_runtime :: "'w reset_deps \<Rightarrow> ('w, unit) io" where
  "ensure_runtime d =
     io_bind (get_host held) (\<lambda>b. if b then io_return () else acquire_runtime d)"

definition dispose_if_held :: "'w reset_deps \<Rightarrow> ('w, unit) io" where
  "dispose_if_held d =
     io_bind (get_host held) (\<lambda>b.
     if b then call E_dispose_runtime (disposeRuntime d) else io_return ())"

definition verify_artifacts :: "'w reset_deps \<Rightarrow> host_identity \<Rightarrow> ('w, unit) io" where
  "verify_artifacts d replacement =
     io_bind (call E_inspect_artifacts (reintroducedArtifacts d)) (\<lambda>reintroduced.
     if reintroduced then
       io_throw (recoveryRequired
         ''Old or incomplete Host-bound runtime artifacts were reintroduced during reset recovery'')
     else
       io_bind (call E_inspect_artifacts (stateExists d)) (\<lambda>state.
       io_bind (call E_inspect_artifacts (spoolExists d)) (\<lambda>spool.
       if state \<noteq> spool then
         io_throw (recoveryRequired ''Replacement Host runtime artifact pair is incomplete'')
       else if state then
         io_catch
           (call E_inspect_artifacts (assertCurrentArtifacts d (identityHostId replacement)))
           (\<lambda>_. io_throw (recoveryRequired ''Replacement Host runtime artifact evidence is invalid''))
       else call E_inspect_artifacts (assertSpoolKeyAbsent d))))"

datatype service_status = Unmanaged | Stopped | Running

record reset_outcome =
  resultHostId :: jsstring
  resultKeyId :: jsstring
  revokedOldIdentity :: bool
  resultService :: service_snapshot
  processRunning :: bool
  status :: service_status
  warning :: bool

definition buildRecoveryResult :: "journal \<Rightarrow> host_identity \<Rightarrow> bool \<Rightarrow> reset_outcome" where
  "buildRecoveryResult j replacement running =
     \<lparr>resultHostId = identityHostId replacement, resultKeyId = identityKeyId replacement,
      revokedOldIdentity =
        (revokeOutcome (revoke j) = Some Revoked \<or> revokeOutcome (revoke j) = Some Identity_already_revoked),
      resultService = service j, processRunning = running,
      status = (if managed (service j) then if running then Running else Stopped else Unmanaged),
      warning = (revokeOutcome (revoke j) = Some Old_identity_unreadable)\<rparr>"

definition restore_body :: "'w reset_deps \<Rightarrow> journal \<Rightarrow> ('w, reset_outcome) io" where
  "restore_body d j =
     io_bind (requireReplacement d j) (\<lambda>replacement.
     io_bind (require_encryption d replacement) (\<lambda>_.
     io_bind (require_config d replacement) (\<lambda>_.
     io_bind (verify_artifacts d replacement) (\<lambda>_.
     io_bind (call E_dispose_runtime (disposeRuntime d)) (\<lambda>_.
     io_bind (release_runtime d) (\<lambda>_.
     io_bind (restoreHostDomainServiceAndConfirm d j replacement) (\<lambda>(running, token).
     io_bind (call (E_hook Service_restored) (afterEffect d Service_restored)) (\<lambda>_.
     io_bind (removeAfterServiceRestoreConfirmed d j token) (\<lambda>_.
     io_return (buildRecoveryResult j replacement running))))))))))"

definition recoverServiceRestorePending :: "'w reset_deps \<Rightarrow> journal \<Rightarrow> ('w, reset_outcome) io" where
  "recoverServiceRestorePending d j =
     (if phase j \<noteq> Service_restore_pending then
        io_throw (recoveryRequired ''Restore requires a service-restore-pending journal'')
      else
        io_bind (prepareRecovery d j) (\<lambda>_.
        io_bind (call (E_stop (service j)) (stopAndConfirm d (service j))) (\<lambda>_.
        io_bind (ensure_runtime d) (\<lambda>_.
        io_finally (restore_body d j)
          (io_bind (dispose_if_held d) (\<lambda>_. release_runtime d))))))"

subsection \<open>The coordinator\<close>

definition buildInitialJournal ::
    "'w reset_deps \<Rightarrow> service_snapshot \<Rightarrow> jsstring \<Rightarrow> jsstring \<Rightarrow> journal" where
  "buildInitialJournal d s timestamp uuid =
     \<lparr>version = 1, operationId = js ''reset_'' @ uuid, profile = profileId d,
      phase = Quarantine_pending, oldHostId = None, oldKeyId = None, newHostId = None, newKeyId = None,
      oldEncryptionKeyId = None, signingCleanup = None, signingReplacementAttemptedAt = None,
      encryptionIdentityReplacedAt = None, runtimeArtifactsClearedAt = None, configSavedAt = None,
      enrolledAt = None, serviceMetadataSynchronizedAt = None,
      resourceDigest = pathsDigest (resources d), createdAt = timestamp, updatedAt = timestamp,
      revoke = \<lparr>revokeState = Not_attempted, revokeOutcome = None\<rparr>, service = s\<rparr>"

definition advance :: "'w reset_deps \<Rightarrow> journal \<Rightarrow> transition \<Rightarrow> ('w, journal) io" where
  "advance d j t =
     io_bind (advanceHostDomainResetJournal d j t) (\<lambda>j'.
     io_bind (call (E_phase_hook (phase j')) (afterPhase d (phase j'))) (\<lambda>_.
     io_return j'))"

definition fresh_bootstrap :: "'w reset_deps \<Rightarrow> ('w, journal) io" where
  "fresh_bootstrap d =
     io_bind (call E_prepare (prepare d)) (\<lambda>s.
     io_bind (stamp d) (\<lambda>timestamp.
     io_bind (call E_random (\<lambda>w. case randomUuidHex d w of (u, w') \<Rightarrow> (ok u, w'))) (\<lambda>uuid.
     io_bind (createHostDomainResetJournal d (buildInitialJournal d s timestamp uuid)) (\<lambda>j.
     io_bind (call (E_stop s) (stopAndConfirm d s)) (\<lambda>_.
     io_bind (call (E_phase_hook (phase j)) (afterPhase d (phase j))) (\<lambda>_.
     io_bind (acquire_runtime d) (\<lambda>_.
     advance d j To_quarantined)))))))"

definition resume :: "'w reset_deps \<Rightarrow> journal \<Rightarrow> ('w, journal) io" where
  "resume d j =
     io_bind (prepareRecovery d j) (\<lambda>_.
     if phase j \<noteq> Quarantine_pending \<and> phase j \<noteq> Service_restore_pending then
       io_bind (call (E_stop (service j)) (stopAndConfirm d (service j))) (\<lambda>_.
       io_bind (acquire_runtime d) (\<lambda>_. io_return j))
     else io_return j)"

fun reset_loop :: "nat \<Rightarrow> 'w reset_deps \<Rightarrow> journal \<Rightarrow> ('w, reset_outcome option) io" where
  "reset_loop 0 d j = io_return None"
| "reset_loop (Suc n) d j =
     io_bind (io_lift (nextHostResetAction j)) (\<lambda>action.
     if action = Restore_service_and_remove_journal then
       io_bind (recoverServiceRestorePending d j) (\<lambda>r. io_return (Some r))
     else
       io_bind (executeHostResetAction action j d) (\<lambda>result.
       case result of
         Restore_result j' \<Rightarrow> io_bind (recoverServiceRestorePending d j) (\<lambda>r. io_return (Some r))
       | Transition_result t \<Rightarrow> io_bind (advance d j t) (\<lambda>j'. reset_loop n d j')))"

definition resetHostDomainUnlocked :: "nat \<Rightarrow> 'w reset_deps \<Rightarrow> ('w, reset_outcome option) io" where
  "resetHostDomainUnlocked fuel d =
     io_bind (loadHostDomainResetJournal d) (\<lambda>stored.
     io_finally
       (io_bind (case stored of None \<Rightarrow> fresh_bootstrap d | Some j \<Rightarrow> resume d j) (\<lambda>j.
          reset_loop fuel d j))
       (release_runtime d))"

end
