(* ===== verification/Reset_Safety.thy ===== *)
theory Reset_Safety
  imports Reset_Coordinator
begin

section \<open>Crash safety and termination of a Host reset\<close>

text \<open>
  The journal on disk moves only by steps of the policy, whatever the ports answer and wherever an
  error stops the run; every effect finds its intent journaled; the loop returns.
\<close>

subsection \<open>Steps of the journal file\<close>

inductive resume_step :: "reset_resources \<Rightarrow> journal option \<Rightarrow> journal option \<Rightarrow> bool"
  for res where
  advance: "legal_journal res a \<Longrightarrow> legal_journal res (applyHostDomainResetTransition a t u) \<Longrightarrow>
     transition_allowed a t \<Longrightarrow> \<not> parsed_less u (updatedAt a) \<Longrightarrow>
     resume_step res (Some a) (Some (applyHostDomainResetTransition a t u))"
| remove: "legal_journal res a \<Longrightarrow> phase a = Service_restore_pending \<Longrightarrow>
     resume_step res (Some a) None"

inductive_cases resume_step_SomeE: "resume_step res (Some a) (Some b)"
inductive_cases resume_step_NoneE: "resume_step res None b"

text \<open>A fresh reset also creates the journal, or takes a half-created one back.\<close>

inductive fresh_step :: "reset_resources \<Rightarrow> journal option \<Rightarrow> journal option \<Rightarrow> bool"
  for res where
  create: "legal_journal res a \<Longrightarrow> phase a = Quarantine_pending \<Longrightarrow> fresh_step res None (Some a)"
| uncreate: "phase a = Quarantine_pending \<Longrightarrow> fresh_step res (Some a) None"
| proceed: "resume_step res x y \<Longrightarrow> fresh_step res x y"

definition lawful :: "(journal option \<Rightarrow> journal option \<Rightarrow> bool) \<Rightarrow> 'w host \<Rightarrow> 'w host \<Rightarrow> bool" where
  "lawful S h h' \<longleftrightarrow> log_extends h h' \<and> S\<^sup>*\<^sup>* (disk h) (disk h')"

interpretation lawful: host_order "lawful S" for S
  by unfold_locales (auto simp: lawful_def log_extends_refl intro: log_extends_trans)

subsection \<open>Triples over the file\<close>

text \<open>
  \<open>hoare S P m Q\<close>: started with a file that satisfies \<open>P\<close>, \<open>m\<close> moves the file by steps of \<open>S\<close> and
  extends the log in order; if it returns a value, \<open>Q\<close> holds of it and of the file.
\<close>

definition hoare :: "(journal option \<Rightarrow> journal option \<Rightarrow> bool) \<Rightarrow> (journal option \<Rightarrow> bool) \<Rightarrow>
    ('w, 'a) io \<Rightarrow> ('a \<Rightarrow> journal option \<Rightarrow> bool) \<Rightarrow> bool" where
  "hoare S P m Q \<longleftrightarrow> (\<forall>h. P (disk h) \<longrightarrow> lawful S h (snd (m h))
     \<and> (\<forall>a. fst (m h) = Inr a \<longrightarrow> Q a (disk (snd (m h)))))"

lemma hoareD:
  "hoare S P m Q \<Longrightarrow> P (disk h) \<Longrightarrow> lawful S h (snd (m h))"
  "hoare S P m Q \<Longrightarrow> P (disk h) \<Longrightarrow> fst (m h) = Inr a \<Longrightarrow> Q a (disk (snd (m h)))"
  by (auto simp: hoare_def)

lemma hoare_conseq:
  "hoare S P m Q \<Longrightarrow> (\<And>x. P' x \<Longrightarrow> P x) \<Longrightarrow> (\<And>a x. Q a x \<Longrightarrow> Q' a x) \<Longrightarrow> hoare S P' m Q'"
  by (auto simp: hoare_def)

lemma hoare_post:
  "hoare S P m Q \<Longrightarrow> (\<And>a x. Q a x \<Longrightarrow> Q' a x) \<Longrightarrow> hoare S P m Q'"
  by (auto simp: hoare_def)

lemma hoare_return: "(\<And>x. P x \<Longrightarrow> Q a x) \<Longrightarrow> hoare S P (io_return a) Q"
  by (simp add: hoare_def io_return_def lawful.refl)

lemma hoare_throw: "hoare S P (io_throw e) Q"
  by (simp add: hoare_def io_throw_def lawful.refl)

lemma hoare_lift: "(\<And>a x. r = Inr a \<Longrightarrow> P x \<Longrightarrow> Q a x) \<Longrightarrow> hoare S P (io_lift r) Q"
  by (simp add: hoare_def io_lift_def lawful.refl)

lemma hoare_bind:
  assumes m: "hoare S P (m :: ('w, 'a) io) Q" and f: "\<And>a. hoare S (Q a) (f a) T"
  shows "hoare S P (io_bind m f) T"
  unfolding hoare_def
proof (intro allI impI)
  fix h :: "'w host"
  assume P: "P (disk h)"
  show "lawful S h (snd (io_bind m f h))
    \<and> (\<forall>b. fst (io_bind m f h) = Inr b \<longrightarrow> T b (disk (snd (io_bind m f h))))"
  proof (cases "m h")
    case (Pair r h1)
    have l1: "lawful S h h1" using hoareD(1) [OF m, of h] P Pair by simp
    show ?thesis
    proof (cases r)
      case (Inl e)
      with Pair l1 show ?thesis by (simp add: io_bind_def)
    next
      case (Inr a)
      then have "Q a (disk h1)" using hoareD(2) [OF m, of h a] P Pair by simp
      then show ?thesis
        using Pair Inr f [of a, unfolded hoare_def] lawful.trans [OF l1] by (simp add: io_bind_def)
    qed
  qed
qed

lemma hoare_finally:
  assumes m: "hoare S P (m :: ('w, 'a) io) Q" and c: "runs (lawful S) c (\<lambda>_. True)"
    and q: "\<And>a. hoare S (Q a) c (\<lambda>_. Q a)"
  shows "hoare S P (io_finally m c) Q"
  unfolding hoare_def
proof (intro allI impI)
  fix h :: "'w host"
  assume P: "P (disk h)"
  show "lawful S h (snd (io_finally m c h))
    \<and> (\<forall>b. fst (io_finally m c h) = Inr b \<longrightarrow> Q b (disk (snd (io_finally m c h))))"
  proof (cases "m h")
    case (Pair r h1)
    have l1: "lawful S h h1" using hoareD(1) [OF m, of h] P Pair by simp
    have qr: "Q a (disk h1)" if "r = Inr a" for a using hoareD(2) [OF m, of h a] P Pair that by simp
    show ?thesis
    proof (cases "c h1")
      case cleanup: (Pair r2 h2)
      have l2: "lawful S h h2" using lawful.trans [OF l1 runsD(1) [OF c, of h1]] cleanup by simp
      show ?thesis
        using l2 Pair cleanup qr hoareD(2) [OF q, of _ h1]
        by (cases r2) (auto simp: io_finally_def)
    qed
  qed
qed

lemma hoare_quiet:
  assumes "runs (quiet J) m Q" "S\<^sup>*\<^sup>* J J"
  shows "hoare S (\<lambda>x. x = J) m (\<lambda>a x. x = J \<and> Q a)"
  using assms(1) by (auto simp: hoare_def runs_def quiet_def lawful_def)

lemma hoare_set_disk: "S J K \<Longrightarrow> hoare S (\<lambda>x. x = J) (set_disk K) (\<lambda>_ x. x = K)"
  by (auto simp: hoare_def set_disk_def lawful_def log_extends_def)

text \<open>Calls that are in order whatever file is on disk.\<close>

lemma hoare_call: "(\<And>x. P x \<Longrightarrow> entry_ok (e, x)) \<Longrightarrow> hoare S P (call e p) (\<lambda>_. P)"
  by (auto simp: hoare_def call_def lawful_def log_extends_def split: prod.splits)

lemma lawful_call: "(\<And>x. entry_ok (e, x)) \<Longrightarrow> runs (lawful S) (call e p) (\<lambda>_. True)"
  by (auto simp: runs_def call_def lawful_def log_extends_def split: prod.splits)

lemma hoare_set_held: "hoare S P (set_held b) (\<lambda>_. P)"
  by (simp add: hoare_def set_held_def lawful_def log_extends_def)

lemma hoare_get_host: "hoare S P (get_host f) (\<lambda>_. P)"
  by (simp add: hoare_def get_host_def lawful_def log_extends_def)

lemma hoare_get_disk: "hoare S P (get_host disk) (\<lambda>a x. P x \<and> a = x)"
  by (simp add: hoare_def get_host_def lawful_def log_extends_def)

lemma hoare_if:
  "(c \<Longrightarrow> hoare S P m Q) \<Longrightarrow> (\<not> c \<Longrightarrow> hoare S P n Q) \<Longrightarrow> hoare S P (if c then m else n) Q"
  by simp

lemma hoare_catch_throw:
  assumes "hoare S P (m :: ('w, 'a) io) Q"
  shows "hoare S P (io_catch m (\<lambda>_. io_throw e)) Q"
  unfolding hoare_def
proof (intro allI impI)
  fix h :: "'w host"
  assume "P (disk h)"
  with assms show "lawful S h (snd (io_catch m (\<lambda>_. io_throw e) h)) \<and>
    (\<forall>a. fst (io_catch m (\<lambda>_. io_throw e) h) = Inr a \<longrightarrow>
      Q a (disk (snd (io_catch m (\<lambda>_. io_throw e) h))))"
    unfolding hoare_def io_catch_def
    by (cases "m h"; cases "fst (m h)") (auto simp: io_throw_def)
qed

subsection \<open>The store\<close>

lemma legal_apply:
  assumes l: "legal_journal res a" and t: "transition_allowed a t"
    and v: "valid_journal res (applyHostDomainResetTransition a t u)"
  shows "legal_journal res (applyHostDomainResetTransition a t u)"
proof -
  let ?b = "applyHostDomainResetTransition a t u"
  have "\<not> ((phase ?b = Revoke_pending \<or> phase ?b = Old_identity_revoked) \<and> revokeSkipped ?b)"
    by (cases t) (simp_all add: revokeSkipped_def)
  then show ?thesis using v valid_legal_iff [OF v] by (simp add: legal_journal_def)
qed

lemma hoare_load:
  "hoare S (\<lambda>x. x = J) (loadHostDomainResetJournal d)
    (\<lambda>a x. x = J \<and> a = J \<and> (\<forall>j. a = Some j \<longrightarrow> valid_journal (resources d) j))"
  unfolding loadHostDomainResetJournal_def
proof (rule hoare_bind [OF hoare_get_disk])
  fix a
  show "hoare S (\<lambda>x. x = J \<and> a = x)
    (case a of None \<Rightarrow> io_return None
     | Some j \<Rightarrow>
         io_bind (io_catch (call E_read_journal (readJournal d))
           (\<lambda>_. io_throw (TypeError ''Host-domain reset journal could not be read securely'')))
         (\<lambda>_. io_bind (io_lift (parseHostDomainResetJournal j (resources d)))
           (\<lambda>v. io_return (Some v))))
    (\<lambda>a x. x = J \<and> a = J \<and> (\<forall>j. a = Some j \<longrightarrow> valid_journal (resources d) j))"
  proof (cases a)
    case None
    then show ?thesis by (auto intro!: hoare_return)
  next
    case (Some j)
    show ?thesis
      unfolding Some option.case
      by (rule hoare_bind [OF hoare_catch_throw [OF hoare_call]], simp,
          rule hoare_bind [where Q = "\<lambda>v x. x = J \<and> J = Some v \<and> valid_journal (resources d) v"])
        (auto intro!: hoare_lift hoare_return)
  qed
qed

lemma hoare_writeJournal:
  assumes "S J (Some j)"
  shows "hoare S (\<lambda>x. x = J) (writeJournal d j) (\<lambda>_ x. x = Some j)"
  unfolding writeJournal_def
  by (rule hoare_bind [OF hoare_call], simp, rule hoare_bind [OF hoare_call], simp,
      rule hoare_bind [OF hoare_call], simp, rule hoare_bind [OF hoare_set_disk [where S = S and J = J and K = "Some j", OF assms]],
      rule hoare_call, simp)

definition advances_to :: "reset_resources \<Rightarrow> journal \<Rightarrow> transition \<Rightarrow> journal \<Rightarrow> bool" where
  "advances_to res a t b \<longleftrightarrow>
     legal_journal res b \<and> b = applyHostDomainResetTransition a t (updatedAt b)
     \<and> \<not> parsed_less (updatedAt b) (updatedAt a)"

lemma hoare_commit:
  assumes l: "legal_journal (resources d) a" and t: "transition_allowed a t"
    and S: "\<And>x y. resume_step (resources d) x y \<Longrightarrow> S x y"
  shows "hoare S (\<lambda>x. x = Some a) (commit_transition d a t)
    (\<lambda>b x. x = Some b \<and> advances_to (resources d) a t b)"
  unfolding commit_transition_def
proof (rule hoare_bind [OF hoare_quiet [OF quiet_stamp]])
  show "S\<^sup>*\<^sup>* (Some a) (Some a)" by simp
next
  fix u
  let ?b = "applyHostDomainResetTransition a t u"
  show "hoare S (\<lambda>x. x = Some a \<and> True)
    (io_bind (io_lift (parseHostDomainResetJournal ?b (resources d))) (\<lambda>candidate.
     case validateHostDomainResetTransition a candidate of
       Inl reason \<Rightarrow> io_throw (TypeError (hostResetJournalViolationMessage reason))
     | Inr accepted \<Rightarrow>
         io_bind (call E_lock (leaseOwned d)) (\<lambda>_.
         io_bind (writeJournal d accepted) (\<lambda>_. io_return accepted))))
    (\<lambda>b x. x = Some b \<and> advances_to (resources d) a t b)"
  proof (rule hoare_bind [where Q = "\<lambda>c x. x = Some a \<and> c = ?b \<and> valid_journal (resources d) ?b"])
    show "hoare S (\<lambda>x. x = Some a \<and> True) (io_lift (parseHostDomainResetJournal ?b (resources d)))
      (\<lambda>c x. x = Some a \<and> c = ?b \<and> valid_journal (resources d) ?b)"
      by (auto intro!: hoare_lift)
  next
    fix c
    show "hoare S (\<lambda>x. x = Some a \<and> c = ?b \<and> valid_journal (resources d) ?b)
      (case validateHostDomainResetTransition a c of
       Inl reason \<Rightarrow> io_throw (TypeError (hostResetJournalViolationMessage reason))
     | Inr accepted \<Rightarrow>
         io_bind (call E_lock (leaseOwned d)) (\<lambda>_.
         io_bind (writeJournal d accepted) (\<lambda>_. io_return accepted)))
      (\<lambda>b x. x = Some b \<and> advances_to (resources d) a t b)"
    proof (cases "c = ?b \<and> valid_journal (resources d) ?b \<and> validateHostDomainResetTransition a c = Inr ?b")
      case True
      have lb: "legal_journal (resources d) ?b" by (rule legal_apply [OF l t]) (use True in simp)
      have ne: "phase ?b \<noteq> phase a" using transition_phase_less [OF t, of u] by auto
      have u: "\<not> parsed_less u (updatedAt a)"
        using True unfolding validate_step_iff [OF ne] by (auto simp: validate_step_iff [OF ne])
      have step: "S (Some a) (Some ?b)" by (rule S) (rule resume_step.advance [OF l lb t u])
      have fwd: "advances_to (resources d) a t ?b" using lb u by (simp add: advances_to_def)
      have wr: "hoare S (\<lambda>x. x = Some a)
        (io_bind (call E_lock (leaseOwned d)) (\<lambda>_.
         io_bind (writeJournal d ?b) (\<lambda>_. io_return ?b)))
        (\<lambda>b x. x = Some b \<and> advances_to (resources d) a t b)"
        by (rule hoare_bind [OF hoare_call], simp, rule hoare_bind [OF hoare_writeJournal [where S = S and J = "Some a" and j = ?b, OF step]],
            rule hoare_return) (simp add: fwd)
      have cb: "c = ?b" and cv: "validateHostDomainResetTransition a ?b = Inr ?b" using True by auto
      show ?thesis unfolding cb cv sum.case by (rule hoare_conseq [OF wr]) auto
    next
      case False
      have "c = ?b \<Longrightarrow> validateHostDomainResetTransition a c = Inr z \<Longrightarrow> z = ?b" for z
        using transition_phase_less [OF t, of u] validate_step_iff [of ?b a z] by auto
      with False show ?thesis
        by (cases "validateHostDomainResetTransition a c") (auto simp: hoare_def io_throw_def lawful.refl)
    qed
  qed
qed

lemma hoare_advance_store:
  assumes l: "legal_journal (resources d) a" and t: "transition_allowed a t"
    and S: "\<And>x y. resume_step (resources d) x y \<Longrightarrow> S x y"
  shows "hoare S (\<lambda>x. x = Some a) (advanceHostDomainResetJournal d a t)
    (\<lambda>b x. x = Some b \<and> advances_to (resources d) a t b)"
  unfolding advanceHostDomainResetJournal_def
proof (rule hoare_bind [OF hoare_call], simp, rule hoare_finally)
  show "runs (lawful S) (call E_lock (advanceUnlock d)) (\<lambda>_. True)"
    by (rule lawful_call) simp
  show "hoare S (\<lambda>x. x = Some b \<and> advances_to (resources d) a t b) (call E_lock (advanceUnlock d))
    (\<lambda>_ x. x = Some b \<and> advances_to (resources d) a t b)" for b
    by (rule hoare_call) simp
  show "hoare S (\<lambda>x. x = Some a)
     (io_bind (loadHostDomainResetJournal d) (\<lambda>stored.
        case stored of
          None \<Rightarrow> io_throw (TypeError ''Host-domain reset journal changed before advancement'')
        | Some s \<Rightarrow>
            if s \<noteq> a then io_throw (TypeError ''Host-domain reset journal changed before advancement'')
            else commit_transition d s t))
     (\<lambda>b x. x = Some b \<and> advances_to (resources d) a t b)"
  proof (rule hoare_bind [OF hoare_load])
    fix stored
    show "hoare S (\<lambda>x. x = Some a \<and> stored = Some a
          \<and> (\<forall>j. stored = Some j \<longrightarrow> valid_journal (resources d) j))
       (case stored of
          None \<Rightarrow> io_throw (TypeError ''Host-domain reset journal changed before advancement'')
        | Some s \<Rightarrow>
            if s \<noteq> a then io_throw (TypeError ''Host-domain reset journal changed before advancement'')
            else commit_transition d s t)
       (\<lambda>b x. x = Some b \<and> advances_to (resources d) a t b)"
      by (cases "stored = Some a")
        (auto simp: hoare_def [of S "\<lambda>x. False"] intro: hoare_conseq [OF hoare_commit [OF l t S]])
  qed
qed

subsection \<open>Recovery\<close>

lemma quiet_load:
  "runs (quiet J) (loadHostDomainResetJournal d) (\<lambda>_. True)"
  unfolding loadHostDomainResetJournal_def
  by (intro quiet.runs_lift quiet_intros) auto

lemma quiet_issue: "runs (quiet J) (issue_confirmation c) (\<lambda>_. True)"
  by (simp add: runs_def quiet_def issue_confirmation_def log_extends_def)

lemma quiet_delete_confirmation: "runs (quiet J) (delete_confirmation n) (\<lambda>_. True)"
  by (simp add: runs_def quiet_def delete_confirmation_def log_extends_def)

lemma quiet_prepareRecovery: "runs (quiet J) (prepareRecovery d j) (\<lambda>_. True)"
  unfolding prepareRecovery_def by (intro quiet_intros) auto

lemma quiet_release: "runs (quiet J) (release_runtime d) (\<lambda>_. True)"
  unfolding release_runtime_def by (intro quiet_intros) auto

lemma quiet_ensure_runtime: "J \<noteq> None \<Longrightarrow> runs (quiet J) (ensure_runtime d) (\<lambda>_. True)"
  unfolding ensure_runtime_def by (intro quiet_acquire_runtime quiet_intros) auto

lemma quiet_verify_artifacts:
  assumes "J = Some j" "phase j = Service_restore_pending"
  shows "runs (quiet J) (verify_artifacts d i) (\<lambda>_. True)"
  unfolding verify_artifacts_def by (intro quiet_intros) (use assms in auto)

lemma quiet_restore_and_confirm:
  assumes "J = Some j" "phase j = Service_restore_pending"
  shows "runs (quiet J) (restoreHostDomainServiceAndConfirm d j i) (\<lambda>_. True)"
  unfolding restoreHostDomainServiceAndConfirm_def assertReplacementIdentity_def
  by (intro quiet_load quiet_issue quiet.runs_lift quiet_intros) (use assms in auto)

lemma quiet_consume: "runs (quiet J) (consumeRestoreConfirmation d n j) (\<lambda>_. True)"
  unfolding consumeRestoreConfirmation_def
  by (intro quiet_delete_confirmation quiet.runs_lift quiet_intros) auto

lemma hoare_remove_file:
  assumes l: "legal_journal (resources d) j" and p: "phase j = Service_restore_pending"
    and S: "\<And>x y. resume_step (resources d) x y \<Longrightarrow> S x y"
  shows "hoare S (\<lambda>x. x = Some j) (removeJournalFile d) (\<lambda>_ x. x = None)"
proof -
  have step: "S (Some j) None" by (rule S) (rule resume_step.remove [OF l p])
  show ?thesis
    unfolding removeJournalFile_def
    by (rule hoare_bind [OF hoare_call], simp add: p, rule hoare_bind [OF hoare_call], simp,
        rule hoare_bind [OF hoare_set_disk [where S = S and J = "Some j" and K = None, OF step]],
        rule hoare_call, simp)
qed

text \<open>A quiet prefix keeps the file; the rest starts from the same journal.\<close>

lemma hoare_after_quiet:
  assumes m: "runs (quiet J) m Q" and f: "\<And>a. Q a \<Longrightarrow> hoare S (\<lambda>x. x = J) (f a) T"
  shows "hoare S (\<lambda>x. x = J) (io_bind m f) T"
proof (rule hoare_bind [OF hoare_quiet [OF m rtranclp.rtrancl_refl]])
  fix a
  show "hoare S (\<lambda>x. x = J \<and> Q a) (f a) T"
    using f [of a] by (cases "Q a") (auto simp: hoare_def)
qed

lemma hoare_remove:
  assumes l: "legal_journal (resources d) j" and p: "phase j = Service_restore_pending"
    and S: "\<And>x y. resume_step (resources d) x y \<Longrightarrow> S x y"
  shows "hoare S (\<lambda>x. x = Some j) (removeAfterServiceRestoreConfirmed d j n) (\<lambda>_ x. x = None)"
  unfolding removeAfterServiceRestoreConfirmed_def
  by (intro hoare_after_quiet [OF quiet_call] hoare_after_quiet [OF quiet_load]
      hoare_after_quiet [OF quiet_consume] hoare_if hoare_throw hoare_remove_file [OF l p S]) auto

lemma hoare_restore_body:
  assumes l: "legal_journal (resources d) j" and p: "phase j = Service_restore_pending"
    and S: "\<And>x y. resume_step (resources d) x y \<Longrightarrow> S x y"
  shows "hoare S (\<lambda>x. x = Some j) (restore_body d j) (\<lambda>_ x. x = None)"
proof -
  have q: "Quarantined \<le> phase j" using p by (simp add: phase_order)
  have tail: "hoare S (\<lambda>x. x = Some j)
     (case z of (running, token) \<Rightarrow>
        io_bind (call (E_hook Service_restored) (afterEffect d Service_restored)) (\<lambda>_.
        io_bind (removeAfterServiceRestoreConfirmed d j token) (\<lambda>_.
        io_return (buildRecoveryResult j i running)))) (\<lambda>_ x. x = None)" for z i
    by (cases z) (auto intro!: hoare_after_quiet [OF quiet_call] hoare_bind [OF hoare_remove [OF l p S]]
        hoare_return)
  show ?thesis
    unfolding restore_body_def
    by (intro hoare_after_quiet [OF quiet_requireReplacement [OF refl q]]
        hoare_after_quiet [OF quiet_require_encryption [OF refl q]]
        hoare_after_quiet [OF quiet_require_config]
        hoare_after_quiet [OF quiet_verify_artifacts [OF refl p]]
        hoare_after_quiet [OF quiet_release] hoare_after_quiet [OF quiet_restore_and_confirm [OF refl p]]
        hoare_after_quiet [OF quiet_call] tail) simp_all
qed

lemmas lawful_intros =
  lawful.runs_seq lawful.runs_return lawful_call runs_splits

lemma lawful_set_held: "runs (lawful S) (set_held b) (\<lambda>_. True)"
  by (simp add: runs_def lawful_def set_held_def log_extends_def)

lemma lawful_get_host: "runs (lawful S) (get_host f) (\<lambda>_. True)"
  by (simp add: runs_def lawful_def get_host_def log_extends_def)

lemma lawful_release: "runs (lawful S) (release_runtime d) (\<lambda>_. True)"
  unfolding release_runtime_def
  by (intro lawful_get_host lawful_set_held lawful_intros) auto

lemma lawful_dispose: "runs (lawful S) (dispose_if_held d) (\<lambda>_. True)"
  unfolding dispose_if_held_def by (intro lawful_get_host lawful_intros) auto

lemma hoare_release: "hoare S P (release_runtime d) (\<lambda>_. P)"
  unfolding release_runtime_def
  by (intro hoare_bind [OF hoare_get_host] hoare_if hoare_bind [OF hoare_call] hoare_set_held
      hoare_return) simp_all

lemma hoare_dispose: "hoare S P (dispose_if_held d) (\<lambda>_. P)"
  unfolding dispose_if_held_def
  by (intro hoare_bind [OF hoare_get_host] hoare_if hoare_call hoare_return) simp_all

lemma hoare_recover:
  assumes l: "legal_journal (resources d) j"
    and S: "\<And>x y. resume_step (resources d) x y \<Longrightarrow> S x y"
  shows "hoare S (\<lambda>x. x = Some j) (recoverServiceRestorePending d j) (\<lambda>_ x. x = None)"
proof (cases "phase j = Service_restore_pending")
  case True
  have fin: "hoare S (\<lambda>x. x = Some j)
      (io_finally (restore_body d j) (io_bind (dispose_if_held d) (\<lambda>_. release_runtime d)))
      (\<lambda>_ x. x = None)"
    by (rule hoare_finally [OF hoare_restore_body [OF l True S]])
      (auto intro: lawful.runs_seq lawful_dispose lawful_release hoare_bind [OF hoare_dispose] hoare_release)
  show ?thesis
    unfolding recoverServiceRestorePending_def
    using True
    by (auto intro!: hoare_after_quiet [OF quiet_prepareRecovery] hoare_after_quiet [OF quiet_call]
        hoare_after_quiet [OF quiet_ensure_runtime] fin)
next
  case False
  then show ?thesis by (simp add: recoverServiceRestorePending_def hoare_throw)
qed

subsection \<open>The coordinator\<close>

lemma hoare_advance:
  assumes l: "legal_journal (resources d) a" and t: "transition_allowed a t"
    and S: "\<And>x y. resume_step (resources d) x y \<Longrightarrow> S x y"
  shows "hoare S (\<lambda>x. x = Some a) (advance d a t)
    (\<lambda>b x. x = Some b \<and> advances_to (resources d) a t b)"
  unfolding advance_def
proof (rule hoare_bind [OF hoare_advance_store [OF l t S]])
  fix b
  show "hoare S (\<lambda>x. x = Some b \<and> advances_to (resources d) a t b)
     (io_bind (call (E_phase_hook (phase b)) (afterPhase d (phase b))) (\<lambda>_. io_return b))
     (\<lambda>b x. x = Some b \<and> advances_to (resources d) a t b)"
    by (rule hoare_bind [OF hoare_call], simp, rule hoare_return)
qed

lemma io_bind_lift_ok: "io_bind (io_lift (Inr a)) f = f a"
  by (rule ext) (simp add: io_bind_def io_lift_def)

lemma hoare_no_action:
  assumes "nextHostResetAction j = Inl e"
  shows "hoare S P (io_bind (io_lift (nextHostResetAction j)) f) Q"
  using assms by (simp add: hoare_def io_bind_def io_lift_def lawful.refl)

lemma hoare_loop:
  assumes v: "valid_journal (resources d) j"
    and S: "\<And>x y. resume_step (resources d) x y \<Longrightarrow> S x y"
  shows "hoare S (\<lambda>x. x = Some j) (reset_loop n d j)
    (\<lambda>r x. if r = None then n \<le> 12 - PHASE_INDEX (phase j) else x = None)"
  using v
proof (induction n arbitrary: j)
  case 0
  show ?case by (simp add: hoare_return)
next
  case (Suc n)
  let ?Q = "\<lambda>r x. if r = None then Suc n \<le> 12 - PHASE_INDEX (phase j) else x = None"
  show ?case
  proof (cases "nextHostResetAction j")
    case (Inl e)
    then show ?thesis unfolding reset_loop.simps by (rule hoare_no_action)
  next
    case (Inr a)
    then have l: "legal_journal (resources d) j"
      using Suc.prems by (auto simp: legal_journal_def nextHostResetAction_def assertLegalJournal_def
          rbind_Inr_iff split: if_splits)
    have rec: "hoare S (\<lambda>x. x = Some j)
        (io_bind (recoverServiceRestorePending d j) (\<lambda>r. io_return (Some r))) ?Q"
      by (rule hoare_bind [OF hoare_recover [OF l S]]) (auto intro: hoare_return)
    have step: "hoare S (\<lambda>x. x = Some j) (case r of
         Restore_result j' \<Rightarrow> io_bind (recoverServiceRestorePending d j) (\<lambda>r. io_return (Some r))
       | Transition_result t \<Rightarrow> io_bind (advance d j t) (\<lambda>j'. reset_loop n d j')) ?Q"
      if "fits j r" for r
    proof (cases r)
      case (Restore_result j')
      then show ?thesis using rec by simp
    next
      case (Transition_result t)
      then have t: "transition_allowed j t" using that by simp
      have "hoare S (\<lambda>x. x = Some j) (io_bind (advance d j t) (\<lambda>j'. reset_loop n d j')) ?Q"
      proof (rule hoare_bind [OF hoare_advance [OF l t S]])
        fix b
        show "hoare S (\<lambda>x. x = Some b \<and> advances_to (resources d) j t b) (reset_loop n d b) ?Q"
        proof (cases "advances_to (resources d) j t b")
          case True
          then have vb: "valid_journal (resources d) b" by (simp add: advances_to_def legal_journal_def)
          have "phase j < phase b"
            using transition_phase_less [OF t, of "updatedAt b"] True by (simp add: advances_to_def)
          then have less: "PHASE_INDEX (phase j) < PHASE_INDEX (phase b)" by (simp add: phase_order)
          show ?thesis
            by (rule hoare_conseq [OF Suc.IH [OF vb]])
              (use less PHASE_INDEX_le [of "phase b"] in \<open>auto split: if_splits\<close>)
        next
          case False
          then show ?thesis by (simp add: hoare_def)
        qed
      qed
      with Transition_result show ?thesis by simp
    qed
    have body: "hoare S (\<lambda>x. x = Some j)
        (if a = Restore_service_and_remove_journal
         then io_bind (recoverServiceRestorePending d j) (\<lambda>r. io_return (Some r))
         else io_bind (executeHostResetAction a j d) (\<lambda>result.
           case result of
             Restore_result j' \<Rightarrow> io_bind (recoverServiceRestorePending d j) (\<lambda>r. io_return (Some r))
           | Transition_result t \<Rightarrow> io_bind (advance d j t) (\<lambda>j'. reset_loop n d j'))) ?Q"
      by (intro hoare_if rec hoare_after_quiet [OF quiet_executor [OF Inr]] step)
    show ?thesis
      unfolding reset_loop.simps Inr io_bind_lift_ok by (rule body)
  qed
qed

lemma hoare_catch_call:
  assumes e: "\<And>x. P x \<Longrightarrow> entry_ok (e, x)" and q: "\<And>a x. P x \<Longrightarrow> Q a x"
    and f: "\<And>err. hoare S P (f err) Q"
  shows "hoare S P (io_catch (call e (p :: ('w, 'a) port)) f) Q"
  unfolding hoare_def
proof (intro allI impI)
  fix h :: "'w host"
  assume P: "P (disk h)"
  obtain r h1 where m: "call e p h = (r, h1)" by (cases "call e p h")
  have l: "lawful S h h1" and P1: "P (disk h1)"
    using m P e by (auto simp: call_def lawful_def log_extends_def split: prod.splits)
  show "lawful S h (snd (io_catch (call e p) f h)) \<and>
    (\<forall>a. fst (io_catch (call e p) f h) = Inr a \<longrightarrow> Q a (disk (snd (io_catch (call e p) f h))))"
    using m l P1 q f [unfolded hoare_def, rule_format, OF P1] lawful.trans [OF l]
    by (cases r) (auto simp: io_catch_def)
qed

lemma hoare_create:
  shows "hoare (fresh_step (resources d)) (\<lambda>x. x = None) (createHostDomainResetJournal d j)
    (\<lambda>a x. x = Some j \<and> a = j \<and> legal_journal (resources d) j \<and> phase j = Quarantine_pending)"
proof (cases "phase j = Quarantine_pending \<and> valid_journal (resources d) j")
  case True
  let ?S = "fresh_step (resources d)"
  have l: "legal_journal (resources d) j"
    using True valid_legal_iff [of "resources d" j] by (simp add: legal_journal_def)
  have parse: "parseHostDomainResetJournal j (resources d) = ok j"
    using True by simp
  have up: "?S None (Some j)" using l True by (intro fresh_step.create) auto
  have down: "?S (Some j) None" using True by (intro fresh_step.uncreate) auto
  have undo: "hoare ?S (\<lambda>x. x = Some j) (undo_link d e) (\<lambda>_ x. x = Some j)" for e
    unfolding undo_link_def
    by (intro hoare_bind [OF hoare_call] hoare_if hoare_throw
        hoare_bind [OF hoare_set_disk [where S = ?S and J = "Some j" and K = None, OF down]]) simp
  have link: "hoare ?S (\<lambda>x. x = None) (link_journal d j) (\<lambda>_ x. x = Some j)"
    unfolding link_journal_def
    by (intro hoare_bind [OF hoare_call] hoare_catch_call undo
        hoare_bind [OF hoare_set_disk [where S = ?S and J = None and K = "Some j", OF up]]) simp_all
  have "hoare ?S (\<lambda>x. x = None) (writeJournalExclusive d j) (\<lambda>_ x. x = Some j)"
    unfolding writeJournalExclusive_def
    by (intro hoare_bind [OF hoare_get_host] hoare_if hoare_throw link)
  then show ?thesis
    unfolding createHostDomainResetJournal_def parse io_bind_lift_ok using True l
    by simp (intro hoare_bind [OF hoare_call] hoare_bind [where Q = "\<lambda>_ x. x = Some j"] hoare_return,
        simp_all)
next
  case False
  then have "phase j = Quarantine_pending \<Longrightarrow>
      \<exists>e. parseHostDomainResetJournal j (resources d) = Inl e"
    by (auto simp: parseHostDomainResetJournal_def valid_journal_def)
  then show ?thesis
    unfolding createHostDomainResetJournal_def
    by (auto simp: hoare_throw) (simp add: hoare_def io_bind_def io_lift_def lawful.refl)
qed

lemma hoare_fresh_bootstrap:
  "hoare (fresh_step (resources d)) (\<lambda>x. x = None) (fresh_bootstrap d)
    (\<lambda>b x. x = Some b \<and> valid_journal (resources d) b)"
proof -
  let ?S = "fresh_step (resources d)"
  have tail: "hoare ?S (\<lambda>x. x = Some j0 \<and> a = j0 \<and> legal_journal (resources d) j0 \<and> phase j0 = Quarantine_pending)
     (io_bind (call (E_stop s) (stopAndConfirm d s)) (\<lambda>_.
      io_bind (call (E_phase_hook (phase a)) (afterPhase d (phase a))) (\<lambda>_.
      io_bind (acquire_runtime d) (\<lambda>_. advance d a To_quarantined))))
     (\<lambda>b x. x = Some b \<and> valid_journal (resources d) b)" if s: "service j0 = s" for j0 a s
  proof (cases "a = j0 \<and> legal_journal (resources d) j0 \<and> phase j0 = Quarantine_pending")
    case True
    then have l: "legal_journal (resources d) j0" and p: "phase j0 = Quarantine_pending" by auto
    have adv: "hoare ?S (\<lambda>x. x = Some j0) (advance d j0 To_quarantined)
        (\<lambda>b x. x = Some b \<and> valid_journal (resources d) b)"
      by (rule hoare_post [OF hoare_advance [OF l]])
        (auto simp: p advances_to_def legal_journal_def intro: fresh_step.proceed)
    have body: "hoare ?S (\<lambda>x. x = Some j0)
       (io_bind (call (E_stop s) (stopAndConfirm d s)) (\<lambda>_.
        io_bind (call (E_phase_hook (phase j0)) (afterPhase d (phase j0))) (\<lambda>_.
        io_bind (acquire_runtime d) (\<lambda>_. advance d j0 To_quarantined))))
       (\<lambda>b x. x = Some b \<and> valid_journal (resources d) b)"
      by (intro hoare_after_quiet [OF quiet_call] hoare_after_quiet [OF quiet_acquire_runtime] adv)
        (simp_all add: s)
    have aj: "a = j0" using True by simp
    show ?thesis unfolding aj by (rule hoare_conseq [OF body]) (use True in auto)
  next
    case False
    then show ?thesis by (auto simp: hoare_def)
  qed
  show ?thesis
    unfolding fresh_bootstrap_def
    by (intro hoare_after_quiet [OF quiet_call] hoare_after_quiet [OF quiet_stamp]
        hoare_bind [OF hoare_create] tail) (simp_all add: buildInitialJournal_def)
qed

lemma quiet_resume: "runs (quiet (Some j)) (resume d j) (\<lambda>a. a = j)"
  unfolding resume_def
  by (intro quiet_prepareRecovery quiet_acquire_runtime quiet_intros) auto

lemma hoare_reset_existing:
  "hoare (resume_step (resources d)) (\<lambda>x. x = Some j) (resetHostDomainUnlocked n d)
    (\<lambda>r x. if r = None then n \<le> 12 else x = None)"
  unfolding resetHostDomainUnlocked_def
proof (rule hoare_bind [OF hoare_load], rule hoare_finally [OF _ lawful_release hoare_release])
  fix stored
  let ?Q = "\<lambda>r x. if r = None then n \<le> 12 else x = None"
  show "hoare (resume_step (resources d))
     (\<lambda>x. x = Some j \<and> stored = Some j \<and> (\<forall>j. stored = Some j \<longrightarrow> valid_journal (resources d) j))
     (io_bind (case stored of None \<Rightarrow> fresh_bootstrap d | Some j \<Rightarrow> resume d j) (reset_loop n d)) ?Q"
  proof (cases "stored = Some j \<and> valid_journal (resources d) j")
    case True
    have "hoare (resume_step (resources d)) (\<lambda>x. x = Some j) (io_bind (resume d j) (reset_loop n d)) ?Q"
    proof (rule hoare_after_quiet [OF quiet_resume])
      fix a
      assume "a = j"
      then show "hoare (resume_step (resources d)) (\<lambda>x. x = Some j) (reset_loop n d a) ?Q"
        using True by (auto intro!: hoare_post [OF hoare_loop] split: if_splits)
    qed
    with True show ?thesis by (auto intro: hoare_conseq)
  next
    case False
    then show ?thesis by (auto simp: hoare_def)
  qed
qed

lemma hoare_reset_fresh:
  "hoare (fresh_step (resources d)) (\<lambda>x. x = None) (resetHostDomainUnlocked n d)
    (\<lambda>r x. if r = None then n \<le> 12 else x = None)"
  unfolding resetHostDomainUnlocked_def
proof (rule hoare_bind [OF hoare_load], rule hoare_finally [OF _ lawful_release hoare_release])
  fix stored
  let ?Q = "\<lambda>r x. if r = None then n \<le> 12 else x = None"
  have "hoare (fresh_step (resources d)) (\<lambda>x. x = None)
     (io_bind (fresh_bootstrap d) (reset_loop n d)) ?Q"
  proof (rule hoare_bind [OF hoare_fresh_bootstrap])
    fix b
    show "hoare (fresh_step (resources d)) (\<lambda>x. x = Some b \<and> valid_journal (resources d) b)
        (reset_loop n d b) ?Q"
    proof (cases "valid_journal (resources d) b")
      case True
      show ?thesis
        by (rule hoare_conseq [OF hoare_loop [OF True, where S = "fresh_step (resources d)"]])
          (auto intro: fresh_step.proceed split: if_splits)
    next
      case False
      then show ?thesis by (simp add: hoare_def)
    qed
  qed
  then show "hoare (fresh_step (resources d))
     (\<lambda>x. x = None \<and> stored = None \<and> (\<forall>j. stored = Some j \<longrightarrow> valid_journal (resources d) j))
     (io_bind (case stored of None \<Rightarrow> fresh_bootstrap d | Some j \<Rightarrow> resume d j) (reset_loop n d)) ?Q"
    by (cases stored) (auto simp: hoare_def)
qed

subsection \<open>What a chain of steps keeps\<close>

text \<open>
  \<open>continues a b\<close>: \<open>b\<close> is a later journal of the same reset. The identifying fields and the service
  snapshot are those of \<open>a\<close>, the phase has not gone back, everything \<open>a\<close> had bound is still bound to
  the same value.
\<close>

definition kept :: "'a option \<Rightarrow> 'a option \<Rightarrow> bool" where
  "kept x y \<longleftrightarrow> (x \<noteq> None \<longrightarrow> y = x)"

definition continues :: "journal \<Rightarrow> journal \<Rightarrow> bool" where
  "continues a b \<longleftrightarrow>
     version b = version a \<and> operationId b = operationId a \<and> profile b = profile a
     \<and> resourceDigest b = resourceDigest a \<and> createdAt b = createdAt a \<and> service b = service a
     \<and> phase a \<le> phase b
     \<and> kept (oldHostId a) (oldHostId b) \<and> kept (oldKeyId a) (oldKeyId b)
     \<and> kept (oldEncryptionKeyId a) (oldEncryptionKeyId b) \<and> kept (signingCleanup a) (signingCleanup b)
     \<and> kept (newHostId a) (newHostId b) \<and> kept (newKeyId a) (newKeyId b)
     \<and> kept (signingReplacementAttemptedAt a) (signingReplacementAttemptedAt b)
     \<and> kept (encryptionIdentityReplacedAt a) (encryptionIdentityReplacedAt b)
     \<and> kept (runtimeArtifactsClearedAt a) (runtimeArtifactsClearedAt b)
     \<and> kept (configSavedAt a) (configSavedAt b) \<and> kept (enrolledAt a) (enrolledAt b)
     \<and> kept (serviceMetadataSynchronizedAt a) (serviceMetadataSynchronizedAt b)"

lemma kept_refl [simp]: "kept x x"
  by (simp add: kept_def)

lemma kept_trans: "kept x y \<Longrightarrow> kept y z \<Longrightarrow> kept x z"
  by (auto simp: kept_def)

lemma continues_refl [simp]: "continues a a"
  by (simp add: continues_def)

lemma continues_trans: "continues a b \<Longrightarrow> continues b c \<Longrightarrow> continues a c"
  unfolding continues_def by (elim conjE, intro conjI) (auto elim: kept_trans)

lemma apply_continues:
  assumes l: "legal_journal res a" and t: "transition_allowed a t"
  shows "continues a (applyHostDomainResetTransition a t u)"
  using valid_evidence [OF legal_valid [OF l]] valid_pre_inspection [OF legal_valid [OF l]] t
  by (cases t) (auto simp: continues_def kept_def phase_order preInspection_def)

lemma resume_steps_continue:
  assumes "(resume_step res)\<^sup>*\<^sup>* (Some a) y"
  shows "case y of
      Some b \<Rightarrow> continues a b \<and> (b \<noteq> a \<longrightarrow> legal_journal res b)
    | None \<Rightarrow> \<exists>b. (resume_step res)\<^sup>*\<^sup>* (Some a) (Some b) \<and> continues a b
        \<and> phase b = Service_restore_pending"
  using assms
proof (induction rule: rtranclp_induct)
  case base
  then show ?case by simp
next
  case (step y z)
  from step.hyps(2) show ?case
  proof cases
    case (advance b t u)
    then have "continues b (applyHostDomainResetTransition b t u)" by (intro apply_continues)
    with advance step.IH show ?thesis by (auto intro: continues_trans)
  next
    case (remove b)
    with step show ?thesis by auto
  qed
qed

subsection \<open>Confirmations\<close>

lemma consume_unknown:
  "oget (confirmations h) n = None \<Longrightarrow>
    consumeRestoreConfirmation d n j h = (throw forgedConfirmation, h)"
  by (simp add: consumeRestoreConfirmation_def io_bind_def get_host_def io_throw_def)

lemma consume_deletes:
  assumes "fst (consumeRestoreConfirmation d n j h) = ok ()"
  shows "oget (confirmations (snd (consumeRestoreConfirmation d n j h))) n = None"
proof (cases "oget (confirmations h) n")
  case None
  with assms show ?thesis by (simp add: consume_unknown)
next
  case (Some c)
  show ?thesis
    using assms Some
    by (simp add: consumeRestoreConfirmation_def io_bind_def get_host_def io_lift_def io_throw_def
        parse_journal_eq delete_confirmation_def oget_odel split: if_splits)
qed

end
