(* ===== verification/Reset_Examples.thy ===== *)
theory Reset_Examples
  imports Reset_Safety
begin

section \<open>Concrete journals and ports\<close>

text \<open>
  Inputs on which the properties of the Host reset are exercised: a journal at several phases, and
  ports whose every call succeeds.
\<close>

definition example_time :: "nat \<Rightarrow> jsstring" where
  "example_time k = print_fields
     \<lparr>year = 2024, month = 1, day = 2, hour = 3, minute = 4, second = 5, millisecond = k\<rparr>"

lemma example_time_canonical [simp]:
  assumes "k < 1000"
  shows "journal_canonical_timestamp (example_time k)"
  unfolding example_time_def
  by (intro journal_canonical print_fields_canonical)
    (use assms in \<open>simp_all add: valid_fields_def days_in_month_def\<close>)

lemma example_time_parse:
  assumes "k < 1000"
  shows "journal_date_parse (example_time k) = Some (time_of_fields
    \<lparr>year = 2024, month = 1, day = 2, hour = 3, minute = 4, second = 5, millisecond = 0\<rparr> + int k)"
proof -
  let ?f = "\<lparr>year = 2024, month = 1, day = 2, hour = 3, minute = 4, second = 5, millisecond = k\<rparr>"
  have v: "valid_fields ?f" using assms by (simp add: valid_fields_def days_in_month_def)
  have "is_canonical_timestamp (print_fields ?f)" "instant (print_fields ?f) = time_of_fields ?f"
    using print_fields_canonical [OF v] instant_print_fields [OF v] by simp_all
  then show ?thesis
    by (simp add: example_time_def journal_date_parse_canonical time_of_fields_def)
qed

lemma example_time_le [simp]:
  "j < 1000 \<Longrightarrow> k < 1000 \<Longrightarrow> parsed_less_eq (example_time j) (example_time k) \<longleftrightarrow> j \<le> k"
  "j < 1000 \<Longrightarrow> k < 1000 \<Longrightarrow> parsed_less (example_time j) (example_time k) \<longleftrightarrow> j < k"
  by (simp_all add: parsed_less_eq_def parsed_less_def example_time_parse)

definition example_id :: "string \<Rightarrow> char \<Rightarrow> jsstring" where
  "example_id p c = js (p @ replicate 43 c)"

lemma example_public_id:
  assumes "is_base64url_unit (of_char c)"
  shows "public_id p (example_id p c)"
  using assms
  by (simp add: public_id_def example_id_def starts_with_def js_append js_replicate
      list_all_replicate_iff)

lemma example_id_inject [simp]: "example_id p c = example_id p e \<longleftrightarrow> c = e"
  by (simp add: example_id_def)

lemma example_id_not_empty [simp]: "example_id p c \<noteq> []"
  by (simp add: example_id_def)

definition example_resources :: reset_resources where
  "example_resources = \<lparr>identityProfile = Default_profile, pathsDigest = js (replicate 64 CHR ''0''),
     identityPathDigest = js (replicate 64 CHR ''1'')\<rparr>"

definition example_service :: service_snapshot where
  "example_service = \<lparr>managed = True, installed = True, enabled = True, wasRunning = True,
     backend = Systemd_user\<rparr>"

definition example_operation :: jsstring where
  "example_operation = js (''reset_'' @ replicate 32 CHR ''0'')"

definition example_initial :: journal where
  "example_initial =
     \<lparr>version = 1, operationId = example_operation, profile = Default_profile,
      phase = Quarantine_pending, oldHostId = None, oldKeyId = None, newHostId = None, newKeyId = None,
      oldEncryptionKeyId = None, signingCleanup = None, signingReplacementAttemptedAt = None,
      encryptionIdentityReplacedAt = None, runtimeArtifactsClearedAt = None, configSavedAt = None,
      enrolledAt = None, serviceMetadataSynchronizedAt = None,
      resourceDigest = js (replicate 64 CHR ''0''), createdAt = example_time 0,
      updatedAt = example_time 0,
      revoke = \<lparr>revokeState = Not_attempted, revokeOutcome = None\<rparr>, service = example_service\<rparr>"

definition example_quarantined :: journal where
  "example_quarantined = example_initial\<lparr>phase := Quarantined, updatedAt := example_time 1\<rparr>"

definition example_prepared :: journal where
  "example_prepared = example_quarantined
     \<lparr>phase := Prepared, oldHostId := Some (example_id ''host_'' CHR ''a''),
      oldKeyId := Some (example_id ''key_'' CHR ''a''), updatedAt := example_time 2\<rparr>"

definition example_restoring :: journal where
  "example_restoring = example_prepared
     \<lparr>phase := Service_restore_pending,
      revoke := \<lparr>revokeState = Complete, revokeOutcome = Some Revoked\<rparr>,
      newHostId := Some (example_id ''host_'' CHR ''b''),
      newKeyId := Some (example_id ''key_'' CHR ''b''),
      signingReplacementAttemptedAt := Some (example_time 5),
      encryptionIdentityReplacedAt := Some (example_time 7),
      runtimeArtifactsClearedAt := Some (example_time 8), configSavedAt := Some (example_time 9),
      enrolledAt := Some (example_time 10), serviceMetadataSynchronizedAt := Some (example_time 11),
      updatedAt := example_time 12\<rparr>"

text \<open>The journal the schema accepts and the machine refuses: revoke pending, yet skipped.\<close>

definition example_gap :: journal where
  "example_gap = example_prepared
     \<lparr>phase := Revoke_pending,
      revoke := \<lparr>revokeState = Skipped, revokeOutcome = Some Old_identity_unreadable\<rparr>,
      signingCleanup := Some \<lparr>kind = Linux_json, cleanupDigest = js (replicate 64 CHR ''1''),
        cleanupProfile = Default_profile, previousAccount = None, previousPendingAccount = None,
        interruptedCreationAccount = None\<rparr>,
      updatedAt := example_time 3\<rparr>"

lemma example_digest: "isDigest (js (replicate 64 CHR ''0''))"
  by (simp add: isDigest_def js_replicate list_all_replicate_iff is_lower_hex_unit_def
      unat_of_char_unit)

lemma example_operation_id: "isOperationId example_operation"
  by (simp add: example_operation_def isOperationId_def js_append js_replicate js_Cons list_all_replicate_iff
      is_base64url_unit_def is_alnum_unit_def unat_of_char_unit)

lemma example_ids [simp]:
  "public_id ''host_'' (example_id ''host_'' CHR ''a'')"
  "public_id ''key_'' (example_id ''key_'' CHR ''a'')"
  "public_id ''host_'' (example_id ''host_'' CHR ''b'')"
  "public_id ''key_'' (example_id ''key_'' CHR ''b'')"
  by (rule example_public_id; simp add: is_base64url_unit_def is_alnum_unit_def unat_of_char_unit)+

lemmas example_journal_defs =
  example_initial_def example_quarantined_def example_prepared_def example_restoring_def
  example_gap_def example_resources_def example_service_def

lemmas schema_defs =
  valid_fields_of_journal_def isNullablePublicId_def isNullableEncryptionKeyId_def isSigningCleanup_def
  isNullableJournalTimestamp_def isRevoke_def isService_def isUnmanagedService_def

lemmas phase_invariant_defs =
  hasValidPhaseInvariants_def expectedRevokeState_def preInspection_def revokeSkipped_def exactEvidence_def

lemma example_valid:
  "valid_journal example_resources example_initial"
  "valid_journal example_resources example_quarantined"
  "valid_journal example_resources example_prepared"
  "valid_journal example_resources example_restoring"
  "valid_journal example_resources example_gap"
  by (simp_all add: valid_journal_def schema_defs phase_invariant_defs example_journal_defs
      example_digest [unfolded js_replicate] example_digest example_operation_id)

lemma example_legal:
  "legal_journal example_resources example_initial"
  "legal_journal example_resources example_quarantined"
  "legal_journal example_resources example_prepared"
  "legal_journal example_resources example_restoring"
  using example_valid
  by (simp_all add: legal_journal_def legal_for_machine_def isLegalRevokeCombination_def
      example_journal_defs)

subsection \<open>Ports that succeed\<close>

definition example_replacement :: host_identity where
  "example_replacement = \<lparr>identityHostId = example_id ''host_'' CHR ''b'',
     identityKeyId = example_id ''key_'' CHR ''b'', identityMaterial = [],
     privateKeyStorage = Linux_key_file []\<rparr>"

definition example_encryption :: encryption_identity where
  "example_encryption = \<lparr>encryptionHostId = example_id ''host_'' CHR ''b'',
     encryptionKeyId = example_id ''ekey_'' CHR ''b''\<rparr>"

definition example_config :: host_config where
  "example_config = \<lparr>configIdentity = Some example_replacement, configRest = []\<rparr>"

text \<open>A world that answers every call; the argument is what the identity store holds.\<close>

definition example_deps :: "host_identity option \<Rightarrow> unit reset_deps" where
  "example_deps current =
     \<lparr>profileId = Default_profile, resources = example_resources, sha256Hex = (\<lambda>s. s),
      identityMetadataPath = [], baseConfig = example_config,
      clock = (\<lambda>w. (0, w)), randomUuidHex = (\<lambda>w. ([], w)),
      prepare = (\<lambda>w. (ok example_service, w)), stopAndConfirm = (\<lambda>_ w. (ok (), w)),
      synchronizeMetadata = (\<lambda>_ _ w. (ok (), w)), restoreAndConfirm = (\<lambda>_ _ w. (ok True, w)),
      acquireRuntime = (\<lambda>w. (ok (), w)), disposeRuntime = (\<lambda>w. (ok (), w)),
      loadIdentity = (\<lambda>w. (ok current, w)), hasEvidenceSource = False,
      inspectLegacy = (\<lambda>w. (throw (IdentityError ''ERR_IDENTITY_RESET_REQUIRED''), w)),
      recoverExplicitReset = None, replaceIdentity = (\<lambda>_ w. (ok example_replacement, w)),
      completeExplicitReset = None, deleteOldSigning = None,
      loadEncryption = (\<lambda>w. (ok (Some example_encryption), w)), recoverReset = None,
      replaceForReset = (\<lambda>_ _ w. (ok example_encryption, w)), completeReset = None,
      deleteOldEncryption = None, clearArtifacts = (\<lambda>_ w. (ok (), w)),
      loadConfig = (\<lambda>w. (ok example_config, w)), saveConfig = (\<lambda>_ w. (ok (), w)),
      relayRevoke = (\<lambda>_ w. (ok Revoked, w)), relayEnroll = (\<lambda>_ _ w. (ok (), w)),
      reintroducedArtifacts = (\<lambda>w. (ok False, w)), stateExists = (\<lambda>w. (ok False, w)),
      spoolExists = (\<lambda>w. (ok False, w)), assertCurrentArtifacts = (\<lambda>_ w. (ok (), w)),
      assertSpoolKeyAbsent = (\<lambda>w. (ok (), w)), advanceLock = (\<lambda>w. (ok (), w)),
      advanceLockOwned = (\<lambda>w. (ok (), w)), advanceUnlock = (\<lambda>w. (ok (), w)),
      leaseOwned = (\<lambda>w. (ok (), w)), readJournal = (\<lambda>w. (ok (), w)),
      stageJournal = (\<lambda>w. (ok (), w)), syncDirectory = (\<lambda>w. (ok (), w)),
      removeStaged = (\<lambda>w. (ok True, w)), unlinkJournal = (\<lambda>w. (ok (), w)),
      afterEffect = (\<lambda>_ w. (ok (), w)), afterPhase = (\<lambda>_ w. (ok (), w))\<rparr>"

definition example_host :: "journal option \<Rightarrow> unit host" where
  "example_host file = \<lparr>world = (), log = [], disk = file, held = False, confirmations = [], issued = 0\<rparr>"

lemmas io_defs =
  io_bind_def io_return_def io_throw_def io_lift_def io_catch_def io_finally_def call_def
  call_option_def get_host_def set_disk_def set_held_def

lemma example_restoring_simps:
  "phase example_restoring = Service_restore_pending" "service example_restoring = example_service"
  "newHostId example_restoring = Some (example_id ''host_'' CHR ''b'')"
  "newKeyId example_restoring = Some (example_id ''key_'' CHR ''b'')"
  "revoke example_restoring = \<lparr>revokeState = Complete, revokeOutcome = Some Revoked\<rparr>"
  "nextHostResetAction example_restoring = ok Restore_service_and_remove_journal"
  by (simp_all add: example_restoring_def example_prepared_def example_quarantined_def example_initial_def
     nextHostResetAction_def assertLegalJournal_def legal_for_machine_def isLegalRevokeCombination_def)

lemmas store_defs = loadHostDomainResetJournal_def restoreHostDomainServiceAndConfirm_def
  assertReplacementIdentity_def isExactIdentityReference_def issue_confirmation_def
  removeAfterServiceRestoreConfirmed_def consumeRestoreConfirmation_def delete_confirmation_def
  removeJournalFile_def

lemmas recovery_defs = resetHostDomainUnlocked_def resume_def prepareRecovery_def same_service_binding_def
  recoverServiceRestorePending_def ensure_runtime_def acquire_runtime_def restore_body_def
  requireReplacement_def require_encryption_def require_config_def verify_artifacts_def release_runtime_def
  dispose_if_held_def buildRecoveryResult_def

lemma example_restoring_parse:
  "parseHostDomainResetJournal example_restoring example_resources = ok example_restoring"
  using example_valid(4) by simp

lemmas example_world_defs =
  example_deps_def example_host_def example_replacement_def example_encryption_def example_config_def

end
