(* ===== verification/Reset_Commit.thy ===== *)
theory Reset_Commit
  imports Reset_Machine
begin

section \<open>Well-formed transitions commit\<close>

text \<open>
  The progress half of the reset: what the payload of a transition has to satisfy so that the schema
  parses the candidate and the policy accepts it (the checks of \<open>advanceHostDomainResetJournal\<close> in
  host-domain-reset-journal-store.ts).
\<close>

fun well_formed_payload :: "reset_resources \<Rightarrow> journal \<Rightarrow> transition \<Rightarrow> jsstring \<Rightarrow> bool" where
  "well_formed_payload res j (To_prepared host key ekey cleanup rv) u =
     (isNullablePublicId host ''host_'' \<and> isNullablePublicId key ''key_''
      \<and> (host = None) = (key = None)
      \<and> isNullableEncryptionKeyId ekey \<and> isSigningCleanup cleanup res
      \<and> ((host \<noteq> None \<and> rv = \<lparr>revokeState = Not_attempted, revokeOutcome = None\<rparr>)
         \<or> (cleanup \<noteq> None \<and> rv = \<lparr>revokeState = Skipped, revokeOutcome = Some Old_identity_unreadable\<rparr>)))"
| "well_formed_payload res j (To_old_identity_revoked oc) u = (oc = Revoked \<or> oc = Identity_already_revoked)"
| "well_formed_payload res j (To_signing_replacement_pending at) u =
     isNullableJournalTimestamp (Some at) (createdAt j) u"
| "well_formed_payload res j (To_signing_identity_replaced host key) u =
     (public_id ''host_'' host \<and> public_id ''key_'' key \<and> oldHostId j \<noteq> Some host)"
| "well_formed_payload res j (To_encryption_identity_replaced at) u =
     isNullableJournalTimestamp (Some at) (createdAt j) u"
| "well_formed_payload res j (To_runtime_artifacts_cleared at) u =
     isNullableJournalTimestamp (Some at) (createdAt j) u"
| "well_formed_payload res j (To_config_saved at) u =
     isNullableJournalTimestamp (Some at) (createdAt j) u"
| "well_formed_payload res j (To_enrolled at) u =
     isNullableJournalTimestamp (Some at) (createdAt j) u"
| "well_formed_payload res j (To_service_metadata_synchronized at) u =
     isNullableJournalTimestamp (Some at) (createdAt j) u"
| "well_formed_payload res j t u = True"

lemma journal_timestamp_later:
  assumes "isNullableJournalTimestamp v c u" "journal_canonical_timestamp u'" "parsed_less_eq u u'"
  shows "isNullableJournalTimestamp v c u'"
  using assms by (auto simp: isNullableJournalTimestamp_def split: option.splits intro: parsed_less_eq_trans)

lemma isRevoke_simps:
  "isRevoke \<lparr>revokeState = Pending, revokeOutcome = None\<rparr>"
  "isRevoke \<lparr>revokeState = Complete, revokeOutcome = Some oc\<rparr> \<longleftrightarrow> oc = Revoked \<or> oc = Identity_already_revoked"
  by (auto simp: isRevoke_def)

lemma valid_apply_fields:
  assumes l: "legal_journal res j" and t: "transition_allowed j t"
    and w: "well_formed_payload res j t u"
    and u: "journal_canonical_timestamp u" "parsed_less_eq (updatedAt j) u"
  shows "valid_fields_of_journal (applyHostDomainResetTransition j t u) res"
proof -
  have v: "valid_fields_of_journal j res" using legal_valid [OF l] by (rule valid_fields)
  have c: "journal_canonical_timestamp (createdAt j)" "journal_canonical_timestamp (updatedAt j)"
    "\<not> parsed_less (updatedAt j) (createdAt j)"
    using v unfolding valid_fields_of_journal_def by blast+
  then have "parsed_less_eq (createdAt j) (updatedAt j)" using parsed_less_iff by blast
  then have "parsed_less_eq (createdAt j) u" using u(2) by (rule parsed_less_eq_trans)
  then have nb: "\<not> parsed_less u (createdAt j)" using c u parsed_less_iff by blast
  note later = journal_timestamp_later [OF _ u]
  have dg: "isDigest (pathsDigest res)" using v unfolding valid_fields_of_journal_def by metis
  have rv: "t = To_prepared host key ekey cl rv \<Longrightarrow> isRevoke rv" for host key ekey cl rv
    using w by (auto simp: isRevoke_def)
  show ?thesis
    using dg v w rv nb u(1) later
    by (cases t) (simp_all add: valid_fields_of_journal_def isRevoke_simps isNullablePublicId_def)
qed

text \<open>The revoke decision of the journal once it has left \<open>revoke-pending\<close>.\<close>

lemma decided_revoke:
  assumes l: "legal_journal res j" and p: "Old_identity_revoked \<le> phase j"
  shows "revokeSkipped j \<or> (\<not> revokeSkipped j \<and> revokeState (revoke j) = Complete \<and> oldHostId j \<noteq> None)"
proof (cases "revokeSkipped j")
  case False
  have n: "\<not> preInspection j" using p by (auto simp: preInspection_def phase_order)
  from expected_revoke_cases [OF legal_valid [OF l] n False] valid_old_known [OF legal_valid [OF l] n False]
  show ?thesis using p False by (auto simp: phase_order)
qed simp

lemma valid_apply_phases:
  assumes l: "legal_journal res j" and t: "transition_allowed j t"
    and w: "well_formed_payload res j t u"
  shows "hasValidPhaseInvariants (applyHostDomainResetTransition j t u)"
proof -
  have v: "valid_journal res j" using l by (rule legal_valid)
  note ev = valid_evidence [OF v] and pre = valid_pre_inspection [OF v]
  have inv: "\<not> (oldHostId j \<noteq> None \<and> newHostId j = oldHostId j)"
    "\<not> (revokeSkipped j \<and> signingCleanup j = None)"
    using valid_phase_invariants [OF v, unfolded phase_invariants_conj] by argo+
  have dec: "Old_identity_revoked \<le> phase j \<Longrightarrow>
      revokeSkipped j \<or> (\<not> revokeSkipped j \<and> revokeState (revoke j) = Complete \<and> oldHostId j \<noteq> None)"
    by (rule decided_revoke [OF l])
  have decided: "thesis" if "Old_identity_revoked \<le> phase j"
    and "revokeState (revoke j) = Skipped \<Longrightarrow> revokeOutcome (revoke j) = Some Old_identity_unreadable
      \<Longrightarrow> signingCleanup j \<noteq> None \<Longrightarrow> thesis"
    and "revokeState (revoke j) = Complete \<Longrightarrow> oldHostId j \<noteq> None \<Longrightarrow> thesis" for thesis
    using dec [OF that(1)] inv(2) that(2,3) by (auto simp: revokeSkipped_def)
  note defs = phase_invariants_conj exact_evidence_iff phase_order preInspection_def expectedRevokeState_def
  show ?thesis
  proof (cases t)
    case To_quarantined
    with t have p: "phase j = Quarantine_pending" by simp
    show ?thesis using ev pre p by (simp add: To_quarantined defs revokeSkipped_def)
  next
    case (To_prepared host key ekey cl rv)
    with t have p: "phase j = Quarantined" by simp
    from w To_prepared consider
        "host \<noteq> None" "rv = \<lparr>revokeState = Not_attempted, revokeOutcome = None\<rparr>"
      | "cl \<noteq> None" "rv = \<lparr>revokeState = Skipped, revokeOutcome = Some Old_identity_unreadable\<rparr>"
      by auto
    then show ?thesis
      using ev p by cases (cases host; simp add: To_prepared defs revokeSkipped_def)+
  next
    case To_revoke_pending
    with t have p: "phase j = Prepared"
      and r: "revoke j = \<lparr>revokeState = Not_attempted, revokeOutcome = None\<rparr>" by simp_all
    then have "oldHostId j \<noteq> None"
      using valid_old_known [OF v] by (simp add: preInspection_def revokeSkipped_def)
    then show ?thesis using ev p r by (cases "oldHostId j") (simp_all add: To_revoke_pending defs revokeSkipped_def)
  next
    case (To_old_identity_revoked oc)
    with t have p: "phase j = Revoke_pending" by simp
    have "oldHostId j \<noteq> None" using valid_revoking_old_known [OF v] p by simp
    then show ?thesis using ev p by (cases "oldHostId j") (simp_all add: To_old_identity_revoked defs revokeSkipped_def)
  next
    case (To_signing_replacement_pending at)
    with t have p: "phase j = Old_identity_revoked \<or> (phase j = Prepared \<and> revokeSkipped j)" by simp
    then have "revokeSkipped j \<or> (\<not> revokeSkipped j \<and> revokeState (revoke j) = Complete \<and> oldHostId j \<noteq> None)"
      using dec by (auto simp: phase_order)
    then show ?thesis
      using ev p inv by (elim disjE) (simp_all add: To_signing_replacement_pending defs, simp_all add: revokeSkipped_def)
  next
    case (To_signing_identity_replaced host key)
    with t have p: "phase j = Signing_replacement_pending" by simp
    then have "Old_identity_revoked \<le> phase j" by (simp add: phase_order)
    then show ?thesis
      by (rule decided)
        (use ev p w in \<open>cases "oldHostId j"; auto simp: To_signing_identity_replaced defs revokeSkipped_def\<close>)+
  next
    case (To_encryption_identity_replaced at)
    with t have p: "phase j = Signing_identity_replaced" by simp
    then have "Old_identity_revoked \<le> phase j" by (simp add: phase_order)
    then show ?thesis
      by (rule decided) (use ev p w inv(1) in \<open>simp_all add: To_encryption_identity_replaced defs revokeSkipped_def\<close>)
  next
    case (To_runtime_artifacts_cleared at)
    with t have p: "phase j = Encryption_identity_replaced" by simp
    then have "Old_identity_revoked \<le> phase j" by (simp add: phase_order)
    then show ?thesis
      by (rule decided) (use ev p w inv(1) in \<open>simp_all add: To_runtime_artifacts_cleared defs revokeSkipped_def\<close>)
  next
    case (To_config_saved at)
    with t have p: "phase j = Runtime_artifacts_cleared" by simp
    then have "Old_identity_revoked \<le> phase j" by (simp add: phase_order)
    then show ?thesis
      by (rule decided) (use ev p w inv(1) in \<open>simp_all add: To_config_saved defs revokeSkipped_def\<close>)
  next
    case (To_enrolled at)
    with t have p: "phase j = Config_saved" by simp
    then have "Old_identity_revoked \<le> phase j" by (simp add: phase_order)
    then show ?thesis
      by (rule decided) (use ev p w inv(1) in \<open>simp_all add: To_enrolled defs revokeSkipped_def\<close>)
  next
    case (To_service_metadata_synchronized at)
    with t have p: "phase j = Enrolled" by simp
    then have "Old_identity_revoked \<le> phase j" by (simp add: phase_order)
    then show ?thesis
      by (rule decided) (use ev p w inv(1) in \<open>simp_all add: To_service_metadata_synchronized defs revokeSkipped_def\<close>)
  next
    case To_service_restore_pending
    with t have p: "phase j = Service_metadata_synchronized" by simp
    then have "Old_identity_revoked \<le> phase j" by (simp add: phase_order)
    then show ?thesis
      by (rule decided) (use ev p w inv(1) in \<open>simp_all add: To_service_restore_pending defs revokeSkipped_def\<close>)
  qed
qed

lemma well_formed_commits:
  assumes l: "legal_journal res j" and t: "transition_allowed j t"
    and w: "well_formed_payload res j t u"
    and u: "journal_canonical_timestamp u" "parsed_less_eq (updatedAt j) u"
  shows "legal_journal res (applyHostDomainResetTransition j t u)"
    and "validateHostDomainResetTransition j (applyHostDomainResetTransition j t u)
      = Inr (applyHostDomainResetTransition j t u)"
proof -
  have v: "valid_journal res (applyHostDomainResetTransition j t u)"
    using valid_apply_fields [OF l t w u] valid_apply_phases [OF l t w] by (simp add: valid_journal_def)
  let ?b = "applyHostDomainResetTransition j t u"
  have "\<not> ((phase ?b = Revoke_pending \<or> phase ?b = Old_identity_revoked) \<and> revokeSkipped ?b)"
    by (cases t) (simp_all add: revokeSkipped_def)
  then show "legal_journal res ?b" using v valid_legal_iff [OF v] by (simp add: legal_journal_def)
  have "journal_canonical_timestamp (updatedAt j)"
    using valid_fields [OF legal_valid [OF l]] unfolding valid_fields_of_journal_def by blast
  then have "\<not> parsed_less u (updatedAt j)" using parsed_less_iff u by blast
  with l t show "validateHostDomainResetTransition j ?b = Inr ?b" by (rule apply_validates)
qed

end
