(* ===== verification/Reset_Properties.thy ===== *)
theory Reset_Properties
  imports Reset_Examples Reset_Commit
begin

section \<open>Properties of the Host reset\<close>

text \<open>
  The claims about the Host reset: the agreement of schema, policy and machine, the write-ahead
  order of the effects, crash safety, termination and the guarded removal.
\<close>

text \<open>
  C3. The transition policy is exact: between journals that the schema and the machine accept, the
  table of edges with its writable and fill-only fields accepts a candidate if and only if it is the
  byte-identical replay of the current journal or the result of applying one transition of the union
  where its evidence allows it, with no step back of the clock.
\<close>

theorem policy_accepts_exactly_the_union:
  assumes a: "legal_journal res a" and b: "legal_journal res b"
  shows "validateHostDomainResetTransition a b = Inr b \<longleftrightarrow>
    b = a \<or> (\<exists>t. transition_allowed a t \<and> b = applyHostDomainResetTransition a t (updatedAt b)
                 \<and> \<not> parsed_less (updatedAt b) (updatedAt a))"
proof (cases "phase b = phase a")
  case True
  then have "\<not> (transition_allowed a t \<and> b = applyHostDomainResetTransition a t (updatedAt b))" for t
    using transition_phase_less [of a t "updatedAt b"] by auto
  with True show ?thesis by (auto simp: validate_same_phase)
next
  case False
  then have "b \<noteq> a" by auto
  moreover have "\<not> parsed_less (updatedAt b) (updatedAt a)"
    if "validateHostDomainResetTransition a b = Inr b"
    using that unfolding validate_step_iff [OF False] by blast
  ultimately show ?thesis
    using accepted_is_transition [OF a b False] apply_validates [OF a] by metis
qed

lemma policy_accepts_exactly_the_union_witness:
  "validateHostDomainResetTransition example_initial example_quarantined = Inr example_quarantined"
  using policy_accepts_exactly_the_union [OF example_legal(1) example_legal(2)]
  by (simp add: exI [of _ To_quarantined] example_journal_defs)

text \<open>
  The machine never blocks a journal of the schema except in one place: for a schema-valid
  journal, \<open>nextHostResetAction\<close> returns an action unless the phase is \<open>revoke-pending\<close> or
  \<open>old-identity-revoked\<close> with the revoke decision \<open>skipped\<close>.
\<close>

theorem machine_total_on_schema:
  assumes "valid_journal res j"
  shows "(\<exists>a. nextHostResetAction j = ok a) \<longleftrightarrow>
    \<not> ((phase j = Revoke_pending \<or> phase j = Old_identity_revoked) \<and> revokeSkipped j)"
proof -
  have "(\<exists>a. nextHostResetAction j = ok a) \<longleftrightarrow> legal_for_machine j"
    using next_action_legal [of res j] assms
    by (auto simp: legal_journal_def nextHostResetAction_def assertLegalJournal_def rbind_Inr_iff
        split: if_splits)
  then show ?thesis using valid_legal_iff [OF assms] by simp
qed

lemma machine_total_on_schema_witness:
  "\<exists>a. nextHostResetAction example_prepared = ok a"
  using machine_total_on_schema [OF example_valid(3)]
  by (simp add: example_journal_defs revokeSkipped_def)

text \<open>
  The exception is real: the schema parses a journal at \<open>revoke-pending\<close> whose revoke decision is
  \<open>skipped/old-identity-unreadable\<close>, and the machine refuses it.
\<close>

theorem schema_admits_a_journal_the_machine_refuses:
  "parseHostDomainResetJournal example_gap example_resources = ok example_gap
   \<and> nextHostResetAction example_gap = throw invalidMachineJournal"
  using example_valid(5)
  by (simp add: nextHostResetAction_def assertLegalJournal_def legal_for_machine_def
      isLegalRevokeCombination_def example_journal_defs)

text \<open>
  C1. Write-ahead order. In every run of the reset, fresh or resumed, with any ports and any errors,
  each effect is issued while the journal on disk is at the phase that records its intent, on the
  identities, operation and service that journal binds (\<open>entry_ok\<close>): no identity is revoked,
  replaced, enrolled or cleaned up, and no service is restored, ahead of its journal entry.
\<close>

theorem effects_follow_their_journaled_intent:
  "\<exists>es. log (snd (resetHostDomainUnlocked n d h)) = log h @ es \<and> list_all entry_ok es"
proof (cases "disk h")
  case None
  then have "lawful (fresh_step (resources d)) h (snd (resetHostDomainUnlocked n d h))"
    by (rule hoareD(1) [OF hoare_reset_fresh])
  then show ?thesis by (simp add: lawful_def log_extends_def)
next
  case (Some j)
  then have "lawful (resume_step (resources d)) h (snd (resetHostDomainUnlocked n d h))"
    by (rule hoareD(1) [OF hoare_reset_existing])
  then show ?thesis by (simp add: lawful_def log_extends_def)
qed

text \<open>
  C2. Crash safety. Whatever the ports answer and wherever an error stops a resumed reset, the journal
  file afterwards is either a later journal of the same reset (same operation, profile, resources and
  service, phase not gone back, every bound identity and evidence timestamp kept, accepted by schema
  and machine unless it is the file found), or it has been removed, and then only after it had reached
  \<open>service-restore-pending\<close> by steps of the policy.
\<close>

theorem journal_survives_any_failure:
  assumes "disk h = Some a"
  shows "case disk (snd (resetHostDomainUnlocked n d h)) of
      Some b \<Rightarrow> continues a b \<and> (b \<noteq> a \<longrightarrow> legal_journal (resources d) b)
    | None \<Rightarrow> \<exists>b. (resume_step (resources d))\<^sup>*\<^sup>* (Some a) (Some b) \<and> continues a b
        \<and> phase b = Service_restore_pending"
proof -
  have "lawful (resume_step (resources d)) h (snd (resetHostDomainUnlocked n d h))"
    using assms by (rule hoareD(1) [OF hoare_reset_existing])
  with assms show ?thesis by (intro resume_steps_continue) (simp add: lawful_def)
qed

lemma journal_survives_any_failure_witness:
  "continues example_prepared example_prepared \<and>
   (case disk (snd (resetHostDomainUnlocked 13 (example_deps None) (example_host (Some example_prepared)))) of
      Some b \<Rightarrow> continues example_prepared b
        \<and> (b \<noteq> example_prepared \<longrightarrow> legal_journal (resources (example_deps None)) b)
    | None \<Rightarrow> \<exists>b. (resume_step (resources (example_deps None)))\<^sup>*\<^sup>* (Some example_prepared) (Some b)
        \<and> continues example_prepared b \<and> phase b = Service_restore_pending)"
  using journal_survives_any_failure [where h = "example_host (Some example_prepared)"
      and a = example_prepared and n = 13 and d = "example_deps None"]
  by (simp add: example_host_def)

text \<open>
  C4. The coordinator's \<open>while (true)\<close> loop returns: thirteen iterations end every run, whatever the
  ports answer, because an iteration that does not return advances the phase.
\<close>

theorem reset_loop_returns:
  "fst (resetHostDomainUnlocked (13 + n) d h) \<noteq> ok None"
proof (cases "disk h")
  case None
  show ?thesis
    using hoareD(2) [where P = "\<lambda>x. x = None" and h = h and a = None,
        OF hoare_reset_fresh [of d "13 + n"] None] by auto
next
  case (Some j)
  show ?thesis
    using hoareD(2) [where P = "\<lambda>x. x = Some j" and h = h and a = None,
        OF hoare_reset_existing [of d j "13 + n"] Some] by auto
qed

text \<open>
  A reset that reports success has removed its journal, so that no later invocation takes it up
  again.
\<close>

theorem successful_reset_removes_the_journal:
  assumes "fst (resetHostDomainUnlocked n d h) = ok (Some r)"
  shows "disk (snd (resetHostDomainUnlocked n d h)) = None"
proof (cases "disk h")
  case None
  show ?thesis
    using hoareD(2) [where P = "\<lambda>x. x = None" and h = h, OF hoare_reset_fresh None assms] by simp
next
  case (Some j)
  show ?thesis
    using hoareD(2) [where P = "\<lambda>x. x = Some j" and h = h, OF hoare_reset_existing Some assms] by simp
qed

lemma successful_reset_removes_the_journal_witness:
  "disk (snd (resetHostDomainUnlocked 1 (example_deps (Some example_replacement))
     (example_host (Some example_restoring)))) = None"
proof (rule successful_reset_removes_the_journal)
  show "fst (resetHostDomainUnlocked 1 (example_deps (Some example_replacement))
      (example_host (Some example_restoring)))
    = ok (Some (buildRecoveryResult example_restoring example_replacement True))"
    by (simp add: example_restoring_parse recovery_defs store_defs io_defs example_world_defs
        example_restoring_simps oget_oput example_service_def)
qed

text \<open>
  C5. Every transition that the machine's executors can issue is committed when its payload is well
  formed: for a legal journal, an allowed transition whose identifiers, cleanup record and evidence
  timestamp satisfy the schema's field checks, and a clock that has not gone back, the candidate
  parses and the policy accepts it.
\<close>

theorem well_formed_transition_commits:
  assumes l: "legal_journal res j" and t: "transition_allowed j t"
    and w: "well_formed_payload res j t u"
    and u: "journal_canonical_timestamp u" "parsed_less_eq (updatedAt j) u"
  shows "parseHostDomainResetJournal (applyHostDomainResetTransition j t u) res
      = ok (applyHostDomainResetTransition j t u)
    \<and> validateHostDomainResetTransition j (applyHostDomainResetTransition j t u)
      = Inr (applyHostDomainResetTransition j t u)"
  using well_formed_commits [OF l t w u] by (simp add: legal_valid)

lemma well_formed_transition_commits_witness:
  "validateHostDomainResetTransition example_quarantined example_prepared = Inr example_prepared"
proof -
  let ?t = "To_prepared (Some (example_id ''host_'' CHR ''a'')) (Some (example_id ''key_'' CHR ''a''))
      None None \<lparr>revokeState = Not_attempted, revokeOutcome = None\<rparr>"
  have "applyHostDomainResetTransition example_quarantined ?t (example_time 2) = example_prepared"
    by (simp add: example_quarantined_def example_prepared_def example_initial_def)
  then show ?thesis
    using well_formed_transition_commits [OF example_legal(2), of ?t "example_time 2"]
    by (simp add: example_quarantined_def example_initial_def isNullablePublicId_def
        isNullableEncryptionKeyId_def isSigningCleanup_def)
qed

text \<open>
  C6. A reset of a host that has no identity at all cannot get past \<open>quarantined\<close>: when the identity
  store reports absence (its \<open>load\<close> returns \<open>null\<close> without an error), the inspection executor returns
  a transition that records a skipped revoke without a cleanup record, and no schema accepts the
  resulting journal, whatever the resources and the time.
\<close>

theorem absent_identity_blocks_the_reset:
  assumes "phase j = Quarantined" and "fst (loadIdentity d (world h)) = ok None"
    and "fst (executeInspectAndBindOldDomain d j h) = ok r"
  shows "\<exists>t. r = Transition_result t \<and>
    (\<forall>u res. parseHostDomainResetJournal (applyHostDomainResetTransition j t u) res = throw invalidJournal)"
proof -
  obtain enc where r: "r = Transition_result (prepared_transition d None None enc)"
    using assms
    by (cases "loadIdentity d (world h)")
      (auto simp: executeInspectAndBindOldDomain_def inspect_old_identity_def keychain_evidence_def
        io_defs split: prod.splits sum.splits)
  have "\<not> hasValidPhaseInvariants (applyHostDomainResetTransition j (prepared_transition d None None enc) u)" for u
    by (simp add: hasValidPhaseInvariants_def prepared_transition_def revokeSkipped_def preInspection_def
        expectedRevokeState_def)
  with r show ?thesis by (auto simp: parseHostDomainResetJournal_def)
qed

lemma absent_identity_blocks_the_reset_witness:
  "\<exists>t. fst (executeInspectAndBindOldDomain (example_deps None) example_quarantined
        (example_host (Some example_quarantined))) = ok (Transition_result t)
    \<and> parseHostDomainResetJournal (applyHostDomainResetTransition example_quarantined t (example_time 2))
        example_resources = throw invalidJournal"
proof -
  let ?h = "example_host (Some example_quarantined)"
  have run: "fst (executeInspectAndBindOldDomain (example_deps None) example_quarantined ?h)
      = ok (Transition_result (prepared_transition (example_deps None) None None (Some example_encryption)))"
    by (simp add: executeInspectAndBindOldDomain_def inspect_old_identity_def keychain_evidence_def
        io_defs example_host_def example_deps_def example_quarantined_def prepared_transition_def)
  have "phase example_quarantined = Quarantined" by (simp add: example_quarantined_def)
  moreover have "fst (loadIdentity (example_deps None) (world ?h)) = ok None"
    by (simp add: example_deps_def)
  ultimately show ?thesis
    using absent_identity_blocks_the_reset [OF _ _ run] run by auto
qed

text \<open>
  A restore confirmation works once: after it has been consumed, presenting it again, for any
  journal and resources, is refused as forged and changes nothing.
\<close>

theorem confirmation_is_single_use:
  assumes "fst (consumeRestoreConfirmation d token j h) = ok ()"
  shows "consumeRestoreConfirmation d' token j' (snd (consumeRestoreConfirmation d token j h))
    = (throw forgedConfirmation, snd (consumeRestoreConfirmation d token j h))"
proof -
  have "oget (confirmations (snd (consumeRestoreConfirmation d token j h))) token = None"
    using assms by (rule consume_deletes)
  then show ?thesis by (rule consume_unknown)
qed

lemma confirmation_is_single_use_witness:
  "fst (consumeRestoreConfirmation (example_deps None) 0 example_restoring
     (snd (consumeRestoreConfirmation (example_deps None) 0 example_restoring
       ((example_host None)\<lparr>confirmations :=
         [(0, \<lparr>confOperationId = example_operation, confJournal = example_restoring,
               confService = example_service, confHostId = example_id ''host_'' CHR ''b'',
               confKeyId = example_id ''key_'' CHR ''b'', confReference = Linux_key_file [],
               confReturn = True\<rparr>)]\<rparr>)))) = throw forgedConfirmation"
  (is "fst (consumeRestoreConfirmation ?d 0 ?j (snd (consumeRestoreConfirmation ?d 0 ?j ?h))) = _")
proof -
  have "operationId example_restoring = example_operation"
    by (simp add: example_journal_defs)
  then have "fst (consumeRestoreConfirmation ?d 0 ?j ?h) = ok ()"
    by (simp add: consumeRestoreConfirmation_def delete_confirmation_def io_defs example_deps_def
        example_restoring_parse example_restoring_simps isExactIdentityReference_def)
  then show ?thesis using confirmation_is_single_use [of ?d 0 ?j ?h ?d ?j] by simp
qed

end
