(* ===== verification/Wire_Encoding.thy ===== *)
theory Wire_Encoding
  imports Ariava_Prelude
begin

section \<open>Bytes on the wire: UTF-8, decimal numbers, length-prefixed fields\<close>

text \<open>
  The encodings of \<open>packages/protocol/src/encryption.ts\<close> on which every digest, signature and
  authenticated-data block of the end-to-end protocol rests: \<open>TextEncoder.encode\<close> (UTF-8, a lone
  surrogate becoming U+FFFD), \<open>String(n)\<close> of a number, \<open>isWellFormedUnicode\<close> and
  \<open>encodeLengthPrefixedFields\<close>. The main lemma is \<open>encode_fields_inject\<close>: on well-formed fields
  the encoding is injective, so a digest of it commits to every field and to their number.
\<close>

subsection \<open>UTF-8\<close>

type_synonym byte = "8 word"

definition byte :: "nat \<Rightarrow> byte" where
  "byte n = of_nat n"

lemma unat_byte: "n < 256 \<Longrightarrow> unat (byte n) = n"
  by (simp add: byte_def unat_of_nat)

lemma byte_eq_iff: "m < 256 \<Longrightarrow> n < 256 \<Longrightarrow> byte m = byte n \<longleftrightarrow> m = n"
  by (metis unat_byte)

definition is_high :: "code_unit \<Rightarrow> bool" where
  "is_high u \<longleftrightarrow> 0xD800 \<le> unat u \<and> unat u \<le> 0xDBFF"

definition is_low :: "code_unit \<Rightarrow> bool" where
  "is_low u \<longleftrightarrow> 0xDC00 \<le> unat u \<and> unat u \<le> 0xDFFF"

definition utf8_pair :: "code_unit \<Rightarrow> code_unit \<Rightarrow> byte list" where
  "utf8_pair h l = (let c = 0x10000 + (unat h - 0xD800) * 1024 + (unat l - 0xDC00)
    in [byte (240 + c div 262144), byte (128 + c div 4096 mod 64), byte (128 + c div 64 mod 64),
        byte (128 + c mod 64)])"

definition utf8_unit :: "code_unit \<Rightarrow> byte list" where
  "utf8_unit u = (let v = unat u
    in if v < 128 then [byte v]
       else if v < 2048 then [byte (192 + v div 64), byte (128 + v mod 64)]
       else [byte (224 + v div 4096), byte (128 + v div 64 mod 64), byte (128 + v mod 64)])"

definition utf8_replacement :: "byte list" where
  "utf8_replacement = [byte 0xEF, byte 0xBF, byte 0xBD]"

fun utf8 :: "jsstring \<Rightarrow> byte list" where
  "utf8 [] = []"
| "utf8 [u] = (if is_high u \<or> is_low u then utf8_replacement else utf8_unit u)"
| "utf8 (u # w # us) =
    (if is_high u then (if is_low w then utf8_pair u w @ utf8 us else utf8_replacement @ utf8 (w # us))
     else if is_low u then utf8_replacement @ utf8 (w # us)
     else utf8_unit u @ utf8 (w # us))"

text \<open>\<open>isWellFormedUnicode\<close>: no lone surrogate.\<close>

fun isWellFormedUnicode :: "jsstring \<Rightarrow> bool" where
  "isWellFormedUnicode [] \<longleftrightarrow> True"
| "isWellFormedUnicode [u] \<longleftrightarrow> \<not> is_high u \<and> \<not> is_low u"
| "isWellFormedUnicode (u # w # us) \<longleftrightarrow>
    (if is_high u then is_low w \<and> isWellFormedUnicode us
     else \<not> is_low u \<and> isWellFormedUnicode (w # us))"

lemma not_high_low: "is_high u \<Longrightarrow> \<not> is_low u"
  by (simp add: is_high_def is_low_def)

text \<open>Reading back one character of an encoding: its code units and the remaining bytes.\<close>

definition cont :: "byte \<Rightarrow> nat" where
  "cont b = unat b - 128"

fun utf8_read :: "byte list \<Rightarrow> (jsstring \<times> byte list) option" where
  "utf8_read [] = None"
| "utf8_read (b # bs) =
    (if unat b < 128 then Some ([of_nat (unat b)], bs)
     else if unat b < 224 then (case bs of
         c # cs \<Rightarrow> Some ([of_nat ((unat b - 192) * 64 + cont c)], cs) | _ \<Rightarrow> None)
     else if unat b < 240 then (case bs of
         c # d # ds \<Rightarrow> Some ([of_nat ((unat b - 224) * 4096 + cont c * 64 + cont d)], ds) | _ \<Rightarrow> None)
     else (case bs of
         c # d # e # es \<Rightarrow>
           (let v = (unat b - 240) * 262144 + cont c * 4096 + cont d * 64 + cont e - 0x10000
            in Some ([of_nat (0xD800 + v div 1024), of_nat (0xDC00 + v mod 1024)], es))
       | _ \<Rightarrow> None))"

lemma unat_code_unit: "unat (u :: code_unit) < 65536"
  using unsigned_less[of u] by simp

lemma base64_split: "v div 4096 * 4096 + v div 64 mod 64 * 64 + v mod 64 = (v :: nat)"
proof -
  have "v div 4096 = v div 64 div 64" by (simp add: div_mult2_eq[symmetric])
  then show ?thesis
    using div_mult_mod_eq[of v 64] div_mult_mod_eq[of "v div 64" 64] by linarith
qed

lemma base64_split4:
  "v div 262144 * 262144 + v div 4096 mod 64 * 4096 + v div 64 mod 64 * 64 + v mod 64 = (v :: nat)"
proof -
  have "v div 262144 = v div 4096 div 64" by (simp add: div_mult2_eq[symmetric])
  then show ?thesis
    using base64_split[of v] div_mult_mod_eq[of "v div 4096" 64] by linarith
qed

lemma of_nat_unat_code_unit: "n = unat u \<Longrightarrow> of_nat n = (u :: code_unit)"
  by simp

lemma read_unit: "utf8_read (utf8_unit u @ bs) = Some ([u], bs)"
proof -
  define v where "v = unat u"
  have v: "v < 65536" unfolding v_def by (rule unat_code_unit)
  have u: "(of_nat v :: code_unit) = u" by (simp add: v_def)
  consider "v < 128" | "128 \<le> v" "v < 2048" | "2048 \<le> v" by linarith
  then show ?thesis
  proof cases
    case 1
    then show ?thesis using u by (simp add: utf8_unit_def v_def[symmetric] unat_byte)
  next
    case 2
    have "v div 64 < 32" using 2 by (simp add: div_less_iff_less_mult)
    then show ?thesis using 2 u
      by (simp add: utf8_unit_def v_def[symmetric] unat_byte cont_def)
  next
    case 3
    have "v div 4096 < 16" using v by (simp add: div_less_iff_less_mult)
    moreover have "v div 4096 * 4096 + v div 64 mod 64 * 64 + v mod 64 = v"
      using base64_split[of v] by simp
    ultimately show ?thesis using 3 u
      by (simp add: utf8_unit_def v_def[symmetric] unat_byte cont_def del: of_nat_add of_nat_mult)
  qed
qed

lemma read_four:
  assumes "x < 16" "y < 64" "z < 64" "w < 64"
  shows "utf8_read ([byte (240 + x), byte (128 + y), byte (128 + z), byte (128 + w)] @ bs) =
    (let v = x * 262144 + y * 4096 + z * 64 + w - 0x10000
     in Some ([of_nat (0xD800 + v div 1024), of_nat (0xDC00 + v mod 1024)], bs))"
  using assms by (simp add: unat_byte cont_def Let_def del: of_nat_add of_nat_mult)

lemma read_pair:
  assumes "is_high h" and "is_low l"
  shows "utf8_read (utf8_pair h l @ bs) = Some ([h, l], bs)"
proof -
  define a where "a = unat h - 0xD800"
  define b where "b = unat l - 0xDC00"
  define v where "v = a * 1024 + b"
  define c where "c = 0x10000 + v"
  have hl: "a < 1024" "b < 1024" "unat h = 0xD800 + a" "unat l = 0xDC00 + b"
    using assms unfolding is_high_def is_low_def a_def b_def by linarith+
  have v: "v < 1048576" using hl(1,2) unfolding v_def by linarith
  then have c: "c div 262144 < 16" unfolding c_def by (simp add: div_less_iff_less_mult)
  have split: "c div 262144 * 262144 + c div 4096 mod 64 * 4096 + c div 64 mod 64 * 64 + c mod 64 = c"
    by (rule base64_split4)
  have "v div 1024 = a" "v mod 1024 = b"
    using hl(2) unfolding v_def by simp_all
  then have "(of_nat (0xD800 + v div 1024) :: code_unit) = h" "(of_nat (0xDC00 + v mod 1024) :: code_unit) = l"
    using of_nat_unat_code_unit[OF hl(3)[symmetric]] of_nat_unat_code_unit[OF hl(4)[symmetric]]
    by (simp_all only:)
  moreover have "utf8_pair h l = [byte (240 + c div 262144), byte (128 + c div 4096 mod 64),
      byte (128 + c div 64 mod 64), byte (128 + c mod 64)]"
    unfolding utf8_pair_def Let_def c_def v_def a_def b_def by (simp only: add.assoc)
  moreover have "c - 0x10000 = v" by (simp add: c_def)
  moreover have "utf8_read ([byte (240 + c div 262144), byte (128 + c div 4096 mod 64),
      byte (128 + c div 64 mod 64), byte (128 + c mod 64)] @ bs) =
    (let v = c - 0x10000 in Some ([of_nat (0xD800 + v div 1024), of_nat (0xDC00 + v mod 1024)], bs))"
    by (subst read_four) (simp_all only: c mod_less_divisor zero_less_numeral split)
  ultimately show ?thesis by (simp only: Let_def)
qed

fun first_char :: "jsstring \<Rightarrow> jsstring \<times> jsstring" where
  "first_char [] = ([], [])"
| "first_char [u] = ([u], [])"
| "first_char (u # w # us) = (if is_high u \<and> is_low w then ([u, w], us) else ([u], w # us))"

lemma first_char_append: "fst (first_char s) @ snd (first_char s) = s"
  by (induction s rule: first_char.induct) auto

lemma read_utf8:
  assumes "isWellFormedUnicode s" and "s \<noteq> []"
  shows "utf8_read (utf8 s) = Some (fst (first_char s), utf8 (snd (first_char s)))
    \<and> isWellFormedUnicode (snd (first_char s)) \<and> length (snd (first_char s)) < length s"
  using assms
proof (induction s rule: first_char.induct)
  case (2 u)
  then show ?case using read_unit[of u "[]"] by simp
next
  case (3 u w us)
  then show ?case
    using read_pair[of u w "utf8 us"] read_unit[of u "utf8 (w # us)"]
    by (cases "is_high u") (auto simp: not_high_low)
qed simp

lemma utf8_eq_Nil_iff: "utf8 s = [] \<longleftrightarrow> s = []"
  by (induction s rule: utf8.induct)
    (auto simp: utf8_replacement_def utf8_unit_def utf8_pair_def Let_def)

theorem utf8_inject:
  "isWellFormedUnicode s \<Longrightarrow> isWellFormedUnicode t \<Longrightarrow> utf8 s = utf8 t \<Longrightarrow> s = t"
proof (induction "length s" arbitrary: s t rule: less_induct)
  case less
  show ?case
  proof (cases "s = []")
    case True
    then show ?thesis using less.prems(3) utf8_eq_Nil_iff[of t] by simp
  next
    case False
    then have "t \<noteq> []" using less.prems(3) utf8_eq_Nil_iff[of s] by auto
    note s = read_utf8[OF less.prems(1) False] and t = read_utf8[OF less.prems(2) \<open>t \<noteq> []\<close>]
    have "fst (first_char s) = fst (first_char t)"
      and "utf8 (snd (first_char s)) = utf8 (snd (first_char t))"
      using s t less.prems(3) by simp_all
    moreover from this(2) have "snd (first_char s) = snd (first_char t)"
      using less.hyps s t by blast
    ultimately show ?thesis
      by (metis first_char_append)
  qed
qed

text \<open>The whole encoding splits at every place that does not separate a pair.\<close>

lemma utf8_append:
  "(s = [] \<or> t = [] \<or> \<not> is_high (last s) \<or> \<not> is_low (hd t)) \<Longrightarrow> utf8 (s @ t) = utf8 s @ utf8 t"
proof (induction s rule: utf8.induct)
  case (2 u)
  then show ?case by (cases t) auto
next
  case (3 u w us)
  then show ?case by (auto simp: last_ConsR split: if_splits)
qed simp

definition is_ascii :: "jsstring \<Rightarrow> bool" where
  "is_ascii s \<longleftrightarrow> list_all (\<lambda>u. unat u < 128) s"

lemma ascii_not_surrogate: "unat u < 128 \<Longrightarrow> \<not> is_high u \<and> \<not> is_low u"
  by (simp add: is_high_def is_low_def)

lemma utf8_ascii: "is_ascii s \<Longrightarrow> utf8 s = map (\<lambda>u. byte (unat u)) s"
  by (induction s rule: utf8.induct) (auto simp: is_ascii_def ascii_not_surrogate utf8_unit_def)

lemma utf8_ascii_append: "is_ascii s \<Longrightarrow> utf8 (s @ t) = map (\<lambda>u. byte (unat u)) s @ utf8 t"
proof -
  assume a: "is_ascii s"
  then have "s = [] \<or> \<not> is_high (last s)"
    by (cases s rule: rev_cases) (auto simp: is_ascii_def ascii_not_surrogate)
  then show ?thesis using utf8_append[of s t] utf8_ascii[OF a] by auto
qed

lemma is_ascii_append [simp]: "is_ascii (s @ t) \<longleftrightarrow> is_ascii s \<and> is_ascii t"
  by (simp add: is_ascii_def)

lemma ascii_well_formed: "is_ascii s \<Longrightarrow> isWellFormedUnicode s"
  by (induction s rule: isWellFormedUnicode.induct) (auto simp: is_ascii_def ascii_not_surrogate)

subsection \<open>Decimal numbers\<close>

text \<open>\<open>String(n)\<close> of a non-negative safe integer.\<close>

fun decimal :: "nat \<Rightarrow> jsstring" where
  "decimal n = (if n < 10 then [of_nat (48 + n)] else decimal (n div 10) @ [of_nat (48 + n mod 10)])"

declare decimal.simps [simp del]

definition decimal_value :: "jsstring \<Rightarrow> nat" where
  "decimal_value s = foldl (\<lambda>a u. a * 10 + (unat u - 48)) 0 s"

lemma unat_decimal_digit: "k < 10 \<Longrightarrow> unat (of_nat (48 + k) :: code_unit) = 48 + k"
proof -
  assume "k < 10"
  then have "(48 + k) mod 65536 = 48 + k" by (intro mod_less) linarith
  then show ?thesis by (simp add: unat_of_nat del: of_nat_add)
qed

lemma decimal_value: "decimal_value (decimal n) = n"
proof (induction n rule: decimal.induct)
  case (1 n)
  show ?case
  proof (cases "n < 10")
    case True
    then show ?thesis by (subst decimal.simps) (simp add: decimal_value_def unat_decimal_digit del: of_nat_add)
  next
    case False
    have "unat (of_nat (48 + n mod 10) :: code_unit) = 48 + n mod 10"
      by (rule unat_decimal_digit) simp
    then show ?thesis using 1 False
      by (subst decimal.simps) (simp add: decimal_value_def del: of_nat_add)
  qed
qed

lemma decimal_inject [simp]: "decimal m = decimal n \<longleftrightarrow> m = n"
  by (metis decimal_value)

lemma decimal_digits: "u \<in> set (decimal n) \<Longrightarrow> 48 \<le> unat u \<and> unat u \<le> 57"
proof (induction n rule: decimal.induct)
  case (1 n)
  have "n mod 10 < 10" by simp
  then show ?case using 1
    by (subst (asm) (2) decimal.simps)
      (auto simp: unat_decimal_digit simp del: of_nat_add split: if_splits)
qed

lemma decimal_ascii: "is_ascii (decimal n)"
  using decimal_digits[of _ n] by (force simp: is_ascii_def list_all_iff)

definition num_string :: "int \<Rightarrow> jsstring" where
  "num_string n = (if n < 0 then js ''-'' @ decimal (nat (- n)) else decimal (nat n))"

lemma num_string_inject: "0 \<le> m \<Longrightarrow> 0 \<le> n \<Longrightarrow> num_string m = num_string n \<longleftrightarrow> m = n"
  by (auto simp: num_string_def)

subsection \<open>Length-prefixed fields\<close>

definition encode_field :: "jsstring \<Rightarrow> byte list" where
  "encode_field field = utf8 (decimal (length (utf8 field)) @ js '':'' @ field @ [10])"

definition encodeLengthPrefixedFields :: "jsstring list \<Rightarrow> byte list" where
  "encodeLengthPrefixedFields fields = concat (map encode_field fields)"

lemma utf8_snoc_newline: "utf8 (s @ [10]) = utf8 s @ [byte 10]"
proof -
  have "\<not> is_low (10 :: code_unit)" "utf8 [10 :: code_unit] = [byte 10]"
    by (simp_all add: is_low_def is_high_def utf8_unit_def)
  then show ?thesis using utf8_append[of s "[10]"] by auto
qed

lemma encode_field_split:
  "encode_field f = map (\<lambda>u. byte (unat u)) (decimal (length (utf8 f))) @ byte 58 # utf8 f @ [byte 10]"
proof -
  have c: "js '':'' = [58 :: code_unit]" by (simp add: js_def)
  have "is_ascii (decimal (length (utf8 f)) @ [58])"
    by (simp add: decimal_ascii) (simp add: is_ascii_def)
  from utf8_ascii_append[OF this, of "f @ [10]"]
  show ?thesis by (simp add: encode_field_def c utf8_snoc_newline)
qed

lemma digits_until_colon:
  assumes "a @ (58 :: nat) # s = b @ 58 # t" and "58 \<notin> set a" and "58 \<notin> set b"
  shows "a = b \<and> s = t"
  using assms
proof (induction a arbitrary: b)
  case Nil
  then show ?case by (cases b) auto
next
  case (Cons x a)
  then show ?case by (cases b) auto
qed

lemma inj_unat: "inj unat"
  by (rule injI) (simp add: word_unat_eq_iff)

lemma map_unat_byte: "is_ascii s \<Longrightarrow> map unat (map (\<lambda>u. byte (unat u)) s) = map unat s"
  by (induction s) (auto simp: is_ascii_def unat_byte)

lemma encode_field_append_inject:
  assumes "encode_field f @ s = encode_field g @ t"
  shows "utf8 f = utf8 g \<and> s = t"
proof -
  let ?d = "\<lambda>x. map unat (decimal (length (utf8 x)))"
  have no_colon: "58 \<notin> set (?d x)" for x
    using decimal_digits[of _ "length (utf8 x)"] by force
  from assms have "map unat (encode_field f @ s) = map unat (encode_field g @ t)" by simp
  then have "?d f @ 58 # map unat (utf8 f @ byte 10 # s) = ?d g @ 58 # map unat (utf8 g @ byte 10 # t)"
    by (simp add: encode_field_split map_unat_byte[OF decimal_ascii, unfolded map_map comp_def] comp_def
        unat_byte)
  from digits_until_colon[OF this no_colon no_colon]
  have "?d f = ?d g" and rest: "map unat (utf8 f @ byte 10 # s) = map unat (utf8 g @ byte 10 # t)"
    by simp_all
  then have "decimal (length (utf8 f)) = decimal (length (utf8 g))"
    by (simp add: inj_map_eq_map[OF inj_unat])
  then have "length (utf8 f) = length (utf8 g)" by simp
  moreover from rest have "utf8 f @ byte 10 # s = utf8 g @ byte 10 # t"
    by (simp only: inj_map_eq_map[OF inj_unat])
  ultimately show ?thesis by simp
qed

lemma encode_fields_simps [simp]:
  "encodeLengthPrefixedFields [] = []"
  "encodeLengthPrefixedFields (f # fs) = encode_field f @ encodeLengthPrefixedFields fs"
  by (simp_all add: encodeLengthPrefixedFields_def)

lemma encode_field_not_Nil: "encode_field f \<noteq> []"
  by (simp add: encode_field_split)

lemma encode_fields_bytes_inject:
  "encodeLengthPrefixedFields fs = encodeLengthPrefixedFields gs \<Longrightarrow> map utf8 fs = map utf8 gs"
proof (induction fs arbitrary: gs)
  case Nil
  then show ?case by (cases gs) (auto simp: encode_field_not_Nil)
next
  case (Cons f fs)
  show ?case
  proof (cases gs)
    case Nil
    then show ?thesis using Cons.prems encode_field_not_Nil[of f] by simp
  next
    case (Cons g gs')
    then show ?thesis
      using Cons.prems Cons.IH[of gs'] encode_field_append_inject[of f _ g] by simp
  qed
qed

lemma encode_fields_inject:
  assumes "encodeLengthPrefixedFields fs = encodeLengthPrefixedFields gs"
    and "list_all isWellFormedUnicode fs" and "list_all isWellFormedUnicode gs"
  shows "fs = gs"
  using encode_fields_bytes_inject[OF assms(1)] assms(2,3)
proof (induction fs arbitrary: gs)
  case (Cons f fs)
  then show ?case by (cases gs) (auto intro: utf8_inject)
qed simp

end
