(* ===== verification/Base64_Url.thy ===== *)
theory Base64_Url
  imports Wire_Encoding
begin

section \<open>Canonical unpadded base64url\<close>

text \<open>
  \<open>base64UrlEncode\<close> and \<open>base64UrlDecode\<close> of \<open>packages/protocol/src/request-signing.ts\<close>: three
  bytes are four characters of the URL alphabet, the decoder rejects an empty string, a foreign
  character, an impossible length, an unexpected number of bytes and every non-canonical spelling.
\<close>

definition sextet_char :: "nat \<Rightarrow> code_unit" where
  "sextet_char n = of_nat (if n < 26 then 65 + n else if n < 52 then 71 + n
     else if n < 62 then n - 4 else if n = 62 then 45 else 95)"

definition char_sextet :: "code_unit \<Rightarrow> nat option" where
  "char_sextet u = (let v = unat u
    in if 65 \<le> v \<and> v \<le> 90 then Some (v - 65)
       else if 97 \<le> v \<and> v \<le> 122 then Some (v - 71)
       else if 48 \<le> v \<and> v \<le> 57 then Some (v + 4)
       else if v = 45 then Some 62
       else if v = 95 then Some 63
       else None)"

fun encode_sextets :: "byte list \<Rightarrow> nat list" where
  "encode_sextets [] = []"
| "encode_sextets [a] = [unat a div 4, unat a mod 4 * 16]"
| "encode_sextets [a, b] =
    [unat a div 4, unat a mod 4 * 16 + unat b div 16, unat b mod 16 * 4]"
| "encode_sextets (a # b # c # bs) =
    unat a div 4 # (unat a mod 4 * 16 + unat b div 16) # (unat b mod 16 * 4 + unat c div 64)
      # unat c mod 64 # encode_sextets bs"

definition base64UrlEncode :: "byte list \<Rightarrow> jsstring" where
  "base64UrlEncode bytes = map sextet_char (encode_sextets bytes)"

text \<open>\<open>atob\<close> of the padded string: the unused low bits of the last character are dropped.\<close>

fun decode_sextets :: "nat list \<Rightarrow> byte list" where
  "decode_sextets (w # x # y # z # s) =
    byte (w * 4 + x div 16) # byte (x mod 16 * 16 + y div 4) # byte (y mod 4 * 64 + z)
      # decode_sextets s"
| "decode_sextets [w, x, y] = [byte (w * 4 + x div 16), byte (x mod 16 * 16 + y div 4)]"
| "decode_sextets [w, x] = [byte (w * 4 + x div 16)]"
| "decode_sextets [w] = []"
| "decode_sextets [] = []"

definition BASE64URL_RE :: "jsstring \<Rightarrow> bool" where
  "BASE64URL_RE value \<longleftrightarrow> value \<noteq> [] \<and> list_all (\<lambda>u. char_sextet u \<noteq> None) value"

definition base64UrlDecode :: "jsstring \<Rightarrow> nat option \<Rightarrow> byte list result" where
  "base64UrlDecode value expectedBytes =
    (if \<not> BASE64URL_RE value then throw (TypeError ''must be canonical unpadded base64url'')
     else if length value mod 4 = 1 then throw (TypeError ''has an invalid base64url length'')
     else
       (let bytes = decode_sextets (map (\<lambda>u. the (char_sextet u)) value)
        in if expectedBytes \<noteq> None \<and> expectedBytes \<noteq> Some (length bytes)
           then throw (TypeError ''must contain exactly the expected number of bytes'')
           else if base64UrlEncode bytes \<noteq> value
           then throw (TypeError ''is not canonical base64url'')
           else ok bytes))"

subsection \<open>The round trip\<close>

lemma char_sextet_all: "list_all (\<lambda>n. char_sextet (sextet_char n) = Some n) [0..<64]"
  by code_simp

lemma char_sextet_char: "n < 64 \<Longrightarrow> char_sextet (sextet_char n) = Some n"
  using char_sextet_all by (simp add: list_all_iff)

lemma unat_lt_256: "unat (b :: byte) < 256"
  using unsigned_less[of b] by simp

lemma byte_unat [simp]: "byte (unat b) = b"
  by (simp add: byte_def)

lemma byte_split:
  "unat b div 4 < 64" "unat b mod 4 * 16 < 64" "unat b div 16 < 16" "unat b mod 16 * 4 < 64"
  "unat b div 64 < 4"
  for b :: byte
  using unat_lt_256[of b] by (auto simp: div_less_iff_less_mult)

lemma mid_sextet: "unat a mod 4 * 16 + unat b div 16 < 64" "unat b mod 16 * 4 + unat c div 64 < 64"
  for a b c :: byte
proof -
  have "unat a mod 4 \<le> 3" "unat b mod 16 \<le> 15" by presburger+
  then show "unat a mod 4 * 16 + unat b div 16 < 64" "unat b mod 16 * 4 + unat c div 64 < 64"
    using byte_split(3)[of b] byte_split(5)[of c] by linarith+
qed

lemma encode_sextets_bound: "n \<in> set (encode_sextets bs) \<Longrightarrow> n < 64"
  by (induction bs rule: encode_sextets.induct) (auto simp: byte_split mid_sextet)

lemma decode_first: "unat a div 4 * 4 + (unat a mod 4 * 16 + r) div 16 = unat a" if "r < 16" for a :: byte
  using that by simp

lemma decode_second:
  "(unat a mod 4 * 16 + unat b div 16) mod 16 * 16 + (unat b mod 16 * 4 + r) div 4 = unat b"
  if "r < 4" for a b :: byte
proof -
  have "(unat a mod 4 * 16 + unat b div 16) mod 16 = unat b div 16"
    using byte_split(3)[of b] by simp
  moreover have "(unat b mod 16 * 4 + r) div 4 = unat b mod 16"
    using that by simp
  ultimately show ?thesis by simp
qed

lemma decode_third: "(unat b mod 16 * 4 + unat c div 64) mod 4 * 64 + unat c mod 64 = unat c"
  for b c :: byte
proof -
  have "(unat b mod 16 * 4 + unat c div 64) mod 4 = unat c div 64"
    using byte_split(5)[of c] by simp
  then show ?thesis by simp
qed

lemma decode_encode_sextets: "decode_sextets (encode_sextets bs) = bs"
proof (induction bs rule: encode_sextets.induct)
  case (2 a)
  then show ?case using decode_first[of 0 a] by (simp del: div_mult_self3 div_mult_self1)
next
  case (3 a b)
  then show ?case
    using decode_first[of "unat b div 16" a] decode_second[of 0 a b] byte_split(3)[of b] by simp
next
  case (4 a b c bs)
  have "decode_sextets (encode_sextets (a # b # c # bs)) =
      byte (unat a div 4 * 4 + (unat a mod 4 * 16 + unat b div 16) div 16)
      # byte ((unat a mod 4 * 16 + unat b div 16) mod 16 * 16
          + (unat b mod 16 * 4 + unat c div 64) div 4)
      # byte ((unat b mod 16 * 4 + unat c div 64) mod 4 * 64 + unat c mod 64)
      # decode_sextets (encode_sextets bs)"
    by (simp only: encode_sextets.simps decode_sextets.simps)
  then show ?case
    using 4 by (simp only: decode_first[OF byte_split(3)] decode_second[OF byte_split(5)] decode_third byte_unat)
qed simp

lemma length_encode_mod: "length (encode_sextets bs) mod 4 \<noteq> 1"
  by (induction bs rule: encode_sextets.induct) auto

lemma encode_sextets_eq_Nil_iff [simp]: "encode_sextets bs = [] \<longleftrightarrow> bs = []"
  by (cases bs rule: encode_sextets.cases) auto

lemma map_char_sextet: "list_all (\<lambda>n. n < 64) ns \<Longrightarrow> map (\<lambda>u. the (char_sextet u)) (map sextet_char ns) = ns"
  by (induction ns) (auto simp: char_sextet_char)

lemma base64_decode_encode:
  assumes "bs \<noteq> []" and "expected = None \<or> expected = Some (length bs)"
  shows "base64UrlDecode (base64UrlEncode bs) expected = ok bs"
proof -
  have bound: "list_all (\<lambda>n. n < 64) (encode_sextets bs)"
    using encode_sextets_bound by (auto simp: list_all_iff)
  have "BASE64URL_RE (base64UrlEncode bs)"
    using assms(1) encode_sextets_bound[of _ bs]
    by (auto simp: BASE64URL_RE_def base64UrlEncode_def list_all_iff char_sextet_char)
  moreover have "decode_sextets (map (\<lambda>u. the (char_sextet u)) (base64UrlEncode bs)) = bs"
    by (simp only: base64UrlEncode_def map_char_sextet[OF bound] decode_encode_sextets)
  moreover have "length (base64UrlEncode bs) mod 4 \<noteq> 1"
    by (simp only: base64UrlEncode_def length_map length_encode_mod not_False_eq_True)
  ultimately show ?thesis
    using assms(2) by (auto simp: base64UrlDecode_def Let_def)
qed

lemma base64_encode_decode:
  "base64UrlDecode value expected = ok bs
    \<Longrightarrow> base64UrlEncode bs = value \<and> bs \<noteq> [] \<and> (expected = None \<or> expected = Some (length bs))"
  by (auto simp: base64UrlDecode_def BASE64URL_RE_def base64UrlEncode_def Let_def split: if_splits)

lemma base64_encode_inject: "base64UrlEncode a = base64UrlEncode b \<longleftrightarrow> a = b"
proof
  assume eq: "base64UrlEncode a = base64UrlEncode b"
  then have "a = [] \<longleftrightarrow> b = []" by (metis base64UrlEncode_def encode_sextets_eq_Nil_iff map_is_Nil_conv)
  then show "a = b"
    by (metis base64_decode_encode eq sum.inject(2))
qed simp

lemma length_encode_sextets: "length (encode_sextets bs) = (4 * length bs + 2) div 3"
proof (induction bs rule: encode_sextets.induct)
  case (4 a b c bs)
  have "(4 * (3 + length bs) + 2) div 3 = 4 + (4 * length bs + 2) div 3" by presburger
  with 4 show ?case by simp
qed auto

lemma length_base64: "length (base64UrlEncode bs) = (4 * length bs + 2) div 3"
  by (simp add: base64UrlEncode_def length_encode_sextets)

end
