(* ===== verification/Bridge_State.thy ===== *)
theory Bridge_State
  imports Ariava_Prelude
begin

section \<open>The persisted runtime state of the Bridge\<close>

text \<open>
  The data of \<open>apps/bridge/src/types.ts\<close> and of the protocol's Session, Event and Host types,
  and the constructor of a fresh state (\<open>state-codec.ts\<close>). A field is named as in the source,
  with a short prefix for its record. An optional property is an \<open>option\<close>; a
  \<open>Record<string, T>\<close> is an \<open>object\<close> (association list in insertion order); an optional
  \<open>Record\<close> distinguishes an absent object from an empty one, as the code does. Revisions and
  counters, which the code keeps as safe integers, are \<open>int\<close>.
\<close>

subsection \<open>Sessions\<close>

datatype session_status = Session_idle | Session_working | Session_need_human

record canonical_session =
  cs_sessionId :: jsstring
  cs_hostId :: jsstring
  cs_provider :: jsstring
  cs_projectName :: jsstring
  cs_nameText :: jsstring
  cs_openingText :: "jsstring option"
  cs_latestActivityText :: "jsstring option"
  cs_workingDirectory :: "jsstring option"
  cs_harnessProvider :: "jsstring option"
  cs_status :: session_status
  cs_updatedAt :: jsstring
  cs_lastEventId :: "jsstring option"
  cs_snoozedUntil :: "jsstring option"

subsection \<open>Events\<close>

datatype need_human_error_kind =
    Context_overflow | Provider_failure | Response_length | Incomplete_tool_use | Unknown_error

record need_human_error =
  nhe_kind :: need_human_error_kind
  nhe_message :: jsstring
  nhe_providerCode :: "jsstring option"

datatype need_human_context =
    Need_question
  | Need_blocked
  | Need_error need_human_error

text \<open>The union of the two event variants: the type of an event fixes its status, and only a
  \<open>need_human\<close> event carries a context.\<close>

datatype event_body =
    Event_done
  | Event_need_human need_human_context

record canonical_event =
  ev_eventId :: jsstring
  ev_hostId :: jsstring
  ev_sessionId :: jsstring
  ev_provider :: jsstring
  ev_agentText :: jsstring
  ev_humanText :: "jsstring option"
  ev_projectName :: "jsstring option"
  ev_workingDirectory :: "jsstring option"
  ev_harnessProvider :: "jsstring option"
  ev_createdAt :: jsstring
  ev_body :: event_body

fun event_status :: "event_body \<Rightarrow> session_status" where
  "event_status Event_done = Session_idle"
| "event_status (Event_need_human _) = Session_need_human"

subsection \<open>Hosts\<close>

datatype host_platform = Platform_macos | Platform_linux
datatype bridge_status = Bridge_online | Bridge_offline | Bridge_degraded
datatype host_registration = Host_active | Host_revoked

text \<open>The last three fields are properties the Relay may add to a projection, which the type does
  not declare and \<open>sanitizePersistedHost\<close> deletes.\<close>

record host_projection =
  hp_hostId :: jsstring
  hp_hostName :: jsstring
  hp_platform :: host_platform
  hp_bridgeVersion :: jsstring
  hp_registeredAt :: jsstring
  hp_lastSeenAt :: jsstring
  hp_bridgeStatus :: bridge_status
  hp_status :: "host_registration option"
  hp_claimCode :: "jsstring option"
  hp_claimCodeExpiresAt :: "jsstring option"
  hp_ownerUserId :: "jsstring option"

subsection \<open>Pending handles, reservations, checkpoints, cancellations, completions\<close>

datatype handle_action = Action_pi_input | Action_bridge_recovery

record pending_handle =
  ph_hostId :: jsstring
  ph_sessionId :: jsstring
  ph_handledThroughEventId :: jsstring
  ph_handledThroughEventCreatedAt :: "jsstring option"
  ph_handledAt :: jsstring
  ph_action :: handle_action
  ph_updatedAt :: jsstring

record snapshot_state =
  sn_lastAllocatedRevision :: int
  sn_lastAcceptedRevision :: int
  sn_lastAcceptedDigest :: "jsstring option"
  sn_lastAcceptedContentDigest :: "jsstring option"
  sn_lastAcceptedRecipientSetVersion :: "int option"

record producer_reservation =
  pr_eventId :: jsstring
  pr_sessionId :: jsstring
  pr_fingerprint :: jsstring
  pr_createdAt :: jsstring

record source_checkpoint =
  ck_sessionId :: jsstring
  ck_producerEventId :: jsstring
  ck_producerEventOrder :: jsstring
  ck_eventId :: jsstring
  ck_fingerprint :: jsstring
  ck_createdAt :: jsstring

record terminal_cancellation =
  tc_sessionId :: jsstring
  tc_eventId :: jsstring
  tc_fingerprint :: jsstring
  tc_removeSession :: bool
  tc_createdAt :: jsstring

record event_completion =
  ec_eventId :: jsstring
  ec_sessionId :: jsstring
  ec_revision :: int
  ec_eventContentId :: jsstring
  ec_sessionContentId :: jsstring
  ec_committedAt :: jsstring
  ec_revisionCommitted :: "bool option"
  ec_inflightRemoved :: "bool option"
  ec_sourceRemoved :: "bool option"

subsection \<open>Runtime health\<close>

record driver_health =
  dh_driver :: jsstring
  dh_count :: int
  dh_firstSeenAt :: jsstring
  dh_lastSeenAt :: jsstring
  dh_lastSuccessAt :: "jsstring option"
  dh_nextRetryAt :: jsstring

record relay_presence_health =
  rp_count :: int
  rp_firstSeenAt :: jsstring
  rp_lastSeenAt :: jsstring
  rp_lastSuccessAt :: "jsstring option"
  rp_nextRetryAt :: jsstring

datatype health_status = Healthy | Degraded

record runtime_health =
  rh_status :: health_status
  rh_drivers :: "driver_health list"
  rh_relayPresence :: "relay_presence_health option"

subsection \<open>Commands\<close>

datatype command_status = Executed | Expired | Rejected | Failed

text \<open>\<open>accepted\<close> is \<open>true\<close> exactly for \<open>executed\<close>; it is kept as its own field, as in the type,
  because the validators check the pair.\<close>

record command_result =
  cr_commandId :: jsstring
  cr_hostId :: jsstring
  cr_sessionId :: jsstring
  cr_updatedAt :: jsstring
  cr_accepted :: bool
  cr_status :: command_status

record encrypted_content =
  co_suite :: jsstring
  co_contentId :: jsstring
  co_payloadKind :: jsstring
  co_nonce :: jsstring
  co_ciphertext :: jsstring

record key_wrap =
  kw_suite :: jsstring
  kw_contentId :: jsstring
  kw_linkId :: jsstring
  kw_linkGeneration :: int
  kw_epoch :: int
  kw_senderEncryptionKeyId :: jsstring
  kw_recipientEncryptionKeyId :: jsstring
  kw_nonce :: jsstring
  kw_ciphertext :: jsstring

text \<open>A reply names the alert it answers; an interrupt has no target.\<close>

datatype command_type = Reply jsstring | Interrupt

record command_envelope =
  ce_commandId :: jsstring
  ce_hostId :: jsstring
  ce_sessionId :: jsstring
  ce_type :: command_type
  ce_content :: encrypted_content
  ce_keyWrap :: key_wrap
  ce_issuedAt :: jsstring
  ce_expiresAt :: jsstring
  ce_nonce :: jsstring
  ce_watchDeviceId :: jsstring
  ce_linkId :: jsstring
  ce_linkGeneration :: int
  ce_epoch :: int

datatype receipt_command_type = Receipt_reply | Receipt_interrupt

record command_receipt =
  re_hostId :: jsstring
  re_watchDeviceId :: jsstring
  re_sessionId :: jsstring
  re_commandId :: jsstring
  re_commandType :: receipt_command_type
  re_commandDigest :: jsstring
  re_completedAt :: jsstring
  re_linkId :: jsstring
  re_linkGeneration :: int
  re_epoch :: int
  re_content :: encrypted_content
  re_keyWrap :: key_wrap

record pin_reference =
  pin_linkId :: jsstring
  pin_linkGeneration :: int
  pin_epoch :: int
  pin_transcriptDigest :: jsstring
  pin_hostEncryptionKeyId :: jsstring
  pin_watchEncryptionKeyId :: jsstring

datatype outbox_state = Outbox_pending | Outbox_acknowledged | Outbox_undeliverable

record receipt_outbox =
  ob_state :: outbox_state
  ob_canonicalBody :: jsstring
  ob_receiptDigest :: jsstring

datatype execution_state =
    Claimed | Dispatch_started | Outcome_unknown | Terminal_receipt_blocked | Terminal

record command_execution =
  cx_originalEncryptedCommand :: command_envelope
  cx_commandDigest :: jsstring
  cx_pinReference :: pin_reference
  cx_watchDeviceId :: jsstring
  cx_nonce :: jsstring
  cx_expiresAt :: jsstring
  cx_state :: execution_state
  cx_claimedAt :: jsstring
  cx_dispatchStartedAt :: "jsstring option"
  cx_terminalResult :: "command_result option"
  cx_receiptOutbox :: "receipt_outbox option"

record outbox_input =
  oi_canonicalBody :: jsstring
  oi_receiptDigest :: jsstring
  oi_receipt :: command_receipt

subsection \<open>The state\<close>

record bridge_state =
  bs_runtimeResetEpoch :: jsstring
  bs_host :: "host_projection option"
  bs_sessions :: "(jsstring, canonical_session) object"
  bs_sessionDrivers :: "(jsstring, jsstring) object"
  bs_reconciledDrivers :: "(jsstring, unit) object"
  bs_recentEvents :: "canonical_event list"
  bs_sessionRevisions :: "(jsstring, int) object"
  bs_recipientSetVersion :: "int option"
  bs_eventUploadCompletions :: "(jsstring, event_completion) object option"
  bs_producerEventReservations :: "(jsstring, producer_reservation) object option"
  bs_producerEventCheckpoints :: "(jsstring, source_checkpoint) object option"
  bs_terminalCancellations :: "(jsstring, terminal_cancellation) object option"
  bs_pendingHandles :: "(jsstring, pending_handle) object"
  bs_commandExecutions :: "(jsstring, command_execution) object"
  bs_currentSessionsSnapshot :: snapshot_state
  bs_runtimeHealth :: "runtime_health option"

definition EMPTY_SNAPSHOT :: snapshot_state where
  "EMPTY_SNAPSHOT = \<lparr>sn_lastAllocatedRevision = 0, sn_lastAcceptedRevision = 0,
    sn_lastAcceptedDigest = None, sn_lastAcceptedContentDigest = None,
    sn_lastAcceptedRecipientSetVersion = None\<rparr>"

definition emptyState :: "jsstring \<Rightarrow> bridge_state" where
  "emptyState runtimeResetEpoch = \<lparr>
    bs_runtimeResetEpoch = runtimeResetEpoch, bs_host = None, bs_sessions = [],
    bs_sessionDrivers = [], bs_reconciledDrivers = [], bs_recentEvents = [],
    bs_sessionRevisions = [], bs_recipientSetVersion = None, bs_eventUploadCompletions = None,
    bs_producerEventReservations = None, bs_producerEventCheckpoints = None,
    bs_terminalCancellations = None, bs_pendingHandles = [], bs_commandExecutions = [],
    bs_currentSessionsSnapshot = EMPTY_SNAPSHOT,
    bs_runtimeHealth = Some \<lparr>rh_status = Healthy, rh_drivers = [], rh_relayPresence = None\<rparr>\<rparr>"

definition producerReservationKey :: "jsstring \<Rightarrow> jsstring \<Rightarrow> jsstring" where
  "producerReservationKey sessionId fingerprint = sessionId @ [10] @ fingerprint"

text \<open>\<open>m?.[k]\<close> and \<open>m ?? {}\<close> on an optional object.\<close>

definition opt_object :: "('k, 'v) object option \<Rightarrow> ('k, 'v) object" where
  "opt_object m = (case m of None \<Rightarrow> [] | Some e \<Rightarrow> e)"

lemma opt_object_simps [simp]: "opt_object None = []" "opt_object (Some m) = m"
  by (simp_all add: opt_object_def)

subsection \<open>Transitions\<close>

text \<open>
  A transition returns either the object it was given (no durable write is due) or a new state.
  \<open>Same\<close> stands for the same reference, \<open>New s'\<close> for a new object. A transition that throws is
  \<open>Inl\<close>.
\<close>

datatype next_state = Same | New bridge_state

type_synonym 'r transition = "(next_state \<times> 'r) result"

fun resulting :: "bridge_state \<Rightarrow> next_state \<Rightarrow> bridge_state" where
  "resulting s Same = s"
| "resulting s (New s') = s'"

definition target :: "bridge_state \<Rightarrow> 'r transition \<Rightarrow> bridge_state" where
  "target s t = (case t of Inl _ \<Rightarrow> s | Inr (n, _) \<Rightarrow> resulting s n)"

lemma target_simps [simp]:
  "target s (Inl e) = s" "target s (Inr (Same, r)) = s" "target s (Inr (New s', r)) = s'"
  by (simp_all add: target_def)

subsection \<open>Stable sorting\<close>

text \<open>\<open>Array.prototype.sort\<close> with a comparator is a stable sort: an element is placed before the
  first one it does not follow, starting from the end of the array.\<close>

fun js_insert :: "('a \<Rightarrow> 'a \<Rightarrow> int) \<Rightarrow> 'a \<Rightarrow> 'a list \<Rightarrow> 'a list" where
  "js_insert cmp x [] = [x]"
| "js_insert cmp x (y # ys) = (if cmp x y \<le> 0 then x # y # ys else y # js_insert cmp x ys)"

definition js_sort :: "('a \<Rightarrow> 'a \<Rightarrow> int) \<Rightarrow> 'a list \<Rightarrow> 'a list" where
  "js_sort cmp xs = foldr (js_insert cmp) xs []"

lemma set_js_insert [simp]: "set (js_insert cmp x ys) = insert x (set ys)"
  by (induction ys) auto

lemma length_js_insert [simp]: "length (js_insert cmp x ys) = Suc (length ys)"
  by (induction ys) auto

lemma distinct_js_insert [simp]: "distinct (map f (js_insert cmp x ys)) \<longleftrightarrow> distinct (f x # map f ys)"
  by (induction ys) auto

lemma js_sort_simps [simp]:
  "js_sort cmp [] = []" "js_sort cmp (x # xs) = js_insert cmp x (js_sort cmp xs)"
  by (simp_all add: js_sort_def)

lemma set_js_sort [simp]: "set (js_sort cmp xs) = set xs"
  by (induction xs) auto

lemma length_js_sort [simp]: "length (js_sort cmp xs) = length xs"
  by (induction xs) auto

lemma distinct_js_sort [simp]: "distinct (map f (js_sort cmp xs)) = distinct (map f xs)"
proof (induction xs)
  case (Cons x xs)
  have "f x \<in> set (map f (js_sort cmp xs)) \<longleftrightarrow> f x \<in> set (map f xs)"
    by (simp only: set_map set_js_sort)
  with Cons show ?case by simp
qed simp

text \<open>The comparators of the program come from \<open>localeCompare\<close>, a parameter of the model (the
  collation of the runtime's locale). What the program relies on: it is a consistent comparison.\<close>

definition consistent_compare :: "('a \<Rightarrow> 'a \<Rightarrow> int) \<Rightarrow> bool" where
  "consistent_compare cmp \<longleftrightarrow>
    (\<forall>x y. (cmp x y < 0 \<longleftrightarrow> 0 < cmp y x))
    \<and> (\<forall>x y z. cmp x y \<le> 0 \<longrightarrow> cmp y z \<le> 0 \<longrightarrow> cmp x z \<le> 0)"

lemma compare_swap: "consistent_compare cmp \<Longrightarrow> cmp x y < 0 \<longleftrightarrow> 0 < cmp y x"
  unfolding consistent_compare_def by blast

lemma compare_trans: "consistent_compare cmp \<Longrightarrow> cmp x y \<le> 0 \<Longrightarrow> cmp y z \<le> 0 \<Longrightarrow> cmp x z \<le> 0"
  unfolding consistent_compare_def by blast

lemma compare_total: "consistent_compare cmp \<Longrightarrow> \<not> cmp x y \<le> 0 \<Longrightarrow> cmp y x \<le> 0"
  using compare_swap[of cmp y x] by linarith

lemma compare_refl: "consistent_compare cmp \<Longrightarrow> cmp x x = 0"
  using compare_swap[of cmp x x] by linarith

lemma sorted_js_insert:
  assumes "consistent_compare cmp" and "sorted_wrt (\<lambda>x y. cmp x y \<le> 0) ys"
  shows "sorted_wrt (\<lambda>x y. cmp x y \<le> 0) (js_insert cmp x ys)"
  using assms(2)
proof (induction ys)
  case (Cons y ys)
  then show ?case
    by (auto intro: compare_trans[OF assms(1)] dest: compare_total[OF assms(1)])
qed simp

lemma sorted_js_sort:
  assumes "consistent_compare cmp"
  shows "sorted_wrt (\<lambda>x y. cmp x y \<le> 0) (js_sort cmp xs)"
  by (induction xs) (simp_all add: sorted_js_insert assms)

end
