(* ===== verification/Command_Wire.thy ===== *)
theory Command_Wire
  imports Base64_Url Timestamps Bridge_State
begin

section \<open>Commands and receipts on the wire\<close>

text \<open>
  The validators of \<open>packages/protocol/src/commands.ts\<close> and \<open>encryption.ts\<close> for command
  envelopes, command results and receipts, and the byte strings that the command digest and the
  receipt digest are taken of. An object of the exact shape is a record of the model, so the
  checks of own keys and of \<open>typeof\<close> hold by typing; \<open>version\<close> is the constant 1.
\<close>

definition COMMAND_IDENTIFIER_BYTES :: nat where
  "COMMAND_IDENTIFIER_BYTES = 256"

definition maxTtlMs :: int where
  "maxTtlMs = 300000"

definition replyCiphertextBytes :: nat where
  "replyCiphertextBytes = 24039"

definition E2E_SUITE_V1 :: jsstring where
  "E2E_SUITE_V1 = js ''x25519-hkdf-sha256-chachapoly-v1''"

definition isBoundedWellFormedString :: "jsstring \<Rightarrow> nat \<Rightarrow> bool" where
  "isBoundedWellFormedString value maxBytes \<longleftrightarrow>
    value \<noteq> [] \<and> length (utf8 value) \<le> maxBytes \<and> isWellFormedUnicode value"

definition isIdentifier :: "jsstring \<Rightarrow> bool" where
  "isIdentifier value \<longleftrightarrow>
    value \<noteq> [] \<and> length (utf8 value) \<le> COMMAND_IDENTIFIER_BYTES \<and> isWellFormedUnicode value"

definition encryption_key_pattern :: "jsstring \<Rightarrow> bool" where
  "encryption_key_pattern value \<longleftrightarrow> take 5 value = js ''ekey_'' \<and> length value = 48
    \<and> list_all (\<lambda>u. char_sextet u \<noteq> None) (drop 5 value)"

definition isBase64UrlBytes :: "jsstring \<Rightarrow> nat \<Rightarrow> bool" where
  "isBase64UrlBytes value n \<longleftrightarrow> is_ok (base64UrlDecode value (Some n))"

definition isBase64UrlCiphertext :: "jsstring \<Rightarrow> nat \<Rightarrow> nat \<Rightarrow> bool" where
  "isBase64UrlCiphertext value minimumLength maximumLength =
    (case base64UrlDecode value None of
       Inl _ \<Rightarrow> False
     | Inr bytes \<Rightarrow> minimumLength \<le> length bytes \<and> length bytes \<le> maximumLength)"

definition isCanonicalDigest :: "jsstring \<Rightarrow> bool" where
  "isCanonicalDigest value \<longleftrightarrow> isBase64UrlBytes value 32"

subsection \<open>Command results\<close>

definition validateCommandResult :: "command_result \<Rightarrow> bool" where
  "validateCommandResult r \<longleftrightarrow>
    isIdentifier (cr_commandId r) \<and> isIdentifier (cr_hostId r) \<and> isIdentifier (cr_sessionId r)
    \<and> is_canonical_timestamp (cr_updatedAt r)
    \<and> ((cr_accepted r \<and> cr_status r = Executed)
       \<or> (\<not> cr_accepted r \<and> (cr_status r = Expired \<or> cr_status r = Rejected \<or> cr_status r = Failed)))"

subsection \<open>Command envelopes\<close>

definition validateEncryptedPayload :: "encrypted_content \<Rightarrow> key_wrap \<Rightarrow> bool \<Rightarrow> bool" where
  "validateEncryptedPayload content keyWrap isReply \<longleftrightarrow>
    co_payloadKind content = (if isReply then js ''reply-content-v1'' else js ''interrupt-content-v1'')
    \<and> co_suite content = E2E_SUITE_V1
    \<and> isIdentifier (co_contentId content)
    \<and> isBase64UrlBytes (co_nonce content) 12
    \<and> isBase64UrlCiphertext (co_ciphertext content) (if isReply then 16 else 50)
        (if isReply then replyCiphertextBytes else 50)
    \<and> kw_suite keyWrap = co_suite content
    \<and> kw_contentId keyWrap = co_contentId content
    \<and> isIdentifier (kw_linkId keyWrap)
    \<and> isPositiveInteger (kw_linkGeneration keyWrap)
    \<and> isPositiveInteger (kw_epoch keyWrap)
    \<and> encryption_key_pattern (kw_senderEncryptionKeyId keyWrap)
    \<and> encryption_key_pattern (kw_recipientEncryptionKeyId keyWrap)
    \<and> isBase64UrlBytes (kw_nonce keyWrap) 12
    \<and> isBase64UrlBytes (kw_ciphertext keyWrap) 48"

fun is_reply :: "command_type \<Rightarrow> bool" where
  "is_reply (Reply _) = True"
| "is_reply Interrupt = False"

fun target_alert :: "command_type \<Rightarrow> jsstring option" where
  "target_alert (Reply e) = Some e"
| "target_alert Interrupt = None"

definition validateEncryptedCommandEnvelopeV1 :: "command_envelope \<Rightarrow> bool" where
  "validateEncryptedCommandEnvelopeV1 c \<longleftrightarrow>
    isIdentifier (ce_commandId c) \<and> isIdentifier (ce_hostId c) \<and> isIdentifier (ce_sessionId c)
    \<and> isIdentifier (ce_watchDeviceId c) \<and> isIdentifier (ce_linkId c)
    \<and> is_canonical_timestamp (ce_issuedAt c) \<and> is_canonical_timestamp (ce_expiresAt c)
    \<and> instant (ce_issuedAt c) < instant (ce_expiresAt c)
    \<and> instant (ce_expiresAt c) \<le> instant (ce_issuedAt c) + maxTtlMs
    \<and> isIdentifier (ce_nonce c) \<and> isPositiveInteger (ce_linkGeneration c) \<and> isPositiveInteger (ce_epoch c)
    \<and> validateEncryptedPayload (ce_content c) (ce_keyWrap c) (is_reply (ce_type c))
    \<and> kw_linkId (ce_keyWrap c) = ce_linkId c
    \<and> kw_linkGeneration (ce_keyWrap c) = ce_linkGeneration c
    \<and> kw_epoch (ce_keyWrap c) = ce_epoch c
    \<and> (case target_alert (ce_type c) of None \<Rightarrow> True | Some e \<Rightarrow> isIdentifier e)"

subsection \<open>Receipts\<close>

definition validateEncryptedContentV1 :: "encrypted_content \<Rightarrow> bool" where
  "validateEncryptedContentV1 c \<longleftrightarrow>
    (case map_of [(js ''event-content-v3'', 65536 :: nat), (js ''session-content-v3'', 65536),
        (js ''reply-content-v1'', 24023), (js ''interrupt-content-v1'', 34),
        (js ''command-receipt-content-v1'', 128), (js ''notification-preview-v2'', 4000)]
        (co_payloadKind c) of
       None \<Rightarrow> False
     | Some maxPlaintextBytes \<Rightarrow>
         co_suite c = E2E_SUITE_V1
         \<and> isBoundedWellFormedString (co_contentId c) 256
         \<and> isBase64UrlBytes (co_nonce c) 12
         \<and> isBase64UrlCiphertext (co_ciphertext c) 16 (maxPlaintextBytes + 16))"

definition validateRecipientKeyWrapV1 :: "key_wrap \<Rightarrow> bool" where
  "validateRecipientKeyWrapV1 w \<longleftrightarrow>
    kw_suite w = E2E_SUITE_V1
    \<and> isBoundedWellFormedString (kw_contentId w) 256
    \<and> isBoundedWellFormedString (kw_linkId w) 256
    \<and> isPositiveInteger (kw_linkGeneration w) \<and> isPositiveInteger (kw_epoch w)
    \<and> isBoundedWellFormedString (kw_senderEncryptionKeyId w) 256
    \<and> isBoundedWellFormedString (kw_recipientEncryptionKeyId w) 256
    \<and> isBase64UrlBytes (kw_nonce w) 12 \<and> isBase64UrlBytes (kw_ciphertext w) 48"

definition validateCommandReceiptEnvelopeV1 :: "command_receipt \<Rightarrow> bool" where
  "validateCommandReceiptEnvelopeV1 r \<longleftrightarrow>
    isCanonicalDigest (re_commandDigest r)
    \<and> is_canonical_timestamp (re_completedAt r) \<and> isPositiveInteger (re_linkGeneration r)
    \<and> isPositiveInteger (re_epoch r)
    \<and> list_all (\<lambda>v. isBoundedWellFormedString v 256)
        [re_hostId r, re_watchDeviceId r, re_sessionId r, re_commandId r, re_linkId r]
    \<and> validateEncryptedContentV1 (re_content r)
    \<and> co_payloadKind (re_content r) = js ''command-receipt-content-v1''
    \<and> validateRecipientKeyWrapV1 (re_keyWrap r)
    \<and> encryption_key_pattern (kw_senderEncryptionKeyId (re_keyWrap r))
    \<and> encryption_key_pattern (kw_recipientEncryptionKeyId (re_keyWrap r))
    \<and> co_contentId (re_content r) = kw_contentId (re_keyWrap r)
    \<and> re_linkId r = kw_linkId (re_keyWrap r)
    \<and> re_linkGeneration r = kw_linkGeneration (re_keyWrap r)
    \<and> re_epoch r = kw_epoch (re_keyWrap r)
    \<and> isBase64UrlBytes (co_ciphertext (re_content r)) (128 + 16)"

subsection \<open>The bytes that the digests commit to\<close>

definition contentBindingFields :: "encrypted_content \<Rightarrow> jsstring list" where
  "contentBindingFields content = [js ''1'', co_suite content, co_contentId content,
    co_payloadKind content, co_nonce content, co_ciphertext content]"

definition wrapBindingFields :: "key_wrap \<Rightarrow> jsstring list" where
  "wrapBindingFields wrap = [js ''1'', kw_suite wrap, kw_contentId wrap, kw_linkId wrap,
    num_string (kw_linkGeneration wrap), num_string (kw_epoch wrap), kw_senderEncryptionKeyId wrap,
    kw_recipientEncryptionKeyId wrap, kw_nonce wrap, kw_ciphertext wrap]"

fun command_type_name :: "command_type \<Rightarrow> jsstring" where
  "command_type_name (Reply _) = js ''reply''"
| "command_type_name Interrupt = js ''interrupt''"

fun receipt_type_name :: "receipt_command_type \<Rightarrow> jsstring" where
  "receipt_type_name Receipt_reply = js ''reply''"
| "receipt_type_name Receipt_interrupt = js ''interrupt''"

definition command_binding_fields :: "command_envelope \<Rightarrow> jsstring list" where
  "command_binding_fields c =
    [js ''ariava-encrypted-command-binding-v1'', ce_hostId c, ce_watchDeviceId c, ce_sessionId c,
     ce_commandId c, command_type_name (ce_type c),
     (case target_alert (ce_type c) of Some e \<Rightarrow> e | None \<Rightarrow> []), ce_issuedAt c, ce_expiresAt c,
     ce_nonce c, ce_linkId c, num_string (ce_linkGeneration c), num_string (ce_epoch c)]
    @ contentBindingFields (ce_content c) @ wrapBindingFields (ce_keyWrap c)"

definition buildEncryptedCommandEnvelopeBindingBytes :: "command_envelope \<Rightarrow> byte list result" where
  "buildEncryptedCommandEnvelopeBindingBytes c =
    (if \<not> validateEncryptedCommandEnvelopeV1 c
     then throw (TypeError ''encrypted command envelope is invalid'')
     else ok (encodeLengthPrefixedFields (command_binding_fields c)))"

definition receipt_binding_fields :: "command_receipt \<Rightarrow> jsstring list" where
  "receipt_binding_fields r =
    [js ''ariava-command-receipt-binding-v1'', js ''1'', re_hostId r, re_watchDeviceId r,
     re_sessionId r, re_commandId r, receipt_type_name (re_commandType r), re_commandDigest r,
     re_completedAt r, re_linkId r, num_string (re_linkGeneration r), num_string (re_epoch r)]
    @ contentBindingFields (re_content r) @ wrapBindingFields (re_keyWrap r)"

definition buildCommandReceiptEnvelopeBindingBytes :: "command_receipt \<Rightarrow> byte list result" where
  "buildCommandReceiptEnvelopeBindingBytes r =
    (if \<not> validateCommandReceiptEnvelopeV1 r
     then throw (TypeError ''command receipt envelope is invalid'')
     else ok (encodeLengthPrefixedFields (receipt_binding_fields r)))"

subsection \<open>The binding bytes are injective\<close>

lemma base64_ascii: "BASE64URL_RE value \<Longrightarrow> is_ascii value"
  by (auto simp: BASE64URL_RE_def is_ascii_def list_all_iff char_sextet_def Let_def split: if_splits)

lemma decoded_ascii: "is_ok (base64UrlDecode value n) \<Longrightarrow> is_ascii value"
  by (rule base64_ascii) (auto simp: base64UrlDecode_def split: if_splits)

lemma js_ascii: "\<forall>c \<in> set s. of_char c < (128 :: nat) \<Longrightarrow> is_ascii (js s)"
  by (auto simp: is_ascii_def list_all_iff js_def unat_of_char_unit)

lemma well_formed_parts:
  "isBase64UrlBytes v n \<Longrightarrow> isWellFormedUnicode v"
  "isBase64UrlCiphertext v a b \<Longrightarrow> isWellFormedUnicode v"
  "isIdentifier v \<Longrightarrow> isWellFormedUnicode v"
  "isBoundedWellFormedString v m \<Longrightarrow> isWellFormedUnicode v"
  "is_ascii v \<Longrightarrow> isWellFormedUnicode v"
  by (auto simp: isBase64UrlBytes_def isBase64UrlCiphertext_def isIdentifier_def
      isBoundedWellFormedString_def is_ok_iff intro!: ascii_well_formed decoded_ascii split: sum.splits)

lemma encryption_key_ascii: "encryption_key_pattern v \<Longrightarrow> isWellFormedUnicode v"
proof (rule ascii_well_formed)
  assume v: "encryption_key_pattern v"
  have "is_ascii (drop 5 v)"
    using v by (auto simp: encryption_key_pattern_def is_ascii_def list_all_iff char_sextet_def Let_def
        split: if_splits)
  moreover have "is_ascii (js ''ekey_'')" by (rule js_ascii) simp
  ultimately show "is_ascii v"
    using v append_take_drop_id[of 5 v] is_ascii_append[of "take 5 v" "drop 5 v"]
    by (simp add: encryption_key_pattern_def)
qed

lemma num_string_ascii: "isWellFormedUnicode (num_string n)"
proof -
  have "is_ascii (js ''-'')" by (rule js_ascii) simp
  then show ?thesis by (intro ascii_well_formed) (simp add: num_string_def decimal_ascii)
qed

lemma pad_ascii: "is_ascii (pad n k)"
  using digits_pad[of _ n k] by (force simp: is_ascii_def list_all_iff is_digit_def)

lemma print_fields_ascii: "is_ascii (print_fields f)"
proof -
  have "is_ascii (js ''-'')" "is_ascii (js ''+'')" "is_ascii (js '':'')" "is_ascii (js ''T'')"
    "is_ascii (js ''.'')" "is_ascii (js ''Z'')"
    by (rule js_ascii; simp)+
  then show ?thesis by (simp add: print_fields_def print_year_def pad_ascii)
qed

lemma canonical_timestamp_ascii: "is_canonical_timestamp v \<Longrightarrow> isWellFormedUnicode v"
  by (metis ascii_well_formed canonical_timestamp_iff print_fields_ascii print_parse_fields)

lemmas binding_field_well_formed =
  well_formed_parts(1-4) encryption_key_ascii num_string_ascii canonical_timestamp_ascii

lemma literal_well_formed: "\<forall>c \<in> set s. of_char c < (128 :: nat) \<Longrightarrow> isWellFormedUnicode (js s)"
  by (rule ascii_well_formed) (rule js_ascii)

lemma suite_well_formed: "isWellFormedUnicode E2E_SUITE_V1"
  unfolding E2E_SUITE_V1_def by (rule literal_well_formed) simp

lemma command_binding_fields_well_formed:
  assumes "validateEncryptedCommandEnvelopeV1 c"
  shows "list_all isWellFormedUnicode (command_binding_fields c)"
proof -
  note v = assms[unfolded validateEncryptedCommandEnvelopeV1_def]
  from v have payload: "validateEncryptedPayload (ce_content c) (ce_keyWrap c) (is_reply (ce_type c))"
    by (elim conjE)
  have "isWellFormedUnicode (case target_alert (ce_type c) of Some e \<Rightarrow> e | None \<Rightarrow> [])"
    using v by (cases "ce_type c") (auto intro: binding_field_well_formed)
  moreover have "isWellFormedUnicode (command_type_name (ce_type c))"
    by (cases "ce_type c") (simp_all add: literal_well_formed)
  moreover have "isWellFormedUnicode (co_payloadKind (ce_content c))"
    using payload by (simp add: validateEncryptedPayload_def literal_well_formed)
  moreover have "isWellFormedUnicode (co_nonce (ce_content c))" "isWellFormedUnicode (co_ciphertext (ce_content c))"
      "isWellFormedUnicode (kw_nonce (ce_keyWrap c))" "isWellFormedUnicode (kw_ciphertext (ce_keyWrap c))"
    using payload unfolding validateEncryptedPayload_def by (blast intro: well_formed_parts(1,2))+
  ultimately show ?thesis
    using v payload
    by (simp add: command_binding_fields_def contentBindingFields_def wrapBindingFields_def
        validateEncryptedPayload_def literal_well_formed suite_well_formed binding_field_well_formed)
qed

lemma command_binding_fields_inject:
  assumes "validateEncryptedCommandEnvelopeV1 c" and "validateEncryptedCommandEnvelopeV1 d"
    and "command_binding_fields c = command_binding_fields d"
  shows "c = d"
proof -
  have nonneg: "isPositiveInteger n \<Longrightarrow> 0 \<le> n" for n by (simp add: isPositiveInteger_def)
  have ty: "ce_type c = ce_type d"
    using assms(3) by (cases "ce_type c"; cases "ce_type d") (simp_all add: command_binding_fields_def)
  have "isPositiveInteger (ce_linkGeneration c)" "isPositiveInteger (ce_linkGeneration d)"
      "isPositiveInteger (ce_epoch c)" "isPositiveInteger (ce_epoch d)"
    using assms(1,2) by (simp_all add: validateEncryptedCommandEnvelopeV1_def)
  moreover have "num_string (ce_linkGeneration c) = num_string (ce_linkGeneration d)"
      "num_string (ce_epoch c) = num_string (ce_epoch d)"
    using assms(3) by (simp_all add: command_binding_fields_def)
  ultimately have gens: "ce_linkGeneration c = ce_linkGeneration d" "ce_epoch c = ce_epoch d"
    by (simp_all add: nonneg num_string_inject)
  then have wrap: "kw_linkGeneration (ce_keyWrap c) = kw_linkGeneration (ce_keyWrap d)"
      "kw_epoch (ce_keyWrap c) = kw_epoch (ce_keyWrap d)"
    using assms(1,2) by (simp_all add: validateEncryptedCommandEnvelopeV1_def)
  have content: "ce_content c = ce_content d"
    using assms(3) by (intro encrypted_content.equality)
      (simp_all add: command_binding_fields_def contentBindingFields_def)
  have keyWrap: "ce_keyWrap c = ce_keyWrap d"
    using assms(3) wrap by (intro key_wrap.equality)
      (simp_all add: command_binding_fields_def contentBindingFields_def wrapBindingFields_def)
  show ?thesis
    using assms(3) ty gens content keyWrap by (intro command_envelope.equality)
      (simp_all add: command_binding_fields_def)
qed

lemma command_binding_bytes_inject:
  assumes "buildEncryptedCommandEnvelopeBindingBytes c = ok b"
    and "buildEncryptedCommandEnvelopeBindingBytes d = ok b"
  shows "c = d"
proof -
  from assms have v: "validateEncryptedCommandEnvelopeV1 c" "validateEncryptedCommandEnvelopeV1 d"
    and eq: "encodeLengthPrefixedFields (command_binding_fields c) =
      encodeLengthPrefixedFields (command_binding_fields d)"
    by (auto simp: buildEncryptedCommandEnvelopeBindingBytes_def split: if_splits)
  show ?thesis
    by (rule command_binding_fields_inject[OF v])
      (rule encode_fields_inject[OF eq command_binding_fields_well_formed[OF v(1)]
        command_binding_fields_well_formed[OF v(2)]])
qed

lemma payload_kind_well_formed: "validateEncryptedContentV1 c \<Longrightarrow> isWellFormedUnicode (co_payloadKind c)"
  by (auto simp: validateEncryptedContentV1_def literal_well_formed split: option.splits if_splits)

lemma receipt_binding_fields_well_formed:
  assumes "validateCommandReceiptEnvelopeV1 r"
  shows "list_all isWellFormedUnicode (receipt_binding_fields r)"
proof -
  note v = assms[unfolded validateCommandReceiptEnvelopeV1_def]
  from v have content: "validateEncryptedContentV1 (re_content r)" by (elim conjE)
  from v have wrap: "validateRecipientKeyWrapV1 (re_keyWrap r)" by (elim conjE)
  have "isWellFormedUnicode (receipt_type_name (re_commandType r))"
    by (cases "re_commandType r") (simp_all add: literal_well_formed)
  moreover have "isWellFormedUnicode (re_commandDigest r)"
    using v by (auto simp: isCanonicalDigest_def intro: binding_field_well_formed)
  moreover have "isWellFormedUnicode (co_suite (re_content r))" "isWellFormedUnicode (co_contentId (re_content r))"
      "isWellFormedUnicode (co_nonce (re_content r))" "isWellFormedUnicode (co_ciphertext (re_content r))"
    using content
    by (auto simp: validateEncryptedContentV1_def suite_well_formed binding_field_well_formed split: option.splits)
  moreover have "isWellFormedUnicode (kw_nonce (re_keyWrap r))" "isWellFormedUnicode (kw_ciphertext (re_keyWrap r))"
      "isWellFormedUnicode (kw_contentId (re_keyWrap r))" "isWellFormedUnicode (kw_linkId (re_keyWrap r))"
    using wrap unfolding validateRecipientKeyWrapV1_def by (blast intro: well_formed_parts)+
  moreover have "list_all isWellFormedUnicode [re_hostId r, re_watchDeviceId r, re_sessionId r, re_commandId r, re_linkId r]"
    using v by (auto intro: well_formed_parts(4))
  ultimately show ?thesis
    using v wrap payload_kind_well_formed[OF content]
    by (simp add: receipt_binding_fields_def contentBindingFields_def wrapBindingFields_def
        validateRecipientKeyWrapV1_def literal_well_formed suite_well_formed binding_field_well_formed)
qed

lemma receipt_positive:
  "validateCommandReceiptEnvelopeV1 r \<Longrightarrow> isPositiveInteger (re_linkGeneration r) \<and> isPositiveInteger (re_epoch r)"
  unfolding validateCommandReceiptEnvelopeV1_def by argo

lemma receipt_binding_fields_inject:
  assumes "validateCommandReceiptEnvelopeV1 r" and "validateCommandReceiptEnvelopeV1 q"
    and "receipt_binding_fields r = receipt_binding_fields q"
  shows "r = q"
proof -
  have nonneg: "isPositiveInteger n \<Longrightarrow> 0 \<le> n" for n by (simp add: isPositiveInteger_def)
  have ty: "re_commandType r = re_commandType q"
    using assms(3) by (cases "re_commandType r"; cases "re_commandType q") (simp_all add: receipt_binding_fields_def)
  have "isPositiveInteger (re_linkGeneration r)" "isPositiveInteger (re_linkGeneration q)"
      "isPositiveInteger (re_epoch r)" "isPositiveInteger (re_epoch q)"
    using receipt_positive[OF assms(1)] receipt_positive[OF assms(2)] by simp_all
  moreover have "num_string (re_linkGeneration r) = num_string (re_linkGeneration q)"
      "num_string (re_epoch r) = num_string (re_epoch q)"
    using assms(3) by (simp_all add: receipt_binding_fields_def)
  ultimately have gens: "re_linkGeneration r = re_linkGeneration q" "re_epoch r = re_epoch q"
    by (simp_all add: nonneg num_string_inject)
  then have wrap: "kw_linkGeneration (re_keyWrap r) = kw_linkGeneration (re_keyWrap q)"
      "kw_epoch (re_keyWrap r) = kw_epoch (re_keyWrap q)"
    using assms(1,2) by (simp_all add: validateCommandReceiptEnvelopeV1_def)
  have content: "re_content r = re_content q"
    using assms(3) by (intro encrypted_content.equality)
      (simp_all add: receipt_binding_fields_def contentBindingFields_def)
  have keyWrap: "re_keyWrap r = re_keyWrap q"
    using assms(3) wrap by (intro key_wrap.equality)
      (simp_all add: receipt_binding_fields_def contentBindingFields_def wrapBindingFields_def)
  show ?thesis
    using assms(3) ty gens content keyWrap by (intro command_receipt.equality)
      (simp_all add: receipt_binding_fields_def)
qed

text \<open>A receipt and a command never have the same binding bytes: the first field is a different
  domain.\<close>

lemma receipt_binding_bytes_inject:
  assumes "buildCommandReceiptEnvelopeBindingBytes r = ok b"
    and "buildCommandReceiptEnvelopeBindingBytes q = ok b"
  shows "r = q"
proof -
  from assms have v: "validateCommandReceiptEnvelopeV1 r" "validateCommandReceiptEnvelopeV1 q"
    and eq: "encodeLengthPrefixedFields (receipt_binding_fields r) =
      encodeLengthPrefixedFields (receipt_binding_fields q)"
    by (auto simp: buildCommandReceiptEnvelopeBindingBytes_def split: if_splits)
  show ?thesis
    by (rule receipt_binding_fields_inject[OF v])
      (rule encode_fields_inject[OF eq receipt_binding_fields_well_formed[OF v(1)]
        receipt_binding_fields_well_formed[OF v(2)]])
qed

lemma binding_domains_disjoint:
  assumes "buildEncryptedCommandEnvelopeBindingBytes c = ok b"
    and "buildCommandReceiptEnvelopeBindingBytes r = ok b"
  shows False
proof -
  from assms have v: "validateEncryptedCommandEnvelopeV1 c" "validateCommandReceiptEnvelopeV1 r"
    and eq: "encodeLengthPrefixedFields (command_binding_fields c) =
      encodeLengthPrefixedFields (receipt_binding_fields r)"
    by (auto simp: buildCommandReceiptEnvelopeBindingBytes_def
        buildEncryptedCommandEnvelopeBindingBytes_def split: if_splits)
  from encode_fields_inject[OF eq command_binding_fields_well_formed[OF v(1)]
        receipt_binding_fields_well_formed[OF v(2)]]
  show False by (simp add: command_binding_fields_def receipt_binding_fields_def)
qed

end
