(* ===== verification/Command_Journal.thy ===== *)
theory Command_Journal
  imports Command_Wire
begin

section \<open>The durable command journal\<close>

text \<open>
  The validation of a persisted command execution (\<open>state-codec.ts\<close>) and the transitions of
  \<open>state-store/command-transitions.ts\<close>: claim, dispatch, outcome unknown, terminal result and
  receipt, acknowledgement, recovery of orphans, pruning, and the key pins that the journal
  retains. SHA-256 and \<open>JSON.parse\<close>/\<open>JSON.stringify\<close> of a receipt are the fields of a port.
  \<open>JSON.stringify(a) === JSON.stringify(b)\<close> on two objects of one record type is equality of the
  records (the properties of both stand in the order in which the Relay's JSON has them).
\<close>

subsection \<open>Validation of an execution\<close>

record wire_port =
  sha256_base64url :: "byte list \<Rightarrow> jsstring"
  stringify_receipt :: "command_receipt \<Rightarrow> jsstring"
  parse_receipt :: "jsstring \<Rightarrow> command_receipt option"

definition hashBytes :: "wire_port \<Rightarrow> byte list \<Rightarrow> jsstring" where
  "hashBytes P bytes = sha256_base64url P bytes"

definition isVerifier :: "jsstring \<Rightarrow> bool" where
  "isVerifier value \<longleftrightarrow> length value = 43 \<and> list_all (\<lambda>u. char_sextet u \<noteq> None) value"

definition isPersistedCommandPinReference :: "pin_reference \<Rightarrow> bool" where
  "isPersistedCommandPinReference p \<longleftrightarrow>
    pin_linkId p \<noteq> [] \<and> isPositiveInteger (pin_linkGeneration p) \<and> isPositiveInteger (pin_epoch p)
    \<and> isVerifier (pin_transcriptDigest p) \<and> encryption_key_pattern (pin_hostEncryptionKeyId p)
    \<and> encryption_key_pattern (pin_watchEncryptionKeyId p)"

definition receipt_digest_matches :: "wire_port \<Rightarrow> command_receipt \<Rightarrow> jsstring \<Rightarrow> bool" where
  "receipt_digest_matches P receipt digest =
    (case buildCommandReceiptEnvelopeBindingBytes receipt of
       Inl _ \<Rightarrow> False | Inr bytes \<Rightarrow> hashBytes P bytes = digest)"

definition isPersistedReceiptOutbox :: "wire_port \<Rightarrow> receipt_outbox \<Rightarrow> bool" where
  "isPersistedReceiptOutbox P ob \<longleftrightarrow>
    ob_canonicalBody ob \<noteq> [] \<and> isVerifier (ob_receiptDigest ob)
    \<and> (case parse_receipt P (ob_canonicalBody ob) of
         None \<Rightarrow> False
       | Some receipt \<Rightarrow> validateCommandReceiptEnvelopeV1 receipt
           \<and> stringify_receipt P receipt = ob_canonicalBody ob
           \<and> receipt_digest_matches P receipt (ob_receiptDigest ob))"

fun same_type :: "receipt_command_type \<Rightarrow> command_type \<Rightarrow> bool" where
  "same_type Receipt_reply (Reply _) = True"
| "same_type Receipt_interrupt Interrupt = True"
| "same_type _ _ = False"

definition receipt_matches_execution ::
  "command_receipt \<Rightarrow> command_result \<Rightarrow> command_execution \<Rightarrow> bool" where
  "receipt_matches_execution receipt terminalResult x \<longleftrightarrow>
    (let command = cx_originalEncryptedCommand x; pin = cx_pinReference x
     in cr_commandId terminalResult = ce_commandId command
      \<and> cr_hostId terminalResult = ce_hostId command
      \<and> cr_sessionId terminalResult = ce_sessionId command
      \<and> re_hostId receipt = ce_hostId command
      \<and> re_watchDeviceId receipt = ce_watchDeviceId command
      \<and> re_sessionId receipt = ce_sessionId command
      \<and> re_commandId receipt = ce_commandId command
      \<and> same_type (re_commandType receipt) (ce_type command)
      \<and> re_commandDigest receipt = cx_commandDigest x
      \<and> re_completedAt receipt = cr_updatedAt terminalResult
      \<and> re_linkId receipt = pin_linkId pin
      \<and> re_linkGeneration receipt = pin_linkGeneration pin
      \<and> re_epoch receipt = pin_epoch pin
      \<and> kw_senderEncryptionKeyId (re_keyWrap receipt) = pin_hostEncryptionKeyId pin
      \<and> kw_recipientEncryptionKeyId (re_keyWrap receipt) = pin_watchEncryptionKeyId pin)"

definition assertReceiptOutboxForExecution ::
  "wire_port \<Rightarrow> command_execution \<Rightarrow> command_result \<Rightarrow> outbox_input \<Rightarrow> unit result" where
  "assertReceiptOutboxForExecution P x terminalResult outbox =
    (if \<not> validateCommandResult terminalResult
        \<or> \<not> validateCommandReceiptEnvelopeV1 (oi_receipt outbox)
        \<or> stringify_receipt P (oi_receipt outbox) \<noteq> oi_canonicalBody outbox
        \<or> \<not> receipt_digest_matches P (oi_receipt outbox) (oi_receiptDigest outbox)
     then throw (TypeError ''command receipt outbox input is invalid'')
     else if \<not> receipt_matches_execution (oi_receipt outbox) terminalResult x
     then throw (TypeError ''command receipt does not match its execution'')
     else ok ())"

definition assertPersistedReceiptMatchesExecution ::
  "wire_port \<Rightarrow> command_execution \<Rightarrow> receipt_outbox \<Rightarrow> command_result \<Rightarrow> unit result" where
  "assertPersistedReceiptMatchesExecution P x outbox terminalResult =
    (case parse_receipt P (ob_canonicalBody outbox) of
       None \<Rightarrow> throw (PlainError ''SyntaxError'')
     | Some receipt \<Rightarrow> assertReceiptOutboxForExecution P x terminalResult
         \<lparr>oi_canonicalBody = ob_canonicalBody outbox, oi_receiptDigest = ob_receiptDigest outbox,
          oi_receipt = receipt\<rparr>)"

definition execution_fields_valid :: "command_execution \<Rightarrow> bool" where
  "execution_fields_valid x \<longleftrightarrow>
    (let command = cx_originalEncryptedCommand x
     in validateEncryptedCommandEnvelopeV1 command
      \<and> isVerifier (cx_commandDigest x) \<and> isPersistedCommandPinReference (cx_pinReference x)
      \<and> cx_watchDeviceId x = ce_watchDeviceId command \<and> cx_nonce x = ce_nonce command
      \<and> cx_expiresAt x = ce_expiresAt command \<and> is_canonical_timestamp (cx_claimedAt x))"

definition execution_bound :: "wire_port \<Rightarrow> command_execution \<Rightarrow> bool" where
  "execution_bound P x \<longleftrightarrow>
    (let command = cx_originalEncryptedCommand x; pin = cx_pinReference x
     in (case buildEncryptedCommandEnvelopeBindingBytes command of
           Inl _ \<Rightarrow> False | Inr bytes \<Rightarrow> cx_commandDigest x = hashBytes P bytes)
      \<and> pin_linkId pin = ce_linkId command
      \<and> pin_linkGeneration pin = ce_linkGeneration command
      \<and> pin_epoch pin = ce_epoch command
      \<and> pin_hostEncryptionKeyId pin = kw_recipientEncryptionKeyId (ce_keyWrap command)
      \<and> pin_watchEncryptionKeyId pin = kw_senderEncryptionKeyId (ce_keyWrap command))"

definition result_bound :: "command_execution \<Rightarrow> command_result \<Rightarrow> bool" where
  "result_bound x r \<longleftrightarrow> validateCommandResult r
    \<and> cr_commandId r = ce_commandId (cx_originalEncryptedCommand x)
    \<and> cr_hostId r = ce_hostId (cx_originalEncryptedCommand x)
    \<and> cr_sessionId r = ce_sessionId (cx_originalEncryptedCommand x)"

definition assert_execution_shape :: "wire_port \<Rightarrow> command_execution \<Rightarrow> unit result" where
  "assert_execution_shape P x =
    (case cx_state x of
       Claimed \<Rightarrow>
         if cx_dispatchStartedAt x \<noteq> None \<or> cx_terminalResult x \<noteq> None \<or> cx_receiptOutbox x \<noteq> None
         then throw (TypeError ''claimed command shape is invalid'') else ok ()
     | Dispatch_started \<Rightarrow>
         if cx_dispatchStartedAt x = None \<or> cx_terminalResult x \<noteq> None \<or> cx_receiptOutbox x \<noteq> None
         then throw (TypeError ''dispatch-started command shape is invalid'') else ok ()
     | Outcome_unknown \<Rightarrow>
         if cx_terminalResult x \<noteq> None \<or> cx_receiptOutbox x \<noteq> None
         then throw (TypeError ''outcome-unknown command shape is invalid'') else ok ()
     | Terminal_receipt_blocked \<Rightarrow>
         if cx_terminalResult x = None \<or> cx_receiptOutbox x \<noteq> None
         then throw (TypeError ''receipt-blocked command shape is invalid'') else ok ()
     | Terminal \<Rightarrow>
         (case (cx_terminalResult x, cx_receiptOutbox x) of
            (Some r, Some ob) \<Rightarrow> assertPersistedReceiptMatchesExecution P x ob r
          | _ \<Rightarrow> throw (TypeError ''terminal command shape is invalid'')))"

definition assertCommandExecution :: "wire_port \<Rightarrow> command_execution \<Rightarrow> unit result" where
  "assertCommandExecution P x =
    (if \<not> execution_fields_valid x then throw (TypeError ''command execution is invalid'')
     else if \<not> execution_bound P x then throw (TypeError ''command execution binding is invalid'')
     else if (case cx_dispatchStartedAt x of Some t \<Rightarrow> \<not> is_canonical_timestamp t | None \<Rightarrow> False)
     then throw (TypeError ''command dispatch timestamp is invalid'')
     else if (case cx_terminalResult x of Some r \<Rightarrow> \<not> result_bound x r | None \<Rightarrow> False)
     then throw (TypeError ''command terminal result binding is invalid'')
     else if (case cx_receiptOutbox x of Some ob \<Rightarrow> \<not> isPersistedReceiptOutbox P ob | None \<Rightarrow> False)
     then throw (TypeError ''command receipt outbox is invalid'')
     else assert_execution_shape P x)"

subsection \<open>Transitions\<close>

definition requireCommandExecution :: "bridge_state \<Rightarrow> jsstring \<Rightarrow> command_execution result" where
  "requireCommandExecution s commandId =
    (case oget (bs_commandExecutions s) commandId of
       None \<Rightarrow> throw (TypeError ''command execution is not claimed'')
     | Some x \<Rightarrow> ok x)"

definition put_execution :: "jsstring \<Rightarrow> command_execution \<Rightarrow> bridge_state \<Rightarrow> bridge_state" where
  "put_execution commandId x s = s\<lparr>bs_commandExecutions := oput commandId x (bs_commandExecutions s)\<rparr>"

definition replaceCommandExecutionTransition ::
  "wire_port \<Rightarrow> bridge_state \<Rightarrow> jsstring \<Rightarrow> command_execution \<Rightarrow> command_execution transition" where
  "replaceCommandExecutionTransition P s commandId x =
    rbind (assertCommandExecution P x) (\<lambda>_.
      if ce_commandId (cx_originalEncryptedCommand x) \<noteq> commandId
      then throw (TypeError ''command execution ID binding is invalid'')
      else ok (New (put_execution commandId x s), x))"

definition sameCommandClaim :: "command_execution \<Rightarrow> command_execution \<Rightarrow> bool" where
  "sameCommandClaim left right \<longleftrightarrow>
    cx_commandDigest left = cx_commandDigest right
    \<and> cx_originalEncryptedCommand left = cx_originalEncryptedCommand right
    \<and> cx_pinReference left = cx_pinReference right"

datatype claim_result =
    Claim_claimed command_execution
  | Claim_duplicate command_execution
  | Claim_conflict

definition claim_candidate ::
  "command_envelope \<Rightarrow> jsstring \<Rightarrow> pin_reference \<Rightarrow> jsstring \<Rightarrow> command_execution" where
  "claim_candidate command commandDigest pinReference claimedAt = \<lparr>
    cx_originalEncryptedCommand = command, cx_commandDigest = commandDigest,
    cx_pinReference = pinReference, cx_watchDeviceId = ce_watchDeviceId command,
    cx_nonce = ce_nonce command, cx_expiresAt = ce_expiresAt command, cx_state = Claimed,
    cx_claimedAt = claimedAt, cx_dispatchStartedAt = None, cx_terminalResult = None,
    cx_receiptOutbox = None\<rparr>"

definition nonce_used :: "bridge_state \<Rightarrow> command_execution \<Rightarrow> bool" where
  "nonce_used s candidate \<longleftrightarrow> list_ex (\<lambda>x. cx_watchDeviceId x = cx_watchDeviceId candidate
    \<and> cx_nonce x = cx_nonce candidate) (ovalues (bs_commandExecutions s))"

definition claimCommandExecutionTransition ::
  "wire_port \<Rightarrow> bridge_state \<Rightarrow> command_envelope \<Rightarrow> jsstring \<Rightarrow> pin_reference \<Rightarrow> jsstring
    \<Rightarrow> claim_result transition" where
  "claimCommandExecutionTransition P s command commandDigest pinReference claimedAt =
    (let candidate = claim_candidate command commandDigest pinReference claimedAt
     in rbind (assertCommandExecution P candidate) (\<lambda>_.
          case oget (bs_commandExecutions s) (ce_commandId command) of
            Some existing \<Rightarrow>
              if sameCommandClaim existing candidate then ok (Same, Claim_duplicate existing)
              else ok (Same, Claim_conflict)
          | None \<Rightarrow>
              if nonce_used s candidate then ok (Same, Claim_conflict)
              else ok (New (put_execution (ce_commandId command) candidate s), Claim_claimed candidate)))"

definition markCommandDispatchStartedTransition ::
  "wire_port \<Rightarrow> bridge_state \<Rightarrow> jsstring \<Rightarrow> jsstring \<Rightarrow> command_execution transition" where
  "markCommandDispatchStartedTransition P s commandId dispatchStartedAt =
    rbind (requireCommandExecution s commandId) (\<lambda>current.
      if cx_state current \<noteq> Claimed
      then throw (TypeError ''command execution cannot start dispatch from its current state'')
      else replaceCommandExecutionTransition P s commandId
        (current\<lparr>cx_state := Dispatch_started, cx_dispatchStartedAt := Some dispatchStartedAt\<rparr>))"

definition in_flight :: "command_execution \<Rightarrow> bool" where
  "in_flight x \<longleftrightarrow> cx_state x = Claimed \<or> cx_state x = Dispatch_started"

definition recoverOrphanedCommandExecutionsTransition :: "bridge_state \<Rightarrow> nat transition" where
  "recoverOrphanedCommandExecutionsTransition s =
    (let orphanIds = map fst (filter (\<lambda>(_, x). in_flight x) (bs_commandExecutions s))
     in if orphanIds = [] then ok (Same, 0)
        else ok (New (s\<lparr>bs_commandExecutions :=
               map (\<lambda>(k, x). (k, if in_flight x then x\<lparr>cx_state := Outcome_unknown\<rparr> else x))
                 (bs_commandExecutions s)\<rparr>), length orphanIds))"

definition markCommandOutcomeUnknownTransition ::
  "wire_port \<Rightarrow> bridge_state \<Rightarrow> jsstring \<Rightarrow> command_execution transition" where
  "markCommandOutcomeUnknownTransition P s commandId =
    rbind (requireCommandExecution s commandId) (\<lambda>current.
      if cx_state current \<noteq> Claimed \<and> cx_state current \<noteq> Dispatch_started
      then throw (TypeError ''command execution cannot become outcome-unknown from its current state'')
      else replaceCommandExecutionTransition P s commandId (current\<lparr>cx_state := Outcome_unknown\<rparr>))"

definition persistTerminalReceiptBlockedTransition ::
  "wire_port \<Rightarrow> bridge_state \<Rightarrow> jsstring \<Rightarrow> command_result \<Rightarrow> command_execution transition" where
  "persistTerminalReceiptBlockedTransition P s commandId terminalResult =
    rbind (requireCommandExecution s commandId) (\<lambda>current.
      if cx_state current \<noteq> Claimed \<and> cx_state current \<noteq> Dispatch_started
      then throw (TypeError ''command execution cannot persist a terminal result from its current state'')
      else replaceCommandExecutionTransition P s commandId
        (current\<lparr>cx_state := Terminal_receipt_blocked, cx_terminalResult := Some terminalResult\<rparr>))"

definition persistTerminalCommandReceiptTransition ::
  "wire_port \<Rightarrow> bridge_state \<Rightarrow> jsstring \<Rightarrow> command_result \<Rightarrow> outbox_input
    \<Rightarrow> command_execution transition" where
  "persistTerminalCommandReceiptTransition P s commandId terminalResult outbox =
    rbind (requireCommandExecution s commandId) (\<lambda>current.
      if cx_state current \<noteq> Claimed \<and> cx_state current \<noteq> Dispatch_started
          \<and> cx_state current \<noteq> Terminal_receipt_blocked
      then throw (TypeError ''command execution cannot become terminal from its current state'')
      else if cx_state current = Terminal_receipt_blocked \<and> cx_terminalResult current \<noteq> Some terminalResult
      then throw (TypeError ''terminal result is immutable'')
      else rbind (assertReceiptOutboxForExecution P current terminalResult outbox) (\<lambda>_.
        replaceCommandExecutionTransition P s commandId
          (current\<lparr>cx_state := Terminal, cx_terminalResult := Some terminalResult,
            cx_receiptOutbox := Some \<lparr>ob_state = Outbox_pending,
              ob_canonicalBody = oi_canonicalBody outbox,
              ob_receiptDigest = oi_receiptDigest outbox\<rparr>\<rparr>)))"

datatype outbox_outcome = Acknowledged | Undeliverable

fun outcome_state :: "outbox_outcome \<Rightarrow> outbox_state" where
  "outcome_state Acknowledged = Outbox_acknowledged"
| "outcome_state Undeliverable = Outbox_undeliverable"

definition markCommandReceiptOutboxTransition ::
  "wire_port \<Rightarrow> bridge_state \<Rightarrow> jsstring \<Rightarrow> outbox_outcome \<Rightarrow> command_execution transition" where
  "markCommandReceiptOutboxTransition P s commandId outcome =
    rbind (requireCommandExecution s commandId) (\<lambda>current.
      case cx_receiptOutbox current of
        None \<Rightarrow> throw (TypeError ''command receipt outbox cannot transition from its current state'')
      | Some ob \<Rightarrow>
          if cx_state current \<noteq> Terminal \<or> ob_state ob \<noteq> Outbox_pending
          then throw (TypeError ''command receipt outbox cannot transition from its current state'')
          else replaceCommandExecutionTransition P s commandId
            (current\<lparr>cx_receiptOutbox := Some (ob\<lparr>ob_state := outcome_state outcome\<rparr>)\<rparr>))"

subsection \<open>Retention\<close>

definition clockSkewMs :: int where
  "clockSkewMs = 300000"

definition COMMAND_RECEIPT_RETENTION_MS :: int where
  "COMMAND_RECEIPT_RETENTION_MS = 30 * 24 * 60 * 60 * 1000"

definition addMilliseconds :: "jsstring \<Rightarrow> int \<Rightarrow> jsstring result" where
  "addMilliseconds timestamp durationMs =
    (if \<not> is_canonical_timestamp timestamp then throw (TypeError ''timestamp is invalid'')
     else case date_parse timestamp of
       None \<Rightarrow> throw (TypeError ''timestamp is invalid'')
     | Some t \<Rightarrow> to_iso_string (t + durationMs))"

fun unfinished :: "execution_state \<Rightarrow> bool" where
  "unfinished Claimed = True"
| "unfinished Dispatch_started = True"
| "unfinished Outcome_unknown = True"
| "unfinished Terminal_receipt_blocked = False"
| "unfinished Terminal = False"

definition commandExecutionRetainedThrough :: "command_execution \<Rightarrow> jsstring result" where
  "commandExecutionRetainedThrough x =
    (if unfinished (cx_state x) then addMilliseconds (cx_expiresAt x) clockSkewMs
     else case cx_terminalResult x of
       None \<Rightarrow> throw (TypeError ''terminal command execution retention is noncanonical'')
     | Some r \<Rightarrow> addMilliseconds (cr_updatedAt r) COMMAND_RECEIPT_RETENTION_MS)"

text \<open>The filter stops at the first entry whose retention cannot be computed.\<close>

fun prune_eligible ::
  "(jsstring, command_execution) object \<Rightarrow> jsstring \<Rightarrow> (jsstring, command_execution) object result" where
  "prune_eligible [] now = ok []"
| "prune_eligible ((k, x) # es) now =
    rbind (commandExecutionRetainedThrough x) (\<lambda>through.
      rbind (prune_eligible es now) (\<lambda>rest.
        ok (if through < now then (k, x) # rest else rest)))"

definition pruneEligibleCommandExecutionsTransition ::
  "bridge_state \<Rightarrow> jsstring \<Rightarrow> command_execution list transition" where
  "pruneEligibleCommandExecutionsTransition s now =
    (if \<not> is_canonical_timestamp now then throw (TypeError ''command execution prune clock is invalid'')
     else rbind (prune_eligible (bs_commandExecutions s) now) (\<lambda>eligible.
       if eligible = [] then ok (Same, [])
       else ok (New (s\<lparr>bs_commandExecutions :=
              foldl (\<lambda>m k. odel k m) (bs_commandExecutions s) (map fst eligible)\<rparr>), map snd eligible)))"

subsection \<open>Key pins\<close>

text \<open>The resolver is the link keyring's \<open>resolvePinReference\<close>.\<close>

fun validate_pins ::
  "command_execution list \<Rightarrow> (jsstring \<Rightarrow> int \<Rightarrow> int \<Rightarrow> pin_reference option) \<Rightarrow> bool \<Rightarrow> unit result" where
  "validate_pins [] resolver allow = ok ()"
| "validate_pins (x # xs) resolver allow =
    (let expected = cx_pinReference x;
         actual = resolver (pin_linkId expected) (pin_linkGeneration expected) (pin_epoch expected)
     in if actual = None \<and> allow
           \<and> (cx_state x = Terminal_receipt_blocked \<or> cx_state x = Terminal)
        then validate_pins xs resolver allow
        else if actual \<noteq> Some expected
        then throw (PlainError ''Bridge runtime command execution pin reference is unavailable or inconsistent'')
        else validate_pins xs resolver allow)"

definition validateCommandExecutionPinsState ::
  "bridge_state \<Rightarrow> (jsstring \<Rightarrow> int \<Rightarrow> int \<Rightarrow> pin_reference option) \<Rightarrow> bool \<Rightarrow> unit result" where
  "validateCommandExecutionPinsState s resolver allowUnavailableForTerminal =
    validate_pins (ovalues (bs_commandExecutions s)) resolver allowUnavailableForTerminal"

datatype retention_category =
    Execution_retained | Terminal_receipt_retained | Pending_outbox_retained
  | Undeliverable_outbox_retained

definition commandExecutionRetentionCategory :: "command_execution \<Rightarrow> retention_category" where
  "commandExecutionRetentionCategory x =
    (if unfinished (cx_state x) then Execution_retained
     else if cx_state x = Terminal_receipt_blocked then Terminal_receipt_retained
     else case map_option ob_state (cx_receiptOutbox x) of
       Some Outbox_pending \<Rightarrow> Pending_outbox_retained
     | Some Outbox_undeliverable \<Rightarrow> Undeliverable_outbox_retained
     | _ \<Rightarrow> Terminal_receipt_retained)"

definition laterCanonicalTimestamp :: "jsstring option \<Rightarrow> jsstring \<Rightarrow> jsstring" where
  "laterCanonicalTimestamp left right =
    (case left of Some l \<Rightarrow> if l \<noteq> [] \<and> right < l then l else right | None \<Rightarrow> right)"

definition pin_key :: "pin_reference \<Rightarrow> jsstring" where
  "pin_key p = pin_linkId p @ js '':'' @ num_string (pin_linkGeneration p) @ js '':'' @ num_string (pin_epoch p)"

type_synonym pin_references = "(retention_category, (jsstring, jsstring) object) object"

fun retention_references :: "command_execution list \<Rightarrow> pin_references \<Rightarrow> pin_references result" where
  "retention_references [] references = ok references"
| "retention_references (x # xs) references =
    rbind (commandExecutionRetainedThrough x) (\<lambda>retainThrough.
      (let category = commandExecutionRetentionCategory x;
           key = pin_key (cx_pinReference x);
           values = opt_object (oget references category)
       in retention_references xs
            (oput category (oput key (laterCanonicalTimestamp (oget values key) retainThrough) values)
              references)))"

definition readCommandExecutionPinRetentionReferences :: "bridge_state \<Rightarrow> pin_references result" where
  "readCommandExecutionPinRetentionReferences s =
    retention_references (ovalues (bs_commandExecutions s)) []"

end
