(* ===== verification/Session_Transitions.thy ===== *)
theory Session_Transitions
  imports Bridge_State
begin

section \<open>Session, driver, handle and revision transitions\<close>

text \<open>
  The transitions of \<open>state-store/session-transitions.ts\<close>. \<open>lc\<close> is the runtime's
  \<open>String.prototype.localeCompare\<close>. A session patch (\<open>Partial<CanonicalSessionState>\<close>) has a
  \<open>Some\<close> for each property it carries; the optional properties may be carried as \<open>undefined\<close>.
\<close>

subsection \<open>Bounded recent events\<close>

definition MAX_RECENT_EVENTS :: nat where
  "MAX_RECENT_EVENTS = 200"

definition sessionHandleKey :: "jsstring \<Rightarrow> jsstring \<Rightarrow> jsstring" where
  "sessionHandleKey hostId sessionId = hostId @ js '':'' @ sessionId"

definition handle_cursor :: "pending_handle \<Rightarrow> jsstring" where
  "handle_cursor h = (case ph_handledThroughEventCreatedAt h of Some t \<Rightarrow> t | None \<Rightarrow> ph_handledAt h)"

definition comparePendingHandles ::
  "(jsstring \<Rightarrow> jsstring \<Rightarrow> int) \<Rightarrow> pending_handle \<Rightarrow> pending_handle \<Rightarrow> int" where
  "comparePendingHandles lc left right =
    (let cursorCompare = lc (handle_cursor left) (handle_cursor right);
         eventCompare = lc (ph_handledThroughEventId left) (ph_handledThroughEventId right)
     in if cursorCompare \<noteq> 0 then cursorCompare
        else if eventCompare \<noteq> 0 then eventCompare
        else lc (ph_updatedAt left) (ph_updatedAt right))"

text \<open>\<open>events.filter((e, i) => events.findIndex(c => c.eventId === e.eventId) === i)\<close>: the first
  event of each id.\<close>

fun first_by_id :: "canonical_event list \<Rightarrow> canonical_event list" where
  "first_by_id [] = []"
| "first_by_id (e # es) = e # filter (\<lambda>c. ev_eventId c \<noteq> ev_eventId e) (first_by_id es)"

definition protected_ids :: "(jsstring, pending_handle) object \<Rightarrow> jsstring set" where
  "protected_ids handles = set (map ph_handledThroughEventId (ovalues handles))"

definition retainRecentEvents ::
  "(jsstring \<Rightarrow> jsstring \<Rightarrow> int) \<Rightarrow> canonical_event list \<Rightarrow> (jsstring, pending_handle) object
    \<Rightarrow> canonical_event list" where
  "retainRecentEvents lc events handles =
    (let unique = first_by_id events;
         retainedProtected = filter (\<lambda>e. ev_eventId e \<in> protected_ids handles) unique;
         available = MAX_RECENT_EVENTS - length retainedProtected
     in js_sort (\<lambda>left right. lc (ev_createdAt right) (ev_createdAt left))
          (retainedProtected
            @ take available (filter (\<lambda>e. ev_eventId e \<notin> protected_ids handles) unique)))"

subsection \<open>Sessions and drivers\<close>

definition bind_sessions ::
  "jsstring \<Rightarrow> canonical_session list \<Rightarrow> bridge_state \<Rightarrow> bridge_state" where
  "bind_sessions driverName sessions s = s\<lparr>
    bs_sessions := foldl (\<lambda>m c. oput (cs_sessionId c) c m) (bs_sessions s) sessions,
    bs_sessionDrivers := foldl (\<lambda>m c. oput (cs_sessionId c) driverName m) (bs_sessionDrivers s) sessions\<rparr>"

definition unbind_sessions :: "jsstring list \<Rightarrow> bridge_state \<Rightarrow> bridge_state" where
  "unbind_sessions ids s = s\<lparr>
    bs_sessions := foldl (\<lambda>m k. odel k m) (bs_sessions s) ids,
    bs_sessionDrivers := foldl (\<lambda>m k. odel k m) (bs_sessionDrivers s) ids\<rparr>"

definition replaceDriverSessionsTransition ::
  "bridge_state \<Rightarrow> jsstring \<Rightarrow> canonical_session list \<Rightarrow> unit transition" where
  "replaceDriverSessionsTransition s driverName sessions =
    (let nextIds = set (map cs_sessionId sessions);
         stale = map fst (filter (\<lambda>(sessionId, registeredDriver).
                   registeredDriver = driverName \<and> sessionId \<notin> nextIds) (bs_sessionDrivers s));
         s1 = bind_sessions driverName sessions (unbind_sessions stale s)
     in ok (New (s1\<lparr>bs_reconciledDrivers := oput driverName () (bs_reconciledDrivers s1)\<rparr>), ()))"

definition setSessionDriverTransition ::
  "bridge_state \<Rightarrow> jsstring \<Rightarrow> jsstring \<Rightarrow> canonical_session option \<Rightarrow> unit transition" where
  "setSessionDriverTransition s sessionId driverName given =
    (case (case given of Some c \<Rightarrow> Some c | None \<Rightarrow> oget (bs_sessions s) sessionId) of
       None \<Rightarrow> throw (TypeError ''Session driver requires its canonical Session'')
     | Some c \<Rightarrow>
         if cs_sessionId c \<noteq> sessionId
             \<or> (cs_provider c \<noteq> driverName \<and> driverName \<noteq> js ''agent-adapter'')
         then throw (TypeError ''Session driver requires its canonical Session'')
         else ok (New (s\<lparr>bs_sessions := oput sessionId c (bs_sessions s),
                         bs_sessionDrivers := oput sessionId driverName (bs_sessionDrivers s)\<rparr>), ()))"

definition removeSessionTransition ::
  "bridge_state \<Rightarrow> jsstring \<Rightarrow> jsstring option \<Rightarrow> bool transition" where
  "removeSessionTransition s sessionId expectedDriverName =
    (let driverName = oget (bs_sessionDrivers s) sessionId;
         existed = oget (bs_sessions s) sessionId \<noteq> None \<or> driverName \<noteq> None
     in if expectedDriverName \<noteq> None \<and> driverName \<noteq> expectedDriverName then ok (Same, False)
        else if \<not> existed then ok (Same, False)
        else ok (New (s\<lparr>bs_sessions := odel sessionId (bs_sessions s),
                        bs_sessionDrivers := odel sessionId (bs_sessionDrivers s),
                        bs_producerEventCheckpoints :=
                          map_option (odel sessionId) (bs_producerEventCheckpoints s)\<rparr>), True))"

definition removeSessionDriverTransition :: "bridge_state \<Rightarrow> jsstring \<Rightarrow> unit transition" where
  "removeSessionDriverTransition s sessionId =
    (if oget (bs_sessionDrivers s) sessionId = None then ok (Same, ())
     else ok (New (s\<lparr>bs_sessionDrivers := odel sessionId (bs_sessionDrivers s)\<rparr>), ()))"

record session_patch =
  sp_sessionId :: "jsstring option"
  sp_hostId :: "jsstring option"
  sp_provider :: "jsstring option"
  sp_projectName :: "jsstring option"
  sp_nameText :: "jsstring option"
  sp_openingText :: "jsstring option option"
  sp_latestActivityText :: "jsstring option option"
  sp_workingDirectory :: "jsstring option option"
  sp_harnessProvider :: "jsstring option option"
  sp_status :: "session_status option"
  sp_updatedAt :: "jsstring option"
  sp_lastEventId :: "jsstring option option"
  sp_snoozedUntil :: "jsstring option option"

definition or_current :: "'a option \<Rightarrow> 'a \<Rightarrow> 'a" where
  "or_current patch current = (case patch of Some v \<Rightarrow> v | None \<Rightarrow> current)"

definition patch_session :: "canonical_session \<Rightarrow> session_patch \<Rightarrow> canonical_session" where
  "patch_session c p = \<lparr>
    cs_sessionId = or_current (sp_sessionId p) (cs_sessionId c),
    cs_hostId = or_current (sp_hostId p) (cs_hostId c),
    cs_provider = or_current (sp_provider p) (cs_provider c),
    cs_projectName = or_current (sp_projectName p) (cs_projectName c),
    cs_nameText = or_current (sp_nameText p) (cs_nameText c),
    cs_openingText = or_current (sp_openingText p) (cs_openingText c),
    cs_latestActivityText = or_current (sp_latestActivityText p) (cs_latestActivityText c),
    cs_workingDirectory = or_current (sp_workingDirectory p) (cs_workingDirectory c),
    cs_harnessProvider = or_current (sp_harnessProvider p) (cs_harnessProvider c),
    cs_status = or_current (sp_status p) (cs_status c),
    cs_updatedAt = or_current (sp_updatedAt p) (cs_updatedAt c),
    cs_lastEventId = or_current (sp_lastEventId p) (cs_lastEventId c),
    cs_snoozedUntil = or_current (sp_snoozedUntil p) (cs_snoozedUntil c)\<rparr>"

definition updateSessionTransition ::
  "bridge_state \<Rightarrow> jsstring \<Rightarrow> session_patch \<Rightarrow> canonical_session option transition" where
  "updateSessionTransition s sessionId patch =
    (case oget (bs_sessions s) sessionId of
       None \<Rightarrow> ok (Same, None)
     | Some current \<Rightarrow>
         (let nextSession = patch_session current patch
          in ok (New (s\<lparr>bs_sessions := oput sessionId nextSession (bs_sessions s)\<rparr>), Some nextSession)))"

subsection \<open>Pending handles\<close>

definition find_event :: "canonical_event list \<Rightarrow> jsstring \<Rightarrow> canonical_event option" where
  "find_event events eventId = find (\<lambda>e. ev_eventId e = eventId) events"

definition queuePendingSessionHandleTransition ::
  "(jsstring \<Rightarrow> jsstring \<Rightarrow> int) \<Rightarrow> bridge_state \<Rightarrow> pending_handle \<Rightarrow> unit transition" where
  "queuePendingSessionHandleTransition lc s handle =
    (case find_event (bs_recentEvents s) (ph_handledThroughEventId handle) of
       None \<Rightarrow> throw (TypeError ''handledThroughEventId must reference a durable Event for the same Host and Session'')
     | Some event \<Rightarrow>
         if ev_hostId event \<noteq> ph_hostId handle \<or> ev_sessionId event \<noteq> ph_sessionId handle
         then throw (TypeError ''handledThroughEventId must reference a durable Event for the same Host and Session'')
         else if ph_handledThroughEventCreatedAt handle \<noteq> None
             \<and> ph_handledThroughEventCreatedAt handle \<noteq> Some (ev_createdAt event)
         then throw (TypeError ''handledThroughEventCreatedAt does not match the durable Event'')
         else
           (let boundHandle = handle\<lparr>ph_handledThroughEventCreatedAt := Some (ev_createdAt event)\<rparr>;
                key = sessionHandleKey (ph_hostId boundHandle) (ph_sessionId boundHandle);
                older = (case oget (bs_pendingHandles s) key of
                           None \<Rightarrow> False
                         | Some current \<Rightarrow> comparePendingHandles lc boundHandle current < 0);
                handles = oput key boundHandle (bs_pendingHandles s)
            in if older
               then throw (TypeError ''handledThroughEventId is older than the pending durable cursor'')
               else ok (New (s\<lparr>bs_pendingHandles := handles,
                               bs_recentEvents := retainRecentEvents lc (bs_recentEvents s) handles\<rparr>), ())))"

text \<open>An empty \<open>handledThroughEventId\<close> is falsy and selects nothing.\<close>

definition removePendingSessionHandleTransition ::
  "bridge_state \<Rightarrow> jsstring \<Rightarrow> jsstring \<Rightarrow> jsstring option \<Rightarrow> unit transition" where
  "removePendingSessionHandleTransition s hostId sessionId handledThroughEventId =
    (let key = sessionHandleKey hostId sessionId
     in case oget (bs_pendingHandles s) key of
          None \<Rightarrow> ok (Same, ())
        | Some current \<Rightarrow>
            if handledThroughEventId \<noteq> None \<and> handledThroughEventId \<noteq> Some []
                \<and> handledThroughEventId \<noteq> Some (ph_handledThroughEventId current)
            then ok (Same, ())
            else ok (New (s\<lparr>bs_pendingHandles := odel key (bs_pendingHandles s)\<rparr>), ()))"

subsection \<open>Session revisions\<close>

definition readCurrentSessionRevision :: "bridge_state \<Rightarrow> jsstring \<Rightarrow> int" where
  "readCurrentSessionRevision s sessionId =
    (case oget (bs_sessionRevisions s) sessionId of Some r \<Rightarrow> r | None \<Rightarrow> 0)"

definition readNextSessionRevision :: "bridge_state \<Rightarrow> jsstring \<Rightarrow> int" where
  "readNextSessionRevision s sessionId = readCurrentSessionRevision s sessionId + 1"

definition commitSessionRevisionTransition ::
  "bridge_state \<Rightarrow> jsstring \<Rightarrow> int \<Rightarrow> unit transition" where
  "commitSessionRevisionTransition s sessionId revision =
    (let current = readCurrentSessionRevision s sessionId
     in if revision = current then ok (Same, ())
        else if revision \<noteq> current + 1 then throw (TypeError ''session revision must advance monotonically'')
        else ok (New (s\<lparr>bs_sessionRevisions := oput sessionId revision (bs_sessionRevisions s)\<rparr>), ()))"

end
