(* ===== verification/Event_Transitions.thy ===== *)
theory Event_Transitions
  imports Session_Transitions
begin

section \<open>Recent events, producer reservations and checkpoints\<close>

text \<open>
  The transitions of \<open>state-store/event-transitions.ts\<close>, the bound of 200 reservations
  (\<open>Object.entries(...).slice(-200)\<close>: the 200 youngest entries, in insertion order) and the
  check that binds an event to its session (\<open>state-codec.ts\<close>).
\<close>

definition sameEventCompletion :: "event_completion \<Rightarrow> event_completion \<Rightarrow> bool" where
  "sameEventCompletion left right \<longleftrightarrow>
    ec_eventId left = ec_eventId right \<and> ec_sessionId left = ec_sessionId right
    \<and> ec_revision left = ec_revision right \<and> ec_eventContentId left = ec_eventContentId right
    \<and> ec_sessionContentId left = ec_sessionContentId right"

definition appendRecentEventTransition ::
  "(jsstring \<Rightarrow> jsstring \<Rightarrow> int) \<Rightarrow> bridge_state \<Rightarrow> canonical_event \<Rightarrow> unit transition" where
  "appendRecentEventTransition lc s event =
    ok (New (s\<lparr>bs_recentEvents :=
      retainRecentEvents lc (event # bs_recentEvents s) (bs_pendingHandles s)\<rparr>), ())"

definition isNewerTerminalSession ::
  "(jsstring \<Rightarrow> jsstring \<Rightarrow> int) \<Rightarrow> canonical_session \<Rightarrow> canonical_session \<Rightarrow> bool" where
  "isNewerTerminalSession lc current pending =
    (if cs_lastEventId current = None \<or> cs_lastEventId current = Some []
        \<or> cs_lastEventId current = cs_lastEventId pending then False
     else 0 \<le> lc (cs_updatedAt current) (cs_updatedAt pending))"

definition last_entries :: "nat \<Rightarrow> 'a list \<Rightarrow> 'a list" where
  "last_entries n xs = drop (length xs - n) xs"

definition add_reservation ::
  "producer_reservation \<Rightarrow> (jsstring, producer_reservation) object option
    \<Rightarrow> (jsstring, producer_reservation) object option" where
  "add_reservation r reservations = Some (last_entries 200
    (oput (producerReservationKey (pr_sessionId r) (pr_fingerprint r)) r (opt_object reservations)))"

definition reservation_conflicts :: "producer_reservation option \<Rightarrow> producer_reservation \<Rightarrow> bool" where
  "reservation_conflicts existing r = (case existing of
     None \<Rightarrow> False
   | Some e \<Rightarrow> pr_eventId e \<noteq> pr_eventId r \<or> pr_createdAt e \<noteq> pr_createdAt r)"

definition find_reservation :: "bridge_state \<Rightarrow> producer_reservation \<Rightarrow> producer_reservation option" where
  "find_reservation s r = oget (opt_object (bs_producerEventReservations s))
    (producerReservationKey (pr_sessionId r) (pr_fingerprint r))"

definition reserveProducerEventTransition ::
  "bridge_state \<Rightarrow> producer_reservation \<Rightarrow> unit transition" where
  "reserveProducerEventTransition s reservation =
    (let existing = find_reservation s reservation
     in if reservation_conflicts existing reservation
        then throw (TypeError ''producer Event reservation conflict'')
        else if existing \<noteq> None then ok (Same, ())
        else ok (New (s\<lparr>bs_producerEventReservations :=
               add_reservation reservation (bs_producerEventReservations s)\<rparr>), ()))"

definition reserveProducerEventWithCheckpointTransition ::
  "bridge_state \<Rightarrow> producer_reservation \<Rightarrow> source_checkpoint \<Rightarrow> unit transition" where
  "reserveProducerEventWithCheckpointTransition s reservation checkpoint =
    (let existing = find_reservation s reservation;
         reservations = (if existing = None
           then add_reservation reservation (bs_producerEventReservations s)
           else bs_producerEventReservations s)
     in if ck_sessionId checkpoint \<noteq> pr_sessionId reservation
        then throw (TypeError ''producer Event checkpoint session mismatch'')
        else if reservation_conflicts existing reservation
        then throw (TypeError ''producer Event reservation conflict'')
        else ok (New (s\<lparr>bs_producerEventReservations := reservations,
               bs_producerEventCheckpoints := Some (oput (ck_sessionId checkpoint) checkpoint
                 (opt_object (bs_producerEventCheckpoints s)))\<rparr>), ()))"

definition assertEventSessionBinding :: "canonical_event \<Rightarrow> canonical_session \<Rightarrow> unit result" where
  "assertEventSessionBinding event session =
    (if ev_hostId event \<noteq> cs_hostId session \<or> ev_sessionId event \<noteq> cs_sessionId session
        \<or> ev_provider event \<noteq> cs_provider session
        \<or> event_status (ev_body event) \<noteq> cs_status session
        \<or> cs_lastEventId session \<noteq> Some (ev_eventId event)
     then throw (TypeError ''pending Event requires its corresponding terminal Session snapshot'')
     else ok ())"

end
