(* ===== verification/Publication.thy ===== *)
theory Publication
  imports Bridge_State
begin

section \<open>Publication of the current Sessions\<close>

text \<open>
  The transitions of \<open>state-store/current-sessions-transitions.ts\<close>: the host-wide revision of
  the current-Sessions snapshot is allocated, accepted and bounded from below, and the version of
  the recipient set only grows. Then the invariant of the publication fields that loading a state
  checks (\<open>assertCurrentPublicationRelationships\<close>, and the order of the two revisions, a part of
  \<open>isCurrentSnapshot\<close>), which every transition keeps.
\<close>

record replace_sessions_request =
  rq_hostId :: jsstring
  rq_revision :: int
  rq_observedAt :: jsstring
  rq_recipientSetVersion :: int
  rq_sessions :: "(jsstring \<times> int) list"

record publication_parameters =
  pp_hostId :: jsstring
  pp_contentDigest :: jsstring
  pp_recipientSetVersion :: int
  pp_observedAt :: jsstring
  pp_minimumRevision :: int

record publication_result =
  pb_request :: replace_sessions_request
  pb_contentDigest :: jsstring

definition createCurrentSessionsPublicationTransition ::
  "bridge_state \<Rightarrow> publication_parameters \<Rightarrow> publication_result option transition" where
  "createCurrentSessionsPublicationTransition s p =
    (let current = bs_currentSessionsSnapshot s;
         revision = max (max (sn_lastAllocatedRevision current + 1) (sn_lastAcceptedRevision current + 1))
           (pp_minimumRevision p);
         request = \<lparr>rq_hostId = pp_hostId p, rq_revision = revision, rq_observedAt = pp_observedAt p,
           rq_recipientSetVersion = pp_recipientSetVersion p, rq_sessions = []\<rparr>
     in if sn_lastAcceptedContentDigest current = Some (pp_contentDigest p)
           \<and> sn_lastAcceptedRecipientSetVersion current = Some (pp_recipientSetVersion p)
           \<and> pp_minimumRevision p \<le> sn_lastAcceptedRevision current
        then ok (Same, None)
        else ok (New (s\<lparr>bs_currentSessionsSnapshot := current\<lparr>sn_lastAllocatedRevision := revision\<rparr>\<rparr>),
          Some \<lparr>pb_request = request, pb_contentDigest = pp_contentDigest p\<rparr>))"

definition acceptCurrentSessionsPublicationTransition ::
  "bridge_state \<Rightarrow> replace_sessions_request \<Rightarrow> jsstring \<Rightarrow> jsstring \<Rightarrow> bool transition" where
  "acceptCurrentSessionsPublicationTransition s request digest contentDigest =
    (let current = bs_currentSessionsSnapshot s
     in if bs_recipientSetVersion s \<noteq> Some (rq_recipientSetVersion request)
        then throw (TypeError ''current Sessions publication recipient set is not locally committed'')
        else if rq_revision request < sn_lastAcceptedRevision current then ok (Same, False)
        else ok (New (s\<lparr>bs_currentSessionsSnapshot := \<lparr>
            sn_lastAllocatedRevision = max (sn_lastAllocatedRevision current) (rq_revision request),
            sn_lastAcceptedRevision = max (sn_lastAcceptedRevision current) (rq_revision request),
            sn_lastAcceptedDigest = Some digest,
            sn_lastAcceptedContentDigest = Some contentDigest,
            sn_lastAcceptedRecipientSetVersion = Some (rq_recipientSetVersion request)\<rparr>\<rparr>), True))"

definition noteCurrentSessionsSnapshotRevisionLowerBoundTransition ::
  "bridge_state \<Rightarrow> int \<Rightarrow> unit transition" where
  "noteCurrentSessionsSnapshotRevisionLowerBoundTransition s revision =
    (let current = bs_currentSessionsSnapshot s;
         nextAllocated = max (sn_lastAllocatedRevision current) revision
     in if nextAllocated = sn_lastAllocatedRevision current then ok (Same, ())
        else ok (New (s\<lparr>bs_currentSessionsSnapshot :=
               current\<lparr>sn_lastAllocatedRevision := nextAllocated\<rparr>\<rparr>), ()))"

definition setRecipientSetVersionTransition :: "bridge_state \<Rightarrow> int \<Rightarrow> unit transition" where
  "setRecipientSetVersionTransition s version =
    (if \<not> is_safe_integer version \<or> version < 1
        \<or> (case bs_recipientSetVersion s of Some v \<Rightarrow> version < v | None \<Rightarrow> False)
     then throw (TypeError ''recipient set version rollback rejected'')
     else ok (New (s\<lparr>bs_recipientSetVersion := Some version\<rparr>), ()))"

fun version_at_most :: "int option \<Rightarrow> int option \<Rightarrow> bool" where
  "version_at_most (Some a) (Some v) \<longleftrightarrow> a \<le> v"
| "version_at_most _ _ \<longleftrightarrow> False"

lemma version_at_most_iff: "version_at_most a v \<longleftrightarrow> (\<exists>x y. a = Some x \<and> v = Some y \<and> x \<le> y)"
  by (cases a; cases v) auto

definition publication_related :: "bridge_state \<Rightarrow> bool" where
  "publication_related s \<longleftrightarrow>
    (let snapshot = bs_currentSessionsSnapshot s
     in if sn_lastAcceptedRevision snapshot = 0
        then sn_lastAcceptedDigest snapshot = None \<and> sn_lastAcceptedContentDigest snapshot = None
          \<and> sn_lastAcceptedRecipientSetVersion snapshot = None
        else sn_lastAcceptedDigest snapshot \<noteq> None \<and> sn_lastAcceptedContentDigest snapshot \<noteq> None
          \<and> version_at_most (sn_lastAcceptedRecipientSetVersion snapshot) (bs_recipientSetVersion s))"

definition assertCurrentPublicationRelationships :: "bridge_state \<Rightarrow> unit result" where
  "assertCurrentPublicationRelationships s =
    (if publication_related s then ok ()
     else throw (PlainError ''Bridge runtime current publication binding is invalid''))"

text \<open>The part of \<open>isCurrentSnapshot\<close> that relates the two revisions.\<close>

definition snapshot_ordered :: "bridge_state \<Rightarrow> bool" where
  "snapshot_ordered s \<longleftrightarrow> (let snapshot = bs_currentSessionsSnapshot s
    in 0 \<le> sn_lastAcceptedRevision snapshot
      \<and> sn_lastAcceptedRevision snapshot \<le> sn_lastAllocatedRevision snapshot)"

definition publication_inv :: "bridge_state \<Rightarrow> bool" where
  "publication_inv s \<longleftrightarrow> publication_related s \<and> snapshot_ordered s"

lemmas publication_defs = publication_inv_def publication_related_def snapshot_ordered_def Let_def

lemma publication_inv_cong:
  "bs_currentSessionsSnapshot s' = bs_currentSessionsSnapshot s
    \<Longrightarrow> bs_recipientSetVersion s' = bs_recipientSetVersion s \<Longrightarrow> publication_inv s' = publication_inv s"
  by (simp add: publication_defs)

lemma publication_inv_create:
  assumes "publication_inv s"
    and "createCurrentSessionsPublicationTransition s p = Inr (n, r)"
  shows "publication_inv (resulting s n)"
  using assms
  by (auto simp: createCurrentSessionsPublicationTransition_def publication_defs split: if_splits)

lemma publication_inv_accept:
  assumes "publication_inv s" and "0 < rq_revision request"
    and "acceptCurrentSessionsPublicationTransition s request d c = Inr (n, r)"
  shows "publication_inv (resulting s n)"
  using assms
  by (auto simp: acceptCurrentSessionsPublicationTransition_def publication_defs version_at_most_iff
      split: if_splits)

lemma publication_inv_note:
  assumes "publication_inv s"
    and "noteCurrentSessionsSnapshotRevisionLowerBoundTransition s revision = Inr (n, r)"
  shows "publication_inv (resulting s n)"
  using assms
  by (auto simp: noteCurrentSessionsSnapshotRevisionLowerBoundTransition_def publication_defs
      split: if_splits)

lemma publication_inv_recipients:
  assumes "publication_inv s" and "setRecipientSetVersionTransition s version = Inr (n, r)"
  shows "publication_inv (resulting s n)"
  using assms
  by (auto simp: setRecipientSetVersionTransition_def publication_defs
      version_at_most_iff split: if_splits option.splits)

end
