(* ===== verification/Host_Health.thy ===== *)
theory Host_Health
  imports Bridge_State
begin

section \<open>The Host projection and the runtime health\<close>

text \<open>
  The transitions of \<open>state-store/host-health-transitions.ts\<close> and the part of
  \<open>isCurrentRuntimeHealth\<close> (\<open>state-codec.ts\<close>) that relates the fields of a health record: one
  entry per driver, a positive count in each, and the status \<open>degraded\<close> exactly when a driver or
  the relay presence is failing. The values the codec demands besides (at most 32 drivers, ids and
  times), which the transitions do not enforce, are in \<open>State_Record\<close>.
\<close>

definition emptyRuntimeHealth :: runtime_health where
  "emptyRuntimeHealth = \<lparr>rh_status = Healthy, rh_drivers = [], rh_relayPresence = None\<rparr>"

definition sanitizePersistedHost :: "host_projection option \<Rightarrow> host_projection option" where
  "sanitizePersistedHost host = map_option (\<lambda>h. h\<lparr>hp_claimCode := None,
    hp_claimCodeExpiresAt := None, hp_ownerUserId := None\<rparr>) host"

definition current_health :: "bridge_state \<Rightarrow> runtime_health" where
  "current_health s = (case bs_runtimeHealth s of Some h \<Rightarrow> h | None \<Rightarrow> emptyRuntimeHealth)"

definition compare_drivers :: "(jsstring \<Rightarrow> jsstring \<Rightarrow> int) \<Rightarrow> driver_health \<Rightarrow> driver_health \<Rightarrow> int" where
  "compare_drivers lc left right = lc (dh_driver left) (dh_driver right)"

definition readRuntimeHealth :: "(jsstring \<Rightarrow> jsstring \<Rightarrow> int) \<Rightarrow> bridge_state \<Rightarrow> runtime_health" where
  "readRuntimeHealth lc s = (let health = current_health s
    in health\<lparr>rh_drivers := js_sort (compare_drivers lc) (rh_drivers health)\<rparr>)"

definition setHostTransition :: "bridge_state \<Rightarrow> host_projection \<Rightarrow> unit transition" where
  "setHostTransition s host = ok (New (s\<lparr>bs_host := sanitizePersistedHost (Some host)\<rparr>), ())"

definition find_driver :: "runtime_health \<Rightarrow> jsstring \<Rightarrow> driver_health option" where
  "find_driver health driver = find (\<lambda>item. dh_driver item = driver) (rh_drivers health)"

definition other_drivers :: "runtime_health \<Rightarrow> jsstring \<Rightarrow> driver_health list" where
  "other_drivers health driver = filter (\<lambda>item. dh_driver item \<noteq> driver) (rh_drivers health)"

definition recordDriverReconciliationFailureTransition ::
  "(jsstring \<Rightarrow> jsstring \<Rightarrow> int) \<Rightarrow> bridge_state \<Rightarrow> jsstring \<Rightarrow> jsstring \<Rightarrow> jsstring
    \<Rightarrow> driver_health transition" where
  "recordDriverReconciliationFailureTransition lc s driver seenAt nextRetryAt =
    (let health = current_health s;
         degradation = (case find_driver health driver of
             Some existing \<Rightarrow> existing\<lparr>dh_count := dh_count existing + 1, dh_lastSeenAt := seenAt,
               dh_nextRetryAt := nextRetryAt\<rparr>
           | None \<Rightarrow> \<lparr>dh_driver = driver, dh_count = 1, dh_firstSeenAt = seenAt,
               dh_lastSeenAt = seenAt, dh_lastSuccessAt = None, dh_nextRetryAt = nextRetryAt\<rparr>);
         drivers = js_sort (compare_drivers lc) (other_drivers health driver @ [degradation])
     in ok (New (s\<lparr>bs_runtimeHealth := Some (health\<lparr>rh_drivers := drivers, rh_status := Degraded\<rparr>)\<rparr>),
          degradation))"

definition recordDriverReconciliationSuccessTransition ::
  "bridge_state \<Rightarrow> jsstring \<Rightarrow> int option transition" where
  "recordDriverReconciliationSuccessTransition s driver =
    (let health = current_health s
     in case find_driver health driver of
          None \<Rightarrow> ok (Same, None)
        | Some recovered \<Rightarrow>
            (let drivers = other_drivers health driver;
                 status = (if 0 < length drivers \<or> rh_relayPresence health \<noteq> None
                           then Degraded else Healthy)
             in ok (New (s\<lparr>bs_runtimeHealth :=
                    Some (health\<lparr>rh_drivers := drivers, rh_status := status\<rparr>)\<rparr>),
                  Some (dh_count recovered))))"

definition recordRelayPresenceFailureTransition ::
  "bridge_state \<Rightarrow> jsstring \<Rightarrow> jsstring \<Rightarrow> unit transition" where
  "recordRelayPresenceFailureTransition s seenAt nextRetryAt =
    (let health = current_health s;
         presence = (case rh_relayPresence health of
             Some existing \<Rightarrow> existing\<lparr>rp_count := rp_count existing + 1, rp_lastSeenAt := seenAt,
               rp_nextRetryAt := nextRetryAt\<rparr>
           | None \<Rightarrow> \<lparr>rp_count = 1, rp_firstSeenAt = seenAt, rp_lastSeenAt = seenAt,
               rp_lastSuccessAt = None, rp_nextRetryAt = nextRetryAt\<rparr>)
     in ok (New (s\<lparr>bs_runtimeHealth :=
          Some (health\<lparr>rh_relayPresence := Some presence, rh_status := Degraded\<rparr>)\<rparr>), ()))"

definition recordRelayPresenceSuccessTransition :: "bridge_state \<Rightarrow> int option transition" where
  "recordRelayPresenceSuccessTransition s =
    (let health = current_health s
     in case rh_relayPresence health of
          None \<Rightarrow> ok (Same, None)
        | Some recovered \<Rightarrow>
            (let status = (if 0 < length (rh_drivers health) then Degraded else Healthy)
             in ok (New (s\<lparr>bs_runtimeHealth :=
                    Some (health\<lparr>rh_relayPresence := None, rh_status := status\<rparr>)\<rparr>),
                  Some (rp_count recovered))))"

subsection \<open>The invariant of the health record\<close>

definition health_ok :: "runtime_health \<Rightarrow> bool" where
  "health_ok h \<longleftrightarrow>
    distinct (map dh_driver (rh_drivers h))
    \<and> (\<forall>d \<in> set (rh_drivers h). 0 < dh_count d)
    \<and> (case rh_relayPresence h of None \<Rightarrow> True | Some p \<Rightarrow> 0 < rp_count p)
    \<and> rh_status h = (if 0 < length (rh_drivers h) \<or> rh_relayPresence h \<noteq> None then Degraded else Healthy)"

definition health_inv :: "bridge_state \<Rightarrow> bool" where
  "health_inv s \<longleftrightarrow> (case bs_runtimeHealth s of None \<Rightarrow> True | Some h \<Rightarrow> health_ok h)"

text \<open>The failures the record holds, as a reader sees them: a driver with the number of its
  consecutive failures.\<close>

definition failing :: "bridge_state \<Rightarrow> jsstring \<Rightarrow> int option" where
  "failing s driver = map_option dh_count (find_driver (current_health s) driver)"

lemma health_ok_empty [simp]: "health_ok emptyRuntimeHealth"
  by (simp add: health_ok_def emptyRuntimeHealth_def)

lemma health_inv_iff: "health_inv s \<longleftrightarrow> health_ok (current_health s)"
  by (simp add: health_inv_def current_health_def split: option.split)

lemma find_driver_Some: "find_driver h d = Some x \<Longrightarrow> x \<in> set (rh_drivers h) \<and> dh_driver x = d"
  unfolding find_driver_def by (auto simp: find_Some_iff)

lemma find_driver_None: "find_driver h d = None \<longleftrightarrow> d \<notin> dh_driver ` set (rh_drivers h)"
  unfolding find_driver_def by (auto simp: find_None_iff)

lemma find_driver_mem:
  "distinct (map dh_driver (rh_drivers h)) \<Longrightarrow> x \<in> set (rh_drivers h) \<Longrightarrow> dh_driver x = d
    \<Longrightarrow> find_driver h d = Some x"
  by (metis distinct_map find_driver_None find_driver_Some image_eqI inj_onD not_None_eq)

lemma find_driver_iff:
  assumes "distinct (map dh_driver (rh_drivers h))"
  shows "find_driver h d = Some x \<longleftrightarrow> x \<in> set (rh_drivers h) \<and> dh_driver x = d"
  using find_driver_Some find_driver_mem[OF assms] by blast

lemma set_other_drivers: "set (other_drivers h d) = {x \<in> set (rh_drivers h). dh_driver x \<noteq> d}"
  by (auto simp: other_drivers_def)

lemma distinct_other_drivers:
  "distinct (map dh_driver (rh_drivers h)) \<Longrightarrow> distinct (map dh_driver (other_drivers h d))"
  by (simp add: other_drivers_def distinct_map_filter)

subsection \<open>The transitions keep it, and count the failures\<close>

lemma current_health_update [simp]: "current_health (s\<lparr>bs_runtimeHealth := Some h\<rparr>) = h"
  by (simp add: current_health_def)

lemma health_inv_update: "health_inv (s\<lparr>bs_runtimeHealth := Some h\<rparr>) = health_ok h"
  by (simp add: health_inv_def)

definition failed_driver :: "runtime_health \<Rightarrow> jsstring \<Rightarrow> jsstring \<Rightarrow> jsstring \<Rightarrow> driver_health" where
  "failed_driver health driver seenAt nextRetryAt = (case find_driver health driver of
       Some existing \<Rightarrow> existing\<lparr>dh_count := dh_count existing + 1, dh_lastSeenAt := seenAt,
         dh_nextRetryAt := nextRetryAt\<rparr>
     | None \<Rightarrow> \<lparr>dh_driver = driver, dh_count = 1, dh_firstSeenAt = seenAt,
         dh_lastSeenAt = seenAt, dh_lastSuccessAt = None, dh_nextRetryAt = nextRetryAt\<rparr>)"

lemma failed_driver_facts:
  assumes "health_ok h"
  shows "dh_driver (failed_driver h driver t u) = driver"
    and "dh_count (failed_driver h driver t u) = (case find_driver h driver of Some e \<Rightarrow> dh_count e | None \<Rightarrow> 0) + 1"
    and "0 < dh_count (failed_driver h driver t u)"
  using assms find_driver_Some[of h driver]
  by (auto simp: failed_driver_def health_ok_def split: option.split) force

definition with_failed_driver ::
  "(jsstring \<Rightarrow> jsstring \<Rightarrow> int) \<Rightarrow> runtime_health \<Rightarrow> jsstring \<Rightarrow> driver_health \<Rightarrow> runtime_health" where
  "with_failed_driver lc h driver d = h\<lparr>rh_drivers := js_sort (compare_drivers lc) (other_drivers h driver @ [d]),
     rh_status := Degraded\<rparr>"

lemma driver_failure_shape:
  "recordDriverReconciliationFailureTransition lc s driver seenAt nextRetryAt =
    (let d = failed_driver (current_health s) driver seenAt nextRetryAt
     in ok (New (s\<lparr>bs_runtimeHealth := Some (with_failed_driver lc (current_health s) driver d)\<rparr>), d))"
  by (simp add: recordDriverReconciliationFailureTransition_def failed_driver_def with_failed_driver_def Let_def)

lemma with_failed_driver_ok:
  assumes "health_ok h" and "dh_driver d = driver" and "0 < dh_count d"
  shows "health_ok (with_failed_driver lc h driver d)"
    and "find_driver (with_failed_driver lc h driver d) other =
      (if other = driver then Some d else find_driver h other)"
proof -
  let ?w = "with_failed_driver lc h driver d"
  have "distinct (map dh_driver (other_drivers h driver @ [d]))"
    using assms distinct_other_drivers[of h driver] by (auto simp: health_ok_def set_other_drivers)
  moreover have "rh_drivers ?w = js_sort (compare_drivers lc) (other_drivers h driver @ [d])"
    by (simp add: with_failed_driver_def)
  ultimately have dist: "distinct (map dh_driver (rh_drivers ?w))"
    by (simp only: distinct_js_sort)
  have drivers: "set (rh_drivers ?w) = insert d {x \<in> set (rh_drivers h). dh_driver x \<noteq> driver}"
    by (simp add: with_failed_driver_def set_other_drivers)
  moreover have "0 < length (rh_drivers ?w)" by (simp add: with_failed_driver_def)
  ultimately show "health_ok ?w"
    using assms dist by (auto simp: health_ok_def with_failed_driver_def)
  have old: "distinct (map dh_driver (rh_drivers h))" using assms(1) by (simp add: health_ok_def)
  have "find_driver ?w other = Some x \<longleftrightarrow> (if other = driver then Some d else find_driver h other) = Some x" for x
    unfolding find_driver_iff[OF dist] drivers using assms(2)
    by (auto simp: find_driver_iff[OF old])
  then show "find_driver ?w other = (if other = driver then Some d else find_driver h other)"
    by (metis not_None_eq)
qed

lemma driver_failure_health:
  assumes "health_inv s"
    and "recordDriverReconciliationFailureTransition lc s driver seenAt nextRetryAt = Inr (n, d)"
  shows "health_inv (resulting s n)"
    and "failing (resulting s n) = (failing s)(driver := Some ((case failing s driver of Some c \<Rightarrow> c | None \<Rightarrow> 0) + 1))"
proof -
  let ?h = "current_health s"
  have h: "health_ok ?h" using assms(1) by (simp add: health_inv_iff)
  note d = failed_driver_facts[OF h, of driver seenAt nextRetryAt]
  have n: "resulting s n = s\<lparr>bs_runtimeHealth := Some (with_failed_driver lc ?h driver d)\<rparr>"
    and dd: "d = failed_driver ?h driver seenAt nextRetryAt"
    using assms(2) by (auto simp: driver_failure_shape Let_def)
  show "health_inv (resulting s n)"
    using with_failed_driver_ok(1)[OF h] d by (simp add: n dd health_inv_update)
  show "failing (resulting s n) = (failing s)(driver := Some ((case failing s driver of Some c \<Rightarrow> c | None \<Rightarrow> 0) + 1))"
    using with_failed_driver_ok(2)[OF h] d
    by (auto simp: n dd failing_def fun_eq_iff split: option.split)
qed

definition without_driver :: "runtime_health \<Rightarrow> jsstring \<Rightarrow> runtime_health" where
  "without_driver h driver = h\<lparr>rh_drivers := other_drivers h driver,
     rh_status := (if 0 < length (other_drivers h driver) \<or> rh_relayPresence h \<noteq> None then Degraded else Healthy)\<rparr>"

lemma without_driver_ok:
  assumes "health_ok h"
  shows "health_ok (without_driver h driver)"
    and "find_driver (without_driver h driver) other = (if other = driver then None else find_driver h other)"
proof -
  let ?w = "without_driver h driver"
  have old: "distinct (map dh_driver (rh_drivers h))" using assms(1) by (simp add: health_ok_def)
  have dist: "distinct (map dh_driver (rh_drivers ?w))"
    using distinct_other_drivers[OF old] by (simp add: without_driver_def)
  have drivers: "set (rh_drivers ?w) = {x \<in> set (rh_drivers h). dh_driver x \<noteq> driver}"
    by (simp add: without_driver_def set_other_drivers)
  show "health_ok ?w"
    using assms dist drivers by (auto simp: health_ok_def without_driver_def)
  have "find_driver ?w other = Some x \<longleftrightarrow> (if other = driver then None else find_driver h other) = Some x" for x
    unfolding find_driver_iff[OF dist] drivers by (auto simp: find_driver_iff[OF old])
  then show "find_driver ?w other = (if other = driver then None else find_driver h other)"
    by (metis not_None_eq)
qed

lemma driver_success_health:
  assumes "health_inv s" and "recordDriverReconciliationSuccessTransition s driver = Inr (n, r)"
  shows "health_inv (resulting s n)" and "failing (resulting s n) = (failing s)(driver := None)"
    and "r = failing s driver"
proof -
  have h: "health_ok (current_health s)" using assms(1) by (simp add: health_inv_iff)
  have shape: "(find_driver (current_health s) driver = None \<and> n = Same \<and> r = None)
    \<or> (\<exists>d. find_driver (current_health s) driver = Some d \<and> r = Some (dh_count d)
        \<and> n = New (s\<lparr>bs_runtimeHealth := Some (without_driver (current_health s) driver)\<rparr>))"
    using assms(2)
    by (auto simp: recordDriverReconciliationSuccessTransition_def without_driver_def Let_def split: option.splits)
  show "health_inv (resulting s n)"
    using shape without_driver_ok(1)[OF h] assms(1) by (auto simp: health_inv_update)
  show "failing (resulting s n) = (failing s)(driver := None)"
    using shape without_driver_ok(2)[OF h] by (auto simp: failing_def fun_eq_iff)
  show "r = failing s driver" using shape by (auto simp: failing_def)
qed

lemma relay_failure_health:
  assumes "health_inv s" and "recordRelayPresenceFailureTransition s seenAt nextRetryAt = Inr (n, r)"
  shows "health_inv (resulting s n)" and "failing (resulting s n) = failing s"
proof -
  have h: "health_ok (current_health s)" using assms(1) by (simp add: health_inv_iff)
  show "health_inv (resulting s n)"
    using assms(2) h
    by (auto simp: recordRelayPresenceFailureTransition_def health_inv_update health_ok_def Let_def
        split: option.splits)
  show "failing (resulting s n) = failing s"
    using assms(2)
    by (auto simp: recordRelayPresenceFailureTransition_def failing_def find_driver_def Let_def fun_eq_iff)
qed

lemma relay_success_health:
  assumes "health_inv s" and "recordRelayPresenceSuccessTransition s = Inr (n, r)"
  shows "health_inv (resulting s n)" and "failing (resulting s n) = failing s"
proof -
  have h: "health_ok (current_health s)" using assms(1) by (simp add: health_inv_iff)
  show "health_inv (resulting s n)"
    using assms h
    by (auto simp: recordRelayPresenceSuccessTransition_def health_inv_update health_ok_def Let_def
        split: option.splits)
  show "failing (resulting s n) = failing s"
    using assms(2)
    by (auto simp: recordRelayPresenceSuccessTransition_def failing_def find_driver_def Let_def fun_eq_iff
        split: option.splits)
qed

end
