(* ===== verification/State_Record.thy ===== *)
theory State_Record
  imports Command_Journal Event_Transitions Publication Host_Health
begin

section \<open>The values a state record may hold\<close>

text \<open>
  \<open>isCurrentStateRecord\<close> and its helpers (\<open>state-store/state-codec.ts\<close>): the first check of a state
  file that is read back. What the types of \<open>Bridge_State\<close> already say is not repeated: the keys of each
  record, the members of each union, \<open>version === 1\<close>, booleans, and that an optional text is a string. What
  is left are the values: non-empty strings, safe and positive integers, the UUID of the reset epoch, the
  order of the two snapshot revisions, and the health record (at most 32 drivers, each once, with a stable
  id, a positive count and canonical timestamps, and the status that follows).
\<close>

subsection \<open>Strings and numbers\<close>

definition isNonEmptyString :: "jsstring \<Rightarrow> bool" where
  "isNonEmptyString s \<longleftrightarrow> 0 < length s"

definition isNonNegativeSafeInteger :: "int \<Rightarrow> bool" where
  "isNonNegativeSafeInteger n \<longleftrightarrow> is_safe_integer n \<and> 0 \<le> n"

definition is_hex :: "code_unit \<Rightarrow> bool" where
  "is_hex u \<longleftrightarrow> is_digit u \<or> 97 \<le> unat u \<and> unat u \<le> 102 \<or> 65 \<le> unat u \<and> unat u \<le> 70"

text \<open>A UUID of version 4, in either case of letters.\<close>

definition isRuntimeEpoch :: "jsstring \<Rightarrow> bool" where
  "isRuntimeEpoch s \<longleftrightarrow> length s = 36
    \<and> list_all is_hex (take 8 s) \<and> [s ! 8] = js ''-''
    \<and> list_all is_hex (take 4 (drop 9 s)) \<and> [s ! 13] = js ''-''
    \<and> [s ! 14] = js ''4'' \<and> list_all is_hex (take 3 (drop 15 s)) \<and> [s ! 18] = js ''-''
    \<and> s ! 19 \<in> set (js ''89abAB'') \<and> list_all is_hex (take 3 (drop 20 s)) \<and> [s ! 23] = js ''-''
    \<and> list_all is_hex (take 12 (drop 24 s))"

definition isStableDriverId :: "jsstring \<Rightarrow> bool" where
  "isStableDriverId s \<longleftrightarrow> 1 \<le> length s \<and> length s \<le> 64
    \<and> list_all (\<lambda>u. is_digit u \<or> 97 \<le> unat u \<and> unat u \<le> 122 \<or> 65 \<le> unat u \<and> unat u \<le> 90
        \<or> u \<in> set (js ''._-'')) s"

definition isCanonicalHealthTimestamp :: "jsstring \<Rightarrow> bool" where
  "isCanonicalHealthTimestamp s \<longleftrightarrow> iso_shape s \<and> date_parse s \<noteq> None"

subsection \<open>Objects\<close>

definition isValueMap :: "('v \<Rightarrow> bool) \<Rightarrow> (jsstring, 'v) object \<Rightarrow> bool" where
  "isValueMap p m \<longleftrightarrow> list_all p (ovalues m)"

definition isStringMap :: "(jsstring, jsstring) object \<Rightarrow> bool" where
  "isStringMap m \<longleftrightarrow> list_all (\<lambda>(key, item). isNonEmptyString key \<and> isNonEmptyString item) m"

definition isTrueMap :: "(jsstring, unit) object \<Rightarrow> bool" where
  "isTrueMap m \<longleftrightarrow> list_all (\<lambda>(key, _). isNonEmptyString key) m"

definition isNonNegativeIntegerMap :: "(jsstring, int) object \<Rightarrow> bool" where
  "isNonNegativeIntegerMap m \<longleftrightarrow> isValueMap isNonNegativeSafeInteger m"

subsection \<open>The records\<close>

text \<open>The three properties that \<open>sanitizePersistedHost\<close> deletes are not among the keys of a stored Host.\<close>

definition isCurrentHost :: "host_projection \<Rightarrow> bool" where
  "isCurrentHost h \<longleftrightarrow> hp_claimCode h = None \<and> hp_claimCodeExpiresAt h = None \<and> hp_ownerUserId h = None
    \<and> list_all isNonEmptyString [hp_hostId h, hp_hostName h, hp_bridgeVersion h, hp_registeredAt h, hp_lastSeenAt h]"

definition isCurrentSession :: "canonical_session \<Rightarrow> bool" where
  "isCurrentSession c \<longleftrightarrow> list_all isNonEmptyString
    [cs_sessionId c, cs_hostId c, cs_provider c, cs_projectName c, cs_nameText c, cs_updatedAt c]"

fun isCurrentNeedHuman :: "need_human_context \<Rightarrow> bool" where
  "isCurrentNeedHuman (Need_error e) \<longleftrightarrow> isNonEmptyString (nhe_message e)
    \<and> (case nhe_providerCode e of None \<Rightarrow> True | Some code \<Rightarrow> isNonEmptyString code)"
| "isCurrentNeedHuman _ \<longleftrightarrow> True"

fun body_valid :: "event_body \<Rightarrow> bool" where
  "body_valid Event_done \<longleftrightarrow> True"
| "body_valid (Event_need_human context) \<longleftrightarrow> isCurrentNeedHuman context"

definition isCurrentEvent :: "canonical_event \<Rightarrow> bool" where
  "isCurrentEvent e \<longleftrightarrow> list_all isNonEmptyString
      [ev_eventId e, ev_hostId e, ev_sessionId e, ev_provider e, ev_agentText e, ev_createdAt e]
    \<and> body_valid (ev_body e)"

definition isCurrentPendingHandle :: "pending_handle \<Rightarrow> bool" where
  "isCurrentPendingHandle h \<longleftrightarrow> list_all isNonEmptyString
      [ph_hostId h, ph_sessionId h, ph_handledThroughEventId h, ph_handledAt h, ph_updatedAt h]
    \<and> (case ph_handledThroughEventCreatedAt h of None \<Rightarrow> True | Some t \<Rightarrow> isNonEmptyString t)"

definition isCurrentCommandExecution :: "wire_port \<Rightarrow> command_execution \<Rightarrow> bool" where
  "isCurrentCommandExecution P x \<longleftrightarrow> is_ok (assertCommandExecution P x)"

definition isCurrentEventCompletion :: "event_completion \<Rightarrow> bool" where
  "isCurrentEventCompletion c \<longleftrightarrow> list_all isNonEmptyString
      [ec_eventId c, ec_sessionId c, ec_eventContentId c, ec_sessionContentId c, ec_committedAt c]
    \<and> isPositiveInteger (ec_revision c)"

definition isCurrentProducerReservation :: "producer_reservation \<Rightarrow> bool" where
  "isCurrentProducerReservation r \<longleftrightarrow>
    list_all isNonEmptyString [pr_eventId r, pr_sessionId r, pr_fingerprint r, pr_createdAt r]"

definition isCurrentProducerCheckpoint :: "source_checkpoint \<Rightarrow> bool" where
  "isCurrentProducerCheckpoint c \<longleftrightarrow> list_all isNonEmptyString
    [ck_sessionId c, ck_producerEventId c, ck_producerEventOrder c, ck_eventId c, ck_fingerprint c, ck_createdAt c]"

definition isCurrentTerminalCancellation :: "terminal_cancellation \<Rightarrow> bool" where
  "isCurrentTerminalCancellation c \<longleftrightarrow>
    list_all isNonEmptyString [tc_sessionId c, tc_eventId c, tc_fingerprint c, tc_createdAt c]"

definition isCurrentSnapshot :: "snapshot_state \<Rightarrow> bool" where
  "isCurrentSnapshot sn \<longleftrightarrow> isNonNegativeSafeInteger (sn_lastAllocatedRevision sn)
    \<and> isNonNegativeSafeInteger (sn_lastAcceptedRevision sn)
    \<and> sn_lastAcceptedRevision sn \<le> sn_lastAllocatedRevision sn
    \<and> (case sn_lastAcceptedRecipientSetVersion sn of None \<Rightarrow> True | Some v \<Rightarrow> isPositiveInteger v)"

subsection \<open>The health record\<close>

definition healthTimestampsValid :: "jsstring \<Rightarrow> jsstring \<Rightarrow> jsstring \<Rightarrow> jsstring option \<Rightarrow> bool" where
  "healthTimestampsValid firstSeenAt lastSeenAt nextRetryAt lastSuccessAt \<longleftrightarrow>
    list_all isCanonicalHealthTimestamp [firstSeenAt, lastSeenAt, nextRetryAt]
    \<and> (case lastSuccessAt of None \<Rightarrow> True | Some t \<Rightarrow> isCanonicalHealthTimestamp t)"

definition isCurrentDriverHealth :: "driver_health \<Rightarrow> bool" where
  "isCurrentDriverHealth d \<longleftrightarrow> isStableDriverId (dh_driver d) \<and> isPositiveInteger (dh_count d)
    \<and> healthTimestampsValid (dh_firstSeenAt d) (dh_lastSeenAt d) (dh_nextRetryAt d) (dh_lastSuccessAt d)"

definition isCurrentRelayPresenceHealth :: "relay_presence_health \<Rightarrow> bool" where
  "isCurrentRelayPresenceHealth p \<longleftrightarrow> isPositiveInteger (rp_count p)
    \<and> healthTimestampsValid (rp_firstSeenAt p) (rp_lastSeenAt p) (rp_nextRetryAt p) (rp_lastSuccessAt p)"

definition isCurrentRuntimeHealth :: "runtime_health \<Rightarrow> bool" where
  "isCurrentRuntimeHealth h \<longleftrightarrow> length (rh_drivers h) \<le> 32 \<and> list_all isCurrentDriverHealth (rh_drivers h)
    \<and> distinct (map dh_driver (rh_drivers h))
    \<and> (let degraded = 0 < length (rh_drivers h) \<or> rh_relayPresence h \<noteq> None
       in rh_status h = (if degraded then Degraded else Healthy))
    \<and> (case rh_relayPresence h of None \<Rightarrow> True | Some p \<Rightarrow> isCurrentRelayPresenceHealth p)"

subsection \<open>The state\<close>

text \<open>An absent object has no values.\<close>

definition isCurrentStateRecord :: "wire_port \<Rightarrow> bridge_state \<Rightarrow> bool" where
  "isCurrentStateRecord P s \<longleftrightarrow> isRuntimeEpoch (bs_runtimeResetEpoch s)
    \<and> (case bs_host s of None \<Rightarrow> True | Some h \<Rightarrow> isCurrentHost h)
    \<and> isValueMap isCurrentSession (bs_sessions s)
    \<and> isStringMap (bs_sessionDrivers s) \<and> isTrueMap (bs_reconciledDrivers s)
    \<and> list_all isCurrentEvent (bs_recentEvents s)
    \<and> isNonNegativeIntegerMap (bs_sessionRevisions s)
    \<and> isValueMap isCurrentPendingHandle (bs_pendingHandles s)
    \<and> isValueMap (isCurrentCommandExecution P) (bs_commandExecutions s)
    \<and> isCurrentSnapshot (bs_currentSessionsSnapshot s)
    \<and> (case bs_recipientSetVersion s of None \<Rightarrow> True | Some v \<Rightarrow> isPositiveInteger v)
    \<and> isValueMap isCurrentEventCompletion (opt_object (bs_eventUploadCompletions s))
    \<and> isValueMap isCurrentProducerReservation (opt_object (bs_producerEventReservations s))
    \<and> isValueMap isCurrentProducerCheckpoint (opt_object (bs_producerEventCheckpoints s))
    \<and> isValueMap isCurrentTerminalCancellation (opt_object (bs_terminalCancellations s))
    \<and> (case bs_runtimeHealth s of None \<Rightarrow> True | Some h \<Rightarrow> isCurrentRuntimeHealth h)"

text \<open>The part that the operations on commands leave alone: everything but the executions, which the
  relationships check once more.\<close>

definition record_values :: "bridge_state \<Rightarrow> bool" where
  "record_values s \<longleftrightarrow> isRuntimeEpoch (bs_runtimeResetEpoch s)
    \<and> (case bs_host s of None \<Rightarrow> True | Some h \<Rightarrow> isCurrentHost h)
    \<and> isValueMap isCurrentSession (bs_sessions s)
    \<and> isStringMap (bs_sessionDrivers s) \<and> isTrueMap (bs_reconciledDrivers s)
    \<and> list_all isCurrentEvent (bs_recentEvents s)
    \<and> isNonNegativeIntegerMap (bs_sessionRevisions s)
    \<and> isValueMap isCurrentPendingHandle (bs_pendingHandles s)
    \<and> isCurrentSnapshot (bs_currentSessionsSnapshot s)
    \<and> (case bs_recipientSetVersion s of None \<Rightarrow> True | Some v \<Rightarrow> isPositiveInteger v)
    \<and> isValueMap isCurrentEventCompletion (opt_object (bs_eventUploadCompletions s))
    \<and> isValueMap isCurrentProducerReservation (opt_object (bs_producerEventReservations s))
    \<and> isValueMap isCurrentProducerCheckpoint (opt_object (bs_producerEventCheckpoints s))
    \<and> isValueMap isCurrentTerminalCancellation (opt_object (bs_terminalCancellations s))
    \<and> (case bs_runtimeHealth s of None \<Rightarrow> True | Some h \<Rightarrow> isCurrentRuntimeHealth h)"

lemma isCurrentStateRecord_iff:
  "isCurrentStateRecord P s \<longleftrightarrow>
    record_values s \<and> isValueMap (isCurrentCommandExecution P) (bs_commandExecutions s)"
  unfolding isCurrentStateRecord_def record_values_def by blast

lemma isValueMap_iff: "isValueMap p m \<longleftrightarrow> (\<forall>(key, item) \<in> set m. p item)"
  by (force simp: isValueMap_def ovalues_def list_all_iff)

lemma isValueMap_Nil [simp]: "isValueMap p []"
  by (simp add: isValueMap_def ovalues_def)

lemma isNonEmptyString_iff [simp]: "isNonEmptyString s \<longleftrightarrow> s \<noteq> []"
  by (simp add: isNonEmptyString_def)

lemma values_snapshot_ordered: "record_values s \<Longrightarrow> snapshot_ordered s"
  by (simp add: record_values_def isCurrentSnapshot_def isNonNegativeSafeInteger_def snapshot_ordered_def)

lemma current_health_ok: "isCurrentRuntimeHealth h \<Longrightarrow> health_ok h"
  by (auto simp: isCurrentRuntimeHealth_def health_ok_def isCurrentDriverHealth_def isPositiveInteger_def
      isCurrentRelayPresenceHealth_def list_all_iff split: option.splits)

lemma values_health: "record_values s \<Longrightarrow> health_inv s"
  by (auto simp: record_values_def health_inv_def current_health_ok split: option.splits)

lemma values_empty: "isRuntimeEpoch epoch \<Longrightarrow> record_values (emptyState epoch)"
  by (simp add: record_values_def emptyState_def EMPTY_SNAPSHOT_def isStringMap_def isTrueMap_def
      isNonNegativeIntegerMap_def isCurrentSnapshot_def isNonNegativeSafeInteger_def is_safe_integer_def
      isCurrentRuntimeHealth_def)

lemma canonical_health_timestamp: "is_canonical_timestamp t \<Longrightarrow> isCanonicalHealthTimestamp t"
  by (auto simp: is_canonical_timestamp_def isCanonicalHealthTimestamp_def split: option.splits)

end
