(* ===== verification/Bridge_Store.thy ===== *)
theory Bridge_Store
  imports Bridge_State
begin

section \<open>The shell of the state store: live state, durable state, commit orders\<close>

text \<open>
  \<open>commitState\<close> (\<open>state-transitions.ts\<close>) and the private \<open>persist\<close>, \<open>commit\<close>,
  \<open>commitTransition\<close> and \<open>applyTransition\<close> of \<open>BridgeStateStore\<close> (\<open>state-store.ts\<close>). A write of
  the state file either replaces it, leaves it as it was and throws, or replaces it and then
  throws (the rename is done, a later sync fails). \<open>commitTransition\<close> writes first and swaps the
  live state afterwards; \<open>applyTransition\<close> swaps first and writes afterwards.
\<close>

datatype write_outcome = Written | Not_written | Written_then_failed

record state_store =
  st_live :: bridge_state
  st_disk :: bridge_state
  st_disposed :: bool
  st_writer_allowed :: bool
  st_runtimeReady :: bool
  st_pinsReady :: bool
  st_has_path :: bool

definition assertStateStoreAccess :: "state_store \<Rightarrow> unit result" where
  "assertStateStoreAccess store =
    (if st_disposed store then throw (PlainError ''Bridge state store is disposed'')
     else if \<not> st_writer_allowed store then throw (PlainError ''runtime writer is not allowed'')
     else ok ())"

text \<open>The guarded getter of the live state.\<close>

definition read_state :: "state_store \<Rightarrow> bridge_state result" where
  "read_state store = rbind (assertStateStoreAccess store) (\<lambda>_.
    if \<not> st_runtimeReady store
    then throw (PlainError ''Bridge runtime state is unavailable before startup preflight'')
    else ok (st_live store))"

definition write_state :: "write_outcome \<Rightarrow> bridge_state \<Rightarrow> state_store \<Rightarrow> unit result \<times> state_store" where
  "write_state outcome s store =
    (if \<not> st_has_path store then (ok (), store)
     else case outcome of
       Written \<Rightarrow> (ok (), store\<lparr>st_disk := s\<rparr>)
     | Not_written \<Rightarrow> (throw (PlainError ''write failed''), store)
     | Written_then_failed \<Rightarrow> (throw (PlainError ''write failed''), store\<lparr>st_disk := s\<rparr>))"

definition store_persist :: "write_outcome \<Rightarrow> state_store \<Rightarrow> unit result \<times> state_store" where
  "store_persist outcome store =
    (case assertStateStoreAccess store of
       Inl e \<Rightarrow> (Inl e, store)
     | Inr _ \<Rightarrow>
         (if \<not> st_has_path store then (ok (), store)
          else case read_state store of
            Inl e \<Rightarrow> (Inl e, store)
          | Inr s \<Rightarrow> write_state outcome s store))"

definition store_commit ::
  "write_outcome \<Rightarrow> bridge_state \<Rightarrow> state_store \<Rightarrow> unit result \<times> state_store" where
  "store_commit outcome nextState store =
    (case assertStateStoreAccess store of
       Inl e \<Rightarrow> (Inl e, store)
     | Inr _ \<Rightarrow>
         (case write_state outcome nextState store of
            (Inl e, store') \<Rightarrow> (Inl e, store')
          | (Inr _, store') \<Rightarrow> (ok (), store'\<lparr>st_live := nextState\<rparr>)))"

definition commitState ::
  "write_outcome \<Rightarrow> (bridge_state \<Rightarrow> 'r transition) \<Rightarrow> state_store \<Rightarrow> 'r result \<times> state_store" where
  "commitState outcome transition store =
    (case read_state store of
       Inl e \<Rightarrow> (Inl e, store)
     | Inr current \<Rightarrow>
         (case transition current of
            Inl e \<Rightarrow> (Inl e, store)
          | Inr (Same, r) \<Rightarrow> (ok r, store)
          | Inr (New nextState, r) \<Rightarrow>
              (case store_commit outcome nextState store of
                 (Inl e, store') \<Rightarrow> (Inl e, store')
               | (Inr _, store') \<Rightarrow> (ok r, store'))))"

definition applyTransition ::
  "write_outcome \<Rightarrow> (bridge_state \<Rightarrow> 'r transition) \<Rightarrow> state_store \<Rightarrow> 'r result \<times> state_store" where
  "applyTransition outcome transition store =
    (case read_state store of
       Inl e \<Rightarrow> (Inl e, store)
     | Inr current \<Rightarrow>
         (case transition current of
            Inl e \<Rightarrow> (Inl e, store)
          | Inr (Same, r) \<Rightarrow> (ok r, store)
          | Inr (New nextState, r) \<Rightarrow>
              (case store_persist outcome (store\<lparr>st_live := nextState\<rparr>) of
                 (Inl e, store') \<Rightarrow> (Inl e, store')
               | (Inr _, store') \<Rightarrow> (ok r, store'))))"

definition store_dispose :: "state_store \<Rightarrow> state_store" where
  "store_dispose store = store\<lparr>st_disposed := True\<rparr>"

lemmas store_defs = assertStateStoreAccess_def read_state_def write_state_def store_persist_def
  store_commit_def commitState_def applyTransition_def

lemma write_state_cases:
  obtains "write_state outcome s store = (ok (), store)" "\<not> st_has_path store"
  | "write_state outcome s store = (ok (), store\<lparr>st_disk := s\<rparr>)" "st_has_path store"
  | e where "write_state outcome s store = (throw e, store)" "st_has_path store"
  | e where "write_state outcome s store = (throw e, store\<lparr>st_disk := s\<rparr>)" "st_has_path store"
  by (cases "st_has_path store"; cases outcome) (auto simp: write_state_def)

lemma store_commit_cases:
  obtains e where "store_commit outcome s store = (throw e, store)"
  | e where "store_commit outcome s store = (throw e, store\<lparr>st_disk := s\<rparr>)" "st_has_path store"
  | "store_commit outcome s store = (ok (), store\<lparr>st_live := s\<rparr>)" "\<not> st_has_path store"
  | "store_commit outcome s store = (ok (), store\<lparr>st_disk := s, st_live := s\<rparr>)" "st_has_path store"
proof (cases "assertStateStoreAccess store")
  case (Inr u)
  show thesis
    by (rule write_state_cases[of outcome s store])
      (use that Inr in \<open>auto simp: store_commit_def\<close>)
qed (use that in \<open>auto simp: store_commit_def\<close>)

lemma read_state_live: "read_state store = Inr s \<Longrightarrow> s = st_live store"
  by (auto simp: read_state_def rbind_Inr_iff split: if_splits)

lemma store_persist_cases:
  obtains e where "store_persist outcome store = (throw e, store)"
  | e where "store_persist outcome store = (throw e, store\<lparr>st_disk := st_live store\<rparr>)" "st_has_path store"
  | "store_persist outcome store = (ok (), store)" "\<not> st_has_path store"
  | "store_persist outcome store = (ok (), store\<lparr>st_disk := st_live store\<rparr>)" "st_has_path store"
proof (cases "assertStateStoreAccess store = Inr () \<and> st_has_path store")
  case True
  show thesis
  proof (cases "read_state store")
    case (Inr s)
    note s = read_state_live[OF this]
    show thesis
      by (rule write_state_cases[of outcome "st_live store" store])
        (use that True Inr s in \<open>auto simp: store_persist_def\<close>)
  qed (use that True in \<open>auto simp: store_persist_def\<close>)
next
  case False
  then show thesis
    using that by (cases "assertStateStoreAccess store") (auto simp: store_persist_def)
qed

lemma transition_cases:
  obtains e where "(t :: 'r transition) = Inl e"
  | r where "t = Inr (Same, r)"
  | s' r where "t = Inr (New s', r)"
  by (metis next_state.exhaust old.prod.exhaust sum.exhaust)

text \<open>A store is synchronised when the file holds the live state.\<close>

definition synced :: "state_store \<Rightarrow> bool" where
  "synced store \<longleftrightarrow> (st_has_path store \<longrightarrow> st_disk store = st_live store)"

lemma commit_persists_before_swap:
  assumes "commitState outcome transition store = (res, store')"
  shows "(\<exists>e. res = Inl e) \<Longrightarrow> st_live store' = st_live store"
    and "res = Inr r \<Longrightarrow> st_live store' = target (st_live store) (transition (st_live store))"
    and "res = Inr r \<Longrightarrow> synced store \<Longrightarrow> synced store'"
proof -
  have "((\<exists>e. res = Inl e) \<longrightarrow> st_live store' = st_live store)
    \<and> (res = Inr r \<longrightarrow> st_live store' = target (st_live store) (transition (st_live store))
      \<and> (synced store \<longrightarrow> synced store'))"
  proof (cases "read_state store")
    case (Inr current)
    note live = read_state_live[OF Inr]
    show ?thesis
    proof (cases "transition current" rule: transition_cases)
      case (3 s' r')
      show ?thesis
        by (rule store_commit_cases[of outcome s' store])
          (use assms Inr live 3 in \<open>auto simp: commitState_def synced_def\<close>)
    qed (use assms Inr live in \<open>auto simp: commitState_def\<close>)
  qed (use assms in \<open>auto simp: commitState_def\<close>)
  then show "(\<exists>e. res = Inl e) \<Longrightarrow> st_live store' = st_live store"
    and "res = Inr r \<Longrightarrow> st_live store' = target (st_live store) (transition (st_live store))"
    and "res = Inr r \<Longrightarrow> synced store \<Longrightarrow> synced store'"
    by simp_all
qed

subsection \<open>The contract between a transition and the shell\<close>

text \<open>
  What the shell needs of a transition: from a state that satisfies the invariant and the guard
  (what the caller of the operation has to establish, trivial for most) it keeps the invariant.
  The providers are the transitions of the other theories; what the shell then promises is that
  neither the live state nor the file leaves the invariant, whatever the write does.
\<close>

locale keeping_transition =
  fixes keep :: "bridge_state \<Rightarrow> bool"
    and guard :: "bridge_state \<Rightarrow> bool"
    and step :: "bridge_state \<Rightarrow> 'r transition"
  assumes keeps: "keep s \<Longrightarrow> guard s \<Longrightarrow> step s = Inr (n, r) \<Longrightarrow> keep (resulting s n)"
begin

lemma keeps_New: "keep s \<Longrightarrow> guard s \<Longrightarrow> step s = Inr (New s', r) \<Longrightarrow> keep s'"
  using keeps[of s "New s'" r] by simp

lemma target_keeps: "keep s \<Longrightarrow> guard s \<Longrightarrow> keep (target s (step s))"
  by (cases "step s" rule: transition_cases) (auto simp: keeps_New)

lemma commit_keeps:
  assumes "keep (st_live store) \<and> keep (st_disk store)" and "guard (st_live store)"
    and "commitState outcome step store = (res, store')"
  shows "keep (st_live store') \<and> keep (st_disk store')"
proof (cases "read_state store")
  case (Inr current)
  note live = read_state_live[OF Inr]
  show ?thesis
  proof (cases "step current" rule: transition_cases)
    case (3 s' r')
    then have k: "keep s'" using assms(1,2) live by (auto intro: keeps_New)
    show ?thesis
      by (rule store_commit_cases[of outcome s' store])
        (use assms Inr 3 k in \<open>auto simp: commitState_def\<close>)
  qed (use assms Inr in \<open>auto simp: commitState_def\<close>)
qed (use assms in \<open>auto simp: commitState_def\<close>)

lemma apply_keeps:
  assumes "keep (st_live store) \<and> keep (st_disk store)" and "guard (st_live store)"
    and "applyTransition outcome step store = (res, store')"
  shows "keep (st_live store') \<and> keep (st_disk store')"
proof (cases "read_state store")
  case (Inr current)
  note live = read_state_live[OF Inr]
  show ?thesis
  proof (cases "step current" rule: transition_cases)
    case (3 s' r')
    then have k: "keep s'" using assms(1,2) live by (auto intro: keeps_New)
    show ?thesis
      by (rule store_persist_cases[of outcome "store\<lparr>st_live := s'\<rparr>"])
        (use assms Inr 3 k in \<open>auto simp: applyTransition_def\<close>)
  qed (use assms Inr in \<open>auto simp: applyTransition_def\<close>)
qed (use assms in \<open>auto simp: applyTransition_def\<close>)

end

end
