(* ===== verification/Bridge_Relations.thy ===== *)
theory Bridge_Relations
  imports State_Record Bridge_Store
begin

section \<open>The relationships of a state the Bridge can start from\<close>

text \<open>
  \<open>parseCurrentState\<close> and \<open>assertCurrentStateRelationships\<close> (\<open>state-codec.ts\<close>): what the Bridge demands
  of a state file before it starts, else it fails closed. Each part of the relationships is a predicate of the state; the assertion is
  their conjunction, thrown in the order of the code. Then the lemmas of the parts: under what
  conditions each transition keeps them.
\<close>

definition host_related :: "bridge_state \<Rightarrow> jsstring \<Rightarrow> bool" where
  "host_related s hostId \<longleftrightarrow> (case bs_host s of None \<Rightarrow> True | Some h \<Rightarrow> hp_hostId h = hostId)"

definition sessions_related :: "bridge_state \<Rightarrow> jsstring \<Rightarrow> bool" where
  "sessions_related s hostId \<longleftrightarrow>
    (\<forall>(sessionId, c) \<in> set (bs_sessions s). cs_sessionId c = sessionId \<and> cs_hostId c = hostId)"

definition driver_bound :: "bridge_state \<Rightarrow> jsstring \<times> jsstring \<Rightarrow> bool" where
  "driver_bound s = (\<lambda>(sessionId, driver).
    case oget (bs_sessions s) sessionId of
      None \<Rightarrow> False
    | Some c \<Rightarrow> cs_sessionId c = sessionId \<and> (driver = js ''agent-adapter'' \<or> driver = cs_provider c))"

definition drivers_related :: "bridge_state \<Rightarrow> bool" where
  "drivers_related s \<longleftrightarrow> (\<forall>entry \<in> set (bs_sessionDrivers s). driver_bound s entry)"

definition event_bound :: "bridge_state \<Rightarrow> jsstring \<Rightarrow> canonical_event \<Rightarrow> bool" where
  "event_bound s hostId e \<longleftrightarrow> ev_hostId e = hostId
    \<and> (case oget (bs_sessions s) (ev_sessionId e) of
         None \<Rightarrow> True | Some c \<Rightarrow> cs_provider c = ev_provider e)"

definition events_related :: "bridge_state \<Rightarrow> jsstring \<Rightarrow> bool" where
  "events_related s hostId \<longleftrightarrow> distinct (map ev_eventId (bs_recentEvents s))
    \<and> (\<forall>e \<in> set (bs_recentEvents s). event_bound s hostId e)"

text \<open>The loop over the events, with its two messages.\<close>

fun check_events :: "bridge_state \<Rightarrow> jsstring \<Rightarrow> jsstring set \<Rightarrow> canonical_event list \<Rightarrow> unit result" where
  "check_events s hostId seen [] = ok ()"
| "check_events s hostId seen (e # es) =
    (if ev_hostId e \<noteq> hostId \<or> ev_eventId e \<in> seen
     then throw (PlainError ''Bridge runtime Event binding is invalid'')
     else if (case oget (bs_sessions s) (ev_sessionId e) of
                None \<Rightarrow> False | Some c \<Rightarrow> cs_provider c \<noteq> ev_provider e)
     then throw (PlainError ''Bridge runtime Event references an invalid Session'')
     else check_events s hostId (insert (ev_eventId e) seen) es)"

lemma check_events_ok:
  "check_events s hostId seen es = ok () \<longleftrightarrow>
    distinct (map ev_eventId es) \<and> seen \<inter> ev_eventId ` set es = {} \<and> (\<forall>e \<in> set es. event_bound s hostId e)"
  by (induction s hostId seen es rule: check_events.induct) (auto simp: event_bound_def split: option.splits)

definition revisions_related :: "bridge_state \<Rightarrow> bool" where
  "revisions_related s \<longleftrightarrow> (\<forall>revision \<in> set (ovalues (bs_sessionRevisions s)). 1 \<le> revision)"

definition event_of :: "bridge_state \<Rightarrow> jsstring \<Rightarrow> canonical_event option" where
  "event_of s eventId = find_event (bs_recentEvents s) eventId"

definition handle_bound :: "bridge_state \<Rightarrow> jsstring \<Rightarrow> jsstring \<times> pending_handle \<Rightarrow> bool" where
  "handle_bound s hostId = (\<lambda>(key, h).
    key = sessionHandleKey hostId (ph_sessionId h) \<and> ph_hostId h = hostId
    \<and> (case event_of s (ph_handledThroughEventId h) of
         None \<Rightarrow> False
       | Some e \<Rightarrow> ev_hostId e = hostId \<and> ev_sessionId e = ph_sessionId h
           \<and> (ph_handledThroughEventCreatedAt h = None
             \<or> ph_handledThroughEventCreatedAt h = Some (ev_createdAt e))))"

definition handles_related :: "bridge_state \<Rightarrow> jsstring \<Rightarrow> bool" where
  "handles_related s hostId \<longleftrightarrow> (\<forall>entry \<in> set (bs_pendingHandles s). handle_bound s hostId entry)"

definition nonce_binding :: "command_execution \<Rightarrow> jsstring" where
  "nonce_binding x = cx_watchDeviceId x @ [10] @ cx_nonce x"

fun check_commands ::
  "wire_port \<Rightarrow> jsstring \<Rightarrow> jsstring set \<Rightarrow> (jsstring, command_execution) object \<Rightarrow> unit result" where
  "check_commands P hostId seen [] = ok ()"
| "check_commands P hostId seen ((commandId, x) # es) =
    rbind (assertCommandExecution P x) (\<lambda>_.
      if commandId \<noteq> ce_commandId (cx_originalEncryptedCommand x)
          \<or> ce_hostId (cx_originalEncryptedCommand x) \<noteq> hostId
      then throw (PlainError ''Bridge runtime command execution binding is invalid'')
      else if nonce_binding x \<in> seen
      then throw (PlainError ''Bridge runtime command nonce binding is duplicated'')
      else check_commands P hostId (insert (nonce_binding x) seen) es)"

definition completion_bound :: "bridge_state \<Rightarrow> jsstring \<times> event_completion \<Rightarrow> bool" where
  "completion_bound s = (\<lambda>(eventId, c).
    (let currentRevision = readCurrentSessionRevision s (ec_sessionId c);
         revisionIsValid = (currentRevision = ec_revision c
           \<or> (ec_revisionCommitted c \<noteq> Some True \<and> currentRevision = ec_revision c - 1))
     in eventId = ec_eventId c
      \<and> (case event_of s eventId of None \<Rightarrow> True | Some e \<Rightarrow> ev_sessionId e = ec_sessionId c)
      \<and> revisionIsValid
      \<and> (ec_inflightRemoved c = Some True \<longrightarrow> ec_revisionCommitted c = Some True)
      \<and> (ec_sourceRemoved c = Some True \<longrightarrow> ec_inflightRemoved c = Some True)))"

definition completions_related :: "bridge_state \<Rightarrow> bool" where
  "completions_related s \<longleftrightarrow>
    (\<forall>entry \<in> set (opt_object (bs_eventUploadCompletions s)). completion_bound s entry)"

definition reservation_bound :: "bridge_state \<Rightarrow> jsstring \<times> producer_reservation \<Rightarrow> bool" where
  "reservation_bound s = (\<lambda>(key, r).
    key = producerReservationKey (pr_sessionId r) (pr_fingerprint r)
    \<and> (case event_of s (pr_eventId r) of
         None \<Rightarrow> True
       | Some e \<Rightarrow> ev_sessionId e = pr_sessionId r \<and> ev_createdAt e = pr_createdAt r))"

definition reservations_related :: "bridge_state \<Rightarrow> bool" where
  "reservations_related s \<longleftrightarrow>
    (\<forall>entry \<in> set (opt_object (bs_producerEventReservations s)). reservation_bound s entry)"

definition checkpoint_bound :: "bridge_state \<Rightarrow> jsstring \<times> source_checkpoint \<Rightarrow> bool" where
  "checkpoint_bound s = (\<lambda>(sessionId, c).
    sessionId = ck_sessionId c \<and> oget (bs_sessions s) sessionId \<noteq> None
    \<and> (case event_of s (ck_eventId c) of None \<Rightarrow> True | Some e \<Rightarrow> ev_sessionId e = ck_sessionId c))"

definition checkpoints_related :: "bridge_state \<Rightarrow> bool" where
  "checkpoints_related s \<longleftrightarrow>
    (\<forall>entry \<in> set (opt_object (bs_producerEventCheckpoints s)). checkpoint_bound s entry)"

definition cancellation_bound :: "bridge_state \<Rightarrow> jsstring \<times> terminal_cancellation \<Rightarrow> bool" where
  "cancellation_bound s = (\<lambda>(eventId, c).
    eventId = tc_eventId c
    \<and> (tc_removeSession c \<or> oget (bs_sessions s) (tc_sessionId c) \<noteq> None)
    \<and> (case event_of s eventId of None \<Rightarrow> True | Some e \<Rightarrow> ev_sessionId e = tc_sessionId c))"

definition cancellations_related :: "bridge_state \<Rightarrow> bool" where
  "cancellations_related s \<longleftrightarrow>
    (\<forall>entry \<in> set (opt_object (bs_terminalCancellations s)). cancellation_bound s entry)"

definition assertCurrentStateRelationships ::
  "wire_port \<Rightarrow> bridge_state \<Rightarrow> jsstring \<Rightarrow> unit result" where
  "assertCurrentStateRelationships P s hostId =
    (if \<not> host_related s hostId
     then throw (PlainError ''Bridge runtime Host projection belongs to another Host'')
     else if \<not> sessions_related s hostId
     then throw (PlainError ''Bridge runtime Session binding is invalid'')
     else if \<not> drivers_related s
     then throw (PlainError ''Bridge runtime Session driver binding is invalid'')
     else rbind (check_events s hostId {} (bs_recentEvents s)) (\<lambda>_.
     if \<not> revisions_related s
     then throw (PlainError ''Bridge runtime Session revision binding is invalid'')
     else if \<not> handles_related s hostId
     then throw (PlainError ''Bridge runtime handle binding is invalid'')
     else rbind (check_commands P hostId {} (bs_commandExecutions s)) (\<lambda>_.
       if \<not> completions_related s
       then throw (PlainError ''Bridge runtime Event completion binding is invalid'')
       else if \<not> reservations_related s
       then throw (PlainError ''Bridge runtime producer fingerprint binding is invalid'')
       else if \<not> checkpoints_related s
       then throw (PlainError ''Bridge runtime producer Event checkpoint binding is invalid'')
       else if \<not> cancellations_related s
       then throw (PlainError ''Bridge runtime terminal cancellation binding is invalid'')
       else assertCurrentPublicationRelationships s)))"

text \<open>
  Reading a state back: first the values of the record, then its relationships. Without a given Host the
  state has to name at most one.
\<close>

definition state_host_ids :: "bridge_state \<Rightarrow> jsstring list" where
  "state_host_ids s = remdups (
    (case bs_host s of Some h \<Rightarrow> [hp_hostId h] | None \<Rightarrow> [])
    @ map cs_hostId (ovalues (bs_sessions s)) @ map ev_hostId (bs_recentEvents s)
    @ map ph_hostId (ovalues (bs_pendingHandles s))
    @ map (\<lambda>x. ce_hostId (cx_originalEncryptedCommand x)) (ovalues (bs_commandExecutions s)))"

definition inferCurrentStateHostId :: "bridge_state \<Rightarrow> jsstring result" where
  "inferCurrentStateHostId s =
    (case state_host_ids s of
       [] \<Rightarrow> ok []
     | [hostId] \<Rightarrow> ok hostId
     | _ \<Rightarrow> throw (PlainError ''Bridge runtime Host relationships are inconsistent''))"

definition parseCurrentState :: "wire_port \<Rightarrow> bridge_state \<Rightarrow> jsstring option \<Rightarrow> bridge_state result" where
  "parseCurrentState P state hostId =
    (if \<not> isCurrentStateRecord P state then throw (PlainError ''Bridge runtime state schema is invalid'')
     else rbind (case hostId of Some h \<Rightarrow> ok h | None \<Rightarrow> inferCurrentStateHostId state) (\<lambda>h.
       rbind (assertCurrentStateRelationships P state h) (\<lambda>_. ok state)))"

subsection \<open>The same as one predicate\<close>

definition commands_related :: "wire_port \<Rightarrow> bridge_state \<Rightarrow> jsstring \<Rightarrow> bool" where
  "commands_related P s hostId \<longleftrightarrow>
    (\<forall>(commandId, x) \<in> set (bs_commandExecutions s).
       assertCommandExecution P x = ok ()
       \<and> commandId = ce_commandId (cx_originalEncryptedCommand x)
       \<and> ce_hostId (cx_originalEncryptedCommand x) = hostId)
    \<and> distinct (map nonce_binding (ovalues (bs_commandExecutions s)))"

lemma check_commands_ok:
  "check_commands P hostId seen es = ok () \<longleftrightarrow>
    (\<forall>(commandId, x) \<in> set es. assertCommandExecution P x = ok ()
       \<and> commandId = ce_commandId (cx_originalEncryptedCommand x)
       \<and> ce_hostId (cx_originalEncryptedCommand x) = hostId)
    \<and> distinct (map nonce_binding (ovalues es)) \<and> seen \<inter> set (map nonce_binding (ovalues es)) = {}"
proof (induction P hostId seen es rule: check_commands.induct)
  case (2 P hostId seen commandId x es)
  show ?case
  proof (cases "assertCommandExecution P x")
    case (Inr u)
    then show ?thesis using 2 by (auto simp: ovalues_def)
  qed auto
qed (simp add: ovalues_def)

definition related :: "wire_port \<Rightarrow> bridge_state \<Rightarrow> jsstring \<Rightarrow> bool" where
  "related P s hostId \<longleftrightarrow>
    host_related s hostId \<and> sessions_related s hostId \<and> drivers_related s
    \<and> events_related s hostId \<and> revisions_related s \<and> handles_related s hostId
    \<and> commands_related P s hostId \<and> completions_related s \<and> reservations_related s
    \<and> checkpoints_related s \<and> cancellations_related s \<and> publication_related s"

lemma assert_relationships_iff: "assertCurrentStateRelationships P s hostId = ok () \<longleftrightarrow> related P s hostId"
  using check_commands_ok[of P hostId "{}" "bs_commandExecutions s"]
    check_events_ok[of s hostId "{}" "bs_recentEvents s"]
  unfolding events_related_def related_def assertCurrentStateRelationships_def commands_related_def
    assertCurrentPublicationRelationships_def
  by (auto simp: rbind_Inr_iff)

lemma related_empty: "related P (emptyState epoch) hostId"
  by (simp add: related_def emptyState_def EMPTY_SNAPSHOT_def host_related_def sessions_related_def
      drivers_related_def events_related_def revisions_related_def handles_related_def
      commands_related_def completions_related_def reservations_related_def checkpoints_related_def
      cancellations_related_def publication_related_def ovalues_def)

subsection \<open>Keys are unique\<close>

text \<open>An object has one property per key.\<close>

definition objects_ok :: "bridge_state \<Rightarrow> bool" where
  "objects_ok s \<longleftrightarrow> oinv (bs_sessions s) \<and> oinv (bs_sessionDrivers s) \<and> oinv (bs_reconciledDrivers s)
    \<and> oinv (bs_sessionRevisions s) \<and> oinv (bs_pendingHandles s) \<and> oinv (bs_commandExecutions s)
    \<and> oinv (opt_object (bs_eventUploadCompletions s))
    \<and> oinv (opt_object (bs_producerEventReservations s))
    \<and> oinv (opt_object (bs_producerEventCheckpoints s))
    \<and> oinv (opt_object (bs_terminalCancellations s))"

lemma objects_ok_empty: "objects_ok (emptyState epoch)"
  by (simp add: objects_ok_def emptyState_def)

text \<open>A state with unique keys that satisfies the relationships.\<close>

definition consistent :: "wire_port \<Rightarrow> jsstring \<Rightarrow> bridge_state \<Rightarrow> bool" where
  "consistent P hostId s \<longleftrightarrow> objects_ok s \<and> assertCurrentStateRelationships P s hostId = ok ()"

lemma consistent_iff: "consistent P hostId s \<longleftrightarrow> objects_ok s \<and> related P s hostId"
  by (simp add: consistent_def assert_relationships_iff)

text \<open>A state the Bridge can start from: \<open>parseCurrentState\<close> returns it.\<close>

definition startable :: "wire_port \<Rightarrow> jsstring \<Rightarrow> bridge_state \<Rightarrow> bool" where
  "startable P hostId s \<longleftrightarrow> objects_ok s \<and> parseCurrentState P s (Some hostId) = ok s"

lemma related_commands:
  "related P s hostId \<Longrightarrow> isValueMap (isCurrentCommandExecution P) (bs_commandExecutions s)"
  by (auto simp: related_def commands_related_def isValueMap_iff isCurrentCommandExecution_def)

lemma parse_iff: "parseCurrentState P s (Some hostId) = ok s' \<longleftrightarrow> record_values s \<and> related P s hostId \<and> s' = s"
  using related_commands[of P s hostId]
  by (auto simp: parseCurrentState_def isCurrentStateRecord_iff rbind_Inr_iff assert_relationships_iff)

lemma startable_iff: "startable P hostId s \<longleftrightarrow> consistent P hostId s \<and> record_values s"
  by (auto simp: startable_def consistent_iff parse_iff)

lemma startable_facts:
  assumes "startable P hostId s"
  shows "consistent P hostId s" "record_values s" "snapshot_ordered s" "health_inv s"
  using assms by (simp_all add: startable_iff values_snapshot_ordered values_health)

lemma startable_empty: "isRuntimeEpoch epoch \<Longrightarrow> startable P hostId (emptyState epoch)"
  by (simp add: startable_iff consistent_iff related_empty objects_ok_empty values_empty)

subsection \<open>Which fields a part reads\<close>

text \<open>A part is unchanged by an update of a field it does not read.\<close>

lemma host_related_footprint [simp]:
  "host_related (bs_runtimeResetEpoch_update f0 s) h = host_related s h"
  "host_related (bs_sessions_update f2 s) h = host_related s h"
  "host_related (bs_sessionDrivers_update f3 s) h = host_related s h"
  "host_related (bs_reconciledDrivers_update f4 s) h = host_related s h"
  "host_related (bs_recentEvents_update f5 s) h = host_related s h"
  "host_related (bs_sessionRevisions_update f6 s) h = host_related s h"
  "host_related (bs_recipientSetVersion_update f7 s) h = host_related s h"
  "host_related (bs_eventUploadCompletions_update f8 s) h = host_related s h"
  "host_related (bs_producerEventReservations_update f9 s) h = host_related s h"
  "host_related (bs_producerEventCheckpoints_update f10 s) h = host_related s h"
  "host_related (bs_terminalCancellations_update f11 s) h = host_related s h"
  "host_related (bs_pendingHandles_update f12 s) h = host_related s h"
  "host_related (bs_commandExecutions_update f13 s) h = host_related s h"
  "host_related (bs_currentSessionsSnapshot_update f14 s) h = host_related s h"
  "host_related (bs_runtimeHealth_update f15 s) h = host_related s h"
  by (simp_all add: host_related_def )

lemma sessions_related_footprint [simp]:
  "sessions_related (bs_runtimeResetEpoch_update f0 s) h = sessions_related s h"
  "sessions_related (bs_host_update f1 s) h = sessions_related s h"
  "sessions_related (bs_sessionDrivers_update f3 s) h = sessions_related s h"
  "sessions_related (bs_reconciledDrivers_update f4 s) h = sessions_related s h"
  "sessions_related (bs_recentEvents_update f5 s) h = sessions_related s h"
  "sessions_related (bs_sessionRevisions_update f6 s) h = sessions_related s h"
  "sessions_related (bs_recipientSetVersion_update f7 s) h = sessions_related s h"
  "sessions_related (bs_eventUploadCompletions_update f8 s) h = sessions_related s h"
  "sessions_related (bs_producerEventReservations_update f9 s) h = sessions_related s h"
  "sessions_related (bs_producerEventCheckpoints_update f10 s) h = sessions_related s h"
  "sessions_related (bs_terminalCancellations_update f11 s) h = sessions_related s h"
  "sessions_related (bs_pendingHandles_update f12 s) h = sessions_related s h"
  "sessions_related (bs_commandExecutions_update f13 s) h = sessions_related s h"
  "sessions_related (bs_currentSessionsSnapshot_update f14 s) h = sessions_related s h"
  "sessions_related (bs_runtimeHealth_update f15 s) h = sessions_related s h"
  by (simp_all add: sessions_related_def )

lemma drivers_related_footprint [simp]:
  "drivers_related (bs_runtimeResetEpoch_update f0 s) = drivers_related s"
  "drivers_related (bs_host_update f1 s) = drivers_related s"
  "drivers_related (bs_reconciledDrivers_update f4 s) = drivers_related s"
  "drivers_related (bs_recentEvents_update f5 s) = drivers_related s"
  "drivers_related (bs_sessionRevisions_update f6 s) = drivers_related s"
  "drivers_related (bs_recipientSetVersion_update f7 s) = drivers_related s"
  "drivers_related (bs_eventUploadCompletions_update f8 s) = drivers_related s"
  "drivers_related (bs_producerEventReservations_update f9 s) = drivers_related s"
  "drivers_related (bs_producerEventCheckpoints_update f10 s) = drivers_related s"
  "drivers_related (bs_terminalCancellations_update f11 s) = drivers_related s"
  "drivers_related (bs_pendingHandles_update f12 s) = drivers_related s"
  "drivers_related (bs_commandExecutions_update f13 s) = drivers_related s"
  "drivers_related (bs_currentSessionsSnapshot_update f14 s) = drivers_related s"
  "drivers_related (bs_runtimeHealth_update f15 s) = drivers_related s"
  by (simp_all add: drivers_related_def driver_bound_def)

lemma events_related_footprint [simp]:
  "events_related (bs_runtimeResetEpoch_update f0 s) h = events_related s h"
  "events_related (bs_host_update f1 s) h = events_related s h"
  "events_related (bs_sessionDrivers_update f3 s) h = events_related s h"
  "events_related (bs_reconciledDrivers_update f4 s) h = events_related s h"
  "events_related (bs_sessionRevisions_update f6 s) h = events_related s h"
  "events_related (bs_recipientSetVersion_update f7 s) h = events_related s h"
  "events_related (bs_eventUploadCompletions_update f8 s) h = events_related s h"
  "events_related (bs_producerEventReservations_update f9 s) h = events_related s h"
  "events_related (bs_producerEventCheckpoints_update f10 s) h = events_related s h"
  "events_related (bs_terminalCancellations_update f11 s) h = events_related s h"
  "events_related (bs_pendingHandles_update f12 s) h = events_related s h"
  "events_related (bs_commandExecutions_update f13 s) h = events_related s h"
  "events_related (bs_currentSessionsSnapshot_update f14 s) h = events_related s h"
  "events_related (bs_runtimeHealth_update f15 s) h = events_related s h"
  by (simp_all add: events_related_def event_bound_def)

lemma revisions_related_footprint [simp]:
  "revisions_related (bs_runtimeResetEpoch_update f0 s) = revisions_related s"
  "revisions_related (bs_host_update f1 s) = revisions_related s"
  "revisions_related (bs_sessions_update f2 s) = revisions_related s"
  "revisions_related (bs_sessionDrivers_update f3 s) = revisions_related s"
  "revisions_related (bs_reconciledDrivers_update f4 s) = revisions_related s"
  "revisions_related (bs_recentEvents_update f5 s) = revisions_related s"
  "revisions_related (bs_recipientSetVersion_update f7 s) = revisions_related s"
  "revisions_related (bs_eventUploadCompletions_update f8 s) = revisions_related s"
  "revisions_related (bs_producerEventReservations_update f9 s) = revisions_related s"
  "revisions_related (bs_producerEventCheckpoints_update f10 s) = revisions_related s"
  "revisions_related (bs_terminalCancellations_update f11 s) = revisions_related s"
  "revisions_related (bs_pendingHandles_update f12 s) = revisions_related s"
  "revisions_related (bs_commandExecutions_update f13 s) = revisions_related s"
  "revisions_related (bs_currentSessionsSnapshot_update f14 s) = revisions_related s"
  "revisions_related (bs_runtimeHealth_update f15 s) = revisions_related s"
  by (simp_all add: revisions_related_def )

lemma handles_related_footprint [simp]:
  "handles_related (bs_runtimeResetEpoch_update f0 s) h = handles_related s h"
  "handles_related (bs_host_update f1 s) h = handles_related s h"
  "handles_related (bs_sessions_update f2 s) h = handles_related s h"
  "handles_related (bs_sessionDrivers_update f3 s) h = handles_related s h"
  "handles_related (bs_reconciledDrivers_update f4 s) h = handles_related s h"
  "handles_related (bs_sessionRevisions_update f6 s) h = handles_related s h"
  "handles_related (bs_recipientSetVersion_update f7 s) h = handles_related s h"
  "handles_related (bs_eventUploadCompletions_update f8 s) h = handles_related s h"
  "handles_related (bs_producerEventReservations_update f9 s) h = handles_related s h"
  "handles_related (bs_producerEventCheckpoints_update f10 s) h = handles_related s h"
  "handles_related (bs_terminalCancellations_update f11 s) h = handles_related s h"
  "handles_related (bs_commandExecutions_update f13 s) h = handles_related s h"
  "handles_related (bs_currentSessionsSnapshot_update f14 s) h = handles_related s h"
  "handles_related (bs_runtimeHealth_update f15 s) h = handles_related s h"
  by (simp_all add: handles_related_def handle_bound_def event_of_def)

lemma commands_related_footprint [simp]:
  "commands_related P (bs_runtimeResetEpoch_update f0 s) h = commands_related P s h"
  "commands_related P (bs_host_update f1 s) h = commands_related P s h"
  "commands_related P (bs_sessions_update f2 s) h = commands_related P s h"
  "commands_related P (bs_sessionDrivers_update f3 s) h = commands_related P s h"
  "commands_related P (bs_reconciledDrivers_update f4 s) h = commands_related P s h"
  "commands_related P (bs_recentEvents_update f5 s) h = commands_related P s h"
  "commands_related P (bs_sessionRevisions_update f6 s) h = commands_related P s h"
  "commands_related P (bs_recipientSetVersion_update f7 s) h = commands_related P s h"
  "commands_related P (bs_eventUploadCompletions_update f8 s) h = commands_related P s h"
  "commands_related P (bs_producerEventReservations_update f9 s) h = commands_related P s h"
  "commands_related P (bs_producerEventCheckpoints_update f10 s) h = commands_related P s h"
  "commands_related P (bs_terminalCancellations_update f11 s) h = commands_related P s h"
  "commands_related P (bs_pendingHandles_update f12 s) h = commands_related P s h"
  "commands_related P (bs_currentSessionsSnapshot_update f14 s) h = commands_related P s h"
  "commands_related P (bs_runtimeHealth_update f15 s) h = commands_related P s h"
  by (simp_all add: commands_related_def )

lemma completions_related_footprint [simp]:
  "completions_related (bs_runtimeResetEpoch_update f0 s) = completions_related s"
  "completions_related (bs_host_update f1 s) = completions_related s"
  "completions_related (bs_sessions_update f2 s) = completions_related s"
  "completions_related (bs_sessionDrivers_update f3 s) = completions_related s"
  "completions_related (bs_reconciledDrivers_update f4 s) = completions_related s"
  "completions_related (bs_recipientSetVersion_update f7 s) = completions_related s"
  "completions_related (bs_producerEventReservations_update f9 s) = completions_related s"
  "completions_related (bs_producerEventCheckpoints_update f10 s) = completions_related s"
  "completions_related (bs_terminalCancellations_update f11 s) = completions_related s"
  "completions_related (bs_pendingHandles_update f12 s) = completions_related s"
  "completions_related (bs_commandExecutions_update f13 s) = completions_related s"
  "completions_related (bs_currentSessionsSnapshot_update f14 s) = completions_related s"
  "completions_related (bs_runtimeHealth_update f15 s) = completions_related s"
  by (simp_all add: completions_related_def completion_bound_def event_of_def readCurrentSessionRevision_def)

lemma reservations_related_footprint [simp]:
  "reservations_related (bs_runtimeResetEpoch_update f0 s) = reservations_related s"
  "reservations_related (bs_host_update f1 s) = reservations_related s"
  "reservations_related (bs_sessions_update f2 s) = reservations_related s"
  "reservations_related (bs_sessionDrivers_update f3 s) = reservations_related s"
  "reservations_related (bs_reconciledDrivers_update f4 s) = reservations_related s"
  "reservations_related (bs_sessionRevisions_update f6 s) = reservations_related s"
  "reservations_related (bs_recipientSetVersion_update f7 s) = reservations_related s"
  "reservations_related (bs_eventUploadCompletions_update f8 s) = reservations_related s"
  "reservations_related (bs_producerEventCheckpoints_update f10 s) = reservations_related s"
  "reservations_related (bs_terminalCancellations_update f11 s) = reservations_related s"
  "reservations_related (bs_pendingHandles_update f12 s) = reservations_related s"
  "reservations_related (bs_commandExecutions_update f13 s) = reservations_related s"
  "reservations_related (bs_currentSessionsSnapshot_update f14 s) = reservations_related s"
  "reservations_related (bs_runtimeHealth_update f15 s) = reservations_related s"
  by (simp_all add: reservations_related_def reservation_bound_def event_of_def)

lemma checkpoints_related_footprint [simp]:
  "checkpoints_related (bs_runtimeResetEpoch_update f0 s) = checkpoints_related s"
  "checkpoints_related (bs_host_update f1 s) = checkpoints_related s"
  "checkpoints_related (bs_sessionDrivers_update f3 s) = checkpoints_related s"
  "checkpoints_related (bs_reconciledDrivers_update f4 s) = checkpoints_related s"
  "checkpoints_related (bs_sessionRevisions_update f6 s) = checkpoints_related s"
  "checkpoints_related (bs_recipientSetVersion_update f7 s) = checkpoints_related s"
  "checkpoints_related (bs_eventUploadCompletions_update f8 s) = checkpoints_related s"
  "checkpoints_related (bs_producerEventReservations_update f9 s) = checkpoints_related s"
  "checkpoints_related (bs_terminalCancellations_update f11 s) = checkpoints_related s"
  "checkpoints_related (bs_pendingHandles_update f12 s) = checkpoints_related s"
  "checkpoints_related (bs_commandExecutions_update f13 s) = checkpoints_related s"
  "checkpoints_related (bs_currentSessionsSnapshot_update f14 s) = checkpoints_related s"
  "checkpoints_related (bs_runtimeHealth_update f15 s) = checkpoints_related s"
  by (simp_all add: checkpoints_related_def checkpoint_bound_def event_of_def)

lemma cancellations_related_footprint [simp]:
  "cancellations_related (bs_runtimeResetEpoch_update f0 s) = cancellations_related s"
  "cancellations_related (bs_host_update f1 s) = cancellations_related s"
  "cancellations_related (bs_sessionDrivers_update f3 s) = cancellations_related s"
  "cancellations_related (bs_reconciledDrivers_update f4 s) = cancellations_related s"
  "cancellations_related (bs_sessionRevisions_update f6 s) = cancellations_related s"
  "cancellations_related (bs_recipientSetVersion_update f7 s) = cancellations_related s"
  "cancellations_related (bs_eventUploadCompletions_update f8 s) = cancellations_related s"
  "cancellations_related (bs_producerEventReservations_update f9 s) = cancellations_related s"
  "cancellations_related (bs_producerEventCheckpoints_update f10 s) = cancellations_related s"
  "cancellations_related (bs_pendingHandles_update f12 s) = cancellations_related s"
  "cancellations_related (bs_commandExecutions_update f13 s) = cancellations_related s"
  "cancellations_related (bs_currentSessionsSnapshot_update f14 s) = cancellations_related s"
  "cancellations_related (bs_runtimeHealth_update f15 s) = cancellations_related s"
  by (simp_all add: cancellations_related_def cancellation_bound_def event_of_def)

lemma publication_related_footprint [simp]:
  "publication_related (bs_runtimeResetEpoch_update f0 s) = publication_related s"
  "publication_related (bs_host_update f1 s) = publication_related s"
  "publication_related (bs_sessions_update f2 s) = publication_related s"
  "publication_related (bs_sessionDrivers_update f3 s) = publication_related s"
  "publication_related (bs_reconciledDrivers_update f4 s) = publication_related s"
  "publication_related (bs_recentEvents_update f5 s) = publication_related s"
  "publication_related (bs_sessionRevisions_update f6 s) = publication_related s"
  "publication_related (bs_eventUploadCompletions_update f8 s) = publication_related s"
  "publication_related (bs_producerEventReservations_update f9 s) = publication_related s"
  "publication_related (bs_producerEventCheckpoints_update f10 s) = publication_related s"
  "publication_related (bs_terminalCancellations_update f11 s) = publication_related s"
  "publication_related (bs_pendingHandles_update f12 s) = publication_related s"
  "publication_related (bs_commandExecutions_update f13 s) = publication_related s"
  "publication_related (bs_runtimeHealth_update f15 s) = publication_related s"
  by (simp_all add: publication_related_def )

subsection \<open>Finding events\<close>

lemma find_event_Some: "find_event es i = Some e \<Longrightarrow> e \<in> set es \<and> ev_eventId e = i"
  unfolding find_event_def by (auto simp: find_Some_iff)

lemma find_event_None: "find_event es i = None \<longleftrightarrow> i \<notin> ev_eventId ` set es"
  unfolding find_event_def by (auto simp: find_None_iff)

lemma find_event_mem:
  "distinct (map ev_eventId es) \<Longrightarrow> e \<in> set es \<Longrightarrow> find_event es (ev_eventId e) = Some e"
  by (metis distinct_map find_event_None find_event_Some image_eqI inj_onD not_None_eq)

lemma find_event_subset:
  assumes "distinct (map ev_eventId es)" and "set fs \<subseteq> set es"
  shows "find_event fs i = None \<or> find_event fs i = find_event es i"
  using find_event_Some[of fs i] find_event_mem[OF assms(1)] assms(2) by (cases "find_event fs i") auto

subsection \<open>Objects\<close>

lemma set_oput: "set (oput k v m) \<subseteq> insert (k, v) (set m)"
  unfolding oput_def by (induction m) auto

lemma set_odel: "set (odel k m) = {p \<in> set m. fst p \<noteq> k}"
  unfolding odel_def by (auto simp: AList.delete_eq)

lemma set_odels: "set (foldl (\<lambda>m k. odel k m) m ks) = {p \<in> set m. fst p \<notin> set ks}"
  by (induction ks arbitrary: m) (auto simp: set_odel)

lemma oget_odels: "oget (foldl (\<lambda>m k. odel k m) m ks) i = (if i \<in> set ks then None else oget m i)"
  by (induction ks arbitrary: m) (auto simp: oget_odel)

lemma set_last_entries: "set (last_entries n xs) \<subseteq> set xs"
  by (simp add: last_entries_def set_drop_subset)

lemma set_ovalues_oput: "set (ovalues (oput k v m)) \<subseteq> insert v (set (ovalues m))"
  using set_oput[of k v m] by (force simp: ovalues_def)

lemma set_ovalues_odel: "set (ovalues (odel k m)) \<subseteq> set (ovalues m)"
  using set_odel[of k m] by (force simp: ovalues_def)

end
