(* ===== verification/Event_Retention.thy ===== *)
theory Event_Retention
  imports Bridge_Relations
begin

section \<open>What the bounded event history keeps\<close>

text \<open>
  Lemmas on \<open>retainRecentEvents\<close>: the history has one event per id, never loses an event that a
  pending handle names, and is bounded by 200 events or the number of protected ones.
\<close>

lemma set_first_by_id: "set (first_by_id es) \<subseteq> set es"
  by (induction es) auto

lemma distinct_first_by_id: "distinct (map ev_eventId (first_by_id es))"
  by (induction es) (auto simp: distinct_map_filter)

lemma find_filter_ne:
  "i \<noteq> j \<Longrightarrow> find_event (filter (\<lambda>c. ev_eventId c \<noteq> j) es) i = find_event es i"
  unfolding find_event_def by (induction es) auto

lemma find_first_by_id: "find_event (first_by_id es) i = find_event es i"
proof (induction es)
  case (Cons e es)
  then show ?case
    using find_filter_ne[of i "ev_eventId e" "first_by_id es"]
    by (auto simp: find_event_def)
qed simp

lemma first_by_id_distinct: "distinct (map ev_eventId es) \<Longrightarrow> first_by_id es = es"
proof (induction es)
  case (Cons e es)
  then have "filter (\<lambda>c. ev_eventId c \<noteq> ev_eventId e) es = es"
    by (auto simp: filter_id_conv image_iff)
  with Cons show ?case by simp
qed simp

definition protected_events ::
  "canonical_event list \<Rightarrow> (jsstring, pending_handle) object \<Rightarrow> canonical_event list" where
  "protected_events events handles =
    filter (\<lambda>e. ev_eventId e \<in> protected_ids handles) (first_by_id events)"

definition free_events ::
  "canonical_event list \<Rightarrow> (jsstring, pending_handle) object \<Rightarrow> canonical_event list" where
  "free_events events handles =
    filter (\<lambda>e. ev_eventId e \<notin> protected_ids handles) (first_by_id events)"

lemma retain_alt:
  "retainRecentEvents lc events handles =
    js_sort (\<lambda>l r. lc (ev_createdAt r) (ev_createdAt l))
      (protected_events events handles
        @ take (MAX_RECENT_EVENTS - length (protected_events events handles)) (free_events events handles))"
  by (simp add: retainRecentEvents_def protected_events_def free_events_def Let_def)

lemma set_retain:
  "set (retainRecentEvents lc events handles) =
    set (protected_events events handles)
    \<union> set (take (MAX_RECENT_EVENTS - length (protected_events events handles)) (free_events events handles))"
  by (simp add: retain_alt)

lemma set_retain_subset: "set (retainRecentEvents lc events handles) \<subseteq> set (first_by_id events)"
  unfolding set_retain protected_events_def free_events_def by (auto dest: in_set_takeD)

lemma distinct_retain: "distinct (map ev_eventId (retainRecentEvents lc events handles))"
proof -
  let ?p = "protected_events events handles" and ?f = "free_events events handles"
  have "distinct (map ev_eventId ?p)" "distinct (map ev_eventId ?f)"
    unfolding protected_events_def free_events_def
    using distinct_first_by_id by (blast intro: distinct_map_filter)+
  moreover have "ev_eventId ` set ?p \<inter> ev_eventId ` set ?f = {}"
    unfolding protected_events_def free_events_def by auto
  moreover have "ev_eventId ` set (take n ?f) \<subseteq> ev_eventId ` set ?f" for n
    by (rule image_mono) (rule set_take_subset)
  moreover have "distinct (map ev_eventId (take n ?f))" if "distinct (map ev_eventId ?f)" for n
    using distinct_take[OF that] by (simp add: take_map)
  ultimately have "distinct (map ev_eventId (?p @ take n ?f))" for n
    unfolding map_append distinct_append set_map by blast
  then show ?thesis by (simp only: retain_alt distinct_js_sort)
qed

lemma retain_protected:
  assumes "find_event events i = Some e" and "i \<in> protected_ids handles"
  shows "find_event (retainRecentEvents lc events handles) i = Some e"
proof -
  have e: "e \<in> set (first_by_id events)" "ev_eventId e = i"
    using assms(1) find_first_by_id[of events i] find_event_Some by metis+
  then have "e \<in> set (retainRecentEvents lc events handles)"
    using assms(2) by (simp add: set_retain protected_events_def)
  from find_event_mem[OF distinct_retain this] e show ?thesis by simp
qed

lemma find_retain:
  "find_event (retainRecentEvents lc events handles) i = None
    \<or> find_event (retainRecentEvents lc events handles) i = find_event events i"
  using find_event_subset[OF distinct_first_by_id set_retain_subset] find_first_by_id by metis

lemma length_protected: "length (protected_events events handles) \<le> length handles"
proof -
  let ?p = "protected_events events handles"
  have d: "distinct (map ev_eventId ?p)"
    unfolding protected_events_def using distinct_first_by_id by (blast intro: distinct_map_filter)
  have "ev_eventId ` set ?p \<subseteq> protected_ids handles"
    unfolding protected_events_def by auto
  moreover have "card (protected_ids handles) \<le> length handles"
    unfolding protected_ids_def using card_length[of "map ph_handledThroughEventId (ovalues handles)"]
    by (simp add: ovalues_def)
  moreover have "finite (protected_ids handles)" by (simp add: protected_ids_def)
  ultimately have "card (set (map ev_eventId ?p)) \<le> length handles"
    by (metis card_mono le_trans set_map)
  then show ?thesis using distinct_card[OF d] by simp
qed

lemma length_retain:
  "length (retainRecentEvents lc events handles) \<le> max MAX_RECENT_EVENTS (length handles)"
  using length_protected[of events handles] by (simp add: retain_alt)

lemma retain_free_prefix:
  assumes "e \<in> set events" "find_event events (ev_eventId e) = Some e"
    and "e \<notin> set (retainRecentEvents lc events handles)"
  shows "ev_eventId e \<notin> protected_ids handles
    \<and> e \<in> set (drop (MAX_RECENT_EVENTS - length (protected_events events handles)) (free_events events handles))"
proof -
  have e: "e \<in> set (first_by_id events)"
    using assms(2) find_first_by_id[of events "ev_eventId e"] find_event_Some by metis
  have free: "ev_eventId e \<notin> protected_ids handles"
    using assms(3) e by (auto simp: set_retain protected_events_def)
  then have "e \<in> set (free_events events handles)" using e by (simp add: free_events_def)
  then have "e \<in> set (take n (free_events events handles)) \<or> e \<in> set (drop n (free_events events handles))" for n
    by (metis Un_iff append_take_drop_id set_append)
  with assms(3) free show ?thesis by (auto simp: set_retain)
qed

lemma sorted_retain:
  assumes "consistent_compare lc"
  shows "sorted_wrt (\<lambda>l r. lc (ev_createdAt r) (ev_createdAt l) \<le> 0) (retainRecentEvents lc events handles)"
proof -
  have "consistent_compare (\<lambda>l r. lc (ev_createdAt r) (ev_createdAt l))"
    using assms unfolding consistent_compare_def by blast
  then show ?thesis unfolding retain_alt by (rule sorted_js_sort)
qed

lemma retain_small:
  assumes "distinct (map ev_eventId events)" and "length events \<le> MAX_RECENT_EVENTS"
  shows "set (retainRecentEvents lc events handles) = set events"
proof -
  have split: "length (protected_events events handles) + length (free_events events handles) = length events"
    unfolding protected_events_def free_events_def first_by_id_distinct[OF assms(1)]
    by (rule sum_length_filter_compl)
  then have "take (MAX_RECENT_EVENTS - length (protected_events events handles)) (free_events events handles)
      = free_events events handles"
    using assms(2) by simp
  then show ?thesis
    unfolding set_retain by (auto simp: protected_events_def free_events_def first_by_id_distinct[OF assms(1)])
qed

end
