(* ===== verification/Bridge_Keeping.thy ===== *)
theory Bridge_Keeping
  imports Event_Retention
begin

section \<open>Every transition keeps a consistent state consistent\<close>

text \<open>
  For each transition of the runtime state, the guard under which it keeps \<open>related\<close>, the
  relationships that loading the state file checks, and the interpretation of the shell's
  contract on it. A guard is what the transition itself does not check: most are about its
  arguments alone; the guard of \<open>replaceDriverSessions\<close>, \<open>removeSession\<close> and
  \<open>commitSessionRevision\<close> is about what else the state holds.
\<close>

lemma relatedI:
  assumes "host_related s h" "sessions_related s h" "drivers_related s" "events_related s h"
    "revisions_related s" "handles_related s h" "commands_related P s h" "completions_related s"
    "reservations_related s" "checkpoints_related s" "cancellations_related s" "publication_related s"
  shows "related P s h"
  using assms by (simp add: related_def)

lemma relatedD:
  assumes "related P s h"
  shows "host_related s h" "sessions_related s h" "drivers_related s" "events_related s h"
    "revisions_related s" "handles_related s h" "commands_related P s h" "completions_related s"
    "reservations_related s" "checkpoints_related s" "cancellations_related s" "publication_related s"
  using assms by (simp_all add: related_def)

subsection \<open>Sessions\<close>

definition provider_fits :: "bridge_state \<Rightarrow> canonical_session \<Rightarrow> bool" where
  "provider_fits s c \<longleftrightarrow> (\<forall>e \<in> set (bs_recentEvents s).
    ev_sessionId e = cs_sessionId c \<longrightarrow> ev_provider e = cs_provider c)"

text \<open>The durable evidence that only makes sense while its session exists: a checkpoint, and a
  cancellation that keeps the session.\<close>

definition session_pinned :: "bridge_state \<Rightarrow> jsstring \<Rightarrow> bool" where
  "session_pinned s sessionId \<longleftrightarrow>
    sessionId \<in> fst ` set (opt_object (bs_producerEventCheckpoints s))
    \<or> (\<exists>(eventId, c) \<in> set (opt_object (bs_terminalCancellations s)).
         tc_sessionId c = sessionId \<and> \<not> tc_removeSession c)"

definition cancellation_pins :: "bridge_state \<Rightarrow> jsstring \<Rightarrow> bool" where
  "cancellation_pins s sessionId \<longleftrightarrow>
    (\<exists>(eventId, c) \<in> set (opt_object (bs_terminalCancellations s)).
         tc_sessionId c = sessionId \<and> \<not> tc_removeSession c)"

lemma related_sessions:
  assumes R: "related P s h"
    and s': "s' = s\<lparr>bs_sessions := S, bs_sessionDrivers := D, bs_producerEventCheckpoints := C\<rparr>"
    and keys: "oinv S" "oinv D"
    and S: "\<And>k c. oget S k = Some c \<Longrightarrow> cs_sessionId c = k \<and> cs_hostId c = h"
    and D: "\<And>k d. oget D k = Some d \<Longrightarrow> \<exists>c. oget S k = Some c \<and> (d = js ''agent-adapter'' \<or> d = cs_provider c)"
    and E: "\<And>k c. oget S k = Some c \<Longrightarrow> oget (bs_sessions s) k = Some c \<or> provider_fits s c"
    and C: "\<And>k c. (k, c) \<in> set (opt_object C) \<Longrightarrow>
        (k, c) \<in> set (opt_object (bs_producerEventCheckpoints s)) \<and> oget S k \<noteq> None"
    and T: "\<And>k c. (k, c) \<in> set (opt_object (bs_terminalCancellations s)) \<Longrightarrow> \<not> tc_removeSession c \<Longrightarrow>
        oget S (tc_sessionId c) \<noteq> None"
  shows "related P s' h"
proof (rule relatedI)
  note r = relatedD[OF R]
  show "sessions_related s' h"
    using S oinv_mem_oget[OF keys(1)] by (auto simp: s' sessions_related_def)
  have sid: "oget S k = Some c \<Longrightarrow> cs_sessionId c = k" for k c
    using S by blast
  show "drivers_related s'"
    using D sid oinv_mem_oget[OF keys(2)] by (fastforce simp: s' drivers_related_def driver_bound_def)
  have old: "event_bound s h e" if "e \<in> set (bs_recentEvents s)" for e
    using r(4) that by (simp add: events_related_def)
  have "event_bound s' h e" if e: "e \<in> set (bs_recentEvents s)" for e
  proof (cases "oget S (ev_sessionId e)")
    case (Some c)
    then show ?thesis
      using old[OF e] E[OF Some] sid[OF Some] e by (auto simp: s' event_bound_def provider_fits_def)
  qed (use old[OF e] in \<open>auto simp: s' event_bound_def\<close>)
  then show "events_related s' h" using r(4) by (auto simp: s' events_related_def)
  show "checkpoints_related s'"
    using r(10) C by (fastforce simp: s' checkpoints_related_def checkpoint_bound_def event_of_def)
  show "cancellations_related s'"
    using r(11) T by (fastforce simp: s' cancellations_related_def cancellation_bound_def event_of_def)
qed (use relatedD[OF R] in \<open>simp_all add: s'\<close>)

lemma related_driver_entry:
  assumes "related P s h" and "oget (bs_sessionDrivers s) k = Some d"
  shows "\<exists>c. oget (bs_sessions s) k = Some c \<and> (d = js ''agent-adapter'' \<or> d = cs_provider c)"
  using relatedD(3)[OF assms(1)] oget_SomeD[OF assms(2)]
  by (auto simp: drivers_related_def driver_bound_def split: option.splits)

lemma related_session_entry:
  assumes "related P s h" and "oget (bs_sessions s) k = Some c"
  shows "cs_sessionId c = k \<and> cs_hostId c = h"
  using relatedD(2)[OF assms(1)] oget_SomeD[OF assms(2)] by (auto simp: sessions_related_def)

lemma related_checkpoint_entry:
  assumes "related P s h" and "(k, c) \<in> set (opt_object (bs_producerEventCheckpoints s))"
  shows "oget (bs_sessions s) k \<noteq> None"
  using relatedD(10)[OF assms(1)] assms(2) by (auto simp: checkpoints_related_def checkpoint_bound_def)

lemma related_cancellation_entry:
  assumes "related P s h" and "(k, c) \<in> set (opt_object (bs_terminalCancellations s))"
    and "\<not> tc_removeSession c"
  shows "oget (bs_sessions s) (tc_sessionId c) \<noteq> None"
  using relatedD(11)[OF assms(1)] assms(2,3) by (auto simp: cancellations_related_def cancellation_bound_def)

subsubsection \<open>Replacing the sessions of a driver\<close>

definition stale_sessions :: "bridge_state \<Rightarrow> jsstring \<Rightarrow> canonical_session list \<Rightarrow> jsstring list" where
  "stale_sessions s driverName sessions = map fst (filter (\<lambda>(sessionId, registeredDriver).
     registeredDriver = driverName \<and> sessionId \<notin> set (map cs_sessionId sessions)) (bs_sessionDrivers s))"

lemma oget_bind_sessions:
  "oget (foldl (\<lambda>m c. oput (cs_sessionId c) c m) S cs) k = Some c
    \<Longrightarrow> oget S k = Some c \<or> (c \<in> set cs \<and> cs_sessionId c = k)"
proof (induction cs arbitrary: S)
  case (Cons a cs)
  then show ?case by (fastforce simp: oget_oput split: if_splits)
qed simp

lemma oget_bind_sessions_some:
  "k \<in> cs_sessionId ` set cs \<or> oget S k \<noteq> None
    \<Longrightarrow> \<exists>c. oget (foldl (\<lambda>m c. oput (cs_sessionId c) c m) S cs) k = Some c
      \<and> (k \<in> cs_sessionId ` set cs \<longrightarrow> c \<in> set cs \<and> cs_sessionId c = k)
      \<and> (k \<notin> cs_sessionId ` set cs \<longrightarrow> oget S k = Some c)"
proof (induction cs arbitrary: S)
  case (Cons a cs)
  have "k \<in> cs_sessionId ` set cs \<or> oget (oput (cs_sessionId a) a S) k \<noteq> None"
    using Cons.prems by (auto simp: oget_oput)
  from Cons.IH[OF this] show ?case by (auto simp: oget_oput split: if_splits)
qed auto

lemma oget_bind_drivers:
  "oget (foldl (\<lambda>m c. oput (cs_sessionId c) d m) D cs) k =
    (if k \<in> cs_sessionId ` set cs then Some d else oget D k)"
  by (induction cs arbitrary: D) (auto simp: oget_oput)

lemma oinv_foldl_oput: "oinv m \<Longrightarrow> oinv (foldl (\<lambda>m c. oput (f c) (g c) m) m cs)"
  by (induction cs arbitrary: m) (auto simp: oinv_oput)

lemma oinv_foldl_odel: "oinv m \<Longrightarrow> oinv (foldl (\<lambda>m k. odel k m) m ks)"
  by (induction ks arbitrary: m) (auto simp: oinv_odel)

definition replace_sessions_guard ::
  "jsstring \<Rightarrow> jsstring \<Rightarrow> canonical_session list \<Rightarrow> bridge_state \<Rightarrow> bool" where
  "replace_sessions_guard hostId driverName sessions s \<longleftrightarrow>
    (\<forall>c \<in> set sessions. cs_hostId c = hostId \<and> provider_fits s c
       \<and> (driverName = js ''agent-adapter'' \<or> driverName = cs_provider c))
    \<and> (\<forall>k \<in> set (stale_sessions s driverName sessions). \<not> session_pinned s k)"

lemma stale_session_iff:
  assumes "oinv (bs_sessionDrivers s)"
  shows "k \<in> set (stale_sessions s driverName sessions) \<longleftrightarrow>
    oget (bs_sessionDrivers s) k = Some driverName \<and> k \<notin> cs_sessionId ` set sessions"
  using oget_SomeD[of "bs_sessionDrivers s" k driverName] oinv_mem_oget[OF assms, of k driverName]
  by (force simp: stale_sessions_def)

lemma replace_sessions_keeps:
  assumes keep: "consistent P h s" and guard: "replace_sessions_guard h driverName sessions s"
    and step: "replaceDriverSessionsTransition s driverName sessions = Inr (n, r)"
  shows "consistent P h (resulting s n)"
proof -
  let ?stale = "stale_sessions s driverName sessions"
  define S where "S = foldl (\<lambda>m c. oput (cs_sessionId c) c m) (foldl (\<lambda>m k. odel k m) (bs_sessions s) ?stale) sessions"
  define D where "D = foldl (\<lambda>m c. oput (cs_sessionId c) driverName m)
    (foldl (\<lambda>m k. odel k m) (bs_sessionDrivers s) ?stale) sessions"
  have R: "related P s h" and ok: "objects_ok s" using keep by (simp_all add: consistent_iff)
  have keys: "oinv (bs_sessions s)" "oinv (bs_sessionDrivers s)" using ok by (simp_all add: objects_ok_def)
  have n: "resulting s n = s\<lparr>bs_sessions := S, bs_sessionDrivers := D,
      bs_producerEventCheckpoints := bs_producerEventCheckpoints s,
      bs_reconciledDrivers := oput driverName () (bs_reconciledDrivers s)\<rparr>"
    using step unfolding replaceDriverSessionsTransition_def bind_sessions_def unbind_sessions_def
      stale_sessions_def[symmetric] Let_def S_def D_def by auto
  have g: "cs_hostId c = h \<and> provider_fits s c \<and> (driverName = js ''agent-adapter'' \<or> driverName = cs_provider c)"
    if "c \<in> set sessions" for c
    using guard that by (simp add: replace_sessions_guard_def)
  have keysS: "oinv S" "oinv D"
    unfolding S_def D_def using keys by (auto intro!: oinv_foldl_oput oinv_foldl_odel)
  have S_cases: "(c \<in> set sessions \<and> cs_sessionId c = k) \<or> (k \<notin> set ?stale \<and> oget (bs_sessions s) k = Some c)"
    if "oget S k = Some c" for k c
    using oget_bind_sessions[OF that[unfolded S_def]] by (auto simp: oget_odels split: if_splits)
  have S_some: "\<exists>c. oget S k = Some c \<and> (k \<in> cs_sessionId ` set sessions \<longrightarrow> c \<in> set sessions)
      \<and> (k \<notin> cs_sessionId ` set sessions \<longrightarrow> oget (bs_sessions s) k = Some c)"
    if "k \<in> cs_sessionId ` set sessions \<or> (oget (bs_sessions s) k \<noteq> None \<and> k \<notin> set ?stale)" for k
    using oget_bind_sessions_some[of k sessions "foldl (\<lambda>m k. odel k m) (bs_sessions s) ?stale"] that
    by (auto simp: S_def oget_odels)
  have pinned: "k \<notin> set ?stale" if "session_pinned s k" for k
    using guard that by (auto simp: replace_sessions_guard_def)
  have "related P (s\<lparr>bs_sessions := S, bs_sessionDrivers := D,
      bs_producerEventCheckpoints := bs_producerEventCheckpoints s\<rparr>) h"
  proof (rule related_sessions[OF R refl keysS])
    fix k c assume "oget S k = Some c"
    from S_cases[OF this] show "cs_sessionId c = k \<and> cs_hostId c = h"
      using g related_session_entry[OF R] by blast
  next
    fix k d assume d: "oget D k = Some d"
    show "\<exists>c. oget S k = Some c \<and> (d = js ''agent-adapter'' \<or> d = cs_provider c)"
    proof (cases "k \<in> cs_sessionId ` set sessions")
      case True
      then have "d = driverName" using d by (simp add: D_def oget_bind_drivers)
      then show ?thesis using S_some[of k] True g by blast
    next
      case False
      then have old: "oget (bs_sessionDrivers s) k = Some d" "k \<notin> set ?stale"
        using d by (auto simp: D_def oget_bind_drivers oget_odels split: if_splits)
      from related_driver_entry[OF R old(1)] S_some[of k] False old(2) show ?thesis by auto
    qed
  next
    fix k c assume "oget S k = Some c"
    from S_cases[OF this] show "oget (bs_sessions s) k = Some c \<or> provider_fits s c" using g by blast
  next
    fix k c assume c: "(k, c) \<in> set (opt_object (bs_producerEventCheckpoints s))"
    then have "session_pinned s k" by (force simp: session_pinned_def)
    from S_some[of k] pinned[OF this] related_checkpoint_entry[OF R c] c
    show "(k, c) \<in> set (opt_object (bs_producerEventCheckpoints s)) \<and> oget S k \<noteq> None" by auto
  next
    fix k c assume c: "(k, c) \<in> set (opt_object (bs_terminalCancellations s))" "\<not> tc_removeSession c"
    then have "session_pinned s (tc_sessionId c)" by (force simp: session_pinned_def)
    from S_some[of "tc_sessionId c"] pinned[OF this] related_cancellation_entry[OF R c]
    show "oget S (tc_sessionId c) \<noteq> None" by auto
  qed
  then show ?thesis
    using ok keysS by (simp add: consistent_iff n related_def objects_ok_def oinv_oput)
qed

subsubsection \<open>Binding, removing and patching one session\<close>

definition set_driver_guard :: "jsstring \<Rightarrow> canonical_session option \<Rightarrow> bridge_state \<Rightarrow> bool" where
  "set_driver_guard hostId given s \<longleftrightarrow>
    (case given of None \<Rightarrow> True | Some c \<Rightarrow> cs_hostId c = hostId \<and> provider_fits s c)"

lemma put_session_related:
  assumes R: "related P s h" and ok: "objects_ok s"
    and c: "cs_sessionId c = k" "cs_hostId c = h"
    and p: "oget (bs_sessions s) k = Some c \<or> provider_fits s c"
    and D: "D = bs_sessionDrivers s \<and> (\<forall>d. oget (bs_sessionDrivers s) k = Some d \<longrightarrow>
            d = js ''agent-adapter'' \<or> d = cs_provider c)
        \<or> D = oput k d (bs_sessionDrivers s) \<and> (d = js ''agent-adapter'' \<or> d = cs_provider c)"
  shows "related P (s\<lparr>bs_sessions := oput k c (bs_sessions s), bs_sessionDrivers := D\<rparr>) h"
proof -
  have keys: "oinv (bs_sessions s)" "oinv (bs_sessionDrivers s)" using ok by (simp_all add: objects_ok_def)
  have "related P (s\<lparr>bs_sessions := oput k c (bs_sessions s), bs_sessionDrivers := D,
      bs_producerEventCheckpoints := bs_producerEventCheckpoints s\<rparr>) h"
  proof (rule related_sessions[OF R refl])
    show "oinv (oput k c (bs_sessions s))" "oinv D" using keys D by (auto simp: oinv_oput)
    fix j e
    show "oget (oput k c (bs_sessions s)) j = Some e \<Longrightarrow> cs_sessionId e = j \<and> cs_hostId e = h"
      using c related_session_entry[OF R] by (auto simp: oget_oput split: if_splits)
    show "oget (oput k c (bs_sessions s)) j = Some e \<Longrightarrow> oget (bs_sessions s) j = Some e \<or> provider_fits s e"
      using p by (auto simp: oget_oput split: if_splits)
  next
    fix j e assume "oget D j = Some e"
    then show "\<exists>c'. oget (oput k c (bs_sessions s)) j = Some c' \<and> (e = js ''agent-adapter'' \<or> e = cs_provider c')"
      using D related_driver_entry[OF R, of j e] by (auto simp: oget_oput split: if_splits)
  qed (use related_checkpoint_entry[OF R] related_cancellation_entry[OF R] in \<open>auto simp: oget_oput\<close>)
  then show ?thesis by simp
qed

lemma set_driver_keeps:
  assumes keep: "consistent P h s" and guard: "set_driver_guard h given s"
    and step: "setSessionDriverTransition s sessionId driverName given = Inr (n, r)"
  shows "consistent P h (resulting s n)"
proof -
  have R: "related P s h" and ok: "objects_ok s" using keep by (simp_all add: consistent_iff)
  obtain c where c: "given = Some c \<or> (given = None \<and> oget (bs_sessions s) sessionId = Some c)"
    and id: "cs_sessionId c = sessionId" and dr: "driverName = js ''agent-adapter'' \<or> driverName = cs_provider c"
    and n: "resulting s n = s\<lparr>bs_sessions := oput sessionId c (bs_sessions s),
      bs_sessionDrivers := oput sessionId driverName (bs_sessionDrivers s)\<rparr>"
    using step by (auto simp: setSessionDriverTransition_def split: option.splits if_splits)
  have "cs_hostId c = h" "oget (bs_sessions s) sessionId = Some c \<or> provider_fits s c"
    using c guard related_session_entry[OF R] by (auto simp: set_driver_guard_def)
  from put_session_related[OF R ok id this, of "oput sessionId driverName (bs_sessionDrivers s)" driverName] dr
  show ?thesis
    unfolding n using ok by (simp add: consistent_iff objects_ok_def oinv_oput)
qed

definition remove_session_guard :: "jsstring \<Rightarrow> bridge_state \<Rightarrow> bool" where
  "remove_session_guard sessionId s \<longleftrightarrow> \<not> cancellation_pins s sessionId"

lemma remove_session_related:
  assumes R: "related P s h" and ok: "objects_ok s" and guard: "\<not> cancellation_pins s sessionId"
    and s': "s' = s\<lparr>bs_sessions := odel sessionId (bs_sessions s),
      bs_sessionDrivers := odel sessionId (bs_sessionDrivers s),
      bs_producerEventCheckpoints := map_option (odel sessionId) (bs_producerEventCheckpoints s)\<rparr>"
  shows "related P s' h" and "objects_ok s'"
proof -
  have keys: "oinv (bs_sessions s)" "oinv (bs_sessionDrivers s)" using ok by (simp_all add: objects_ok_def)
  have opt: "opt_object (map_option (odel sessionId) m) = odel sessionId (opt_object m)" for m :: "(jsstring, source_checkpoint) object option"
    by (cases m) (simp_all add: odel_def)
  show "related P s' h"
  proof (rule related_sessions[OF R s'])
    show "oinv (odel sessionId (bs_sessions s))" "oinv (odel sessionId (bs_sessionDrivers s))"
      using keys by (simp_all add: oinv_odel)
    fix k c assume "(k, c) \<in> set (opt_object (map_option (odel sessionId) (bs_producerEventCheckpoints s)))"
    then show "(k, c) \<in> set (opt_object (bs_producerEventCheckpoints s))
        \<and> oget (odel sessionId (bs_sessions s)) k \<noteq> None"
      using related_checkpoint_entry[OF R] by (auto simp: opt set_odel oget_odel)
  next
    fix k c assume c: "(k, c) \<in> set (opt_object (bs_terminalCancellations s))" "\<not> tc_removeSession c"
    then show "oget (odel sessionId (bs_sessions s)) (tc_sessionId c) \<noteq> None"
      using related_cancellation_entry[OF R c] guard by (force simp: cancellation_pins_def oget_odel)
  qed (use related_session_entry[OF R] related_driver_entry[OF R] in
      \<open>auto simp: oget_odel split: if_splits\<close>)
  show "objects_ok s'" using ok by (simp add: s' objects_ok_def oinv_odel opt)
qed

lemma remove_session_keeps:
  assumes keep: "consistent P h s" and guard: "remove_session_guard sessionId s"
    and step: "removeSessionTransition s sessionId expected = Inr (n, r)"
  shows "consistent P h (resulting s n)"
proof (cases n)
  case (New s')
  have n: "resulting s n = s\<lparr>bs_sessions := odel sessionId (bs_sessions s),
      bs_sessionDrivers := odel sessionId (bs_sessionDrivers s),
      bs_producerEventCheckpoints := map_option (odel sessionId) (bs_producerEventCheckpoints s)\<rparr>"
    using step New by (auto simp: removeSessionTransition_def Let_def split: if_splits)
  show ?thesis
    using remove_session_related[OF _ _ _ n] keep guard by (auto simp: consistent_iff remove_session_guard_def)
qed (use keep in simp)

lemma remove_driver_keeps:
  assumes keep: "consistent P h s" and step: "removeSessionDriverTransition s sessionId = Inr (n, r)"
  shows "consistent P h (resulting s n)"
proof -
  have R: "related P s h" and ok: "objects_ok s" using keep by (simp_all add: consistent_iff)
  have "drivers_related (s\<lparr>bs_sessionDrivers := odel sessionId (bs_sessionDrivers s)\<rparr>)"
    using relatedD(3)[OF R] by (auto simp: drivers_related_def driver_bound_def set_odel)
  then show ?thesis
    using keep R ok step
    by (auto simp: removeSessionDriverTransition_def consistent_iff related_def objects_ok_def oinv_odel
        split: if_splits)
qed

text \<open>A patch that keeps the identity of the session.\<close>

definition patch_guard :: "session_patch \<Rightarrow> bridge_state \<Rightarrow> bool" where
  "patch_guard patch s \<longleftrightarrow> sp_sessionId patch = None \<and> sp_hostId patch = None \<and> sp_provider patch = None"

lemma update_session_keeps:
  assumes keep: "consistent P h s" and guard: "patch_guard patch s"
    and step: "updateSessionTransition s sessionId patch = Inr (n, r)"
  shows "consistent P h (resulting s n)"
proof (cases "oget (bs_sessions s) sessionId")
  case (Some c)
  have R: "related P s h" and ok: "objects_ok s" using keep by (simp_all add: consistent_iff)
  let ?c = "patch_session c patch"
  have n: "resulting s n = s\<lparr>bs_sessions := oput sessionId ?c (bs_sessions s),
      bs_sessionDrivers := bs_sessionDrivers s\<rparr>"
    using step Some by (auto simp: updateSessionTransition_def Let_def)
  have same: "cs_sessionId ?c = cs_sessionId c" "cs_hostId ?c = cs_hostId c" "cs_provider ?c = cs_provider c"
    using guard by (simp_all add: patch_session_def patch_guard_def or_current_def)
  have c: "cs_sessionId c = sessionId" "cs_hostId c = h" using related_session_entry[OF R Some] by simp_all
  have "provider_fits s ?c"
    using relatedD(4)[OF R] Some same c
    by (auto simp: provider_fits_def events_related_def event_bound_def)
  moreover have "oget (bs_sessionDrivers s) sessionId = Some d \<Longrightarrow> d = js ''agent-adapter'' \<or> d = cs_provider ?c" for d
    using related_driver_entry[OF R, of sessionId d] Some same by auto
  ultimately have "related P (resulting s n) h"
    unfolding n using same c by (intro put_session_related[OF R ok]) auto
  then show ?thesis using ok by (simp add: consistent_iff n objects_ok_def oinv_oput)
qed (use keep step in \<open>auto simp: updateSessionTransition_def\<close>)

end
