(* ===== verification/Bridge_Keeping_Events.thy ===== *)
theory Bridge_Keeping_Events
  imports Bridge_Keeping
begin

section \<open>Transitions of events, handles, reservations, revisions and commands\<close>

text \<open>
  The rest of the transitions keep a consistent state consistent: the ones that change the event
  history, the pending handles, the producer evidence, the session revisions, the publication, the
  health, the Host projection and the command journal.
\<close>

subsection \<open>A new event history\<close>

text \<open>An event that agrees with the evidence that names it.\<close>

definition event_compatible :: "bridge_state \<Rightarrow> canonical_event \<Rightarrow> bool" where
  "event_compatible s e \<longleftrightarrow>
    (\<forall>(k, c) \<in> set (opt_object (bs_eventUploadCompletions s)).
       k = ev_eventId e \<longrightarrow> ev_sessionId e = ec_sessionId c)
    \<and> (\<forall>(k, c) \<in> set (opt_object (bs_producerEventReservations s)).
       pr_eventId c = ev_eventId e \<longrightarrow> ev_sessionId e = pr_sessionId c \<and> ev_createdAt e = pr_createdAt c)
    \<and> (\<forall>(k, c) \<in> set (opt_object (bs_producerEventCheckpoints s)).
       ck_eventId c = ev_eventId e \<longrightarrow> ev_sessionId e = ck_sessionId c)
    \<and> (\<forall>(k, c) \<in> set (opt_object (bs_terminalCancellations s)).
       k = ev_eventId e \<longrightarrow> ev_sessionId e = tc_sessionId c)"

lemma related_events:
  assumes R: "related P s h"
    and s': "s' = s\<lparr>bs_recentEvents := E, bs_pendingHandles := H\<rparr>"
    and distinct: "distinct (map ev_eventId E)"
    and bound: "\<And>e. e \<in> set E \<Longrightarrow> event_bound s h e"
    and handles: "handles_related s' h"
    and old: "\<And>i e. find_event E i = Some e \<Longrightarrow> find_event (bs_recentEvents s) i = Some e \<or> event_compatible s e"
  shows "related P s' h"
proof (rule relatedI)
  note r = relatedD[OF R]
  show "events_related s' h" using distinct bound by (simp add: s' events_related_def event_bound_def)
  show "handles_related s' h" by (rule handles)
  have found: "event_of s' i = Some e \<Longrightarrow> event_of s i = Some e \<or> event_compatible s e \<and> ev_eventId e = i" for i e
    using old[of i e] find_event_Some[of E i e] by (auto simp: event_of_def s')
  show "completions_related s'"
    unfolding completions_related_def
  proof
    fix x assume x: "x \<in> set (opt_object (bs_eventUploadCompletions s'))"
    then have x': "x \<in> set (opt_object (bs_eventUploadCompletions s))" by (simp add: s')
    then have b: "completion_bound s x" using r(8) by (simp add: completions_related_def)
    have "ev_sessionId e = ec_sessionId (snd x)" if "event_of s' (fst x) = Some e" for e
      using found[OF that] b x' by (cases x) (auto simp: completion_bound_def Let_def event_compatible_def)
    then show "completion_bound s' x"
      using b by (cases x) (auto simp: completion_bound_def Let_def readCurrentSessionRevision_def s' split: option.split)
  qed
  show "reservations_related s'"
    unfolding reservations_related_def
  proof
    fix x assume x: "x \<in> set (opt_object (bs_producerEventReservations s'))"
    then have x': "x \<in> set (opt_object (bs_producerEventReservations s))" by (simp add: s')
    then have b: "reservation_bound s x" using r(9) by (simp add: reservations_related_def)
    have "ev_sessionId e = pr_sessionId (snd x) \<and> ev_createdAt e = pr_createdAt (snd x)"
      if "event_of s' (pr_eventId (snd x)) = Some e" for e
      using found[OF that] b x' by (cases x) (auto simp: reservation_bound_def event_compatible_def)
    then show "reservation_bound s' x"
      using b by (cases x) (auto simp: reservation_bound_def split: option.split)
  qed
  show "checkpoints_related s'"
    unfolding checkpoints_related_def
  proof
    fix x assume x: "x \<in> set (opt_object (bs_producerEventCheckpoints s'))"
    then have x': "x \<in> set (opt_object (bs_producerEventCheckpoints s))" by (simp add: s')
    then have b: "checkpoint_bound s x" using r(10) by (simp add: checkpoints_related_def)
    have "ev_sessionId e = ck_sessionId (snd x)" if "event_of s' (ck_eventId (snd x)) = Some e" for e
      using found[OF that] b x' by (cases x) (auto simp: checkpoint_bound_def event_compatible_def)
    then show "checkpoint_bound s' x"
      using b by (cases x) (auto simp: checkpoint_bound_def s' split: option.split)
  qed
  show "cancellations_related s'"
    unfolding cancellations_related_def
  proof
    fix x assume x: "x \<in> set (opt_object (bs_terminalCancellations s'))"
    then have x': "x \<in> set (opt_object (bs_terminalCancellations s))" by (simp add: s')
    then have b: "cancellation_bound s x" using r(11) by (simp add: cancellations_related_def)
    have "ev_sessionId e = tc_sessionId (snd x)" if "event_of s' (fst x) = Some e" for e
      using found[OF that] b x' by (cases x) (auto simp: cancellation_bound_def event_compatible_def)
    then show "cancellation_bound s' x"
      using b by (cases x) (auto simp: cancellation_bound_def s' split: option.split)
  qed
qed (use relatedD[OF R] in \<open>simp_all add: s'\<close>)

lemma handle_boundI:
  assumes "key = sessionHandleKey h (ph_sessionId hdl)" "ph_hostId hdl = h"
    and "event_of s (ph_handledThroughEventId hdl) = Some e" "ev_hostId e = h" "ev_sessionId e = ph_sessionId hdl"
    and "ph_handledThroughEventCreatedAt hdl = None \<or> ph_handledThroughEventCreatedAt hdl = Some (ev_createdAt e)"
  shows "handle_bound s h (key, hdl)"
  using assms by (simp add: handle_bound_def)

lemma related_retained:
  assumes R: "related P s h"
    and H: "\<And>key hdl. (key, hdl) \<in> set H \<Longrightarrow> handle_bound (s\<lparr>bs_recentEvents := events\<rparr>) h (key, hdl)"
    and bound: "\<And>e. e \<in> set events \<Longrightarrow> event_bound s h e"
    and old: "\<And>i e. find_event events i = Some e \<Longrightarrow> find_event (bs_recentEvents s) i = Some e \<or> event_compatible s e"
  shows "related P (s\<lparr>bs_recentEvents := retainRecentEvents lc events H, bs_pendingHandles := H\<rparr>) h"
proof (rule related_events[OF R refl])
  let ?E = "retainRecentEvents lc events H"
  show "distinct (map ev_eventId ?E)" by (rule distinct_retain)
  have sub: "set ?E \<subseteq> set events" using set_retain_subset set_first_by_id by blast
  show "event_bound s h e" if "e \<in> set ?E" for e using bound sub that by blast
  show "find_event (bs_recentEvents s) i = Some e \<or> event_compatible s e" if "find_event ?E i = Some e" for i e
    using find_retain[of lc events H i] old[of i e] that by auto
  show "handles_related (s\<lparr>bs_recentEvents := ?E, bs_pendingHandles := H\<rparr>) h"
    unfolding handles_related_def
  proof
    fix x assume "x \<in> set (bs_pendingHandles (s\<lparr>bs_recentEvents := ?E, bs_pendingHandles := H\<rparr>))"
    then have x: "(fst x, snd x) \<in> set H" by simp
    then have p: "ph_handledThroughEventId (snd x) \<in> protected_ids H"
      by (force simp: protected_ids_def ovalues_def)
    from H[OF x] obtain e where "find_event events (ph_handledThroughEventId (snd x)) = Some e"
      by (auto simp: handle_bound_def event_of_def split: option.splits)
    from retain_protected[OF this p] H[OF x] this
    show "handle_bound (s\<lparr>bs_recentEvents := ?E, bs_pendingHandles := H\<rparr>) h x"
      by (cases x) (auto simp: handle_bound_def event_of_def)
  qed
qed

subsubsection \<open>Handles\<close>

definition queue_handle_guard :: "jsstring \<Rightarrow> pending_handle \<Rightarrow> bridge_state \<Rightarrow> bool" where
  "queue_handle_guard hostId handle s \<longleftrightarrow> ph_hostId handle = hostId"

lemma queue_handle_keeps:
  assumes keep: "consistent P h s" and guard: "queue_handle_guard h handle s"
    and step: "queuePendingSessionHandleTransition lc s handle = Inr (n, r)"
  shows "consistent P h (resulting s n)"
proof -
  have R: "related P s h" and ok: "objects_ok s" using keep by (simp_all add: consistent_iff)
  obtain e where e: "find_event (bs_recentEvents s) (ph_handledThroughEventId handle) = Some e"
      "ev_hostId e = ph_hostId handle" "ev_sessionId e = ph_sessionId handle"
    and n: "resulting s n = (let hdl = handle\<lparr>ph_handledThroughEventCreatedAt := Some (ev_createdAt e)\<rparr>;
        H = oput (sessionHandleKey (ph_hostId handle) (ph_sessionId handle)) hdl (bs_pendingHandles s)
      in s\<lparr>bs_recentEvents := retainRecentEvents lc (bs_recentEvents s) H, bs_pendingHandles := H\<rparr>)"
    using step by (auto simp: queuePendingSessionHandleTransition_def Let_def split: option.splits if_splits)
  define hdl where "hdl = handle\<lparr>ph_handledThroughEventCreatedAt := Some (ev_createdAt e)\<rparr>"
  define H where "H = oput (sessionHandleKey h (ph_sessionId handle)) hdl (bs_pendingHandles s)"
  have n': "resulting s n = s\<lparr>bs_recentEvents := retainRecentEvents lc (bs_recentEvents s) H, bs_pendingHandles := H\<rparr>"
    using n guard by (simp add: Let_def hdl_def H_def queue_handle_guard_def)
  have "related P (resulting s n) h"
    unfolding n'
  proof (rule related_retained[OF R])
    fix key x assume "(key, x) \<in> set H"
    then consider "(key, x) = (sessionHandleKey h (ph_sessionId handle), hdl)" | "(key, x) \<in> set (bs_pendingHandles s)"
      using set_oput[of "sessionHandleKey h (ph_sessionId handle)" hdl "bs_pendingHandles s"] by (auto simp: H_def)
    then show "handle_bound (s\<lparr>bs_recentEvents := bs_recentEvents s\<rparr>) h (key, x)"
    proof cases
      case 1
      then show ?thesis
        using e guard by (auto simp: hdl_def event_of_def queue_handle_guard_def intro!: handle_boundI)
    next
      case 2
      then show ?thesis using relatedD(6)[OF R] by (simp add: handles_related_def)
    qed
  qed (use relatedD(4)[OF R] in \<open>auto simp: events_related_def\<close>)
  moreover have "objects_ok (resulting s n)"
    using ok by (simp add: n' H_def objects_ok_def oinv_oput)
  ultimately show ?thesis by (simp add: consistent_iff)
qed

lemma remove_handle_keeps:
  assumes keep: "consistent P h s"
    and step: "removePendingSessionHandleTransition s hostId sessionId through = Inr (n, r)"
  shows "consistent P h (resulting s n)"
proof -
  have R: "related P s h" and ok: "objects_ok s" using keep by (simp_all add: consistent_iff)
  have "handles_related (s\<lparr>bs_pendingHandles := odel k (bs_pendingHandles s)\<rparr>) h" for k
    using relatedD(6)[OF R] by (auto simp: handles_related_def handle_bound_def event_of_def set_odel)
  then show ?thesis
    using keep R ok step
    by (auto simp: removePendingSessionHandleTransition_def Let_def consistent_iff related_def
        objects_ok_def oinv_odel split: if_splits option.splits)
qed

subsubsection \<open>Appending an event\<close>

definition append_event_guard :: "jsstring \<Rightarrow> canonical_event \<Rightarrow> bridge_state \<Rightarrow> bool" where
  "append_event_guard hostId event s \<longleftrightarrow>
    event_bound s hostId event \<and> event_compatible s event
    \<and> (\<forall>e. find_event (bs_recentEvents s) (ev_eventId event) = Some e \<longrightarrow>
        ev_sessionId e = ev_sessionId event \<and> ev_createdAt e = ev_createdAt event)"

lemma append_event_keeps:
  assumes keep: "consistent P h s" and guard: "append_event_guard h event s"
    and step: "appendRecentEventTransition lc s event = Inr (n, r)"
  shows "consistent P h (resulting s n)"
proof -
  have R: "related P s h" and ok: "objects_ok s" using keep by (simp_all add: consistent_iff)
  have n: "resulting s n = s\<lparr>bs_recentEvents := retainRecentEvents lc (event # bs_recentEvents s) (bs_pendingHandles s),
      bs_pendingHandles := bs_pendingHandles s\<rparr>"
    using step by (auto simp: appendRecentEventTransition_def)
  have find: "find_event (event # bs_recentEvents s) i =
      (if i = ev_eventId event then Some event else find_event (bs_recentEvents s) i)" for i
    by (simp add: find_event_def)
  have "related P (resulting s n) h"
    unfolding n
  proof (rule related_retained[OF R])
    fix key x assume "(key, x) \<in> set (bs_pendingHandles s)"
    then have b: "handle_bound s h (key, x)" using relatedD(6)[OF R] by (auto simp: handles_related_def)
    then show "handle_bound (s\<lparr>bs_recentEvents := event # bs_recentEvents s\<rparr>) h (key, x)"
      using guard by (auto simp: handle_bound_def event_of_def find append_event_guard_def event_bound_def
          split: option.splits)
  qed (use guard relatedD(4)[OF R] find in
      \<open>auto simp: append_event_guard_def events_related_def split: if_splits\<close>)
  moreover have "objects_ok (resulting s n)" using ok by (simp add: n objects_ok_def)
  ultimately show ?thesis by (simp add: consistent_iff)
qed

subsection \<open>Producer reservations and checkpoints\<close>

definition reservation_agrees :: "bridge_state \<Rightarrow> producer_reservation \<Rightarrow> bool" where
  "reservation_agrees s r \<longleftrightarrow> (case event_of s (pr_eventId r) of
     None \<Rightarrow> True | Some e \<Rightarrow> ev_sessionId e = pr_sessionId r \<and> ev_createdAt e = pr_createdAt r)"

lemma add_reservation_keeps:
  assumes R: "related P s h" and ok: "objects_ok s" and g: "reservation_agrees s r"
  shows "related P (s\<lparr>bs_producerEventReservations := add_reservation r (bs_producerEventReservations s)\<rparr>) h"
    and "objects_ok (s\<lparr>bs_producerEventReservations := add_reservation r (bs_producerEventReservations s)\<rparr>)"
proof -
  let ?k = "producerReservationKey (pr_sessionId r) (pr_fingerprint r)"
  let ?m = "opt_object (bs_producerEventReservations s)"
  let ?s = "s\<lparr>bs_producerEventReservations := add_reservation r (bs_producerEventReservations s)\<rparr>"
  have "set (last_entries 200 (oput ?k r ?m)) \<subseteq> insert (?k, r) (set ?m)"
    using set_last_entries[of 200 "oput ?k r ?m"] set_oput[of ?k r ?m] by blast
  then have entries: "x = (?k, r) \<or> x \<in> set ?m" if "x \<in> set (opt_object (bs_producerEventReservations ?s))" for x
    using that by (auto simp: add_reservation_def)
  have "reservation_bound ?s x" if "x \<in> set (opt_object (bs_producerEventReservations ?s))" for x
    using entries[OF that] relatedD(9)[OF R] g
    by (auto simp: reservations_related_def reservation_bound_def event_of_def reservation_agrees_def)
  then have "reservations_related ?s" by (simp add: reservations_related_def)
  then show "related P (s\<lparr>bs_producerEventReservations := add_reservation r (bs_producerEventReservations s)\<rparr>) h"
    using R by (simp add: related_def)
  have "oinv (oput ?k r ?m)" using ok by (simp add: objects_ok_def oinv_oput)
  then have "oinv (last_entries 200 (oput ?k r ?m))"
    by (simp add: oinv_def last_entries_def drop_map[symmetric] distinct_drop)
  then show "objects_ok (s\<lparr>bs_producerEventReservations := add_reservation r (bs_producerEventReservations s)\<rparr>)"
    using ok by (simp add: objects_ok_def add_reservation_def)
qed

lemma reserve_keeps:
  assumes keep: "consistent P h s" and guard: "reservation_agrees s reservation"
    and step: "reserveProducerEventTransition s reservation = Inr (n, r)"
  shows "consistent P h (resulting s n)"
  using keep step add_reservation_keeps[of P s h reservation] guard
  by (auto simp: reserveProducerEventTransition_def Let_def consistent_iff split: if_splits)

definition checkpoint_guard :: "producer_reservation \<Rightarrow> source_checkpoint \<Rightarrow> bridge_state \<Rightarrow> bool" where
  "checkpoint_guard reservation checkpoint s \<longleftrightarrow>
    reservation_agrees s reservation \<and> oget (bs_sessions s) (ck_sessionId checkpoint) \<noteq> None
    \<and> (case event_of s (ck_eventId checkpoint) of
         None \<Rightarrow> True | Some e \<Rightarrow> ev_sessionId e = ck_sessionId checkpoint)"

lemma put_checkpoint_related:
  assumes R: "related P s h" and ok: "objects_ok s"
    and g: "oget (bs_sessions s) (ck_sessionId c) \<noteq> None"
      "case event_of s (ck_eventId c) of None \<Rightarrow> True | Some e \<Rightarrow> ev_sessionId e = ck_sessionId c"
    and C: "C = Some (oput (ck_sessionId c) c (opt_object (bs_producerEventCheckpoints s)))"
  shows "related P (s\<lparr>bs_producerEventCheckpoints := C\<rparr>) h"
    and "objects_ok (s\<lparr>bs_producerEventCheckpoints := C\<rparr>)"
proof -
  have "checkpoints_related (s\<lparr>bs_producerEventCheckpoints := C\<rparr>)"
    unfolding checkpoints_related_def
  proof
    fix x assume "x \<in> set (opt_object (bs_producerEventCheckpoints (s\<lparr>bs_producerEventCheckpoints := C\<rparr>)))"
    then have "x = (ck_sessionId c, c) \<or> x \<in> set (opt_object (bs_producerEventCheckpoints s))"
      using set_oput[of "ck_sessionId c" c] by (auto simp: C)
    then show "checkpoint_bound (s\<lparr>bs_producerEventCheckpoints := C\<rparr>) x"
      using relatedD(10)[OF R] g by (auto simp: checkpoints_related_def checkpoint_bound_def event_of_def)
  qed
  then show "related P (s\<lparr>bs_producerEventCheckpoints := C\<rparr>) h" using R by (simp add: related_def)
  show "objects_ok (s\<lparr>bs_producerEventCheckpoints := C\<rparr>)"
    using ok by (simp add: objects_ok_def C oinv_oput)
qed

lemma reserve_checkpoint_keeps:
  assumes keep: "consistent P h s" and guard: "checkpoint_guard reservation checkpoint s"
    and step: "reserveProducerEventWithCheckpointTransition s reservation checkpoint = Inr (n, r)"
  shows "consistent P h (resulting s n)"
proof -
  have R: "related P s h" and ok: "objects_ok s" using keep by (simp_all add: consistent_iff)
  define C where "C = Some (oput (ck_sessionId checkpoint) checkpoint (opt_object (bs_producerEventCheckpoints s)))"
  define s1 where "s1 = (if find_reservation s reservation = None
    then s\<lparr>bs_producerEventReservations := add_reservation reservation (bs_producerEventReservations s)\<rparr> else s)"
  have n: "resulting s n = s1\<lparr>bs_producerEventCheckpoints := C\<rparr>"
    using step by (auto simp: reserveProducerEventWithCheckpointTransition_def Let_def s1_def C_def split: if_splits)
  have keep1: "related P s1 h" "objects_ok s1"
    using R ok add_reservation_keeps[OF R ok] guard by (auto simp: s1_def checkpoint_guard_def)
  have same: "bs_sessions s1 = bs_sessions s" "bs_recentEvents s1 = bs_recentEvents s"
      "bs_producerEventCheckpoints s1 = bs_producerEventCheckpoints s"
    by (simp_all add: s1_def)
  have "oget (bs_sessions s1) (ck_sessionId checkpoint) \<noteq> None"
      "case event_of s1 (ck_eventId checkpoint) of None \<Rightarrow> True | Some e \<Rightarrow> ev_sessionId e = ck_sessionId checkpoint"
      "C = Some (oput (ck_sessionId checkpoint) checkpoint (opt_object (bs_producerEventCheckpoints s1)))"
    using guard by (simp_all only: same event_of_def checkpoint_guard_def C_def not_False_eq_True)
  from put_checkpoint_related[OF keep1 this] show ?thesis
    unfolding consistent_iff n by simp
qed

subsection \<open>Session revisions\<close>

text \<open>The completions of the session expect the new revision.\<close>

definition revision_guard :: "jsstring \<Rightarrow> int \<Rightarrow> bridge_state \<Rightarrow> bool" where
  "revision_guard sessionId revision s \<longleftrightarrow>
    (\<forall>(k, c) \<in> set (opt_object (bs_eventUploadCompletions s)). ec_sessionId c = sessionId \<longrightarrow>
       ec_revision c = revision \<or> (ec_revisionCommitted c \<noteq> Some True \<and> ec_revision c = revision + 1))"

lemma readCurrentSessionRevision_put:
  "readCurrentSessionRevision (s\<lparr>bs_sessionRevisions := oput k v (bs_sessionRevisions s)\<rparr>) i =
    (if i = k then v else readCurrentSessionRevision s i)"
  by (simp add: readCurrentSessionRevision_def oget_oput)

lemma revision_nonneg: "related P s h \<Longrightarrow> 0 \<le> readCurrentSessionRevision s i"
  using relatedD(5)[of P s h] oget_SomeD[of "bs_sessionRevisions s" i]
  by (force simp: readCurrentSessionRevision_def revisions_related_def ovalues_def split: option.splits)

lemma commit_revision_keeps:
  assumes keep: "consistent P h s" and guard: "revision_guard sessionId revision s"
    and step: "commitSessionRevisionTransition s sessionId revision = Inr (n, r)"
  shows "consistent P h (resulting s n)"
proof (cases n)
  case (New s')
  have R: "related P s h" and ok: "objects_ok s" using keep by (simp_all add: consistent_iff)
  have rev: "revision = readCurrentSessionRevision s sessionId + 1"
    and n: "resulting s n = s\<lparr>bs_sessionRevisions := oput sessionId revision (bs_sessionRevisions s)\<rparr>"
    using step New by (auto simp: commitSessionRevisionTransition_def Let_def split: if_splits)
  have "revisions_related (resulting s n)"
    using relatedD(5)[OF R] revision_nonneg[OF R, of sessionId] rev
      set_ovalues_oput[of sessionId revision "bs_sessionRevisions s"]
    by (auto simp: n revisions_related_def)
  moreover have "completions_related (resulting s n)"
    unfolding completions_related_def
  proof
    fix x assume "x \<in> set (opt_object (bs_eventUploadCompletions (resulting s n)))"
    then have x: "x \<in> set (opt_object (bs_eventUploadCompletions s))" by (simp add: n)
    then have "completion_bound s x" using relatedD(8)[OF R] by (simp add: completions_related_def)
    then show "completion_bound (resulting s n) x"
      using guard x unfolding n
      by (cases x) (auto simp: completion_bound_def Let_def readCurrentSessionRevision_put event_of_def revision_guard_def)
  qed
  ultimately show ?thesis
    using R ok by (simp add: consistent_iff related_def n objects_ok_def oinv_oput)
qed (use keep in simp)

subsection \<open>Publication, health and Host\<close>

lemma publication_keeps:
  assumes keep: "consistent P h s"
    and s': "s' = s\<lparr>bs_currentSessionsSnapshot := sn, bs_recipientSetVersion := v\<rparr>" and "publication_related s'"
  shows "consistent P h s'"
  using assms by (simp add: consistent_iff related_def objects_ok_def)

lemma set_host_keeps:
  assumes keep: "consistent P h s" and guard: "hp_hostId host = h"
    and step: "setHostTransition s host = Inr (n, r)"
  shows "consistent P h (resulting s n)"
  using assms by (auto simp: setHostTransition_def sanitizePersistedHost_def consistent_iff related_def
      host_related_def objects_ok_def)

lemma health_update_keeps: "consistent P h (s\<lparr>bs_runtimeHealth := x\<rparr>) = consistent P h s"
  by (simp add: consistent_iff related_def objects_ok_def)

end
