(* ===== verification/Command_Lifecycle.thy ===== *)
theory Command_Lifecycle
  imports Bridge_Keeping_Events
begin

section \<open>The life of a command\<close>

text \<open>
  The command transitions keep a consistent state consistent, and move an execution only forwards:
  claimed, dispatched, then outcome unknown or terminal; a terminal result and its receipt never
  change, and the receipt leaves the outbox at most once.
\<close>

subsection \<open>Writing an execution\<close>

lemma oput_absent: "oget m k = None \<Longrightarrow> oput k v m = m @ [(k, v)]"
  unfolding oget_def oput_def by (induction m) auto

lemma map_ovalues_oput:
  "oget m k = Some w \<Longrightarrow> f v = f w \<Longrightarrow> map f (ovalues (oput k v m)) = map f (ovalues m)"
  unfolding oget_def oput_def ovalues_def by (induction m) (auto split: if_splits)

lemma map_ovalues_oput_absent:
  "oget m k = None \<Longrightarrow> map f (ovalues (oput k v m)) = map f (ovalues m) @ [f v]"
  by (simp add: oput_absent ovalues_def)

lemma related_command_entry:
  assumes "related P s h" and "oget (bs_commandExecutions s) k = Some x"
  shows "assertCommandExecution P x = ok ()" "k = ce_commandId (cx_originalEncryptedCommand x)"
    "ce_hostId (cx_originalEncryptedCommand x) = h"
  using relatedD(7)[OF assms(1)] oget_SomeD[OF assms(2)] by (auto simp: commands_related_def)

lemma put_execution_keeps:
  assumes keep: "consistent P h s"
    and x: "assertCommandExecution P x = ok ()" "ce_commandId (cx_originalEncryptedCommand x) = k"
      "ce_hostId (cx_originalEncryptedCommand x) = h"
    and nonce: "distinct (map nonce_binding (ovalues (oput k x (bs_commandExecutions s))))"
  shows "consistent P h (put_execution k x s)"
proof -
  have R: "related P s h" and ok: "objects_ok s" using keep by (simp_all add: consistent_iff)
  have "commands_related P (put_execution k x s) h"
    unfolding commands_related_def put_execution_def
    using relatedD(7)[OF R] x nonce set_oput[of k x "bs_commandExecutions s"]
    by (auto simp: commands_related_def)
  then show ?thesis
    using R ok by (simp add: consistent_iff related_def put_execution_def objects_ok_def oinv_oput)
qed

text \<open>A replacement keeps the command, hence its nonce.\<close>

lemma assert_nonce:
  "assertCommandExecution P x = ok ()
    \<Longrightarrow> cx_watchDeviceId x = ce_watchDeviceId (cx_originalEncryptedCommand x)
      \<and> cx_nonce x = ce_nonce (cx_originalEncryptedCommand x)
      \<and> cx_expiresAt x = ce_expiresAt (cx_originalEncryptedCommand x)
      \<and> validateEncryptedCommandEnvelopeV1 (cx_originalEncryptedCommand x)"
  by (auto simp: assertCommandExecution_def execution_fields_valid_def Let_def split: if_splits)

lemma replace_keeps:
  assumes keep: "consistent P h s" and current: "oget (bs_commandExecutions s) k = Some w"
    and same: "cx_originalEncryptedCommand x = cx_originalEncryptedCommand w"
    and step: "replaceCommandExecutionTransition P s k x = Inr (n, r)"
  shows "consistent P h (resulting s n)" and "n = New (put_execution k x s)" and "r = x"
    and "assertCommandExecution P x = ok ()"
proof -
  show a: "assertCommandExecution P x = ok ()" and n: "n = New (put_execution k x s)" and "r = x"
    using step by (auto simp: replaceCommandExecutionTransition_def rbind_Inr_iff split: if_splits)
  have R: "related P s h" using keep by (simp add: consistent_iff)
  note w = related_command_entry[OF R current]
  have "nonce_binding x = nonce_binding w"
    using assert_nonce[OF a] assert_nonce[OF w(1)] same by (simp add: nonce_binding_def)
  from map_ovalues_oput[OF current this] relatedD(7)[OF R]
  have "distinct (map nonce_binding (ovalues (oput k x (bs_commandExecutions s))))"
    by (simp add: commands_related_def)
  from put_execution_keeps[OF keep a _ _ this] w same show "consistent P h (resulting s n)"
    by (simp add: n)
qed

text \<open>What every single-command transition does: it reads the execution, checks a condition on it,
  and writes a validated replacement of the same command.\<close>

lemma require_iff: "requireCommandExecution s k = Inr w \<longleftrightarrow> oget (bs_commandExecutions s) k = Some w"
  by (auto simp: requireCommandExecution_def split: option.split)

definition exec_rewrite ::
  "wire_port \<Rightarrow> bridge_state \<Rightarrow> jsstring \<Rightarrow> command_execution \<Rightarrow> command_execution \<Rightarrow> next_state \<Rightarrow> bool" where
  "exec_rewrite P s k w x n \<longleftrightarrow> oget (bs_commandExecutions s) k = Some w
    \<and> cx_originalEncryptedCommand x = cx_originalEncryptedCommand w
    \<and> assertCommandExecution P x = ok () \<and> n = New (put_execution k x s)"

lemma exec_rewriteI:
  assumes "oget (bs_commandExecutions s) k = Some w"
    and "cx_originalEncryptedCommand x = cx_originalEncryptedCommand w"
    and "replaceCommandExecutionTransition P s k x = Inr (n, r)"
  shows "exec_rewrite P s k w x n \<and> r = x"
  using assms by (auto simp: exec_rewrite_def replaceCommandExecutionTransition_def rbind_Inr_iff split: if_splits)

lemma exec_rewrite_keeps:
  assumes "consistent P h s" and "exec_rewrite P s k w x n"
  shows "consistent P h (resulting s n)"
proof -
  have R: "related P s h" using assms(1) by (simp add: consistent_iff)
  have "replaceCommandExecutionTransition P s k x = Inr (n, x)"
    using assms(2) related_command_entry(2)[OF R, of k w]
    by (auto simp: exec_rewrite_def replaceCommandExecutionTransition_def)
  then show ?thesis
    using replace_keeps(1)[OF assms(1), of k w x n x] assms(2) by (simp add: exec_rewrite_def)
qed

lemma dispatch_rewrites:
  "markCommandDispatchStartedTransition P s k t = Inr (n, r)
    \<Longrightarrow> \<exists>w. cx_state w = Claimed \<and> r = w\<lparr>cx_state := Dispatch_started, cx_dispatchStartedAt := Some t\<rparr>
      \<and> exec_rewrite P s k w r n"
  unfolding markCommandDispatchStartedTransition_def rbind_Inr_iff require_iff
  by (auto split: if_splits dest!: exec_rewriteI[rotated 2])

lemma unknown_rewrites:
  "markCommandOutcomeUnknownTransition P s k = Inr (n, r)
    \<Longrightarrow> \<exists>w. in_flight w \<and> r = w\<lparr>cx_state := Outcome_unknown\<rparr> \<and> exec_rewrite P s k w r n"
  unfolding markCommandOutcomeUnknownTransition_def rbind_Inr_iff require_iff in_flight_def
  by (auto split: if_splits dest!: exec_rewriteI[rotated 2])

lemma blocked_rewrites:
  "persistTerminalReceiptBlockedTransition P s k res = Inr (n, r)
    \<Longrightarrow> \<exists>w. in_flight w \<and> r = w\<lparr>cx_state := Terminal_receipt_blocked, cx_terminalResult := Some res\<rparr>
      \<and> exec_rewrite P s k w r n"
  unfolding persistTerminalReceiptBlockedTransition_def rbind_Inr_iff require_iff in_flight_def
  by (auto split: if_splits dest!: exec_rewriteI[rotated 2])

lemma terminal_rewrites:
  "persistTerminalCommandReceiptTransition P s k res outbox = Inr (n, r)
    \<Longrightarrow> \<exists>w. (in_flight w \<or> cx_state w = Terminal_receipt_blocked \<and> cx_terminalResult w = Some res)
      \<and> r = w\<lparr>cx_state := Terminal, cx_terminalResult := Some res,
          cx_receiptOutbox := Some \<lparr>ob_state = Outbox_pending,
            ob_canonicalBody = oi_canonicalBody outbox, ob_receiptDigest = oi_receiptDigest outbox\<rparr>\<rparr>
      \<and> exec_rewrite P s k w r n"
  unfolding persistTerminalCommandReceiptTransition_def rbind_Inr_iff require_iff in_flight_def
  by (auto split: if_splits simp: rbind_Inr_iff dest!: exec_rewriteI[rotated 2])

lemma outbox_rewrites:
  assumes "markCommandReceiptOutboxTransition P s k outcome = Inr (n, r)"
  shows "\<exists>w ob. cx_state w = Terminal \<and> cx_receiptOutbox w = Some ob \<and> ob_state ob = Outbox_pending
      \<and> r = w\<lparr>cx_receiptOutbox := Some (ob\<lparr>ob_state := outcome_state outcome\<rparr>)\<rparr>
      \<and> exec_rewrite P s k w r n"
proof -
  from assms obtain w where w: "oget (bs_commandExecutions s) k = Some w"
    by (auto simp: markCommandReceiptOutboxTransition_def rbind_Inr_iff require_iff)
  from assms obtain ob where ob: "cx_receiptOutbox w = Some ob" "cx_state w = Terminal" "ob_state ob = Outbox_pending"
    and step: "replaceCommandExecutionTransition P s k
      (w\<lparr>cx_receiptOutbox := Some (ob\<lparr>ob_state := outcome_state outcome\<rparr>)\<rparr>) = Inr (n, r)"
    by (auto simp: markCommandReceiptOutboxTransition_def requireCommandExecution_def w
        split: option.splits if_splits)
  from exec_rewriteI[OF w _ step] ob show ?thesis by auto
qed

subsection \<open>Claims\<close>

text \<open>The Watch ids of the Host's links have no line feed, so the concatenation that the loader
  takes for uniqueness separates the pair.\<close>

definition plain_watch_ids :: "bridge_state \<Rightarrow> bool" where
  "plain_watch_ids s \<longleftrightarrow> (\<forall>x \<in> set (ovalues (bs_commandExecutions s)). (10 :: code_unit) \<notin> set (cx_watchDeviceId x))"

lemma append_separator_inject:
  "c \<notin> set a \<Longrightarrow> c \<notin> set b \<Longrightarrow> a @ [c] @ s = b @ [c] @ t \<longleftrightarrow> a = b \<and> s = t"
proof (induction a arbitrary: b)
  case Nil
  then show ?case by (cases b) auto
next
  case (Cons x a)
  then show ?case by (cases b) auto
qed

definition claim_guard :: "jsstring \<Rightarrow> command_envelope \<Rightarrow> bridge_state \<Rightarrow> bool" where
  "claim_guard hostId command s \<longleftrightarrow> ce_hostId command = hostId
    \<and> (10 :: code_unit) \<notin> set (ce_watchDeviceId command) \<and> plain_watch_ids s"

lemma claim_fresh:
  assumes "claimCommandExecutionTransition P s command digest pin t = Inr (n, r)"
  shows "(n = Same \<and> (r = Claim_conflict \<or> (\<exists>x. r = Claim_duplicate x
            \<and> oget (bs_commandExecutions s) (ce_commandId command) = Some x
            \<and> sameCommandClaim x (claim_candidate command digest pin t))))
    \<or> (\<exists>x. x = claim_candidate command digest pin t \<and> r = Claim_claimed x
        \<and> oget (bs_commandExecutions s) (ce_commandId command) = None \<and> \<not> nonce_used s x
        \<and> assertCommandExecution P x = ok () \<and> n = New (put_execution (ce_commandId command) x s))"
  using assms unfolding claimCommandExecutionTransition_def Let_def rbind_Inr_iff
  by (auto split: option.splits if_splits)

lemma claim_keeps:
  assumes keep: "consistent P h s" and guard: "claim_guard h command s"
    and step: "claimCommandExecutionTransition P s command digest pin t = Inr (n, r)"
  shows "consistent P h (resulting s n)"
proof (cases n)
  case (New s')
  define x where "x = claim_candidate command digest pin t"
  from claim_fresh[OF step] New have absent: "oget (bs_commandExecutions s) (ce_commandId command) = None"
    and unused: "\<not> nonce_used s x" and a: "assertCommandExecution P x = ok ()"
    and n: "n = New (put_execution (ce_commandId command) x s)"
    by (auto simp: x_def)
  have R: "related P s h" using keep by (simp add: consistent_iff)
  have cmd: "cx_originalEncryptedCommand x = command" "cx_watchDeviceId x = ce_watchDeviceId command"
    by (simp_all add: x_def claim_candidate_def)
  have "nonce_binding x \<noteq> nonce_binding y" if y: "y \<in> set (ovalues (bs_commandExecutions s))" for y
  proof -
    have "\<not> (cx_watchDeviceId y = cx_watchDeviceId x \<and> cx_nonce y = cx_nonce x)"
      using unused y by (auto simp: nonce_used_def list_ex_iff)
    moreover have "10 \<notin> set (cx_watchDeviceId y)" "10 \<notin> set (cx_watchDeviceId x)"
      using guard y by (auto simp: claim_guard_def plain_watch_ids_def cmd)
    ultimately show ?thesis
      using append_separator_inject[of 10 "cx_watchDeviceId x" "cx_watchDeviceId y" "cx_nonce x" "cx_nonce y"]
      by (auto simp: nonce_binding_def)
  qed
  then have "nonce_binding x \<notin> nonce_binding ` set (ovalues (bs_commandExecutions s))" by blast
  then have "distinct (map nonce_binding (ovalues (oput (ce_commandId command) x (bs_commandExecutions s))))"
    using relatedD(7)[OF R] by (simp add: map_ovalues_oput_absent[OF absent] commands_related_def)
  from put_execution_keeps[OF keep a _ _ this] guard show ?thesis
    by (simp add: n cmd claim_guard_def)
qed (use keep in simp)

subsection \<open>Orphans and pruning\<close>

lemma orphan_valid:
  assumes "assertCommandExecution P x = ok ()" and "in_flight x"
  shows "assertCommandExecution P (x\<lparr>cx_state := Outcome_unknown\<rparr>) = ok ()"
  using assms
  by (auto simp: assertCommandExecution_def execution_fields_valid_def execution_bound_def
      result_bound_def assert_execution_shape_def in_flight_def Let_def
      split: if_splits option.splits sum.splits)

definition orphaned :: "command_execution \<Rightarrow> command_execution" where
  "orphaned x = (if in_flight x then x\<lparr>cx_state := Outcome_unknown\<rparr> else x)"

lemma recover_shape:
  assumes "recoverOrphanedCommandExecutionsTransition s = Inr (n, r)"
  shows "resulting s n = s\<lparr>bs_commandExecutions := map (\<lambda>(k, x). (k, orphaned x)) (bs_commandExecutions s)\<rparr>"
    and "r = length (filter in_flight (ovalues (bs_commandExecutions s)))"
proof -
  let ?m = "bs_commandExecutions s"
  have len: "length (map fst (filter (\<lambda>(_, x). in_flight x) ?m)) = length (filter in_flight (ovalues ?m))"
    unfolding ovalues_def by (induction ?m) (auto simp: filter_map comp_def case_prod_beta)
  have "resulting s n = s\<lparr>bs_commandExecutions := map (\<lambda>(k, x). (k, orphaned x)) ?m\<rparr>
      \<and> r = length (filter in_flight (ovalues ?m))"
  proof (cases "map fst (filter (\<lambda>(_, x). in_flight x) ?m) = []")
    case True
    then have "\<forall>(k, x) \<in> set ?m. \<not> in_flight x" by (auto simp: filter_empty_conv)
    then have "map (\<lambda>(k, x). (k, orphaned x)) ?m = ?m"
      by (intro map_idI) (auto simp: orphaned_def)
    then show ?thesis using assms True len by (simp add: recoverOrphanedCommandExecutionsTransition_def)
  next
    case False
    then show ?thesis
      using assms len by (auto simp: recoverOrphanedCommandExecutionsTransition_def orphaned_def)
  qed
  then show "resulting s n = s\<lparr>bs_commandExecutions := map (\<lambda>(k, x). (k, orphaned x)) ?m\<rparr>"
    and "r = length (filter in_flight (ovalues ?m))" by simp_all
qed

lemma recover_keeps:
  assumes keep: "consistent P h s" and step: "recoverOrphanedCommandExecutionsTransition s = Inr (n, r)"
  shows "consistent P h (resulting s n)"
proof -
  have R: "related P s h" and ok: "objects_ok s" using keep by (simp_all add: consistent_iff)
  define M where "M = map (\<lambda>(k, x). (k, orphaned x)) (bs_commandExecutions s)"
  have n: "resulting s n = s\<lparr>bs_commandExecutions := M\<rparr>" using recover_shape(1)[OF step] by (simp add: M_def)
  have orph: "assertCommandExecution P (orphaned x) = ok ()" if "assertCommandExecution P x = ok ()" for x
    using orphan_valid that by (simp add: orphaned_def)
  have nb: "nonce_binding (orphaned x) = nonce_binding x"
    "cx_originalEncryptedCommand (orphaned x) = cx_originalEncryptedCommand x" for x
    by (simp_all add: orphaned_def nonce_binding_def)
  have "map nonce_binding (ovalues M) = map nonce_binding (ovalues (bs_commandExecutions s))"
    unfolding M_def ovalues_def by (simp add: comp_def case_prod_beta nb)
  then have "commands_related P (s\<lparr>bs_commandExecutions := M\<rparr>) h"
    using relatedD(7)[OF R] orph by (auto simp: commands_related_def M_def nb)
  moreover have "oinv M" using ok by (simp add: objects_ok_def oinv_def M_def comp_def case_prod_beta)
  ultimately show ?thesis using R ok by (simp add: consistent_iff related_def n objects_ok_def)
qed

lemma prune_eligible_subset: "prune_eligible es now = Inr el \<Longrightarrow> set el \<subseteq> set es"
  by (induction es now arbitrary: el rule: prune_eligible.induct)
    (auto simp: rbind_Inr_iff split: if_splits)

lemma subseq_ovalues_odels: "distinct (map f (ovalues m)) \<Longrightarrow> distinct (map f (ovalues (foldl (\<lambda>m k. odel k m) m ks)))"
proof (induction ks arbitrary: m)
  case (Cons k ks)
  have "distinct (map f (ovalues (odel k m)))"
    using Cons.prems by (simp add: odel_def ovalues_def AList.delete_eq comp_def case_prod_beta distinct_map_filter)
  then show ?case using Cons.IH by simp
qed simp

lemma prune_keeps:
  assumes keep: "consistent P h s" and step: "pruneEligibleCommandExecutionsTransition s now = Inr (n, r)"
  shows "consistent P h (resulting s n)"
proof -
  have R: "related P s h" and ok: "objects_ok s" using keep by (simp_all add: consistent_iff)
  have "consistent P h (s\<lparr>bs_commandExecutions := foldl (\<lambda>m k. odel k m) (bs_commandExecutions s) ks\<rparr>)" for ks
  proof -
    have "commands_related P (s\<lparr>bs_commandExecutions := foldl (\<lambda>m k. odel k m) (bs_commandExecutions s) ks\<rparr>) h"
      using relatedD(7)[OF R] subseq_ovalues_odels[of nonce_binding "bs_commandExecutions s" ks]
      by (auto simp: commands_related_def set_odels)
    then show ?thesis using R ok by (simp add: consistent_iff related_def objects_ok_def oinv_foldl_odel)
  qed
  then show ?thesis
    using keep step
    by (auto simp: pruneEligibleCommandExecutionsTransition_def rbind_Inr_iff split: if_splits)
qed

end
