(* ===== verification/Store_Operations.thy ===== *)
theory Store_Operations
  imports Command_Lifecycle
begin

section \<open>The operations of the state store\<close>

text \<open>
  The methods of \<open>BridgeStateStore\<close> that run one transition (\<open>state-store.ts\<close>): which transition
  each runs, which of the two commit orders it takes, and that the command methods first require
  the validated key pins. \<open>op_guard\<close> collects what the callers owe to the relationships of the state; under
  it every operation keeps them.
\<close>

record store_ports =
  sp_wire :: wire_port
  sp_localeCompare :: "jsstring \<Rightarrow> jsstring \<Rightarrow> int"

datatype store_op =
    Set_host host_projection
  | Record_driver_failure jsstring jsstring jsstring
  | Record_driver_success jsstring
  | Record_relay_failure jsstring jsstring
  | Record_relay_success
  | Replace_driver_sessions jsstring "canonical_session list"
  | Set_session_driver jsstring jsstring "canonical_session option"
  | Remove_session jsstring "jsstring option"
  | Remove_session_driver jsstring
  | Update_session jsstring session_patch
  | Create_publication publication_parameters
  | Accept_publication replace_sessions_request jsstring jsstring
  | Note_revision_lower_bound int
  | Reserve_producer_event producer_reservation
  | Accept_producer_source producer_reservation source_checkpoint
  | Append_recent_event canonical_event
  | Commit_session_revision jsstring int
  | Set_recipient_set_version int
  | Queue_handle pending_handle
  | Remove_handle jsstring jsstring "jsstring option"
  | Prune_executions jsstring
  | Claim_execution command_envelope jsstring pin_reference jsstring
  | Mark_dispatch_started jsstring jsstring
  | Recover_orphans
  | Mark_outcome_unknown jsstring
  | Persist_receipt_blocked jsstring command_result
  | Persist_receipt jsstring command_result outbox_input
  | Mark_outbox jsstring outbox_outcome

definition discard :: "'r transition \<Rightarrow> unit transition" where
  "discard t = (case t of Inl e \<Rightarrow> Inl e | Inr (n, _) \<Rightarrow> Inr (n, ()))"

lemma discard_Inr: "discard t = Inr (n, u) \<longleftrightarrow> (\<exists>r. t = Inr (n, r))"
  by (auto simp: discard_def split: sum.splits prod.splits)

fun op_transition :: "store_ports \<Rightarrow> store_op \<Rightarrow> bridge_state \<Rightarrow> unit transition" where
  "op_transition Q (Set_host host) s = setHostTransition s host"
| "op_transition Q (Record_driver_failure driver seenAt nextRetryAt) s =
    discard (recordDriverReconciliationFailureTransition (sp_localeCompare Q) s driver seenAt nextRetryAt)"
| "op_transition Q (Record_driver_success driver) s =
    discard (recordDriverReconciliationSuccessTransition s driver)"
| "op_transition Q (Record_relay_failure seenAt nextRetryAt) s =
    recordRelayPresenceFailureTransition s seenAt nextRetryAt"
| "op_transition Q Record_relay_success s = discard (recordRelayPresenceSuccessTransition s)"
| "op_transition Q (Replace_driver_sessions driverName sessions) s =
    replaceDriverSessionsTransition s driverName sessions"
| "op_transition Q (Set_session_driver sessionId driverName given) s =
    setSessionDriverTransition s sessionId driverName given"
| "op_transition Q (Remove_session sessionId expected) s =
    discard (removeSessionTransition s sessionId expected)"
| "op_transition Q (Remove_session_driver sessionId) s = removeSessionDriverTransition s sessionId"
| "op_transition Q (Update_session sessionId patch) s =
    discard (updateSessionTransition s sessionId patch)"
| "op_transition Q (Create_publication parameters) s =
    discard (createCurrentSessionsPublicationTransition s parameters)"
| "op_transition Q (Accept_publication request digest contentDigest) s =
    discard (acceptCurrentSessionsPublicationTransition s request digest contentDigest)"
| "op_transition Q (Note_revision_lower_bound revision) s =
    noteCurrentSessionsSnapshotRevisionLowerBoundTransition s revision"
| "op_transition Q (Reserve_producer_event reservation) s = reserveProducerEventTransition s reservation"
| "op_transition Q (Accept_producer_source reservation checkpoint) s =
    reserveProducerEventWithCheckpointTransition s reservation checkpoint"
| "op_transition Q (Append_recent_event event) s = appendRecentEventTransition (sp_localeCompare Q) s event"
| "op_transition Q (Commit_session_revision sessionId revision) s =
    commitSessionRevisionTransition s sessionId revision"
| "op_transition Q (Set_recipient_set_version version) s = setRecipientSetVersionTransition s version"
| "op_transition Q (Queue_handle handle) s =
    queuePendingSessionHandleTransition (sp_localeCompare Q) s handle"
| "op_transition Q (Remove_handle hostId sessionId through) s =
    removePendingSessionHandleTransition s hostId sessionId through"
| "op_transition Q (Prune_executions now) s = discard (pruneEligibleCommandExecutionsTransition s now)"
| "op_transition Q (Claim_execution command digest pin claimedAt) s =
    discard (claimCommandExecutionTransition (sp_wire Q) s command digest pin claimedAt)"
| "op_transition Q (Mark_dispatch_started commandId t) s =
    discard (markCommandDispatchStartedTransition (sp_wire Q) s commandId t)"
| "op_transition Q Recover_orphans s = discard (recoverOrphanedCommandExecutionsTransition s)"
| "op_transition Q (Mark_outcome_unknown commandId) s =
    discard (markCommandOutcomeUnknownTransition (sp_wire Q) s commandId)"
| "op_transition Q (Persist_receipt_blocked commandId res) s =
    discard (persistTerminalReceiptBlockedTransition (sp_wire Q) s commandId res)"
| "op_transition Q (Persist_receipt commandId res outbox) s =
    discard (persistTerminalCommandReceiptTransition (sp_wire Q) s commandId res outbox)"
| "op_transition Q (Mark_outbox commandId outcome) s =
    discard (markCommandReceiptOutboxTransition (sp_wire Q) s commandId outcome)"

text \<open>The methods that swap the live state before they write.\<close>

fun mutates_first :: "store_op \<Rightarrow> bool" where
  "mutates_first (Set_host _) = True"
| "mutates_first (Update_session _ _) = True"
| "mutates_first (Create_publication _) = True"
| "mutates_first (Accept_publication _ _ _) = True"
| "mutates_first (Note_revision_lower_bound _) = True"
| "mutates_first (Commit_session_revision _ _) = True"
| "mutates_first (Set_recipient_set_version _) = True"
| "mutates_first _ = False"

fun needs_pins :: "store_op \<Rightarrow> bool" where
  "needs_pins (Claim_execution _ _ _ _) = True"
| "needs_pins (Mark_dispatch_started _ _) = True"
| "needs_pins Recover_orphans = True"
| "needs_pins (Mark_outcome_unknown _) = True"
| "needs_pins (Persist_receipt_blocked _ _) = True"
| "needs_pins (Persist_receipt _ _ _) = True"
| "needs_pins (Mark_outbox _ _) = True"
| "needs_pins _ = False"

definition run_op ::
  "store_ports \<Rightarrow> write_outcome \<Rightarrow> store_op \<Rightarrow> state_store \<Rightarrow> unit result \<times> state_store" where
  "run_op Q outcome op store =
    (if needs_pins op \<and> \<not> st_pinsReady store
     then (throw (PlainError ''Bridge runtime command execution pins are unavailable before startup validation''), store)
     else if mutates_first op then applyTransition outcome (op_transition Q op) store
     else commitState outcome (op_transition Q op) store)"

definition validateCommandExecutionPins ::
  "(jsstring \<Rightarrow> int \<Rightarrow> int \<Rightarrow> pin_reference option) \<Rightarrow> bool \<Rightarrow> state_store \<Rightarrow> unit result \<times> state_store" where
  "validateCommandExecutionPins resolver allow store =
    (case read_state store of
       Inl e \<Rightarrow> (Inl e, store)
     | Inr s \<Rightarrow>
         (case validateCommandExecutionPinsState s resolver allow of
            Inl e \<Rightarrow> (Inl e, store)
          | Inr _ \<Rightarrow> (ok (), store\<lparr>st_pinsReady := True\<rparr>)))"

subsection \<open>What the Bridge can start from\<close>

fun op_guard :: "jsstring \<Rightarrow> store_op \<Rightarrow> bridge_state \<Rightarrow> bool" where
  "op_guard h (Set_host host) s \<longleftrightarrow> hp_hostId host = h"
| "op_guard h (Replace_driver_sessions driverName sessions) s \<longleftrightarrow> replace_sessions_guard h driverName sessions s"
| "op_guard h (Set_session_driver sessionId driverName given) s \<longleftrightarrow> set_driver_guard h given s"
| "op_guard h (Remove_session sessionId expected) s \<longleftrightarrow> remove_session_guard sessionId s"
| "op_guard h (Update_session sessionId patch) s \<longleftrightarrow> patch_guard patch s"
| "op_guard h (Accept_publication request d c) s \<longleftrightarrow> 0 < rq_revision request"
| "op_guard h (Reserve_producer_event reservation) s \<longleftrightarrow> reservation_agrees s reservation"
| "op_guard h (Accept_producer_source reservation checkpoint) s \<longleftrightarrow> checkpoint_guard reservation checkpoint s"
| "op_guard h (Append_recent_event event) s \<longleftrightarrow> append_event_guard h event s"
| "op_guard h (Commit_session_revision sessionId revision) s \<longleftrightarrow> revision_guard sessionId revision s"
| "op_guard h (Queue_handle handle) s \<longleftrightarrow> queue_handle_guard h handle s"
| "op_guard h (Claim_execution command digest pin t) s \<longleftrightarrow> claim_guard h command s"
| "op_guard h _ s \<longleftrightarrow> True"

lemma consistent_publication:
  "consistent P h s \<Longrightarrow> publication_related s"
  by (simp add: consistent_iff related_def)

lemma publication_change:
  assumes "consistent P h s" and "publication_related (s\<lparr>bs_currentSessionsSnapshot := x\<rparr>)"
  shows "consistent P h (s\<lparr>bs_currentSessionsSnapshot := x\<rparr>)"
  using assms by (simp add: consistent_iff related_def objects_ok_def)

lemma recipients_change:
  assumes "consistent P h s" and "publication_related (s\<lparr>bs_recipientSetVersion := x\<rparr>)"
  shows "consistent P h (s\<lparr>bs_recipientSetVersion := x\<rparr>)"
  using assms by (simp add: consistent_iff related_def objects_ok_def)

lemma publication_consistent:
  assumes "consistent P h s" "snapshot_ordered s"
  shows "createCurrentSessionsPublicationTransition s p = Inr (n, a) \<Longrightarrow> consistent P h (resulting s n)"
    and "0 < rq_revision request \<Longrightarrow> acceptCurrentSessionsPublicationTransition s request d c = Inr (n, b)
      \<Longrightarrow> consistent P h (resulting s n)"
    and "noteCurrentSessionsSnapshotRevisionLowerBoundTransition s revision = Inr (n, u) \<Longrightarrow> consistent P h (resulting s n)"
    and "setRecipientSetVersionTransition s version = Inr (n, u) \<Longrightarrow> consistent P h (resulting s n)"
proof -
  have inv: "publication_inv s" using assms by (simp add: publication_inv_def consistent_publication)
  show "consistent P h (resulting s n)" if t: "createCurrentSessionsPublicationTransition s p = Inr (n, a)"
  proof (cases n)
    case (New s')
    with publication_inv_create[OF inv t] t assms(1) show ?thesis
      by (auto simp: createCurrentSessionsPublicationTransition_def publication_inv_def Let_def
          split: if_splits intro: publication_change)
  qed (use assms in simp)
  show "consistent P h (resulting s n)" if g: "0 < rq_revision request"
    and t: "acceptCurrentSessionsPublicationTransition s request d c = Inr (n, b)"
  proof (cases n)
    case (New s')
    with publication_inv_accept[OF inv g t] t assms(1) show ?thesis
      by (auto simp: acceptCurrentSessionsPublicationTransition_def publication_inv_def Let_def
          split: if_splits intro: publication_change)
  qed (use assms in simp)
  show "consistent P h (resulting s n)" if t: "noteCurrentSessionsSnapshotRevisionLowerBoundTransition s revision = Inr (n, u)"
  proof (cases n)
    case (New s')
    with publication_inv_note[OF inv t] t assms(1) show ?thesis
      by (auto simp: noteCurrentSessionsSnapshotRevisionLowerBoundTransition_def publication_inv_def Let_def
          split: if_splits intro: publication_change)
  qed (use assms in simp)
  show "consistent P h (resulting s n)" if t: "setRecipientSetVersionTransition s version = Inr (n, u)"
  proof (cases n)
    case (New s')
    with publication_inv_recipients[OF inv t] t assms(1) show ?thesis
      by (auto simp: setRecipientSetVersionTransition_def publication_inv_def
          split: if_splits option.splits intro: recipients_change)
  qed (use assms in simp)
qed

lemma health_consistent:
  assumes "consistent P h s"
  shows "recordDriverReconciliationFailureTransition lc s driver t u = Inr (n, a) \<Longrightarrow> consistent P h (resulting s n)"
    and "recordDriverReconciliationSuccessTransition s driver = Inr (n, b) \<Longrightarrow> consistent P h (resulting s n)"
    and "recordRelayPresenceFailureTransition s t u = Inr (n, c) \<Longrightarrow> consistent P h (resulting s n)"
    and "recordRelayPresenceSuccessTransition s = Inr (n, d) \<Longrightarrow> consistent P h (resulting s n)"
  using assms
  by (auto simp: recordDriverReconciliationFailureTransition_def recordDriverReconciliationSuccessTransition_def
      recordRelayPresenceFailureTransition_def recordRelayPresenceSuccessTransition_def Let_def health_update_keeps
      split: option.splits)

lemma rewrite_keeps:
  assumes "consistent P h s" and "\<exists>w. Q w \<and> exec_rewrite P s k w r n"
  shows "consistent P h (resulting s n)"
  using assms exec_rewrite_keeps by blast

lemma op_consistent:
  assumes s: "consistent (sp_wire Q) h s" "snapshot_ordered s" and g: "op_guard h op s"
    and step: "op_transition Q op s = Inr (n, u)"
  shows "consistent (sp_wire Q) h (resulting s n)"
proof (cases op)
  case (Set_host host) with s g step show ?thesis by (auto intro: set_host_keeps)
next
  case (Record_driver_failure a b c) with s g step show ?thesis by (auto simp: discard_Inr intro: health_consistent(1))
next
  case (Record_driver_success a) with s g step show ?thesis by (auto simp: discard_Inr intro: health_consistent(2))
next
  case (Record_relay_failure a b) with s g step show ?thesis by (auto intro: health_consistent(3))
next
  case Record_relay_success with s g step show ?thesis by (auto simp: discard_Inr intro: health_consistent(4))
next
  case (Replace_driver_sessions a b) with s g step show ?thesis by (auto intro: replace_sessions_keeps)
next
  case (Set_session_driver a b c) with s g step show ?thesis by (auto intro: set_driver_keeps)
next
  case (Remove_session a b) with s g step show ?thesis by (auto simp: discard_Inr intro: remove_session_keeps)
next
  case (Remove_session_driver a) with s g step show ?thesis by (auto intro: remove_driver_keeps)
next
  case (Update_session a b) with s g step show ?thesis by (auto simp: discard_Inr intro: update_session_keeps)
next
  case (Create_publication a) with s g step show ?thesis by (auto simp: discard_Inr intro: publication_consistent(1))
next
  case (Accept_publication a b c) with s g step show ?thesis by (auto simp: discard_Inr intro: publication_consistent(2))
next
  case (Note_revision_lower_bound a) with s g step show ?thesis by (auto intro: publication_consistent(3))
next
  case (Reserve_producer_event a) with s g step show ?thesis by (auto intro: reserve_keeps)
next
  case (Accept_producer_source a b) with s g step show ?thesis by (auto intro: reserve_checkpoint_keeps)
next
  case (Append_recent_event a) with s g step show ?thesis by (auto intro: append_event_keeps)
next
  case (Commit_session_revision a b) with s g step show ?thesis by (auto intro: commit_revision_keeps)
next
  case (Set_recipient_set_version a) with s g step show ?thesis by (auto intro: publication_consistent(4))
next
  case (Queue_handle a) with s g step show ?thesis by (auto intro: queue_handle_keeps)
next
  case (Remove_handle a b c) with s g step show ?thesis by (auto intro: remove_handle_keeps)
next
  case (Prune_executions a) with s g step show ?thesis by (auto simp: discard_Inr intro: prune_keeps)
next
  case (Claim_execution a b c d) with s g step show ?thesis by (auto simp: discard_Inr intro: claim_keeps)
next
  case (Mark_dispatch_started a b) with s g step show ?thesis
    by (auto simp: discard_Inr dest!: dispatch_rewrites intro: exec_rewrite_keeps)
next
  case Recover_orphans with s g step show ?thesis by (auto simp: discard_Inr intro: recover_keeps)
next
  case (Mark_outcome_unknown a) with s g step show ?thesis
    by (auto simp: discard_Inr dest!: unknown_rewrites intro: exec_rewrite_keeps)
next
  case (Persist_receipt_blocked a b) with s g step show ?thesis
    by (auto simp: discard_Inr dest!: blocked_rewrites intro: exec_rewrite_keeps)
next
  case (Persist_receipt a b c) with s g step show ?thesis
    by (auto simp: discard_Inr dest!: terminal_rewrites intro: exec_rewrite_keeps)
next
  case (Mark_outbox a b) with s g step show ?thesis
    by (auto simp: discard_Inr dest!: outbox_rewrites intro: exec_rewrite_keeps)
qed

end
