(* ===== verification/State_Values.thy ===== *)
theory State_Values
  imports Bridge_Keeping_Events
begin

section \<open>What keeps the values of a state record valid\<close>

text \<open>
  Every change of the state writes a few values and leaves the rest; a record stays valid when the written
  values are. The lemmas on objects and on the health record are shared by the store operations and by the
  transactions of the spool.
\<close>

subsection \<open>Objects\<close>

lemma isValueMap_get: "isValueMap p m \<Longrightarrow> oget m k = Some v \<Longrightarrow> p v"
  using oget_SomeD by (fastforce simp: isValueMap_iff)

lemma isValueMap_subset: "isValueMap p m \<Longrightarrow> set m' \<subseteq> set m \<Longrightarrow> isValueMap p m'"
  by (fastforce simp: isValueMap_iff)

lemma isValueMap_oput: "isValueMap p m \<Longrightarrow> p v \<Longrightarrow> isValueMap p (oput k v m)"
  using set_oput[of k v m] by (fastforce simp: isValueMap_iff)

lemma isValueMap_odel: "isValueMap p m \<Longrightarrow> isValueMap p (odel k m)"
  by (erule isValueMap_subset) (auto simp: set_odel)

lemma isValueMap_odels: "isValueMap p m \<Longrightarrow> isValueMap p (foldl (\<lambda>m k. odel k m) m ks)"
  by (erule isValueMap_subset) (auto simp: set_odels)

lemma isValueMap_oputs:
  "isValueMap p m \<Longrightarrow> list_all p xs \<Longrightarrow> isValueMap p (foldl (\<lambda>m x. oput (f x) x m) m xs)"
  by (induction xs arbitrary: m) (simp_all add: isValueMap_oput)

lemma isValueMap_last_entries: "isValueMap p m \<Longrightarrow> isValueMap p (last_entries n m)"
  by (erule isValueMap_subset) (rule set_last_entries)

lemma isStringMap_subset: "isStringMap m \<Longrightarrow> set m' \<subseteq> set m \<Longrightarrow> isStringMap m'"
  by (fastforce simp: isStringMap_def list_all_iff)

lemma isStringMap_oput: "isStringMap m \<Longrightarrow> k \<noteq> [] \<Longrightarrow> v \<noteq> [] \<Longrightarrow> isStringMap (oput k v m)"
  using set_oput[of k v m] by (fastforce simp: isStringMap_def list_all_iff)

lemma isStringMap_odel: "isStringMap m \<Longrightarrow> isStringMap (odel k m)"
  by (erule isStringMap_subset) (auto simp: set_odel)

lemma isStringMap_odels: "isStringMap m \<Longrightarrow> isStringMap (foldl (\<lambda>m k. odel k m) m ks)"
  by (erule isStringMap_subset) (auto simp: set_odels)

lemma isStringMap_oputs:
  "isStringMap m \<Longrightarrow> d \<noteq> [] \<Longrightarrow> \<forall>x \<in> set xs. f x \<noteq> [] \<Longrightarrow> isStringMap (foldl (\<lambda>m x. oput (f x) d m) m xs)"
  by (induction xs arbitrary: m) (simp_all add: isStringMap_oput)

lemma isTrueMap_oput: "isTrueMap m \<Longrightarrow> k \<noteq> [] \<Longrightarrow> isTrueMap (oput k v m)"
  using set_oput[of k v m] by (fastforce simp: isTrueMap_def list_all_iff)

lemma valid_session_id: "isCurrentSession c \<Longrightarrow> cs_sessionId c \<noteq> [] \<and> cs_provider c \<noteq> []"
  by (simp add: isCurrentSession_def)

lemma valid_retained:
  assumes "list_all isCurrentEvent es"
  shows "list_all isCurrentEvent (retainRecentEvents lc es handles)"
proof -
  have "set (first_by_id es) \<subseteq> set es" by (induction es) auto
  with set_retain_subset[of lc es handles] assms show ?thesis by (auto simp: list_all_iff)
qed

lemmas value_defs = record_values_def isValueMap_iff isStringMap_def isTrueMap_def isCurrentSession_def
  isCurrentEvent_def isCurrentPendingHandle_def isCurrentEventCompletion_def isCurrentProducerReservation_def
  isCurrentProducerCheckpoint_def isCurrentTerminalCancellation_def

subsection \<open>The health record\<close>

text \<open>What a failure may be recorded with: a stable id, canonical timestamps, a counter that stays safe and
  a place in the record.\<close>

definition driver_failure_fits :: "bridge_state \<Rightarrow> jsstring \<Rightarrow> jsstring \<Rightarrow> jsstring \<Rightarrow> bool" where
  "driver_failure_fits s driver seenAt nextRetryAt \<longleftrightarrow>
    isCanonicalHealthTimestamp seenAt \<and> isCanonicalHealthTimestamp nextRetryAt
    \<and> (case find_driver (current_health s) driver of
         Some d \<Rightarrow> is_safe_integer (dh_count d + 1)
       | None \<Rightarrow> isStableDriverId driver \<and> length (rh_drivers (current_health s)) < 32)"

definition relay_failure_fits :: "bridge_state \<Rightarrow> jsstring \<Rightarrow> jsstring \<Rightarrow> bool" where
  "relay_failure_fits s seenAt nextRetryAt \<longleftrightarrow>
    isCanonicalHealthTimestamp seenAt \<and> isCanonicalHealthTimestamp nextRetryAt
    \<and> (case rh_relayPresence (current_health s) of Some p \<Rightarrow> is_safe_integer (rp_count p + 1) | None \<Rightarrow> True)"

lemma current_health_valid: "record_values s \<Longrightarrow> isCurrentRuntimeHealth (current_health s)"
  by (auto simp: record_values_def current_health_def emptyRuntimeHealth_def isCurrentRuntimeHealth_def
      split: option.splits)

lemma health_update_values:
  "record_values s \<Longrightarrow> isCurrentRuntimeHealth h \<Longrightarrow> record_values (s\<lparr>bs_runtimeHealth := Some h\<rparr>)"
  by (simp add: record_values_def)

lemma length_other_drivers: "length (other_drivers h d) \<le> length (rh_drivers h)"
  by (simp add: other_drivers_def)

lemma length_other_known:
  "find_driver h d = Some x \<Longrightarrow> length (other_drivers h d) < length (rh_drivers h)"
  using find_driver_Some[of h d x] unfolding other_drivers_def by (intro length_filter_less[of x]) auto

lemma safe_successor: "0 < n \<Longrightarrow> is_safe_integer (n + 1) \<Longrightarrow> isPositiveInteger (n + 1)"
  by (simp add: isPositiveInteger_def)

lemma failed_driver_valid:
  assumes "isCurrentRuntimeHealth (current_health s)" and "driver_failure_fits s driver t u"
  shows "isCurrentDriverHealth (failed_driver (current_health s) driver t u)"
proof (cases "find_driver (current_health s) driver")
  case None
  with assms(2) show ?thesis
    by (simp add: failed_driver_def driver_failure_fits_def isCurrentDriverHealth_def healthTimestampsValid_def
        isPositiveInteger_def is_safe_integer_def)
next
  case (Some d)
  then have "isCurrentDriverHealth d"
    using find_driver_Some[OF Some] assms(1) by (auto simp: isCurrentRuntimeHealth_def list_all_iff)
  with Some assms(2) show ?thesis
    by (auto simp: failed_driver_def driver_failure_fits_def isCurrentDriverHealth_def healthTimestampsValid_def
        isPositiveInteger_def)
qed

lemma driver_failure_values:
  assumes s: "record_values s" and g: "driver_failure_fits s driver t u"
    and step: "recordDriverReconciliationFailureTransition lc s driver t u = Inr (n, d)"
  shows "record_values (resulting s n)"
proof -
  let ?h = "current_health s" let ?d = "failed_driver ?h driver t u" let ?w = "with_failed_driver lc ?h driver ?d"
  have h: "isCurrentRuntimeHealth ?h" using s by (rule current_health_valid)
  have n: "resulting s n = s\<lparr>bs_runtimeHealth := Some ?w\<rparr>"
    using step by (auto simp: driver_failure_shape Let_def)
  have d: "isCurrentDriverHealth ?d" using h g by (rule failed_driver_valid)
  note facts = failed_driver_facts[OF current_health_ok[OF h], of driver t u]
  have ok: "health_ok ?w" using with_failed_driver_ok(1)[OF current_health_ok[OF h] facts(1,3)] .
  have "set (rh_drivers ?w) \<subseteq> insert ?d (set (rh_drivers ?h))"
    by (auto simp: with_failed_driver_def other_drivers_def)
  then have drivers: "list_all isCurrentDriverHealth (rh_drivers ?w)"
    using d h by (auto simp: isCurrentRuntimeHealth_def list_all_iff)
  have "length (other_drivers ?h driver) < 32"
  proof (cases "find_driver ?h driver")
    case None
    with g length_other_drivers[of ?h driver] show ?thesis by (simp add: driver_failure_fits_def)
  next
    case (Some x)
    with length_other_known[OF Some] h show ?thesis by (simp add: isCurrentRuntimeHealth_def)
  qed
  then have "length (rh_drivers ?w) \<le> 32" by (simp add: with_failed_driver_def)
  then have "isCurrentRuntimeHealth ?w"
    using ok drivers h by (simp add: isCurrentRuntimeHealth_def health_ok_def with_failed_driver_def)
  then show ?thesis unfolding n by (rule health_update_values[OF s])
qed

lemma driver_success_values:
  assumes s: "record_values s" and step: "recordDriverReconciliationSuccessTransition s driver = Inr (n, r)"
  shows "record_values (resulting s n)"
proof -
  let ?h = "current_health s" let ?w = "without_driver ?h driver"
  have h: "isCurrentRuntimeHealth ?h" using s by (rule current_health_valid)
  have "health_ok ?w" using without_driver_ok(1)[OF current_health_ok[OF h]] .
  moreover have "set (rh_drivers ?w) \<subseteq> set (rh_drivers ?h)" by (auto simp: without_driver_def other_drivers_def)
  moreover have "length (rh_drivers ?w) \<le> 32"
    using length_other_drivers[of ?h driver] h by (simp add: without_driver_def isCurrentRuntimeHealth_def)
  moreover have "rh_relayPresence ?w = rh_relayPresence ?h" by (simp add: without_driver_def)
  ultimately have "isCurrentRuntimeHealth ?w"
    using h by (auto simp: isCurrentRuntimeHealth_def health_ok_def list_all_iff)
  then have "record_values (s\<lparr>bs_runtimeHealth := Some ?w\<rparr>)" by (rule health_update_values[OF s])
  then show ?thesis using step s
    by (auto simp: recordDriverReconciliationSuccessTransition_def without_driver_def Let_def split: option.splits)
qed

lemma relay_failure_values:
  assumes s: "record_values s" and g: "relay_failure_fits s t u"
    and step: "recordRelayPresenceFailureTransition s t u = Inr (n, r)"
  shows "record_values (resulting s n)"
proof -
  let ?h = "current_health s"
  define p where "p = (case rh_relayPresence ?h of
      Some existing \<Rightarrow> existing\<lparr>rp_count := rp_count existing + 1, rp_lastSeenAt := t, rp_nextRetryAt := u\<rparr>
    | None \<Rightarrow> \<lparr>rp_count = 1, rp_firstSeenAt = t, rp_lastSeenAt = t, rp_lastSuccessAt = None, rp_nextRetryAt = u\<rparr>)"
  let ?w = "?h\<lparr>rh_relayPresence := Some p, rh_status := Degraded\<rparr>"
  have h: "isCurrentRuntimeHealth ?h" using s by (rule current_health_valid)
  have "isCurrentRelayPresenceHealth p"
    using g h unfolding p_def
    by (auto simp: relay_failure_fits_def isCurrentRuntimeHealth_def isCurrentRelayPresenceHealth_def
        healthTimestampsValid_def isPositiveInteger_def is_safe_integer_def split: option.splits)
  then have "isCurrentRuntimeHealth ?w" using h by (simp add: isCurrentRuntimeHealth_def)
  then have "record_values (s\<lparr>bs_runtimeHealth := Some ?w\<rparr>)" by (rule health_update_values[OF s])
  then show ?thesis using step by (auto simp: recordRelayPresenceFailureTransition_def p_def Let_def)
qed

lemma relay_success_values:
  assumes s: "record_values s" and step: "recordRelayPresenceSuccessTransition s = Inr (n, r)"
  shows "record_values (resulting s n)"
proof -
  let ?h = "current_health s"
  let ?w = "?h\<lparr>rh_relayPresence := None, rh_status := (if 0 < length (rh_drivers ?h) then Degraded else Healthy)\<rparr>"
  have "isCurrentRuntimeHealth ?w"
    using current_health_valid[OF s] by (simp add: isCurrentRuntimeHealth_def)
  then have "record_values (s\<lparr>bs_runtimeHealth := Some ?w\<rparr>)" by (rule health_update_values[OF s])
  then show ?thesis using step s
    by (auto simp: recordRelayPresenceSuccessTransition_def Let_def split: option.splits)
qed

end
