(* ===== verification/Store_Values.thy ===== *)
theory Store_Values
  imports Store_Operations State_Values
begin

section \<open>The operations write valid values\<close>

text \<open>
  \<open>values_guard\<close> collects what the callers of an operation owe to the schema of the state file: non-empty
  strings, counters and revisions that stay safe integers, and health records that fit. Under it every
  operation keeps the values of the record valid.
\<close>

definition given_strings :: "session_patch \<Rightarrow> jsstring option list" where
  "given_strings p = [sp_sessionId p, sp_hostId p, sp_provider p, sp_projectName p, sp_nameText p, sp_updatedAt p]"

definition allocated_revision :: "bridge_state \<Rightarrow> publication_parameters \<Rightarrow> int" where
  "allocated_revision s p = (let current = bs_currentSessionsSnapshot s
    in max (max (sn_lastAllocatedRevision current + 1) (sn_lastAcceptedRevision current + 1)) (pp_minimumRevision p))"

fun values_guard :: "store_op \<Rightarrow> bridge_state \<Rightarrow> bool" where
  "values_guard (Set_host host) s \<longleftrightarrow> list_all isNonEmptyString
    [hp_hostId host, hp_hostName host, hp_bridgeVersion host, hp_registeredAt host, hp_lastSeenAt host]"
| "values_guard (Record_driver_failure driver t u) s \<longleftrightarrow> driver_failure_fits s driver t u"
| "values_guard (Record_relay_failure t u) s \<longleftrightarrow> relay_failure_fits s t u"
| "values_guard (Replace_driver_sessions driver sessions) s \<longleftrightarrow> driver \<noteq> [] \<and> list_all isCurrentSession sessions"
| "values_guard (Set_session_driver sessionId driver given) s \<longleftrightarrow>
    (case given of None \<Rightarrow> True | Some c \<Rightarrow> isCurrentSession c)"
| "values_guard (Update_session sessionId patch) s \<longleftrightarrow> Some [] \<notin> set (given_strings patch)"
| "values_guard (Create_publication p) s \<longleftrightarrow> is_safe_integer (allocated_revision s p)"
| "values_guard (Accept_publication request d c) s \<longleftrightarrow> is_safe_integer (rq_revision request)"
| "values_guard (Note_revision_lower_bound revision) s \<longleftrightarrow> is_safe_integer revision"
| "values_guard (Reserve_producer_event r) s \<longleftrightarrow> isCurrentProducerReservation r"
| "values_guard (Accept_producer_source r c) s \<longleftrightarrow> isCurrentProducerReservation r \<and> isCurrentProducerCheckpoint c"
| "values_guard (Append_recent_event event) s \<longleftrightarrow> isCurrentEvent event"
| "values_guard (Commit_session_revision sessionId revision) s \<longleftrightarrow> is_safe_integer revision"
| "values_guard (Queue_handle h) s \<longleftrightarrow> isCurrentPendingHandle h"
| "values_guard _ s \<longleftrightarrow> True"

subsection \<open>Sessions and drivers\<close>

lemma replace_sessions_values:
  assumes "record_values s" and "d \<noteq> []" and "list_all isCurrentSession cs"
    and "replaceDriverSessionsTransition s d cs = Inr (n, u)"
  shows "record_values (resulting s n)"
  using assms valid_session_id
  by (auto simp: replaceDriverSessionsTransition_def bind_sessions_def unbind_sessions_def Let_def record_values_def
      list_all_iff intro!: isValueMap_oputs isValueMap_odels isStringMap_oputs isStringMap_odels isTrueMap_oput)

lemma set_driver_values:
  assumes s: "record_values s" and g: "case given of None \<Rightarrow> True | Some c \<Rightarrow> isCurrentSession c"
    and step: "setSessionDriverTransition s i d given = Inr (n, u)"
  shows "record_values (resulting s n)"
proof -
  obtain c where c: "(case given of Some c \<Rightarrow> Some c | None \<Rightarrow> oget (bs_sessions s) i) = Some c"
    and fits: "cs_sessionId c = i" "cs_provider c = d \<or> d = js ''agent-adapter''"
    and n: "resulting s n = s\<lparr>bs_sessions := oput i c (bs_sessions s), bs_sessionDrivers := oput i d (bs_sessionDrivers s)\<rparr>"
    using step by (auto simp: setSessionDriverTransition_def split: option.splits if_splits)
  have "isCurrentSession c"
    using c g s isValueMap_get[of isCurrentSession "bs_sessions s" i c]
    by (auto simp: record_values_def split: option.splits)
  with fits valid_session_id[of c] have "isCurrentSession c" "i \<noteq> []" "d \<noteq> []" by auto
  with s show ?thesis by (simp add: n record_values_def isValueMap_oput isStringMap_oput)
qed

lemma patched_session_valid:
  assumes "isCurrentSession c" and "Some [] \<notin> set (given_strings p)"
  shows "isCurrentSession (patch_session c p)"
  using assms
  by (auto simp: isCurrentSession_def patch_session_def given_strings_def or_current_def split: option.splits)

lemma update_session_values:
  assumes s: "record_values s" and g: "Some [] \<notin> set (given_strings p)"
    and step: "updateSessionTransition s i p = Inr (n, r)"
  shows "record_values (resulting s n)"
proof (cases "oget (bs_sessions s) i")
  case (Some c)
  have "isCurrentSession c" using Some s isValueMap_get by (fastforce simp: record_values_def)
  then have "isCurrentSession (patch_session c p)" using g by (rule patched_session_valid)
  with Some s step show ?thesis
    by (auto simp: updateSessionTransition_def Let_def record_values_def isValueMap_oput)
qed (use s step in \<open>simp add: updateSessionTransition_def\<close>)

lemma remove_session_values:
  "record_values s \<Longrightarrow> removeSessionTransition s i d = Inr (n, r) \<Longrightarrow> record_values (resulting s n)"
  "record_values s \<Longrightarrow> removeSessionDriverTransition s i = Inr (n, u) \<Longrightarrow> record_values (resulting s n)"
  by (cases "bs_producerEventCheckpoints s";
      auto simp: removeSessionTransition_def removeSessionDriverTransition_def Let_def record_values_def
        isValueMap_odel isStringMap_odel split: if_splits)+

subsection \<open>Publication and revisions\<close>

lemma safe_max: "is_safe_integer a \<Longrightarrow> is_safe_integer b \<Longrightarrow> is_safe_integer (max a b)"
  by (simp add: is_safe_integer_def max_def)

lemma create_values:
  assumes s: "record_values s" and g: "is_safe_integer (allocated_revision s p)"
    and step: "createCurrentSessionsPublicationTransition s p = Inr (n, r)"
  shows "record_values (resulting s n)"
proof -
  let ?c = "bs_currentSessionsSnapshot s"
  have "isCurrentSnapshot ?c" using s by (simp add: record_values_def)
  then have "isCurrentSnapshot (?c\<lparr>sn_lastAllocatedRevision := allocated_revision s p\<rparr>)"
    using g by (auto simp: isCurrentSnapshot_def isNonNegativeSafeInteger_def allocated_revision_def Let_def)
  then have "record_values (s\<lparr>bs_currentSessionsSnapshot := ?c\<lparr>sn_lastAllocatedRevision := allocated_revision s p\<rparr>\<rparr>)"
    using s by (simp add: record_values_def)
  with s step show ?thesis
    by (auto simp: createCurrentSessionsPublicationTransition_def allocated_revision_def Let_def split: if_splits)
qed

lemma accept_values:
  assumes s: "record_values s" and g: "is_safe_integer (rq_revision q)"
    and step: "acceptCurrentSessionsPublicationTransition s q d c = Inr (n, r)"
  shows "record_values (resulting s n)"
  using assms safe_max
  by (auto simp: acceptCurrentSessionsPublicationTransition_def record_values_def isCurrentSnapshot_def
      isNonNegativeSafeInteger_def Let_def split: if_splits)

lemma note_values:
  assumes s: "record_values s" and g: "is_safe_integer v"
    and step: "noteCurrentSessionsSnapshotRevisionLowerBoundTransition s v = Inr (n, r)"
  shows "record_values (resulting s n)"
  using assms safe_max
  by (auto simp: noteCurrentSessionsSnapshotRevisionLowerBoundTransition_def record_values_def isCurrentSnapshot_def
      isNonNegativeSafeInteger_def Let_def split: if_splits)

lemma recipients_values:
  assumes s: "record_values s" and step: "setRecipientSetVersionTransition s v = Inr (n, r)"
  shows "record_values (resulting s n)"
proof -
  have n: "resulting s n = s\<lparr>bs_recipientSetVersion := Some v\<rparr>" and v: "isPositiveInteger v"
    using step by (auto simp: setRecipientSetVersionTransition_def isPositiveInteger_def split: if_splits)
  from s v show ?thesis by (simp add: n record_values_def)
qed

lemma current_revision_nonneg: "record_values s \<Longrightarrow> 0 \<le> readCurrentSessionRevision s i"
  using isValueMap_get[of isNonNegativeSafeInteger "bs_sessionRevisions s" i]
  by (auto simp: record_values_def isNonNegativeIntegerMap_def isNonNegativeSafeInteger_def readCurrentSessionRevision_def
      split: option.splits)

lemma put_revision_values:
  "record_values s \<Longrightarrow> isNonNegativeSafeInteger v
    \<Longrightarrow> record_values (s\<lparr>bs_sessionRevisions := oput i v (bs_sessionRevisions s)\<rparr>)"
  by (simp add: record_values_def isNonNegativeIntegerMap_def isValueMap_oput)

lemma commit_values:
  assumes "record_values s" and "is_safe_integer v" and "commitSessionRevisionTransition s i v = Inr (n, u)"
  shows "record_values (resulting s n)"
  using assms current_revision_nonneg[of s i] put_revision_values[of s v i]
  by (auto simp: commitSessionRevisionTransition_def Let_def isNonNegativeSafeInteger_def split: if_splits)

subsection \<open>Events, reservations and handles\<close>

lemma append_values:
  assumes "record_values s" and "isCurrentEvent e" and "appendRecentEventTransition lc s e = Inr (n, u)"
  shows "record_values (resulting s n)"
  using assms by (auto simp: appendRecentEventTransition_def record_values_def valid_retained)

lemma add_reservation_values:
  "isValueMap isCurrentProducerReservation (opt_object m) \<Longrightarrow> isCurrentProducerReservation r
    \<Longrightarrow> isValueMap isCurrentProducerReservation (opt_object (add_reservation r m))"
  by (simp add: add_reservation_def isValueMap_last_entries isValueMap_oput)

lemma reserve_values:
  assumes "record_values s" and "isCurrentProducerReservation r" and "reserveProducerEventTransition s r = Inr (n, u)"
  shows "record_values (resulting s n)"
  using assms by (auto simp: reserveProducerEventTransition_def record_values_def add_reservation_values Let_def split: if_splits)

lemma reserve_checkpoint_values:
  assumes "record_values s" and "isCurrentProducerReservation r" and "isCurrentProducerCheckpoint c"
    and "reserveProducerEventWithCheckpointTransition s r c = Inr (n, u)"
  shows "record_values (resulting s n)"
  using assms
  by (auto simp: reserveProducerEventWithCheckpointTransition_def record_values_def add_reservation_values
      isValueMap_oput Let_def split: if_splits)

lemma queue_handle_values:
  assumes s: "record_values s" and g: "isCurrentPendingHandle x"
    and step: "queuePendingSessionHandleTransition lc s x = Inr (n, u)"
  shows "record_values (resulting s n)"
proof -
  obtain e where e: "find_event (bs_recentEvents s) (ph_handledThroughEventId x) = Some e"
    using step by (auto simp: queuePendingSessionHandleTransition_def split: option.splits)
  have "isCurrentEvent e" using find_event_Some[OF e] s by (auto simp: record_values_def list_all_iff)
  then have "isCurrentPendingHandle (x\<lparr>ph_handledThroughEventCreatedAt := Some (ev_createdAt e)\<rparr>)"
    using g by (simp add: isCurrentPendingHandle_def isCurrentEvent_def)
  with s step e show ?thesis
    by (auto simp: queuePendingSessionHandleTransition_def record_values_def Let_def isValueMap_oput valid_retained
        split: if_splits)
qed

lemma remove_handle_values:
  assumes s: "record_values s" and step: "removePendingSessionHandleTransition s h i t = Inr (n, u)"
  shows "record_values (resulting s n)"
proof -
  let ?k = "sessionHandleKey h i"
  have n: "n = Same \<or> n = New (s\<lparr>bs_pendingHandles := odel ?k (bs_pendingHandles s)\<rparr>)"
    using step unfolding removePendingSessionHandleTransition_def Let_def by (simp split: option.splits if_splits)
  have "record_values (s\<lparr>bs_pendingHandles := odel ?k (bs_pendingHandles s)\<rparr>)"
    using s by (simp add: record_values_def isValueMap_odel)
  with n s show ?thesis by auto
qed

subsection \<open>Every operation\<close>

lemma set_host_values:
  "record_values s \<Longrightarrow> values_guard (Set_host host) s \<Longrightarrow> setHostTransition s host = Inr (n, u)
    \<Longrightarrow> record_values (resulting s n)"
  by (auto simp: setHostTransition_def record_values_def sanitizePersistedHost_def isCurrentHost_def)

text \<open>The values do not mention the command executions.\<close>

lemma executions_values [simp]: "record_values (s\<lparr>bs_commandExecutions := x\<rparr>) = record_values s"
  by (simp add: record_values_def)

lemma put_execution_values [simp]: "record_values (put_execution k x s) = record_values s"
  by (simp add: put_execution_def)

lemma rewrite_values: "record_values s \<Longrightarrow> exec_rewrite P s k w r n \<Longrightarrow> record_values (resulting s n)"
  by (auto simp: exec_rewrite_def)

lemma op_values:
  assumes s: "record_values s" and g: "values_guard op s" and step: "op_transition Q op s = Inr (n, u)"
  shows "record_values (resulting s n)"
proof (cases op)
  case (Set_host host) with s g step show ?thesis by (auto intro: set_host_values)
next
  case (Record_driver_failure a b c) with s g step show ?thesis by (auto simp: discard_Inr intro: driver_failure_values)
next
  case (Record_driver_success a) with s step show ?thesis by (auto simp: discard_Inr intro: driver_success_values)
next
  case (Record_relay_failure a b) with s g step show ?thesis by (auto intro: relay_failure_values)
next
  case Record_relay_success with s step show ?thesis by (auto simp: discard_Inr intro: relay_success_values)
next
  case (Replace_driver_sessions a b) with s g step show ?thesis by (auto intro: replace_sessions_values)
next
  case (Set_session_driver a b c) with s g step show ?thesis by (auto intro: set_driver_values)
next
  case (Remove_session a b) with s step show ?thesis by (auto simp: discard_Inr intro: remove_session_values(1))
next
  case (Remove_session_driver a) with s step show ?thesis by (auto intro: remove_session_values(2))
next
  case (Update_session a b) with s g step show ?thesis by (auto simp: discard_Inr intro: update_session_values)
next
  case (Create_publication a) with s g step show ?thesis by (auto simp: discard_Inr intro: create_values)
next
  case (Accept_publication a b c) with s g step show ?thesis by (auto simp: discard_Inr intro: accept_values)
next
  case (Note_revision_lower_bound a) with s g step show ?thesis by (auto intro: note_values)
next
  case (Reserve_producer_event a) with s g step show ?thesis by (auto intro: reserve_values)
next
  case (Accept_producer_source a b) with s g step show ?thesis by (auto intro: reserve_checkpoint_values)
next
  case (Append_recent_event a) with s g step show ?thesis by (auto intro: append_values)
next
  case (Commit_session_revision a b) with s g step show ?thesis by (auto intro: commit_values)
next
  case (Set_recipient_set_version a) with s step show ?thesis by (auto intro: recipients_values)
next
  case (Queue_handle a) with s g step show ?thesis by (auto intro: queue_handle_values)
next
  case (Remove_handle a b c) with s step show ?thesis by (auto intro: remove_handle_values)
next
  case (Prune_executions a) with s step show ?thesis
    by (auto simp: discard_Inr pruneEligibleCommandExecutionsTransition_def rbind_Inr_iff split: if_splits)
next
  case (Claim_execution a b c d) with s step show ?thesis by (auto simp: discard_Inr dest!: claim_fresh)
next
  case (Mark_dispatch_started a b) with s step show ?thesis
    by (auto simp: discard_Inr dest!: dispatch_rewrites intro: rewrite_values)
next
  case Recover_orphans with s step show ?thesis by (auto simp: discard_Inr recover_shape(1))
next
  case (Mark_outcome_unknown a) with s step show ?thesis
    by (auto simp: discard_Inr dest!: unknown_rewrites intro: rewrite_values)
next
  case (Persist_receipt_blocked a b) with s step show ?thesis
    by (auto simp: discard_Inr dest!: blocked_rewrites intro: rewrite_values)
next
  case (Persist_receipt a b c) with s step show ?thesis
    by (auto simp: discard_Inr dest!: terminal_rewrites intro: rewrite_values)
next
  case (Mark_outbox a b) with s step show ?thesis
    by (auto simp: discard_Inr dest!: outbox_rewrites intro: rewrite_values)
qed

end
