(* ===== verification/Store_Safety.thy ===== *)
theory Store_Safety
  imports Store_Values
begin

section \<open>No operation makes the state file unloadable\<close>

text \<open>
  The interpretation of the shell's contract on the operations of the store, and its consequence
  for every sequence of operations: while the callers keep \<open>op_guard\<close> and \<open>values_guard\<close>, neither the live state nor
  the file leaves what the Bridge can start from, whatever each write does.
\<close>

subsection \<open>The publication fields and the health record\<close>

text \<open>Most operations touch neither.\<close>

definition untouched :: "bridge_state \<Rightarrow> bridge_state \<Rightarrow> bool" where
  "untouched s s' \<longleftrightarrow> bs_currentSessionsSnapshot s' = bs_currentSessionsSnapshot s
    \<and> bs_recipientSetVersion s' = bs_recipientSetVersion s \<and> bs_runtimeHealth s' = bs_runtimeHealth s"

lemma untouched_refl [simp]: "untouched s s" by (simp add: untouched_def)

lemma untouched_bind [simp]:
  "untouched s (bind_sessions d cs s') = untouched s s'"
  "untouched s (unbind_sessions ks s') = untouched s s'"
  "untouched s (put_execution k x s') = untouched s s'"
  by (simp_all add: untouched_def bind_sessions_def unbind_sessions_def put_execution_def)

lemma untouched_updates [simp]:
  "untouched s (s'\<lparr>bs_host := a\<rparr>) = untouched s s'"
  "untouched s (s'\<lparr>bs_sessions := b\<rparr>) = untouched s s'"
  "untouched s (s'\<lparr>bs_sessionDrivers := c\<rparr>) = untouched s s'"
  "untouched s (s'\<lparr>bs_reconciledDrivers := d\<rparr>) = untouched s s'"
  "untouched s (s'\<lparr>bs_recentEvents := e\<rparr>) = untouched s s'"
  "untouched s (s'\<lparr>bs_sessionRevisions := f\<rparr>) = untouched s s'"
  "untouched s (s'\<lparr>bs_producerEventReservations := g\<rparr>) = untouched s s'"
  "untouched s (s'\<lparr>bs_producerEventCheckpoints := i\<rparr>) = untouched s s'"
  "untouched s (s'\<lparr>bs_pendingHandles := j\<rparr>) = untouched s s'"
  "untouched s (s'\<lparr>bs_commandExecutions := k\<rparr>) = untouched s s'"
  by (simp_all add: untouched_def)

text \<open>The operations that write the snapshot, the recipient set or the health record.\<close>

fun touches :: "store_op \<Rightarrow> bool" where
  "touches (Record_driver_failure _ _ _) = True"
| "touches (Record_driver_success _) = True"
| "touches (Record_relay_failure _ _) = True"
| "touches Record_relay_success = True"
| "touches (Create_publication _) = True"
| "touches (Accept_publication _ _ _) = True"
| "touches (Note_revision_lower_bound _) = True"
| "touches (Set_recipient_set_version _) = True"
| "touches _ = False"

lemmas session_step_defs = replaceDriverSessionsTransition_def setSessionDriverTransition_def
  removeSessionTransition_def removeSessionDriverTransition_def updateSessionTransition_def
  queuePendingSessionHandleTransition_def removePendingSessionHandleTransition_def
  commitSessionRevisionTransition_def setHostTransition_def

lemmas event_step_defs = appendRecentEventTransition_def reserveProducerEventTransition_def
  reserveProducerEventWithCheckpointTransition_def

lemma untouched_rewrite: "exec_rewrite P s k w r n \<Longrightarrow> untouched s (resulting s n)"
  by (auto simp: exec_rewrite_def)

lemma op_untouched:
  assumes "op_transition Q op s = Inr (n, u)" and "\<not> touches op"
  shows "untouched s (resulting s n)"
proof (cases op)
  case (Claim_execution a b c d)
  with assms(1) show ?thesis by (auto simp: discard_Inr dest!: claim_fresh)
next
  case Recover_orphans
  with assms(1) show ?thesis by (auto simp: discard_Inr recover_shape(1))
next
  case (Prune_executions a)
  with assms(1) show ?thesis
    by (auto simp: discard_Inr pruneEligibleCommandExecutionsTransition_def rbind_Inr_iff split: if_splits)
next
  case (Mark_dispatch_started a b)
  with assms(1) show ?thesis by (auto simp: discard_Inr dest!: dispatch_rewrites intro: untouched_rewrite)
next
  case (Mark_outcome_unknown a)
  with assms(1) show ?thesis by (auto simp: discard_Inr dest!: unknown_rewrites intro: untouched_rewrite)
next
  case (Persist_receipt_blocked a b)
  with assms(1) show ?thesis by (auto simp: discard_Inr dest!: blocked_rewrites intro: untouched_rewrite)
next
  case (Persist_receipt a b c)
  with assms(1) show ?thesis by (auto simp: discard_Inr dest!: terminal_rewrites intro: untouched_rewrite)
next
  case (Mark_outbox a b)
  with assms(1) show ?thesis by (auto simp: discard_Inr dest!: outbox_rewrites intro: untouched_rewrite)
qed (use assms in \<open>auto simp: session_step_defs event_step_defs discard_Inr Let_def
  split: if_splits option.splits\<close>)

subsection \<open>Each operation\<close>

lemma op_startable:
  assumes s: "startable (sp_wire Q) h s" and g: "op_guard h op s \<and> values_guard op s"
    and step: "op_transition Q op s = Inr (n, u)"
  shows "startable (sp_wire Q) h (resulting s n)"
  using op_consistent[OF startable_facts(1,3)[OF s] _ step] op_values[OF startable_facts(2)[OF s] _ step] g
  by (simp add: startable_iff)

interpretation op: keeping_transition "startable (sp_wire Q) h" "\<lambda>s. op_guard h op s \<and> values_guard op s" "op_transition Q op"
  for Q h op
  by unfold_locales (rule op_startable)

subsection \<open>Sequences of operations\<close>

definition both_startable :: "wire_port \<Rightarrow> jsstring \<Rightarrow> state_store \<Rightarrow> bool" where
  "both_startable P h store \<longleftrightarrow> startable P h (st_live store) \<and> startable P h (st_disk store)"

lemma run_op_keeps:
  assumes "both_startable (sp_wire Q) h store" and "op_guard h op (st_live store) \<and> values_guard op (st_live store)"
    and "run_op Q outcome op store = (res, store')"
  shows "both_startable (sp_wire Q) h store'"
  using assms op.commit_keeps[of Q h store op outcome res store']
    op.apply_keeps[of Q h store op outcome res store']
  by (auto simp: run_op_def both_startable_def split: if_splits)

fun run_ops :: "store_ports \<Rightarrow> (write_outcome \<times> store_op) list \<Rightarrow> state_store \<Rightarrow> state_store" where
  "run_ops Q [] store = store"
| "run_ops Q ((outcome, op) # ops) store = run_ops Q ops (snd (run_op Q outcome op store))"

text \<open>The guards, each at the state its operation meets.\<close>

fun guarded :: "store_ports \<Rightarrow> jsstring \<Rightarrow> (write_outcome \<times> store_op) list \<Rightarrow> state_store \<Rightarrow> bool" where
  "guarded Q h [] store = True"
| "guarded Q h ((outcome, op) # ops) store \<longleftrightarrow>
    op_guard h op (st_live store) \<and> values_guard op (st_live store) \<and> guarded Q h ops (snd (run_op Q outcome op store))"

lemma run_ops_keep:
  "both_startable (sp_wire Q) h store \<Longrightarrow> guarded Q h ops store
    \<Longrightarrow> both_startable (sp_wire Q) h (run_ops Q ops store)"
proof (induction Q ops store rule: run_ops.induct)
  case (2 Q outcome op ops store)
  then show ?case using run_op_keeps[of Q h store op outcome "fst (run_op Q outcome op store)"]
    by (simp add: prod_eq_iff)
qed simp

text \<open>What the loader demands, in full: the relationships hold after every operation.\<close>

lemma startable_loads: "startable P h s \<Longrightarrow> assertCurrentStateRelationships P s h = ok ()"
  by (simp add: startable_iff consistent_def)

end
