(* ===== verification/Command_Progress.thy ===== *)
theory Command_Progress
  imports Store_Safety
begin

section \<open>Commands only advance\<close>

text \<open>
  \<open>advances x y\<close>: an execution \<open>y\<close> that \<open>x\<close> may have become. No operation but pruning takes an
  execution anywhere else, so that along every history of operations, failed writes and restarts
  a dispatched command stays dispatched and a terminal result stays what it was.
\<close>

subsection \<open>The order of an execution's states\<close>

fun later :: "execution_state \<Rightarrow> execution_state \<Rightarrow> bool" where
  "later Claimed _ = True"
| "later Dispatch_started t = (t \<noteq> Claimed)"
| "later Outcome_unknown t = (t = Outcome_unknown)"
| "later Terminal_receipt_blocked t = (t = Terminal_receipt_blocked \<or> t = Terminal)"
| "later Terminal t = (t = Terminal)"

lemma later_refl [simp]: "later a a" by (cases a) simp_all

lemma later_trans: "later a b \<Longrightarrow> later b c \<Longrightarrow> later a c"
  by (cases a; cases b; cases c) simp_all

text \<open>A receipt keeps its body and digest, and leaves \<open>pending\<close> once.\<close>

definition receipt_advances :: "receipt_outbox \<Rightarrow> receipt_outbox \<Rightarrow> bool" where
  "receipt_advances a b \<longleftrightarrow> ob_canonicalBody b = ob_canonicalBody a
    \<and> ob_receiptDigest b = ob_receiptDigest a \<and> (ob_state a = Outbox_pending \<or> ob_state b = ob_state a)"

definition has_result :: "command_execution \<Rightarrow> bool" where
  "has_result x \<longleftrightarrow> cx_state x = Terminal_receipt_blocked \<or> cx_state x = Terminal"

definition advances :: "command_execution \<Rightarrow> command_execution \<Rightarrow> bool" where
  "advances x y \<longleftrightarrow>
    cx_originalEncryptedCommand y = cx_originalEncryptedCommand x
    \<and> cx_commandDigest y = cx_commandDigest x \<and> cx_pinReference y = cx_pinReference x
    \<and> cx_watchDeviceId y = cx_watchDeviceId x \<and> cx_nonce y = cx_nonce x
    \<and> cx_expiresAt y = cx_expiresAt x \<and> cx_claimedAt y = cx_claimedAt x
    \<and> later (cx_state x) (cx_state y)
    \<and> (cx_state x \<noteq> Claimed \<longrightarrow> cx_dispatchStartedAt y = cx_dispatchStartedAt x)
    \<and> (has_result x \<longrightarrow> cx_terminalResult y = cx_terminalResult x)
    \<and> (cx_state x = Terminal \<longrightarrow> rel_option receipt_advances (cx_receiptOutbox x) (cx_receiptOutbox y))"

lemma receipt_advances_refl: "receipt_advances a a" by (simp add: receipt_advances_def)

lemma advances_refl: "advances x x"
  by (simp add: advances_def option.rel_refl receipt_advances_refl)

lemma receipt_advances_trans: "receipt_advances a b \<Longrightarrow> receipt_advances b c \<Longrightarrow> receipt_advances a c"
  by (auto simp: receipt_advances_def)

lemma advances_trans:
  assumes "advances x y" and "advances y z"
  shows "advances x z"
proof -
  have states: "later (cx_state x) (cx_state y)" "later (cx_state y) (cx_state z)"
    using assms by (simp_all add: advances_def)
  have "cx_state x \<noteq> Claimed \<Longrightarrow> cx_state y \<noteq> Claimed" "has_result x \<Longrightarrow> has_result y"
    "cx_state x = Terminal \<Longrightarrow> cx_state y = Terminal"
    using states(1) by (cases "cx_state x"; auto simp: has_result_def)+
  moreover have "rel_option receipt_advances a c"
    if "rel_option receipt_advances a b" "rel_option receipt_advances b c" for a b c
    using that by (cases a; cases b; cases c) (auto intro: receipt_advances_trans)
  ultimately show ?thesis
    using assms later_trans[OF states] by (auto simp: advances_def)
qed

subsection \<open>What an operation does to the journal\<close>

definition journal_advances :: "bridge_state \<Rightarrow> bridge_state \<Rightarrow> bool" where
  "journal_advances s s' \<longleftrightarrow> (\<forall>k x. oget (bs_commandExecutions s) k = Some x
    \<longrightarrow> (\<exists>y. oget (bs_commandExecutions s') k = Some y \<and> advances x y))"

lemma journal_advances_refl: "bs_commandExecutions s' = bs_commandExecutions s \<Longrightarrow> journal_advances s s'"
  using advances_refl by (auto simp: journal_advances_def)

lemma journal_advances_put:
  assumes "\<And>w. oget (bs_commandExecutions s) k = Some w \<Longrightarrow> advances w x"
  shows "journal_advances s (put_execution k x s)"
  using assms advances_refl by (auto simp: journal_advances_def put_execution_def oget_oput)

lemma journal_advances_fresh:
  "oget (bs_commandExecutions s) k = None \<Longrightarrow> journal_advances s (put_execution k x s)"
  by (rule journal_advances_put) simp

lemma rewrite_advances: "exec_rewrite P s k w x n \<Longrightarrow> advances w x \<Longrightarrow> journal_advances s (resulting s n)"
  by (auto simp: exec_rewrite_def intro: journal_advances_put)

lemma oget_map_snd: "oget (map (\<lambda>(k, x). (k, f x)) m) k = map_option f (oget m k)"
  unfolding oget_def by (induction m) auto

definition same_journal :: "bridge_state \<Rightarrow> bridge_state \<Rightarrow> bool" where
  "same_journal s s' \<longleftrightarrow> bs_commandExecutions s' = bs_commandExecutions s"

lemma same_journal_simps [simp]:
  "same_journal s s"
  "same_journal s (bind_sessions d cs s') = same_journal s s'"
  "same_journal s (unbind_sessions ks s') = same_journal s s'"
  "same_journal s (s'\<lparr>bs_host := a\<rparr>) = same_journal s s'"
  "same_journal s (s'\<lparr>bs_sessions := b\<rparr>) = same_journal s s'"
  "same_journal s (s'\<lparr>bs_sessionDrivers := c\<rparr>) = same_journal s s'"
  "same_journal s (s'\<lparr>bs_reconciledDrivers := e\<rparr>) = same_journal s s'"
  "same_journal s (s'\<lparr>bs_recentEvents := f\<rparr>) = same_journal s s'"
  "same_journal s (s'\<lparr>bs_sessionRevisions := g\<rparr>) = same_journal s s'"
  "same_journal s (s'\<lparr>bs_recipientSetVersion := h\<rparr>) = same_journal s s'"
  "same_journal s (s'\<lparr>bs_producerEventReservations := i\<rparr>) = same_journal s s'"
  "same_journal s (s'\<lparr>bs_producerEventCheckpoints := j\<rparr>) = same_journal s s'"
  "same_journal s (s'\<lparr>bs_pendingHandles := k\<rparr>) = same_journal s s'"
  "same_journal s (s'\<lparr>bs_currentSessionsSnapshot := l\<rparr>) = same_journal s s'"
  "same_journal s (s'\<lparr>bs_runtimeHealth := m\<rparr>) = same_journal s s'"
  by (simp_all add: same_journal_def bind_sessions_def unbind_sessions_def)

lemmas health_step_defs = recordDriverReconciliationFailureTransition_def
  recordDriverReconciliationSuccessTransition_def recordRelayPresenceFailureTransition_def
  recordRelayPresenceSuccessTransition_def

lemmas publication_step_defs = createCurrentSessionsPublicationTransition_def
  acceptCurrentSessionsPublicationTransition_def
  noteCurrentSessionsSnapshotRevisionLowerBoundTransition_def setRecipientSetVersionTransition_def

fun command_op :: "store_op \<Rightarrow> bool" where
  "command_op (Prune_executions _) = True"
| "command_op op = needs_pins op"

lemma other_op_same_journal:
  assumes "op_transition Q op s = Inr (n, u)" and "\<not> command_op op"
  shows "same_journal s (resulting s n)"
  using assms
  by (cases op) (auto simp: session_step_defs event_step_defs health_step_defs publication_step_defs
      discard_Inr Let_def split: if_splits option.splits)

fun is_prune :: "store_op \<Rightarrow> bool" where
  "is_prune (Prune_executions _) = True"
| "is_prune _ = False"

lemma orphaned_advances: "advances x (orphaned x)"
  using advances_refl by (auto simp: orphaned_def in_flight_def advances_def has_result_def)

lemma op_journal_advances:
  assumes "op_transition Q op s = Inr (n, u)" and "\<not> is_prune op"
  shows "journal_advances s (resulting s n)"
proof (cases op)
  case (Claim_execution a b c d)
  with assms(1) show ?thesis
    by (auto simp: discard_Inr dest!: claim_fresh intro: journal_advances_refl journal_advances_fresh)
next
  case Recover_orphans
  with assms(1) show ?thesis
    by (auto simp: discard_Inr recover_shape(1) journal_advances_def oget_map_snd orphaned_advances)
next
  case (Mark_dispatch_started a b)
  with assms(1) show ?thesis
    by (auto simp: discard_Inr advances_def has_result_def dest!: dispatch_rewrites elim!: rewrite_advances)
next
  case (Mark_outcome_unknown a)
  with assms(1) show ?thesis
    by (auto simp: discard_Inr advances_def has_result_def in_flight_def dest!: unknown_rewrites elim!: rewrite_advances)
next
  case (Persist_receipt_blocked a b)
  with assms(1) show ?thesis
    by (auto simp: discard_Inr advances_def has_result_def in_flight_def dest!: blocked_rewrites elim!: rewrite_advances)
next
  case (Persist_receipt a b c)
  with assms(1) show ?thesis
    by (auto simp: discard_Inr advances_def has_result_def in_flight_def dest!: terminal_rewrites elim!: rewrite_advances)
next
  case (Mark_outbox a b)
  with assms(1) show ?thesis
    by (auto simp: discard_Inr advances_def has_result_def receipt_advances_def dest!: outbox_rewrites elim!: rewrite_advances)
qed (use assms other_op_same_journal[OF assms(1)] in
  \<open>auto simp: same_journal_def intro!: journal_advances_refl\<close>)

subsection \<open>Histories: operations, failed writes, restarts\<close>

text \<open>
  A restart reads the state file again: \<open>preflightRuntime\<close> accepts it only when its relationships
  hold, and the command methods wait for the validation of the key pins.
\<close>

definition open_store :: "wire_port \<Rightarrow> jsstring \<Rightarrow> bridge_state \<Rightarrow> state_store result" where
  "open_store P hostId disk = rbind (parseCurrentState P disk (Some hostId)) (\<lambda>state.
    ok \<lparr>st_live = state, st_disk = disk, st_disposed = False, st_writer_allowed = True,
      st_runtimeReady = True, st_pinsReady = False, st_has_path = True\<rparr>)"

datatype store_event =
    Run write_outcome store_op
  | Validate_pins "jsstring \<Rightarrow> int \<Rightarrow> int \<Rightarrow> pin_reference option" bool
  | Restart

fun run_event :: "store_ports \<Rightarrow> jsstring \<Rightarrow> store_event \<Rightarrow> state_store \<Rightarrow> state_store" where
  "run_event Q h (Run outcome op) store = snd (run_op Q outcome op store)"
| "run_event Q h (Validate_pins resolver allow) store = snd (validateCommandExecutionPins resolver allow store)"
| "run_event Q h Restart store =
    (case open_store (sp_wire Q) h (st_disk store) of Inl _ \<Rightarrow> store | Inr store' \<Rightarrow> store')"

definition run_history :: "store_ports \<Rightarrow> jsstring \<Rightarrow> store_event list \<Rightarrow> state_store \<Rightarrow> state_store" where
  "run_history Q h es store = foldl (\<lambda>st e. run_event Q h e st) store es"

fun prunes :: "store_event \<Rightarrow> bool" where
  "prunes (Run _ op) = is_prune op"
| "prunes _ = False"

text \<open>Both copies hold the execution, advanced.\<close>

definition advanced_in :: "jsstring \<Rightarrow> command_execution \<Rightarrow> bridge_state \<Rightarrow> bool" where
  "advanced_in k x s \<longleftrightarrow> (\<exists>y. oget (bs_commandExecutions s) k = Some y \<and> advances x y)"

definition advanced :: "jsstring \<Rightarrow> command_execution \<Rightarrow> state_store \<Rightarrow> bool" where
  "advanced k x store \<longleftrightarrow> st_has_path store \<and> advanced_in k x (st_live store) \<and> advanced_in k x (st_disk store)"

lemma advanced_in_step: "advanced_in k x s \<Longrightarrow> journal_advances s s' \<Longrightarrow> advanced_in k x s'"
  unfolding advanced_in_def journal_advances_def using advances_trans by blast

interpretation progress: keeping_transition "advanced_in k x" "\<lambda>_. \<not> is_prune op" "op_transition Q op"
  for k x Q op
  by unfold_locales (blast intro: advanced_in_step op_journal_advances)

lemma run_op_has_path: "run_op Q outcome op store = (res, store') \<Longrightarrow> st_has_path store' = st_has_path store"
  by (auto simp: run_op_def store_defs split: if_splits sum.splits prod.splits next_state.splits write_outcome.splits)

lemma run_op_advanced:
  assumes "advanced k x store" and "\<not> is_prune op" and "run_op Q outcome op store = (res, store')"
  shows "advanced k x store'"
  using assms run_op_has_path[OF assms(3)] progress.commit_keeps[of k x store op outcome Q res store']
    progress.apply_keeps[of k x store op outcome Q res store']
  by (auto simp: run_op_def advanced_def split: if_splits)

lemma run_event_advanced: "advanced k x store \<Longrightarrow> \<not> prunes e \<Longrightarrow> advanced k x (run_event Q h e store)"
proof (cases e)
  case (Run outcome op)
  assume "advanced k x store" "\<not> prunes e"
  with Run show ?thesis
    using run_op_advanced[of k x store op Q outcome "fst (run_op Q outcome op store)"] by simp
next
  case (Validate_pins r a)
  assume "advanced k x store"
  with Validate_pins show ?thesis
    by (auto simp: validateCommandExecutionPins_def advanced_def split: sum.splits)
next
  case Restart
  assume "advanced k x store"
  with Restart show ?thesis
    by (auto simp: open_store_def parse_iff advanced_def rbind_Inr_iff split: sum.splits)
qed

lemma run_history_advanced:
  assumes "advanced k x store" and "\<forall>e \<in> set es. \<not> prunes e"
  shows "advanced k x (run_history Q h es store)"
  using assms unfolding run_history_def
  by (induction es arbitrary: store) (simp_all add: run_event_advanced)

text \<open>A command operation that reports success has put its execution in both copies.\<close>

lemma run_op_success:
  assumes "run_op Q outcome op store = (Inr u, store')" and "\<not> mutates_first op"
  obtains n where "op_transition Q op (st_live store) = Inr (n, u)"
    "st_live store' = resulting (st_live store) n"
    "st_has_path store \<Longrightarrow> n \<noteq> Same \<Longrightarrow> st_disk store' = st_live store'"
proof -
  have c: "commitState outcome (op_transition Q op) store = (Inr u, store')"
    using assms by (auto simp: run_op_def split: if_splits)
  then obtain current where r: "read_state store = Inr current"
    by (cases "read_state store") (auto simp: commitState_def)
  note live = read_state_live[OF r]
  show thesis
  proof (cases "op_transition Q op current" rule: transition_cases)
    case (3 s' v)
    show thesis
      by (rule store_commit_cases[of outcome s' store])
        (use that[of "New s'"] c r live 3 in \<open>auto simp: commitState_def\<close>)
  qed (use that[of Same] c r live in \<open>auto simp: commitState_def\<close>)
qed

lemma rewrite_advanced:
  assumes run: "run_op Q outcome op store = (Inr u, store')" "\<not> mutates_first op" "st_has_path store"
    and step: "\<And>n. op_transition Q op (st_live store) = Inr (n, u)
      \<Longrightarrow> \<exists>w x. exec_rewrite (sp_wire Q) (st_live store) k w x n \<and> R x"
  shows "\<exists>x. R x \<and> advanced k x store'"
proof -
  obtain n where n: "op_transition Q op (st_live store) = Inr (n, u)"
    "st_live store' = resulting (st_live store) n"
    "n \<noteq> Same \<Longrightarrow> st_disk store' = st_live store'"
    using run_op_success[OF run(1,2)] run(3) by blast
  from step[OF n(1)] obtain w x where "exec_rewrite (sp_wire Q) (st_live store) k w x n" and R: "R x" by blast
  then have "n = New (put_execution k x (st_live store))" by (simp add: exec_rewrite_def)
  then have "advanced_in k x (st_live store') \<and> st_disk store' = st_live store'"
    using n advances_refl by (auto simp: advanced_in_def put_execution_def oget_oput)
  then show ?thesis using R run_op_has_path[OF run(1)] run(3) by (auto simp: advanced_def)
qed

end
