(* ===== verification/Bridge_Examples.thy ===== *)
theory Bridge_Examples
  imports Command_Progress
begin

section \<open>Concrete commands, sessions and stores\<close>

text \<open>
  Inputs on which the properties of the state store are exercised: a reply command that every
  validator accepts with its receipt, a session with a producer checkpoint, and a fresh store.
\<close>

subsection \<open>Values\<close>

definition sample_fields :: "nat \<Rightarrow> date_fields" where
  "sample_fields k = \<lparr>year = 2024, month = 1, day = 2, hour = 3, minute = 4, second = 5, millisecond = k\<rparr>"

definition sample_time :: "nat \<Rightarrow> jsstring" where
  "sample_time k = print_fields (sample_fields k)"

lemma sample_fields_valid: "k < 1000 \<Longrightarrow> valid_fields (sample_fields k)"
  by (simp add: sample_fields_def valid_fields_def days_in_month_def)

lemma sample_time_canonical [simp]: "k < 1000 \<Longrightarrow> is_canonical_timestamp (sample_time k)"
  unfolding sample_time_def
  by (intro print_fields_canonical sample_fields_valid) (simp_all add: sample_fields_def)

lemma sample_time_nonempty [simp]: "sample_time k \<noteq> []"
proof -
  have "length (sample_time k) = 24" by (simp add: sample_time_def sample_fields_def length_print_fields)
  then show ?thesis by auto
qed

definition sample_instant :: int where
  "sample_instant = time_of_fields (sample_fields 0)"

lemma sample_time_instant [simp]: "k < 1000 \<Longrightarrow> instant (sample_time k) = sample_instant + int k"
  using instant_print_fields[OF sample_fields_valid[of k]]
  by (simp add: sample_time_def sample_instant_def time_of_fields_def sample_fields_def)

definition sample_bytes :: "nat \<Rightarrow> jsstring" where
  "sample_bytes n = base64UrlEncode (replicate n 0)"

lemma sample_bytes_valid [simp]: "0 < n \<Longrightarrow> isBase64UrlBytes (sample_bytes n) n"
  using base64_decode_encode[of "replicate n 0"]
  by (simp add: isBase64UrlBytes_def sample_bytes_def)

lemma sample_ciphertext [simp]:
  "0 < n \<Longrightarrow> isBase64UrlCiphertext (sample_bytes n) a b \<longleftrightarrow> a \<le> n \<and> n \<le> b"
  using base64_decode_encode[of "replicate n 0"]
  by (simp add: isBase64UrlCiphertext_def sample_bytes_def)

definition sample_digest :: jsstring where
  "sample_digest = sample_bytes 32"

definition sample_key :: "char \<Rightarrow> jsstring" where
  "sample_key c = js (''ekey_'' @ replicate 43 c)"

definition sample_epoch :: jsstring where
  "sample_epoch = js ''01234567-89ab-4cde-8f01-23456789abcd''"

lemma sample_epoch_valid [simp]: "isRuntimeEpoch sample_epoch"
  by code_simp

text \<open>ASCII literals are identifiers.\<close>

definition plain :: "string \<Rightarrow> bool" where
  "plain s \<longleftrightarrow> s \<noteq> [] \<and> length s \<le> 256 \<and> list_all (\<lambda>c. of_char c < (128 :: nat)) s"

lemma plain_bytes:
  assumes "plain s"
  shows "js s \<noteq> []" "length (utf8 (js s)) \<le> 256" "isWellFormedUnicode (js s)"
proof -
  have a: "is_ascii (js s)" by (rule js_ascii) (use assms in \<open>simp add: plain_def list_all_iff\<close>)
  show "js s \<noteq> []" "length (utf8 (js s)) \<le> 256" "isWellFormedUnicode (js s)"
    using assms utf8_ascii[OF a] ascii_well_formed[OF a] by (simp_all add: plain_def js_def)
qed

lemma plain_identifier: "plain s \<Longrightarrow> isIdentifier (js s)"
  using plain_bytes[of s] by (simp add: isIdentifier_def COMMAND_IDENTIFIER_BYTES_def)

lemma plain_bounded: "plain s \<Longrightarrow> isBoundedWellFormedString (js s) 256"
  using plain_bytes[of s] by (simp add: isBoundedWellFormedString_def)

lemma sample_plain [simp]:
  "plain ''cmd-1''" "plain ''host-1''" "plain ''session-1''" "plain ''watch-1''" "plain ''link-1''"
  "plain ''nonce-1''" "plain ''content-1''" "plain ''event-1''" "plain (''ekey_'' @ replicate 43 CHR ''H'')"
  "plain (''ekey_'' @ replicate 43 CHR ''W'')"
  by (simp_all add: plain_def list_all_iff)

lemma sample_keys [simp]:
  "encryption_key_pattern (sample_key CHR ''H'')" "encryption_key_pattern (sample_key CHR ''W'')"
  unfolding sample_key_def by code_simp+

lemma sample_verifier [simp]: "isVerifier sample_digest"
proof -
  have "isBase64UrlBytes sample_digest 32" by (simp add: sample_digest_def)
  then have "BASE64URL_RE sample_digest"
    by (auto simp: isBase64UrlBytes_def base64UrlDecode_def split: if_splits)
  moreover have "length sample_digest = 43"
    by (simp add: sample_digest_def sample_bytes_def length_base64)
  ultimately show ?thesis by (simp add: isVerifier_def BASE64URL_RE_def)
qed

subsection \<open>A command and its receipt\<close>

definition sample_content :: "string \<Rightarrow> nat \<Rightarrow> encrypted_content" where
  "sample_content kind n = \<lparr>co_suite = E2E_SUITE_V1, co_contentId = js ''content-1'',
    co_payloadKind = js kind, co_nonce = sample_bytes 12, co_ciphertext = sample_bytes n\<rparr>"

definition sample_wrap :: "char \<Rightarrow> char \<Rightarrow> key_wrap" where
  "sample_wrap a b = \<lparr>kw_suite = E2E_SUITE_V1, kw_contentId = js ''content-1'',
    kw_linkId = js ''link-1'', kw_linkGeneration = 1, kw_epoch = 1,
    kw_senderEncryptionKeyId = sample_key a, kw_recipientEncryptionKeyId = sample_key b,
    kw_nonce = sample_bytes 12, kw_ciphertext = sample_bytes 48\<rparr>"

definition sample_command :: command_envelope where
  "sample_command = \<lparr>ce_commandId = js ''cmd-1'', ce_hostId = js ''host-1'',
    ce_sessionId = js ''session-1'', ce_type = Reply (js ''event-1''),
    ce_content = sample_content ''reply-content-v1'' 64, ce_keyWrap = sample_wrap CHR ''W'' CHR ''H'',
    ce_issuedAt = sample_time 0, ce_expiresAt = sample_time 500, ce_nonce = js ''nonce-1'',
    ce_watchDeviceId = js ''watch-1'', ce_linkId = js ''link-1'', ce_linkGeneration = 1, ce_epoch = 1\<rparr>"

definition sample_pin :: pin_reference where
  "sample_pin = \<lparr>pin_linkId = js ''link-1'', pin_linkGeneration = 1, pin_epoch = 1,
    pin_transcriptDigest = sample_digest, pin_hostEncryptionKeyId = sample_key CHR ''H'',
    pin_watchEncryptionKeyId = sample_key CHR ''W''\<rparr>"

definition sample_result :: command_result where
  "sample_result = \<lparr>cr_commandId = js ''cmd-1'', cr_hostId = js ''host-1'',
    cr_sessionId = js ''session-1'', cr_updatedAt = sample_time 300, cr_accepted = True,
    cr_status = Executed\<rparr>"

definition sample_receipt :: command_receipt where
  "sample_receipt = \<lparr>re_hostId = js ''host-1'', re_watchDeviceId = js ''watch-1'',
    re_sessionId = js ''session-1'', re_commandId = js ''cmd-1'', re_commandType = Receipt_reply,
    re_commandDigest = sample_digest, re_completedAt = sample_time 300, re_linkId = js ''link-1'',
    re_linkGeneration = 1, re_epoch = 1,
    re_content = sample_content ''command-receipt-content-v1'' 144,
    re_keyWrap = sample_wrap CHR ''H'' CHR ''W''\<rparr>"

text \<open>A hash of one value and a codec of one receipt: enough for one command.\<close>

definition sample_wire :: wire_port where
  "sample_wire = \<lparr>sha256_base64url = (\<lambda>_. sample_digest), stringify_receipt = (\<lambda>_. js ''body''),
    parse_receipt = (\<lambda>_. Some sample_receipt)\<rparr>"

definition sample_outbox :: outbox_input where
  "sample_outbox = \<lparr>oi_canonicalBody = js ''body'', oi_receiptDigest = sample_digest,
    oi_receipt = sample_receipt\<rparr>"

definition sample_stored_outbox :: receipt_outbox where
  "sample_stored_outbox = \<lparr>ob_state = Outbox_pending, ob_canonicalBody = js ''body'',
    ob_receiptDigest = sample_digest\<rparr>"

lemmas sample_defs = sample_content_def sample_wrap_def sample_command_def sample_pin_def
  sample_result_def sample_receipt_def sample_wire_def sample_outbox_def sample_stored_outbox_def

lemma sample_positive [simp]: "isPositiveInteger 1"
  by (simp add: isPositiveInteger_def is_safe_integer_def)

lemma sample_canonical_digest [simp]: "isCanonicalDigest sample_digest"
  by (simp add: isCanonicalDigest_def sample_digest_def)

lemma sample_variant_valid:
  assumes "isIdentifier i" "isIdentifier w" "isIdentifier n"
  shows "validateEncryptedCommandEnvelopeV1 (sample_command\<lparr>ce_commandId := i, ce_watchDeviceId := w, ce_nonce := n\<rparr>)"
  using assms
  by (simp add: validateEncryptedCommandEnvelopeV1_def validateEncryptedPayload_def sample_defs
      plain_identifier maxTtlMs_def replyCiphertextBytes_def)

lemma sample_command_valid [simp]: "validateEncryptedCommandEnvelopeV1 sample_command"
  using sample_variant_valid[of "js ''cmd-1''" "js ''watch-1''" "js ''nonce-1''"]
  by (simp add: plain_identifier sample_command_def)

lemma sample_result_valid [simp]: "validateCommandResult sample_result"
  by (simp add: validateCommandResult_def sample_result_def plain_identifier)

lemma sample_key_bounded [simp]:
  "isBoundedWellFormedString (sample_key CHR ''H'') 256" "isBoundedWellFormedString (sample_key CHR ''W'') 256"
  unfolding sample_key_def by (rule plain_bounded; simp only: sample_plain)+

lemma sample_receipt_valid [simp]: "validateCommandReceiptEnvelopeV1 sample_receipt"
  by (simp add: validateCommandReceiptEnvelopeV1_def validateEncryptedContentV1_def
      validateRecipientKeyWrapV1_def sample_defs plain_bounded)

lemma sample_execution_valid [simp]:
  "k < 1000 \<Longrightarrow> assertCommandExecution sample_wire (claim_candidate sample_command sample_digest sample_pin (sample_time k)) = ok ()"
  by (simp add: assertCommandExecution_def execution_fields_valid_def execution_bound_def
      assert_execution_shape_def claim_candidate_def buildEncryptedCommandEnvelopeBindingBytes_def
      hashBytes_def isPersistedCommandPinReference_def)
    (simp add: sample_defs)

lemma sample_variant_execution:
  assumes "isIdentifier i" "isIdentifier w" "isIdentifier n" "k < 1000"
  shows "assertCommandExecution sample_wire (claim_candidate
    (sample_command\<lparr>ce_commandId := i, ce_watchDeviceId := w, ce_nonce := n\<rparr>) sample_digest sample_pin (sample_time k)) = ok ()"
  using sample_variant_valid[OF assms(1-3)] assms(4)
  by (simp add: assertCommandExecution_def execution_fields_valid_def execution_bound_def
      assert_execution_shape_def claim_candidate_def buildEncryptedCommandEnvelopeBindingBytes_def
      hashBytes_def isPersistedCommandPinReference_def)
    (simp add: sample_defs)

end
