(* ===== verification/Command_Properties.thy ===== *)
theory Command_Properties
  imports Bridge_Examples
begin

section \<open>Properties of the command journal\<close>

text \<open>
  The claims about commands, each with a witness on the sample command: at most one dispatch,
  final results, exclusive claims, exact pruning, recovery of orphans, and what the digests commit
  to.
\<close>

subsection \<open>Histories of the sample command\<close>

definition sample_store :: "bridge_state \<Rightarrow> state_store" where
  "sample_store s = \<lparr>st_live = s, st_disk = s, st_disposed = False, st_writer_allowed = True,
    st_runtimeReady = True, st_pinsReady = True, st_has_path = True\<rparr>"

definition sample_ports :: store_ports where
  "sample_ports = \<lparr>sp_wire = sample_wire,
    sp_localeCompare = (\<lambda>a b. if a = b then 0 else if a < b then -1 else 1)\<rparr>"

abbreviation cmd :: jsstring where "cmd \<equiv> js ''cmd-1''"

definition sample_claimed :: bridge_state where
  "sample_claimed = (emptyState sample_epoch)\<lparr>bs_commandExecutions :=
    [(cmd, claim_candidate sample_command sample_digest sample_pin (sample_time 5))]\<rparr>"

lemma sample_store_read [simp]: "read_state (sample_store s) = ok s"
  by (simp add: read_state_def assertStateStoreAccess_def sample_store_def)

lemma sample_commit:
  assumes "\<not> mutates_first op" and "op_transition Q op s = Inr (New s', ())"
  shows "run_op Q Written op (sample_store s) = (Inr (), sample_store s')"
  using assms
  by (simp add: run_op_def commitState_def store_commit_def write_state_def assertStateStoreAccess_def)
    (simp add: sample_store_def)

lemma sample_claimed_get:
  "oget (bs_commandExecutions sample_claimed) k =
    (if k = cmd then Some (claim_candidate sample_command sample_digest sample_pin (sample_time 5)) else None)"
  by (simp add: sample_claimed_def)

text \<open>The execution after dispatch and after its receipt is stored.\<close>

definition sample_dispatched :: command_execution where
  "sample_dispatched = (claim_candidate sample_command sample_digest sample_pin (sample_time 5))
    \<lparr>cx_state := Dispatch_started, cx_dispatchStartedAt := Some (sample_time 2)\<rparr>"

definition sample_terminal :: command_execution where
  "sample_terminal = (claim_candidate sample_command sample_digest sample_pin (sample_time 5))
    \<lparr>cx_state := Terminal, cx_terminalResult := Some sample_result,
     cx_receiptOutbox := Some sample_stored_outbox\<rparr>"

lemma sample_receipt_matches:
  "assertReceiptOutboxForExecution sample_wire
     (claim_candidate sample_command sample_digest sample_pin (sample_time 5)) sample_result sample_outbox = ok ()"
  by (simp add: assertReceiptOutboxForExecution_def receipt_digest_matches_def hashBytes_def
      buildCommandReceiptEnvelopeBindingBytes_def sample_outbox_def sample_wire_def)
    (simp add: receipt_matches_execution_def claim_candidate_def sample_defs)

lemma sample_execution_parts:
  assumes "cx_originalEncryptedCommand x = sample_command" "cx_commandDigest x = sample_digest"
    "cx_pinReference x = sample_pin" "cx_watchDeviceId x = js ''watch-1''" "cx_nonce x = js ''nonce-1''"
    "cx_expiresAt x = sample_time 500" "is_canonical_timestamp (cx_claimedAt x)"
  shows "execution_fields_valid x" "execution_bound sample_wire x"
  by (simp_all add: assms execution_fields_valid_def execution_bound_def hashBytes_def
      buildEncryptedCommandEnvelopeBindingBytes_def isPersistedCommandPinReference_def)
    (simp_all add: sample_defs)

lemma sample_candidate_fields [simp]:
  "cx_watchDeviceId (claim_candidate sample_command d p t) = js ''watch-1''"
  "cx_nonce (claim_candidate sample_command d p t) = js ''nonce-1''"
  "cx_expiresAt (claim_candidate sample_command d p t) = sample_time 500"
  "cx_commandDigest (claim_candidate c d p t) = d" "cx_pinReference (claim_candidate c d p t) = p"
  "cx_originalEncryptedCommand (claim_candidate c d p t) = c" "cx_state (claim_candidate c d p t) = Claimed"
  "cx_claimedAt (claim_candidate c d p t) = t" "cx_dispatchStartedAt (claim_candidate c d p t) = None"
  "cx_terminalResult (claim_candidate c d p t) = None" "cx_receiptOutbox (claim_candidate c d p t) = None"
  "ce_commandId sample_command = cmd"
  by (simp_all add: claim_candidate_def sample_command_def)

lemma sample_dispatched_valid: "assertCommandExecution sample_wire sample_dispatched = ok ()"
  using sample_execution_parts[of sample_dispatched]
  by (simp add: assertCommandExecution_def assert_execution_shape_def sample_dispatched_def)

lemma sample_terminal_valid: "assertCommandExecution sample_wire sample_terminal = ok ()"
proof -
  have r: "result_bound sample_terminal sample_result"
    by (simp add: result_bound_def sample_terminal_def claim_candidate_def)
      (simp add: sample_result_def sample_command_def)
  have o: "isPersistedReceiptOutbox sample_wire sample_stored_outbox"
    by (simp add: isPersistedReceiptOutbox_def receipt_digest_matches_def hashBytes_def
        buildCommandReceiptEnvelopeBindingBytes_def sample_wire_def sample_stored_outbox_def)
  have m: "assertPersistedReceiptMatchesExecution sample_wire sample_terminal sample_stored_outbox sample_result = ok ()"
    using sample_receipt_matches
    by (simp add: assertPersistedReceiptMatchesExecution_def assertReceiptOutboxForExecution_def
        receipt_matches_execution_def sample_wire_def sample_stored_outbox_def sample_outbox_def
        sample_terminal_def claim_candidate_def Let_def split: if_splits)
  show ?thesis
    using sample_execution_parts[of sample_terminal] r o m
    by (simp add: assertCommandExecution_def assert_execution_shape_def sample_terminal_def)
qed

lemma sample_ports_wire [simp]: "sp_wire sample_ports = sample_wire"
  by (simp add: sample_ports_def)

lemma sample_dispatch_runs:
  "run_op sample_ports Written (Mark_dispatch_started cmd (sample_time 2)) (sample_store sample_claimed)
    = (Inr (), sample_store (put_execution cmd sample_dispatched sample_claimed))"
proof (rule sample_commit)
  show "op_transition sample_ports (Mark_dispatch_started cmd (sample_time 2)) sample_claimed
    = Inr (New (put_execution cmd sample_dispatched sample_claimed), ())"
    using sample_dispatched_valid
    by (simp add: discard_def markCommandDispatchStartedTransition_def requireCommandExecution_def
        sample_claimed_get replaceCommandExecutionTransition_def sample_dispatched_def)
qed simp

lemma sample_receipt_runs:
  "run_op sample_ports Written (Persist_receipt cmd sample_result sample_outbox) (sample_store sample_claimed)
    = (Inr (), sample_store (put_execution cmd sample_terminal sample_claimed))"
proof (rule sample_commit)
  show "op_transition sample_ports (Persist_receipt cmd sample_result sample_outbox) sample_claimed
    = Inr (New (put_execution cmd sample_terminal sample_claimed), ())"
    using sample_terminal_valid sample_receipt_matches
    by (simp add: discard_def persistTerminalCommandReceiptTransition_def requireCommandExecution_def
        sample_claimed_get replaceCommandExecutionTransition_def sample_terminal_def sample_outbox_def
        sample_stored_outbox_def)
qed simp

subsection \<open>Dispatch at most once, results final\<close>

lemma advanced_live:
  assumes "advanced k x store"
  obtains y where "oget (bs_commandExecutions (st_live store)) k = Some y" "advances x y"
  using assms by (auto simp: advanced_def advanced_in_def)

text \<open>An operation whose transition throws at the live state reports an error.\<close>

lemma run_op_error:
  assumes "\<And>s. s = st_live store \<Longrightarrow> \<exists>e. op_transition Q op s = Inl e"
  shows "\<exists>e. fst (run_op Q outcome op store) = Inl e"
  using assms read_state_live[of store]
  by (cases "read_state store") (auto simp: run_op_def commitState_def applyTransition_def)

lemma dispatch_advanced:
  assumes "run_op Q outcome (Mark_dispatch_started k t) store = (Inr (), store1)" "st_has_path store"
  shows "\<exists>x. cx_state x = Dispatch_started \<and> advanced k x store1"
proof (rule rewrite_advanced[OF assms(1) _ assms(2)])
  fix n
  assume "op_transition Q (Mark_dispatch_started k t) (st_live store) = Inr (n, ())"
  then obtain r where "markCommandDispatchStartedTransition (sp_wire Q) (st_live store) k t = Inr (n, r)"
    by (auto simp: discard_Inr)
  from dispatch_rewrites[OF this] show "\<exists>w x. exec_rewrite (sp_wire Q) (st_live store) k w x n
      \<and> cx_state x = Dispatch_started"
    by force
qed simp

definition stored_result :: "command_result \<Rightarrow> outbox_input \<Rightarrow> command_execution \<Rightarrow> bool" where
  "stored_result res ob x \<longleftrightarrow> cx_state x = Terminal \<and> cx_terminalResult x = Some res
    \<and> cx_receiptOutbox x = Some \<lparr>ob_state = Outbox_pending, ob_canonicalBody = oi_canonicalBody ob,
        ob_receiptDigest = oi_receiptDigest ob\<rparr>"

lemma receipt_advanced:
  assumes "run_op Q outcome (Persist_receipt k res ob) store = (Inr (), store1)" "st_has_path store"
  shows "\<exists>x. stored_result res ob x \<and> advanced k x store1"
proof (rule rewrite_advanced[OF assms(1) _ assms(2)])
  fix n
  assume "op_transition Q (Persist_receipt k res ob) (st_live store) = Inr (n, ())"
  then obtain r where "persistTerminalCommandReceiptTransition (sp_wire Q) (st_live store) k res ob = Inr (n, r)"
    by (auto simp: discard_Inr)
  from terminal_rewrites[OF this] obtain w where "exec_rewrite (sp_wire Q) (st_live store) k w r n"
    "stored_result res ob r"
    by (auto simp: stored_result_def)
  then show "\<exists>w x. exec_rewrite (sp_wire Q) (st_live store) k w x n \<and> stored_result res ob x"
    by blast
qed simp

text \<open>
  C8. Once the store has reported a command as dispatched, no later attempt to dispatch it
  succeeds: not after failed writes, nor after restarts from the state file, unless pruning removed
  the command.
\<close>

theorem dispatched_at_most_once:
  assumes "st_has_path store"
    and "run_op Q outcome (Mark_dispatch_started k t) store = (Inr (), store1)"
    and "\<forall>e \<in> set es. \<not> prunes e"
  shows "\<exists>e. fst (run_op Q outcome' (Mark_dispatch_started k t') (run_history Q h es store1)) = Inl e"
proof -
  note dispatch_advanced[OF assms(2,1)]
  then obtain x where x: "cx_state x = Dispatch_started" "advanced k x (run_history Q h es store1)"
    using run_history_advanced[OF _ assms(3)] by blast
  obtain y where "oget (bs_commandExecutions (st_live (run_history Q h es store1))) k = Some y"
    and "cx_state y \<noteq> Claimed"
    using x by (auto simp: advances_def elim!: advanced_live)
  then show ?thesis
    by (intro run_op_error)
      (auto simp: discard_def markCommandDispatchStartedTransition_def requireCommandExecution_def)
qed

theorem dispatched_at_most_once_witness:
  "\<exists>e. fst (run_op sample_ports Written (Mark_dispatch_started cmd (sample_time 3))
     (run_history sample_ports (js ''host-1'') [Restart, Run Not_written Recover_orphans]
       (sample_store (put_execution cmd sample_dispatched sample_claimed)))) = Inl e"
  by (rule dispatched_at_most_once[OF _ sample_dispatch_runs]) (simp_all add: sample_store_def)

text \<open>
  C9. Once the store has reported a terminal result with its receipt, the live state and the state
  file hold that result and that receipt, body and digest, through every later history that does
  not prune it.
\<close>

theorem terminal_result_is_final:
  assumes "st_has_path store"
    and "run_op Q outcome (Persist_receipt k res ob) store = (Inr (), store1)"
    and "\<forall>e \<in> set es. \<not> prunes e"
    and "s = st_live (run_history Q h es store1) \<or> s = st_disk (run_history Q h es store1)"
  shows "\<exists>x b. oget (bs_commandExecutions s) k = Some x \<and> cx_state x = Terminal
    \<and> cx_terminalResult x = Some res \<and> cx_receiptOutbox x = Some b
    \<and> ob_canonicalBody b = oi_canonicalBody ob \<and> ob_receiptDigest b = oi_receiptDigest ob"
proof -
  obtain x where "stored_result res ob x" "advanced k x (run_history Q h es store1)"
    using receipt_advanced[OF assms(2,1)] run_history_advanced[OF _ assms(3)] by blast
  moreover from this(2) assms(4) have "advanced_in k x s" by (auto simp: advanced_def)
  ultimately show ?thesis
    by (auto simp: stored_result_def advanced_in_def advances_def has_result_def option_rel_Some1 receipt_advances_def)
qed

theorem terminal_result_is_final_witness:
  "\<exists>x b. oget (bs_commandExecutions (st_disk (run_history sample_ports (js ''host-1'')
       [Run Written_then_failed (Mark_outbox cmd Acknowledged), Restart]
       (sample_store (put_execution cmd sample_terminal sample_claimed))))) cmd = Some x
     \<and> cx_state x = Terminal \<and> cx_terminalResult x = Some sample_result \<and> cx_receiptOutbox x = Some b
     \<and> ob_canonicalBody b = oi_canonicalBody sample_outbox \<and> ob_receiptDigest b = oi_receiptDigest sample_outbox"
  by (rule terminal_result_is_final[OF _ sample_receipt_runs, where h = "js ''host-1''"
        and es = "[Run Written_then_failed (Mark_outbox cmd Acknowledged), Restart]"])
    (simp_all only: prunes.simps is_prune.simps simp_thms ball_simps list.set sample_store_def state_store.simps)

subsection \<open>Claims\<close>

text \<open>
  C10. A claim that was granted excludes, through every later history of operations, failed writes and
  restarts that does not prune, whatever state it leads to, every other claim of the same command id or
  of the same nonce of the same Watch: such a claim fails, or is answered as a duplicate or a conflict
  and changes nothing.
\<close>

theorem claims_are_exclusive:
  assumes "st_has_path store"
    and "run_op Q outcome (Claim_execution command digest pin t) store = (Inr (), store1)"
    and "\<exists>x n. claimCommandExecutionTransition (sp_wire Q) (st_live store) command digest pin t
      = Inr (n, Claim_claimed x)"
    and "\<forall>e \<in> set es. \<not> prunes e"
    and "ce_commandId other = ce_commandId command
      \<or> ce_watchDeviceId other = ce_watchDeviceId command \<and> ce_nonce other = ce_nonce command"
    and "claimCommandExecutionTransition (sp_wire Q) (st_live (run_history Q h es store1))
      other digest' pin' t' = Inr (n', r)"
  shows "n' = Same \<and> (\<forall>x. r \<noteq> Claim_claimed x)"
proof -
  let ?s = "st_live (run_history Q h es store1)"
  let ?x = "claim_candidate command digest pin t" and ?k = "ce_commandId command"
  obtain n where n: "op_transition Q (Claim_execution command digest pin t) (st_live store) = Inr (n, ())"
    "st_live store1 = resulting (st_live store) n" "n \<noteq> Same \<Longrightarrow> st_disk store1 = st_live store1"
    by (rule run_op_success[OF assms(2)]) (use assms(1) in simp_all)
  obtain x0 n0 where c: "claimCommandExecutionTransition (sp_wire Q) (st_live store) command digest pin t
      = Inr (n0, Claim_claimed x0)"
    using assms(3) by blast
  then have "n = n0" using n(1) by (simp add: discard_def)
  then have "n = New (put_execution ?k ?x (st_live store))" using claim_fresh[OF c] by auto
  then have "advanced ?k ?x store1"
    using n(2,3) run_op_has_path[OF assms(2)] assms(1) advances_refl
    by (auto simp: advanced_def advanced_in_def put_execution_def oget_oput)
  from run_history_advanced[OF this assms(4)]
  obtain y where y: "oget (bs_commandExecutions ?s) ?k = Some y" "advances ?x y"
    by (rule advanced_live)
  have bound: "cx_watchDeviceId y = ce_watchDeviceId command" "cx_nonce y = ce_nonce command"
    using y(2) by (simp_all add: advances_def claim_candidate_def)
  have "y \<in> set (ovalues (bs_commandExecutions ?s))"
    using oget_SomeD[OF y(1)] by (force simp: ovalues_def)
  then have used: "nonce_used ?s (claim_candidate other digest' pin' t')"
    if "ce_watchDeviceId other = ce_watchDeviceId command" "ce_nonce other = ce_nonce command"
    using that bound by (auto simp: nonce_used_def list_ex_iff claim_candidate_def intro!: bexI[of _ y])
  show ?thesis
    using claim_fresh[OF assms(6)] assms(5) y(1) used by auto
qed

lemma sample_claim:
  "claimCommandExecutionTransition sample_wire (emptyState e) sample_command sample_digest sample_pin (sample_time 5)
    = Inr (New (put_execution cmd (claim_candidate sample_command sample_digest sample_pin (sample_time 5)) (emptyState e)),
        Claim_claimed (claim_candidate sample_command sample_digest sample_pin (sample_time 5)))"
  by (simp add: claimCommandExecutionTransition_def nonce_used_def emptyState_def ovalues_def Let_def)

lemma sample_claimed_alt:
  "put_execution cmd (claim_candidate sample_command sample_digest sample_pin (sample_time 5)) (emptyState sample_epoch)
    = sample_claimed"
  by (simp add: put_execution_def sample_claimed_def emptyState_def oput_def)

lemma sample_claim_runs:
  "run_op sample_ports Written (Claim_execution sample_command sample_digest sample_pin (sample_time 5))
    (sample_store (emptyState sample_epoch)) = (Inr (), sample_store sample_claimed)"
  by (rule sample_commit) (simp_all add: sample_claim discard_def sample_claimed_alt)

lemma sample_claimed_consistent: "consistent sample_wire (js ''host-1'') sample_claimed"
proof -
  have "claim_guard (js ''host-1'') sample_command (emptyState sample_epoch)"
    by (simp add: claim_guard_def plain_watch_ids_def emptyState_def ovalues_def sample_command_def js_def)
  from claim_keeps[OF _ this sample_claim] show ?thesis
    using startable_empty[OF sample_epoch_valid] startable_facts(1) by (fastforce simp: sample_claimed_alt)
qed

lemma failed_commit: "\<not> mutates_first op \<Longrightarrow> st_has_path store \<Longrightarrow> snd (run_op Q Not_written op store) = store"
  by (auto simp: run_op_def store_defs split: sum.splits next_state.splits prod.splits if_splits)

theorem claims_are_exclusive_witness:
  "Same = Same \<and> (\<forall>x. Claim_duplicate (claim_candidate sample_command sample_digest sample_pin (sample_time 5))
    \<noteq> Claim_claimed x)"
proof (rule claims_are_exclusive[OF _ sample_claim_runs, where es = "[Run Not_written Recover_orphans]"
      and h = "js ''host-1''" and other = sample_command and digest' = sample_digest and pin' = sample_pin
      and t' = "sample_time 4"])
  let ?es = "[Run Not_written Recover_orphans]"
  have live: "st_live (run_history sample_ports (js ''host-1'') ?es (sample_store sample_claimed)) = sample_claimed"
    by (simp add: run_history_def failed_commit sample_store_def)
  show "st_has_path (sample_store (emptyState sample_epoch))" by (simp add: sample_store_def)
  show "\<exists>x n. claimCommandExecutionTransition (sp_wire sample_ports) (st_live (sample_store (emptyState sample_epoch)))
      sample_command sample_digest sample_pin (sample_time 5) = Inr (n, Claim_claimed x)"
    using sample_claim by (simp add: sample_store_def)
  show "claimCommandExecutionTransition (sp_wire sample_ports)
      (st_live (run_history sample_ports (js ''host-1'') ?es (sample_store sample_claimed)))
      sample_command sample_digest sample_pin (sample_time 4)
    = Inr (Same, Claim_duplicate (claim_candidate sample_command sample_digest sample_pin (sample_time 5)))"
    by (simp add: live claimCommandExecutionTransition_def sample_claimed_get sameCommandClaim_def Let_def)
qed simp_all

subsection \<open>Pruning\<close>

text \<open>The instant through which the journal keeps an execution: five minutes beyond its expiry while
  it is unfinished, thirty days beyond its result once it has one.\<close>

definition retention_deadline :: "command_execution \<Rightarrow> int" where
  "retention_deadline x =
    (case cx_terminalResult x of
       Some r \<Rightarrow> if unfinished (cx_state x) then instant (cx_expiresAt x) + clockSkewMs
                 else instant (cr_updatedAt r) + COMMAND_RECEIPT_RETENTION_MS
     | None \<Rightarrow> instant (cx_expiresAt x) + clockSkewMs)"

lemma addMilliseconds_stamp:
  assumes "is_canonical_timestamp t" and "clock_in_range (instant t + d)"
  obtains u where "addMilliseconds t d = ok u" "is_canonical_timestamp u" "instant u = instant t + d"
  using clock_stamp[OF assms(2)] assms(1) by (force simp: addMilliseconds_def date_parse_canonical)

lemma retained_through:
  assumes x: "assertCommandExecution P x = ok ()" and range: "clock_in_range (retention_deadline x)"
  obtains u where "commandExecutionRetainedThrough x = ok u" "is_canonical_timestamp u"
    "instant u = retention_deadline x"
proof (cases "unfinished (cx_state x)")
  case True
  have d: "retention_deadline x = instant (cx_expiresAt x) + clockSkewMs"
    using True by (simp add: retention_deadline_def split: option.split)
  have "is_canonical_timestamp (cx_expiresAt x)"
    using assert_nonce[OF x] by (simp add: validateEncryptedCommandEnvelopeV1_def)
  then show thesis
    using that True addMilliseconds_stamp range d by (auto simp: commandExecutionRetainedThrough_def)
next
  case False
  then obtain r where r: "cx_terminalResult x = Some r"
    using x by (cases "cx_state x") (auto simp: assertCommandExecution_def assert_execution_shape_def
        split: if_splits option.splits)
  then have "is_canonical_timestamp (cr_updatedAt r)"
    using x by (auto simp: assertCommandExecution_def result_bound_def validateCommandResult_def split: if_splits)
  then show thesis
    using that False r addMilliseconds_stamp range
    by (auto simp: commandExecutionRetainedThrough_def retention_deadline_def)
qed

lemma prune_eligible_exact:
  assumes "is_canonical_timestamp now"
    and "\<forall>(k, x) \<in> set es. assertCommandExecution P x = ok () \<and> clock_in_range (retention_deadline x)"
  shows "prune_eligible es now = ok (filter (\<lambda>(k, x). retention_deadline x < instant now) es)"
  using assms(2)
proof (induction es)
  case (Cons e es)
  obtain k x where e: "e = (k, x)" by (cases e)
  with Cons.prems have x: "assertCommandExecution P x = ok ()" "clock_in_range (retention_deadline x)" by auto
  obtain u where u: "commandExecutionRetainedThrough x = ok u" "is_canonical_timestamp u"
    "instant u = retention_deadline x"
    by (rule retained_through[OF x])
  have "u < now \<longleftrightarrow> retention_deadline x < instant now"
    using canonical_timestamp_less[OF u(2) assms(1)] u(3) by simp
  then show ?case using Cons u by (simp add: e)
qed simp

lemma odels_filter:
  assumes "oinv m"
  shows "foldl (\<lambda>m k. odel k m) m (map fst (filter (\<lambda>(k, x). R x) m)) = filter (\<lambda>(k, x). \<not> R x) m"
proof -
  have "foldl (\<lambda>m k. odel k m) m ks = filter (\<lambda>(k, x). k \<notin> set ks) m" for ks
    by (induction ks rule: rev_induct) (auto simp: odel_def AList.delete_eq intro: filter_cong)
  moreover have "(k \<notin> set (map fst (filter (\<lambda>(k, x). R x) m))) = (\<not> R x)" if "(k, x) \<in> set m" for k x
    using that assms by (force simp: oinv_def dest: eq_key_imp_eq_value)
  then have "filter (\<lambda>(k, x). k \<notin> set (map fst (filter (\<lambda>(k, x). R x) m))) m = filter (\<lambda>(k, x). \<not> R x) m"
    by (intro filter_cong[OF refl]) blast
  ultimately show ?thesis by simp
qed

text \<open>
  Pruning at an instant removes from a consistent journal exactly the executions whose retention
  has ended before that instant, and returns them; every other execution stays, in its order.
\<close>

theorem prune_is_exact:
  assumes "consistent P h s" and "is_canonical_timestamp now"
    and "\<forall>x \<in> set (ovalues (bs_commandExecutions s)). clock_in_range (retention_deadline x)"
  shows "\<exists>n r. pruneEligibleCommandExecutionsTransition s now = Inr (n, r)
    \<and> bs_commandExecutions (resulting s n)
        = filter (\<lambda>(k, x). instant now \<le> retention_deadline x) (bs_commandExecutions s)
    \<and> r = filter (\<lambda>x. retention_deadline x < instant now) (ovalues (bs_commandExecutions s))"
proof -
  let ?m = "bs_commandExecutions s" and ?R = "\<lambda>x. retention_deadline x < instant now"
  have R: "related P s h" and ok: "oinv ?m" using assms(1) by (simp_all add: consistent_iff objects_ok_def)
  have "\<forall>(k, x) \<in> set ?m. assertCommandExecution P x = ok () \<and> clock_in_range (retention_deadline x)"
    using relatedD(7)[OF R] assms(3) by (force simp: commands_related_def ovalues_def)
  note el = prune_eligible_exact[OF assms(2) this]
  have vals: "map snd (filter (\<lambda>(k, x). ?R x) ?m) = filter ?R (ovalues ?m)"
    unfolding ovalues_def by (induction ?m) (auto simp: filter_map comp_def case_prod_beta)
  show ?thesis
  proof (cases "filter (\<lambda>(k, x). ?R x) ?m = []")
    case True
    then have "filter (\<lambda>(k, x). instant now \<le> retention_deadline x) ?m = ?m"
      by (auto simp: filter_empty_conv filter_id_conv not_less)
    with True vals show ?thesis
      using assms(2) el by (simp add: pruneEligibleCommandExecutionsTransition_def)
  next
    case False
    with vals odels_filter[OF ok, of ?R] show ?thesis
      using assms(2) el by (simp add: pruneEligibleCommandExecutionsTransition_def not_less)
  qed
qed

lemma sample_deadline: "clock_in_range (retention_deadline (claim_candidate sample_command sample_digest sample_pin t))"
proof -
  have "sample_instant = 1704164645000"
    by (simp add: sample_instant_def sample_fields_def time_of_fields_def day_from_year_def
        days_before_month_def leap_def)
  then show ?thesis by (simp add: retention_deadline_def clockSkewMs_def clock_in_range_def)
qed

theorem prune_is_exact_witness:
  "\<exists>n r. pruneEligibleCommandExecutionsTransition sample_claimed (sample_time 900) = Inr (n, r)
    \<and> bs_commandExecutions (resulting sample_claimed n)
        = filter (\<lambda>(k, x). instant (sample_time 900) \<le> retention_deadline x) (bs_commandExecutions sample_claimed)
    \<and> r = filter (\<lambda>x. retention_deadline x < instant (sample_time 900)) (ovalues (bs_commandExecutions sample_claimed))"
  by (rule prune_is_exact[OF sample_claimed_consistent])
    (simp_all add: sample_claimed_def ovalues_def sample_deadline)

subsection \<open>Recovery of orphans\<close>

text \<open>
  Recovery turns exactly the executions in flight (claimed or dispatched) to outcome unknown,
  in place, reports their number, and leaves nothing to recover: a second recovery is a no-op.
\<close>

theorem recovery_settles_orphans:
  "\<exists>n r. recoverOrphanedCommandExecutionsTransition s = Inr (n, r)
    \<and> (\<forall>k. oget (bs_commandExecutions (resulting s n)) k
        = map_option (\<lambda>x. if in_flight x then x\<lparr>cx_state := Outcome_unknown\<rparr> else x)
            (oget (bs_commandExecutions s) k))
    \<and> r = length (filter in_flight (ovalues (bs_commandExecutions s)))
    \<and> recoverOrphanedCommandExecutionsTransition (resulting s n) = Inr (Same, 0)"
proof -
  have "is_ok (recoverOrphanedCommandExecutionsTransition s)"
    by (simp add: recoverOrphanedCommandExecutionsTransition_def Let_def)
  then obtain n r where t: "recoverOrphanedCommandExecutionsTransition s = Inr (n, r)"
    by (auto simp: is_ok_iff)
  note shape = recover_shape[OF t]
  have "\<not> in_flight (orphaned x)" for x by (simp add: orphaned_def in_flight_def)
  then have "filter (\<lambda>(k, x). in_flight x) (bs_commandExecutions (resulting s n)) = []"
    by (auto simp: shape(1) filter_empty_conv)
  then have "recoverOrphanedCommandExecutionsTransition (resulting s n) = Inr (Same, 0)"
    by (simp add: recoverOrphanedCommandExecutionsTransition_def)
  then show ?thesis
    using t shape by (auto simp: oget_map_snd orphaned_def[abs_def])
qed

subsection \<open>What the digests commit to\<close>

text \<open>
  C39. The bytes a command digest is taken of determine the whole command, and they are the bytes of
  no receipt: a hash without collisions on such bytes commits to every field of the command.
\<close>

theorem command_bytes_determine_the_command:
  assumes "buildEncryptedCommandEnvelopeBindingBytes c = ok b"
  shows "(buildEncryptedCommandEnvelopeBindingBytes d = ok b \<longleftrightarrow> d = c)
    \<and> buildCommandReceiptEnvelopeBindingBytes q \<noteq> ok b"
  using assms command_binding_bytes_inject binding_domains_disjoint by blast

theorem command_bytes_determine_the_command_witness:
  "buildEncryptedCommandEnvelopeBindingBytes (sample_command\<lparr>ce_commandId := js ''cmd-2''\<rparr>)
    \<noteq> ok (encodeLengthPrefixedFields (command_binding_fields sample_command))"
proof -
  have "buildEncryptedCommandEnvelopeBindingBytes sample_command
      = ok (encodeLengthPrefixedFields (command_binding_fields sample_command))"
    by (simp add: buildEncryptedCommandEnvelopeBindingBytes_def)
  from command_bytes_determine_the_command[OF this, of "sample_command\<lparr>ce_commandId := js ''cmd-2''\<rparr>"]
  show ?thesis by (auto simp: sample_command_def)
qed

text \<open>The bytes a receipt digest is taken of determine the whole receipt.\<close>

theorem receipt_bytes_determine_the_receipt:
  assumes "buildCommandReceiptEnvelopeBindingBytes r = ok b"
  shows "buildCommandReceiptEnvelopeBindingBytes q = ok b \<longleftrightarrow> q = r"
  using assms receipt_binding_bytes_inject by blast

theorem receipt_bytes_determine_the_receipt_witness:
  "buildCommandReceiptEnvelopeBindingBytes (sample_receipt\<lparr>re_epoch := 2\<rparr>)
    \<noteq> ok (encodeLengthPrefixedFields (receipt_binding_fields sample_receipt))"
proof -
  have "buildCommandReceiptEnvelopeBindingBytes sample_receipt
      = ok (encodeLengthPrefixedFields (receipt_binding_fields sample_receipt))"
    by (simp add: buildCommandReceiptEnvelopeBindingBytes_def)
  from receipt_bytes_determine_the_receipt[OF this, of "sample_receipt\<lparr>re_epoch := 2\<rparr>"]
  show ?thesis by (auto simp: sample_receipt_def)
qed

end
