(* ===== verification/Store_Properties.thy ===== *)
theory Store_Properties
  imports Command_Properties
begin

section \<open>Properties of the state store\<close>

text \<open>
  The claims about the Bridge's runtime state: no guarded operation leads to a state the Bridge
  cannot start from, what a failed write leaves, retention of events, handles, sessions and
  drivers, the publication revisions, reservations and the runtime health; and two inputs on which
  the code accepts an operation whose result the next start refuses.
\<close>

subsection \<open>The Bridge can always start again\<close>

text \<open>
  C7. From a state the Bridge can start from, no sequence of guarded store operations, whatever
  each write does (done, refused, or done and then reported as failed), leads the live state or the
  state file out of what the Bridge can start from: the values of every record are valid and the
  relationships hold. Guarded means that each operation fits the state it meets (\<open>op_guard\<close>: the Host is the
  Bridge's, a Session that is replaced or removed is not pinned by a checkpoint or a cancellation, an Event, a
  handle, a reservation or a checkpoint agrees with what is stored, a Watch id has no line feed) and what it
  stores fits the schema (\<open>values_guard\<close>: non-empty strings, safe integers, a health entry of a stable driver
  id with canonical times within 32 drivers).
\<close>

theorem store_stays_startable:
  assumes "both_startable (sp_wire Q) h store" and "guarded Q h ops store"
  shows "both_startable (sp_wire Q) h (run_ops Q ops store)"
  by (rule run_ops_keep[OF assms])

definition sample_host :: host_projection where
  "sample_host = \<lparr>hp_hostId = js ''host-1'', hp_hostName = js ''mac'', hp_platform = Platform_macos,
    hp_bridgeVersion = js ''1.0.0'', hp_registeredAt = sample_time 0, hp_lastSeenAt = sample_time 0,
    hp_bridgeStatus = Bridge_online, hp_status = None, hp_claimCode = Some (js ''code''),
    hp_claimCodeExpiresAt = None, hp_ownerUserId = None\<rparr>"

lemma sample_both_startable:
  "startable P h s \<Longrightarrow> both_startable P h (sample_store s)"
  by (simp add: both_startable_def sample_store_def)

lemma sample_first_failure_fits:
  "driver_failure_fits (st_live (snd (run_op sample_ports b (Set_recipient_set_version v)
      (snd (run_op sample_ports a (Set_host host) (sample_store sample_claimed))))))
    (js ''pi'') (sample_time 3) (sample_time 4)"
proof -
  have "isStableDriverId (js ''pi'')" by code_simp
  moreover have "bs_runtimeHealth (st_live (snd (run_op sample_ports b (Set_recipient_set_version v)
      (snd (run_op sample_ports a (Set_host host) (sample_store sample_claimed)))))) = Some emptyRuntimeHealth"
    by (cases a; cases b; simp add: run_op_def store_defs setHostTransition_def setRecipientSetVersionTransition_def
        sample_store_def sample_claimed_def emptyState_def emptyRuntimeHealth_def)
  ultimately show ?thesis
    by (simp add: driver_failure_fits_def current_health_def canonical_health_timestamp emptyRuntimeHealth_def
        find_driver_def)
qed

theorem store_stays_startable_witness:
  "both_startable sample_wire (js ''host-1'') (run_ops sample_ports
     [(Written_then_failed, Set_host sample_host), (Not_written, Set_recipient_set_version 3),
      (Written, Record_driver_failure (js ''pi'') (sample_time 3) (sample_time 4)),
      (Written, Mark_dispatch_started cmd (sample_time 6))]
     (sample_store sample_claimed))"
proof -
  have "startable sample_wire (js ''host-1'') sample_claimed"
    using sample_claimed_consistent values_empty[OF sample_epoch_valid]
    by (simp add: startable_iff sample_claimed_def)
  with store_stays_startable[of sample_ports "js ''host-1''" "sample_store sample_claimed"
      "[(Written_then_failed, Set_host sample_host), (Not_written, Set_recipient_set_version 3),
        (Written, Record_driver_failure (js ''pi'') (sample_time 3) (sample_time 4)),
        (Written, Mark_dispatch_started cmd (sample_time 6))]"]
  show ?thesis
    by (simp add: sample_both_startable sample_host_def sample_first_failure_fits)
qed

subsection \<open>What a write leaves\<close>

text \<open>
  C28. An operation that writes before it swaps leaves the live state untouched when it reports an
  error, and when it reports success the state file holds the live state, or nothing was to be
  written and neither changed.
\<close>

theorem reported_success_is_durable:
  assumes "run_op Q outcome op store = (res, store')" and "\<not> mutates_first op" and "st_has_path store"
  shows "case res of
      Inl e \<Rightarrow> st_live store' = st_live store
    | Inr u \<Rightarrow> st_disk store' = st_live store' \<or> st_live store' = st_live store \<and> st_disk store' = st_disk store"
proof (cases "needs_pins op \<and> \<not> st_pinsReady store")
  case False
  then have c: "commitState outcome (op_transition Q op) store = (res, store')"
    using assms by (auto simp: run_op_def split: if_splits)
  show ?thesis
  proof (cases "read_state store")
    case (Inr current)
    show ?thesis
    proof (cases "op_transition Q op current" rule: transition_cases)
      case (3 s' r)
      show ?thesis
        by (rule store_commit_cases[of outcome s' store])
          (use c Inr 3 assms(3) in \<open>auto simp: commitState_def\<close>)
    qed (use c Inr in \<open>auto simp: commitState_def\<close>)
  qed (use c in \<open>auto simp: commitState_def\<close>)
qed (use assms in \<open>auto simp: run_op_def\<close>)

theorem reported_success_is_durable_witness:
  "st_disk (sample_store (put_execution cmd sample_dispatched sample_claimed))
    = st_live (sample_store (put_execution cmd sample_dispatched sample_claimed))
   \<or> st_live (sample_store (put_execution cmd sample_dispatched sample_claimed)) = st_live (sample_store sample_claimed)
     \<and> st_disk (sample_store (put_execution cmd sample_dispatched sample_claimed)) = st_disk (sample_store sample_claimed)"
  using reported_success_is_durable[OF sample_dispatch_runs] by (simp add: sample_store_def)

subsection \<open>Recent events\<close>

text \<open>
  C30. However many events arrive, the state keeps at most 200 recent events, or as many as there are
  pending handles if those are more; and an event a pending handle refers to is never dropped.
\<close>

theorem recent_events_are_bounded:
  "length (bs_recentEvents (target s (appendRecentEventTransition lc s event)))
      \<le> max 200 (length (bs_pendingHandles s))
   \<and> (\<forall>(k, handle) \<in> set (bs_pendingHandles s).
        find_event (bs_recentEvents (target s (appendRecentEventTransition lc s event))) (ph_handledThroughEventId handle)
        = find_event (event # bs_recentEvents s) (ph_handledThroughEventId handle))"
proof -
  let ?es = "retainRecentEvents lc (event # bs_recentEvents s) (bs_pendingHandles s)"
  have es: "bs_recentEvents (target s (appendRecentEventTransition lc s event)) = ?es"
    by (simp add: appendRecentEventTransition_def)
  have "find_event ?es (ph_handledThroughEventId handle)
      = find_event (event # bs_recentEvents s) (ph_handledThroughEventId handle)"
    if "(k, handle) \<in> set (bs_pendingHandles s)" for k handle
  proof -
    have "ph_handledThroughEventId handle \<in> protected_ids (bs_pendingHandles s)"
      using that by (force simp: protected_ids_def ovalues_def)
    then show ?thesis
      using retain_protected[of "event # bs_recentEvents s" _ _ "bs_pendingHandles s" lc]
        find_retain[of lc "event # bs_recentEvents s" "bs_pendingHandles s"]
      by (metis not_None_eq)
  qed
  then show ?thesis
    using length_retain[of lc "event # bs_recentEvents s" "bs_pendingHandles s"]
    by (auto simp: es MAX_RECENT_EVENTS_def)
qed

definition sample_event :: canonical_event where
  "sample_event = \<lparr>ev_eventId = js ''event-1'', ev_hostId = js ''host-1'', ev_sessionId = js ''session-1'',
    ev_provider = js ''pi'', ev_agentText = js ''done'', ev_humanText = None, ev_projectName = None,
    ev_workingDirectory = None, ev_harnessProvider = None, ev_createdAt = sample_time 10,
    ev_body = Event_done\<rparr>"

definition sample_handle :: pending_handle where
  "sample_handle = \<lparr>ph_hostId = js ''host-1'', ph_sessionId = js ''session-1'',
    ph_handledThroughEventId = js ''event-1'', ph_handledThroughEventCreatedAt = None,
    ph_handledAt = sample_time 20, ph_action = Action_pi_input, ph_updatedAt = sample_time 20\<rparr>"

definition sample_handled :: bridge_state where
  "sample_handled = (emptyState sample_epoch)\<lparr>bs_recentEvents := [sample_event],
    bs_pendingHandles := [(sessionHandleKey (js ''host-1'') (js ''session-1''),
      sample_handle\<lparr>ph_handledThroughEventCreatedAt := Some (sample_time 10)\<rparr>)]\<rparr>"

theorem recent_events_are_bounded_witness:
  "length (bs_recentEvents (target sample_handled (appendRecentEventTransition (sp_localeCompare sample_ports) sample_handled
      (sample_event\<lparr>ev_eventId := js ''event-2''\<rparr>)))) \<le> 200
   \<and> find_event (bs_recentEvents (target sample_handled (appendRecentEventTransition (sp_localeCompare sample_ports)
      sample_handled (sample_event\<lparr>ev_eventId := js ''event-2''\<rparr>)))) (js ''event-1'') = Some sample_event"
  using recent_events_are_bounded[of sample_handled "sp_localeCompare sample_ports"
      "sample_event\<lparr>ev_eventId := js ''event-2''\<rparr>"]
  by (simp add: sample_handled_def sample_handle_def find_event_def) (simp add: sample_event_def)

subsection \<open>Pending handles\<close>

text \<open>
  A queued handle is stored under its Session bound to a durable event of the same Host and
  Session, with that event's creation time, and its cursor is not behind the one it replaces.
\<close>

theorem queued_handle_advances_the_cursor:
  assumes "queuePendingSessionHandleTransition lc s handle = Inr (n, u)" and "consistent_compare lc"
  shows "\<exists>event bound. find_event (bs_recentEvents s) (ph_handledThroughEventId handle) = Some event
    \<and> ev_hostId event = ph_hostId handle \<and> ev_sessionId event = ph_sessionId handle
    \<and> bound = handle\<lparr>ph_handledThroughEventCreatedAt := Some (ev_createdAt event)\<rparr>
    \<and> oget (bs_pendingHandles (resulting s n)) (sessionHandleKey (ph_hostId handle) (ph_sessionId handle)) = Some bound
    \<and> find_event (bs_recentEvents (resulting s n)) (ph_handledThroughEventId handle) = Some event
    \<and> (\<forall>old. oget (bs_pendingHandles s) (sessionHandleKey (ph_hostId handle) (ph_sessionId handle)) = Some old
        \<longrightarrow> 0 \<le> comparePendingHandles lc bound old)"
proof -
  let ?k = "sessionHandleKey (ph_hostId handle) (ph_sessionId handle)"
  obtain event where e: "find_event (bs_recentEvents s) (ph_handledThroughEventId handle) = Some event"
    "ev_hostId event = ph_hostId handle" "ev_sessionId event = ph_sessionId handle"
    and n: "n = New (s\<lparr>bs_pendingHandles := oput ?k (handle\<lparr>ph_handledThroughEventCreatedAt := Some (ev_createdAt event)\<rparr>)
          (bs_pendingHandles s),
        bs_recentEvents := retainRecentEvents lc (bs_recentEvents s)
          (oput ?k (handle\<lparr>ph_handledThroughEventCreatedAt := Some (ev_createdAt event)\<rparr>) (bs_pendingHandles s))\<rparr>)"
    and older: "\<forall>old. oget (bs_pendingHandles s) ?k = Some old
      \<longrightarrow> 0 \<le> comparePendingHandles lc (handle\<lparr>ph_handledThroughEventCreatedAt := Some (ev_createdAt event)\<rparr>) old"
    using assms(1)
    by (auto simp: queuePendingSessionHandleTransition_def Let_def not_less split: option.splits if_splits)
  let ?b = "handle\<lparr>ph_handledThroughEventCreatedAt := Some (ev_createdAt event)\<rparr>"
  have "?b \<in> set (ovalues (oput ?k ?b (bs_pendingHandles s)))"
    using oget_SomeD[of "oput ?k ?b (bs_pendingHandles s)" ?k ?b] by (force simp: oget_oput ovalues_def)
  then have "ph_handledThroughEventId ?b \<in> protected_ids (oput ?k ?b (bs_pendingHandles s))"
    unfolding protected_ids_def by (metis imageI set_map)
  then have "find_event (bs_recentEvents (resulting s n)) (ph_handledThroughEventId handle) = Some event"
    using retain_protected[OF e(1)] by (simp add: n)
  then show ?thesis using e older by (auto simp: n oget_oput)
qed

text \<open>The order of code units is a consistent comparison.\<close>

lemma sample_compare: "consistent_compare (sp_localeCompare sample_ports)"
  unfolding consistent_compare_def sample_ports_def by auto

theorem queued_handle_advances_the_cursor_witness:
  "\<exists>event bound. find_event (bs_recentEvents sample_handled) (js ''event-1'') = Some event
    \<and> bound = sample_handle\<lparr>ph_handledThroughEventCreatedAt := Some (ev_createdAt event)\<rparr>"
proof -
  have "is_ok (queuePendingSessionHandleTransition (sp_localeCompare sample_ports) sample_handled sample_handle)"
    by (simp add: queuePendingSessionHandleTransition_def sample_handled_def sample_handle_def sample_event_def
        find_event_def comparePendingHandles_def handle_cursor_def sample_ports_def Let_def)
  then obtain n u where "queuePendingSessionHandleTransition (sp_localeCompare sample_ports) sample_handled sample_handle
      = Inr (n, u)"
    by (auto simp: is_ok_iff)
  from queued_handle_advances_the_cursor[OF this sample_compare] show ?thesis
    by (auto simp: sample_handle_def)
qed

subsection \<open>Sessions and their drivers\<close>

text \<open>
  Replacing the sessions of a driver leaves that driver bound to exactly the sessions given,
  the binding of every session of another driver that is not given unchanged, and the driver marked
  as reconciled.
\<close>

theorem replaced_driver_owns_exactly_its_sessions:
  assumes "oinv (bs_sessionDrivers s)"
  shows "\<exists>s'. replaceDriverSessionsTransition s d cs = Inr (New s', ())
    \<and> {i. oget (bs_sessionDrivers s') i = Some d} = cs_sessionId ` set cs
    \<and> (\<forall>i e. e \<noteq> d \<longrightarrow> oget (bs_sessionDrivers s') i = Some e
        \<longleftrightarrow> oget (bs_sessionDrivers s) i = Some e \<and> i \<notin> cs_sessionId ` set cs)
    \<and> (\<forall>i. i \<in> cs_sessionId ` set cs \<longrightarrow> (\<exists>c \<in> set cs. cs_sessionId c = i \<and> oget (bs_sessions s') i = Some c))
    \<and> oget (bs_reconciledDrivers s') d = Some ()"
proof -
  let ?ids = "cs_sessionId ` set cs"
  define S where "S = foldl (\<lambda>m k. odel k m) (bs_sessions s) (stale_sessions s d cs)"
  define D where "D = foldl (\<lambda>m k. odel k m) (bs_sessionDrivers s) (stale_sessions s d cs)"
  have t: "replaceDriverSessionsTransition s d cs = Inr (New (s\<lparr>
      bs_sessions := foldl (\<lambda>m c. oput (cs_sessionId c) c m) S cs,
      bs_sessionDrivers := foldl (\<lambda>m c. oput (cs_sessionId c) d m) D cs,
      bs_reconciledDrivers := oput d () (bs_reconciledDrivers s)\<rparr>), ())"
    unfolding replaceDriverSessionsTransition_def bind_sessions_def unbind_sessions_def
      stale_sessions_def[symmetric] Let_def S_def D_def by simp
  have D: "oget D i = Some e \<longleftrightarrow> oget (bs_sessionDrivers s) i = Some e \<and> (e = d \<longrightarrow> i \<in> ?ids)" for i e
    using stale_session_iff[OF assms, of i d cs] by (auto simp: D_def oget_odels)
  have S: "\<exists>c \<in> set cs. cs_sessionId c = i \<and> oget (foldl (\<lambda>m c. oput (cs_sessionId c) c m) S cs) i = Some c"
    if "i \<in> ?ids" for i
    using oget_bind_sessions_some[of i cs S] that by auto
  show ?thesis
    by (rule exI, intro conjI, rule t) (auto simp: oget_bind_drivers D oget_oput intro: S)
qed

definition sample_session :: canonical_session where
  "sample_session = \<lparr>cs_sessionId = js ''session-1'', cs_hostId = js ''host-1'', cs_provider = js ''pi'',
    cs_projectName = js ''p'', cs_nameText = js ''n'', cs_openingText = None, cs_latestActivityText = None,
    cs_workingDirectory = None, cs_harnessProvider = None, cs_status = Session_idle,
    cs_updatedAt = sample_time 10, cs_lastEventId = Some (js ''event-1''), cs_snoozedUntil = None\<rparr>"

definition sample_bound :: bridge_state where
  "sample_bound = (emptyState sample_epoch)\<lparr>bs_sessions := [(js ''session-1'', sample_session)],
    bs_sessionDrivers := [(js ''session-1'', js ''agent-adapter'')],
    bs_producerEventCheckpoints := Some [(js ''session-1'',
      \<lparr>ck_sessionId = js ''session-1'', ck_producerEventId = js ''p-1'', ck_producerEventOrder = js ''1'',
       ck_eventId = js ''event-1'', ck_fingerprint = js ''f'', ck_createdAt = sample_time 10\<rparr>)]\<rparr>"

theorem replaced_driver_owns_exactly_its_sessions_witness:
  "\<exists>s'. replaceDriverSessionsTransition sample_bound (js ''agent-adapter'')
      [sample_session\<lparr>cs_sessionId := js ''session-2''\<rparr>] = Inr (New s', ())
    \<and> {i. oget (bs_sessionDrivers s') i = Some (js ''agent-adapter'')} = {js ''session-2''}"
  using replaced_driver_owns_exactly_its_sessions[of sample_bound "js ''agent-adapter''"
      "[sample_session\<lparr>cs_sessionId := js ''session-2''\<rparr>]"]
  by (auto simp: sample_bound_def oinv_def)

text \<open>
  C31. A defect. When the replaced driver drops a session that still has a producer Event checkpoint,
  the checkpoint stays behind: the operation succeeds, and the state it writes is one the next start
  refuses.
\<close>

theorem replaced_session_strands_its_checkpoint:
  assumes "oinv (bs_sessionDrivers s)" and "oget (bs_sessionDrivers s) i = Some d"
    and "oget (opt_object (bs_producerEventCheckpoints s)) i = Some c"
    and "i \<notin> cs_sessionId ` set cs"
  shows "\<exists>s'. replaceDriverSessionsTransition s d cs = Inr (New s', ())
    \<and> (\<forall>P h. parseCurrentState P s' (Some h) \<noteq> ok s')"
proof -
  define S where "S = foldl (\<lambda>m k. odel k m) (bs_sessions s) (stale_sessions s d cs)"
  define D where "D = foldl (\<lambda>m k. odel k m) (bs_sessionDrivers s) (stale_sessions s d cs)"
  let ?s' = "s\<lparr>bs_sessions := foldl (\<lambda>m c. oput (cs_sessionId c) c m) S cs,
      bs_sessionDrivers := foldl (\<lambda>m c. oput (cs_sessionId c) d m) D cs,
      bs_reconciledDrivers := oput d () (bs_reconciledDrivers s)\<rparr>"
  have t: "replaceDriverSessionsTransition s d cs = Inr (New ?s', ())"
    unfolding replaceDriverSessionsTransition_def bind_sessions_def unbind_sessions_def
      stale_sessions_def[symmetric] Let_def S_def D_def by simp
  have "i \<in> set (stale_sessions s d cs)" using stale_session_iff[OF assms(1)] assms(2,4) by blast
  then have "oget (bs_sessions ?s') i = None"
    using oget_bind_sessions[of S cs i] assms(4) by (cases "oget (bs_sessions ?s') i") (auto simp: S_def oget_odels)
  then have "\<not> checkpoint_bound ?s' (i, c)" by (simp add: checkpoint_bound_def)
  moreover have "(i, c) \<in> set (opt_object (bs_producerEventCheckpoints ?s'))"
    using oget_SomeD[OF assms(3)] by simp
  ultimately have "\<not> checkpoints_related ?s'" unfolding checkpoints_related_def by blast
  then have "\<not> related P ?s' h" for P h unfolding related_def by blast
  then have "parseCurrentState P ?s' (Some h) \<noteq> ok ?s'" for P h by (simp add: parse_iff)
  then show ?thesis using t by blast
qed

text \<open>The defect on a state the Bridge can start from.\<close>

lemma sample_bound_consistent: "consistent sample_wire (js ''host-1'') sample_bound"
  by (simp add: consistent_iff objects_ok_def related_def sample_bound_def emptyState_def EMPTY_SNAPSHOT_def
      oinv_def host_related_def sessions_related_def drivers_related_def driver_bound_def
      events_related_def revisions_related_def handles_related_def commands_related_def
      completions_related_def reservations_related_def checkpoints_related_def checkpoint_bound_def
      cancellations_related_def publication_related_def event_of_def find_event_def ovalues_def sample_session_def)

lemma sample_bound_startable: "startable sample_wire (js ''host-1'') sample_bound"
  using sample_bound_consistent values_empty[OF sample_epoch_valid]
  by (simp add: startable_iff record_values_def sample_bound_def emptyState_def isValueMap_iff isStringMap_def
      isCurrentSession_def sample_session_def isCurrentProducerCheckpoint_def)

theorem replaced_session_strands_its_checkpoint_witness:
  "startable sample_wire (js ''host-1'') sample_bound
   \<and> (\<exists>s'. replaceDriverSessionsTransition sample_bound (js ''agent-adapter'') [] = Inr (New s', ())
        \<and> (\<forall>P h. parseCurrentState P s' (Some h) \<noteq> ok s'))"
  using replaced_session_strands_its_checkpoint[of sample_bound "js ''session-1''" "js ''agent-adapter''" _ "[]"]
    sample_bound_startable
  by (simp add: sample_bound_def oinv_def)

subsection \<open>Publication of the current Sessions\<close>

text \<open>
  A publication is allocated only when the content, the recipient set or the required revision
  is new, and then at a revision above every revision allocated or accepted before, at least the
  required one, which the state records: the next publication gets a larger one.
\<close>

theorem publication_revisions_increase:
  "case createCurrentSessionsPublicationTransition s p of
     Inr (n, None) \<Rightarrow> n = Same
       \<and> sn_lastAcceptedContentDigest (bs_currentSessionsSnapshot s) = Some (pp_contentDigest p)
       \<and> sn_lastAcceptedRecipientSetVersion (bs_currentSessionsSnapshot s) = Some (pp_recipientSetVersion p)
       \<and> pp_minimumRevision p \<le> sn_lastAcceptedRevision (bs_currentSessionsSnapshot s)
   | Inr (n, Some r) \<Rightarrow>
       sn_lastAllocatedRevision (bs_currentSessionsSnapshot s) < rq_revision (pb_request r)
       \<and> sn_lastAcceptedRevision (bs_currentSessionsSnapshot s) < rq_revision (pb_request r)
       \<and> pp_minimumRevision p \<le> rq_revision (pb_request r)
       \<and> sn_lastAllocatedRevision (bs_currentSessionsSnapshot (resulting s n)) = rq_revision (pb_request r)
       \<and> sn_lastAcceptedRevision (bs_currentSessionsSnapshot (resulting s n))
           = sn_lastAcceptedRevision (bs_currentSessionsSnapshot s)
   | Inl e \<Rightarrow> False"
  by (auto simp: createCurrentSessionsPublicationTransition_def Let_def)

text \<open>
  The version of the recipient set only grows: a smaller one, zero, a negative one or one
  outside the safe integers is rejected as a rollback, and a publication made for another recipient
  set than the committed one is not accepted.
\<close>

theorem recipient_set_never_rolls_back:
  "(case setRecipientSetVersionTransition s v of
      Inr (n, u) \<Rightarrow> bs_recipientSetVersion (resulting s n) = Some v \<and> 1 \<le> v \<and> v \<le> 2 ^ 53 - 1
        \<and> (bs_recipientSetVersion s = None \<or> the (bs_recipientSetVersion s) \<le> v)
    | Inl e \<Rightarrow> e = TypeError ''recipient set version rollback rejected''
        \<and> (v < 1 \<or> 2 ^ 53 - 1 < v \<or> (\<exists>w. bs_recipientSetVersion s = Some w \<and> v < w)))
   \<and> is_ok (acceptCurrentSessionsPublicationTransition s request d c)
      = (bs_recipientSetVersion s = Some (rq_recipientSetVersion request))"
proof -
  have "is_safe_integer v \<longleftrightarrow> - (2 ^ 53 - 1) \<le> v \<and> v \<le> 2 ^ 53 - 1"
    by (simp add: is_safe_integer_def abs_le_iff) linarith
  then have "case setRecipientSetVersionTransition s v of
      Inr (n, u) \<Rightarrow> bs_recipientSetVersion (resulting s n) = Some v \<and> 1 \<le> v \<and> v \<le> 2 ^ 53 - 1
        \<and> (bs_recipientSetVersion s = None \<or> the (bs_recipientSetVersion s) \<le> v)
    | Inl e \<Rightarrow> e = TypeError ''recipient set version rollback rejected''
        \<and> (v < 1 \<or> 2 ^ 53 - 1 < v \<or> (\<exists>w. bs_recipientSetVersion s = Some w \<and> v < w))"
    by (cases "bs_recipientSetVersion s") (auto simp: setRecipientSetVersionTransition_def)
  moreover have "is_ok (acceptCurrentSessionsPublicationTransition s request d c)
      = (bs_recipientSetVersion s = Some (rq_recipientSetVersion request))"
    by (simp add: acceptCurrentSessionsPublicationTransition_def Let_def)
  ultimately show ?thesis by blast
qed

subsection \<open>Producer reservations\<close>

definition reservation_count :: "bridge_state \<Rightarrow> nat" where
  "reservation_count s = length (opt_object (bs_producerEventReservations s))"

lemma oget_None_iff: "oget m k = None \<longleftrightarrow> k \<notin> fst ` set m"
  by (simp add: oget_def map_of_eq_None_iff)

lemma oget_snoc: "oget (m @ [(k', v)]) k = (case oget m k of Some w \<Rightarrow> Some w | None \<Rightarrow> if k = k' then Some v else None)"
  by (induction m) auto

lemma oput_mem_last:
  assumes "oget m k = None"
  shows "oget (last_entries (Suc n) (oput k v m)) k = Some v"
proof -
  have "last_entries (Suc n) (m @ [(k, v)]) = last_entries n m @ [(k, v)]"
    by (simp add: last_entries_def)
  moreover have "oget (last_entries n m) k = None"
    using assms set_last_entries[of n m] unfolding oget_None_iff by blast
  ultimately show ?thesis by (simp add: oput_absent[OF assms] oget_snoc)
qed

text \<open>
  Reserving a producer Event is idempotent, a conflicting reservation of the same fingerprint is
  an error, a reservation made is found again, and the state holds at most 200 of them when it held
  no more before.
\<close>

theorem reservations_are_bounded_and_idempotent:
  "case reserveProducerEventTransition s r of
     Inl e \<Rightarrow> e = TypeError ''producer Event reservation conflict''
       \<and> (\<exists>old. find_reservation s r = Some old
            \<and> (pr_eventId old \<noteq> pr_eventId r \<or> pr_createdAt old \<noteq> pr_createdAt r))
   | Inr (n, u) \<Rightarrow> reservation_count (resulting s n) \<le> max 200 (reservation_count s)
       \<and> (\<exists>q. find_reservation (resulting s n) r = Some q
            \<and> pr_eventId q = pr_eventId r \<and> pr_createdAt q = pr_createdAt r)
       \<and> reserveProducerEventTransition (resulting s n) r = Inr (Same, ())"
proof (cases "find_reservation s r")
  case None
  let ?k = "producerReservationKey (pr_sessionId r) (pr_fingerprint r)"
  let ?s' = "s\<lparr>bs_producerEventReservations := add_reservation r (bs_producerEventReservations s)\<rparr>"
  have t: "reserveProducerEventTransition s r = Inr (New ?s', ())"
    using None by (simp add: reserveProducerEventTransition_def reservation_conflicts_def)
  have f: "find_reservation ?s' r = Some r"
    using oput_mem_last[of "opt_object (bs_producerEventReservations s)" ?k 199 r] None
    by (simp add: find_reservation_def add_reservation_def)
  have "reservation_count ?s' \<le> 200"
    by (simp add: reservation_count_def add_reservation_def last_entries_def)
  then show ?thesis using t f by (simp add: reserveProducerEventTransition_def reservation_conflicts_def)
qed (auto simp: reserveProducerEventTransition_def reservation_conflicts_def)

definition sample_reservation :: producer_reservation where
  "sample_reservation = \<lparr>pr_eventId = js ''event-1'', pr_sessionId = js ''session-1'',
    pr_fingerprint = js ''f'', pr_createdAt = sample_time 10\<rparr>"

theorem reservations_are_bounded_and_idempotent_witness:
  "case reserveProducerEventTransition (emptyState sample_epoch) sample_reservation of
     Inl e \<Rightarrow> False
   | Inr (n, u) \<Rightarrow> reservation_count (resulting (emptyState sample_epoch) n) \<le> 200
       \<and> reserveProducerEventTransition (resulting (emptyState sample_epoch) n) sample_reservation = Inr (Same, ())"
proof -
  have "find_reservation (emptyState sample_epoch) sample_reservation = None"
    and "reservation_count (emptyState sample_epoch) = 0"
    by (simp_all add: find_reservation_def reservation_count_def emptyState_def)
  with reservations_are_bounded_and_idempotent[of "emptyState sample_epoch" sample_reservation]
  show ?thesis by (auto split: sum.splits prod.splits)
qed

subsection \<open>A Watch id with a line feed\<close>

text \<open>
  C32. A defect at the edge. Claiming compares Watch id and nonce one by one, the loader compares
  them joined by a line feed: where a stored pair and the claimed pair differ but join to the same
  string, the claim is granted and the state it writes is one the next start refuses.
\<close>

theorem joined_nonce_breaks_the_next_start:
  assumes "assertCommandExecution P (claim_candidate command digest pin t) = ok ()"
    and "oget (bs_commandExecutions s) (ce_commandId command) = None"
    and "\<not> nonce_used s (claim_candidate command digest pin t)"
    and "(k, y) \<in> set (bs_commandExecutions s)"
    and "nonce_binding y = nonce_binding (claim_candidate command digest pin t)"
  shows "\<exists>s'. claimCommandExecutionTransition P s command digest pin t
      = Inr (New s', Claim_claimed (claim_candidate command digest pin t))
    \<and> (\<forall>h. parseCurrentState P s' (Some h) \<noteq> ok s')"
proof -
  let ?x = "claim_candidate command digest pin t"
  let ?s' = "put_execution (ce_commandId command) ?x s"
  have t: "claimCommandExecutionTransition P s command digest pin t = Inr (New ?s', Claim_claimed ?x)"
    using assms(1-3) by (simp add: claimCommandExecutionTransition_def Let_def)
  have "map nonce_binding (ovalues (bs_commandExecutions ?s'))
      = map nonce_binding (ovalues (bs_commandExecutions s)) @ [nonce_binding ?x]"
    by (simp add: put_execution_def map_ovalues_oput_absent[OF assms(2)])
  moreover have "nonce_binding ?x \<in> set (map nonce_binding (ovalues (bs_commandExecutions s)))"
    using assms(4,5) by (force simp: ovalues_def)
  ultimately have "\<not> distinct (map nonce_binding (ovalues (bs_commandExecutions ?s')))"
    by (simp only: distinct_append) auto
  then have "\<not> related P ?s' h" for h unfolding related_def commands_related_def by blast
  then have "parseCurrentState P ?s' (Some h) \<noteq> ok ?s'" for h by (simp add: parse_iff)
  then show ?thesis using t by blast
qed

definition joined_command :: command_envelope where
  "joined_command = sample_command\<lparr>ce_commandId := cmd, ce_watchDeviceId := js ''watch-1'',
    ce_nonce := js (''x'' @ [CHR 0x0A] @ ''y'')\<rparr>"

definition joined_stored :: command_execution where
  "joined_stored = claim_candidate (sample_command\<lparr>ce_commandId := js ''cmd-0'',
    ce_watchDeviceId := js (''watch-1'' @ [CHR 0x0A] @ ''x''), ce_nonce := js ''y''\<rparr>)
    sample_digest sample_pin (sample_time 5)"

lemma joined_stored_startable:
  "startable sample_wire (js ''host-1'') ((emptyState sample_epoch)\<lparr>bs_commandExecutions := [(js ''cmd-0'', joined_stored)]\<rparr>)"
proof -
  have ids: "isIdentifier (js ''cmd-0'')" "isIdentifier (js ''y'')" "isIdentifier (js (''watch-1'' @ [CHR 0x0A] @ ''x''))"
    by (rule plain_identifier; simp add: plain_def)+
  have "assertCommandExecution sample_wire joined_stored = ok ()"
    unfolding joined_stored_def using ids by (intro sample_variant_execution) simp_all
  moreover have "ce_commandId (cx_originalEncryptedCommand joined_stored) = js ''cmd-0''"
    "ce_hostId (cx_originalEncryptedCommand joined_stored) = js ''host-1''"
    by (simp_all add: joined_stored_def claim_candidate_def sample_command_def)
  ultimately have "commands_related sample_wire ((emptyState sample_epoch)\<lparr>bs_commandExecutions := [(js ''cmd-0'', joined_stored)]\<rparr>) (js ''host-1'')"
    by (simp add: commands_related_def ovalues_def)
  then show ?thesis
    using startable_empty[OF sample_epoch_valid, of sample_wire "js ''host-1''"]
    by (simp add: startable_iff consistent_iff related_def objects_ok_def oinv_def)
qed

theorem joined_nonce_breaks_the_next_start_witness:
  "startable sample_wire (js ''host-1'') ((emptyState sample_epoch)\<lparr>bs_commandExecutions := [(js ''cmd-0'', joined_stored)]\<rparr>)
    \<and> (\<exists>s'. claimCommandExecutionTransition sample_wire
        ((emptyState sample_epoch)\<lparr>bs_commandExecutions := [(js ''cmd-0'', joined_stored)]\<rparr>)
        joined_command sample_digest sample_pin (sample_time 5)
      = Inr (New s', Claim_claimed (claim_candidate joined_command sample_digest sample_pin (sample_time 5)))
    \<and> (\<forall>h. parseCurrentState sample_wire s' (Some h) \<noteq> ok s'))"
proof (intro conjI joined_stored_startable, rule joined_nonce_breaks_the_next_start)
  let ?s = "(emptyState sample_epoch)\<lparr>bs_commandExecutions := [(js ''cmd-0'', joined_stored)]\<rparr>"
  have "isIdentifier (js (''x'' @ [CHR 0x0A] @ ''y''))"
    by (rule plain_identifier) (simp add: plain_def)
  then show "assertCommandExecution sample_wire (claim_candidate joined_command sample_digest sample_pin (sample_time 5)) = ok ()"
    unfolding joined_command_def by (intro sample_variant_execution) (simp_all add: plain_identifier)
  show "oget (bs_commandExecutions ?s) (ce_commandId joined_command) = None"
    by (simp add: joined_command_def js_def)
  show "\<not> nonce_used ?s (claim_candidate joined_command sample_digest sample_pin (sample_time 5))"
    by (simp add: nonce_used_def ovalues_def joined_stored_def joined_command_def claim_candidate_def js_def)
  show "(js ''cmd-0'', joined_stored) \<in> set (bs_commandExecutions ?s)" by simp
  show "nonce_binding joined_stored
      = nonce_binding (claim_candidate joined_command sample_digest sample_pin (sample_time 5))"
    by (simp add: nonce_binding_def joined_stored_def joined_command_def claim_candidate_def js_def)
qed

subsection \<open>Runtime health\<close>

text \<open>The abstract view: for each failing driver, the number of failures since its last success.\<close>

fun abstract_health :: "store_op \<Rightarrow> (jsstring \<Rightarrow> int option) \<Rightarrow> (jsstring \<Rightarrow> int option)" where
  "abstract_health (Record_driver_failure d _ _) counts =
     counts(d := Some ((case counts d of Some c \<Rightarrow> c | None \<Rightarrow> 0) + 1))"
| "abstract_health (Record_driver_success d) counts = counts(d := None)"
| "abstract_health _ counts = counts"

definition run_transitions :: "store_ports \<Rightarrow> store_op list \<Rightarrow> bridge_state \<Rightarrow> bridge_state" where
  "run_transitions Q ops s = foldl (\<lambda>s op. target s (op_transition Q op s)) s ops"

lemma same_health:
  assumes "bs_runtimeHealth s' = bs_runtimeHealth s"
  shows "failing s' = failing s" "health_inv s' = health_inv s"
  using assms by (simp_all add: failing_def fun_eq_iff current_health_def health_inv_def)

lemma op_health:
  assumes "health_inv s"
  shows "failing (target s (op_transition Q op s)) = abstract_health op (failing s)
    \<and> health_inv (target s (op_transition Q op s))"
proof (cases "op_transition Q op s")
  case (Inl e)
  then show ?thesis using assms
    by (cases op) (auto simp: health_step_defs discard_def Let_def split: option.splits)
next
  case (Inr r)
  then obtain n where t: "op_transition Q op s = Inr (n, ())" by (cases r) auto
  have "failing (resulting s n) = abstract_health op (failing s) \<and> health_inv (resulting s n)"
  proof (cases "touches op")
    case False
    from op_untouched[OF t False] have "bs_runtimeHealth (resulting s n) = bs_runtimeHealth s"
      by (simp add: untouched_def)
    from same_health[OF this] show ?thesis using assms False by (cases op) simp_all
  next
    case True
    show ?thesis
    proof (cases op)
      case (Record_driver_failure a b c)
      with t driver_failure_health[OF assms] show ?thesis by (auto simp: discard_Inr)
    next
      case (Record_driver_success a)
      with t driver_success_health[OF assms] show ?thesis by (auto simp: discard_Inr)
    next
      case (Record_relay_failure a b)
      with t relay_failure_health[OF assms] show ?thesis by simp
    next
      case Record_relay_success
      with t relay_success_health[OF assms] show ?thesis by (auto simp: discard_Inr)
    qed (use True t assms same_health[of "resulting s n" s] in
      \<open>auto simp: discard_Inr publication_step_defs Let_def split: if_splits option.splits\<close>)
  qed
  then show ?thesis by (simp add: t target_def)
qed

text \<open>
  C29. Through every sequence of store operations the health record refines the abstract count: the
  failures it holds for a driver are those since the driver's last success, no other operation
  changes them, and the status is degraded exactly when a driver or the relay presence is failing.
\<close>

theorem health_refines_failure_counts:
  assumes "health_inv s"
  shows "failing (run_transitions Q ops s) = fold abstract_health ops (failing s)
    \<and> (rh_status (current_health (run_transitions Q ops s)) = Degraded
       \<longleftrightarrow> (\<exists>d. failing (run_transitions Q ops s) d \<noteq> None)
         \<or> rh_relayPresence (current_health (run_transitions Q ops s)) \<noteq> None)"
proof -
  have "failing (run_transitions Q ops s) = fold abstract_health ops (failing s)
      \<and> health_inv (run_transitions Q ops s)"
    unfolding run_transitions_def using assms
    by (induction ops arbitrary: s) (auto simp: op_health)
  moreover have "rh_status (current_health u) = Degraded
      \<longleftrightarrow> (\<exists>d. failing u d \<noteq> None) \<or> rh_relayPresence (current_health u) \<noteq> None"
    if "health_inv u" for u
  proof -
    have "(\<exists>d. failing u d \<noteq> None) \<longleftrightarrow> rh_drivers (current_health u) \<noteq> []"
      by (cases "rh_drivers (current_health u)") (auto simp: failing_def find_driver_def split: if_splits)
    then show ?thesis using that by (auto simp: health_inv_iff health_ok_def split: if_splits)
  qed
  ultimately show ?thesis by blast
qed

theorem health_refines_failure_counts_witness:
  "failing (run_transitions sample_ports [Record_driver_failure (js ''pi'') (sample_time 1) (sample_time 2),
      Set_host sample_host, Record_driver_failure (js ''pi'') (sample_time 3) (sample_time 4)]
      (emptyState sample_epoch)) (js ''pi'') = Some 2"
proof -
  have "health_inv (emptyState sample_epoch)"
    using values_health[OF values_empty[OF sample_epoch_valid]] .
  from health_refines_failure_counts[OF this, of sample_ports "[Record_driver_failure (js ''pi'') (sample_time 1) (sample_time 2),
      Set_host sample_host, Record_driver_failure (js ''pi'') (sample_time 3) (sample_time 4)]"]
  show ?thesis by (simp add: failing_def current_health_def emptyState_def find_driver_def)
qed

subsection \<open>Encodings\<close>

text \<open>
  Decoding base64url text to an expected length succeeds exactly on the text that encoding
  produces: no second spelling of the same bytes is accepted.
\<close>

theorem base64_round_trip:
  "base64UrlDecode v (Some n) = ok bs \<longleftrightarrow> v = base64UrlEncode bs \<and> length bs = n \<and> bs \<noteq> []"
  using base64_decode_encode[of bs "Some n"] base64_encode_decode[of v "Some n" bs] by auto

text \<open>
  The length-prefixed encoding of well-formed fields is injective: neither the number of the
  fields nor their borders can be moved without changing the bytes.
\<close>

theorem length_prefixed_fields_are_injective:
  assumes "list_all isWellFormedUnicode fs" and "list_all isWellFormedUnicode gs"
  shows "encodeLengthPrefixedFields fs = encodeLengthPrefixedFields gs \<longleftrightarrow> fs = gs"
  using encode_fields_inject[OF _ assms] by blast

theorem length_prefixed_fields_are_injective_witness:
  "encodeLengthPrefixedFields [js ''ab'', js ''c''] \<noteq> encodeLengthPrefixedFields [js ''a'', js ''bc'']"
  using length_prefixed_fields_are_injective[of "[js ''ab'', js ''c'']" "[js ''a'', js ''bc'']"]
    plain_bytes(3)[of "''ab''"] plain_bytes(3)[of "''c''"] plain_bytes(3)[of "''a''"] plain_bytes(3)[of "''bc''"]
  by (simp add: plain_def)

end
