(* ===== verification/Local_Spool.thy ===== *)
theory Local_Spool
  imports Bridge_Store Wire_Encoding
begin

section \<open>The local encrypted spool\<close>

text \<open>
  \<open>LocalEncryptedSpool\<close> (\<open>e2e/local-spool.ts\<close>): the second durable file of the Bridge, a list of
  sealed items. The AEAD is symbolic: a sealed item opens under the key and the associated data it
  was sealed with and under nothing else (\<open>Garbled\<close> opens under nothing): that separation is the assumption
  made on the AEAD, which is not code of the repository. A plaintext is the JSON
  value it is the text of, of the shapes the program writes. What the environment answers (the key
  store, the outcome of each file write, whether the state file and the spool file can be read) is a
  function of a counter of calls, so that a statement over all environments covers every pattern of
  failures.
\<close>

subsection \<open>Items\<close>

datatype payload_kind =
    Event_source | Event_reservation | Event_dead_letter | Session_source | Event_upload
  | Session_upload | Terminal_cancellation

fun kind_name :: "payload_kind \<Rightarrow> string" where
  "kind_name Event_source = ''event-source-v3''"
| "kind_name Event_reservation = ''event-reservation-v3''"
| "kind_name Event_dead_letter = ''event-dead-letter-v3''"
| "kind_name Session_source = ''session-source-v3''"
| "kind_name Event_upload = ''event-upload-v3''"
| "kind_name Session_upload = ''session-upload-v3''"
| "kind_name Terminal_cancellation = ''terminal-cancellation-v3''"

datatype payload =
    Tuple_payload canonical_event canonical_session "jsstring option"
  | Cancellation_payload terminal_cancellation
  | Other_json jsstring
  | Not_json

type_synonym aead_key = jsstring

datatype sealed = Sealed aead_key "byte list" payload | Garbled

record spool_item =
  si_spoolItemId :: jsstring
  si_hostId :: jsstring
  si_sessionId :: jsstring
  si_eventId :: "jsstring option"
  si_payloadKind :: payload_kind
  si_createdAt :: jsstring
  si_sealed :: sealed

record spool_file =
  sf_runtimeStateSchemaVersion :: int
  sf_runtimeResetEpoch :: jsstring
  sf_hostId :: jsstring
  sf_keyId :: jsstring
  sf_items :: "spool_item list"

record spool_input =
  in_spoolItemId :: jsstring
  in_sessionId :: jsstring
  in_eventId :: "jsstring option"
  in_payloadKind :: payload_kind
  in_createdAt :: jsstring
  in_plaintext :: payload

definition spoolAAD :: "spool_item \<Rightarrow> byte list" where
  "spoolAAD item = encodeLengthPrefixedFields [js ''ariava-local-spool-v1'', si_spoolItemId item,
    si_hostId item, si_sessionId item, (case si_eventId item of Some e \<Rightarrow> e | None \<Rightarrow> []),
    js (kind_name (si_payloadKind item)), js ''1'', si_createdAt item]"

definition validItem :: "spool_item \<Rightarrow> jsstring \<Rightarrow> bool" where
  "validItem item hostId \<longleftrightarrow> si_hostId item = hostId"

definition aead_open :: "aead_key \<Rightarrow> spool_item \<Rightarrow> payload result" where
  "aead_open key item = (case si_sealed item of
     Sealed k aad p \<Rightarrow> if k = key \<and> aad = spoolAAD item then ok p
       else throw (PlainError ''ChaChaPolyAuthenticationError'')
   | Garbled \<Rightarrow> throw (PlainError ''ChaChaPolyAuthenticationError''))"

definition truthy :: "jsstring option \<Rightarrow> jsstring option" where
  "truthy v = (if v = Some [] then None else v)"

definition seal_item :: "jsstring \<Rightarrow> aead_key \<Rightarrow> spool_input \<Rightarrow> spool_item" where
  "seal_item hostId key input =
    (let metadata = \<lparr>si_spoolItemId = in_spoolItemId input, si_hostId = hostId,
           si_sessionId = in_sessionId input, si_eventId = truthy (in_eventId input),
           si_payloadKind = in_payloadKind input, si_createdAt = in_createdAt input,
           si_sealed = Garbled\<rparr>
     in metadata\<lparr>si_sealed := Sealed key (spoolAAD metadata) (in_plaintext input)\<rparr>)"

subsection \<open>The world and its effects\<close>

record spool_world =
  sw_store :: state_store
  sw_spoolReady :: bool
  sw_items :: "spool_item list"
  sw_keyId :: "jsstring option"
  sw_hasPersistedItems :: bool
  sw_file :: "spool_file option"
  sw_tick :: nat

record spool_env =
  se_hostId :: jsstring
  se_epoch :: jsstring
  se_loadOrCreate :: "nat \<Rightarrow> bool \<Rightarrow> aead_key result"
  se_keyIdForKey :: "aead_key \<Rightarrow> jsstring"
  se_write :: "nat \<Rightarrow> write_outcome"
  se_readable :: "nat \<Rightarrow> bool"
  se_spoolReadable :: "nat \<Rightarrow> bool"
  se_needHumanErrorValid :: "need_human_error \<Rightarrow> bool"

type_synonym 'a shell = "spool_world \<Rightarrow> 'a result \<times> spool_world"

definition sh_return :: "'a \<Rightarrow> 'a shell" where
  "sh_return a w = (ok a, w)"

definition sh_throw :: "js_error \<Rightarrow> 'a shell" where
  "sh_throw e w = (throw e, w)"

definition sh_bind :: "'a shell \<Rightarrow> ('a \<Rightarrow> 'b shell) \<Rightarrow> 'b shell" where
  "sh_bind m f w = (case m w of (Inl e, w') \<Rightarrow> (Inl e, w') | (Inr a, w') \<Rightarrow> f a w')"

definition sh_catch :: "'a shell \<Rightarrow> (js_error \<Rightarrow> 'a shell) \<Rightarrow> 'a shell" where
  "sh_catch m f w = (case m w of (Inl e, w') \<Rightarrow> f e w' | (Inr a, w') \<Rightarrow> (Inr a, w'))"

definition sh_lift :: "'a result \<Rightarrow> 'a shell" where
  "sh_lift r w = (r, w)"

definition sh_get :: "(spool_world \<Rightarrow> 'a) \<Rightarrow> 'a shell" where
  "sh_get f w = (ok (f w), w)"

definition sh_modify :: "(spool_world \<Rightarrow> spool_world) \<Rightarrow> unit shell" where
  "sh_modify f w = (ok (), f w)"

definition tick :: "nat shell" where
  "tick w = (ok (sw_tick w), w\<lparr>sw_tick := Suc (sw_tick w)\<rparr>)"

abbreviation recovery_required :: "string \<Rightarrow> js_error" where
  "recovery_required \<equiv> CliError ''LocalSpoolRecoveryRequiredError''"

fun is_recovery_required :: "js_error \<Rightarrow> bool" where
  "is_recovery_required (CliError c _) \<longleftrightarrow> c = ''LocalSpoolRecoveryRequiredError''"
| "is_recovery_required _ \<longleftrightarrow> False"

subsection \<open>The operations\<close>

definition spool_access :: "unit shell" where
  "spool_access w = (assertStateStoreAccess (sw_store w), w)"

text \<open>Looking for the file and reading it are one access, which may fail.\<close>

definition spool_load :: "spool_env \<Rightarrow> (spool_item list \<times> jsstring option) shell" where
  "spool_load E = sh_bind spool_access (\<lambda>_. sh_bind tick (\<lambda>n. sh_bind (sh_get sw_file) (\<lambda>file.
     if \<not> se_spoolReadable E n then sh_throw (PlainError ''read failed'')
     else case file of
       None \<Rightarrow> sh_return ([], None)
     | Some f \<Rightarrow>
         if sf_runtimeStateSchemaVersion f \<noteq> 4 \<or> sf_runtimeResetEpoch f \<noteq> se_epoch E
             \<or> sf_hostId f \<noteq> se_hostId E \<or> \<not> list_all (\<lambda>item. validItem item (se_hostId E)) (sf_items f)
         then sh_throw (recovery_required ''local spool metadata is invalid; recovery is required'')
         else sh_return (sf_items f, Some (sf_keyId f)))))"

definition loadVerifiedKey :: "spool_env \<Rightarrow> aead_key shell" where
  "loadVerifiedKey E = sh_bind spool_access (\<lambda>_.
     sh_bind tick (\<lambda>n.
     sh_bind (sh_get sw_hasPersistedItems) (\<lambda>persisted.
     sh_bind (case se_loadOrCreate E n (\<not> persisted) of
        Inl e \<Rightarrow> sh_throw (if is_recovery_required e then e
          else recovery_required ''local spool key is unavailable; recovery is required'')
      | Inr key \<Rightarrow> sh_return key) (\<lambda>key.
     sh_bind (sh_get sw_keyId) (\<lambda>current.
       if current \<noteq> None \<and> current \<noteq> Some (se_keyIdForKey E key)
       then sh_throw (recovery_required ''local spool key does not match; recovery is required'')
       else sh_bind (sh_modify (\<lambda>w. w\<lparr>sw_keyId := Some (se_keyIdForKey E key)\<rparr>)) (\<lambda>_.
         sh_return key))))))"

text \<open>\<open>sw_spoolReady\<close> says whether the spool of the shell is initialised (not \<open>undefined\<close>). Writing
  the file; a write that is reported as failed but installed the exact target counts as
  done, if the file can be read back; every error of reading back is swallowed and the write's own error
  thrown.\<close>

definition write_spool :: "write_outcome \<Rightarrow> spool_file \<Rightarrow> unit shell" where
  "write_spool outcome file w = (case outcome of
     Written \<Rightarrow> (ok (), w\<lparr>sw_file := Some file\<rparr>)
   | Not_written \<Rightarrow> (throw (PlainError ''write failed''), w)
   | Written_then_failed \<Rightarrow> (throw (PlainError ''write failed''), w\<lparr>sw_file := Some file\<rparr>))"

definition spool_persist :: "spool_env \<Rightarrow> spool_item list \<Rightarrow> unit shell" where
  "spool_persist E items = sh_bind spool_access (\<lambda>_.
     sh_bind (sh_get sw_keyId) (\<lambda>keyId.
       case keyId of
         None \<Rightarrow> sh_throw (recovery_required ''local spool key identity is unavailable; recovery is required'')
       | Some k \<Rightarrow>
           (let file = \<lparr>sf_runtimeStateSchemaVersion = 4, sf_runtimeResetEpoch = se_epoch E,
                  sf_hostId = se_hostId E, sf_keyId = k, sf_items = items\<rparr>
            in sh_bind tick (\<lambda>n.
                 sh_catch (write_spool (se_write E n) file) (\<lambda>e.
                   sh_bind (sh_catch (sh_bind (spool_load E) (\<lambda>(persistedItems, persistedKey).
                       sh_return (persistedKey = Some k \<and> persistedItems = items)))
                     (\<lambda>_. sh_return False)) (\<lambda>same.
                     if same then sh_return () else sh_throw e))))))"

definition find_item :: "spool_item list \<Rightarrow> jsstring \<Rightarrow> spool_item option" where
  "find_item items spoolItemId = find (\<lambda>item. si_spoolItemId item = spoolItemId) items"

definition spool_enqueue :: "spool_env \<Rightarrow> spool_input \<Rightarrow> spool_item shell" where
  "spool_enqueue E input = sh_bind spool_access (\<lambda>_.
     sh_bind (sh_get sw_items) (\<lambda>items.
       case find_item items (in_spoolItemId input) of
         Some existing \<Rightarrow>
           if si_sessionId existing \<noteq> in_sessionId input \<or> si_eventId existing \<noteq> in_eventId input
               \<or> si_payloadKind existing \<noteq> in_payloadKind input
           then sh_throw (TypeError ''local spool item ID conflict'')
           else sh_return existing
       | None \<Rightarrow>
           sh_bind (loadVerifiedKey E) (\<lambda>key.
             (let item = seal_item (se_hostId E) key input; nextItems = items @ [item]
              in sh_bind (spool_persist E nextItems) (\<lambda>_.
                 sh_bind (sh_modify (\<lambda>w. w\<lparr>sw_items := nextItems, sw_hasPersistedItems := True\<rparr>)) (\<lambda>_.
                 sh_return item))))))"

definition spool_list :: "payload_kind option \<Rightarrow> spool_item list shell" where
  "spool_list kind = sh_bind spool_access (\<lambda>_. sh_get (\<lambda>w.
     filter (\<lambda>item. kind = None \<or> kind = Some (si_payloadKind item)) (sw_items w)))"

definition spool_get :: "jsstring \<Rightarrow> spool_item option shell" where
  "spool_get spoolItemId = sh_bind spool_access (\<lambda>_. sh_get (\<lambda>w. find_item (sw_items w) spoolItemId))"

definition spool_open :: "spool_env \<Rightarrow> spool_item \<Rightarrow> payload shell" where
  "spool_open E item = sh_bind spool_access (\<lambda>_. sh_bind (sh_get sw_items) (\<lambda>items.
     if find_item items (si_spoolItemId item) \<noteq> Some item \<or> \<not> validItem item (se_hostId E)
     then sh_throw (TypeError ''local spool item is invalid'')
     else sh_bind (loadVerifiedKey E) (\<lambda>key. sh_lift (aead_open key item))))"

text \<open>The additions are sealed one after the other; an id that is already present is a conflict.\<close>

fun add_items :: "jsstring \<Rightarrow> aead_key \<Rightarrow> spool_input list \<Rightarrow> spool_item list \<Rightarrow> spool_item list result" where
  "add_items hostId key [] items = ok items"
| "add_items hostId key (input # inputs) items =
    (if find_item items (in_spoolItemId input) \<noteq> None then throw (TypeError ''local spool item ID conflict'')
     else add_items hostId key inputs (items @ [seal_item hostId key input]))"

definition spool_replace :: "spool_env \<Rightarrow> jsstring list \<Rightarrow> spool_input list \<Rightarrow> unit shell" where
  "spool_replace E removeIds additions = sh_bind spool_access (\<lambda>_.
     sh_bind (sh_get (\<lambda>w. filter (\<lambda>item. si_spoolItemId item \<notin> set removeIds) (sw_items w))) (\<lambda>kept.
     sh_bind (loadVerifiedKey E) (\<lambda>key.
     sh_bind (sh_lift (add_items (se_hostId E) key additions kept)) (\<lambda>next_items.
     sh_bind (spool_persist E next_items) (\<lambda>_.
     sh_modify (\<lambda>w. w\<lparr>sw_items := next_items,
       sw_hasPersistedItems := sw_hasPersistedItems w \<or> 0 < length next_items\<rparr>))))))"

definition spool_remove :: "spool_env \<Rightarrow> jsstring \<Rightarrow> unit shell" where
  "spool_remove E spoolItemId = spool_replace E [spoolItemId] []"

definition spool_removeMany :: "spool_env \<Rightarrow> jsstring list \<Rightarrow> unit shell" where
  "spool_removeMany E spoolItemIds = spool_replace E spoolItemIds []"

text \<open>Items that do not open are dropped; every other error of opening stops the recovery. With the
  symbolic AEAD there is no other error.\<close>

definition recoverUnreadable :: "spool_env \<Rightarrow> nat shell" where
  "recoverUnreadable E = sh_bind spool_access (\<lambda>_.
     sh_bind (loadVerifiedKey E) (\<lambda>key.
     sh_bind (sh_get sw_items) (\<lambda>items.
       (let readable = filter (\<lambda>item. is_ok (aead_open key item)) items;
            dropped = length items - length readable
        in if dropped = 0 then sh_return 0
           else sh_bind (spool_persist E readable) (\<lambda>_.
             sh_bind (sh_modify (\<lambda>w. w\<lparr>sw_items := readable\<rparr>)) (\<lambda>_. sh_return dropped))))))"

end
