(* ===== verification/Spool_Transactions.thy ===== *)
theory Spool_Transactions
  imports Local_Spool Event_Transitions Bridge_Relations
begin

section \<open>Transactions across the state file and the spool\<close>

text \<open>
  \<open>state-store/spool-transactions.ts\<close>: cancelling a terminal Event, queueing a pending Event,
  completing an upload, and the recovery of each at startup; with the accessors of the shell
  (\<open>state-store.ts\<close>) they use. In-place mutations of the live state are updates of \<open>st_live\<close>.
\<close>

subsection \<open>The shell\<close>

definition shell_state :: "bridge_state shell" where
  "shell_state w = (read_state (sw_store w), w)"

definition shell_set_state :: "bridge_state \<Rightarrow> unit shell" where
  "shell_set_state s = sh_modify (\<lambda>w. w\<lparr>sw_store := (sw_store w)\<lparr>st_live := s\<rparr>\<rparr>)"

definition shell_persist :: "spool_env \<Rightarrow> unit shell" where
  "shell_persist E = sh_bind tick (\<lambda>n. (\<lambda>w.
     let (r, store) = store_persist (se_write E n) (sw_store w) in (r, w\<lparr>sw_store := store\<rparr>)))"

definition shell_commit :: "spool_env \<Rightarrow> bridge_state \<Rightarrow> unit shell" where
  "shell_commit E s = sh_bind tick (\<lambda>n. (\<lambda>w.
     let (r, store) = store_commit (se_write E n) s (sw_store w) in (r, w\<lparr>sw_store := store\<rparr>)))"

definition with_spool :: "'a shell \<Rightarrow> 'a shell \<Rightarrow> 'a shell" where
  "with_spool absent present w = (if sw_spoolReady w then present w else absent w)"

definition not_initialized :: js_error where
  "not_initialized = PlainError ''encrypted spool is not initialized''"

definition openSpoolJson :: "spool_env \<Rightarrow> jsstring \<Rightarrow> payload option shell" where
  "openSpoolJson E itemId = with_spool (sh_return None) (sh_bind (spool_get itemId) (\<lambda>item.
     case item of
       None \<Rightarrow> sh_return None
     | Some it \<Rightarrow> sh_bind (spool_open E it) (\<lambda>p.
         if p = Not_json then sh_throw (PlainError ''SyntaxError'') else sh_return (Some p))))"

text \<open>The tuple in a payload: what is not of its shape fails in \<open>assertEventSessionBinding\<close>.\<close>

definition parse_tuple :: "payload \<Rightarrow> (canonical_event \<times> canonical_session \<times> jsstring option) result" where
  "parse_tuple p = (case p of
     Tuple_payload event session fingerprint \<Rightarrow>
       rbind (assertEventSessionBinding event session) (\<lambda>_. ok (event, session, fingerprint))
   | Not_json \<Rightarrow> throw (PlainError ''SyntaxError'')
   | _ \<Rightarrow> throw (TypeError ''Cannot read properties of undefined''))"

definition openProducerTuple ::
  "spool_env \<Rightarrow> payload_kind \<Rightarrow> jsstring \<Rightarrow> jsstring \<Rightarrow> (canonical_event \<times> canonical_session) option shell" where
  "openProducerTuple E kind eventId fingerprint = with_spool (sh_return None)
     (sh_bind (spool_list (Some kind)) (\<lambda>items.
        case find (\<lambda>item. si_eventId item = Some eventId) items of
          None \<Rightarrow> sh_return None
        | Some item \<Rightarrow>
            sh_bind (spool_open E item) (\<lambda>p.
            sh_bind (sh_lift (parse_tuple p)) (\<lambda>(event, session, found).
              if found \<noteq> Some fingerprint
              then sh_throw (TypeError ''pending Event producer fingerprint is invalid'')
              else sh_return (Some (event, session))))))"

definition getProducerEventReservation ::
  "jsstring \<Rightarrow> jsstring \<Rightarrow> producer_reservation option shell" where
  "getProducerEventReservation sessionId fingerprint = sh_bind shell_state (\<lambda>s.
     sh_return (oget (opt_object (bs_producerEventReservations s)) (producerReservationKey sessionId fingerprint)))"

definition commitSessionRevision :: "spool_env \<Rightarrow> jsstring \<Rightarrow> int \<Rightarrow> unit shell" where
  "commitSessionRevision E sessionId revision = sh_bind tick (\<lambda>n. (\<lambda>w.
     let (r, store) = applyTransition (se_write E n)
           (\<lambda>s. commitSessionRevisionTransition s sessionId revision) (sw_store w)
     in (r, w\<lparr>sw_store := store\<rparr>)))"

definition reserveProducerEvent :: "spool_env \<Rightarrow> producer_reservation \<Rightarrow> unit shell" where
  "reserveProducerEvent E reservation = sh_bind tick (\<lambda>n. (\<lambda>w.
     let (r, store) = commitState (se_write E n)
           (\<lambda>s. reserveProducerEventTransition s reservation) (sw_store w)
     in (r, w\<lparr>sw_store := store\<rparr>)))"

subsection \<open>Journaling a pending Event\<close>

definition tuple_payload :: "canonical_event \<Rightarrow> canonical_session \<Rightarrow> jsstring option \<Rightarrow> payload" where
  "tuple_payload event session fingerprint = Tuple_payload event session (truthy fingerprint)"

definition tuple_input ::
  "payload_kind \<Rightarrow> canonical_event \<Rightarrow> canonical_session \<Rightarrow> jsstring option \<Rightarrow> spool_input" where
  "tuple_input kind event session fingerprint = \<lparr>in_spoolItemId = ev_eventId event,
     in_sessionId = ev_sessionId event, in_eventId = Some (ev_eventId event), in_payloadKind = kind,
     in_createdAt = ev_createdAt event, in_plaintext = tuple_payload event session fingerprint\<rparr>"

definition enqueuePendingEvent ::
  "spool_env \<Rightarrow> canonical_event \<Rightarrow> canonical_session \<Rightarrow> jsstring option \<Rightarrow> payload_kind \<Rightarrow> unit shell" where
  "enqueuePendingEvent E event session fingerprint kind = with_spool (sh_throw not_initialized)
     (sh_bind (spool_enqueue E (tuple_input kind event session fingerprint)) (\<lambda>item.
      sh_bind (spool_open E item) (\<lambda>stored.
        if stored \<noteq> tuple_payload event session fingerprint
        then sh_throw (TypeError ''pending Event retry journal conflicts with the bound tuple'')
        else sh_return ())))"

definition reserveProducerEventTuple ::
  "spool_env \<Rightarrow> canonical_event \<Rightarrow> canonical_session \<Rightarrow> jsstring \<Rightarrow> unit shell" where
  "reserveProducerEventTuple E event session fingerprint =
     enqueuePendingEvent E event session (Some fingerprint) Event_reservation"

definition promoteProducerEventTuple ::
  "spool_env \<Rightarrow> canonical_event \<Rightarrow> canonical_session \<Rightarrow> jsstring \<Rightarrow> unit shell" where
  "promoteProducerEventTuple E event session fingerprint = with_spool (sh_throw not_initialized)
     (sh_bind (openProducerTuple E Event_reservation (ev_eventId event) fingerprint) (\<lambda>existing.
        if existing \<noteq> Some (event, session)
        then sh_throw (TypeError ''pending Event retry journal conflicts with the bound tuple'')
        else spool_replace E [ev_eventId event] [tuple_input Event_source event session (Some fingerprint)]))"

subsection \<open>Queueing a pending Event\<close>

definition pending_event_state ::
  "(jsstring \<Rightarrow> jsstring \<Rightarrow> int) \<Rightarrow> canonical_event \<Rightarrow> canonical_session \<Rightarrow> bridge_state \<Rightarrow> bridge_state" where
  "pending_event_state lc event session s = s\<lparr>
     bs_recentEvents := retainRecentEvents lc
       (event # filter (\<lambda>c. ev_eventId c \<noteq> ev_eventId event) (bs_recentEvents s)) (bs_pendingHandles s),
     bs_sessions := oput (ev_sessionId event) session (bs_sessions s),
     bs_sessionDrivers := oput (ev_sessionId event) (ev_provider event) (bs_sessionDrivers s)\<rparr>"

definition applyPendingEventState ::
  "(jsstring \<Rightarrow> jsstring \<Rightarrow> int) \<Rightarrow> canonical_event \<Rightarrow> canonical_session \<Rightarrow> unit shell" where
  "applyPendingEventState lc event session = sh_bind shell_state (\<lambda>s.
     shell_set_state (pending_event_state lc event session s))"

definition event_reservation :: "canonical_event \<Rightarrow> jsstring \<Rightarrow> producer_reservation" where
  "event_reservation event fingerprint = \<lparr>pr_eventId = ev_eventId event, pr_sessionId = ev_sessionId event,
     pr_fingerprint = fingerprint, pr_createdAt = ev_createdAt event\<rparr>"

definition put_reservation :: "producer_reservation \<Rightarrow> bridge_state \<Rightarrow> bridge_state" where
  "put_reservation r s = s\<lparr>bs_producerEventReservations := Some (oput
     (producerReservationKey (pr_sessionId r) (pr_fingerprint r)) r (opt_object (bs_producerEventReservations s)))\<rparr>"

definition applyProducerReservation :: "canonical_event \<Rightarrow> jsstring \<Rightarrow> unit shell" where
  "applyProducerReservation event fingerprint = sh_bind shell_state (\<lambda>s.
     case oget (opt_object (bs_producerEventReservations s)) (producerReservationKey (ev_sessionId event) fingerprint) of
       Some existing \<Rightarrow>
         if pr_eventId existing \<noteq> ev_eventId event then sh_throw (TypeError ''producer Event reservation conflict'')
         else shell_set_state (put_reservation (event_reservation event fingerprint) s)
     | None \<Rightarrow> shell_set_state (put_reservation (event_reservation event fingerprint) s))"

definition journal_pending_event ::
  "spool_env \<Rightarrow> canonical_event \<Rightarrow> canonical_session \<Rightarrow> jsstring option \<Rightarrow> unit shell" where
  "journal_pending_event E event session fingerprint =
     sh_bind (spool_get (ev_eventId event)) (\<lambda>existing.
       case (truthy fingerprint, map_option si_payloadKind existing) of
         (Some f, Some Event_reservation) \<Rightarrow> promoteProducerEventTuple E event session f
       | (Some f, Some Event_source) \<Rightarrow>
           sh_bind (openProducerTuple E Event_source (ev_eventId event) f) (\<lambda>tuple.
             if tuple \<noteq> Some (event, session)
             then sh_throw (TypeError ''pending Event retry journal conflicts with the bound tuple'')
             else sh_return ())
       | _ \<Rightarrow> enqueuePendingEvent E event session fingerprint Event_source)"

definition queuePendingEvent ::
  "spool_env \<Rightarrow> (jsstring \<Rightarrow> jsstring \<Rightarrow> int) \<Rightarrow> canonical_event \<Rightarrow> canonical_session \<Rightarrow> jsstring option \<Rightarrow> unit shell" where
  "queuePendingEvent E lc event session fingerprint =
     sh_bind (sh_lift (assertEventSessionBinding event session)) (\<lambda>_.
     with_spool (sh_throw not_initialized)
     (sh_bind (journal_pending_event E event session fingerprint) (\<lambda>_.
      sh_bind shell_state (\<lambda>previous.
      sh_bind (applyPendingEventState lc event session) (\<lambda>_.
      sh_bind (case truthy fingerprint of None \<Rightarrow> sh_return () | Some f \<Rightarrow> applyProducerReservation event f) (\<lambda>_.
      sh_catch (shell_persist E) (\<lambda>e. sh_bind (shell_set_state previous) (\<lambda>_. sh_throw e))))))))"

subsection \<open>Cancelling a terminal Event\<close>

record cancel_input =
  ci_eventId :: jsstring
  ci_sessionId :: jsstring
  ci_fingerprint :: jsstring
  ci_removeSession :: bool
  ci_nextDriverName :: "jsstring option"
  ci_createdAt :: jsstring
  ci_replacementSession :: "canonical_session option"

definition terminalCancellationItemId :: "jsstring \<Rightarrow> jsstring" where
  "terminalCancellationItemId eventId = js ''cancel:terminal:'' @ eventId"

definition requested_cancellation :: "cancel_input \<Rightarrow> terminal_cancellation" where
  "requested_cancellation i = \<lparr>tc_sessionId = ci_sessionId i, tc_eventId = ci_eventId i,
     tc_fingerprint = ci_fingerprint i, tc_removeSession = ci_removeSession i, tc_createdAt = ci_createdAt i\<rparr>"

text \<open>\<open>Object.keys(m).length === 0\<close> deletes the optional record.\<close>

definition drop_empty :: "('k, 'v) object option \<Rightarrow> ('k, 'v) object option" where
  "drop_empty m = (if m = Some [] then None else m)"

definition without_reservation :: "jsstring \<Rightarrow> bridge_state \<Rightarrow> bridge_state" where
  "without_reservation key s = s\<lparr>bs_producerEventReservations :=
     drop_empty (map_option (odel key) (bs_producerEventReservations s))\<rparr>"

definition with_cancellation :: "terminal_cancellation \<Rightarrow> bridge_state \<Rightarrow> bridge_state" where
  "with_cancellation c s = s\<lparr>bs_terminalCancellations :=
     Some (oput (tc_eventId c) c (opt_object (bs_terminalCancellations s)))\<rparr>"

definition without_cancellation :: "jsstring \<Rightarrow> bridge_state \<Rightarrow> bridge_state" where
  "without_cancellation eventId s = s\<lparr>bs_terminalCancellations :=
     drop_empty (map_option (odel eventId) (bs_terminalCancellations s))\<rparr>"

definition cancelled_state :: "cancel_input \<Rightarrow> terminal_cancellation \<Rightarrow> bridge_state \<Rightarrow> bridge_state" where
  "cancelled_state i cancellation s =
    (let key = producerReservationKey (ci_sessionId i) (ci_fingerprint i);
         s1 = without_reservation key s;
         s2 = s1\<lparr>bs_terminalCancellations := Some (oput (ci_eventId i) cancellation
                (opt_object (bs_terminalCancellations s1)))\<rparr>
     in if ci_removeSession i
        then s2\<lparr>bs_sessions := odel (ci_sessionId i) (bs_sessions s2),
                bs_sessionDrivers := odel (ci_sessionId i) (bs_sessionDrivers s2),
                bs_producerEventCheckpoints := map_option (odel (ci_sessionId i)) (bs_producerEventCheckpoints s2)\<rparr>
        else s2\<lparr>bs_sessions := (case ci_replacementSession i of
                  None \<Rightarrow> bs_sessions s2 | Some c \<Rightarrow> oput (ci_sessionId i) c (bs_sessions s2)),
                bs_sessionDrivers := (case ci_nextDriverName i of
                  None \<Rightarrow> bs_sessionDrivers s2 | Some d \<Rightarrow> oput (ci_sessionId i) d (bs_sessionDrivers s2))\<rparr>)"

definition diskHasTerminalCancellation :: "spool_env \<Rightarrow> terminal_cancellation \<Rightarrow> bool shell" where
  "diskHasTerminalCancellation E c = sh_bind tick (\<lambda>n. sh_get (\<lambda>w. se_readable E n \<and> st_has_path (sw_store w)
     \<and> oget (opt_object (bs_terminalCancellations (st_disk (sw_store w)))) (tc_eventId c) = Some c))"

definition finishTerminalCancellation :: "spool_env \<Rightarrow> terminal_cancellation \<Rightarrow> unit shell" where
  "finishTerminalCancellation E c = with_spool (sh_return ())
     (sh_bind (spool_get (tc_eventId c)) (\<lambda>source.
      sh_bind (spool_get (terminalCancellationItemId (tc_eventId c))) (\<lambda>intent.
      sh_bind (if source \<noteq> None \<or> intent \<noteq> None
          then sh_catch (sh_bind (spool_removeMany E [tc_eventId c, terminalCancellationItemId (tc_eventId c)])
              (\<lambda>_. sh_return True)) (\<lambda>_. sh_return False)
          else sh_return True) (\<lambda>removed.
        if \<not> removed then sh_return ()
        else sh_bind shell_state (\<lambda>s.
          sh_catch (shell_commit E (without_cancellation (tc_eventId c) s)) (\<lambda>_. sh_return ()))))))"

definition same_cancellation :: "terminal_cancellation \<Rightarrow> terminal_cancellation \<Rightarrow> bool" where
  "same_cancellation a b \<longleftrightarrow> tc_sessionId a = tc_sessionId b \<and> tc_eventId a = tc_eventId b
     \<and> tc_fingerprint a = tc_fingerprint b \<and> tc_removeSession a = tc_removeSession b"

text \<open>The persisted intent if there is one, and it agrees; a journal item of another shape disagrees.\<close>

definition existing_intent :: "terminal_cancellation \<Rightarrow> payload option \<Rightarrow> terminal_cancellation option result" where
  "existing_intent requested p = (case p of
     None \<Rightarrow> ok None
   | Some (Cancellation_payload c) \<Rightarrow>
       if same_cancellation c requested then ok (Some c)
       else throw (TypeError ''terminal cancellation journal conflict'')
   | Some _ \<Rightarrow> throw (TypeError ''terminal cancellation journal conflict''))"

definition intent_input :: "cancel_input \<Rightarrow> terminal_cancellation \<Rightarrow> spool_input" where
  "intent_input i c = \<lparr>in_spoolItemId = terminalCancellationItemId (ci_eventId i),
     in_sessionId = ci_sessionId i, in_eventId = Some (ci_eventId i), in_payloadKind = Terminal_cancellation,
     in_createdAt = tc_createdAt c, in_plaintext = Cancellation_payload c\<rparr>"

definition cancelTerminalEvent :: "spool_env \<Rightarrow> cancel_input \<Rightarrow> unit shell" where
  "cancelTerminalEvent E i = with_spool (sh_throw not_initialized)
    (sh_bind (getProducerEventReservation (ci_sessionId i) (ci_fingerprint i)) (\<lambda>reservation.
     sh_bind (spool_get (ci_eventId i)) (\<lambda>source.
       if map_option pr_eventId reservation \<noteq> Some (ci_eventId i)
          \<and> map_option si_payloadKind source \<noteq> Some Event_reservation
       then sh_return ()
       else
         sh_bind (openSpoolJson E (terminalCancellationItemId (ci_eventId i))) (\<lambda>p.
         sh_bind (sh_lift (existing_intent (requested_cancellation i) p)) (\<lambda>existing.
         (let cancellation = (case existing of Some c \<Rightarrow> c | None \<Rightarrow> requested_cancellation i)
          in sh_bind (if existing = None
               then sh_bind (spool_enqueue E (intent_input i cancellation)) (\<lambda>_. sh_return ())
               else sh_return ()) (\<lambda>_.
             sh_bind shell_state (\<lambda>s.
             (let next_state = cancelled_state i cancellation s
              in sh_bind (sh_catch (shell_commit E next_state) (\<lambda>e.
                   sh_bind (diskHasTerminalCancellation E cancellation) (\<lambda>adopted.
                     if \<not> adopted then sh_throw e else shell_set_state next_state))) (\<lambda>_.
                 finishTerminalCancellation E cancellation))))))))))"

subsection \<open>Recovery at startup\<close>

definition source_conflict :: js_error where
  "source_conflict = TypeError ''terminal cancellation source conflicts with state''"

definition assertTerminalCancellationSource :: "spool_env \<Rightarrow> terminal_cancellation \<Rightarrow> unit shell" where
  "assertTerminalCancellationSource E c = with_spool (sh_return ())
    (sh_bind (spool_get (tc_eventId c)) (\<lambda>source.
      case source of
        None \<Rightarrow> sh_return ()
      | Some item \<Rightarrow>
          if si_payloadKind item \<noteq> Event_reservation \<or> si_eventId item \<noteq> Some (tc_eventId c)
              \<or> si_sessionId item \<noteq> tc_sessionId c
          then sh_throw source_conflict
          else sh_bind (openProducerTuple E Event_reservation (tc_eventId c) (tc_fingerprint c)) (\<lambda>tuple.
            case tuple of
              None \<Rightarrow> sh_throw source_conflict
            | Some (event, session) \<Rightarrow>
                if ev_eventId event \<noteq> tc_eventId c \<or> ev_sessionId event \<noteq> tc_sessionId c
                    \<or> cs_sessionId session \<noteq> tc_sessionId c
                then sh_throw source_conflict else sh_return ())))"

definition require_settled :: "terminal_cancellation \<Rightarrow> unit shell" where
  "require_settled c = sh_bind shell_state (\<lambda>s.
     if oget (opt_object (bs_terminalCancellations s)) (tc_eventId c) \<noteq> None
     then sh_throw (PlainError ''terminal cancellation recovery requires retry'') else sh_return ())"

text \<open>The first loop: the cancellations of the state. \<open>intents\<close> maps an Event to its journal item, the
  last of that Event.\<close>

definition journal_agrees :: "spool_env \<Rightarrow> (jsstring option, spool_item) object \<Rightarrow> terminal_cancellation \<Rightarrow> unit shell" where
  "journal_agrees E intents c = (case oget intents (Some (tc_eventId c)) of
     None \<Rightarrow> sh_return ()
   | Some item \<Rightarrow> sh_bind (openSpoolJson E (si_spoolItemId item)) (\<lambda>p.
       if p \<noteq> Some (Cancellation_payload c)
       then sh_throw (TypeError ''terminal cancellation recovery journal conflicts with state'')
       else sh_return ()))"

fun reconcile_state_cancellations ::
  "spool_env \<Rightarrow> terminal_cancellation list \<Rightarrow> (jsstring option, spool_item) object
    \<Rightarrow> (jsstring option, spool_item) object shell" where
  "reconcile_state_cancellations E [] intents = sh_return intents"
| "reconcile_state_cancellations E (c # cs) intents =
    sh_bind (journal_agrees E intents c) (\<lambda>_.
    sh_bind (assertTerminalCancellationSource E c) (\<lambda>_.
    sh_bind (finishTerminalCancellation E c) (\<lambda>_.
    sh_bind (require_settled c) (\<lambda>_.
    reconcile_state_cancellations E cs (odel (Some (tc_eventId c)) intents)))))"

definition evidence_conflict :: js_error where
  "evidence_conflict = TypeError ''terminal cancellation recovery journal conflicts with pending Event evidence''"

definition recovered_state :: "terminal_cancellation \<Rightarrow> bridge_state \<Rightarrow> bridge_state" where
  "recovered_state c s =
    (let s1 = with_cancellation c (without_reservation (producerReservationKey (tc_sessionId c) (tc_fingerprint c)) s)
     in if tc_removeSession c
        then s1\<lparr>bs_sessions := odel (tc_sessionId c) (bs_sessions s1),
                bs_sessionDrivers := odel (tc_sessionId c) (bs_sessionDrivers s1)\<rparr>
        else s1)"

fun reconcile_intents :: "spool_env \<Rightarrow> spool_item list \<Rightarrow> unit shell" where
  "reconcile_intents E [] = sh_return ()"
| "reconcile_intents E (item # items) =
    sh_bind (openSpoolJson E (si_spoolItemId item)) (\<lambda>p.
      case p of
        Some (Cancellation_payload c) \<Rightarrow>
          sh_bind (getProducerEventReservation (tc_sessionId c) (tc_fingerprint c)) (\<lambda>reservation.
          sh_bind (spool_get (tc_eventId c)) (\<lambda>source.
            if map_option pr_eventId reservation \<noteq> Some (tc_eventId c)
                \<or> map_option si_payloadKind source \<noteq> Some Event_reservation
                \<or> map_option si_sessionId source \<noteq> Some (tc_sessionId c)
            then sh_throw evidence_conflict
            else
              sh_bind (assertTerminalCancellationSource E c) (\<lambda>_.
              sh_bind shell_state (\<lambda>s.
              sh_bind (shell_commit E (recovered_state c s)) (\<lambda>_.
              sh_bind (finishTerminalCancellation E c) (\<lambda>_.
              sh_bind (require_settled c) (\<lambda>_.
              reconcile_intents E items)))))))
      | _ \<Rightarrow> sh_throw evidence_conflict)"

definition reconcileTerminalCancellations :: "spool_env \<Rightarrow> unit shell" where
  "reconcileTerminalCancellations E = with_spool (sh_return ())
    (sh_bind (spool_list (Some Terminal_cancellation)) (\<lambda>items.
     sh_bind shell_state (\<lambda>s.
     sh_bind (reconcile_state_cancellations E (ovalues (opt_object (bs_terminalCancellations s)))
       (foldl (\<lambda>m item. oput (si_eventId item) item m) [] items)) (\<lambda>intents.
     reconcile_intents E (ovalues intents)))))"

subsection \<open>Recovery of pending Events\<close>

record pending_descriptor =
  pd_eventId :: jsstring
  pd_sessionId :: jsstring

definition listPendingEventDescriptors :: "pending_descriptor list shell" where
  "listPendingEventDescriptors = with_spool (sh_return [])
    (sh_bind (spool_list (Some Event_source)) (\<lambda>items.
     if items = [] then sh_return [] else sh_bind shell_state (\<lambda>s.
       sh_return (map (\<lambda>item. \<lparr>pd_eventId = (case si_eventId item of Some e \<Rightarrow> e | None \<Rightarrow> si_spoolItemId item),
           pd_sessionId = si_sessionId item\<rparr>)
         (filter (\<lambda>item. case truthy (si_eventId item) of
             None \<Rightarrow> True
           | Some e \<Rightarrow> oget (opt_object (bs_terminalCancellations s)) e = None) items)))))"

text \<open>The exact shapes: what the record types leave open. The text rules of a need-human error (Unicode
  normalisation and regular expressions of the runtime) are a predicate of the environment.\<close>

definition isCanonicalEventShape :: "spool_env \<Rightarrow> canonical_event \<Rightarrow> bool" where
  "isCanonicalEventShape E e \<longleftrightarrow> is_canonical_timestamp (ev_createdAt e)
    \<and> (case ev_body e of Event_need_human (Need_error x) \<Rightarrow> se_needHumanErrorValid E x | _ \<Rightarrow> True)"

definition isCanonicalSessionShape :: "canonical_session \<Rightarrow> bool" where
  "isCanonicalSessionShape c \<longleftrightarrow> is_canonical_timestamp (cs_updatedAt c) \<and> cs_lastEventId c \<noteq> Some []
    \<and> (case cs_snoozedUntil c of None \<Rightarrow> True | Some t \<Rightarrow> is_canonical_timestamp t)"

datatype source_result =
    Source_ok canonical_event canonical_session "jsstring option"
  | Source_json_invalid | Source_shape_invalid | Source_binding_invalid | Source_missing

definition classify_source :: "spool_env \<Rightarrow> pending_descriptor \<Rightarrow> payload \<Rightarrow> source_result" where
  "classify_source E d p = (case p of
     Not_json \<Rightarrow> Source_json_invalid
   | Tuple_payload event session fingerprint \<Rightarrow>
       if \<not> isCanonicalEventShape E event \<or> \<not> isCanonicalSessionShape session then Source_shape_invalid
       else if \<not> is_ok (assertEventSessionBinding event session) then Source_binding_invalid
       else if ev_eventId event \<noteq> pd_eventId d \<or> cs_sessionId session \<noteq> pd_sessionId d
       then Source_binding_invalid
       else Source_ok event session fingerprint
   | _ \<Rightarrow> Source_shape_invalid)"

definition openPendingEventSource :: "spool_env \<Rightarrow> pending_descriptor \<Rightarrow> source_result shell" where
  "openPendingEventSource E d = with_spool (sh_throw not_initialized)
    (sh_bind (spool_get (pd_eventId d)) (\<lambda>item.
      case item of
        None \<Rightarrow> sh_return Source_missing
      | Some it \<Rightarrow> sh_bind (spool_open E it) (\<lambda>p. sh_return (classify_source E d p))))"

text \<open>The reservation of a recovered tuple: made when absent (\<open>True\<close>), checked when present.\<close>

definition recover_reservation :: "js_error \<Rightarrow> canonical_event \<Rightarrow> jsstring \<Rightarrow> bool shell" where
  "recover_reservation conflict event fingerprint =
    sh_bind (getProducerEventReservation (ev_sessionId event) fingerprint) (\<lambda>existing.
      case existing of
        None \<Rightarrow> sh_bind (applyProducerReservation event fingerprint) (\<lambda>_. sh_return True)
      | Some r \<Rightarrow> if pr_eventId r \<noteq> ev_eventId event then sh_throw conflict else sh_return False)"

definition reservation_conflict :: js_error where
  "reservation_conflict = TypeError ''pending Event producer reservation conflicts with state''"

fun recover_reservations :: "spool_env \<Rightarrow> spool_item list \<Rightarrow> bool \<Rightarrow> bool shell" where
  "recover_reservations E [] changed = sh_return changed"
| "recover_reservations E (item # items) changed =
    sh_bind (spool_open E item) (\<lambda>p.
    sh_bind (sh_lift (parse_tuple p)) (\<lambda>(event, session, fingerprint).
      case fingerprint of
        None \<Rightarrow> sh_throw (TypeError ''pending Event producer fingerprint is invalid'')
      | Some f \<Rightarrow> sh_bind (recover_reservation reservation_conflict event f) (\<lambda>made.
          recover_reservations E items (changed \<or> made))))"

definition reconcileProducerEventReservations :: "spool_env \<Rightarrow> unit shell" where
  "reconcileProducerEventReservations E = with_spool (sh_return ())
    (sh_bind (spool_list (Some Event_reservation)) (\<lambda>items.
     sh_bind (recover_reservations E items False) (\<lambda>changed.
       if changed then shell_persist E else sh_return ())))"

definition recover_source ::
  "(jsstring \<Rightarrow> jsstring \<Rightarrow> int) \<Rightarrow> canonical_event \<Rightarrow> canonical_session \<Rightarrow> jsstring option \<Rightarrow> bool shell" where
  "recover_source lc event session fingerprint =
    sh_bind shell_state (\<lambda>s.
    sh_bind (case truthy fingerprint of
        None \<Rightarrow> sh_return False
      | Some f \<Rightarrow> recover_reservation reservation_conflict event f) (\<lambda>made.
      (let current = oget (bs_sessions s) (ev_sessionId event);
           recent = find_event (bs_recentEvents s) (ev_eventId event) \<noteq> None
       in if recent \<and> (case current of Some c \<Rightarrow> cs_lastEventId c = Some (ev_eventId event) | None \<Rightarrow> False)
          then sh_return made
          else if (case current of Some c \<Rightarrow> isNewerTerminalSession lc c session | None \<Rightarrow> False)
          then sh_return made
          else sh_bind (applyPendingEventState lc event session) (\<lambda>_. sh_return True))))"

fun recover_sources ::
  "spool_env \<Rightarrow> (jsstring \<Rightarrow> jsstring \<Rightarrow> int) \<Rightarrow> pending_descriptor list \<Rightarrow> bool \<Rightarrow> bool shell" where
  "recover_sources E lc [] changed = sh_return changed"
| "recover_sources E lc (d # ds) changed =
    sh_bind (openPendingEventSource E d) (\<lambda>loaded.
      case loaded of
        Source_ok event session fingerprint \<Rightarrow>
          sh_bind (recover_source lc event session fingerprint) (\<lambda>made.
            recover_sources E lc ds (changed \<or> made))
      | _ \<Rightarrow> recover_sources E lc ds changed)"

definition reconcilePendingEventJournal ::
  "spool_env \<Rightarrow> (jsstring \<Rightarrow> jsstring \<Rightarrow> int) \<Rightarrow> unit shell" where
  "reconcilePendingEventJournal E lc = with_spool (sh_return ())
    (sh_bind listPendingEventDescriptors (\<lambda>descriptors.
     sh_bind (recover_sources E lc descriptors False) (\<lambda>changed.
       if changed then shell_persist E else sh_return ())))"

subsection \<open>Completing an upload\<close>

definition put_completion :: "jsstring \<Rightarrow> event_completion \<Rightarrow> bridge_state \<Rightarrow> bridge_state" where
  "put_completion eventId c s = s\<lparr>bs_eventUploadCompletions :=
     Some (oput eventId c (opt_object (bs_eventUploadCompletions s)))\<rparr>"

definition drop_completion :: "jsstring \<Rightarrow> bridge_state \<Rightarrow> bridge_state" where
  "drop_completion eventId s = s\<lparr>bs_eventUploadCompletions :=
     drop_empty (map_option (odel eventId) (bs_eventUploadCompletions s))\<rparr>"

definition completion_of :: "bridge_state \<Rightarrow> jsstring \<Rightarrow> event_completion option" where
  "completion_of s eventId = oget (opt_object (bs_eventUploadCompletions s)) eventId"

definition beginEventUploadCompletion :: "spool_env \<Rightarrow> event_completion \<Rightarrow> unit shell" where
  "beginEventUploadCompletion E completion = sh_bind shell_state (\<lambda>s.
     case completion_of s (ec_eventId completion) of
       Some existing \<Rightarrow>
         if \<not> sameEventCompletion existing completion
         then sh_throw (TypeError ''event completion journal conflict'') else sh_return ()
     | None \<Rightarrow> sh_bind (shell_set_state (put_completion (ec_eventId completion) completion s)) (\<lambda>_. shell_persist E))"

definition updateEventCompletion ::
  "spool_env \<Rightarrow> jsstring \<Rightarrow> (event_completion \<Rightarrow> event_completion) \<Rightarrow> event_completion shell" where
  "updateEventCompletion E eventId patch = sh_bind shell_state (\<lambda>s.
     case completion_of s eventId of
       None \<Rightarrow> sh_throw (TypeError ''event completion journal is missing'')
     | Some current \<Rightarrow>
         sh_bind (shell_set_state (put_completion eventId (patch current) s)) (\<lambda>_.
         sh_bind (shell_persist E) (\<lambda>_. sh_return (patch current))))"

definition remove_if_spool :: "spool_env \<Rightarrow> jsstring \<Rightarrow> unit shell" where
  "remove_if_spool E itemId = with_spool (sh_return ()) (spool_remove E itemId)"

definition inflight_item :: "jsstring \<Rightarrow> jsstring" where
  "inflight_item eventId = js ''inflight:event:'' @ eventId"

definition completeEventUpload :: "spool_env \<Rightarrow> jsstring \<Rightarrow> unit shell" where
  "completeEventUpload E eventId = sh_bind shell_state (\<lambda>s0.
     case completion_of s0 eventId of
       None \<Rightarrow> sh_return ()
     | Some c0 \<Rightarrow>
         sh_bind (if ec_revisionCommitted c0 = Some True then sh_return c0
             else sh_bind (commitSessionRevision E (ec_sessionId c0) (ec_revision c0)) (\<lambda>_.
               updateEventCompletion E eventId (\<lambda>c. c\<lparr>ec_revisionCommitted := Some True\<rparr>))) (\<lambda>c1.
         sh_bind (if ec_inflightRemoved c1 = Some True then sh_return c1
             else sh_bind (remove_if_spool E (inflight_item eventId)) (\<lambda>_.
               updateEventCompletion E eventId (\<lambda>c. c\<lparr>ec_inflightRemoved := Some True\<rparr>))) (\<lambda>c2.
         sh_bind (if ec_sourceRemoved c2 = Some True then sh_return c2
             else sh_bind (remove_if_spool E eventId) (\<lambda>_.
               updateEventCompletion E eventId (\<lambda>c. c\<lparr>ec_sourceRemoved := Some True\<rparr>))) (\<lambda>_.
         sh_bind shell_state (\<lambda>s.
         sh_bind (shell_set_state (drop_completion eventId s)) (\<lambda>_. shell_persist E))))))"

fun complete_all :: "spool_env \<Rightarrow> jsstring list \<Rightarrow> unit shell" where
  "complete_all E [] = sh_return ()"
| "complete_all E (eventId # eventIds) =
    sh_bind (completeEventUpload E eventId) (\<lambda>_. complete_all E eventIds)"

definition resumeEventUploadCompletions :: "spool_env \<Rightarrow> unit shell" where
  "resumeEventUploadCompletions E = sh_bind shell_state (\<lambda>s.
     complete_all E (okeys (opt_object (bs_eventUploadCompletions s))))"

text \<open>The recovery of \<open>initializeEncryptedSpool\<close>, after the preflight.\<close>

definition recoverRuntime :: "spool_env \<Rightarrow> (jsstring \<Rightarrow> jsstring \<Rightarrow> int) \<Rightarrow> nat shell" where
  "recoverRuntime E lc =
    sh_bind (recoverUnreadable E) (\<lambda>dropped.
    sh_bind (reconcileTerminalCancellations E) (\<lambda>_.
    sh_bind (reconcileProducerEventReservations E) (\<lambda>_.
    sh_bind (reconcilePendingEventJournal E lc) (\<lambda>_.
    sh_bind (resumeEventUploadCompletions E) (\<lambda>_.
    sh_return dropped)))))"

end
