(* ===== verification/Spool_Relations.thy ===== *)
theory Spool_Relations
  imports Spool_Transactions
begin

section \<open>What the loader demands of the spool\<close>

text \<open>
  \<open>assertCurrentRuntimeRelationships\<close> (\<open>state-codec.ts\<close>): the relationships between the items of the
  spool file and the state, checked at every start after those of the state itself.
\<close>

definition session_mismatch :: "bridge_state \<Rightarrow> spool_item \<Rightarrow> bool" where
  "session_mismatch s item = (case si_eventId item of
     None \<Rightarrow> False
   | Some e \<Rightarrow> (case find_event (bs_recentEvents s) e of
       None \<Rightarrow> False | Some event \<Rightarrow> ev_sessionId event \<noteq> si_sessionId item))"

definition reservation_of :: "bridge_state \<Rightarrow> jsstring option \<Rightarrow> producer_reservation option" where
  "reservation_of s eventId = find (\<lambda>r. Some (pr_eventId r) = eventId)
     (ovalues (opt_object (bs_producerEventReservations s)))"

definition cancellation_of :: "bridge_state \<Rightarrow> jsstring option \<Rightarrow> terminal_cancellation option" where
  "cancellation_of s eventId = (case eventId of
     None \<Rightarrow> None | Some e \<Rightarrow> oget (opt_object (bs_terminalCancellations s)) e)"

definition prefixed_id :: "string \<Rightarrow> jsstring option \<Rightarrow> jsstring" where
  "prefixed_id prefix eventId = js prefix @ (case eventId of Some e \<Rightarrow> e | None \<Rightarrow> js ''undefined'')"

definition recoverable_intent :: "bridge_state \<Rightarrow> spool_item list \<Rightarrow> spool_item \<Rightarrow> bool" where
  "recoverable_intent s items item \<longleftrightarrow>
     map_option pr_sessionId (reservation_of s (si_eventId item)) = Some (si_sessionId item)
     \<and> (case find (\<lambda>c. Some (si_spoolItemId c) = si_eventId item) items of
          None \<Rightarrow> False
        | Some source \<Rightarrow> si_payloadKind source = Event_reservation \<and> si_eventId source = si_eventId item
            \<and> si_sessionId source = si_sessionId item)"

definition event_kind :: "payload_kind \<Rightarrow> bool" where
  "event_kind k \<longleftrightarrow> k \<noteq> Session_source \<and> k \<noteq> Session_upload"

definition check_item :: "bridge_state \<Rightarrow> spool_item list \<Rightarrow> spool_item \<Rightarrow> unit result" where
  "check_item s items item =
    (if event_kind (si_payloadKind item) \<and> truthy (si_eventId item) = None
     then throw (PlainError ''Bridge runtime spool Event binding is invalid'')
     else case si_payloadKind item of
       Event_source \<Rightarrow>
         if Some (si_spoolItemId item) \<noteq> si_eventId item \<or> session_mismatch s item
         then throw (PlainError ''Bridge runtime Event source binding is invalid'') else ok ()
     | Event_reservation \<Rightarrow>
         if Some (si_spoolItemId item) \<noteq> si_eventId item
           \<or> (case reservation_of s (si_eventId item) of
                None \<Rightarrow> False | Some r \<Rightarrow> pr_sessionId r \<noteq> si_sessionId item)
           \<or> (case cancellation_of s (si_eventId item) of
                None \<Rightarrow> False | Some c \<Rightarrow> tc_sessionId c \<noteq> si_sessionId item)
         then throw (PlainError ''Bridge runtime Event reservation binding is invalid'') else ok ()
     | Event_upload \<Rightarrow>
         if si_spoolItemId item \<noteq> prefixed_id ''inflight:event:'' (si_eventId item) \<or> session_mismatch s item
         then throw (PlainError ''Bridge runtime Event upload binding is invalid'') else ok ()
     | Event_dead_letter \<Rightarrow>
         if si_spoolItemId item \<noteq> prefixed_id ''dead-letter:event:'' (si_eventId item) \<or> session_mismatch s item
         then throw (PlainError ''Bridge runtime Event dead-letter binding is invalid'') else ok ()
     | Session_upload \<Rightarrow>
         if si_spoolItemId item \<noteq> js ''inflight:session:'' @ si_sessionId item
         then throw (PlainError ''Bridge runtime Session upload binding is invalid'') else ok ()
     | Session_source \<Rightarrow> ok ()
     | Terminal_cancellation \<Rightarrow>
         if si_spoolItemId item \<noteq> prefixed_id ''cancel:terminal:'' (si_eventId item)
           \<or> (cancellation_of s (si_eventId item) = None \<and> \<not> recoverable_intent s items item)
           \<or> (case cancellation_of s (si_eventId item) of
                None \<Rightarrow> False | Some c \<Rightarrow> tc_sessionId c \<noteq> si_sessionId item)
         then throw (PlainError ''Bridge runtime terminal cancellation spool binding is invalid'') else ok ())"

fun check_items :: "bridge_state \<Rightarrow> spool_item list \<Rightarrow> jsstring set \<Rightarrow> spool_item list \<Rightarrow> unit result" where
  "check_items s items seen [] = ok ()"
| "check_items s items seen (item # rest) =
    (if si_spoolItemId item \<in> seen
     then throw (PlainError ''Bridge runtime spool item ID is duplicated'')
     else rbind (check_item s items item) (\<lambda>_. check_items s items (insert (si_spoolItemId item) seen) rest))"

definition completion_spooled :: "spool_item list \<Rightarrow> event_completion \<Rightarrow> bool" where
  "completion_spooled items c \<longleftrightarrow>
    (case find_item items (inflight_item (ec_eventId c)) of
       None \<Rightarrow> True
     | Some inflight \<Rightarrow> si_payloadKind inflight = Event_upload \<and> si_sessionId inflight = ec_sessionId c
         \<and> ec_inflightRemoved c \<noteq> Some True)
    \<and> (case find_item items (ec_eventId c) of
       None \<Rightarrow> True
     | Some source \<Rightarrow> si_payloadKind source = Event_source \<and> si_sessionId source = ec_sessionId c
         \<and> ec_sourceRemoved c \<noteq> Some True)"

definition assertCurrentRuntimeRelationships ::
  "wire_port \<Rightarrow> bridge_state \<Rightarrow> spool_item list \<Rightarrow> jsstring \<Rightarrow> unit result" where
  "assertCurrentRuntimeRelationships P s items hostId =
    rbind (assertCurrentStateRelationships P s hostId) (\<lambda>_.
    rbind (check_items s items {} items) (\<lambda>_.
      if list_all (completion_spooled items) (ovalues (opt_object (bs_eventUploadCompletions s)))
      then ok () else throw (PlainError ''Bridge runtime Event completion spool binding is invalid'')))"

lemma check_items_ok:
  "check_items s items seen rest = ok () \<longleftrightarrow>
    distinct (map si_spoolItemId rest) \<and> seen \<inter> si_spoolItemId ` set rest = {}
    \<and> (\<forall>item \<in> set rest. check_item s items item = ok ())"
  by (induction s items seen rest rule: check_items.induct) (auto simp: rbind_Inr_iff)

definition spool_related :: "bridge_state \<Rightarrow> spool_item list \<Rightarrow> bool" where
  "spool_related s items \<longleftrightarrow> distinct (map si_spoolItemId items)
    \<and> (\<forall>item \<in> set items. check_item s items item = ok ())
    \<and> (\<forall>c \<in> set (ovalues (opt_object (bs_eventUploadCompletions s))). completion_spooled items c)"

lemma assert_runtime_iff:
  "assertCurrentRuntimeRelationships P s items hostId = ok () \<longleftrightarrow> related P s hostId \<and> spool_related s items"
  by (auto simp: assertCurrentRuntimeRelationships_def rbind_Inr_iff assert_relationships_iff[symmetric]
      check_items_ok spool_related_def list_all_iff)

end
