(* ===== verification/Spool_Files.thy ===== *)
theory Spool_Files
  imports Spool_Relations
begin

section \<open>The spool file and its copy in memory\<close>

text \<open>
  What each spool operation and each primitive of the shell leaves, for every answer of the
  environment: an operation takes effect in the file and in memory or in neither, with one exception
  (\<open>torn\<close>): a write that was done but reported as failed, and could not be read back, is in the file
  only. The rules are weakest preconditions: \<open>wp m Q w\<close> says that running
  \<open>m\<close> from \<open>w\<close> ends, in a value or in an error, in what \<open>Q\<close> demands.
\<close>

subsection \<open>Weakest preconditions\<close>

definition wp :: "'a shell \<Rightarrow> ('a result \<Rightarrow> spool_world \<Rightarrow> bool) \<Rightarrow> spool_world \<Rightarrow> bool" where
  "wp m Q w \<longleftrightarrow> Q (fst (m w)) (snd (m w))"

lemma wpD: "wp m Q w \<Longrightarrow> m w = (r, w') \<Longrightarrow> Q r w'"
  by (simp add: wp_def)

lemma wpI: "(\<And>r w'. m w = (r, w') \<Longrightarrow> Q r w') \<Longrightarrow> wp m Q w"
  by (simp add: wp_def)

lemma wp_mono: "wp m Q w \<Longrightarrow> (\<And>r w'. Q r w' \<Longrightarrow> R r w') \<Longrightarrow> wp m R w"
  by (simp add: wp_def)

lemma wp_bind: "wp (sh_bind m f) Q w =
    wp m (\<lambda>r w'. case r of Inl e \<Rightarrow> Q (Inl e) w' | Inr a \<Rightarrow> wp (f a) Q w') w"
  by (auto simp: wp_def sh_bind_def split: prod.split sum.split)

lemma wp_bind_rule:
  assumes "wp m R w" and "\<And>e w'. R (Inl e) w' \<Longrightarrow> Q (Inl e) w'" and "\<And>a w'. R (Inr a) w' \<Longrightarrow> wp (f a) Q w'"
  shows "wp (sh_bind m f) Q w"
  unfolding wp_bind by (rule wp_mono[OF assms(1)]) (auto intro: assms(2,3) split: sum.split)

lemma bind_assoc: "sh_bind (sh_bind m f) g = sh_bind m (\<lambda>x. sh_bind (f x) g)"
  by (rule ext) (auto simp: sh_bind_def split: prod.split sum.split)

lemma wp_catch: "wp (sh_catch m f) Q w =
    wp m (\<lambda>r w'. case r of Inl e \<Rightarrow> wp (f e) Q w' | Inr a \<Rightarrow> Q (Inr a) w') w"
  by (auto simp: wp_def sh_catch_def split: prod.split sum.split)

lemma wp_pure:
  "wp (sh_return a) Q w = Q (Inr a) w"
  "wp (sh_throw e) Q w = Q (Inl e) w"
  "wp (sh_lift r) Q w = Q r w"
  "wp (sh_get g) Q w = Q (Inr (g w)) w"
  by (simp_all add: wp_def sh_return_def sh_throw_def sh_lift_def sh_get_def)

lemma wp_modify: "wp (sh_modify h) Q w = Q (Inr ()) (h w)"
  by (simp add: wp_def sh_modify_def)

lemma wp_tick: "wp tick Q w = Q (Inr (sw_tick w)) (w\<lparr>sw_tick := Suc (sw_tick w)\<rparr>)"
  by (simp add: wp_def tick_def)

lemma wp_access: "wp spool_access Q w = Q (assertStateStoreAccess (sw_store w)) w"
  by (simp add: wp_def spool_access_def)

lemma wp_read: "wp shell_state Q w = Q (read_state (sw_store w)) w"
  by (simp add: wp_def shell_state_def)

lemma wp_set_state: "wp (shell_set_state s) Q w = Q (Inr ()) (w\<lparr>sw_store := (sw_store w)\<lparr>st_live := s\<rparr>\<rparr>)"
  by (simp add: wp_def shell_set_state_def sh_modify_def)

lemmas wp_basic = wp_pure wp_modify wp_tick wp_access wp_read wp_set_state

lemma wp_with_spool: "wp (with_spool a p) Q w = (if sw_spoolReady w then wp p Q w else wp a Q w)"
  by (simp add: wp_def with_spool_def)

lemma wp_if: "wp (if b then m else n) Q w = (if b then wp m Q w else wp n Q w)"
  by simp

lemmas wp_steps = wp_bind wp_catch wp_basic wp_with_spool

subsection \<open>The file and the memory\<close>

text \<open>The items of the file, if it is one the loader accepts; before the first write there is no file.\<close>

definition file_holds :: "spool_env \<Rightarrow> spool_item list \<Rightarrow> spool_world \<Rightarrow> bool" where
  "file_holds E items w \<longleftrightarrow> (case sw_file w of
       None \<Rightarrow> items = []
     | Some f \<Rightarrow> sf_items f = items \<and> sf_runtimeStateSchemaVersion f = 4
         \<and> sf_runtimeResetEpoch f = se_epoch E \<and> sf_hostId f = se_hostId E)
    \<and> list_all (\<lambda>item. validItem item (se_hostId E)) items"

definition spool_inv :: "spool_env \<Rightarrow> spool_world \<Rightarrow> bool" where
  "spool_inv E w \<longleftrightarrow> file_holds E (sw_items w) w"

lemma spool_inv_iff: "spool_inv E w \<longleftrightarrow> (sw_file w = None \<and> sw_items w = []
      \<or> (\<exists>f. sw_file w = Some f \<and> sf_items f = sw_items w
          \<and> sf_runtimeStateSchemaVersion f = 4 \<and> sf_runtimeResetEpoch f = se_epoch E \<and> sf_hostId f = se_hostId E))
    \<and> list_all (\<lambda>item. validItem item (se_hostId E)) (sw_items w)"
  unfolding spool_inv_def file_holds_def by (cases "sw_file w") auto

lemma file_holds_unique: "file_holds E a w \<Longrightarrow> file_holds E b w \<Longrightarrow> a = b"
  by (auto simp: file_holds_def split: option.splits)

text \<open>The loader returns these items, when the file can be read.\<close>

lemma spool_load_holds:
  assumes "file_holds E items w" and "assertStateStoreAccess (sw_store w) = ok ()" and "se_spoolReadable E (sw_tick w)"
  shows "\<exists>key. fst (spool_load E w) = ok (items, key)"
  using assms
  by (auto simp: spool_load_def file_holds_def sh_bind_def sh_get_def sh_return_def tick_def spool_access_def
      split: option.splits)

text \<open>Two worlds with the same state store, and two worlds that also hold the same spool: they may
  differ in the key identity in memory and in the counter of calls.\<close>

definition same_store :: "spool_world \<Rightarrow> spool_world \<Rightarrow> bool" where
  "same_store w w' \<longleftrightarrow> sw_store w' = sw_store w \<and> sw_spoolReady w' = sw_spoolReady w"

definition same_spool :: "spool_world \<Rightarrow> spool_world \<Rightarrow> bool" where
  "same_spool w w' \<longleftrightarrow> sw_spoolReady w' = sw_spoolReady w \<and> sw_items w' = sw_items w \<and> sw_file w' = sw_file w"

definition same_world :: "spool_world \<Rightarrow> spool_world \<Rightarrow> bool" where
  "same_world w w' \<longleftrightarrow> same_store w w' \<and> same_spool w w'"

lemmas same_defs = same_world_def same_spool_def same_store_def

lemma same_world_refl [simp]: "same_world w w" by (simp add: same_defs)

lemma same_world_trans: "same_world a b \<Longrightarrow> same_world b c \<Longrightarrow> same_world a c"
  by (simp add: same_defs)

lemma same_world_updates [simp]:
  "same_world a (w\<lparr>sw_tick := t\<rparr>) = same_world a w"
  "same_world a (w\<lparr>sw_keyId := k\<rparr>) = same_world a w"
  "same_world a (w\<lparr>sw_hasPersistedItems := p\<rparr>) = same_world a w"
  by (simp_all add: same_defs)

lemma spool_inv_same: "same_spool w w' \<Longrightarrow> spool_inv E w' = spool_inv E w"
  by (simp add: same_spool_def spool_inv_iff)

lemma spool_inv_updates [simp]:
  "spool_inv E (w\<lparr>sw_tick := t\<rparr>) = spool_inv E w"
  "spool_inv E (w\<lparr>sw_keyId := k\<rparr>) = spool_inv E w"
  "spool_inv E (w\<lparr>sw_hasPersistedItems := p\<rparr>) = spool_inv E w"
  "spool_inv E (w\<lparr>sw_store := st\<rparr>) = spool_inv E w"
  by (simp_all add: spool_inv_iff)

subsection \<open>A healthy environment\<close>

text \<open>Access is granted, every write succeeds and the key store always answers with the key of the file.\<close>

definition healthy :: "spool_env \<Rightarrow> spool_world \<Rightarrow> bool" where
  "healthy E w \<longleftrightarrow> assertStateStoreAccess (sw_store w) = ok () \<and> st_runtimeReady (sw_store w)
    \<and> (\<forall>n. se_write E n = Written)
    \<and> (\<exists>k. (\<forall>n b. se_loadOrCreate E n b = ok k)
         \<and> (sw_keyId w = None \<or> sw_keyId w = Some (se_keyIdForKey E k)))"

text \<open>The step was taken with the same access rights and a key identity the environment still answers for.\<close>

lemma healthy_updates [simp]:
  "healthy E (w\<lparr>sw_tick := t\<rparr>) = healthy E w"
  "healthy E (w\<lparr>sw_items := items\<rparr>) = healthy E w"
  "healthy E (w\<lparr>sw_file := f\<rparr>) = healthy E w"
  "healthy E (w\<lparr>sw_hasPersistedItems := p\<rparr>) = healthy E w"
  by (simp_all add: healthy_def)

lemma healthy_store [simp]:
  "st_disposed st = st_disposed (sw_store w) \<Longrightarrow> st_writer_allowed st = st_writer_allowed (sw_store w)
    \<Longrightarrow> st_runtimeReady st = st_runtimeReady (sw_store w)
    \<Longrightarrow> healthy E (w\<lparr>sw_store := st\<rparr>) = healthy E w"
  by (simp add: healthy_def assertStateStoreAccess_def)

lemma healthy_read: "healthy E w \<Longrightarrow> read_state (sw_store w) = ok (st_live (sw_store w))"
  by (simp add: healthy_def read_state_def)

lemma healthy_access: "healthy E w \<Longrightarrow> assertStateStoreAccess (sw_store w) = ok ()"
  by (simp add: healthy_def)

lemma healthy_write: "healthy E w \<Longrightarrow> se_write E n = Written"
  by (simp add: healthy_def)

subsection \<open>A write that could not be read back\<close>

text \<open>The last two calls of a run: a write that was done but reported as failed, and a read that failed.\<close>

definition read_back_failed :: "spool_env \<Rightarrow> spool_world \<Rightarrow> bool" where
  "read_back_failed E w \<longleftrightarrow>
    (\<exists>n. sw_tick w = Suc (Suc n) \<and> se_write E n = Written_then_failed \<and> \<not> se_spoolReadable E (Suc n))"

text \<open>The file holds what was to be written, the memory what it held before.\<close>

definition torn :: "spool_env \<Rightarrow> spool_item list \<Rightarrow> spool_world \<Rightarrow> spool_world \<Rightarrow> bool" where
  "torn E items w w' \<longleftrightarrow> same_store w w' \<and> sw_items w' = sw_items w \<and> file_holds E items w' \<and> read_back_failed E w'"

lemma torn_unhealthy: "torn E items w w' \<Longrightarrow> \<not> healthy E v"
  by (auto simp: torn_def read_back_failed_def healthy_def)

lemma torn_same: "same_world w v \<Longrightarrow> torn E items v w' \<Longrightarrow> torn E items w w'"
  by (auto simp: torn_def same_defs)

subsection \<open>Rules of the spool\<close>

lemma wp_key:
  assumes "\<And>e w'. same_world w w' \<Longrightarrow> \<not> healthy E w \<Longrightarrow> Q (Inl e) w'"
    and "\<And>k w'. same_world w w' \<Longrightarrow> (healthy E w \<Longrightarrow> healthy E w')
      \<Longrightarrow> sw_keyId w' = Some (se_keyIdForKey E k) \<Longrightarrow> Q (Inr k) w'"
  shows "wp (loadVerifiedKey E) Q w"
proof (cases "assertStateStoreAccess (sw_store w)")
  case (Inl e)
  then show ?thesis by (auto simp: loadVerifiedKey_def wp_steps healthy_def intro!: assms(1))
next
  case (Inr u)
  show ?thesis
  proof (cases "se_loadOrCreate E (sw_tick w) (\<not> sw_hasPersistedItems w)")
    case (Inl e)
    then have "\<not> healthy E w" by (auto simp: healthy_def)
    then show ?thesis using Inl Inr by (auto simp: loadVerifiedKey_def wp_steps intro!: assms(1))
  next
    case (Inr k)
    have same: "healthy E w \<Longrightarrow> sw_keyId w = None \<or> sw_keyId w = Some (se_keyIdForKey E k)"
      using Inr by (auto simp: healthy_def)
    have next': "healthy E w \<Longrightarrow> healthy E (w\<lparr>sw_tick := t, sw_keyId := Some (se_keyIdForKey E k)\<rparr>)" for t
      using Inr by (auto simp: healthy_def)
    show ?thesis
    proof (cases "sw_keyId w = None \<or> sw_keyId w = Some (se_keyIdForKey E k)")
      case True
      then show ?thesis
        using \<open>assertStateStoreAccess (sw_store w) = Inr u\<close> Inr next'
        by (auto simp: loadVerifiedKey_def wp_steps intro!: assms(2))
    next
      case False
      then show ?thesis
        using \<open>assertStateStoreAccess (sw_store w) = Inr u\<close> Inr same
        by (auto simp: loadVerifiedKey_def wp_steps intro!: assms(1))
    qed
  qed
qed

lemma wp_persist_items:
  assumes valid: "list_all (\<lambda>item. validItem item (se_hostId E)) items" and key: "healthy E w \<Longrightarrow> sw_keyId w \<noteq> None"
    and fail: "\<And>e w'. same_world w w' \<Longrightarrow> \<not> healthy E w \<Longrightarrow> Q (Inl e) w'"
    and did: "\<And>w' f. same_store w w' \<Longrightarrow> (healthy E w \<Longrightarrow> healthy E w') \<Longrightarrow> sw_items w' = sw_items w
      \<Longrightarrow> sw_file w' = Some f \<Longrightarrow> sf_items f = items
      \<Longrightarrow> sf_runtimeStateSchemaVersion f = 4 \<Longrightarrow> sf_runtimeResetEpoch f = se_epoch E
      \<Longrightarrow> sf_hostId f = se_hostId E \<Longrightarrow> Q (Inr ()) w'"
    and tear: "\<And>e w'. torn E items w w' \<Longrightarrow> Q (Inl e) w'"
  shows "wp (spool_persist E items) Q w"
proof (cases "assertStateStoreAccess (sw_store w)")
  case (Inl e)
  then have "\<not> healthy E w" by (simp add: healthy_def)
  then show ?thesis by (simp add: spool_persist_def wp_steps Inl fail)
next
  case (Inr u)
  show ?thesis
  proof (cases "sw_keyId w")
    case None
    then show ?thesis using key by (auto simp: spool_persist_def wp_steps Inr intro!: fail)
  next
    case (Some k)
    have good: "healthy E w \<Longrightarrow> se_write E (sw_tick w) = Written" by (simp add: healthy_def)
    have torn: "torn E items w w'"
      if "se_write E (sw_tick w) = Written_then_failed" "\<not> se_spoolReadable E (Suc (sw_tick w))" "same_store w w'"
        "sw_items w' = sw_items w" "file_holds E items w'" "sw_tick w' = Suc (Suc (sw_tick w))" for w'
      using that by (auto simp: torn_def read_back_failed_def)
    show ?thesis
    proof (cases "se_write E (sw_tick w) = Written_then_failed \<and> \<not> se_spoolReadable E (Suc (sw_tick w))")
      case True
      then show ?thesis
        using valid
        by (auto simp: spool_persist_def wp_steps Inr Some Let_def wp_def[of "write_spool _ _"] write_spool_def
            spool_load_def wp_if same_defs file_holds_def intro!: tear torn)
    next
      case False
      then show ?thesis
        using valid good
        by (cases "se_write E (sw_tick w)")
          (auto simp: spool_persist_def wp_steps Inr Some Let_def wp_def[of "write_spool _ _"] write_spool_def
            spool_load_def wp_if same_defs split: option.split intro!: fail did)
    qed
  qed
qed

lemma valid_seal [simp]: "validItem (seal_item h k i) h"
  by (simp add: validItem_def seal_item_def Let_def)

lemma add_items_valid:
  "add_items h k inputs items = ok items' \<Longrightarrow> list_all (\<lambda>i. validItem i h) items
    \<Longrightarrow> list_all (\<lambda>i. validItem i h) items'"
  by (induction h k inputs items rule: add_items.induct) (auto split: if_splits)

lemma wp_replace:
  assumes inv: "spool_inv E w"
    and fail: "\<And>e w'. same_world w w' \<Longrightarrow>
      \<not> healthy E w \<or> (\<exists>k e'. add_items (se_hostId E) k additions (filter (\<lambda>i. si_spoolItemId i \<notin> set ids) (sw_items w)) = Inl e')
      \<Longrightarrow> Q (Inl e) w'"
    and did: "\<And>k items w'. same_store w w' \<Longrightarrow> (healthy E w \<Longrightarrow> healthy E w') \<Longrightarrow> spool_inv E w' \<Longrightarrow> sw_items w' = items
      \<Longrightarrow> add_items (se_hostId E) k additions (filter (\<lambda>i. si_spoolItemId i \<notin> set ids) (sw_items w)) = ok items
      \<Longrightarrow> Q (Inr ()) w'"
    and tear: "\<And>k items e w'. torn E items w w'
      \<Longrightarrow> add_items (se_hostId E) k additions (filter (\<lambda>i. si_spoolItemId i \<notin> set ids) (sw_items w)) = ok items
      \<Longrightarrow> Q (Inl e) w'"
  shows "wp (spool_replace E ids additions) Q w"
proof (cases "assertStateStoreAccess (sw_store w)")
  case (Inl e)
  then have "\<not> healthy E w" by (simp add: healthy_def)
  then show ?thesis by (simp add: spool_replace_def wp_steps Inl fail)
next
  case (Inr u)
  let ?kept = "filter (\<lambda>i. si_spoolItemId i \<notin> set ids) (sw_items w)"
  have kept: "list_all (\<lambda>i. validItem i (se_hostId E)) ?kept"
    using inv by (auto simp: spool_inv_iff list_all_iff)
  show ?thesis
    unfolding spool_replace_def wp_steps Inr
  proof (simp, rule wp_key, goal_cases)
    case (1 e w1)
    then show ?case by (simp add: fail)
  next
    case (2 k w1)
    show ?case
    proof (cases "add_items (se_hostId E) k additions ?kept")
      case (Inl e)
      with 2 show ?thesis by (auto simp: wp_steps intro!: fail)
    next
      case (Inr items)
      have valid: "list_all (\<lambda>i. validItem i (se_hostId E)) items" by (rule add_items_valid[OF Inr kept])
      have "wp (spool_persist E items) (\<lambda>r w'. case r of Inl e \<Rightarrow> Q (Inl e) w'
          | Inr a \<Rightarrow> Q (Inr ()) (w'\<lparr>sw_items := items, sw_hasPersistedItems := sw_hasPersistedItems w' \<or> 0 < length items\<rparr>)) w1"
      proof (rule wp_persist_items[OF valid], goal_cases)
        case 1
        then show ?case using 2 by simp
      next
        case (2 e w2)
        then have "same_world w w2" "\<not> healthy E w" using \<open>same_world w w1\<close> \<open>healthy E w \<Longrightarrow> healthy E w1\<close> by (blast intro: same_world_trans)+
        then show ?case by (simp add: fail)
      next
        case (3 w2 f)
        show ?case
          using did[OF _ _ _ _ Inr, of "w2\<lparr>sw_items := items, sw_hasPersistedItems := sw_hasPersistedItems w2 \<or> 0 < length items\<rparr>"]
            2 3 \<open>same_world w w1\<close> valid
          by (simp add: same_defs spool_inv_iff)
      next
        case (4 e w2)
        then show ?case using tear[OF torn_same[OF \<open>same_world w w1\<close>] Inr] by simp
      qed
      then show ?thesis using Inr by (simp add: wp_steps cong: sum.case_cong)
    qed
  qed
qed

lemma wp_removeMany:
  assumes "spool_inv E w"
    and "\<And>e w'. same_world w w' \<Longrightarrow> \<not> healthy E w \<Longrightarrow> Q (Inl e) w'"
    and "\<And>w'. same_store w w' \<Longrightarrow> (healthy E w \<Longrightarrow> healthy E w') \<Longrightarrow> spool_inv E w'
      \<Longrightarrow> sw_items w' = filter (\<lambda>i. si_spoolItemId i \<notin> set ids) (sw_items w) \<Longrightarrow> Q (Inr ()) w'"
    and "\<And>e w'. torn E (filter (\<lambda>i. si_spoolItemId i \<notin> set ids) (sw_items w)) w w' \<Longrightarrow> Q (Inl e) w'"
  shows "wp (spool_removeMany E ids) Q w"
  unfolding spool_removeMany_def by (rule wp_replace[OF assms(1)]) (auto intro: assms(2-4))

lemma wp_remove:
  assumes "spool_inv E w"
    and "\<And>e w'. same_world w w' \<Longrightarrow> \<not> healthy E w \<Longrightarrow> Q (Inl e) w'"
    and "\<And>w'. same_store w w' \<Longrightarrow> (healthy E w \<Longrightarrow> healthy E w') \<Longrightarrow> spool_inv E w'
      \<Longrightarrow> sw_items w' = filter (\<lambda>i. si_spoolItemId i \<noteq> itemId) (sw_items w) \<Longrightarrow> Q (Inr ()) w'"
    and "\<And>e w'. torn E (filter (\<lambda>i. si_spoolItemId i \<noteq> itemId) (sw_items w)) w w' \<Longrightarrow> Q (Inl e) w'"
  shows "wp (spool_remove E itemId) Q w"
  unfolding spool_remove_def by (rule wp_replace[OF assms(1)]) (auto intro: assms(2-4))

lemma wp_enqueue:
  assumes inv: "spool_inv E w"
    and fail: "\<And>e w'. same_world w w' \<Longrightarrow> \<not> healthy E w \<or> find_item (sw_items w) (in_spoolItemId input) \<noteq> None
      \<Longrightarrow> Q (Inl e) w'"
    and old: "\<And>item w'. same_world w w' \<Longrightarrow> (healthy E w \<Longrightarrow> healthy E w') \<Longrightarrow> find_item (sw_items w) (in_spoolItemId input) = Some item
      \<Longrightarrow> si_sessionId item = in_sessionId input \<Longrightarrow> si_eventId item = in_eventId input
      \<Longrightarrow> si_payloadKind item = in_payloadKind input \<Longrightarrow> Q (Inr item) w'"
    and new: "\<And>k item w'. same_store w w' \<Longrightarrow> (healthy E w \<Longrightarrow> healthy E w') \<Longrightarrow> spool_inv E w' \<Longrightarrow> item = seal_item (se_hostId E) k input
      \<Longrightarrow> find_item (sw_items w) (in_spoolItemId input) = None
      \<Longrightarrow> sw_items w' = sw_items w @ [item] \<Longrightarrow> Q (Inr item) w'"
    and tear: "\<And>k e w'. torn E (sw_items w @ [seal_item (se_hostId E) k input]) w w'
      \<Longrightarrow> find_item (sw_items w) (in_spoolItemId input) = None \<Longrightarrow> Q (Inl e) w'"
  shows "wp (spool_enqueue E input) Q w"
proof (cases "assertStateStoreAccess (sw_store w)")
  case (Inl e)
  then show ?thesis by (auto simp: spool_enqueue_def wp_steps healthy_def intro!: fail)
next
  case (Inr u)
  show ?thesis
  proof (cases "find_item (sw_items w) (in_spoolItemId input)")
    case (Some item)
    then show ?thesis by (auto simp: spool_enqueue_def wp_steps wp_if Inr intro!: fail old)
  next
    case None
    show ?thesis
      unfolding spool_enqueue_def wp_steps Inr
    proof (simp add: None wp_steps Let_def, rule wp_key, goal_cases)
      case (1 e w1)
      then show ?case by (simp add: fail)
    next
      case (2 k w1)
      let ?item = "seal_item (se_hostId E) k input"
      let ?items = "sw_items w @ [?item]"
      have valid: "list_all (\<lambda>i. validItem i (se_hostId E)) ?items"
        using inv by (simp add: spool_inv_iff)
      have "wp (spool_persist E ?items) (\<lambda>r w'. case r of Inl e \<Rightarrow> Q (Inl e) w'
          | Inr a \<Rightarrow> Q (Inr ?item) (w'\<lparr>sw_items := ?items, sw_hasPersistedItems := True\<rparr>)) w1"
      proof (rule wp_persist_items[OF valid], goal_cases)
        case 1
        then show ?case using 2 by simp
      next
        case (2 e w2)
        then have "same_world w w2" "\<not> healthy E w"
          using \<open>same_world w w1\<close> \<open>healthy E w \<Longrightarrow> healthy E w1\<close> by (blast intro: same_world_trans)+
        then show ?case by (simp add: fail)
      next
        case (3 w2 f)
        show ?case
          using new[of "w2\<lparr>sw_items := ?items, sw_hasPersistedItems := True\<rparr>" ?item k]
            2 3 \<open>same_world w w1\<close> valid None
          by (simp add: same_defs spool_inv_iff)
      next
        case (4 e w2)
        then show ?case using tear[OF torn_same[OF \<open>same_world w w1\<close>]] None by simp
      qed
      then show ?case by (simp add: wp_steps cong: sum.case_cong)
    qed
  qed
qed

lemma find_item_Some: "find_item items i = Some item \<Longrightarrow> item \<in> set items \<and> si_spoolItemId item = i"
  by (auto simp: find_item_def find_Some_iff)

lemma find_item_None: "find_item items i = None \<longleftrightarrow> i \<notin> si_spoolItemId ` set items"
  by (auto simp: find_item_def find_None_iff)

lemma find_item_mem:
  "distinct (map si_spoolItemId items) \<Longrightarrow> item \<in> set items \<Longrightarrow> find_item items (si_spoolItemId item) = Some item"
  by (metis distinct_map find_item_None find_item_Some image_eqI inj_onD not_None_eq)

lemma wp_get:
  assumes "\<And>e. \<not> healthy E w \<Longrightarrow> Q (Inl e) w" and "Q (Inr (find_item (sw_items w) i)) w"
  shows "wp (spool_get i) Q w"
  using assms healthy_access[of E w]
  by (cases "assertStateStoreAccess (sw_store w)") (auto simp: spool_get_def wp_steps)

lemma wp_open:
  assumes "\<And>e w'. same_world w w' \<Longrightarrow> Q (Inl e) w'"
    and "\<And>k p w'. same_world w w' \<Longrightarrow> find_item (sw_items w) (si_spoolItemId item) = Some item
      \<Longrightarrow> aead_open k item = ok p \<Longrightarrow> Q (Inr p) w'"
  shows "wp (spool_open E item) Q w"
proof (cases "assertStateStoreAccess (sw_store w)")
  case (Inl e)
  then show ?thesis by (simp add: spool_open_def wp_steps assms)
next
  case (Inr u)
  show ?thesis
    unfolding spool_open_def wp_steps Inr
  proof (simp add: wp_if wp_steps, intro conjI impI, goal_cases)
    case 1
    then show ?case by (simp add: assms)
  next
    case 2
    show ?case
    proof (rule wp_key, goal_cases)
      case (2 k w')
      with \<open>find_item (sw_items w) (si_spoolItemId item) = Some item \<and> validItem item (se_hostId E)\<close> show ?case using assms by (cases "aead_open k item") (auto simp: wp_steps)
    qed (simp add: assms)
  qed
qed

subsection \<open>Rules of the shell\<close>

lemma wp_persist:
  assumes path: "st_has_path (sw_store w)"
    and "\<And>e w'. same_world w w' \<Longrightarrow> \<not> healthy E w \<Longrightarrow> Q (Inl e) w'"
    and "\<And>r w'. same_spool w w' \<Longrightarrow> sw_store w' = (sw_store w)\<lparr>st_disk := st_live (sw_store w)\<rparr>
      \<Longrightarrow> (healthy E w \<Longrightarrow> healthy E w' \<and> r = ok ()) \<Longrightarrow> Q r w'"
  shows "wp (shell_persist E) Q w"
proof -
  have "store_persist (se_write E n) (sw_store w) = (ok (), (sw_store w)\<lparr>st_disk := st_live (sw_store w)\<rparr>)"
    if "healthy E w" for n
    using that path by (simp add: store_persist_def healthy_read healthy_access healthy_write write_state_def)
  then show ?thesis
    unfolding shell_persist_def wp_steps
    by (rule_tac store_persist_cases[of "se_write E (sw_tick w)" "sw_store w"])
      (use path in \<open>auto simp: wp_def same_defs intro: assms(2,3)\<close>)
qed

lemma wp_commit:
  assumes path: "st_has_path (sw_store w)"
    and "\<And>e w'. same_world w w' \<Longrightarrow> \<not> healthy E w \<Longrightarrow> Q (Inl e) w'"
    and "\<And>e w'. same_spool w w' \<Longrightarrow> sw_store w' = (sw_store w)\<lparr>st_disk := s\<rparr> \<Longrightarrow> \<not> healthy E w \<Longrightarrow> Q (Inl e) w'"
    and "\<And>w'. same_spool w w' \<Longrightarrow> sw_store w' = (sw_store w)\<lparr>st_disk := s, st_live := s\<rparr>
      \<Longrightarrow> (healthy E w \<Longrightarrow> healthy E w') \<Longrightarrow> Q (Inr ()) w'"
  shows "wp (shell_commit E s) Q w"
proof -
  have "store_commit (se_write E n) s (sw_store w) = (ok (), (sw_store w)\<lparr>st_disk := s, st_live := s\<rparr>)"
    if "healthy E w" for n
    using that path by (simp add: store_commit_def healthy_access healthy_write write_state_def)
  then show ?thesis
    unfolding shell_commit_def wp_steps
    by (rule_tac store_commit_cases[of "se_write E (sw_tick w)" s "sw_store w"])
      (use path in \<open>auto simp: wp_def same_defs intro: assms(2-4)\<close>)
qed

lemma wp_state:
  assumes "\<And>e. \<not> healthy E w \<Longrightarrow> Q (Inl e) w" and "Q (Inr (st_live (sw_store w))) w"
  shows "wp shell_state Q w"
  using assms read_state_live[of "sw_store w"] healthy_read[of E w]
  by (cases "read_state (sw_store w)") (auto simp: wp_basic)

lemma wp_reservation:
  assumes "\<And>e. \<not> healthy E w \<Longrightarrow> Q (Inl e) w"
    and "Q (Inr (oget (opt_object (bs_producerEventReservations (st_live (sw_store w))))
      (producerReservationKey sessionId fingerprint))) w"
  shows "wp (getProducerEventReservation sessionId fingerprint) Q w"
  unfolding getProducerEventReservation_def wp_bind
  by (rule wp_state[where E = E]) (simp_all add: wp_basic assms)

lemma wp_json:
  assumes "sw_spoolReady w"
    and "\<And>e w'. same_world w w' \<Longrightarrow> \<not> healthy E w \<or> find_item (sw_items w) i \<noteq> None \<Longrightarrow> Q (Inl e) w'"
    and "find_item (sw_items w) i = None \<Longrightarrow> Q (Inr None) w"
    and "\<And>k p item w'. same_world w w' \<Longrightarrow> find_item (sw_items w) i = Some item
      \<Longrightarrow> aead_open k item = ok p \<Longrightarrow> Q (Inr (Some p)) w'"
  shows "wp (openSpoolJson E i) Q w"
  unfolding openSpoolJson_def wp_with_spool wp_bind
proof (simp only: assms(1) if_True, rule wp_get[where E = E], goal_cases)
  case (1 e)
  then show ?case by (simp add: assms(2))
next
  case 2
  show ?case
  proof (cases "find_item (sw_items w) i")
    case None
    then show ?thesis by (simp add: wp_pure assms(3))
  next
    case (Some item)
    have "wp (sh_bind (spool_open E item) (\<lambda>p. if p = Not_json then sh_throw (PlainError ''SyntaxError'') else sh_return (Some p))) Q w"
      unfolding wp_bind
      by (rule wp_open) (use Some in \<open>auto simp: wp_pure intro: assms(2,4)\<close>)
    then show ?thesis using Some by simp
  qed
qed

end
