(* ===== verification/Spool_Completion.thy ===== *)
theory Spool_Completion
  imports Spool_Files Store_Values
begin

section \<open>Completing an upload, whatever fails\<close>

text \<open>
  A world is steady when the Bridge starts both from the state in memory and from the state file,
  each with the items of the spool, in the file and in memory. It is safe when the Bridge starts from both
  with the items of the spool file. The lemmas show that every step of \<open>completeEventUpload\<close> leaves a
  steady world, or reports an error and leaves a safe one, whatever the writes and the key store do, and
  what a completed run leaves.
\<close>

definition starts :: "wire_port \<Rightarrow> spool_env \<Rightarrow> bridge_state \<Rightarrow> spool_item list \<Rightarrow> bool" where
  "starts P E s items \<longleftrightarrow> startable P (se_hostId E) s \<and> spool_related s items"

definition steady :: "wire_port \<Rightarrow> spool_env \<Rightarrow> spool_world \<Rightarrow> bool" where
  "steady P E w \<longleftrightarrow> sw_spoolReady w \<and> st_has_path (sw_store w) \<and> spool_inv E w
    \<and> starts P E (st_live (sw_store w)) (sw_items w) \<and> starts P E (st_disk (sw_store w)) (sw_items w)"

definition safe :: "wire_port \<Rightarrow> spool_env \<Rightarrow> spool_world \<Rightarrow> bool" where
  "safe P E w \<longleftrightarrow> (\<exists>items. file_holds E items w \<and> starts P E (st_live (sw_store w)) items
    \<and> starts P E (st_disk (sw_store w)) items)"

abbreviation live_of :: "spool_world \<Rightarrow> bridge_state" where
  "live_of w \<equiv> st_live (sw_store w)"

abbreviation disk_of :: "spool_world \<Rightarrow> bridge_state" where
  "disk_of w \<equiv> st_disk (sw_store w)"

lemma steadyD:
  assumes "steady P E w"
  shows "sw_spoolReady w" "st_has_path (sw_store w)" "spool_inv E w"
    "starts P E (live_of w) (sw_items w)" "starts P E (disk_of w) (sw_items w)"
  using assms by (simp_all add: steady_def)

lemma steady_same: "same_world w w' \<Longrightarrow> steady P E w' = steady P E w"
  using spool_inv_same[of w w' E] by (simp add: steady_def same_defs)

lemma steady_safe [simp]: "steady P E w \<Longrightarrow> safe P E w"
  by (auto simp: steady_def safe_def spool_inv_def)

lemma starts_loads: "starts P E s items \<Longrightarrow> assertCurrentRuntimeRelationships P s items (se_hostId E) = ok ()"
  by (simp add: assert_runtime_iff starts_def startable_iff consistent_iff)

text \<open>The start: the state is read and checked, then the file of the spool with it.\<close>

definition next_start :: "wire_port \<Rightarrow> spool_env \<Rightarrow> bridge_state \<Rightarrow> spool_world \<Rightarrow> bool" where
  "next_start P E s w \<longleftrightarrow> parseCurrentState P s (Some (se_hostId E)) = ok s
    \<and> (\<exists>items. file_holds E items w \<and> assertCurrentRuntimeRelationships P s items (se_hostId E) = ok ())"

lemma safe_next_start: "safe P E w \<Longrightarrow> next_start P E (live_of w) w \<and> next_start P E (disk_of w) w"
  unfolding safe_def next_start_def using starts_loads by (force simp: starts_def startable_def)

text \<open>A spool step that was torn: the state starts with the items it wanted.\<close>

lemma torn_safe:
  assumes "torn E items w w'" and "starts P E (live_of w) items" and "starts P E (disk_of w) items"
  shows "safe P E w'"
  using assms by (auto simp: torn_def safe_def same_store_def)

subsection \<open>Removing items\<close>

lemma find_item_filter: "find_item (filter (\<lambda>i. si_spoolItemId i \<notin> ids) items) k =
    (if k \<in> ids then None else find_item items k)"
  unfolding find_item_def by (induction items) auto

text \<open>Removing items that are not reservations, or with a reservation also the journal items that rest
  on it, leaves the rest related.\<close>

lemma recoverable_intent_find: "recoverable_intent s items item \<longleftrightarrow>
    map_option pr_sessionId (reservation_of s (si_eventId item)) = Some (si_sessionId item)
    \<and> (case si_eventId item of None \<Rightarrow> False | Some e \<Rightarrow>
        (case find_item items e of None \<Rightarrow> False
         | Some source \<Rightarrow> si_payloadKind source = Event_reservation \<and> si_eventId source = si_eventId item
            \<and> si_sessionId source = si_sessionId item))"
proof -
  have "find (\<lambda>c. Some (si_spoolItemId c) = si_eventId item) items =
      (case si_eventId item of None \<Rightarrow> None | Some e \<Rightarrow> find_item items e)"
    unfolding find_item_def by (induction items) (auto split: option.split)
  then show ?thesis by (auto simp: recoverable_intent_def split: option.split)
qed

text \<open>The check of an item reads the state through three lookups, and the other items only for a
  journal item of a cancellation.\<close>

lemma check_item_cong:
  assumes "session_mismatch s' item = session_mismatch s item"
    and "reservation_of s' (si_eventId item) = reservation_of s (si_eventId item)"
    and "cancellation_of s' (si_eventId item) = cancellation_of s (si_eventId item)"
    and "si_payloadKind item = Terminal_cancellation \<Longrightarrow>
      recoverable_intent s' items' item = recoverable_intent s items item"
  shows "check_item s' items' item = check_item s items item"
proof (cases "si_payloadKind item = Terminal_cancellation")
  case True
  then show ?thesis using assms by (simp add: check_item_def)
next
  case False
  then show ?thesis using assms(1-3) by (cases "si_payloadKind item") (simp_all add: check_item_def)
qed

lemma check_item_fields:
  assumes "bs_recentEvents s' = bs_recentEvents s"
    and "bs_producerEventReservations s' = bs_producerEventReservations s"
    and "bs_terminalCancellations s' = bs_terminalCancellations s"
  shows "check_item s' items item = check_item s items item"
  by (rule check_item_cong)
    (use assms in \<open>simp_all add: session_mismatch_def reservation_of_def cancellation_of_def
      recoverable_intent_def cong: option.case_cong\<close>)

lemma check_cancellation_item:
  "si_payloadKind item = Terminal_cancellation \<Longrightarrow> check_item s items item = ok () \<longleftrightarrow>
    truthy (si_eventId item) \<noteq> None \<and> si_spoolItemId item = prefixed_id ''cancel:terminal:'' (si_eventId item)
    \<and> (case cancellation_of s (si_eventId item) of
         None \<Rightarrow> recoverable_intent s items item | Some c \<Rightarrow> tc_sessionId c = si_sessionId item)"
  by (auto simp: check_item_def event_kind_def split: option.splits)

lemma remove_items_related:
  assumes rel: "spool_related s items"
    and keep: "\<And>e item. e \<in> ids \<Longrightarrow> find_item items e = Some item \<Longrightarrow> si_payloadKind item = Event_reservation
      \<Longrightarrow> prefixed_id ''cancel:terminal:'' (Some e) \<in> ids"
  shows "spool_related s (filter (\<lambda>i. si_spoolItemId i \<notin> ids) items)"
proof -
  let ?kept = "filter (\<lambda>i. si_spoolItemId i \<notin> ids) items"
  have "check_item s ?kept item = ok ()" if item: "item \<in> set ?kept" for item
  proof -
    have old: "check_item s items item = ok ()" using rel item by (simp add: spool_related_def)
    show ?thesis
    proof (cases "si_payloadKind item = Terminal_cancellation")
      case True
      note old = old[unfolded check_cancellation_item[OF True]]
      have "recoverable_intent s items item \<Longrightarrow> recoverable_intent s ?kept item"
        using keep item old
        by (auto simp: recoverable_intent_find find_item_filter split: option.splits)
      with old show ?thesis by (auto simp: check_cancellation_item[OF True] split: option.splits)
    next
      case False
      then show ?thesis using old check_item_cong[of s item s ?kept items] by simp
    qed
  qed
  moreover have "completion_spooled items c \<Longrightarrow> completion_spooled ?kept c" for c
    by (auto simp: completion_spooled_def find_item_filter)
  ultimately show ?thesis
    using rel by (auto simp: spool_related_def intro: distinct_map_filter)
qed

lemma remove_item_starts:
  assumes "starts P E s items"
    and "\<And>item. find_item items k = Some item \<Longrightarrow> si_payloadKind item \<noteq> Event_reservation"
  shows "starts P E s (filter (\<lambda>i. si_spoolItemId i \<noteq> k) items)"
  using assms remove_items_related[of s items "{k}"] by (auto simp: starts_def)

subsection \<open>The completions of a state\<close>

lemma opt_drop_empty [simp]: "opt_object (drop_empty m) = opt_object m"
  by (auto simp: drop_empty_def)

lemma opt_map_odel [simp]: "opt_object (map_option (odel k) m) = odel k (opt_object m)"
  by (cases m) (simp_all add: odel_def)

lemma spool_related_completions:
  assumes "spool_related s items"
    and "\<And>c. c \<in> set (ovalues (opt_object C)) \<Longrightarrow> completion_spooled items c"
  shows "spool_related (s\<lparr>bs_eventUploadCompletions := C\<rparr>) items"
proof -
  have "check_item (s\<lparr>bs_eventUploadCompletions := C\<rparr>) items item = check_item s items item" for item
    by (rule check_item_fields) simp_all
  then show ?thesis using assms by (simp add: spool_related_def)
qed

lemma starts_completions:
  assumes "starts P E s items" and "oinv (opt_object C)"
    and "\<And>k c. (k, c) \<in> set (opt_object C) \<Longrightarrow> completion_bound s (k, c)"
    and "\<And>c. c \<in> set (ovalues (opt_object C)) \<Longrightarrow> completion_spooled items c"
    and "isValueMap isCurrentEventCompletion (opt_object C)"
  shows "starts P E (s\<lparr>bs_eventUploadCompletions := C\<rparr>) items"
proof -
  have "completions_related (s\<lparr>bs_eventUploadCompletions := C\<rparr>)"
    using assms(3)
    by (fastforce simp: completions_related_def completion_bound_def event_of_def readCurrentSessionRevision_def)
  then show ?thesis
    using assms spool_related_completions[of s items C]
    by (simp add: starts_def startable_iff consistent_iff related_def objects_ok_def record_values_def)
qed

lemma starts_completion_entry:
  assumes "starts P E s items" and "completion_of s k = Some c"
  shows "completion_bound s (k, c)" and "completion_spooled items c" and "ec_eventId c = k"
    and "isCurrentEventCompletion c"
proof -
  have mem: "(k, c) \<in> set (opt_object (bs_eventUploadCompletions s))"
    using assms(2) by (simp add: completion_of_def oget_SomeD)
  then show b: "completion_bound s (k, c)"
    using assms(1) by (auto simp: starts_def startable_iff consistent_iff related_def completions_related_def)
  show "completion_spooled items c"
    using assms(1) mem by (force simp: starts_def spool_related_def ovalues_def)
  show "ec_eventId c = k" using b by (simp add: completion_bound_def Let_def)
  show "isCurrentEventCompletion c"
    using assms isValueMap_get by (fastforce simp: starts_def startable_iff record_values_def completion_of_def)
qed

lemma completion_flags [simp]:
  "isCurrentEventCompletion (c\<lparr>ec_revisionCommitted := a\<rparr>) = isCurrentEventCompletion c"
  "isCurrentEventCompletion (c\<lparr>ec_inflightRemoved := a\<rparr>) = isCurrentEventCompletion c"
  "isCurrentEventCompletion (c\<lparr>ec_sourceRemoved := a\<rparr>) = isCurrentEventCompletion c"
  by (simp_all add: isCurrentEventCompletion_def)

lemma starts_completion_values:
  "starts P E s items \<Longrightarrow> isValueMap isCurrentEventCompletion (opt_object (bs_eventUploadCompletions s))"
  by (simp add: starts_def startable_iff record_values_def)

lemma put_completion_starts:
  assumes s: "starts P E s items" and "completion_bound s (k, c)" and "completion_spooled items c"
    and "isCurrentEventCompletion c"
  shows "starts P E (put_completion k c s) items"
  unfolding put_completion_def
proof (rule starts_completions[OF s])
  let ?m = "opt_object (bs_eventUploadCompletions s)"
  show "isValueMap isCurrentEventCompletion (opt_object (Some (oput k c ?m)))"
    using starts_completion_values[OF s] assms(4) by (simp add: isValueMap_oput)
  show "oinv (opt_object (Some (oput k c ?m)))"
    using s by (simp add: starts_def startable_iff consistent_iff objects_ok_def oinv_oput)
  show "completion_bound s (j, d)" if "(j, d) \<in> set (opt_object (Some (oput k c ?m)))" for j d
    using that set_oput[of k c ?m] s assms(2)
    by (auto simp: starts_def startable_iff consistent_iff related_def completions_related_def)
  show "completion_spooled items d" if "d \<in> set (ovalues (opt_object (Some (oput k c ?m))))" for d
    using that set_ovalues_oput[of k c ?m] s assms(3) by (auto simp: starts_def spool_related_def)
qed

lemma drop_completion_starts:
  assumes s: "starts P E s items"
  shows "starts P E (drop_completion k s) items"
  unfolding drop_completion_def
proof (rule starts_completions[OF s])
  show "isValueMap isCurrentEventCompletion (opt_object (drop_empty (map_option (odel k) (bs_eventUploadCompletions s))))"
    using starts_completion_values[OF s] by (simp add: isValueMap_odel)
next
  show "oinv (opt_object (drop_empty (map_option (odel k) (bs_eventUploadCompletions s))))"
    using s by (simp add: starts_def startable_iff consistent_iff objects_ok_def oinv_odel)
next
  fix j d assume "(j, d) \<in> set (opt_object (drop_empty (map_option (odel k) (bs_eventUploadCompletions s))))"
  then show "completion_bound s (j, d)"
    using s by (auto simp: set_odel starts_def startable_iff consistent_iff related_def completions_related_def)
next
  fix d assume "d \<in> set (ovalues (opt_object (drop_empty (map_option (odel k) (bs_eventUploadCompletions s)))))"
  then show "completion_spooled items d"
    using set_ovalues_odel[of k "opt_object (bs_eventUploadCompletions s)"] s
    by (auto simp: starts_def spool_related_def)
qed

lemma completion_of_put [simp]:
  "completion_of (put_completion k c s) j = (if j = k then Some c else completion_of s j)"
  by (simp add: completion_of_def put_completion_def oget_oput)

lemma completion_of_drop [simp]:
  "completion_of (drop_completion k s) j = (if j = k then None else completion_of s j)"
  by (simp add: completion_of_def drop_completion_def oget_odel)

lemma revisions_put [simp]:
  "readCurrentSessionRevision (put_completion k c s) i = readCurrentSessionRevision s i"
  "readCurrentSessionRevision (drop_completion k s) i = readCurrentSessionRevision s i"
  by (simp_all add: readCurrentSessionRevision_def put_completion_def drop_completion_def)

subsection \<open>The steps\<close>

text \<open>After a step that fails, which a healthy environment excludes, the world is steady; after one that
  succeeds the state in memory is the one the step wanted, and the file holds it too.\<close>

lemma wp_set_and_persist:
  assumes w: "steady P E w" and s: "starts P E s (sw_items w)"
    and fail: "\<And>e w'. steady P E w' \<Longrightarrow> \<not> healthy E w \<Longrightarrow> Q (Inl e) w'"
    and did: "\<And>w'. steady P E w' \<Longrightarrow> (healthy E w \<Longrightarrow> healthy E w') \<Longrightarrow> sw_items w' = sw_items w
      \<Longrightarrow> live_of w' = s \<Longrightarrow> disk_of w' = s \<Longrightarrow> Q (Inr ()) w'"
  shows "wp (sh_bind (shell_set_state s) (\<lambda>_. shell_persist E)) Q w"
proof -
  let ?w = "w\<lparr>sw_store := (sw_store w)\<lparr>st_live := s\<rparr>\<rparr>"
  note d = steadyD[OF w]
  have steady: "steady P E ?w" using d s by (simp add: steady_def)
  have "wp (shell_persist E) Q ?w"
  proof (rule wp_persist, goal_cases)
    case 1
    then show ?case using d by simp
  next
    case (2 e w')
    then show ?case using steady steady_same[of ?w w'] by (intro fail) auto
  next
    case (3 r w')
    then have "steady P E w'" "sw_items w' = sw_items w" "live_of w' = s" "disk_of w' = s"
      using d s spool_inv_same[of ?w w' E] by (auto simp: steady_def same_spool_def)
    then show ?case using fail did 3(3) by (cases r) auto
  qed
  then show ?thesis by (simp add: wp_bind wp_set_state)
qed

lemma wp_update_completion:
  assumes w: "steady P E w" and c: "completion_of (live_of w) k = Some c"
    and s: "starts P E (put_completion k (patch c) (live_of w)) (sw_items w)"
    and fail: "\<And>e w'. steady P E w' \<Longrightarrow> \<not> healthy E w \<Longrightarrow> Q (Inl e) w'"
    and did: "\<And>w'. steady P E w' \<Longrightarrow> (healthy E w \<Longrightarrow> healthy E w') \<Longrightarrow> sw_items w' = sw_items w
      \<Longrightarrow> live_of w' = put_completion k (patch c) (live_of w) \<Longrightarrow> disk_of w' = live_of w' \<Longrightarrow> Q (Inr (patch c)) w'"
  shows "wp (updateEventCompletion E k patch) Q w"
  unfolding updateEventCompletion_def wp_bind
proof (rule wp_state[where E = E], goal_cases)
  case (1 e)
  then show ?case using fail w by simp
next
  case 2
  have "wp (sh_bind (shell_set_state (put_completion k (patch c) (live_of w))) (\<lambda>_. shell_persist E))
      (\<lambda>r w'. case r of Inl e \<Rightarrow> Q (Inl e) w' | Inr a \<Rightarrow> Q (Inr (patch c)) w') w"
    by (rule wp_set_and_persist[OF w s]) (auto intro: fail did)
  then show ?case by (simp add: c wp_steps cong: sum.case_cong)
qed

lemma wp_remove_step:
  assumes w: "steady P E w"
    and kind: "\<And>item. find_item (sw_items w) k = Some item \<Longrightarrow> si_payloadKind item \<noteq> Event_reservation"
    and fail: "\<And>e w'. safe P E w' \<Longrightarrow> \<not> healthy E w \<Longrightarrow> Q (Inl e) w'"
    and did: "\<And>w'. steady P E w' \<Longrightarrow> (healthy E w \<Longrightarrow> healthy E w') \<Longrightarrow> sw_store w' = sw_store w
      \<Longrightarrow> sw_items w' = filter (\<lambda>i. si_spoolItemId i \<noteq> k) (sw_items w) \<Longrightarrow> Q (Inr ()) w'"
  shows "wp (remove_if_spool E k) Q w"
  unfolding remove_if_spool_def wp_with_spool
proof (simp add: steadyD(1)[OF w], rule wp_remove, goal_cases)
  case 1
  show ?case by (rule steadyD(3)[OF w])
next
  case (2 e w')
  then show ?case using fail w steady_same steady_safe by blast
next
  case (4 e w')
  have "starts P E s (sw_items w) \<Longrightarrow> starts P E s (filter (\<lambda>i. si_spoolItemId i \<noteq> k) (sw_items w))" for s
    using remove_item_starts[of P E s "sw_items w" k] kind by simp
  then have "safe P E w'" using steadyD(4,5)[OF w] by (intro torn_safe[OF 4])
  then show ?case using fail torn_unhealthy[OF 4] by simp
next
  case (3 w')
  have "starts P E s (sw_items w) \<Longrightarrow> starts P E s (sw_items w')" for s
    using remove_item_starts[of P E s "sw_items w" k] kind 3(4) by simp
  then have "steady P E w'"
    using 3 steadyD[OF w] by (simp add: steady_def same_store_def)
  then show ?case using did 3 by (simp add: same_store_def)
qed

lemma starts_revisions:
  assumes "starts P E s items" and "commitSessionRevisionTransition s sessionId revision = Inr (n, r)"
    and "revision_guard sessionId revision s" and "is_safe_integer revision"
  shows "starts P E (resulting s n) items"
proof -
  have n: "resulting s n = s \<or> (\<exists>R. resulting s n = s\<lparr>bs_sessionRevisions := R\<rparr>)"
    using assms(2) by (auto simp: commitSessionRevisionTransition_def Let_def split: if_splits)
  have "consistent P (se_hostId E) (resulting s n)"
    using assms by (intro commit_revision_keeps[OF _ assms(3,2)]) (simp add: starts_def startable_iff)
  moreover have "record_values (resulting s n)"
    using assms by (intro commit_values[OF _ assms(4,2)]) (simp add: starts_def startable_iff)
  moreover have "check_item (s\<lparr>bs_sessionRevisions := R\<rparr>) items item = check_item s items item" for R item
    by (rule check_item_fields) simp_all
  ultimately show ?thesis
    using n assms(1)
    by (auto simp: starts_def startable_iff spool_related_def)
qed

lemma wp_commit_revision:
  assumes w: "steady P E w" and g: "revision_guard sessionId revision (live_of w)" and safe: "is_safe_integer revision"
    and next_revision: "revision = readCurrentSessionRevision (live_of w) sessionId
      \<or> revision = readCurrentSessionRevision (live_of w) sessionId + 1"
    and fail: "\<And>e w'. steady P E w' \<Longrightarrow> \<not> healthy E w \<Longrightarrow> Q (Inl e) w'"
    and did: "\<And>w' R. steady P E w' \<Longrightarrow> (healthy E w \<Longrightarrow> healthy E w') \<Longrightarrow> sw_items w' = sw_items w
      \<Longrightarrow> live_of w' = (live_of w)\<lparr>bs_sessionRevisions := R\<rparr>
      \<Longrightarrow> readCurrentSessionRevision (live_of w') sessionId = revision \<Longrightarrow> Q (Inr ()) w'"
  shows "wp (commitSessionRevision E sessionId revision) Q w"
proof (cases "read_state (sw_store w)")
  case (Inl e)
  then have "\<not> healthy E w" using healthy_read[of E w] by auto
  then show ?thesis
    using fail[of "w\<lparr>sw_tick := Suc (sw_tick w)\<rparr>"] w steady_same[of w "w\<lparr>sw_tick := Suc (sw_tick w)\<rparr>"] Inl
    by (simp add: commitSessionRevision_def sh_bind_def tick_def applyTransition_def wp_def same_defs)
next
  case (Inr s)
  then have s: "s = live_of w" by (rule read_state_live)
  note d = steadyD[OF w]
  let ?t = "commitSessionRevisionTransition (live_of w) sessionId revision"
  show ?thesis
  proof (cases ?t rule: transition_cases)
    case (1 e)
    then show ?thesis
      using next_revision by (auto simp: commitSessionRevisionTransition_def Let_def split: if_splits)
  next
    case (2 r)
    have "readCurrentSessionRevision (live_of w) sessionId = revision"
      using 2 by (auto simp: commitSessionRevisionTransition_def Let_def split: if_splits)
    then show ?thesis
      using did[of "w\<lparr>sw_tick := Suc (sw_tick w)\<rparr>" "bs_sessionRevisions (live_of w)"] 2 w
        steady_same[of w "w\<lparr>sw_tick := Suc (sw_tick w)\<rparr>"] Inr s
      by (simp add: commitSessionRevision_def sh_bind_def tick_def applyTransition_def wp_def same_defs)
  next
    case (3 s' r)
    have s': "s' = (live_of w)\<lparr>bs_sessionRevisions := oput sessionId revision (bs_sessionRevisions (live_of w))\<rparr>"
      using 3 by (auto simp: commitSessionRevisionTransition_def Let_def split: if_splits)
    have st: "starts P E s' (sw_items w)"
      using starts_revisions[OF d(4) 3 g safe] by simp
    let ?store = "(sw_store w)\<lparr>st_live := s'\<rparr>"
    have run: "commitSessionRevision E sessionId revision w =
        (fst (store_persist (se_write E (sw_tick w)) ?store),
         w\<lparr>sw_tick := Suc (sw_tick w), sw_store := snd (store_persist (se_write E (sw_tick w)) ?store)\<rparr>)"
      using Inr s 3
      by (auto simp: commitSessionRevision_def sh_bind_def tick_def applyTransition_def split: prod.split sum.split)
    have fin: "steady P E (w\<lparr>sw_tick := Suc (sw_tick w), sw_store := ?store\<rparr>)"
      "steady P E (w\<lparr>sw_tick := Suc (sw_tick w), sw_store := ?store\<lparr>st_disk := s'\<rparr>\<rparr>)"
      using d st by (simp_all add: steady_def)
    have good: "healthy E w \<Longrightarrow> is_ok (fst (store_persist (se_write E (sw_tick w)) ?store))"
      using d(2)
      by (auto simp: store_persist_def read_state_def write_state_def healthy_def assertStateStoreAccess_def split: if_splits)
    show ?thesis
      by (rule store_persist_cases[of "se_write E (sw_tick w)" ?store])
        (use fin d good in \<open>auto simp: wp_def run s' readCurrentSessionRevision_put intro!: fail did\<close>)
  qed
qed

subsection \<open>The whole workflow\<close>

text \<open>Between two steps (\<open>H\<close>: the environment is healthy): the completion of \<open>k\<close> has the identity it started with, the others are as
  they were.\<close>

definition between :: "wire_port \<Rightarrow> spool_env \<Rightarrow> bool \<Rightarrow> jsstring \<Rightarrow> bridge_state \<Rightarrow> event_completion \<Rightarrow> spool_world
    \<Rightarrow> event_completion \<Rightarrow> bool" where
  "between P E H k s0 c0 w c \<longleftrightarrow> steady P E w \<and> (H \<longrightarrow> healthy E w) \<and> completion_of (live_of w) k = Some c
    \<and> ec_sessionId c = ec_sessionId c0 \<and> ec_revision c = ec_revision c0
    \<and> (\<forall>j. j \<noteq> k \<longrightarrow> completion_of (live_of w) j = completion_of s0 j)"

lemma between_steady: "between P E H k s0 c0 w c \<Longrightarrow> steady P E w"
  by (simp add: between_def)

lemma between_bound:
  assumes "between P E H k s0 c0 w c"
  shows "completion_bound (live_of w) (k, c)" "completion_spooled (sw_items w) c" "ec_eventId c = k"
    "isCurrentEventCompletion c"
  using assms starts_completion_entry[of P E "live_of w" "sw_items w" k c]
  by (auto simp: between_def steady_def)

text \<open>Setting a flag that the state and the spool bear out.\<close>

lemma between_flag:
  assumes b: "between P E H k s0 c0 w c" and w: "steady P E w'" and healthy: "H \<longrightarrow> healthy E w'"
    and frame: "\<And>j. completion_of (live_of w') j = completion_of (live_of w) j"
    and patch: "ec_eventId (patch c) = k" "ec_sessionId (patch c) = ec_sessionId c" "ec_revision (patch c) = ec_revision c"
      "isCurrentEventCompletion (patch c)"
    and bound: "completion_bound (live_of w') (k, patch c)" and spooled: "completion_spooled (sw_items w') (patch c)"
  shows "wp (updateEventCompletion E k patch)
    (\<lambda>r w''. case r of Inl e \<Rightarrow> safe P E w'' \<and> \<not> H | Inr c' \<Rightarrow> c' = patch c \<and> between P E H k s0 c0 w'' c'
      \<and> sw_items w'' = sw_items w') w'"
proof (rule wp_update_completion[OF w])
  show "completion_of (live_of w') k = Some c" using b frame by (simp add: between_def)
  show "starts P E (put_completion k (patch c) (live_of w')) (sw_items w')"
    by (rule put_completion_starts[OF steadyD(4)[OF w] bound spooled patch(4)])
qed (use b frame patch healthy in \<open>auto simp: between_def\<close>)

text \<open>No completion of the same Session in the journal has an older revision.\<close>

definition oldest_completion :: "bridge_state \<Rightarrow> jsstring \<Rightarrow> bool" where
  "oldest_completion s k \<longleftrightarrow> (case completion_of s k of None \<Rightarrow> True | Some c \<Rightarrow>
    list_all (\<lambda>d. ec_sessionId d = ec_sessionId c \<longrightarrow> ec_revision c \<le> ec_revision d)
      (ovalues (opt_object (bs_eventUploadCompletions s))))"

lemma revision_step:
  assumes b: "between P E H k s0 c0 w c" and oldest: "oldest_completion (live_of w) k"
  shows "wp (if ec_revisionCommitted c = Some True then sh_return c
      else sh_bind (commitSessionRevision E (ec_sessionId c) (ec_revision c)) (\<lambda>_.
        updateEventCompletion E k (\<lambda>c. c\<lparr>ec_revisionCommitted := Some True\<rparr>)))
    (\<lambda>r w'. case r of Inl e \<Rightarrow> safe P E w' \<and> \<not> H | Inr c' \<Rightarrow> between P E H k s0 c0 w' c' \<and> ec_revisionCommitted c' = Some True) w"
proof (cases "ec_revisionCommitted c = Some True")
  case True
  then show ?thesis using b by (simp add: wp_pure)
next
  case False
  note w = between_steady[OF b]
  have c: "completion_of (live_of w) k = Some c" using b by (simp add: between_def)
  let ?now = "readCurrentSessionRevision (live_of w) (ec_sessionId c)"
  have mine: "?now = ec_revision c \<or> ?now = ec_revision c - 1"
    using between_bound(1)[OF b] by (auto simp: completion_bound_def Let_def)
  have "ec_revision d = ec_revision c \<or> (ec_revisionCommitted d \<noteq> Some True \<and> ec_revision d = ec_revision c + 1)"
    if d: "(j, d) \<in> set (opt_object (bs_eventUploadCompletions (live_of w)))" "ec_sessionId d = ec_sessionId c" for j d
  proof -
    have "d \<in> set (ovalues (opt_object (bs_eventUploadCompletions (live_of w))))" using d(1) by (force simp: ovalues_def)
    then have "ec_revision c \<le> ec_revision d" using oldest c d(2) by (auto simp: oldest_completion_def list_all_iff)
    moreover have "completion_bound (live_of w) (j, d)"
      using steadyD(4)[OF w] d(1) by (auto simp: starts_def startable_iff consistent_iff related_def completions_related_def)
    ultimately show ?thesis using mine d(2) by (auto simp: completion_bound_def Let_def)
  qed
  then have guard: "revision_guard (ec_sessionId c) (ec_revision c) (live_of w)"
    by (auto simp: revision_guard_def)
  have safe: "is_safe_integer (ec_revision c)"
    using between_bound(4)[OF b] by (simp add: isCurrentEventCompletion_def isPositiveInteger_def)
  have next_revision: "ec_revision c = readCurrentSessionRevision (live_of w) (ec_sessionId c)
      \<or> ec_revision c = readCurrentSessionRevision (live_of w) (ec_sessionId c) + 1"
    using between_bound(1)[OF b] by (auto simp: completion_bound_def Let_def)
  have "wp (commitSessionRevision E (ec_sessionId c) (ec_revision c))
      (\<lambda>r w'. case r of Inl e \<Rightarrow> safe P E w' \<and> \<not> H | Inr u \<Rightarrow>
        wp (updateEventCompletion E k (\<lambda>c. c\<lparr>ec_revisionCommitted := Some True\<rparr>))
          (\<lambda>r w'. case r of Inl e \<Rightarrow> safe P E w' \<and> \<not> H | Inr c' \<Rightarrow> between P E H k s0 c0 w' c' \<and> ec_revisionCommitted c' = Some True) w') w"
  proof (rule wp_commit_revision[OF w guard safe next_revision])
    fix w' R
    assume w': "steady P E w'" "sw_items w' = sw_items w" "live_of w' = (live_of w)\<lparr>bs_sessionRevisions := R\<rparr>"
      "readCurrentSessionRevision (live_of w') (ec_sessionId c) = ec_revision c"
      and "healthy E w \<Longrightarrow> healthy E w'"
    then have h: "H \<longrightarrow> healthy E w'" using b by (simp add: between_def)
    let ?Q = "\<lambda>r w''. case r of Inl e \<Rightarrow> safe P E w'' \<and> \<not> H | Inr c' \<Rightarrow>
      c' = c\<lparr>ec_revisionCommitted := Some True\<rparr> \<and> between P E H k s0 c0 w'' c' \<and> sw_items w'' = sw_items w'"
    have "wp (updateEventCompletion E k (\<lambda>c. c\<lparr>ec_revisionCommitted := Some True\<rparr>)) ?Q w'"
    proof (rule between_flag[OF b w'(1) h])
      show "completion_bound (live_of w') (k, c\<lparr>ec_revisionCommitted := Some True\<rparr>)"
        using between_bound[OF b] w'(3,4)
        by (auto simp: completion_bound_def Let_def event_of_def cong: option.case_cong)
      show "completion_spooled (sw_items w') (c\<lparr>ec_revisionCommitted := Some True\<rparr>)"
        using between_bound[OF b] w'(2) by (simp add: completion_spooled_def cong: option.case_cong)
    qed (use between_bound[OF b] w'(3) in \<open>simp_all add: completion_of_def\<close>)
    then show "case ok () of Inl e \<Rightarrow> safe P E w' \<and> \<not> H | Inr u \<Rightarrow>
        wp (updateEventCompletion E k (\<lambda>c. c\<lparr>ec_revisionCommitted := Some True\<rparr>))
          (\<lambda>r w'. case r of Inl e \<Rightarrow> safe P E w' \<and> \<not> H | Inr c' \<Rightarrow> between P E H k s0 c0 w' c' \<and> ec_revisionCommitted c' = Some True) w'"
      by (auto elim!: wp_mono split: sum.splits)
  qed (use b in \<open>simp add: between_def\<close>)
  then show ?thesis using False by (simp add: wp_bind cong: sum.case_cong)
qed

lemma removal_step:
  assumes b: "between P E H k s0 c0 w c"
    and kind: "\<And>item. find_item (sw_items w) i = Some item \<Longrightarrow> si_payloadKind item \<noteq> Event_reservation"
    and flag: "\<And>items. find_item items i = None \<Longrightarrow> completion_spooled items c \<Longrightarrow> completion_spooled items (patch c)"
    and patch: "ec_eventId (patch c) = k" "ec_sessionId (patch c) = ec_sessionId c" "ec_revision (patch c) = ec_revision c"
      "isCurrentEventCompletion (patch c)"
    and bound: "completion_bound (live_of w) (k, patch c)"
  shows "wp (sh_bind (remove_if_spool E i) (\<lambda>_. updateEventCompletion E k patch))
    (\<lambda>r w'. case r of Inl e \<Rightarrow> safe P E w' \<and> \<not> H | Inr c' \<Rightarrow> c' = patch c \<and> between P E H k s0 c0 w' c') w"
  unfolding wp_bind
proof (rule wp_remove_step[OF between_steady[OF b] kind])
  fix w' assume "steady P E w'" and h: "healthy E w \<Longrightarrow> healthy E w'" and "sw_store w' = sw_store w"
    and items: "sw_items w' = filter (\<lambda>x. si_spoolItemId x \<noteq> i) (sw_items w)"
  then have w': "steady P E w'" "H \<longrightarrow> healthy E w'" "sw_store w' = sw_store w"
    using b by (auto simp: between_def)
  have "find_item (sw_items w') j = (if j = i then None else find_item (sw_items w) j)" for j
    using find_item_filter[of "{i}" "sw_items w" j] items by simp
  then have "completion_spooled (sw_items w') (patch c)"
    using between_bound(2)[OF b] by (intro flag) (auto simp: completion_spooled_def)
  from between_flag[where patch = patch, OF b w'(1) w'(2) _ patch _ this] bound w'(3)
  show "case ok () of Inl e \<Rightarrow> case Inl e of Inl e \<Rightarrow> safe P E w' \<and> \<not> H | Inr c' \<Rightarrow> c' = patch c \<and> between P E H k s0 c0 w' c'
      | Inr a \<Rightarrow> wp (updateEventCompletion E k patch)
        (\<lambda>r w'. case r of Inl e \<Rightarrow> safe P E w' \<and> \<not> H | Inr c' \<Rightarrow> c' = patch c \<and> between P E H k s0 c0 w' c') w'"
    by (auto elim!: wp_mono split: sum.splits)
qed (use b in \<open>auto simp: between_def\<close>)

lemma spooled_kinds:
  assumes "completion_spooled items c"
  shows "find_item items (inflight_item (ec_eventId c)) = Some item \<Longrightarrow>
      si_payloadKind item = Event_upload \<and> ec_inflightRemoved c \<noteq> Some True"
    and "find_item items (ec_eventId c) = Some item \<Longrightarrow>
      si_payloadKind item = Event_source \<and> ec_sourceRemoved c \<noteq> Some True"
  using assms by (auto simp: completion_spooled_def)

lemma inflight_step:
  assumes b: "between P E H k s0 c0 w c" and committed: "ec_revisionCommitted c = Some True"
  shows "wp (if ec_inflightRemoved c = Some True then sh_return c
      else sh_bind (remove_if_spool E (inflight_item k)) (\<lambda>_.
        updateEventCompletion E k (\<lambda>c. c\<lparr>ec_inflightRemoved := Some True\<rparr>)))
    (\<lambda>r w'. case r of Inl e \<Rightarrow> safe P E w' \<and> \<not> H | Inr c' \<Rightarrow> between P E H k s0 c0 w' c' \<and> ec_inflightRemoved c' = Some True) w"
proof (cases "ec_inflightRemoved c = Some True")
  case False
  note bound = between_bound[OF b]
  have "wp (sh_bind (remove_if_spool E (inflight_item k)) (\<lambda>_. updateEventCompletion E k (\<lambda>c. c\<lparr>ec_inflightRemoved := Some True\<rparr>)))
    (\<lambda>r w'. case r of Inl e \<Rightarrow> safe P E w' \<and> \<not> H
      | Inr c' \<Rightarrow> c' = c\<lparr>ec_inflightRemoved := Some True\<rparr> \<and> between P E H k s0 c0 w' c') w"
  proof (rule removal_step[OF b])
    show "completion_bound (live_of w) (k, c\<lparr>ec_inflightRemoved := Some True\<rparr>)"
      using bound(1) committed by (auto simp: completion_bound_def Let_def cong: option.case_cong)
  qed (use bound spooled_kinds[OF bound(2)] in \<open>auto simp: completion_spooled_def cong: option.case_cong\<close>)
  then show ?thesis using False by (auto elim!: wp_mono split: sum.splits)
qed (use b in \<open>simp add: wp_pure\<close>)

lemma source_step:
  assumes b: "between P E H k s0 c0 w c" and removed: "ec_inflightRemoved c = Some True"
  shows "wp (if ec_sourceRemoved c = Some True then sh_return c
      else sh_bind (remove_if_spool E k) (\<lambda>_.
        updateEventCompletion E k (\<lambda>c. c\<lparr>ec_sourceRemoved := Some True\<rparr>)))
    (\<lambda>r w'. case r of Inl e \<Rightarrow> safe P E w' \<and> \<not> H | Inr c' \<Rightarrow> between P E H k s0 c0 w' c' \<and> ec_sourceRemoved c' = Some True) w"
proof (cases "ec_sourceRemoved c = Some True")
  case False
  note bound = between_bound[OF b]
  have "wp (sh_bind (remove_if_spool E k) (\<lambda>_. updateEventCompletion E k (\<lambda>c. c\<lparr>ec_sourceRemoved := Some True\<rparr>)))
    (\<lambda>r w'. case r of Inl e \<Rightarrow> safe P E w' \<and> \<not> H
      | Inr c' \<Rightarrow> c' = c\<lparr>ec_sourceRemoved := Some True\<rparr> \<and> between P E H k s0 c0 w' c') w"
  proof (rule removal_step[OF b])
    show "completion_bound (live_of w) (k, c\<lparr>ec_sourceRemoved := Some True\<rparr>)"
      using bound(1) removed by (auto simp: completion_bound_def Let_def cong: option.case_cong)
  qed (use bound spooled_kinds[OF bound(2)] in \<open>auto simp: completion_spooled_def cong: option.case_cong\<close>)
  then show ?thesis using False by (auto elim!: wp_mono split: sum.splits)
qed (use b in \<open>simp add: wp_pure\<close>)

definition completed :: "jsstring \<Rightarrow> event_completion \<Rightarrow> spool_world \<Rightarrow> bool" where
  "completed k c w \<longleftrightarrow> disk_of w = live_of w
    \<and> completion_of (live_of w) k = None
    \<and> find_item (sw_items w) (inflight_item k) = None \<and> find_item (sw_items w) k = None
    \<and> readCurrentSessionRevision (live_of w) (ec_sessionId c) = ec_revision c"

lemma complete_wp:
  assumes w: "steady P E w" and c: "completion_of (live_of w) k = Some c" and oldest: "oldest_completion (live_of w) k"
  shows "wp (completeEventUpload E k) (\<lambda>r w'. safe P E w' \<and> (healthy E w \<longrightarrow> r = ok () \<and> healthy E w')
    \<and> (r = ok () \<longrightarrow> steady P E w' \<and> completed k c w'
    \<and> (\<forall>j. j \<noteq> k \<longrightarrow> completion_of (live_of w') j = completion_of (live_of w) j))) w" (is "wp _ ?Q w")
proof -
  have start: "between P E (healthy E w) k (live_of w) c w c" using w c by (simp add: between_def)
  have finish: "wp (sh_bind (shell_set_state (drop_completion k (live_of w'))) (\<lambda>_. shell_persist E)) ?Q w'"
    if b: "between P E (healthy E w) k (live_of w) c w' c3" and "ec_sourceRemoved c3 = Some True" for w' c3
  proof -
    note w' = between_steady[OF b] and bound = between_bound[OF b]
    have flags: "ec_inflightRemoved c3 = Some True" "ec_revisionCommitted c3 = Some True"
        "readCurrentSessionRevision (live_of w') (ec_sessionId c) = ec_revision c"
      using bound(1) b that(2) by (auto simp: completion_bound_def Let_def between_def)
    have gone: "find_item (sw_items w') (inflight_item k) = None" "find_item (sw_items w') k = None"
      using bound(2,3) flags that(2) by (auto simp: completion_spooled_def split: option.splits)
    show ?thesis
      by (rule wp_set_and_persist[OF w' drop_completion_starts[OF steadyD(4)[OF w']]])
        (use b gone flags in \<open>auto simp: completed_def between_def\<close>)
  qed
  have last: "wp (sh_bind shell_state (\<lambda>s. sh_bind (shell_set_state (drop_completion k s)) (\<lambda>_. shell_persist E))) ?Q w'"
    if "between P E (healthy E w) k (live_of w) c w' c3" and "ec_sourceRemoved c3 = Some True" for w' c3
    unfolding wp_bind[of shell_state]
    by (rule wp_state[where E = E]) (use finish[OF that] between_steady[OF that(1)] that(1) in \<open>auto simp: between_def\<close>)
  let ?step3 = "\<lambda>c2. if ec_sourceRemoved c2 = Some True then sh_return c2
      else sh_bind (remove_if_spool E k) (\<lambda>_. updateEventCompletion E k (\<lambda>c. c\<lparr>ec_sourceRemoved := Some True\<rparr>))"
  let ?last = "sh_bind shell_state (\<lambda>s. sh_bind (shell_set_state (drop_completion k s)) (\<lambda>_. shell_persist E))"
  have third: "wp (sh_bind (?step3 c2) (\<lambda>_. ?last)) ?Q w'"
    if "between P E (healthy E w) k (live_of w) c w' c2" and "ec_inflightRemoved c2 = Some True" for w' c2
    by (rule wp_bind_rule[OF source_step[OF that]], simp, rule last, auto)
  let ?step2 = "\<lambda>c1. if ec_inflightRemoved c1 = Some True then sh_return c1
      else sh_bind (remove_if_spool E (inflight_item k)) (\<lambda>_.
        updateEventCompletion E k (\<lambda>c. c\<lparr>ec_inflightRemoved := Some True\<rparr>))"
  have second: "wp (sh_bind (?step2 c1) (\<lambda>c2. sh_bind (?step3 c2) (\<lambda>_. ?last))) ?Q w'"
    if "between P E (healthy E w) k (live_of w) c w' c1" and "ec_revisionCommitted c1 = Some True" for w' c1
    by (rule wp_bind_rule[OF inflight_step[OF that]], simp, rule third, simp_all)
  let ?step1 = "if ec_revisionCommitted c = Some True then sh_return c
      else sh_bind (commitSessionRevision E (ec_sessionId c) (ec_revision c)) (\<lambda>_.
        updateEventCompletion E k (\<lambda>c. c\<lparr>ec_revisionCommitted := Some True\<rparr>))"
  have first: "wp (sh_bind ?step1 (\<lambda>c1. sh_bind (?step2 c1) (\<lambda>c2. sh_bind (?step3 c2) (\<lambda>_. ?last)))) ?Q w"
    by (rule wp_bind_rule[OF revision_step[OF start oldest]], simp, rule second, simp_all)
  show ?thesis
    unfolding completeEventUpload_def wp_bind[of shell_state]
    by (rule wp_state[where E = E]) (use first c w in auto)
qed

lemma complete_absent:
  assumes "steady P E w" and "completion_of (live_of w) k = None"
  shows "wp (completeEventUpload E k) (\<lambda>r w'. w' = w \<and> (healthy E w \<longrightarrow> r = ok ())) w"
  unfolding completeEventUpload_def wp_bind by (rule wp_state[where E = E]) (use assms in \<open>auto simp: wp_pure\<close>)

subsection \<open>All completions\<close>

text \<open>The journal lists the completions of a Session by revision, as they were begun.\<close>

definition before :: "event_completion \<Rightarrow> event_completion \<Rightarrow> bool" where
  "before c d \<longleftrightarrow> (ec_sessionId c = ec_sessionId d \<longrightarrow> ec_revision c \<le> ec_revision d)"

definition completions_in_order :: "bridge_state \<Rightarrow> bool" where
  "completions_in_order s \<longleftrightarrow> sorted_wrt before (ovalues (opt_object (bs_eventUploadCompletions s)))"

text \<open>The same over the keys that are left to resume, which are all of the journal.\<close>

definition resumable :: "bridge_state \<Rightarrow> jsstring list \<Rightarrow> bool" where
  "resumable s ks \<longleftrightarrow> (\<forall>k. completion_of s k \<noteq> None \<longrightarrow> k \<in> set ks)
    \<and> sorted_wrt (\<lambda>j k. \<forall>c d. completion_of s j = Some c \<longrightarrow> completion_of s k = Some d \<longrightarrow> before c d) ks"

lemma starts_completion_keys: "starts P E s items \<Longrightarrow> oinv (opt_object (bs_eventUploadCompletions s))"
  by (simp add: starts_def startable_iff consistent_iff objects_ok_def)

lemma sorted_completions:
  assumes "oinv m" and "sorted_wrt before (ovalues m)"
  shows "sorted_wrt (\<lambda>j k. \<forall>c d. oget m j = Some c \<longrightarrow> oget m k = Some d \<longrightarrow> before c d) (okeys m)"
proof -
  have "sorted_wrt (\<lambda>x y. before (snd x) (snd y)) m" using assms(2) by (simp add: ovalues_def sorted_wrt_map)
  then have "sorted_wrt (\<lambda>x y. \<forall>c d. oget m (fst x) = Some c \<longrightarrow> oget m (fst y) = Some d \<longrightarrow> before c d) m"
  proof (rule sorted_wrt_mono_rel[rotated])
    fix x y assume "x \<in> set m" "y \<in> set m" "before (snd x) (snd y)"
    then show "\<forall>c d. oget m (fst x) = Some c \<longrightarrow> oget m (fst y) = Some d \<longrightarrow> before c d"
      using oinv_mem_oget[OF assms(1), of "fst x" "snd x"] oinv_mem_oget[OF assms(1), of "fst y" "snd y"] by simp
  qed
  then show ?thesis by (simp add: okeys_def sorted_wrt_map)
qed

lemma in_order_resumable:
  assumes "oinv (opt_object (bs_eventUploadCompletions s))" and "completions_in_order s"
  shows "resumable s (okeys (opt_object (bs_eventUploadCompletions s)))"
  using sorted_completions[OF assms(1)] assms(2)
  by (auto simp: resumable_def completions_in_order_def completion_of_def set_okeys)

lemma resumable_oldest:
  assumes "resumable s (k # ks)" and "oinv (opt_object (bs_eventUploadCompletions s))"
  shows "oldest_completion s k"
proof (cases "completion_of s k")
  case (Some c)
  have "ec_revision c \<le> ec_revision d"
    if d: "d \<in> set (ovalues (opt_object (bs_eventUploadCompletions s)))" "ec_sessionId d = ec_sessionId c" for d
  proof -
    obtain j where "(j, d) \<in> set (opt_object (bs_eventUploadCompletions s))" using d(1) by (auto simp: ovalues_def)
    then have j: "completion_of s j = Some d" using oinv_mem_oget[OF assms(2)] by (simp add: completion_of_def)
    show ?thesis
    proof (cases "j = k")
      case False
      then have "j \<in> set ks" using assms(1) j by (auto simp: resumable_def)
      then have "before c d" using assms(1) Some j by (auto simp: resumable_def)
      then show ?thesis using d(2) by (simp add: before_def)
    qed (use j Some in simp)
  qed
  then show ?thesis using Some by (simp add: oldest_completion_def list_all_iff)
qed (simp add: oldest_completion_def)

lemma resumable_next:
  assumes "resumable s (k # ks)" and "\<And>j. completion_of s' j = (if j = k then None else completion_of s j)"
  shows "resumable s' ks"
  using assms(1) unfolding resumable_def
  by (auto simp: assms(2) elim!: sorted_wrt_mono_rel[rotated] split: if_splits)

lemma complete_all_wp:
  assumes "steady P E w" and "resumable (live_of w) ks"
  shows "wp (complete_all E ks) (\<lambda>r w'. safe P E w' \<and> (healthy E w \<longrightarrow> r = ok ())
    \<and> (r = ok () \<longrightarrow> steady P E w' \<and> (\<forall>k. completion_of (live_of w') k
          = (if k \<in> set ks then None else completion_of (live_of w) k))
        \<and> (disk_of w = live_of w \<or> (\<exists>k \<in> set ks. completion_of (live_of w) k \<noteq> None)
            \<longrightarrow> disk_of w' = live_of w'))) w"
  using assms
proof (induction ks arbitrary: w)
  case Nil
  then show ?case by (simp add: wp_pure)
next
  case (Cons k ks)
  have keys: "oinv (opt_object (bs_eventUploadCompletions (live_of w)))"
    using starts_completion_keys[OF steadyD(4)[OF Cons.prems(1)]] .
  show ?case
  proof (cases "completion_of (live_of w) k")
    case None
    have rest: "resumable (live_of w) ks" using resumable_next[OF Cons.prems(2)] None by simp
    show ?thesis
      unfolding complete_all.simps
    proof (rule wp_bind_rule[OF complete_absent[OF Cons.prems(1) None]], goal_cases)
      case (1 e w')
      then show ?case using Cons.prems(1) by simp
    next
      case (2 a w')
      then show ?case using Cons.IH[OF Cons.prems(1) rest] None by (auto elim!: wp_mono split: if_splits)
    qed
  next
    case (Some c)
    note one = complete_wp[OF Cons.prems(1) Some resumable_oldest[OF Cons.prems(2) keys]]
    show ?thesis
      unfolding complete_all.simps
    proof (rule wp_bind_rule[OF one], goal_cases)
      case (1 e w')
      then show ?case by simp
    next
      case (2 a w')
      then have frame: "completion_of (live_of w') j = (if j = k then None else completion_of (live_of w) j)" for j
        by (auto simp: completed_def)
      have "resumable (live_of w') ks" by (rule resumable_next[OF Cons.prems(2) frame])
      from Cons.IH[OF _ this] 2 frame show ?case by (auto elim!: wp_mono simp: completed_def)
    qed
  qed
qed

lemma no_completions: "(\<forall>k. completion_of s k = None) \<longleftrightarrow> opt_object (bs_eventUploadCompletions s) = []"
  by (auto simp: completion_of_def oget_def map_of_eq_None_iff)

lemma resume_wp:
  assumes w: "steady P E w" and one: "completions_in_order (live_of w)"
  shows "wp (resumeEventUploadCompletions E) (\<lambda>r w'. safe P E w' \<and> (healthy E w \<longrightarrow> r = ok ())
    \<and> (r = ok () \<longrightarrow> steady P E w' \<and> opt_object (bs_eventUploadCompletions (live_of w')) = []
        \<and> (disk_of w = live_of w \<or> opt_object (bs_eventUploadCompletions (live_of w)) \<noteq> []
            \<longrightarrow> disk_of w' = live_of w'))) w"
  unfolding resumeEventUploadCompletions_def wp_bind
proof (rule wp_state[where E = E], goal_cases)
  case (1 e)
  then show ?case using w by simp
next
  case 2
  let ?m = "opt_object (bs_eventUploadCompletions (live_of w))"
  have keys: "completion_of (live_of w) k = None" if "k \<notin> set (okeys ?m)" for k
    using that by (simp add: completion_of_def set_okeys domIff)
  have some: "\<exists>k \<in> set (okeys ?m). completion_of (live_of w) k \<noteq> None" if "?m \<noteq> []"
    using that no_completions[of "live_of w"] by (auto simp: completion_of_def set_okeys)
  note all = in_order_resumable[OF starts_completion_keys[OF steadyD(4)[OF w]] one]
  show ?case
    using keys some by (auto intro!: wp_mono[OF complete_all_wp[OF w all]] simp: no_completions[symmetric])
qed

subsection \<open>A completion that is left behind\<close>

text \<open>A journaled completion whose Session is already at a later revision: the loader refuses it, and
  nothing that completes another Event removes it.\<close>

definition stale :: "jsstring \<Rightarrow> bridge_state \<Rightarrow> bool" where
  "stale j s \<longleftrightarrow> (case completion_of s j of None \<Rightarrow> False
     | Some d \<Rightarrow> ec_revision d < readCurrentSessionRevision s (ec_sessionId d))"

lemma stale_unloadable: "stale j s \<Longrightarrow> parseCurrentState P s (Some h) \<noteq> ok s'"
proof
  assume st: "stale j s" and p: "parseCurrentState P s (Some h) = ok s'"
  obtain d where d: "completion_of s j = Some d" "ec_revision d < readCurrentSessionRevision s (ec_sessionId d)"
    using st by (auto simp: stale_def split: option.splits)
  have "(j, d) \<in> set (opt_object (bs_eventUploadCompletions s))" using d(1) by (simp add: completion_of_def oget_SomeD)
  then have "completion_bound s (j, d)" using p by (auto simp: parse_iff related_def completions_related_def)
  then show False using d(2) by (auto simp: completion_bound_def Let_def)
qed

lemma stale_put: "j \<noteq> k \<Longrightarrow> stale j (put_completion k c s) = stale j s"
  by (simp add: stale_def cong: option.case_cong)

lemma stale_drop: "j \<noteq> k \<Longrightarrow> stale j (drop_completion k s) = stale j s"
  by (simp add: stale_def cong: option.case_cong)

definition left_behind :: "spool_env \<Rightarrow> jsstring \<Rightarrow> 'a result \<Rightarrow> spool_world \<Rightarrow> bool" where
  "left_behind E j r w \<longleftrightarrow> is_ok r \<longrightarrow> st_has_path (sw_store w) \<and> spool_inv E w \<and> stale j (live_of w) \<and> stale j (disk_of w)"

lemma left_behind_error [simp]: "left_behind E j (Inl e) w"
  by (simp add: left_behind_def)

lemma left_behind_bind:
  assumes "wp m (left_behind E j) w" and "\<And>a w'. left_behind E j (ok a) w' \<Longrightarrow> wp (f a) (left_behind E j) w'"
  shows "wp (sh_bind m f) (left_behind E j) w"
  by (rule wp_bind_rule[OF assms(1)]) (simp_all add: assms(2))

lemma left_behind_set:
  assumes "st_has_path (sw_store w)" and "spool_inv E w" and "stale j s"
  shows "wp (sh_bind (shell_set_state s) (\<lambda>_. shell_persist E)) (left_behind E j) w"
proof -
  let ?w = "w\<lparr>sw_store := (sw_store w)\<lparr>st_live := s\<rparr>\<rparr>"
  have "wp (shell_persist E) (left_behind E j) ?w"
  proof (rule wp_persist, goal_cases)
    case (3 r w')
    then show ?case using assms spool_inv_same[of ?w w' E] by (simp add: left_behind_def)
  qed (use assms in simp_all)
  then show ?thesis by (simp add: wp_bind wp_set_state)
qed

lemma left_behind_update:
  assumes w: "left_behind E j (ok a) w" and "j \<noteq> k"
  shows "wp (updateEventCompletion E k patch) (left_behind E j) w"
  unfolding updateEventCompletion_def wp_bind[of shell_state]
proof (rule wp_state[where E = E], goal_cases)
  case 2
  show ?case
  proof (cases "completion_of (live_of w) k")
    case (Some c)
    have "wp (sh_bind (sh_bind (shell_set_state (put_completion k (patch c) (live_of w))) (\<lambda>_. shell_persist E))
        (\<lambda>_. sh_return (patch c))) (left_behind E j) w"
      by (rule wp_bind_rule[OF left_behind_set])
        (use w assms(2) in \<open>auto simp: left_behind_def stale_put wp_pure\<close>)
    then show ?thesis using Some by (simp add: bind_assoc)
  qed (simp add: wp_pure)
qed simp

lemma left_behind_remove:
  assumes w: "left_behind E j (ok a) w"
  shows "wp (remove_if_spool E i) (left_behind E j) w"
  unfolding remove_if_spool_def wp_with_spool
proof (cases "sw_spoolReady w")
  case True
  have "wp (spool_remove E i) (left_behind E j) w"
    by (rule wp_remove) (use w in \<open>auto simp: left_behind_def same_store_def\<close>)
  then show "if sw_spoolReady w then wp (spool_remove E i) (left_behind E j) w else wp (sh_return ()) (left_behind E j) w"
    using True by simp
qed (use w in \<open>simp add: wp_pure left_behind_def\<close>)

text \<open>Committing the next revision of the Session leaves every older completion of it behind.\<close>

lemma left_behind_commit:
  assumes w: "st_has_path (sw_store w)" "spool_inv E w"
    and d: "completion_of (live_of w) j = Some d" "ec_sessionId d = i" "ec_revision d = readCurrentSessionRevision (live_of w) i"
  shows "wp (commitSessionRevision E i (ec_revision d + 1)) (left_behind E j) w"
proof -
  let ?s = "(live_of w)\<lparr>bs_sessionRevisions := oput i (ec_revision d + 1) (bs_sessionRevisions (live_of w))\<rparr>"
  have t: "commitSessionRevisionTransition (live_of w) i (ec_revision d + 1) = ok (New ?s, ())"
    using d by (simp add: commitSessionRevisionTransition_def Let_def)
  have st: "stale j ?s" using d by (simp add: stale_def completion_of_def readCurrentSessionRevision_put)
  show ?thesis
  proof (cases "read_state (sw_store w)")
    case (Inl e)
    then show ?thesis
      by (simp add: commitSessionRevision_def sh_bind_def tick_def applyTransition_def wp_def)
  next
    case (Inr s)
    then have s: "s = live_of w" by (rule read_state_live)
    let ?store = "(sw_store w)\<lparr>st_live := ?s\<rparr>"
    have run: "commitSessionRevision E i (ec_revision d + 1) w =
        (fst (store_persist (se_write E (sw_tick w)) ?store),
         w\<lparr>sw_tick := Suc (sw_tick w), sw_store := snd (store_persist (se_write E (sw_tick w)) ?store)\<rparr>)"
      using Inr s t
      by (auto simp: commitSessionRevision_def sh_bind_def tick_def applyTransition_def split: prod.split sum.split)
    show ?thesis
      by (rule store_persist_cases[of "se_write E (sw_tick w)" ?store])
        (use w st in \<open>auto simp: wp_def run left_behind_def\<close>)
  qed
qed

lemma second_completion_wp:
  assumes w: "st_has_path (sw_store w)" "spool_inv E w" and "j \<noteq> k"
    and d: "completion_of (live_of w) j = Some d" "ec_revision d = readCurrentSessionRevision (live_of w) (ec_sessionId d)"
    and c: "completion_of (live_of w) k = Some c" "ec_sessionId c = ec_sessionId d" "ec_revision c = ec_revision d + 1"
      "ec_revisionCommitted c \<noteq> Some True"
  shows "wp (completeEventUpload E k) (left_behind E j) w"
proof -
  have finish: "wp (sh_bind shell_state (\<lambda>s. sh_bind (shell_set_state (drop_completion k s)) (\<lambda>_. shell_persist E)))
      (left_behind E j) w'" if "left_behind E j (ok a) w'" for w' and a :: 'a
    unfolding wp_bind[of shell_state]
    by (rule wp_state[where E = E])
      (use that \<open>j \<noteq> k\<close> in \<open>auto simp: left_behind_def stale_drop intro!: left_behind_set\<close>)
  have flag: "wp (if b then sh_return x else sh_bind (remove_if_spool E i) (\<lambda>_. updateEventCompletion E k patch))
      (left_behind E j) w'" if "left_behind E j (ok a) w'" for b x i patch w' and a :: event_completion
  proof (cases b)
    case False
    have "wp (sh_bind (remove_if_spool E i) (\<lambda>_. updateEventCompletion E k patch)) (left_behind E j) w'"
      by (rule left_behind_bind[OF left_behind_remove[OF that]]) (rule left_behind_update[OF _ \<open>j \<noteq> k\<close>])
    then show ?thesis using False by simp
  qed (use that in \<open>simp add: wp_pure left_behind_def\<close>)
  have commit: "wp (sh_bind (commitSessionRevision E (ec_sessionId c) (ec_revision c)) (\<lambda>_. updateEventCompletion E k patch))
      (left_behind E j) w" for patch
    unfolding c(3)
    by (rule left_behind_bind[OF left_behind_commit left_behind_update]) (use w d c assms(3) in auto)
  show ?thesis
    unfolding completeEventUpload_def wp_bind[of shell_state]
    by (rule wp_state[where E = E])
      (use c(1,4) in \<open>auto intro!: left_behind_bind[OF commit] left_behind_bind[OF flag] finish\<close>)
qed

end
