(* ===== verification/Spool_Cancellation.thy ===== *)
theory Spool_Cancellation
  imports Spool_Completion
begin

section \<open>Cancelling a terminal Event, whatever fails\<close>

text \<open>
  \<open>cancelTerminalEvent\<close> journals its intent in the spool, changes the state, removes the journaled
  items and settles the state. The lemmas show that each of the four intermediate states is one the
  Bridge starts from, under a guard on what the state and the spool hold when the call is made.
\<close>

subsection \<open>The states on the way\<close>

definition cancel_key :: "cancel_input \<Rightarrow> jsstring" where
  "cancel_key i = producerReservationKey (ci_sessionId i) (ci_fingerprint i)"

text \<open>What the caller establishes: the state file holds the live state, the Event is still reserved in
  the state and in the spool for this Session, no cancellation of it is in the state, the session
  data it passes fits the state, and the strings it passes are not empty.\<close>

definition cancel_values :: "cancel_input \<Rightarrow> bool" where
  "cancel_values i \<longleftrightarrow> isCurrentTerminalCancellation (requested_cancellation i)
    \<and> (case ci_replacementSession i of None \<Rightarrow> True | Some c \<Rightarrow> isCurrentSession c)
    \<and> ci_nextDriverName i \<noteq> Some []"

definition valid_intent :: "spool_item \<Rightarrow> bool" where
  "valid_intent item \<longleftrightarrow> si_payloadKind item = Terminal_cancellation
    \<and> (case si_sealed item of Sealed _ _ (Cancellation_payload c) \<Rightarrow> isCurrentTerminalCancellation c | _ \<Rightarrow> True)"

lemma valid_intent_opens:
  "valid_intent item \<Longrightarrow> aead_open k item = ok (Cancellation_payload c) \<Longrightarrow> isCurrentTerminalCancellation c"
  by (auto simp: valid_intent_def aead_open_def split: sealed.splits if_splits)

definition session_fits :: "jsstring \<Rightarrow> cancel_input \<Rightarrow> bridge_state \<Rightarrow> bool" where
  "session_fits h i s \<longleftrightarrow> (if ci_removeSession i then \<not> cancellation_pins s (ci_sessionId i)
     else (case (case ci_replacementSession i of Some c \<Rightarrow> Some c | None \<Rightarrow> oget (bs_sessions s) (ci_sessionId i)) of
       None \<Rightarrow> False
     | Some c \<Rightarrow> cs_sessionId c = ci_sessionId i \<and> cs_hostId c = h \<and> provider_fits s c
         \<and> (case (case ci_nextDriverName i of Some d \<Rightarrow> Some d | None \<Rightarrow> oget (bs_sessionDrivers s) (ci_sessionId i)) of
              None \<Rightarrow> True | Some d \<Rightarrow> d = js ''agent-adapter'' \<or> d = cs_provider c)))"

definition reserved_for :: "jsstring \<Rightarrow> jsstring \<Rightarrow> bridge_state \<Rightarrow> spool_item list \<Rightarrow> bool" where
  "reserved_for eventId sessionId s items \<longleftrightarrow>
    eventId \<in> pr_eventId ` set (ovalues (opt_object (bs_producerEventReservations s)))
    \<and> list_all (\<lambda>r. pr_eventId r = eventId \<longrightarrow> pr_sessionId r = sessionId)
        (ovalues (opt_object (bs_producerEventReservations s)))
    \<and> (case find_item items eventId of None \<Rightarrow> False | Some source \<Rightarrow> si_payloadKind source = Event_reservation
         \<and> si_eventId source = Some eventId \<and> si_sessionId source = sessionId)"

definition cancel_guard :: "spool_env \<Rightarrow> cancel_input \<Rightarrow> spool_world \<Rightarrow> bool" where
  "cancel_guard E i w \<longleftrightarrow> disk_of w = live_of w \<and> ci_eventId i \<noteq> []
    \<and> reserved_for (ci_eventId i) (ci_sessionId i) (live_of w) (sw_items w)
    \<and> map_option pr_eventId (oget (opt_object (bs_producerEventReservations (live_of w))) (cancel_key i)) = Some (ci_eventId i)
    \<and> oget (opt_object (bs_terminalCancellations (live_of w))) (ci_eventId i) = None
    \<and> completion_of (live_of w) (terminalCancellationItemId (ci_eventId i)) = None
    \<and> (case find_item (sw_items w) (terminalCancellationItemId (ci_eventId i)) of
         None \<Rightarrow> True | Some it \<Rightarrow> valid_intent it)
    \<and> session_fits (se_hostId E) i (live_of w) \<and> cancel_values i"

lemma prefixed_cancel: "prefixed_id ''cancel:terminal:'' (Some e) = terminalCancellationItemId e"
  by (simp add: prefixed_id_def terminalCancellationItemId_def)

lemma without_reservation_starts:
  assumes "startable P h s"
  shows "startable P h (without_reservation k s)"
proof -
  have "reservations_related (without_reservation k s)"
    using assms by (auto simp: startable_iff consistent_iff related_def reservations_related_def reservation_bound_def
        without_reservation_def event_of_def set_odel)
  then show ?thesis
    using assms by (simp add: startable_iff consistent_iff related_def objects_ok_def without_reservation_def
        record_values_def oinv_odel isValueMap_odel)
qed

lemma cancellation_starts:
  assumes s: "startable P h s" and C: "oinv (opt_object C)"
    and new: "\<And>k c. (k, c) \<in> set (opt_object C) \<Longrightarrow>
      (k, c) \<in> set (opt_object (bs_terminalCancellations s)) \<or> cancellation_bound s (k, c) \<and> isCurrentTerminalCancellation c"
  shows "startable P h (s\<lparr>bs_terminalCancellations := C\<rparr>)"
proof -
  have "cancellation_bound s x" if "x \<in> set (opt_object C)" for x
    using new[of "fst x" "snd x"] that s
    by (auto simp: startable_iff consistent_iff related_def cancellations_related_def)
  moreover have vals: "isValueMap isCurrentTerminalCancellation (opt_object C)"
    using new s by (fastforce simp: isValueMap_iff startable_iff record_values_def)
  ultimately have "cancellations_related (s\<lparr>bs_terminalCancellations := C\<rparr>)"
    by (auto simp: cancellations_related_def cancellation_bound_def event_of_def)
  then show ?thesis
    using s C vals by (simp add: startable_iff consistent_iff related_def objects_ok_def record_values_def)
qed

definition session_part :: "cancel_input \<Rightarrow> bridge_state \<Rightarrow> bridge_state" where
  "session_part i s = (if ci_removeSession i
     then s\<lparr>bs_sessions := odel (ci_sessionId i) (bs_sessions s),
             bs_sessionDrivers := odel (ci_sessionId i) (bs_sessionDrivers s),
             bs_producerEventCheckpoints := map_option (odel (ci_sessionId i)) (bs_producerEventCheckpoints s)\<rparr>
     else s\<lparr>bs_sessions := (case ci_replacementSession i of
               None \<Rightarrow> bs_sessions s | Some c \<Rightarrow> oput (ci_sessionId i) c (bs_sessions s)),
             bs_sessionDrivers := (case ci_nextDriverName i of
               None \<Rightarrow> bs_sessionDrivers s | Some d \<Rightarrow> oput (ci_sessionId i) d (bs_sessionDrivers s))\<rparr>)"

lemma cancelled_state_parts:
  "cancelled_state i c s = (let s' = session_part i (without_reservation (cancel_key i) s)
     in s'\<lparr>bs_terminalCancellations := Some (oput (ci_eventId i) c (opt_object (bs_terminalCancellations s)))\<rparr>)"
  by (simp add: cancelled_state_def session_part_def cancel_key_def without_reservation_def Let_def cong: option.case_cong)

lemma oput_same: "oget m k = Some v \<Longrightarrow> oput k v m = m"
  by (simp add: oget_def oput_def update_triv)

lemma session_part_starts:
  assumes s: "startable P h s" and fits: "session_fits h i s" and vals: "cancel_values i"
  shows "startable P h (session_part i s)"
    and "\<not> ci_removeSession i \<Longrightarrow> oget (bs_sessions (session_part i s)) (ci_sessionId i) \<noteq> None"
proof -
  have R: "related P s h" and ok: "objects_ok s" using s by (simp_all add: startable_iff consistent_iff)
  have old: "record_values s" using s by (rule startable_facts(2))
  have id: "ci_sessionId i \<noteq> []"
    using vals by (simp add: cancel_values_def isCurrentTerminalCancellation_def requested_cancellation_def)
  have keep: "record_values (session_part i s)"
    using old vals id
    by (auto simp: cancel_values_def session_part_def record_values_def isValueMap_odel isStringMap_odel
        split: option.splits intro!: isValueMap_oput isStringMap_oput)
  show "startable P h (session_part i s)"
  proof (cases "ci_removeSession i")
    case True
    then have pins: "\<not> cancellation_pins s (ci_sessionId i)" using fits by (simp add: session_fits_def)
    show ?thesis
      using remove_session_related[OF R ok pins refl] keep True
      by (simp add: startable_iff consistent_iff session_part_def)
  next
    case False
    obtain c where c: "(case ci_replacementSession i of Some c \<Rightarrow> Some c | None \<Rightarrow> oget (bs_sessions s) (ci_sessionId i)) = Some c"
      and id: "cs_sessionId c = ci_sessionId i" "cs_hostId c = h" "provider_fits s c"
      and d: "case (case ci_nextDriverName i of Some d \<Rightarrow> Some d | None \<Rightarrow> oget (bs_sessionDrivers s) (ci_sessionId i)) of
              None \<Rightarrow> True | Some d \<Rightarrow> d = js ''agent-adapter'' \<or> d = cs_provider c"
      using fits False by (auto simp: session_fits_def split: option.splits)
    define D where "D = (case ci_nextDriverName i of
        None \<Rightarrow> bs_sessionDrivers s | Some d \<Rightarrow> oput (ci_sessionId i) d (bs_sessionDrivers s))"
    have part: "session_part i s = s\<lparr>bs_sessions := oput (ci_sessionId i) c (bs_sessions s), bs_sessionDrivers := D\<rparr>"
      using False c by (auto simp: session_part_def D_def oput_same split: option.splits)
    have "related P (session_part i s) h"
      unfolding part
      by (rule put_session_related[OF R ok id(1,2), where d = "the (ci_nextDriverName i)"])
        (use id d in \<open>auto simp: D_def split: option.splits\<close>)
    moreover have "objects_ok (session_part i s)"
      using ok unfolding part by (auto simp: objects_ok_def oinv_oput D_def split: option.splits)
    ultimately show ?thesis using keep by (simp add: startable_iff consistent_iff)
  qed
  show "oget (bs_sessions (session_part i s)) (ci_sessionId i) \<noteq> None" if "\<not> ci_removeSession i"
    using fits that by (auto simp: session_part_def session_fits_def oget_oput split: option.splits)
qed

lemma session_fits_without [simp]: "session_fits h i (without_reservation k s) = session_fits h i s"
  by (simp add: session_fits_def without_reservation_def cancellation_pins_def provider_fits_def
      cong: option.case_cong)

text \<open>Reservations of the Event agree with the Event in the history, so a cancellation does.\<close>

lemma reserved_event_session:
  assumes s: "startable P h s" and r: "reserved_for e sessionId s items" and "event_of s e = Some event"
  shows "ev_sessionId event = sessionId"
proof -
  obtain k r where kr: "(k, r) \<in> set (opt_object (bs_producerEventReservations s))" "pr_eventId r = e"
    using r by (auto simp: reserved_for_def ovalues_def)
  then have "pr_sessionId r = sessionId"
    using r by (auto simp: reserved_for_def ovalues_def list_all_iff)
  moreover have "reservation_bound s (k, r)"
    using s kr(1) by (auto simp: startable_iff consistent_iff related_def reservations_related_def)
  ultimately show ?thesis using assms(3) kr(2) by (simp add: reservation_bound_def)
qed

lemma cancelled_starts:
  assumes s: "startable P h s" and fits: "session_fits h i s" and vals: "cancel_values i"
    and r: "reserved_for (ci_eventId i) (ci_sessionId i) s items"
    and c: "tc_eventId c = ci_eventId i" "tc_sessionId c = ci_sessionId i" "tc_removeSession c = ci_removeSession i"
      "isCurrentTerminalCancellation c"
  shows "startable P h (cancelled_state i c s)"
proof -
  let ?s = "session_part i (without_reservation (cancel_key i) s)"
  have s': "startable P h ?s" and sess: "\<not> ci_removeSession i \<Longrightarrow> oget (bs_sessions ?s) (ci_sessionId i) \<noteq> None"
    using session_part_starts[OF without_reservation_starts[OF s], of i "cancel_key i"] fits vals by simp_all
  have same: "bs_terminalCancellations ?s = bs_terminalCancellations s" "event_of ?s = event_of s"
    by (simp_all add: session_part_def without_reservation_def event_of_def fun_eq_iff)
  have "cancellation_bound ?s (ci_eventId i, c)"
    using sess c reserved_event_session[OF s r] by (auto simp: cancellation_bound_def same split: option.split)
  moreover have "oinv (opt_object (bs_terminalCancellations s))"
    using s by (simp add: startable_iff consistent_iff objects_ok_def)
  ultimately show ?thesis
    unfolding cancelled_state_parts Let_def
    using set_oput[of "ci_eventId i" c "opt_object (bs_terminalCancellations s)"]
    by (intro cancellation_starts[OF s']) (auto simp: same oinv_oput c(4))
qed

lemma without_cancellation_starts:
  assumes "startable P h s"
  shows "startable P h (without_cancellation e s)"
  unfolding without_cancellation_def
  using assms by (intro cancellation_starts)
    (auto simp: set_odel oinv_odel startable_iff consistent_iff objects_ok_def)

subsection \<open>The items on the way\<close>

text \<open>The check of an item reads reservations and cancellations only for the Event of a reservation or of
  a journaled cancellation.\<close>

lemma check_item_other:
  assumes "si_payloadKind item \<noteq> Event_reservation" "si_payloadKind item \<noteq> Terminal_cancellation"
    and "bs_recentEvents s' = bs_recentEvents s"
  shows "check_item s' items' item = check_item s items item"
proof -
  have "session_mismatch s' item = session_mismatch s item"
    using assms(3) by (simp add: session_mismatch_def cong: option.case_cong)
  then show ?thesis using assms(1,2) by (cases "si_payloadKind item") (simp_all add: check_item_def)
qed

lemma check_item_event:
  assumes "bs_recentEvents s' = bs_recentEvents s"
    and "reservation_of s' (si_eventId item) = reservation_of s (si_eventId item)"
    and "cancellation_of s' (si_eventId item) = cancellation_of s (si_eventId item)"
  shows "check_item s' items item = check_item s items item"
  using assms
  by (intro check_item_cong) (simp_all add: session_mismatch_def recoverable_intent_def cong: option.case_cong)

lemma check_reservation_item:
  "si_payloadKind item = Event_reservation \<Longrightarrow> check_item s items item = ok () \<longleftrightarrow>
    truthy (si_eventId item) \<noteq> None \<and> si_eventId item = Some (si_spoolItemId item)
    \<and> (case reservation_of s (si_eventId item) of None \<Rightarrow> True | Some r \<Rightarrow> pr_sessionId r = si_sessionId item)
    \<and> (case cancellation_of s (si_eventId item) of None \<Rightarrow> True | Some c \<Rightarrow> tc_sessionId c = si_sessionId item)"
  by (auto simp: check_item_def event_kind_def split: option.splits)

lemma find_item_append:
  "find_item (items @ [item]) k = (case find_item items k of
     None \<Rightarrow> if si_spoolItemId item = k then Some item else None | Some x \<Rightarrow> Some x)"
  unfolding find_item_def by (induction items) auto

lemma item_ids_apart [simp]:
  "inflight_item x \<noteq> terminalCancellationItemId e" "terminalCancellationItemId e \<noteq> inflight_item x"
  by (simp_all add: inflight_item_def terminalCancellationItemId_def js_def)

lemma intent_related:
  assumes rel: "spool_related s items" and r: "reserved_for e sessionId s items"
    and C: "cancellation_of s (Some e) = None" and fresh: "find_item items (terminalCancellationItemId e) = None"
    and ne: "e \<noteq> []" and apart: "completion_of s (terminalCancellationItemId e) = None"
    and keys: "\<And>k c. (k, c) \<in> set (opt_object (bs_eventUploadCompletions s)) \<Longrightarrow> k = ec_eventId c"
    and inv: "oinv (opt_object (bs_eventUploadCompletions s))"
    and it: "si_spoolItemId it = terminalCancellationItemId e" "si_eventId it = Some e"
      "si_payloadKind it = Terminal_cancellation" "si_sessionId it = sessionId"
  shows "spool_related s (items @ [it])"
proof -
  have rec: "recoverable_intent s (items @ [it]) x = recoverable_intent s items x" for x
    using it(3) by (auto simp: recoverable_intent_find find_item_append split: option.splits)
  have old: "check_item s (items @ [it]) x = ok ()" if "x \<in> set items" for x
  proof -
    have "check_item s (items @ [it]) x = check_item s items x"
      by (rule check_item_cong) (simp_all add: rec)
    then show ?thesis using rel that by (simp add: spool_related_def)
  qed
  have "map_option pr_sessionId (reservation_of s (Some e)) = Some sessionId"
  proof -
    have "reservation_of s (Some e) \<noteq> None"
      using r by (auto simp: reserved_for_def reservation_of_def find_None_iff)
    then obtain x where x: "reservation_of s (Some e) = Some x" by auto
    then have "x \<in> set (ovalues (opt_object (bs_producerEventReservations s)))" "pr_eventId x = e"
      by (auto simp: reservation_of_def find_Some_iff)
    then show ?thesis using r x by (auto simp: reserved_for_def list_all_iff)
  qed
  then have "recoverable_intent s items it"
    using r it by (auto simp: recoverable_intent_find reserved_for_def split: option.splits)
  then have new: "check_item s (items @ [it]) it = ok ()"
    using it C ne by (simp add: check_cancellation_item rec prefixed_cancel truthy_def)
  have completion: "completion_spooled (items @ [it]) c"
    if mem: "c \<in> set (ovalues (opt_object (bs_eventUploadCompletions s)))" for c
  proof -
    obtain k where k: "(k, c) \<in> set (opt_object (bs_eventUploadCompletions s))" using mem by (auto simp: ovalues_def)
    have "ec_eventId c \<noteq> terminalCancellationItemId e"
      using keys[OF k] oinv_mem_oget[OF inv k] apart by (auto simp: completion_of_def)
    moreover have "completion_spooled items c" using rel mem by (simp add: spool_related_def)
    ultimately show ?thesis by (auto simp: completion_spooled_def find_item_append it split: option.splits)
  qed
  show ?thesis
    using rel old new completion fresh by (auto simp: spool_related_def it find_item_None)
qed

lemma find_odel:
  "(\<And>v. (k, v) \<in> set m \<Longrightarrow> \<not> p v) \<Longrightarrow> find p (ovalues (odel k m)) = find p (ovalues m)"
proof (induction m)
  case (Cons x m)
  then show ?case by (cases x) (auto simp: ovalues_def odel_def)
qed (simp add: ovalues_def odel_def)

lemma cancelled_related:
  assumes rel: "spool_related s items" and r: "reserved_for e sessionId s items"
    and C: "cancellation_of s (Some e) = None" and c: "tc_sessionId c = sessionId"
    and key: "map_option pr_eventId (oget (opt_object (bs_producerEventReservations s)) k) = Some e"
    and inv: "oinv (opt_object (bs_producerEventReservations s))"
    and s': "bs_recentEvents s' = bs_recentEvents s" "bs_eventUploadCompletions s' = bs_eventUploadCompletions s"
      "opt_object (bs_producerEventReservations s') = odel k (opt_object (bs_producerEventReservations s))"
      "opt_object (bs_terminalCancellations s') = oput e c (opt_object (bs_terminalCancellations s))"
  shows "spool_related s' items"
proof -
  have canc: "cancellation_of s' x = (if x = Some e then Some c else cancellation_of s x)" for x
    by (cases x) (simp_all add: cancellation_of_def s' oget_oput)
  have gone: "pr_eventId v = e" if "(k, v) \<in> set (opt_object (bs_producerEventReservations s))" for v
    using oinv_mem_oget[OF inv that] key by simp
  have other: "reservation_of s' x = reservation_of s x" if "x \<noteq> Some e" for x
    unfolding reservation_of_def s'(3) by (rule find_odel) (use gone that in auto)
  have mine: "pr_sessionId v = sessionId" if "reservation_of s' (Some e) = Some v" for v
  proof -
    have "v \<in> set (ovalues (odel k (opt_object (bs_producerEventReservations s))))" "pr_eventId v = e"
      using that by (auto simp: reservation_of_def s'(3) find_Some_iff)
    then show ?thesis using r set_ovalues_odel by (fastforce simp: reserved_for_def list_all_iff)
  qed
  have "check_item s' items x = ok ()" if x: "x \<in> set items" for x
  proof -
    have old: "check_item s items x = ok ()" using rel x by (simp add: spool_related_def)
    show ?thesis
    proof (cases "si_eventId x = Some e")
      case False
      then show ?thesis using old check_item_event[OF s'(1), of x items] other canc by simp
    next
      case True
      obtain source where source: "find_item items e = Some source" "si_sessionId source = sessionId"
        using r by (auto simp: reserved_for_def split: option.splits)
      show ?thesis
      proof (cases "si_payloadKind x = Event_reservation \<or> si_payloadKind x = Terminal_cancellation")
        case False
        then show ?thesis using old check_item_other[OF _ _ s'(1), of x items items] by simp
      next
        case kind: True
        have "si_sessionId x = sessionId"
        proof (cases "si_payloadKind x = Event_reservation")
          case res: True
          then have "si_spoolItemId x = e" using old True by (simp add: check_reservation_item)
          then have "find_item items e = Some x"
            using find_item_mem[of items x] rel x by (simp add: spool_related_def)
          then show ?thesis using source by simp
        next
          case False
          then have "recoverable_intent s items x" using old kind True C by (auto simp: check_cancellation_item)
          then show ?thesis using source True by (auto simp: recoverable_intent_find)
        qed
        then show ?thesis
          using old kind True mine canc c
          by (auto simp: check_reservation_item check_cancellation_item split: option.splits)
      qed
    qed
  qed
  then show ?thesis using rel by (simp add: spool_related_def s'(2))
qed

lemma settled_related:
  assumes rel: "spool_related s items"
    and gone: "find_item items e = None" "find_item items (terminalCancellationItemId e) = None"
  shows "spool_related (without_cancellation e s) items"
proof -
  have "check_item (without_cancellation e s) items x = ok ()" if x: "x \<in> set items" for x
  proof -
    have old: "check_item s items x = ok ()" using rel x by (simp add: spool_related_def)
    show ?thesis
    proof (cases "si_eventId x = Some e")
      case True
      have "si_payloadKind x \<noteq> Event_reservation" "si_payloadKind x \<noteq> Terminal_cancellation"
        using old True gone x
        by (auto simp: check_reservation_item check_cancellation_item prefixed_cancel find_item_None image_iff)
      then show ?thesis
        using old check_item_other[of x "without_cancellation e s" s items items] by (simp add: without_cancellation_def)
    next
      case False
      then have "cancellation_of (without_cancellation e s) (si_eventId x) = cancellation_of s (si_eventId x)"
        by (cases "si_eventId x") (auto simp: cancellation_of_def without_cancellation_def oget_odel)
      then show ?thesis
        using old check_item_event[of "without_cancellation e s" s x items]
        by (simp add: without_cancellation_def reservation_of_def)
    qed
  qed
  then show ?thesis using rel by (simp add: spool_related_def without_cancellation_def)
qed

subsection \<open>The steps\<close>

definition unreserved :: "jsstring \<Rightarrow> bridge_state \<Rightarrow> bool" where
  "unreserved k s \<longleftrightarrow> oget (opt_object (bs_producerEventReservations s)) k = None"

definition settled :: "jsstring \<Rightarrow> spool_world \<Rightarrow> bool" where
  "settled e w \<longleftrightarrow> oget (opt_object (bs_terminalCancellations (live_of w))) e = None
    \<and> disk_of w = live_of w \<and> find_item (sw_items w) e = None
    \<and> find_item (sw_items w) (terminalCancellationItemId e) = None"

lemma unreserved_without_cancellation [simp]: "unreserved k (without_cancellation e s) = unreserved k s"
  by (simp add: unreserved_def without_cancellation_def)

text \<open>Committing a state that starts with the items there are.\<close>

lemma wp_commit_step:
  assumes w: "steady P E w" and s: "starts P E s (sw_items w)"
    and fail: "\<And>e w'. steady P E w' \<Longrightarrow> sw_items w' = sw_items w \<Longrightarrow> live_of w' = live_of w
      \<Longrightarrow> disk_of w' = disk_of w \<or> disk_of w' = s \<Longrightarrow> \<not> healthy E w \<Longrightarrow> Q (Inl e) w'"
    and did: "\<And>w'. steady P E w' \<Longrightarrow> (healthy E w \<Longrightarrow> healthy E w') \<Longrightarrow> sw_items w' = sw_items w
      \<Longrightarrow> live_of w' = s \<Longrightarrow> disk_of w' = s \<Longrightarrow> Q (Inr ()) w'"
  shows "wp (shell_commit E s) Q w"
proof -
  note d = steadyD[OF w]
  have inv: "spool_inv E w'" if "same_spool w w'" for w'
    using spool_inv_same[OF that] d(3) by simp
  show ?thesis
  proof (rule wp_commit[OF d(2)], goal_cases)
    case (1 e w')
    then show ?case using steady_same[of w w'] w by (intro fail) (auto simp: same_defs)
  next
    case (2 e w')
    then show ?case using d s inv[of w'] by (intro fail) (auto simp: steady_def same_spool_def)
  next
    case (3 w')
    then show ?case using d s inv[of w'] by (intro did) (auto simp: steady_def same_spool_def)
  qed
qed

lemma finish_wp:
  assumes w: "steady P E w" and e: "tc_eventId c = e"
    and intent: "\<And>it. find_item (sw_items w) (terminalCancellationItemId e) = Some it
      \<Longrightarrow> si_payloadKind it = Terminal_cancellation"
    and U: "unreserved k (live_of w)" "unreserved k (disk_of w)"
  shows "wp (finishTerminalCancellation E c) (\<lambda>r w'. safe P E w'
    \<and> unreserved k (live_of w') \<and> unreserved k (disk_of w')
    \<and> (healthy E w \<longrightarrow> r = ok () \<and> healthy E w' \<and> settled e w')) w" (is "wp _ ?Q w")
proof -
  let ?id = "terminalCancellationItemId e" and ?H = "healthy E w"
  let ?clear = "sh_bind shell_state (\<lambda>s. sh_catch (shell_commit E (without_cancellation e s)) (\<lambda>_. sh_return ()))"
  have clear: "wp ?clear ?Q w1"
    if w1: "steady P E w1" "?H \<Longrightarrow> healthy E w1" "sw_store w1 = sw_store w"
      and gone: "find_item (sw_items w1) e = None" "find_item (sw_items w1) ?id = None" for w1
    unfolding wp_bind
  proof (rule wp_state[where E = E], goal_cases)
    case (1 err)
    then show ?case using w1 U by auto
  next
    case 2
    have s: "starts P E (without_cancellation e (live_of w1)) (sw_items w1)"
      using steadyD(4)[OF w1(1)] settled_related[OF _ gone] by (auto simp: starts_def without_cancellation_starts)
    have "wp (shell_commit E (without_cancellation e (live_of w1)))
        (\<lambda>r w'. case r of Inl err \<Rightarrow> ?Q (ok ()) w' | Inr a \<Rightarrow> ?Q (Inr a) w') w1"
      by (rule wp_commit_step[OF w1(1) s])
        (use w1 gone U in \<open>auto simp: settled_def without_cancellation_def oget_odel unreserved_def\<close>)
    then show ?case by (simp add: wp_catch wp_pure cong: sum.case_cong)
  qed
  have clean: "wp (if find_item (sw_items w) e \<noteq> None \<or> find_item (sw_items w) ?id \<noteq> None
      then sh_catch (sh_bind (spool_removeMany E [e, ?id]) (\<lambda>_. sh_return True)) (\<lambda>_. sh_return False)
      else sh_return True)
    (\<lambda>r w1. (case r of Inl err \<Rightarrow> False | Inr b \<Rightarrow>
        (b \<longrightarrow> find_item (sw_items w1) e = None \<and> find_item (sw_items w1) ?id = None \<and> steady P E w1) \<and> (?H \<longrightarrow> b))
      \<and> safe P E w1 \<and> (?H \<longrightarrow> healthy E w1) \<and> sw_store w1 = sw_store w) w"
  proof (cases "find_item (sw_items w) e \<noteq> None \<or> find_item (sw_items w) ?id \<noteq> None")
    case False
    then show ?thesis using w by (simp add: wp_pure)
  next
    case True
    have kept: "starts P E s (filter (\<lambda>i. si_spoolItemId i \<notin> {e, ?id}) (sw_items w))" if "starts P E s (sw_items w)" for s
      using that unfolding starts_def
      by (elim conjE, intro conjI remove_items_related) (auto simp: prefixed_cancel dest: intent)
    have "wp (spool_removeMany E [e, ?id]) (\<lambda>r w1. case r of
        Inl err \<Rightarrow> \<not> ?H \<and> safe P E w1 \<and> sw_store w1 = sw_store w
      | Inr a \<Rightarrow> (find_item (sw_items w1) e = None \<and> find_item (sw_items w1) ?id = None)
          \<and> steady P E w1 \<and> (?H \<longrightarrow> healthy E w1) \<and> sw_store w1 = sw_store w) w"
    proof (rule wp_removeMany[OF steadyD(3)[OF w]], goal_cases)
      case (1 err w1)
      then show ?case using w steady_same[of w w1] by (auto simp: same_defs)
    next
      case (3 err w1)
      then have "safe P E w1"
        using kept steadyD(4,5)[OF w] by (intro torn_safe[OF 3]) simp_all
      then show ?case using torn_unhealthy[OF 3] 3 by (simp add: torn_def same_store_def)
    next
      case (2 w1)
      have items: "sw_items w1 = filter (\<lambda>i. si_spoolItemId i \<notin> {e, ?id}) (sw_items w)" using 2(4) by simp
      have "starts P E s (sw_items w) \<Longrightarrow> starts P E s (sw_items w1)" for s
        unfolding items by (rule kept)
      then have "steady P E w1" using 2 steadyD[OF w] by (auto simp: steady_def same_store_def)
      then show ?case using 2 find_item_filter[of "{e, ?id}" "sw_items w"] items by (simp add: same_store_def)
    qed
    then show ?thesis using True
      by (auto simp: wp_bind wp_catch wp_pure elim!: wp_mono split: sum.splits)
  qed
  let ?tail = "\<lambda>removed. if \<not> removed then sh_return () else ?clear"
  have tail: "wp (sh_bind (if find_item (sw_items w) e \<noteq> None \<or> find_item (sw_items w) ?id \<noteq> None
      then sh_catch (sh_bind (spool_removeMany E [e, ?id]) (\<lambda>_. sh_return True)) (\<lambda>_. sh_return False)
      else sh_return True) ?tail) ?Q w"
  proof (rule wp_bind_rule[OF clean], goal_cases)
    case (2 removed w1)
    then show ?case using clear[of w1] U by (cases removed) (auto simp: wp_pure)
  qed simp
  show ?thesis
    unfolding finishTerminalCancellation_def wp_with_spool e
    using steadyD(1)[OF w] tail w U
    by (auto simp: wp_bind[of "spool_get _"] intro!: wp_get[where E = E])
qed

subsection \<open>The whole workflow\<close>

definition cancel_commit :: "spool_env \<Rightarrow> cancel_input \<Rightarrow> terminal_cancellation \<Rightarrow> unit shell" where
  "cancel_commit E i c = sh_bind shell_state (\<lambda>s.
     (let next_state = cancelled_state i c s
      in sh_bind (sh_catch (shell_commit E next_state) (\<lambda>e.
           sh_bind (diskHasTerminalCancellation E c) (\<lambda>adopted.
             if \<not> adopted then sh_throw e else shell_set_state next_state))) (\<lambda>_.
         finishTerminalCancellation E c)))"

definition cancel_done :: "wire_port \<Rightarrow> spool_env \<Rightarrow> cancel_input \<Rightarrow> bool \<Rightarrow> unit result \<Rightarrow> spool_world \<Rightarrow> bool" where
  "cancel_done P E i H r w \<longleftrightarrow> safe P E w
    \<and> (r = ok () \<longrightarrow> unreserved (cancel_key i) (live_of w) \<and> unreserved (cancel_key i) (disk_of w))
    \<and> (H \<longrightarrow> r = ok () \<and> settled (ci_eventId i) w)"

lemma unreserved_cancelled: "unreserved (cancel_key i) (cancelled_state i c s)"
  by (simp add: unreserved_def cancelled_state_parts session_part_def without_reservation_def Let_def oget_odel)

lemma cancel_commit_wp:
  assumes w: "steady P E w" and H: "H \<Longrightarrow> healthy E w"
    and s: "starts P E (cancelled_state i c (live_of w)) (sw_items w)"
    and disk: "oget (opt_object (bs_terminalCancellations (disk_of w))) (ci_eventId i) = None"
    and e: "tc_eventId c = ci_eventId i"
    and intent: "\<And>it. find_item (sw_items w) (terminalCancellationItemId (ci_eventId i)) = Some it
      \<Longrightarrow> si_payloadKind it = Terminal_cancellation"
  shows "wp (cancel_commit E i c) (cancel_done P E i H) w"
proof -
  let ?next = "cancelled_state i c (live_of w)"
  let ?after = "\<lambda>w'. steady P E w' \<and> sw_items w' = sw_items w \<and> live_of w' = ?next \<and> disk_of w' = ?next"
  have finished: "wp (finishTerminalCancellation E c) (cancel_done P E i H) w'"
    if "?after w'" "H \<Longrightarrow> healthy E w'" for w'
    using that intent
    by (intro wp_mono[OF finish_wp[where k = "cancel_key i" and e = "ci_eventId i"]])
      (auto simp: e unreserved_cancelled cancel_done_def)
  have adopt: "wp (sh_bind (diskHasTerminalCancellation E c) (\<lambda>adopted.
        if \<not> adopted then sh_throw err else shell_set_state ?next))
      (\<lambda>r w'. case r of Inl x \<Rightarrow> steady P E w' | Inr u \<Rightarrow> ?after w') w'"
    if "steady P E w'" "sw_items w' = sw_items w" "disk_of w' = disk_of w \<or> disk_of w' = ?next" for w' err
    using that disk s e steadyD[OF that(1)]
    by (auto simp: diskHasTerminalCancellation_def wp_steps steady_def)
  have commit: "wp (sh_catch (shell_commit E ?next) (\<lambda>err. sh_bind (diskHasTerminalCancellation E c) (\<lambda>adopted.
        if \<not> adopted then sh_throw err else shell_set_state ?next)))
      (\<lambda>r w'. case r of Inl x \<Rightarrow> steady P E w' \<and> \<not> H | Inr u \<Rightarrow> ?after w' \<and> (H \<longrightarrow> healthy E w')) w"
    unfolding wp_catch
  proof (rule wp_commit_step[OF w s], goal_cases)
    case (1 err w')
    have "\<not> H" using 1(5) H by blast
    then show ?case using adopt[OF 1(1,2,4), of err] by (auto elim!: wp_mono split: sum.splits)
  next
    case (2 w')
    then show ?case using H by simp
  qed
  have rest: "wp (sh_bind (sh_catch (shell_commit E ?next) (\<lambda>err. sh_bind (diskHasTerminalCancellation E c) (\<lambda>adopted.
        if \<not> adopted then sh_throw err else shell_set_state ?next))) (\<lambda>_. finishTerminalCancellation E c))
      (cancel_done P E i H) w"
    by (rule wp_bind_rule[OF commit]) (auto simp: cancel_done_def intro: finished)
  show ?thesis
    unfolding cancel_commit_def wp_bind[of shell_state] Let_def
    by (rule wp_state[where E = E]) (use rest w H in \<open>auto simp: cancel_done_def\<close>)
qed

lemma same_requested:
  "existing_intent (requested_cancellation i) (Some p) = ok x \<Longrightarrow>
    \<exists>c. x = Some c \<and> p = Cancellation_payload c \<and> tc_eventId c = ci_eventId i \<and> tc_sessionId c = ci_sessionId i \<and> tc_removeSession c = ci_removeSession i"
  by (cases p) (auto simp: existing_intent_def same_cancellation_def requested_cancellation_def split: if_splits)

lemma cancel_wp:
  assumes w: "steady P E w" and g: "cancel_guard E i w"
  shows "wp (cancelTerminalEvent E i) (cancel_done P E i
    (healthy E w \<and> find_item (sw_items w) (terminalCancellationItemId (ci_eventId i)) = None)) w" (is "wp _ (?Q :: unit result \<Rightarrow> _) w")
proof -
  let ?s = "live_of w" and ?e = "ci_eventId i" and ?id = "terminalCancellationItemId (ci_eventId i)"
  let ?H = "healthy E w \<and> find_item (sw_items w) ?id = None"
  have start: "startable P (se_hostId E) ?s" and rel: "spool_related ?s (sw_items w)"
    using steadyD(4)[OF w] by (simp_all add: starts_def)
  have disk: "disk_of w = ?s" and ne: "?e \<noteq> []" and res: "reserved_for ?e (ci_sessionId i) ?s (sw_items w)"
    and key: "map_option pr_eventId (oget (opt_object (bs_producerEventReservations ?s)) (cancel_key i)) = Some ?e"
    and none: "oget (opt_object (bs_terminalCancellations ?s)) ?e = None" and apart: "completion_of ?s ?id = None"
    and fits: "session_fits (se_hostId E) i ?s"
    and vals: "cancel_values i" and intent: "\<And>it. find_item (sw_items w) ?id = Some it \<Longrightarrow> valid_intent it"
    using g by (auto simp: cancel_guard_def split: option.splits)
  have kind: "\<And>it. find_item (sw_items w) ?id = Some it \<Longrightarrow> si_payloadKind it = Terminal_cancellation"
    using intent by (simp add: valid_intent_def)
  have keys: "oinv (opt_object (bs_producerEventReservations ?s))" "oinv (opt_object (bs_eventUploadCompletions ?s))"
      "\<And>k c. (k, c) \<in> set (opt_object (bs_eventUploadCompletions ?s)) \<Longrightarrow> k = ec_eventId c"
    using start by (auto simp: startable_iff consistent_iff objects_ok_def related_def completions_related_def
        completion_bound_def Let_def)
  have next_starts: "starts P E (cancelled_state i c ?s) items"
    if c: "tc_eventId c = ?e" "tc_sessionId c = ci_sessionId i" "tc_removeSession c = ci_removeSession i"
        "isCurrentTerminalCancellation c"
      and items: "spool_related ?s items" "reserved_for ?e (ci_sessionId i) ?s items" for c items
  proof -
    have "spool_related (cancelled_state i c ?s) items"
      by (rule cancelled_related[OF items _ c(2) key keys(1)])
        (use none in \<open>simp_all add: cancellation_of_def cancelled_state_parts session_part_def without_reservation_def Let_def\<close>)
    then show ?thesis using cancelled_starts[OF start fits vals res c] by (simp add: starts_def)
  qed
  have known: "wp (cancel_commit E i c) ?Q w'"
    if "same_world w w'" "find_item (sw_items w) ?id = Some it"
      "tc_eventId c = ?e" "tc_sessionId c = ci_sessionId i" "tc_removeSession c = ci_removeSession i"
      "isCurrentTerminalCancellation c" for c w' it
    using that steady_same[of w w'] w disk none kind next_starts[OF that(3-6) rel res]
    by (intro cancel_commit_wp) (auto simp: same_defs)
  have joined: "spool_related ?s (sw_items w @ [it])"
    if "si_spoolItemId it = ?id" "si_eventId it = Some ?e" "si_payloadKind it = Terminal_cancellation"
      "si_sessionId it = ci_sessionId i" "find_item (sw_items w) ?id = None" for it
    by (rule intent_related[OF rel res _ that(5) ne apart keys(3,2) that(1-4)]) (simp add: cancellation_of_def none)
  have fresh: "wp (sh_bind (sh_bind (spool_enqueue E (intent_input i (requested_cancellation i))) (\<lambda>_. sh_return ()))
      (\<lambda>_. cancel_commit E i (requested_cancellation i))) ?Q w" if none_yet: "find_item (sw_items w) ?id = None"
    unfolding wp_bind[of "sh_bind _ _"] wp_bind[of "spool_enqueue _ _"]
  proof (rule wp_enqueue[OF steadyD(3)[OF w]], goal_cases)
    case (4 k err w')
    let ?item = "seal_item (se_hostId E) k (intent_input i (requested_cancellation i))"
    have "spool_related ?s (sw_items w @ [?item])"
      by (rule joined) (use ne none_yet in \<open>simp_all add: seal_item_def intent_input_def Let_def truthy_def\<close>)
    then have "safe P E w'" using start disk by (intro torn_safe[OF 4(1)]) (simp_all add: starts_def)
    then show ?case using torn_unhealthy[OF 4(1)] by (simp add: cancel_done_def)
  next
    case (1 err w')
    then show ?case using w steady_same[of w w'] none_yet by (auto simp: cancel_done_def intent_input_def)
  next
    case (2 item w')
    then show ?case using none_yet by (simp add: intent_input_def)
  next
    case (3 k item w')
    have it: "si_spoolItemId item = ?id" "si_eventId item = Some ?e" "si_payloadKind item = Terminal_cancellation"
      "si_sessionId item = ci_sessionId i"
      using ne by (simp_all add: 3(4) seal_item_def intent_input_def Let_def truthy_def)
    have rel': "spool_related ?s (sw_items w')"
      unfolding 3(6) by (rule joined[OF it none_yet])
    have res': "reserved_for ?e (ci_sessionId i) ?s (sw_items w')"
      using res by (auto simp: reserved_for_def 3(6) find_item_append split: option.splits)
    have st: "sw_store w' = sw_store w" using 3(1) by (simp add: same_store_def)
    have "steady P E w'"
      using w 3(1,3) rel' disk by (simp add: steady_def starts_def same_store_def)
    then have "wp (cancel_commit E i (requested_cancellation i)) ?Q w'"
      using 3(2) st disk none next_starts[OF _ _ _ _ rel' res', of "requested_cancellation i"] it vals
      by (intro cancel_commit_wp)
        (auto simp: cancel_values_def requested_cancellation_def 3(6) find_item_append none_yet)
    then show ?case by (simp add: wp_pure)
  qed
  have body: "wp (sh_bind (openSpoolJson E ?id) (\<lambda>p. sh_bind (sh_lift (existing_intent (requested_cancellation i) p)) (\<lambda>existing.
      (let cancellation = (case existing of Some c \<Rightarrow> c | None \<Rightarrow> requested_cancellation i)
       in sh_bind (if existing = None then sh_bind (spool_enqueue E (intent_input i cancellation)) (\<lambda>_. sh_return ())
            else sh_return ()) (\<lambda>_. cancel_commit E i cancellation))))) ?Q w"
    unfolding wp_bind[of "openSpoolJson _ _"]
  proof (rule wp_json[OF steadyD(1)[OF w]], goal_cases)
    case (1 err w')
    then show ?case using w steady_same[of w w'] by (auto simp: cancel_done_def)
  next
    case 2
    then show ?case using fresh by (simp add: wp_bind[of "sh_lift _"] wp_pure existing_intent_def Let_def)
  next
    case (3 k p item w')
    have w': "steady P E w'" using w steady_same[OF 3(1)] by simp
    show ?case
    proof (cases "existing_intent (requested_cancellation i) (Some p)")
      case (Inl x)
      then show ?thesis using w' 3(2) by (simp add: wp_bind[of "sh_lift _"] wp_pure cancel_done_def)
    next
      case (Inr x)
      then obtain c where c: "x = Some c" "p = Cancellation_payload c" "tc_eventId c = ?e"
          "tc_sessionId c = ci_sessionId i" "tc_removeSession c = ci_removeSession i"
        using same_requested[OF Inr] by blast
      have "isCurrentTerminalCancellation c" using valid_intent_opens[OF intent[OF 3(2)]] 3(3) c(2) by blast
      then show ?thesis using Inr c known[OF 3(1,2) c(3-5)]
        by (auto simp: wp_bind wp_pure)
    qed
  qed
  show ?thesis
    unfolding cancelTerminalEvent_def wp_with_spool cancel_commit_def[symmetric]
    using steadyD(1)[OF w] body key w
    by (auto simp: wp_bind[of "spool_get _"] wp_bind[of "getProducerEventReservation _ _"] cancel_key_def cancel_done_def
        intro!: wp_reservation[where E = E] wp_get[where E = E])
qed

end
