(* ===== verification/Spool_Queue.thy ===== *)
theory Spool_Queue
  imports Spool_Files Event_Retention
begin

section \<open>What a queued Event leaves\<close>

text \<open>
  \<open>queuePendingEvent\<close> journals the Event in the spool before it touches the state. The lemmas show
  what each of its three journal branches leaves in the spool, and what the state then holds.
\<close>

text \<open>The spool durably holds the tuple, sealed, as a source of the Event.\<close>

definition journaled :: "canonical_event \<Rightarrow> canonical_session \<Rightarrow> jsstring option \<Rightarrow> spool_item list \<Rightarrow> bool" where
  "journaled event session fingerprint items \<longleftrightarrow>
    (\<exists>item \<in> set items. si_eventId item = Some (ev_eventId event) \<and> si_payloadKind item = Event_source
      \<and> (\<exists>key. aead_open key item = ok (tuple_payload event session fingerprint)))"

lemma open_seal [simp]: "aead_open k (seal_item h k i) = ok (in_plaintext i)"
  by (simp add: aead_open_def seal_item_def spoolAAD_def Let_def)

lemma seal_fields [simp]:
  "si_spoolItemId (seal_item h k i) = in_spoolItemId i" "si_hostId (seal_item h k i) = h"
  "si_sessionId (seal_item h k i) = in_sessionId i" "si_eventId (seal_item h k i) = truthy (in_eventId i)"
  "si_payloadKind (seal_item h k i) = in_payloadKind i" "si_createdAt (seal_item h k i) = in_createdAt i"
  by (simp_all add: seal_item_def Let_def)

lemma tuple_input_fields [simp]:
  "in_spoolItemId (tuple_input kind ev se f) = ev_eventId ev" "in_eventId (tuple_input kind ev se f) = Some (ev_eventId ev)"
  "in_payloadKind (tuple_input kind ev se f) = kind" "in_plaintext (tuple_input kind ev se f) = tuple_payload ev se f"
  by (simp_all add: tuple_input_def)

text \<open>Between the steps: the state store is untouched and the file is that of the memory.\<close>

definition spool_kept :: "spool_env \<Rightarrow> spool_world \<Rightarrow> spool_world \<Rightarrow> bool" where
  "spool_kept E w w' \<longleftrightarrow> same_store w w' \<and> spool_inv E w'"

lemma spool_kept_refl: "spool_inv E w \<Longrightarrow> spool_kept E w w" by (simp add: spool_kept_def same_store_def)

lemma kept_same: "spool_inv E w \<Longrightarrow> same_world w w' \<Longrightarrow> spool_kept E w w'"
  using spool_inv_same[of w w' E] by (simp add: spool_kept_def same_world_def)

lemma keptI: "same_store w w' \<Longrightarrow> spool_inv E w' \<Longrightarrow> spool_kept E w w'"
  by (simp add: spool_kept_def)

lemma same_ready: "same_world w w' \<Longrightarrow> sw_spoolReady w' = sw_spoolReady w" "same_store w w' \<Longrightarrow> sw_spoolReady w' = sw_spoolReady w"
  by (simp_all add: same_defs)

lemma spool_kept_trans: "spool_kept E a b \<Longrightarrow> spool_kept E b c \<Longrightarrow> spool_kept E a c"
  by (simp add: spool_kept_def same_store_def)

lemma keptD: "spool_kept E a b \<Longrightarrow> spool_inv E b \<and> sw_store b = sw_store a \<and> sw_spoolReady b = sw_spoolReady a"
  by (simp add: spool_kept_def same_store_def)

text \<open>An error may also leave the file with what was to be written and the memory without it.\<close>

definition spool_torn :: "spool_env \<Rightarrow> (spool_item list \<Rightarrow> bool) \<Rightarrow> spool_world \<Rightarrow> spool_world \<Rightarrow> bool" where
  "spool_torn E G w w' \<longleftrightarrow> same_store w w' \<and> read_back_failed E w' \<and> (\<exists>items. file_holds E items w' \<and> G items)"

lemma spool_tornI: "torn E items w w' \<Longrightarrow> G items \<Longrightarrow> spool_torn E G w w'"
  by (auto simp: torn_def spool_torn_def)

lemma spool_torn_kept: "spool_kept E a b \<Longrightarrow> spool_torn E G b c \<Longrightarrow> spool_torn E G a c"
  by (auto simp: spool_torn_def spool_kept_def same_store_def)

lemma journaled_sealed:
  assumes "seal_item h k (tuple_input Event_source event session g) \<in> set items" and "ev_eventId event \<noteq> []"
    and "truthy g = truthy f"
  shows "journaled event session f items"
  unfolding journaled_def
  by (rule bexI[OF _ assms(1)]) (use assms(2,3) in \<open>auto simp: truthy_def tuple_payload_def intro!: exI[of _ k] split: if_splits\<close>)

text \<open>What journaling leaves.\<close>

definition journals ::
  "spool_env \<Rightarrow> canonical_event \<Rightarrow> canonical_session \<Rightarrow> jsstring option \<Rightarrow> spool_world \<Rightarrow> unit result \<Rightarrow> spool_world \<Rightarrow> bool" where
  "journals E event session f w r w' \<longleftrightarrow> (if r = ok () then spool_kept E w w' \<and> journaled event session f (sw_items w')
     else spool_kept E w w' \<or> spool_torn E (journaled event session f) w w')"

lemma journals_error: "spool_kept E w w' \<Longrightarrow> journals E event session f w (Inl e) w'"
  by (simp add: journals_def)

lemma wp_enqueue_tuple:
  assumes inv: "spool_inv E w" and ready: "sw_spoolReady w" and id: "ev_eventId event \<noteq> []"
  shows "wp (enqueuePendingEvent E event session f Event_source)
    (journals E event session f w) w"
proof -
  have "wp (spool_enqueue E (tuple_input Event_source event session f))
    (\<lambda>r w'. case r of Inl e \<Rightarrow> journals E event session f w (Inl e) w'
      | Inr item \<Rightarrow> spool_kept E w w' \<and> si_eventId item = Some (ev_eventId event)
        \<and> si_payloadKind item = Event_source \<and> sw_spoolReady w') w"
  proof (rule wp_enqueue[OF inv], goal_cases)
    case (4 k e w')
    have "journaled event session f (sw_items w @ [seal_item (se_hostId E) k (tuple_input Event_source event session f)])"
      by (rule journaled_sealed[OF _ id, of "se_hostId E" k session f]) simp_all
    then show ?case using spool_tornI[OF 4(1)] by (simp add: journals_def)
  qed (use ready id in \<open>auto simp: kept_same[OF inv] keptI truthy_def same_ready journals_error\<close>)
  then show ?thesis
    unfolding enqueuePendingEvent_def wp_with_spool using ready
  proof (simp, elim wp_bind_rule, goal_cases)
    case (2 item w')
    then have kw: "spool_kept E w w'" and inv': "spool_inv E w'" by (auto dest: keptD)
    have "wp (spool_open E item) (\<lambda>r w''. spool_kept E w w'' \<and> (\<forall>p. r = ok p \<longrightarrow>
        item \<in> set (sw_items w'') \<and> (\<exists>key. aead_open key item = ok p))) w'"
    proof (rule wp_open, goal_cases)
      case (1 e w'')
      show ?case using spool_kept_trans[OF kw kept_same[OF inv' 1]] by simp
    next
      case (2 k p w'')
      then show ?case using spool_kept_trans[OF kw kept_same[OF inv' 2(1)]] find_item_Some
        by (fastforce simp: same_defs)
    qed
    then show ?case
      by (rule wp_bind_rule) (use 2 in \<open>auto simp: wp_pure wp_if journaled_def journals_def\<close>)
  qed simp
qed

lemma wp_open_tuple:
  assumes inv: "spool_inv E w" and ready: "sw_spoolReady w"
  shows "wp (openProducerTuple E kind eventId f) (\<lambda>r w'. spool_kept E w w' \<and> (\<forall>ev se. r = ok (Some (ev, se)) \<longrightarrow>
    (\<exists>item \<in> set (sw_items w'). si_eventId item = Some eventId \<and> si_payloadKind item = kind
      \<and> (\<exists>key. aead_open key item = ok (Tuple_payload ev se (Some f)))))) w"
proof (cases "assertStateStoreAccess (sw_store w)")
  case (Inl e)
  then show ?thesis using ready by (simp add: openProducerTuple_def wp_steps spool_list_def spool_kept_refl[OF inv])
next
  case (Inr u)
  let ?items = "filter (\<lambda>item. kind = si_payloadKind item) (sw_items w)"
  show ?thesis
  proof (cases "find (\<lambda>item. si_eventId item = Some eventId) ?items")
    case None
    then show ?thesis using ready Inr by (simp add: openProducerTuple_def wp_steps spool_list_def spool_kept_refl[OF inv])
  next
    case (Some item)
    then have item: "item \<in> set (sw_items w)" "si_payloadKind item = kind" "si_eventId item = Some eventId"
      by (auto simp: find_Some_iff dest!: nth_mem[of _ ?items])
    have "wp (spool_open E item) (\<lambda>r w'. spool_kept E w w' \<and> item \<in> set (sw_items w')
        \<and> (\<forall>p. r = ok p \<longrightarrow> (\<exists>key. aead_open key item = ok p))) w"
      by (rule wp_open) (use item in \<open>auto simp: kept_same[OF inv] same_defs\<close>)
    then have "wp (sh_bind (spool_open E item) (\<lambda>p. sh_bind (sh_lift (parse_tuple p)) (\<lambda>(event, session, found).
        if found \<noteq> Some f then sh_throw (TypeError ''pending Event producer fingerprint is invalid'')
        else sh_return (Some (event, session))))) (\<lambda>r w'. spool_kept E w w' \<and> (\<forall>ev se. r = ok (Some (ev, se)) \<longrightarrow>
          (\<exists>item \<in> set (sw_items w'). si_eventId item = Some eventId \<and> si_payloadKind item = kind
            \<and> (\<exists>key. aead_open key item = ok (Tuple_payload ev se (Some f)))))) w"
    proof (rule wp_bind_rule, goal_cases)
      case (2 p w')
      then show ?case
        using item
        by (cases p) (auto simp: wp_steps parse_tuple_def wp_if rbind_Inr_iff intro!: bexI[of _ item] split: sum.split)
    qed auto
    then show ?thesis using ready Inr Some by (simp add: openProducerTuple_def wp_steps spool_list_def)
  qed
qed

lemma tuple_payload_fingerprint [simp]:
  "truthy f = Some g \<Longrightarrow> tuple_payload event session f = Tuple_payload event session (Some g)"
  by (simp add: tuple_payload_def)

lemma truthy_some [simp]: "truthy f = Some g \<Longrightarrow> truthy (Some g) = Some g"
  by (auto simp: truthy_def split: if_splits)

lemma wp_promote:
  assumes inv: "spool_inv E w" and ready: "sw_spoolReady w" and id: "ev_eventId event \<noteq> []" and f: "truthy f = Some g"
  shows "wp (promoteProducerEventTuple E event session g) (journals E event session f w) w"
proof -
  have replace: "wp (spool_replace E [ev_eventId event] [tuple_input Event_source event session (Some g)])
      (journals E event session f w) w'" if kw: "spool_kept E w w'" for w'
  proof (rule wp_replace, goal_cases)
    case (4 k items e w'')
    have "items = filter (\<lambda>i. si_spoolItemId i \<noteq> ev_eventId event) (sw_items w')
        @ [seal_item (se_hostId E) k (tuple_input Event_source event session (Some g))]"
      using 4(2) by (simp split: if_splits)
    then have "journaled event session f items"
      by (intro journaled_sealed[OF _ id, of "se_hostId E" k session "Some g"]) (use f in simp_all)
    then show ?case using spool_torn_kept[OF kw spool_tornI[OF 4(1)]] by (simp add: journals_def)
  next
    case 1
    then show ?case using keptD[OF kw] by simp
  next
    case (2 e w'')
    then show ?case using spool_kept_trans[OF kw kept_same] keptD[OF kw] by (simp add: journals_error)
  next
    case (3 k items w'')
    have "sw_items w'' = filter (\<lambda>i. si_spoolItemId i \<noteq> ev_eventId event) (sw_items w')
        @ [seal_item (se_hostId E) k (tuple_input Event_source event session (Some g))]"
      using 3(4,5) by (simp split: if_splits)
    then have "seal_item (se_hostId E) k (tuple_input Event_source event session (Some g)) \<in> set (sw_items w'')"
      by simp
    then have "journaled event session f (sw_items w'')"
      by (rule journaled_sealed[OF _ id]) (use f in simp)
    then show ?case using spool_kept_trans[OF kw keptI[OF 3(1,3)]] by (simp add: journals_def)
  qed
  show ?thesis
    unfolding promoteProducerEventTuple_def wp_with_spool using ready
    by (simp, intro wp_bind_rule[OF wp_open_tuple[OF inv ready]])
      (auto simp: wp_if wp_pure replace journals_error)
qed

lemma wp_journal:
  assumes inv: "spool_inv E w" and ready: "sw_spoolReady w" and id: "ev_eventId event \<noteq> []"
  shows "wp (journal_pending_event E event session f) (journals E event session f w) w"
  unfolding journal_pending_event_def wp_bind[of "spool_get _"]
proof (rule wp_get[where E = E], goal_cases)
  case (1 e)
  then show ?case by (simp add: journals_error spool_kept_refl[OF inv])
next
  case 2
  have retry: "wp (sh_bind (openProducerTuple E Event_source (ev_eventId event) g) (\<lambda>tuple.
      if tuple \<noteq> Some (event, session)
      then sh_throw (TypeError ''pending Event retry journal conflicts with the bound tuple'') else sh_return ()))
    (journals E event session f w) w" if "truthy f = Some g" for g
    by (rule wp_bind_rule[OF wp_open_tuple[OF inv ready]])
      (use that in \<open>auto simp: wp_if wp_pure journaled_def journals_def\<close>)
  show ?case
  proof (cases "truthy f")
    case None
    then show ?thesis using wp_enqueue_tuple[OF inv ready id] by simp
  next
    case (Some g)
    show ?thesis
    proof (cases "find_item (sw_items w) (ev_eventId event)")
      case None
      then show ?thesis using Some wp_enqueue_tuple[OF inv ready id] by simp
    next
      case item: (Some item)
      then show ?thesis
        using Some wp_enqueue_tuple[OF inv ready id] wp_promote[OF inv ready id Some] retry[OF Some]
        by (cases "si_payloadKind item") simp_all
    qed
  qed
qed

subsection \<open>The state\<close>

definition queued_state ::
  "(jsstring \<Rightarrow> jsstring \<Rightarrow> int) \<Rightarrow> canonical_event \<Rightarrow> canonical_session \<Rightarrow> jsstring option \<Rightarrow> bridge_state \<Rightarrow> bridge_state" where
  "queued_state lc event session f s =
    (let s' = pending_event_state lc event session s
     in case truthy f of None \<Rightarrow> s' | Some g \<Rightarrow> put_reservation (event_reservation event g) s')"

text \<open>Another Event holds the reservation of this Session and fingerprint.\<close>

definition reservation_taken :: "canonical_event \<Rightarrow> jsstring option \<Rightarrow> bridge_state \<Rightarrow> bool" where
  "reservation_taken event f s \<longleftrightarrow> (case truthy f of
     None \<Rightarrow> False
   | Some g \<Rightarrow> (case oget (opt_object (bs_producerEventReservations s)) (producerReservationKey (ev_sessionId event) g) of
       None \<Rightarrow> False | Some r \<Rightarrow> pr_eventId r \<noteq> ev_eventId event))"

lemma pending_reservations [simp]:
  "bs_producerEventReservations (pending_event_state lc event session s) = bs_producerEventReservations s"
  by (simp add: pending_event_state_def)

lemma read_state_set [simp]:
  "read_state (st\<lparr>st_live := s\<rparr>) = (case read_state st of Inl e \<Rightarrow> Inl e | Inr _ \<Rightarrow> ok s)"
  by (auto simp: read_state_def assertStateStoreAccess_def rbind_Inr_iff split: sum.splits)

text \<open>The transition in place and the reservation, from a store whose state is readable.\<close>

lemma wp_apply_event:
  assumes "read_state (sw_store w) = ok s"
    and "reservation_taken event f s \<Longrightarrow> Q (Inl (TypeError ''producer Event reservation conflict''))
      (w\<lparr>sw_store := (sw_store w)\<lparr>st_live := pending_event_state lc event session s\<rparr>\<rparr>)"
    and "\<not> reservation_taken event f s \<Longrightarrow> Q (Inr ())
      (w\<lparr>sw_store := (sw_store w)\<lparr>st_live := queued_state lc event session f s\<rparr>\<rparr>)"
  shows "wp (sh_bind (applyPendingEventState lc event session) (\<lambda>_.
      case truthy f of None \<Rightarrow> sh_return () | Some g \<Rightarrow> applyProducerReservation event g)) Q w"
  using assms
  by (auto simp: applyPendingEventState_def applyProducerReservation_def wp_steps wp_if reservation_taken_def
      queued_state_def Let_def event_reservation_def split: option.splits)

lemma queue_wp:
  assumes inv: "spool_inv E w" and ready: "sw_spoolReady w" and path: "st_has_path (sw_store w)"
    and id: "ev_eventId event \<noteq> []"
  shows "wp (queuePendingEvent E lc event session f) (\<lambda>r w'.
    (spool_inv E w' \<or> r \<noteq> ok () \<and> read_back_failed E w' \<and> (\<exists>items. file_holds E items w' \<and> journaled event session f items))
    \<and> (r = ok () \<longrightarrow> journaled event session f (sw_items w')
        \<and> st_live (sw_store w') = queued_state lc event session f (st_live (sw_store w))
        \<and> st_disk (sw_store w') = st_live (sw_store w'))
    \<and> (r \<noteq> ok () \<and> \<not> reservation_taken event f (st_live (sw_store w))
        \<longrightarrow> st_live (sw_store w') = st_live (sw_store w))) w" (is "wp _ ?Q w")
proof (cases "assertEventSessionBinding event session")
  case (Inl e)
  then show ?thesis using inv by (simp add: queuePendingEvent_def wp_steps)
next
  case (Inr u)
  let ?s = "st_live (sw_store w)"
  let ?apply = "sh_bind (applyPendingEventState lc event session) (\<lambda>_.
      case truthy f of None \<Rightarrow> sh_return () | Some g \<Rightarrow> applyProducerReservation event g)"
  let ?persist = "\<lambda>previous. sh_catch (shell_persist E) (\<lambda>e. sh_bind (shell_set_state previous) (\<lambda>_. sh_throw e))"
  have persist: "wp (?persist ?s) ?Q w'"
    if "spool_inv E w'" "st_has_path (sw_store w')" "journaled event session f (sw_items w')"
      "st_live (sw_store w') = queued_state lc event session f ?s" for w'
    unfolding wp_catch
  proof (rule wp_persist[OF that(2)], goal_cases)
    case (1 e w'')
    then show ?case using that spool_inv_same[of w' w'' E] by (simp add: wp_steps same_world_def)
  next
    case (2 r w'')
    then show ?case using that spool_inv_same[of w' w'' E]
      by (auto simp: wp_steps same_spool_def split: sum.split)
  qed
  have rest: "wp (sh_bind shell_state (\<lambda>previous. sh_bind ?apply (\<lambda>_. ?persist previous))) ?Q w'"
    if k: "spool_kept E w w'" and j: "journaled event session f (sw_items w')" for w'
  proof (cases "read_state (sw_store w')")
    case (Inl e)
    then show ?thesis using keptD[OF k] by (simp add: wp_steps)
  next
    case (Inr s)
    then have s: "s = ?s" using read_state_live[of "sw_store w'" s] keptD[OF k] by simp
    have "wp ?apply (\<lambda>r w''. case r of
        Inl e \<Rightarrow> ?Q (Inl e) w''
      | Inr a \<Rightarrow> wp (?persist s) ?Q w'') w'"
      by (rule wp_apply_event[OF Inr]) (use keptD[OF k] j path s persist in \<open>auto\<close>)
    then show ?thesis using Inr by (simp add: wp_bind[of shell_state] wp_read wp_bind[of ?apply] cong: sum.case_cong)
  qed
  show ?thesis
    unfolding queuePendingEvent_def wp_bind[of "sh_lift _"] wp_pure Inr
    using ready
    by (simp add: wp_with_spool, intro wp_bind_rule[OF wp_journal[OF inv ready id]])
      (use rest in \<open>auto simp: bind_assoc journals_def spool_kept_def spool_torn_def same_store_def\<close>)
qed

lemma queued_session:
  "oget (bs_sessions (queued_state lc event session f s)) (ev_sessionId event) = Some session"
  "oget (bs_sessionDrivers (queued_state lc event session f s)) (ev_sessionId event) = Some (ev_provider event)"
  by (auto simp: queued_state_def pending_event_state_def put_reservation_def Let_def oget_oput split: option.splits)

text \<open>The queued Event is in the history unless 200 protected Events fill it.\<close>

lemma queued_recent:
  assumes "length (protected_events (event # filter (\<lambda>c. ev_eventId c \<noteq> ev_eventId event) (bs_recentEvents s))
      (bs_pendingHandles s)) < MAX_RECENT_EVENTS"
  shows "event \<in> set (bs_recentEvents (queued_state lc event session f s))"
proof -
  let ?events = "event # filter (\<lambda>c. ev_eventId c \<noteq> ev_eventId event) (bs_recentEvents s)"
  let ?room = "MAX_RECENT_EVENTS - length (protected_events ?events (bs_pendingHandles s))"
  have "event \<in> set (protected_events ?events (bs_pendingHandles s)) \<or> event \<in> set (take ?room (free_events ?events (bs_pendingHandles s)))"
    using assms by (cases ?room) (auto simp: protected_events_def free_events_def)
  then have "event \<in> set (retainRecentEvents lc ?events (bs_pendingHandles s))"
    by (auto simp: set_retain)
  then show ?thesis
    by (auto simp: queued_state_def pending_event_state_def put_reservation_def Let_def split: option.splits)
qed

end
