(* ===== verification/Spool_Examples.thy ===== *)
theory Spool_Examples
  imports Spool_Cancellation Spool_Queue Bridge_Examples
begin

section \<open>Concrete worlds with a spool\<close>

text \<open>
  A Session, an Event of it, an environment that never fails, and worlds in which the Bridge is in the
  middle of an upload completion, or holds the reservation of a terminal Event.
\<close>

definition spool_session :: canonical_session where
  "spool_session = \<lparr>cs_sessionId = js ''s-1'', cs_hostId = js ''host-1'', cs_provider = js ''pi'',
    cs_projectName = js ''p'', cs_nameText = js ''n'', cs_openingText = None, cs_latestActivityText = None,
    cs_workingDirectory = None, cs_harnessProvider = None, cs_status = Session_idle,
    cs_updatedAt = js ''t'', cs_lastEventId = Some (js ''e-1''), cs_snoozedUntil = None\<rparr>"

definition spool_event :: canonical_event where
  "spool_event = \<lparr>ev_eventId = js ''e-1'', ev_hostId = js ''host-1'', ev_sessionId = js ''s-1'',
    ev_provider = js ''pi'', ev_agentText = js ''done'', ev_humanText = None, ev_projectName = None,
    ev_workingDirectory = None, ev_harnessProvider = None, ev_createdAt = js ''t'', ev_body = Event_done\<rparr>"

definition good_env :: spool_env where
  "good_env = \<lparr>se_hostId = js ''host-1'', se_epoch = sample_epoch, se_loadOrCreate = (\<lambda>n b. ok (js ''key'')),
    se_keyIdForKey = (\<lambda>k. k), se_write = (\<lambda>n. Written), se_readable = (\<lambda>n. True),
    se_spoolReadable = (\<lambda>n. True),
    se_needHumanErrorValid = (\<lambda>x. True)\<rparr>"

definition spool_world_of :: "bridge_state \<Rightarrow> spool_item list \<Rightarrow> spool_world" where
  "spool_world_of s items = \<lparr>sw_store = \<lparr>st_live = s, st_disk = s, st_disposed = False, st_writer_allowed = True,
      st_runtimeReady = True, st_pinsReady = True, st_has_path = True\<rparr>,
    sw_spoolReady = True, sw_items = items, sw_keyId = Some (js ''key''), sw_hasPersistedItems = True,
    sw_file = Some \<lparr>sf_runtimeStateSchemaVersion = 4, sf_runtimeResetEpoch = sample_epoch, sf_hostId = js ''host-1'',
      sf_keyId = js ''key'', sf_items = items\<rparr>, sw_tick = 0\<rparr>"

lemma good_env_fields [simp]:
  "se_hostId good_env = js ''host-1''" "se_epoch good_env = sample_epoch" "se_write good_env n = Written"
  "se_loadOrCreate good_env n b = ok (js ''key'')" "se_keyIdForKey good_env k = k" "se_readable good_env n"
  by (simp_all add: good_env_def)

lemma spool_world_fields [simp]:
  "live_of (spool_world_of s items) = s" "disk_of (spool_world_of s items) = s"
  "sw_items (spool_world_of s items) = items" "sw_spoolReady (spool_world_of s items)"
  "st_has_path (sw_store (spool_world_of s items))" "sw_tick (spool_world_of s items) = 0"
  "sw_keyId (spool_world_of s items) = Some (js ''key'')"
  "assertStateStoreAccess (sw_store (spool_world_of s items)) = ok ()"
  "read_state (sw_store (spool_world_of s items)) = ok s"
  by (simp_all add: spool_world_of_def assertStateStoreAccess_def read_state_def)

lemma spool_world_healthy [simp]: "healthy good_env (spool_world_of s items)"
  by (simp add: healthy_def) (simp add: spool_world_of_def)

definition spool_item_of :: "payload_kind \<Rightarrow> string \<Rightarrow> payload \<Rightarrow> spool_item" where
  "spool_item_of kind itemId p = seal_item (js ''host-1'') (js ''key'') \<lparr>in_spoolItemId = js itemId,
    in_sessionId = js ''s-1'', in_eventId = Some (js ''e-1''), in_payloadKind = kind, in_createdAt = js ''t'',
    in_plaintext = p\<rparr>"

lemma spool_item_of_fields [simp]:
  "si_spoolItemId (spool_item_of kind i p) = js i" "si_sessionId (spool_item_of kind i p) = js ''s-1''"
  "si_eventId (spool_item_of kind i p) = Some (js ''e-1'')" "si_payloadKind (spool_item_of kind i p) = kind"
  "validItem (spool_item_of kind i p) (js ''host-1'')" "aead_open (js ''key'') (spool_item_of kind i p) = ok p"
  by (simp_all add: spool_item_of_def truthy_def)

lemma spool_world_inv: "list_all (\<lambda>i. validItem i (js ''host-1'')) items \<Longrightarrow> spool_inv good_env (spool_world_of s items)"
  by (simp add: spool_inv_iff) (simp add: spool_world_of_def)

definition spool_tuple :: payload where
  "spool_tuple = Tuple_payload spool_event spool_session (Some (js ''f''))"

text \<open>A state with the Session, owned by the agent adapter.\<close>

definition spool_state :: bridge_state where
  "spool_state = (emptyState sample_epoch)\<lparr>bs_sessions := [(js ''s-1'', spool_session)],
    bs_sessionDrivers := [(js ''s-1'', js ''agent-adapter'')]\<rparr>"

lemmas startable_defs = startable_iff consistent_iff objects_ok_def related_def emptyState_def EMPTY_SNAPSHOT_def
  oinv_def host_related_def sessions_related_def drivers_related_def driver_bound_def events_related_def
  revisions_related_def handles_related_def commands_related_def completions_related_def reservations_related_def
  checkpoints_related_def cancellations_related_def publication_related_def event_of_def find_event_def ovalues_def

lemma spool_session_fields [simp]:
  "cs_sessionId spool_session = js ''s-1''" "cs_hostId spool_session = js ''host-1''" "cs_provider spool_session = js ''pi''"
  by (simp_all add: spool_session_def)

lemma spool_event_fields [simp]:
  "ev_eventId spool_event = js ''e-1''" "ev_hostId spool_event = js ''host-1''" "ev_sessionId spool_event = js ''s-1''"
  "ev_provider spool_event = js ''pi''" "ev_createdAt spool_event = js ''t''"
  by (simp_all add: spool_event_def)

lemma spool_values [simp]: "isCurrentSession spool_session" "isCurrentEvent spool_event"
  by (simp_all add: isCurrentSession_def spool_session_def isCurrentEvent_def spool_event_def)

lemma spool_state_values: "record_values spool_state"
  using values_empty[OF sample_epoch_valid]
  by (simp add: spool_state_def record_values_def emptyState_def isValueMap_iff isStringMap_def)

lemma spool_state_consistent: "consistent P (js ''host-1'') spool_state"
  using startable_facts(1)[OF startable_empty[OF sample_epoch_valid], of P "js ''host-1''"]
  by (simp add: spool_state_def startable_defs)

lemma spool_state_startable: "startable P (js ''host-1'') spool_state"
  using spool_state_values spool_state_consistent by (simp add: startable_iff)

subsection \<open>In the middle of a completion\<close>

definition spool_completion :: event_completion where
  "spool_completion = \<lparr>ec_eventId = js ''e-1'', ec_sessionId = js ''s-1'', ec_revision = 1,
    ec_eventContentId = js ''c-1'', ec_sessionContentId = js ''c-2'', ec_committedAt = js ''t'',
    ec_revisionCommitted = None, ec_inflightRemoved = None, ec_sourceRemoved = None\<rparr>"

definition completing :: spool_world where
  "completing = spool_world_of
    (spool_state\<lparr>bs_recentEvents := [spool_event], bs_eventUploadCompletions := Some [(js ''e-1'', spool_completion)]\<rparr>)
    [spool_item_of Event_source ''e-1'' spool_tuple, spool_item_of Event_upload ''inflight:event:e-1'' (Other_json (js ''u''))]"

lemma js_ids: "inflight_item (js ''e-1'') = js ''inflight:event:e-1''"
  "terminalCancellationItemId (js ''e-1'') = js ''cancel:terminal:e-1''"
  "prefixed_id ''inflight:event:'' (Some (js ''e-1'')) = js ''inflight:event:e-1''"
  by (simp_all add: inflight_item_def terminalCancellationItemId_def prefixed_id_def js_append[symmetric])

lemma completing_steady: "steady P good_env completing"
proof -
  let ?s = "live_of completing"
  have "consistent P (js ''host-1'') ?s"
    using startable_facts(1)[OF startable_empty[OF sample_epoch_valid], of P "js ''host-1''"]
    by (simp add: completing_def spool_state_def startable_defs event_bound_def completion_bound_def Let_def
        spool_completion_def readCurrentSessionRevision_def)
  moreover have "record_values ?s"
    using spool_state_values
    by (simp add: completing_def record_values_def isValueMap_iff isCurrentEventCompletion_def spool_completion_def)
  ultimately have "startable P (js ''host-1'') ?s" by (simp add: startable_iff)
  moreover have "spool_related ?s (sw_items completing)"
    by (simp add: completing_def spool_related_def check_item_def event_kind_def session_mismatch_def find_event_def
        js_ids truthy_def spool_state_def ovalues_def completion_spooled_def find_item_def spool_completion_def)
  moreover have "spool_inv good_env completing"
    unfolding completing_def by (rule spool_world_inv) simp
  ultimately show ?thesis by (simp add: steady_def starts_def completing_def)
qed

text \<open>A second Event of the Session while the completion of the first is still in the journal: its three
  steps are done, the removal of its entry was not written.\<close>

definition earlier_completion :: event_completion where
  "earlier_completion = spool_completion\<lparr>ec_eventId := js ''e-0'', ec_revisionCommitted := Some True,
    ec_inflightRemoved := Some True, ec_sourceRemoved := Some True\<rparr>"

definition two_completions :: spool_world where
  "two_completions = spool_world_of
    (spool_state\<lparr>bs_recentEvents := [spool_event], bs_sessionRevisions := [(js ''s-1'', 1)],
      bs_eventUploadCompletions := Some [(js ''e-0'', earlier_completion), (js ''e-1'', spool_completion\<lparr>ec_revision := 2\<rparr>)]\<rparr>)
    [spool_item_of Event_source ''e-1'' spool_tuple, spool_item_of Event_upload ''inflight:event:e-1'' (Other_json (js ''u''))]"

lemma two_completions_steady: "steady P good_env two_completions"
proof -
  let ?s = "live_of two_completions"
  have "consistent P (js ''host-1'') ?s"
    using startable_facts(1)[OF startable_empty[OF sample_epoch_valid], of P "js ''host-1''"]
    by (simp add: two_completions_def spool_state_def startable_defs event_bound_def completion_bound_def Let_def
        spool_completion_def earlier_completion_def readCurrentSessionRevision_def)
  moreover have "record_values ?s"
    using spool_state_values
    by (simp add: two_completions_def record_values_def isValueMap_iff isCurrentEventCompletion_def spool_completion_def
        earlier_completion_def isNonNegativeIntegerMap_def isNonNegativeSafeInteger_def isPositiveInteger_def
        is_safe_integer_def)
  moreover have "spool_related ?s (sw_items two_completions)"
    by (simp add: two_completions_def spool_related_def check_item_def event_kind_def session_mismatch_def find_event_def
        js_ids truthy_def spool_state_def ovalues_def completion_spooled_def find_item_def spool_completion_def
        earlier_completion_def)
      (simp add: inflight_item_def js_append[symmetric])
  moreover have "spool_inv good_env two_completions"
    unfolding two_completions_def by (rule spool_world_inv) simp
  ultimately show ?thesis by (simp add: steady_def starts_def startable_iff two_completions_def)
qed

subsection \<open>A reserved terminal Event\<close>

definition spool_reservation :: producer_reservation where
  "spool_reservation = \<lparr>pr_eventId = js ''e-1'', pr_sessionId = js ''s-1'', pr_fingerprint = js ''f'', pr_createdAt = js ''t''\<rparr>"

definition reserved_state :: bridge_state where
  "reserved_state = spool_state\<lparr>bs_producerEventReservations :=
    Some [(producerReservationKey (js ''s-1'') (js ''f''), spool_reservation)]\<rparr>"

definition cancel_request :: cancel_input where
  "cancel_request = \<lparr>ci_eventId = js ''e-1'', ci_sessionId = js ''s-1'', ci_fingerprint = js ''f'', ci_removeSession = False,
    ci_nextDriverName = None, ci_createdAt = js ''u'', ci_replacementSession = None\<rparr>"

lemma cancel_request_fields [simp]:
  "ci_eventId cancel_request = js ''e-1''" "ci_sessionId cancel_request = js ''s-1''" "ci_fingerprint cancel_request = js ''f''"
  "\<not> ci_removeSession cancel_request" "ci_nextDriverName cancel_request = None" "ci_replacementSession cancel_request = None"
  by (simp_all add: cancel_request_def)

lemma reserved_state_startable: "startable P (js ''host-1'') reserved_state"
proof -
  have "consistent P (js ''host-1'') reserved_state"
    using startable_facts(1)[OF startable_empty[OF sample_epoch_valid], of P "js ''host-1''"]
    by (simp add: reserved_state_def spool_state_def startable_defs reservation_bound_def spool_reservation_def)
  moreover have "record_values reserved_state"
    using spool_state_values
    by (simp add: reserved_state_def record_values_def isValueMap_iff isCurrentProducerReservation_def spool_reservation_def)
  ultimately show ?thesis by (simp add: startable_iff)
qed

text \<open>Reserved: the tuple is journaled as a reservation. Promoted: already as a source.\<close>

definition reserved :: spool_world where
  "reserved = spool_world_of reserved_state [spool_item_of Event_reservation ''e-1'' spool_tuple]"

definition promoted :: spool_world where
  "promoted = spool_world_of reserved_state [spool_item_of Event_source ''e-1'' spool_tuple]"

lemma steady_of:
  assumes "startable P (js ''host-1'') s" and "spool_related s items" and "list_all (\<lambda>i. validItem i (js ''host-1'')) items"
  shows "steady P good_env (spool_world_of s items)"
  using assms spool_world_inv[OF assms(3)] by (simp add: steady_def starts_def)

lemma reserved_steady: "steady P good_env reserved" "steady P good_env promoted"
proof -
  have fields: "bs_eventUploadCompletions reserved_state = None" "bs_terminalCancellations reserved_state = None"
    "bs_recentEvents reserved_state = []"
    by (simp_all add: reserved_state_def spool_state_def emptyState_def)
  have r: "reservation_of reserved_state (Some (js ''e-1'')) = Some spool_reservation"
    by (simp add: reservation_of_def reserved_state_def ovalues_def spool_reservation_def)
  show "steady P good_env reserved"
    unfolding reserved_def
    by (intro steady_of reserved_state_startable)
      (simp_all add: spool_related_def check_reservation_item truthy_def r cancellation_of_def fields
        spool_reservation_def ovalues_def)
  show "steady P good_env promoted"
    unfolding promoted_def
    by (intro steady_of reserved_state_startable)
      (simp_all add: spool_related_def check_item_def truthy_def session_mismatch_def find_event_def fields ovalues_def)
qed

lemma reserved_guard: "cancel_guard good_env cancel_request reserved"
  by (simp add: cancel_guard_def reserved_def reserved_for_def reserved_state_def spool_state_def emptyState_def
      ovalues_def spool_reservation_def cancel_key_def completion_of_def find_item_def js_ids session_fits_def
      provider_fits_def cancel_values_def isCurrentTerminalCancellation_def requested_cancellation_def)
    (simp add: cancel_request_def)

end
