(* ===== verification/Spool_Recovery.thy ===== *)
theory Spool_Recovery
  imports Spool_Queue Spool_Completion
begin

section \<open>Sealed items, and the recovery of the journals\<close>

text \<open>
  What a sealed item commits to, what dropping the unreadable items leaves, and what the recovery of a
  journaled cancellation does to the producer Event checkpoint of the Session it removes.
\<close>

subsection \<open>What a seal commits to\<close>

text \<open>The strings of the associated data are the well-formed ones.\<close>

definition item_text :: "spool_item \<Rightarrow> bool" where
  "item_text item \<longleftrightarrow> list_all isWellFormedUnicode [si_spoolItemId item, si_hostId item, si_sessionId item,
    (case si_eventId item of Some e \<Rightarrow> e | None \<Rightarrow> []), si_createdAt item]"

lemma kind_name_inject [simp]: "kind_name a = kind_name b \<longleftrightarrow> a = b"
  by (cases a; cases b) simp_all

lemma kind_name_text: "isWellFormedUnicode (js (kind_name k))"
proof -
  have "\<forall>c \<in> set (kind_name k). of_char c < (128 :: nat)" by (cases k) simp_all
  then show ?thesis by (rule ascii_well_formed[OF js_ascii])
qed

lemma spool_label_text: "isWellFormedUnicode (js ''ariava-local-spool-v1'')" "isWellFormedUnicode (js ''1'')"
  by (rule ascii_well_formed[OF js_ascii], simp)+

lemma aad_inject:
  assumes "spoolAAD a = spoolAAD b" and "item_text a" and "item_text b"
  shows "si_spoolItemId a = si_spoolItemId b \<and> si_hostId a = si_hostId b \<and> si_sessionId a = si_sessionId b
    \<and> truthy (si_eventId a) = truthy (si_eventId b) \<and> si_payloadKind a = si_payloadKind b
    \<and> si_createdAt a = si_createdAt b"
  using encode_fields_inject[OF assms(1)[unfolded spoolAAD_def]] assms(2,3)
  by (auto simp: item_text_def kind_name_text spool_label_text truthy_def split: option.splits)

subsection \<open>Dropping the unreadable items\<close>

lemma wp_recoverUnreadable:
  assumes inv: "spool_inv E w"
    and fail: "\<And>e w'. same_world w w' \<Longrightarrow> \<not> healthy E w \<Longrightarrow> Q (Inl e) w'"
    and none: "\<And>k w'. same_world w w' \<Longrightarrow> (healthy E w \<Longrightarrow> healthy E w')
      \<Longrightarrow> list_all (\<lambda>item. is_ok (aead_open k item)) (sw_items w) \<Longrightarrow> Q (ok 0) w'"
    and some: "\<And>k w'. same_store w w' \<Longrightarrow> (healthy E w \<Longrightarrow> healthy E w') \<Longrightarrow> spool_inv E w'
      \<Longrightarrow> sw_items w' = filter (\<lambda>item. is_ok (aead_open k item)) (sw_items w)
      \<Longrightarrow> length (sw_items w') < length (sw_items w)
      \<Longrightarrow> Q (ok (length (sw_items w) - length (sw_items w'))) w'"
    and tear: "\<And>k e w'. torn E (filter (\<lambda>item. is_ok (aead_open k item)) (sw_items w)) w w' \<Longrightarrow> Q (Inl e) w'"
  shows "wp (recoverUnreadable E) Q w"
proof (cases "assertStateStoreAccess (sw_store w)")
  case (Inl e)
  then show ?thesis by (simp add: recoverUnreadable_def wp_steps healthy_def fail)
next
  case (Inr u)
  show ?thesis
    unfolding recoverUnreadable_def wp_steps Inr sum.case
  proof (rule wp_key, goal_cases)
    case (1 e w1)
    then show ?case by (simp add: fail)
  next
    case (2 k w1)
    let ?readable = "filter (\<lambda>item. is_ok (aead_open k item)) (sw_items w)"
    have items: "sw_items w1 = sw_items w" using 2 by (simp add: same_defs)
    show ?case
    proof (cases "length ?readable = length (sw_items w)")
      case True
      then have "list_all (\<lambda>item. is_ok (aead_open k item)) (sw_items w)"
        using length_filter_less[of _ "sw_items w"] by (force simp: list_all_iff)
      then show ?thesis using 2 True by (simp add: items wp_steps none)
    next
      case False
      then have less: "length ?readable < length (sw_items w)"
        using length_filter_le[of _ "sw_items w"] by (simp add: order_less_le)
      have "wp (sh_bind (spool_persist E ?readable) (\<lambda>_. sh_bind (sh_modify (\<lambda>w. w\<lparr>sw_items := ?readable\<rparr>))
          (\<lambda>_. sh_return (length (sw_items w) - length ?readable)))) Q w1"
        unfolding wp_bind[of "spool_persist E ?readable"] wp_bind[of "sh_modify f" for f] wp_modify wp_pure sum.case
      proof (rule wp_persist_items, goal_cases)
        case 1
        then show ?case using inv by (auto simp: spool_inv_iff list_all_iff)
      next
        case 2
        then show ?case using \<open>sw_keyId w1 = Some (se_keyIdForKey E k)\<close> by simp
      next
        case (3 e w2)
        then show ?case using 2 same_world_trans by (auto intro: fail)
      next
        case (4 w2 f)
        then show ?case using 2 less inv
          some[of "w2\<lparr>sw_items := ?readable\<rparr>" k]
          by (auto simp: same_defs spool_inv_iff list_all_iff)
      next
        case (5 e w2)
        then show ?case using tear[OF torn_same[OF \<open>same_world w w1\<close>]] by simp
      qed
      then show ?thesis using less by (simp add: items wp_bind[of "sh_get f" for f] wp_pure Let_def)
    qed
  qed
qed

subsection \<open>A checkpoint without its Session\<close>

definition stranded :: "jsstring \<Rightarrow> bridge_state \<Rightarrow> bool" where
  "stranded i s \<longleftrightarrow> oget (bs_sessions s) i = None \<and> oget (opt_object (bs_producerEventCheckpoints s)) i \<noteq> None"

lemma stranded_without_cancellation [simp]: "stranded i (without_cancellation e s) = stranded i s"
  by (simp add: stranded_def without_cancellation_def)

lemma stranded_unloadable: "stranded i s \<Longrightarrow> parseCurrentState P s (Some h) \<noteq> ok s'"
proof
  assume s: "stranded i s" and p: "parseCurrentState P s (Some h) = ok s'"
  obtain c where c: "oget (opt_object (bs_producerEventCheckpoints s)) i = Some c" using s by (auto simp: stranded_def)
  have "\<not> checkpoint_bound s (i, c)" using s by (simp add: stranded_def checkpoint_bound_def)
  then have "\<not> checkpoints_related s" using oget_SomeD[OF c] unfolding checkpoints_related_def by blast
  then show False using p by (simp add: parse_iff related_def)
qed

lemma recovered_stranded:
  assumes "tc_removeSession c" and "oget (opt_object (bs_producerEventCheckpoints s)) (tc_sessionId c) \<noteq> None"
  shows "stranded (tc_sessionId c) (recovered_state c s)"
  using assms
  by (simp add: stranded_def recovered_state_def Let_def with_cancellation_def without_reservation_def oget_odel)

text \<open>No step after the commit gives the Session back or drops the checkpoint.\<close>

definition strands :: "jsstring \<Rightarrow> spool_world \<Rightarrow> bool" where
  "strands i w \<longleftrightarrow> sw_spoolReady w \<and> st_has_path (sw_store w)
    \<and> stranded i (st_live (sw_store w)) \<and> stranded i (st_disk (sw_store w))"

lemma strands_kept: "strands i w \<Longrightarrow> same_store w w' \<Longrightarrow> strands i w'"
  by (simp add: strands_def same_store_def)

lemma strands_same: "strands i w \<Longrightarrow> same_world w w' \<Longrightarrow> strands i w'"
  using strands_kept by (simp add: same_world_def)

lemma strands_store:
  assumes "strands i w" and "same_spool w w'" and "st_has_path (sw_store w')"
    and "stranded i (st_live (sw_store w'))" and "stranded i (st_disk (sw_store w'))"
  shows "strands i w'"
  using assms by (simp add: strands_def same_spool_def)

lemma strands_commit:
  assumes w: "strands i w" and s: "stranded i s"
  shows "wp (shell_commit E s) (\<lambda>r. strands i) w"
proof (rule wp_commit, goal_cases)
  case 1
  then show ?case using w by (simp add: strands_def)
next
  case (2 e w')
  then show ?case using strands_same[OF w] by simp
next
  case (3 e w')
  then show ?case using w s by (intro strands_store[OF w]) (simp_all add: strands_def)
next
  case (4 w')
  then show ?case using w s by (intro strands_store[OF w]) (simp_all add: strands_def)
qed

lemma wp_get_bind: "wp (sh_bind (spool_get j) f) Q w = (case assertStateStoreAccess (sw_store w) of
    Inl e \<Rightarrow> Q (Inl e) w | Inr u \<Rightarrow> wp (f (find_item (sw_items w) j)) Q w)"
  by (auto simp: spool_get_def wp_steps split: sum.split)

lemma strands_finish:
  assumes w: "strands i w" and inv: "spool_inv E w"
  shows "wp (finishTerminalCancellation E c) (\<lambda>r. strands i) w"
proof -
  let ?clear = "sh_bind shell_state (\<lambda>s. sh_catch (shell_commit E (without_cancellation (tc_eventId c) s)) (\<lambda>_. sh_return ()))"
  let ?after = "\<lambda>removed. if \<not> removed then sh_return () else ?clear"
  have clear: "wp ?clear (\<lambda>r. strands i) w1" if w1: "strands i w1" for w1
    unfolding wp_bind
  proof (rule wp_state[where E = E], goal_cases)
    case 2
    have "wp (shell_commit E (without_cancellation (tc_eventId c) (st_live (sw_store w1)))) (\<lambda>r. strands i) w1"
      using w1 by (intro strands_commit) (simp_all add: strands_def)
    then show ?case unfolding sum.case wp_catch
      by (rule wp_mono) (simp add: wp_pure split: sum.split)
  qed (use w1 in simp)
  have remove: "wp (sh_catch (sh_bind (spool_removeMany E ids) (\<lambda>_. sh_return True)) (\<lambda>_. sh_return False))
      (\<lambda>r. strands i) w" for ids
    unfolding wp_catch wp_bind
  proof (rule wp_removeMany, goal_cases)
    case 1
    then show ?case by (rule inv)
  next
    case (2 e w')
    then show ?case using strands_same[OF w] by (simp add: wp_pure)
  next
    case (3 w')
    then show ?case using strands_kept[OF w] by (simp add: wp_pure)
  next
    case (4 e w')
    then show ?case using strands_kept[OF w] by (simp add: wp_pure torn_def)
  qed
  have after: "wp (?after b) (\<lambda>r. strands i) w1" if "strands i w1" for b w1
    using clear[OF that] that by (simp add: wp_pure)
  have "wp (sh_bind (if b then sh_catch (sh_bind (spool_removeMany E ids) (\<lambda>_. sh_return True)) (\<lambda>_. sh_return False)
      else sh_return True) ?after) (\<lambda>r. strands i) w" for b ids
  proof (rule wp_bind_rule[where R = "\<lambda>r. strands i"])
    show "wp (if b then sh_catch (sh_bind (spool_removeMany E ids) (\<lambda>_. sh_return True)) (\<lambda>_. sh_return False)
        else sh_return True) (\<lambda>r. strands i) w"
      using remove[of ids] w by (simp add: wp_pure)
  next
    show "wp (?after a) (\<lambda>r. strands i) w'" if "strands i w'" for a w' by (rule after[OF that])
  qed
  moreover have "sw_spoolReady w" using w by (simp add: strands_def)
  ultimately show ?thesis
    using strands_same[OF w]
    by (cases "assertStateStoreAccess (sw_store w)")
      (simp_all add: finishTerminalCancellation_def wp_with_spool wp_get_bind w)
qed

lemma wp_source:
  assumes inv: "spool_inv E w" and ready: "sw_spoolReady w"
  shows "wp (assertTerminalCancellationSource E c) (\<lambda>r w'. spool_kept E w w') w"
proof (cases "assertStateStoreAccess (sw_store w)")
  case (Inl e)
  then show ?thesis
    using ready by (simp add: assertTerminalCancellationSource_def wp_with_spool wp_get_bind spool_kept_refl[OF inv])
next
  case (Inr u)
  have tuple: "wp (openProducerTuple E k e f) (\<lambda>r w'. spool_kept E w w') w" for k e f
    by (rule wp_mono[OF wp_open_tuple[OF inv ready]]) simp
  have "wp (sh_bind (openProducerTuple E k e f) g) (\<lambda>r w'. spool_kept E w w') w"
    if "\<And>a w'. wp (g a) (\<lambda>r w''. w'' = w') w'" for k e f and g :: "_ \<Rightarrow> unit shell"
    by (rule wp_bind_rule[OF tuple], simp, rule wp_mono[OF that]) simp
  then show ?thesis
    using ready Inr
    by (auto simp: assertTerminalCancellationSource_def wp_with_spool wp_get_bind wp_pure spool_kept_refl[OF inv]
        split: option.split)
qed

lemma recovered_wp:
  assumes inv: "spool_inv E w" and ready: "sw_spoolReady w" and path: "st_has_path (sw_store w)"
    and one: "filter (\<lambda>i. si_payloadKind i = Terminal_cancellation) (sw_items w) = [item]"
    and found: "find_item (sw_items w) (si_spoolItemId item) = Some item"
    and unseals: "\<forall>k p. aead_open k item = ok p \<longrightarrow> p = Cancellation_payload c"
    and none: "bs_terminalCancellations (st_live (sw_store w)) = None"
    and c: "tc_removeSession c" "oget (opt_object (bs_producerEventCheckpoints (st_live (sw_store w)))) (tc_sessionId c) \<noteq> None"
  shows "wp (reconcileTerminalCancellations E) (\<lambda>r w'. r = ok () \<longrightarrow> stranded (tc_sessionId c) (st_disk (sw_store w'))) w"
    (is "wp _ ?Q w")
proof -
  let ?i = "tc_sessionId c"
  let ?settle = "sh_bind (finishTerminalCancellation E c) (\<lambda>_. sh_bind (require_settled c) (\<lambda>_. sh_return ()))"
  let ?commit = "sh_bind shell_state (\<lambda>s. sh_bind (shell_commit E (recovered_state c s)) (\<lambda>_. ?settle))"
  have settle: "wp ?settle ?Q w1" if "strands ?i w1" "spool_inv E w1" for w1
    by (rule wp_bind_rule[OF strands_finish[OF that]])
      (auto simp: strands_def require_settled_def wp_steps split: sum.split)
  have commit: "wp ?commit ?Q w1" if k: "spool_kept E w w1" for w1
    unfolding wp_bind[of shell_state]
  proof (rule wp_state[where E = E], goal_cases)
    case 2
    have live: "st_live (sw_store w1) = st_live (sw_store w)" "st_has_path (sw_store w1)" "sw_spoolReady w1" "spool_inv E w1"
      using keptD[OF k] path ready by auto
    have s: "stranded ?i (recovered_state c (st_live (sw_store w)))" using c by (rule recovered_stranded)
    show ?case
      unfolding sum.case wp_bind[of "shell_commit E s" for s]
    proof (rule wp_commit, goal_cases)
      case (4 w2)
      have "spool_inv E w2" using spool_inv_same[OF 4(1)] live by simp
      moreover have "sw_spoolReady w2" using 4(1) live by (simp add: same_spool_def)
      ultimately have "strands ?i w2" "spool_inv E w2" using 4(2) live s by (simp_all add: strands_def)
      then show ?case using settle by simp
    qed (use live in auto)
  qed simp
  have intents: "wp (reconcile_intents E [item]) ?Q w"
    unfolding reconcile_intents.simps wp_bind[of "openSpoolJson E j" for j]
  proof (rule wp_json[OF ready], goal_cases)
    case (3 k p it w1)
    have k: "spool_kept E w w1" by (rule kept_same[OF inv 3(1)])
    have p: "p = Cancellation_payload c" using 3 found unseals by auto
    have source: "wp (sh_bind (assertTerminalCancellationSource E c) (\<lambda>_. ?commit)) ?Q w1"
    proof (rule wp_bind_rule[OF wp_source])
      show "spool_inv E w1" "sw_spoolReady w1" using keptD[OF k] ready by auto
    next
      fix a w2
      assume "spool_kept E w1 w2"
      then show "wp ?commit ?Q w2" by (rule commit[OF spool_kept_trans[OF k]])
    qed simp
    show ?case
      unfolding p sum.case option.case payload.case
    proof (rule wp_bind_rule[OF wp_reservation[where E = E and Q = "\<lambda>r w'. w' = w1"]], goal_cases)
      case (4 a w2)
      then show ?case using source by (auto simp: wp_get_bind wp_pure split: sum.split)
    qed simp_all
  qed (use found in \<open>auto simp: wp_pure evidence_conflict_def\<close>)
  have intents': "wp (reconcile_intents E (map snd (foldl (\<lambda>m item. oput (si_eventId item) item m) [] [item]))) ?Q w"
    using intents by (simp add: oput_def del: reconcile_intents.simps)
  show ?thesis
  proof (cases "assertStateStoreAccess (sw_store w)")
    case (Inl e)
    then show ?thesis using ready by (simp add: reconcileTerminalCancellations_def wp_steps spool_list_def)
  next
    case (Inr u)
    have rest: "wp (sh_bind shell_state (\<lambda>s. sh_bind (reconcile_state_cancellations E (ovalues (opt_object (bs_terminalCancellations s)))
        (foldl (\<lambda>m item. oput (si_eventId item) item m) [] [item])) (\<lambda>intents. reconcile_intents E (ovalues intents)))) ?Q w"
      unfolding wp_bind[of shell_state]
      by (rule wp_state[where E = E])
        (use none intents' in \<open>simp_all add: ovalues_def wp_bind[of "sh_return a" for a] wp_pure del: reconcile_intents.simps foldl.simps\<close>)
    show ?thesis
      using ready Inr rest
      by (simp add: reconcileTerminalCancellations_def wp_with_spool spool_list_def wp_bind[of "sh_bind m f" for m f]
          wp_bind[of spool_access] wp_access wp_pure eq_commute[of Terminal_cancellation] one
          del: reconcile_intents.simps foldl.simps)
  qed
qed

end
