(* ===== verification/Spool_Properties.thy ===== *)
theory Spool_Properties
  imports Spool_Examples Spool_Recovery
begin

section \<open>Properties of the spool and of its transactions\<close>

lemmas shell_defs = sh_bind_def sh_return_def sh_throw_def sh_get_def sh_modify_def sh_lift_def sh_catch_def
  tick_def spool_access_def shell_state_def

subsection \<open>Completing an upload\<close>

text \<open>
  C11. Completing an uploaded Event is crash-safe, from a world the Bridge starts from and if the journal
  holds no completion of the same Session with an older revision. Whatever the writes of the two files, the
  reads of the spool file and the key store do at each step, the Bridge can start again with the spool file
  from the state file, and from the state in memory; a completion that returns has committed the revision
  of the Session and dropped the journal entry, the inflight item and the source, in memory and on disk,
  and the spool in memory is its file. If nothing fails it returns.
\<close>

theorem upload_completion_is_crash_safe:
  assumes "steady P E w" and "completion_of (live_of w) k = Some c" and "oldest_completion (live_of w) k"
    and "completeEventUpload E k w = (r, w')"
  shows "next_start P E (disk_of w') w' \<and> next_start P E (live_of w') w'
    \<and> (r = ok () \<longrightarrow> spool_inv E w' \<and> completed k c w')
    \<and> (healthy E w \<longrightarrow> r = ok ())"
  using wpD[OF complete_wp[OF assms(1-3)] assms(4)] safe_next_start[of P E w'] by (auto dest: steadyD(3))

theorem upload_completion_is_crash_safe_witness:
  "\<exists>r w'. completeEventUpload good_env (js ''e-1'') completing = (r, w') \<and> r = ok ()
    \<and> completed (js ''e-1'') spool_completion w'"
proof -
  have c: "completion_of (live_of completing) (js ''e-1'') = Some spool_completion"
    by (simp add: completion_of_def completing_def)
  have oldest: "oldest_completion (live_of completing) (js ''e-1'')"
    by (simp add: oldest_completion_def completion_of_def completing_def ovalues_def)
  obtain r w' where run: "completeEventUpload good_env (js ''e-1'') completing = (r, w')" by fastforce
  from upload_completion_is_crash_safe[OF completing_steady[of sample_wire] c oldest run] run
  show ?thesis by (simp add: completing_def)
qed

text \<open>
  C12. At the next start, where the state in memory is that of the file, every journaled completion is
  resumed, whatever step it stopped at, if the journal lists the completions of each Session by revision (as
  they are begun; a Session may have several): no pattern of failures leaves files the Bridge cannot start
  from, and in a healthy environment the recovery returns with no completion left, on disk either.
\<close>

theorem resumed_uploads_finish:
  assumes "steady P E w" and "completions_in_order (live_of w)" and "disk_of w = live_of w"
    and "resumeEventUploadCompletions E w = (r, w')"
  shows "next_start P E (disk_of w') w'
    \<and> (healthy E w \<longrightarrow> r = ok () \<and> opt_object (bs_eventUploadCompletions (disk_of w')) = [])"
  using wpD[OF resume_wp[OF assms(1,2)] assms(4)] assms(3) safe_next_start[of P E w'] by auto

theorem resumed_uploads_finish_witness:
  "\<exists>r w'. resumeEventUploadCompletions good_env two_completions = (r, w') \<and> r = ok ()
    \<and> opt_object (bs_eventUploadCompletions (disk_of w')) = []"
proof -
  have order: "completions_in_order (live_of two_completions)"
    by (simp add: completions_in_order_def two_completions_def ovalues_def before_def earlier_completion_def
        spool_completion_def)
  obtain r w' where run: "resumeEventUploadCompletions good_env two_completions = (r, w')" by fastforce
  from resumed_uploads_finish[OF two_completions_steady[of sample_wire] order _ run] run
  show ?thesis by (simp add: two_completions_def)
qed

text \<open>
  C34. A defect. A completion whose Session is already at its revision can stay in the journal: its last
  writes failed, and it is resumed only at the next start. The completion of the next Event of the Session
  then commits the next revision without looking at it: when it returns, the state file holds a completion
  that does not fit the revision of its Session, which the next start refuses.
\<close>

theorem second_completion_breaks_the_next_start:
  assumes "st_has_path (sw_store w)" and "spool_inv E w" and "j \<noteq> k"
    and "completion_of (live_of w) j = Some d"
    and "ec_revision d = readCurrentSessionRevision (live_of w) (ec_sessionId d)"
    and "completion_of (live_of w) k = Some c" and "ec_sessionId c = ec_sessionId d"
    and "ec_revision c = ec_revision d + 1" and "ec_revisionCommitted c \<noteq> Some True"
    and "completeEventUpload E k w = (ok (), w')"
  shows "parseCurrentState P (disk_of w') (Some h) \<noteq> ok s"
  using wpD[OF second_completion_wp[OF assms(1-9)] assms(10)]
  by (intro stale_unloadable[of j "disk_of w'" P h s]) (simp add: left_behind_def)

theorem second_completion_breaks_the_next_start_witness:
  "next_start sample_wire good_env (disk_of two_completions) two_completions
    \<and> (\<exists>w'. completeEventUpload good_env (js ''e-1'') two_completions = (ok (), w')
      \<and> (\<forall>s. parseCurrentState sample_wire (disk_of w') (Some (js ''host-1'')) \<noteq> ok s))"
proof -
  let ?w = two_completions and ?c = "spool_completion\<lparr>ec_revision := 2\<rparr>"
  have before: "next_start sample_wire good_env (disk_of ?w) ?w"
    using safe_next_start[OF steady_safe[OF two_completions_steady]] by blast
  have pre: "st_has_path (sw_store ?w)" "spool_inv good_env ?w" "js ''e-0'' \<noteq> js ''e-1''"
    using steadyD(2,3)[OF two_completions_steady[of sample_wire]] by simp_all
  have entries: "completion_of (live_of ?w) (js ''e-0'') = Some earlier_completion"
    "ec_revision earlier_completion = readCurrentSessionRevision (live_of ?w) (ec_sessionId earlier_completion)"
    "completion_of (live_of ?w) (js ''e-1'') = Some ?c" "ec_sessionId ?c = ec_sessionId earlier_completion"
    "ec_revision ?c = ec_revision earlier_completion + 1" "ec_revisionCommitted ?c \<noteq> Some True"
    by (simp_all add: two_completions_def completion_of_def earlier_completion_def spool_completion_def
        readCurrentSessionRevision_def)
  have "fst (completeEventUpload good_env (js ''e-1'') ?w) = ok ()"
    unfolding two_completions_def spool_world_of_def
    by (simp add: completeEventUpload_def shell_defs completion_of_def spool_completion_def earlier_completion_def
        commitSessionRevision_def applyTransition_def commitSessionRevisionTransition_def readCurrentSessionRevision_def
        updateEventCompletion_def put_completion_def drop_completion_def remove_if_spool_def with_spool_def spool_remove_def
        spool_replace_def loadVerifiedKey_def spool_persist_def write_spool_def shell_set_state_def shell_persist_def
        store_persist_def write_state_def read_state_def assertStateStoreAccess_def oget_oput Let_def)
  then obtain w' where run: "completeEventUpload good_env (js ''e-1'') ?w = (ok (), w')" by (cases "completeEventUpload good_env (js ''e-1'') ?w") auto
  from second_completion_breaks_the_next_start[OF pre entries run] before run show ?thesis by blast
qed

subsection \<open>Cancelling a terminal Event\<close>



text \<open>
  C33. A defect. The guard of the cancellation lets an Event through whose tuple \<open>queuePendingEvent\<close> has
  already promoted to a source (the promotion is durable, the state write that should have followed
  failed, so the reservation is still there and the retry is still pending). When the state write of
  the cancellation then fails as well, the journal item stays in the spool beside a source it does not
  recognise, and the next start refuses the two files.
\<close>

theorem promoted_event_cancellation_breaks_the_next_start:
  assumes "sw_spoolReady w" and "st_has_path (sw_store w)" and "healthy (E\<lparr>se_write := \<lambda>n. Written\<rparr>) w"
    and "map_option pr_eventId (oget (opt_object (bs_producerEventReservations (live_of w))) (cancel_key i)) = Some (ci_eventId i)"
    and "find_item (sw_items w) (ci_eventId i) = Some source" and "si_payloadKind source = Event_source"
    and "find_item (sw_items w) (terminalCancellationItemId (ci_eventId i)) = None" and "ci_eventId i \<noteq> []"
    and "oget (opt_object (bs_terminalCancellations (disk_of w))) (ci_eventId i) = None"
    and "se_write E (Suc (sw_tick w)) = Written" and "se_write E (Suc (Suc (sw_tick w))) = Not_written"
  shows "\<exists>e w'. cancelTerminalEvent E i w = (Inl e, w') \<and> disk_of w' = disk_of w
    \<and> map_option sf_items (sw_file w') = Some (sw_items w')
    \<and> assertCurrentRuntimeRelationships P (disk_of w') (sw_items w') h \<noteq> ok ()"
proof -
  let ?e = "ci_eventId i" and ?id = "terminalCancellationItemId (ci_eventId i)"
  obtain k where key: "se_loadOrCreate E n b = ok k" "sw_keyId w = None \<or> sw_keyId w = Some (se_keyIdForKey E k)" for n b
    using assms(3) by (auto simp: healthy_def)
  have access: "assertStateStoreAccess (sw_store w) = ok ()" "read_state (sw_store w) = ok (live_of w)"
    using assms(3) healthy_read[OF assms(3)] by (simp_all add: healthy_def)
  define item where "item = seal_item (se_hostId E) k (intent_input i (requested_cancellation i))"
  have item: "si_spoolItemId item = ?id" "si_eventId item = Some ?e" "si_payloadKind item = Terminal_cancellation"
    using assms(8) by (simp_all add: item_def intent_input_def truthy_def)
  have id: "in_spoolItemId (intent_input i (requested_cancellation i)) = ?id" by (simp add: intent_input_def)
  let ?items = "sw_items w @ [item]"
  define w1 where "w1 = w\<lparr>sw_tick := Suc (sw_tick w), sw_keyId := Some (se_keyIdForKey E k)\<rparr>"
  have load: "loadVerifiedKey E w = (ok k, w1)"
    using access key by (auto simp: loadVerifiedKey_def shell_defs w1_def split: if_splits)
  obtain w2 where persist: "spool_persist E ?items w1 = (ok (), w2)"
    and w2: "sw_store w2 = sw_store w" "sw_tick w2 = Suc (Suc (sw_tick w))" "sw_spoolReady w2"
      "map_option sf_items (sw_file w2) = Some ?items"
    using access assms(1,10) by (auto simp: spool_persist_def shell_defs write_spool_def Let_def w1_def)
  define w3 where "w3 = w2\<lparr>sw_items := ?items, sw_hasPersistedItems := True\<rparr>"
  have enqueue: "spool_enqueue E (intent_input i (requested_cancellation i)) w = (ok item, w3)"
    using access assms(7) load persist
    by (simp add: spool_enqueue_def shell_defs Let_def item_def[symmetric] w3_def id)
  have commit: "shell_commit E s w3 = (throw (PlainError ''write failed''), w3\<lparr>sw_tick := Suc (Suc (Suc (sw_tick w)))\<rparr>)" for s
    using access assms(2,11) w2 by (simp add: shell_commit_def shell_defs w3_def store_commit_def write_state_def)
  have run: "\<exists>e w'. cancelTerminalEvent E i w = (Inl e, w') \<and> disk_of w' = disk_of w
      \<and> map_option sf_items (sw_file w') = Some (sw_items w') \<and> sw_items w' = ?items"
    using access assms(1,4,5,7,9) enqueue commit w2
    by (simp add: cancelTerminalEvent_def with_spool_def getProducerEventReservation_def spool_get_def
        openSpoolJson_def existing_intent_def diskHasTerminalCancellation_def shell_defs Let_def cancel_key_def w3_def
        requested_cancellation_def)
  have "check_item (disk_of w) ?items item \<noteq> ok ()"
    using assms(5,6,9) item
    by (auto simp: check_cancellation_item cancellation_of_def recoverable_intent_find find_item_append split: option.splits)
  then have "\<not> spool_related (disk_of w) ?items" by (auto simp: spool_related_def)
  then show ?thesis using run by (auto simp: assert_runtime_iff)
qed

definition failing_env :: spool_env where
  "failing_env = good_env\<lparr>se_write := \<lambda>n. if n = 2 then Not_written else Written\<rparr>"

theorem promoted_event_cancellation_breaks_the_next_start_witness:
  "assertCurrentRuntimeRelationships sample_wire (disk_of promoted) (sw_items promoted) (js ''host-1'') = ok ()
    \<and> (\<exists>e w'. cancelTerminalEvent failing_env cancel_request promoted = (Inl e, w') \<and> disk_of w' = disk_of promoted
      \<and> map_option sf_items (sw_file w') = Some (sw_items w')
      \<and> assertCurrentRuntimeRelationships sample_wire (disk_of w') (sw_items w') (js ''host-1'') \<noteq> ok ())"
proof -
  have healthy: "healthy (failing_env\<lparr>se_write := \<lambda>n. Written\<rparr>) promoted"
    unfolding promoted_def failing_env_def using spool_world_healthy[of reserved_state] by (simp add: healthy_def)
  have before: "assertCurrentRuntimeRelationships sample_wire (disk_of promoted) (sw_items promoted) (js ''host-1'') = ok ()"
    using reserved_steady(2)[of sample_wire] starts_loads[of sample_wire good_env] by (simp add: steady_def)
  have reservation: "map_option pr_eventId (oget (opt_object (bs_producerEventReservations (live_of promoted)))
      (cancel_key cancel_request)) = Some (ci_eventId cancel_request)"
    by (simp add: promoted_def reserved_state_def cancel_key_def spool_reservation_def)
  have rest: "sw_spoolReady promoted" "st_has_path (sw_store promoted)"
    "find_item (sw_items promoted) (ci_eventId cancel_request) = Some (spool_item_of Event_source ''e-1'' spool_tuple)"
    "find_item (sw_items promoted) (terminalCancellationItemId (ci_eventId cancel_request)) = None"
    "ci_eventId cancel_request \<noteq> []"
    "oget (opt_object (bs_terminalCancellations (disk_of promoted))) (ci_eventId cancel_request) = None"
    "se_write failing_env (Suc (sw_tick promoted)) = Written"
    "se_write failing_env (Suc (Suc (sw_tick promoted))) = Not_written"
    by (simp_all add: promoted_def find_item_def js_ids reserved_state_def spool_state_def emptyState_def failing_env_def)
  from promoted_event_cancellation_breaks_the_next_start
    [OF rest(1,2) healthy reservation rest(3) spool_item_of_fields(4) rest(4-8)] before
  show ?thesis by simp
qed

text \<open>
  C38. A defect. The cancellation of a Session with \<open>removeSession\<close> drops its producer Event checkpoint, the
  recovery of a cancellation that stopped after its journal write does not: it returns, and leaves on
  disk a state with a checkpoint of a Session that is gone, which the next start refuses.
\<close>

theorem recovered_cancellation_strands_its_checkpoint:
  assumes "spool_inv E w" and "sw_spoolReady w" and "st_has_path (sw_store w)"
    and "filter (\<lambda>i. si_payloadKind i = Terminal_cancellation) (sw_items w) = [item]"
    and "find_item (sw_items w) (si_spoolItemId item) = Some item"
    and "\<forall>k p. aead_open k item = ok p \<longrightarrow> p = Cancellation_payload c"
    and "bs_terminalCancellations (live_of w) = None" and "tc_removeSession c"
    and "oget (opt_object (bs_producerEventCheckpoints (live_of w))) (tc_sessionId c) \<noteq> None"
    and "reconcileTerminalCancellations E w = (ok (), w')"
  shows "parseCurrentState P (disk_of w') (Some h) \<noteq> ok s"
  using wpD[OF recovered_wp[OF assms(1-9)] assms(10)] stranded_unloadable by simp

definition stranding_cancellation :: terminal_cancellation where
  "stranding_cancellation = \<lparr>tc_sessionId = js ''s-1'', tc_eventId = js ''e-1'', tc_fingerprint = js ''f'',
    tc_removeSession = True, tc_createdAt = js ''u''\<rparr>"

definition stranding_state :: bridge_state where
  "stranding_state = reserved_state\<lparr>bs_producerEventCheckpoints :=
    Some [(js ''s-1'', \<lparr>ck_sessionId = js ''s-1'', ck_producerEventId = js ''p'', ck_producerEventOrder = js ''o'',
      ck_eventId = js ''e-0'', ck_fingerprint = js ''g'', ck_createdAt = js ''t''\<rparr>)]\<rparr>"

definition stranding :: spool_world where
  "stranding = spool_world_of stranding_state
    [spool_item_of Event_reservation ''e-1'' spool_tuple,
     spool_item_of Terminal_cancellation ''cancel:terminal:e-1'' (Cancellation_payload stranding_cancellation)]"

lemma stranding_steady: "steady P good_env stranding"
proof -
  have r: "reservation_of stranding_state (Some (js ''e-1'')) = Some spool_reservation"
    by (simp add: reservation_of_def stranding_state_def reserved_state_def ovalues_def spool_reservation_def)
  have fields: "bs_eventUploadCompletions stranding_state = None" "bs_terminalCancellations stranding_state = None"
    "bs_recentEvents stranding_state = []"
    by (simp_all add: stranding_state_def reserved_state_def spool_state_def emptyState_def)
  have "consistent P (js ''host-1'') stranding_state"
    using startable_facts(1)[OF startable_empty[OF sample_epoch_valid], of P "js ''host-1''"]
    by (simp add: stranding_state_def reserved_state_def spool_state_def startable_defs reservation_bound_def
        spool_reservation_def checkpoint_bound_def)
  moreover have "record_values stranding_state"
    using startable_facts(2)[OF reserved_state_startable[of sample_wire]]
    by (simp add: stranding_state_def record_values_def isValueMap_iff isCurrentProducerCheckpoint_def)
  ultimately have start: "startable P (js ''host-1'') stranding_state" by (simp add: startable_iff)
  show ?thesis
    unfolding stranding_def
    by (intro steady_of start)
      (simp_all add: spool_related_def check_reservation_item check_cancellation_item truthy_def r cancellation_of_def fields
        spool_reservation_def ovalues_def recoverable_intent_find find_item_def js_ids prefixed_id_def js_append[symmetric])
qed

theorem recovered_cancellation_strands_its_checkpoint_witness:
  "assertCurrentRuntimeRelationships sample_wire (disk_of stranding) (sw_items stranding) (js ''host-1'') = ok ()
    \<and> (\<exists>w'. reconcileTerminalCancellations good_env stranding = (ok (), w')
      \<and> (\<forall>s. parseCurrentState sample_wire (disk_of w') (Some (js ''host-1'')) \<noteq> ok s))"
proof -
  let ?item = "spool_item_of Terminal_cancellation ''cancel:terminal:e-1'' (Cancellation_payload stranding_cancellation)"
  have before: "assertCurrentRuntimeRelationships sample_wire (disk_of stranding) (sw_items stranding) (js ''host-1'') = ok ()"
    using stranding_steady[of sample_wire] starts_loads[of sample_wire good_env] by (simp add: steady_def)
  have pre: "spool_inv good_env stranding" "sw_spoolReady stranding" "st_has_path (sw_store stranding)"
    using stranding_steady[of sample_wire] by (simp_all add: steady_def)
  have one: "filter (\<lambda>i. si_payloadKind i = Terminal_cancellation) (sw_items stranding) = [?item]"
    "find_item (sw_items stranding) (si_spoolItemId ?item) = Some ?item"
    by (simp_all add: stranding_def find_item_def)
  have unseals: "\<forall>k p. aead_open k ?item = ok p \<longrightarrow> p = Cancellation_payload stranding_cancellation"
    by (simp add: aead_open_def spool_item_of_def seal_item_def Let_def split: if_splits)
  have fields: "bs_terminalCancellations stranding_state = None"
    "bs_producerEventReservations stranding_state = Some [(producerReservationKey (js ''s-1'') (js ''f''), spool_reservation)]"
    by (simp_all add: stranding_state_def reserved_state_def spool_state_def emptyState_def)
  have state: "bs_terminalCancellations (live_of stranding) = None" "tc_removeSession stranding_cancellation"
    "oget (opt_object (bs_producerEventCheckpoints (live_of stranding))) (tc_sessionId stranding_cancellation) \<noteq> None"
    by (simp_all add: stranding_def stranding_state_def reserved_state_def spool_state_def emptyState_def stranding_cancellation_def)
  obtain r w' where run: "reconcileTerminalCancellations good_env stranding = (r, w')" by fastforce
  have ev_bound: "assertEventSessionBinding spool_event spool_session = ok ()"
    by (simp add: assertEventSessionBinding_def) (simp add: spool_event_def spool_session_def)
  have "fst (reconcileTerminalCancellations good_env stranding) = ok ()"
    unfolding stranding_def spool_world_of_def
    by (simp add: reconcileTerminalCancellations_def shell_defs with_spool_def spool_list_def ovalues_def fields
        assertStateStoreAccess_def read_state_def oput_def openSpoolJson_def spool_get_def spool_open_def loadVerifiedKey_def
        find_item_def stranding_cancellation_def getProducerEventReservation_def assertTerminalCancellationSource_def
        openProducerTuple_def spool_tuple_def parse_tuple_def shell_commit_def store_commit_def write_state_def
        finishTerminalCancellation_def spool_removeMany_def spool_replace_def spool_persist_def write_spool_def
        require_settled_def js_ids spool_reservation_def recovered_state_def with_cancellation_def without_reservation_def
        without_cancellation_def Let_def ev_bound oget_odel)
  then have "r = ok ()" using run by simp
  then show ?thesis
    using recovered_cancellation_strands_its_checkpoint[OF pre one unseals state] run before by blast
qed





text \<open>
  C16. A sealed item opens only as the item it was sealed as. Under well-formed identifiers the associated
  data determines every field of the metadata, so that whoever moves a ciphertext to an item with
  another id, Host, Session, Event, kind or time gets an authentication error, and opened as itself it
  gives its plaintext back. The AEAD is symbolic: it accepts exactly the key and the associated data of
  the seal.
\<close>

theorem sealed_item_opens_only_as_itself:
  assumes "item_text a" and "item_text b" and "si_eventId a \<noteq> Some []" and "si_eventId b \<noteq> Some []"
  shows "(spoolAAD a = spoolAAD b \<longleftrightarrow> si_spoolItemId a = si_spoolItemId b \<and> si_hostId a = si_hostId b
      \<and> si_sessionId a = si_sessionId b \<and> si_eventId a = si_eventId b \<and> si_payloadKind a = si_payloadKind b
      \<and> si_createdAt a = si_createdAt b)
    \<and> (a = seal_item h k i \<and> si_sealed b = si_sealed a
      \<longrightarrow> ((\<exists>p. aead_open k b = ok p) \<longleftrightarrow> b = a) \<and> aead_open k a = ok (in_plaintext i))"
proof -
  have e: "truthy (si_eventId b) = si_eventId b" "truthy (si_eventId a) = si_eventId a"
    using assms(3,4) by (auto simp: truthy_def)
  have same: "spoolAAD a = spoolAAD b \<longleftrightarrow> si_spoolItemId a = si_spoolItemId b \<and> si_hostId a = si_hostId b
      \<and> si_sessionId a = si_sessionId b \<and> si_eventId a = si_eventId b \<and> si_payloadKind a = si_payloadKind b
      \<and> si_createdAt a = si_createdAt b"
    using aad_inject[OF _ assms(1,2)] e by (auto simp: spoolAAD_def)
  have "((\<exists>p. aead_open k b = ok p) \<longleftrightarrow> b = a) \<and> aead_open k a = ok (in_plaintext i)"
    if a: "a = seal_item h k i" "si_sealed b = si_sealed a"
  proof -
    have seal: "si_sealed a = Sealed k (spoolAAD a) (in_plaintext i)"
      using a by (simp add: seal_item_def spoolAAD_def Let_def)
    have "b = a" if "spoolAAD a = spoolAAD b"
      using that same a(2) by simp
    then show ?thesis using a seal by (auto simp: aead_open_def)
  qed
  then show ?thesis using same by blast
qed

theorem sealed_item_opens_only_as_itself_witness:
  "aead_open (js ''key'') (spool_item_of Event_source ''e-1'' Not_json) = ok Not_json
    \<and> (\<forall>p. aead_open (js ''key'') ((spool_item_of Event_source ''e-1'' Not_json)\<lparr>si_sessionId := js ''s-2''\<rparr>) \<noteq> ok p)"
proof -
  let ?a = "spool_item_of Event_source ''e-1'' Not_json"
  let ?b = "?a\<lparr>si_sessionId := js ''s-2''\<rparr>"
  let ?i = "\<lparr>in_spoolItemId = js ''e-1'', in_sessionId = js ''s-1'',
      in_eventId = Some (js ''e-1''), in_payloadKind = Event_source, in_createdAt = js ''t'', in_plaintext = Not_json\<rparr>"
  have texts: "item_text ?a" "item_text ?b"
    by (simp_all add: item_text_def spool_item_of_def truthy_def ascii_well_formed[OF js_ascii])
  have events: "si_eventId ?a \<noteq> Some []" "si_eventId ?b \<noteq> Some []" by simp_all
  have a: "?a = seal_item (js ''host-1'') (js ''key'') ?i" "si_sealed ?b = si_sealed ?a"
    by (simp_all add: spool_item_of_def)
  have "?b \<noteq> ?a"
  proof
    assume "?b = ?a"
    then have "si_sessionId ?b = si_sessionId ?a" by simp
    then show False by simp
  qed
  then show ?thesis
    using sealed_item_opens_only_as_itself[OF texts events, of "js ''host-1''" "js ''key''" ?i] a by simp
qed

end
