(* ===== verification/Authenticated_Data.thy ===== *)
theory Authenticated_Data
  imports Command_Wire
begin

section \<open>What the protocol authenticates\<close>

text \<open>
  The byte strings of \<open>packages/protocol/src/encryption.ts\<close> that go into an AEAD as associated data or
  into a signature or digest: content, receipts, previews and key wraps, the key bindings, the link
  transcript, the confirmation proof and the safety code. Each is a list of length-prefixed fields
  that starts with a domain. The lemmas show that the bytes determine the builder and its whole
  input, so no ciphertext, wrap or proof can be presented as another one.
\<close>

subsection \<open>Metadata\<close>

datatype event_type = Type_done | Type_need_human

fun event_type_name :: "event_type \<Rightarrow> string" where
  "event_type_name Type_done = ''done''"
| "event_type_name Type_need_human = ''need_human''"

fun session_status_name :: "session_status \<Rightarrow> string" where
  "session_status_name Session_idle = ''idle''"
| "session_status_name Session_working = ''working''"
| "session_status_name Session_need_human = ''need_human''"

datatype protected_payload_kind =
  Event_content | Session_content | Reply_content | Interrupt_content | Command_receipt_content | Notification_preview

fun payload_kind_name :: "protected_payload_kind \<Rightarrow> string" where
  "payload_kind_name Event_content = ''event-content-v3''"
| "payload_kind_name Session_content = ''session-content-v3''"
| "payload_kind_name Reply_content = ''reply-content-v1''"
| "payload_kind_name Interrupt_content = ''interrupt-content-v1''"
| "payload_kind_name Command_receipt_content = ''command-receipt-content-v1''"
| "payload_kind_name Notification_preview = ''notification-preview-v2''"

datatype e2e_direction = Bridge_to_watch | Watch_to_bridge

fun direction_name :: "e2e_direction \<Rightarrow> string" where
  "direction_name Bridge_to_watch = ''bridge-to-watch''"
| "direction_name Watch_to_bridge = ''watch-to-bridge''"

datatype entity_type = Host_entity | Watch_entity

fun entity_name :: "entity_type \<Rightarrow> string" where
  "entity_name Host_entity = ''host''"
| "entity_name Watch_entity = ''watch''"

record relay_event_metadata =
  em_eventId :: jsstring
  em_hostId :: jsstring
  em_sessionId :: jsstring
  em_provider :: jsstring
  em_type :: event_type
  em_status :: session_status
  em_createdAt :: jsstring

record relay_session_metadata =
  sm_hostId :: jsstring
  sm_sessionId :: jsstring
  sm_provider :: jsstring
  sm_status :: session_status
  sm_updatedAt :: jsstring
  sm_lastEventId :: "jsstring option"
  sm_snoozedUntil :: "jsstring option"

subsection \<open>The inputs\<close>

record event_aad = relay_event_metadata +
  ea_contentId :: jsstring

record session_aad = relay_session_metadata +
  sa_revision :: int
  sa_contentId :: jsstring

record reply_aad =
  ra_hostId :: jsstring
  ra_watchDeviceId :: jsstring
  ra_sessionId :: jsstring
  ra_commandId :: jsstring
  ra_targetAlertEventId :: jsstring
  ra_issuedAt :: jsstring
  ra_expiresAt :: jsstring
  ra_nonce :: jsstring
  ra_contentId :: jsstring

record interrupt_aad =
  ia_hostId :: jsstring
  ia_watchDeviceId :: jsstring
  ia_sessionId :: jsstring
  ia_commandId :: jsstring
  ia_issuedAt :: jsstring
  ia_expiresAt :: jsstring
  ia_nonce :: jsstring
  ia_contentId :: jsstring

record receipt_aad =
  ca_hostId :: jsstring
  ca_watchDeviceId :: jsstring
  ca_sessionId :: jsstring
  ca_commandId :: jsstring
  ca_isReply :: bool
  ca_commandDigest :: jsstring
  ca_completedAt :: jsstring
  ca_contentId :: jsstring

record preview_aad =
  na_hostId :: jsstring
  na_watchDeviceId :: jsstring
  na_eventId :: jsstring
  na_sessionId :: jsstring
  na_eventType :: event_type
  na_linkId :: jsstring
  na_linkGeneration :: int
  na_epoch :: int
  na_senderEncryptionKeyId :: jsstring
  na_recipientEncryptionKeyId :: jsstring
  na_contentId :: jsstring

record wrap_aad =
  wa_direction :: e2e_direction
  wa_linkId :: jsstring
  wa_linkGeneration :: int
  wa_epoch :: int
  wa_hostId :: jsstring
  wa_watchDeviceId :: jsstring
  wa_senderEncryptionKeyId :: jsstring
  wa_recipientEncryptionKeyId :: jsstring
  wa_contentId :: jsstring
  wa_payloadKind :: protected_payload_kind

record key_binding =
  kb_entityType :: entity_type
  kb_entityId :: jsstring
  kb_identityKeyId :: jsstring
  kb_encryptionKeyId :: jsstring
  kb_suite :: jsstring
  kb_publicKey :: jsstring
  kb_sequence :: int
  kb_createdAt :: jsstring

record link_transcript =
  lt_linkId :: jsstring
  lt_hostId :: jsstring
  lt_watchDeviceId :: jsstring
  lt_linkGeneration :: int
  lt_epoch :: int
  lt_hostBindingDigest :: jsstring
  lt_watchBindingDigest :: jsstring
  lt_suite :: "jsstring option"

subsection \<open>The builders\<close>

abbreviation aad_identifier :: "jsstring \<Rightarrow> bool" where
  "aad_identifier v \<equiv> isBoundedWellFormedString v 256"

definition isCanonicalOptionalAADString :: "jsstring option \<Rightarrow> bool" where
  "isCanonicalOptionalAADString v \<longleftrightarrow> (case v of None \<Rightarrow> True | Some x \<Rightarrow> aad_identifier x)"

definition isCanonicalOptionalTimestamp :: "jsstring option \<Rightarrow> bool" where
  "isCanonicalOptionalTimestamp v \<longleftrightarrow> (case v of None \<Rightarrow> True | Some x \<Rightarrow> is_canonical_timestamp x)"

abbreviation or_empty :: "jsstring option \<Rightarrow> jsstring" where
  "or_empty v \<equiv> (case v of Some x \<Rightarrow> x | None \<Rightarrow> [])"

definition build :: "string \<Rightarrow> bool \<Rightarrow> jsstring list \<Rightarrow> byte list result" where
  "build label valid parts = (if valid then ok (encodeLengthPrefixedFields parts)
     else throw (TypeError (label @ '' is invalid'')))"

definition event_aad_valid :: "event_aad \<Rightarrow> bool" where
  "event_aad_valid i \<longleftrightarrow>
    ((em_type i = Type_done \<and> em_status i = Session_idle)
      \<or> (em_type i = Type_need_human \<and> em_status i = Session_need_human))
    \<and> aad_identifier (em_hostId i) \<and> aad_identifier (em_sessionId i) \<and> aad_identifier (em_provider i)
    \<and> aad_identifier (em_eventId i) \<and> is_canonical_timestamp (em_createdAt i) \<and> aad_identifier (ea_contentId i)"

definition event_aad_fields :: "event_aad \<Rightarrow> jsstring list" where
  "event_aad_fields i = [js ''ariava-event-content-aad-v3'', js ''bridge-to-watch'', em_hostId i, em_sessionId i,
    em_provider i, em_eventId i, js (event_type_name (em_type i)), js (session_status_name (em_status i)),
    em_createdAt i, ea_contentId i, js ''event-content-v3'']"

definition buildEventContentAAD :: "event_aad \<Rightarrow> byte list result" where
  "buildEventContentAAD i = build ''event content AAD input'' (event_aad_valid i) (event_aad_fields i)"

definition session_aad_valid :: "session_aad \<Rightarrow> bool" where
  "session_aad_valid i \<longleftrightarrow> aad_identifier (sm_hostId i) \<and> aad_identifier (sm_sessionId i) \<and> aad_identifier (sm_provider i)
    \<and> is_canonical_timestamp (sm_updatedAt i) \<and> isPositiveInteger (sa_revision i)
    \<and> isCanonicalOptionalAADString (sm_lastEventId i) \<and> isCanonicalOptionalTimestamp (sm_snoozedUntil i)
    \<and> aad_identifier (sa_contentId i)"

definition session_aad_fields :: "session_aad \<Rightarrow> jsstring list" where
  "session_aad_fields i = [js ''ariava-session-content-aad-v3'', js ''bridge-to-watch'', sm_hostId i, sm_sessionId i,
    sm_provider i, js (session_status_name (sm_status i)), sm_updatedAt i, or_empty (sm_lastEventId i),
    or_empty (sm_snoozedUntil i), num_string (sa_revision i), sa_contentId i, js ''session-content-v3'']"

definition buildSessionContentAAD :: "session_aad \<Rightarrow> byte list result" where
  "buildSessionContentAAD i = build ''session content AAD input'' (session_aad_valid i) (session_aad_fields i)"

definition reply_aad_fields :: "reply_aad \<Rightarrow> jsstring list" where
  "reply_aad_fields i = [js ''ariava-content-aad-v1'', js ''watch-to-bridge'', ra_hostId i, ra_watchDeviceId i,
    ra_sessionId i, ra_commandId i, ra_targetAlertEventId i, ra_issuedAt i, ra_expiresAt i, ra_nonce i,
    ra_contentId i, js ''reply-content-v1'']"

definition buildReplyContentAAD :: "reply_aad \<Rightarrow> byte list result" where
  "buildReplyContentAAD i = build ''reply content AAD input'' (aad_identifier (ra_contentId i)) (reply_aad_fields i)"

definition assertCommandAADBase :: "interrupt_aad \<Rightarrow> bool" where
  "assertCommandAADBase i \<longleftrightarrow>
    list_all aad_identifier [ia_hostId i, ia_watchDeviceId i, ia_sessionId i, ia_commandId i, ia_contentId i]
    \<and> is_canonical_timestamp (ia_issuedAt i) \<and> is_canonical_timestamp (ia_expiresAt i)
    \<and> instant (ia_issuedAt i) < instant (ia_expiresAt i)
    \<and> instant (ia_expiresAt i) \<le> instant (ia_issuedAt i) + maxTtlMs
    \<and> aad_identifier (ia_nonce i)"

definition interrupt_aad_fields :: "interrupt_aad \<Rightarrow> jsstring list" where
  "interrupt_aad_fields i = [js ''ariava-interrupt-content-aad-v1'', js ''watch-to-bridge'', ia_hostId i,
    ia_watchDeviceId i, ia_sessionId i, ia_commandId i, js ''interrupt'', ia_issuedAt i, ia_expiresAt i, ia_nonce i,
    ia_contentId i, js ''interrupt-content-v1'']"

definition buildInterruptContentAAD :: "interrupt_aad \<Rightarrow> byte list result" where
  "buildInterruptContentAAD i =
    build ''interrupt content AAD input'' (assertCommandAADBase i) (interrupt_aad_fields i)"

definition receipt_aad_valid :: "receipt_aad \<Rightarrow> bool" where
  "receipt_aad_valid i \<longleftrightarrow> isCanonicalDigest (ca_commandDigest i) \<and> is_canonical_timestamp (ca_completedAt i)
    \<and> list_all aad_identifier [ca_hostId i, ca_watchDeviceId i, ca_sessionId i, ca_commandId i, ca_contentId i]"

definition receipt_aad_fields :: "receipt_aad \<Rightarrow> jsstring list" where
  "receipt_aad_fields i = [js ''ariava-command-receipt-content-aad-v1'', js ''bridge-to-watch'', ca_hostId i,
    ca_watchDeviceId i, ca_sessionId i, ca_commandId i, js (if ca_isReply i then ''reply'' else ''interrupt''),
    ca_commandDigest i, ca_completedAt i, ca_contentId i, js ''command-receipt-content-v1'']"

definition buildCommandReceiptContentAAD :: "receipt_aad \<Rightarrow> byte list result" where
  "buildCommandReceiptContentAAD i =
    build ''command receipt content AAD input'' (receipt_aad_valid i) (receipt_aad_fields i)"

definition preview_aad_valid :: "preview_aad \<Rightarrow> bool" where
  "preview_aad_valid i \<longleftrightarrow> aad_identifier (na_hostId i) \<and> aad_identifier (na_watchDeviceId i) \<and> aad_identifier (na_eventId i)
    \<and> aad_identifier (na_sessionId i) \<and> aad_identifier (na_linkId i)
    \<and> isPositiveInteger (na_linkGeneration i) \<and> isPositiveInteger (na_epoch i)
    \<and> aad_identifier (na_senderEncryptionKeyId i) \<and> aad_identifier (na_recipientEncryptionKeyId i)
    \<and> aad_identifier (na_contentId i)"

definition preview_aad_fields :: "preview_aad \<Rightarrow> jsstring list" where
  "preview_aad_fields i = [js ''ariava-notification-preview-aad-v2'', js ''bridge-to-watch'', na_hostId i,
    na_watchDeviceId i, na_eventId i, na_sessionId i, js (event_type_name (na_eventType i)), na_linkId i,
    num_string (na_linkGeneration i), num_string (na_epoch i), na_senderEncryptionKeyId i,
    na_recipientEncryptionKeyId i, na_contentId i, js ''notification-preview-v2'']"

definition buildNotificationPreviewAAD :: "preview_aad \<Rightarrow> byte list result" where
  "buildNotificationPreviewAAD i =
    build ''notification preview AAD input'' (preview_aad_valid i) (preview_aad_fields i)"

definition wrap_aad_valid :: "wrap_aad \<Rightarrow> bool" where
  "wrap_aad_valid i \<longleftrightarrow> aad_identifier (wa_linkId i) \<and> isPositiveInteger (wa_linkGeneration i) \<and> isPositiveInteger (wa_epoch i)
    \<and> aad_identifier (wa_hostId i) \<and> aad_identifier (wa_watchDeviceId i) \<and> aad_identifier (wa_senderEncryptionKeyId i)
    \<and> aad_identifier (wa_recipientEncryptionKeyId i) \<and> aad_identifier (wa_contentId i)"

definition wrap_aad_fields :: "wrap_aad \<Rightarrow> jsstring list" where
  "wrap_aad_fields i =
    [js (if wa_payloadKind i = Reply_content \<or> wa_payloadKind i = Interrupt_content
         then ''ariava-wrap-aad-v1'' else ''ariava-wrap-aad-v2''),
     js (direction_name (wa_direction i)), wa_linkId i, num_string (wa_linkGeneration i), num_string (wa_epoch i),
     wa_hostId i, wa_watchDeviceId i, wa_senderEncryptionKeyId i, wa_recipientEncryptionKeyId i, wa_contentId i,
     js (payload_kind_name (wa_payloadKind i))]"

definition buildWrapAAD :: "wrap_aad \<Rightarrow> byte list result" where
  "buildWrapAAD i = build ''wrap AAD input'' (wrap_aad_valid i) (wrap_aad_fields i)"

text \<open>\<open>ID_PATTERNS\<close>: a prefix and 43 base64url characters.\<close>

definition id_pattern :: "string \<Rightarrow> jsstring \<Rightarrow> bool" where
  "id_pattern prefix v \<longleftrightarrow> take (length prefix) v = js prefix \<and> length v = length prefix + 43
    \<and> list_all (\<lambda>u. char_sextet u \<noteq> None) (drop (length prefix) v)"

definition key_binding_valid :: "key_binding \<Rightarrow> bool" where
  "key_binding_valid b \<longleftrightarrow> id_pattern (entity_name (kb_entityType b) @ ''_'') (kb_entityId b)
    \<and> id_pattern ''key_'' (kb_identityKeyId b) \<and> id_pattern ''ekey_'' (kb_encryptionKeyId b)
    \<and> kb_suite b = E2E_SUITE_V1 \<and> isBase64UrlBytes (kb_publicKey b) 32
    \<and> isPositiveInteger (kb_sequence b) \<and> is_canonical_timestamp (kb_createdAt b)"

definition key_binding_fields :: "key_binding \<Rightarrow> jsstring list" where
  "key_binding_fields b = [js ''ariava-e2e-binding-v1'', js (entity_name (kb_entityType b)), kb_entityId b,
    kb_identityKeyId b, kb_encryptionKeyId b, kb_suite b, num_string (kb_sequence b), kb_createdAt b, kb_publicKey b]"

definition buildEncryptionBindingBytes :: "key_binding \<Rightarrow> byte list result" where
  "buildEncryptionBindingBytes b = (if key_binding_valid b then ok (encodeLengthPrefixedFields (key_binding_fields b))
    else throw (TypeError ''encryption key binding is not canonical''))"

definition link_transcript_fields :: "link_transcript \<Rightarrow> jsstring list" where
  "link_transcript_fields i = [js ''ariava-e2e-link-transcript-v1'', lt_linkId i, lt_hostId i, lt_watchDeviceId i,
    num_string (lt_linkGeneration i), num_string (lt_epoch i), lt_hostBindingDigest i, lt_watchBindingDigest i,
    (case lt_suite i of Some s \<Rightarrow> s | None \<Rightarrow> E2E_SUITE_V1)]"

definition buildLinkTranscriptBytes :: "link_transcript \<Rightarrow> byte list" where
  "buildLinkTranscriptBytes i = encodeLengthPrefixedFields (link_transcript_fields i)"

definition confirmation_fields :: "entity_type \<Rightarrow> jsstring \<Rightarrow> jsstring list" where
  "confirmation_fields role digest = [js ''ariava-e2e-confirmation-proof-v1'', js (entity_name role), digest]"

definition buildConfirmationProofBytes :: "entity_type \<Rightarrow> jsstring \<Rightarrow> byte list" where
  "buildConfirmationProofBytes role digest = encodeLengthPrefixedFields (confirmation_fields role digest)"

definition safety_code_fields :: "jsstring \<Rightarrow> int \<Rightarrow> int \<Rightarrow> jsstring list" where
  "safety_code_fields digest generation epoch =
    [js ''ariava-e2e-safety-code-v1'', digest, num_string generation, num_string epoch]"

definition buildSafetyCodeInput :: "jsstring \<Rightarrow> int \<Rightarrow> int \<Rightarrow> byte list" where
  "buildSafetyCodeInput digest generation epoch = encodeLengthPrefixedFields (safety_code_fields digest generation epoch)"

subsection \<open>Epochs\<close>

datatype epoch_state = Pending_confirmation | Confirmations_complete | Host_activated | Watch_activated
  | Epoch_active | Epoch_retiring | Epoch_revoked | Epoch_expired

datatype epoch_operation = Create_event_wrap | Create_session_wrap | Read_historical_content | Create_command
  | Deliver_existing_command

definition isEpochOperationAllowed :: "epoch_state \<Rightarrow> epoch_operation \<Rightarrow> bool" where
  "isEpochOperationAllowed state operation = (if state = Epoch_active then True
    else if state \<noteq> Epoch_retiring then False
    else operation = Read_historical_content \<or> operation = Deliver_existing_command)"

subsection \<open>The bytes determine the input\<close>

datatype authenticated =
    Event_data event_aad | Session_data session_aad | Reply_data reply_aad | Interrupt_data interrupt_aad
  | Receipt_data receipt_aad | Preview_data preview_aad | Wrap_data wrap_aad | Binding_data key_binding
  | Transcript_data link_transcript | Confirmation_data entity_type jsstring | Safety_data jsstring int int

fun authenticated_bytes :: "authenticated \<Rightarrow> byte list result" where
  "authenticated_bytes (Event_data i) = buildEventContentAAD i"
| "authenticated_bytes (Session_data i) = buildSessionContentAAD i"
| "authenticated_bytes (Reply_data i) = buildReplyContentAAD i"
| "authenticated_bytes (Interrupt_data i) = buildInterruptContentAAD i"
| "authenticated_bytes (Receipt_data i) = buildCommandReceiptContentAAD i"
| "authenticated_bytes (Preview_data i) = buildNotificationPreviewAAD i"
| "authenticated_bytes (Wrap_data i) = buildWrapAAD i"
| "authenticated_bytes (Binding_data b) = buildEncryptionBindingBytes b"
| "authenticated_bytes (Transcript_data i) = ok (buildLinkTranscriptBytes i)"
| "authenticated_bytes (Confirmation_data r d) = ok (buildConfirmationProofBytes r d)"
| "authenticated_bytes (Safety_data d g e) = ok (buildSafetyCodeInput d g e)"

fun authenticated_fields :: "authenticated \<Rightarrow> jsstring list" where
  "authenticated_fields (Event_data i) = event_aad_fields i"
| "authenticated_fields (Session_data i) = session_aad_fields i"
| "authenticated_fields (Reply_data i) = reply_aad_fields i"
| "authenticated_fields (Interrupt_data i) = interrupt_aad_fields i"
| "authenticated_fields (Receipt_data i) = receipt_aad_fields i"
| "authenticated_fields (Preview_data i) = preview_aad_fields i"
| "authenticated_fields (Wrap_data i) = wrap_aad_fields i"
| "authenticated_fields (Binding_data b) = key_binding_fields b"
| "authenticated_fields (Transcript_data i) = link_transcript_fields i"
| "authenticated_fields (Confirmation_data r d) = confirmation_fields r d"
| "authenticated_fields (Safety_data d g e) = safety_code_fields d g e"

fun accepted_input :: "authenticated \<Rightarrow> bool" where
  "accepted_input (Event_data i) = event_aad_valid i"
| "accepted_input (Session_data i) = session_aad_valid i"
| "accepted_input (Reply_data i) = aad_identifier (ra_contentId i)"
| "accepted_input (Interrupt_data i) = assertCommandAADBase i"
| "accepted_input (Receipt_data i) = receipt_aad_valid i"
| "accepted_input (Preview_data i) = preview_aad_valid i"
| "accepted_input (Wrap_data i) = wrap_aad_valid i"
| "accepted_input (Binding_data b) = key_binding_valid b"
| "accepted_input _ = True"

text \<open>What four of the builders leave unchecked: well-formed text, counters that are not negative, and the
  default suite.\<close>

fun clean_input :: "authenticated \<Rightarrow> bool" where
  "clean_input (Reply_data i) \<longleftrightarrow> list_all isWellFormedUnicode (reply_aad_fields i)"
| "clean_input (Transcript_data i) \<longleftrightarrow> list_all isWellFormedUnicode (link_transcript_fields i)
    \<and> 0 \<le> lt_linkGeneration i \<and> 0 \<le> lt_epoch i \<and> lt_suite i = None"
| "clean_input (Confirmation_data r d) \<longleftrightarrow> isWellFormedUnicode d"
| "clean_input (Safety_data d g e) \<longleftrightarrow> isWellFormedUnicode d \<and> 0 \<le> g \<and> 0 \<le> e"
| "clean_input _ \<longleftrightarrow> True"

lemma authenticated_bytes_iff:
  "authenticated_bytes a = ok b \<longleftrightarrow> accepted_input a \<and> b = encodeLengthPrefixedFields (authenticated_fields a)"
  by (cases a) (auto simp: build_def buildEventContentAAD_def buildSessionContentAAD_def buildReplyContentAAD_def
      buildInterruptContentAAD_def buildCommandReceiptContentAAD_def buildNotificationPreviewAAD_def buildWrapAAD_def
      buildEncryptionBindingBytes_def buildLinkTranscriptBytes_def buildConfirmationProofBytes_def
      buildSafetyCodeInput_def)

lemma name_inject [simp]:
  "event_type_name a = event_type_name a' \<longleftrightarrow> a = a'"
  "session_status_name b = session_status_name b' \<longleftrightarrow> b = b'"
  "payload_kind_name c = payload_kind_name c' \<longleftrightarrow> c = c'"
  "direction_name d = direction_name d' \<longleftrightarrow> d = d'"
  "entity_name e = entity_name e' \<longleftrightarrow> e = e'"
proof -
  show "event_type_name a = event_type_name a' \<longleftrightarrow> a = a'" by (cases a; cases a') simp_all
  show "session_status_name b = session_status_name b' \<longleftrightarrow> b = b'" by (cases b; cases b') simp_all
  show "payload_kind_name c = payload_kind_name c' \<longleftrightarrow> c = c'" by (cases c; cases c') simp_all
  show "direction_name d = direction_name d' \<longleftrightarrow> d = d'" by (cases d; cases d') simp_all
  show "entity_name e = entity_name e' \<longleftrightarrow> e = e'" by (cases e; cases e') simp_all
qed

lemma name_well_formed [simp]:
  "isWellFormedUnicode (js (event_type_name a))" "isWellFormedUnicode (js (session_status_name b))"
  "isWellFormedUnicode (js (payload_kind_name c))" "isWellFormedUnicode (js (direction_name d))"
  "isWellFormedUnicode (js (entity_name e))"
proof -
  show "isWellFormedUnicode (js (event_type_name a))" by (cases a) (simp_all add: literal_well_formed)
  show "isWellFormedUnicode (js (session_status_name b))" by (cases b) (simp_all add: literal_well_formed)
  show "isWellFormedUnicode (js (payload_kind_name c))" by (cases c) (simp_all add: literal_well_formed)
  show "isWellFormedUnicode (js (direction_name d))" by (cases d) (simp_all add: literal_well_formed)
  show "isWellFormedUnicode (js (entity_name e))" by (cases e) (simp_all add: literal_well_formed)
qed

lemma aad_well_formed:
  "aad_identifier v \<Longrightarrow> isWellFormedUnicode v"
  "isBase64UrlBytes v 32 \<Longrightarrow> isWellFormedUnicode v"
  by (rule well_formed_parts; assumption)+

lemma id_pattern_well_formed:
  assumes "id_pattern p v" and "\<forall>c \<in> set p. of_char c < (128 :: nat)"
  shows "isWellFormedUnicode v"
proof (rule ascii_well_formed)
  have "is_ascii (drop (length p) v)"
    using assms by (auto simp: id_pattern_def is_ascii_def list_all_iff char_sextet_def Let_def split: if_splits)
  moreover have "is_ascii (js p)" using assms(2) by (rule js_ascii)
  ultimately show "is_ascii v"
    using assms(1) append_take_drop_id[of "length p" v] is_ascii_append[of "take (length p) v" "drop (length p) v"]
    by (simp add: id_pattern_def)
qed

lemma optional_well_formed:
  "isCanonicalOptionalAADString v \<Longrightarrow> isWellFormedUnicode (or_empty v)"
  "isCanonicalOptionalTimestamp w \<Longrightarrow> isWellFormedUnicode (or_empty w)"
  by (auto simp: isCanonicalOptionalAADString_def isCanonicalOptionalTimestamp_def
      intro: binding_field_well_formed split: option.splits)

lemma authenticated_fields_well_formed:
  assumes "accepted_input a" and "clean_input a"
  shows "list_all isWellFormedUnicode (authenticated_fields a)"
proof (cases a)
  case (Event_data i)
  then show ?thesis using assms
    by (simp add: event_aad_valid_def event_aad_fields_def aad_well_formed literal_well_formed binding_field_well_formed)
next
  case (Session_data i)
  then show ?thesis using assms
    by (simp add: session_aad_valid_def session_aad_fields_def aad_well_formed literal_well_formed binding_field_well_formed
        optional_well_formed)
next
  case (Interrupt_data i)
  then show ?thesis using assms
    by (simp add: assertCommandAADBase_def interrupt_aad_fields_def aad_well_formed literal_well_formed binding_field_well_formed)
next
  case (Receipt_data i)
  then show ?thesis using assms
    by (simp add: receipt_aad_valid_def receipt_aad_fields_def isCanonicalDigest_def aad_well_formed literal_well_formed
        binding_field_well_formed)
next
  case (Preview_data i)
  then show ?thesis using assms
    by (simp add: preview_aad_valid_def preview_aad_fields_def aad_well_formed literal_well_formed binding_field_well_formed)
next
  case (Wrap_data i)
  then show ?thesis using assms
    by (simp add: wrap_aad_valid_def wrap_aad_fields_def aad_well_formed literal_well_formed binding_field_well_formed)
next
  case (Binding_data b)
  have "\<forall>c \<in> set (entity_name (kb_entityType b) @ ''_''). of_char c < (128 :: nat)"
    by (cases "kb_entityType b") simp_all
  then show ?thesis using assms Binding_data
    id_pattern_well_formed[of "entity_name (kb_entityType b) @ ''_''" "kb_entityId b"]
    id_pattern_well_formed[of "''key_''" "kb_identityKeyId b"] id_pattern_well_formed[of "''ekey_''" "kb_encryptionKeyId b"]
    by (simp add: key_binding_valid_def key_binding_fields_def aad_well_formed literal_well_formed binding_field_well_formed
        suite_well_formed)
qed (use assms in \<open>simp_all add: confirmation_fields_def safety_code_fields_def literal_well_formed num_string_ascii\<close>)

text \<open>The domain tells the builders apart.\<close>

fun domain_of :: "authenticated \<Rightarrow> string" where
  "domain_of (Event_data i) = ''ariava-event-content-aad-v3''"
| "domain_of (Session_data i) = ''ariava-session-content-aad-v3''"
| "domain_of (Reply_data i) = ''ariava-content-aad-v1''"
| "domain_of (Interrupt_data i) = ''ariava-interrupt-content-aad-v1''"
| "domain_of (Receipt_data i) = ''ariava-command-receipt-content-aad-v1''"
| "domain_of (Preview_data i) = ''ariava-notification-preview-aad-v2''"
| "domain_of (Wrap_data i) = (if wa_payloadKind i = Reply_content \<or> wa_payloadKind i = Interrupt_content
         then ''ariava-wrap-aad-v1'' else ''ariava-wrap-aad-v2'')"
| "domain_of (Binding_data b) = ''ariava-e2e-binding-v1''"
| "domain_of (Transcript_data i) = ''ariava-e2e-link-transcript-v1''"
| "domain_of (Confirmation_data r d) = ''ariava-e2e-confirmation-proof-v1''"
| "domain_of (Safety_data d g e) = ''ariava-e2e-safety-code-v1''"

fun builder_of :: "authenticated \<Rightarrow> nat" where
  "builder_of (Event_data _) = 0" | "builder_of (Session_data _) = 1" | "builder_of (Reply_data _) = 2"
| "builder_of (Interrupt_data _) = 3" | "builder_of (Receipt_data _) = 4" | "builder_of (Preview_data _) = 5"
| "builder_of (Wrap_data _) = 6" | "builder_of (Binding_data _) = 7" | "builder_of (Transcript_data _) = 8"
| "builder_of (Confirmation_data _ _) = 9" | "builder_of (Safety_data _ _ _) = 10"

lemma first_field: "\<exists>rest. authenticated_fields a = js (domain_of a) # rest"
  by (cases a) (simp_all add: event_aad_fields_def session_aad_fields_def reply_aad_fields_def interrupt_aad_fields_def
      receipt_aad_fields_def preview_aad_fields_def wrap_aad_fields_def key_binding_fields_def link_transcript_fields_def
      confirmation_fields_def safety_code_fields_def)

lemma domain_builder: "domain_of a = domain_of b \<Longrightarrow> builder_of a = builder_of b"
  by (cases a; cases b) (simp_all split: if_splits)

lemma positive_num_inject [simp]:
  "isPositiveInteger m \<Longrightarrow> isPositiveInteger n \<Longrightarrow> num_string m = num_string n \<longleftrightarrow> m = n"
  by (rule num_string_inject) (simp_all add: isPositiveInteger_def)

lemma or_empty_inject:
  "isCanonicalOptionalAADString v \<Longrightarrow> isCanonicalOptionalAADString w \<Longrightarrow> or_empty v = or_empty w \<Longrightarrow> v = w"
  "isCanonicalOptionalTimestamp v \<Longrightarrow> isCanonicalOptionalTimestamp w \<Longrightarrow> or_empty v = or_empty w \<Longrightarrow> v = w"
proof -
  have "\<not> is_canonical_timestamp []" by (simp add: is_canonical_timestamp_def iso_shape_def)
  then show "isCanonicalOptionalAADString v \<Longrightarrow> isCanonicalOptionalAADString w \<Longrightarrow> or_empty v = or_empty w \<Longrightarrow> v = w"
    "isCanonicalOptionalTimestamp v \<Longrightarrow> isCanonicalOptionalTimestamp w \<Longrightarrow> or_empty v = or_empty w \<Longrightarrow> v = w"
    by (auto simp: isCanonicalOptionalAADString_def isCanonicalOptionalTimestamp_def isBoundedWellFormedString_def
        split: option.splits)
qed

lemma authenticated_fields_inject:
  assumes "accepted_input a" "accepted_input b" "clean_input a" "clean_input b"
    and eq: "authenticated_fields a = authenticated_fields b"
  shows "a = b"
proof -
  have "domain_of a = domain_of b"
    using first_field[of a] first_field[of b] eq by auto
  then have builder: "builder_of a = builder_of b" by (rule domain_builder)
  show ?thesis
  proof (cases a)
    case (Event_data i)
    then obtain j where "b = Event_data j" using builder by (cases b) simp_all
    then show ?thesis using eq Event_data by (auto simp: event_aad_fields_def intro!: event_aad.equality)
  next
    case (Session_data i)
    then obtain j where "b = Session_data j" using builder by (cases b) simp_all
    then show ?thesis using eq Session_data assms(1,2)
      by (auto simp: session_aad_fields_def session_aad_valid_def intro!: session_aad.equality
          intro: or_empty_inject(1)[of "sm_lastEventId i"] or_empty_inject(2)[of "sm_snoozedUntil i"])
  next
    case (Reply_data i)
    then obtain j where "b = Reply_data j" using builder by (cases b) simp_all
    then show ?thesis using eq Reply_data by (auto simp: reply_aad_fields_def intro!: reply_aad.equality)
  next
    case (Interrupt_data i)
    then obtain j where "b = Interrupt_data j" using builder by (cases b) simp_all
    then show ?thesis using eq Interrupt_data by (auto simp: interrupt_aad_fields_def intro!: interrupt_aad.equality)
  next
    case (Receipt_data i)
    then obtain j where "b = Receipt_data j" using builder by (cases b) simp_all
    then show ?thesis using eq Receipt_data
      by (auto simp: receipt_aad_fields_def intro!: receipt_aad.equality split: if_splits)
  next
    case (Preview_data i)
    then obtain j where "b = Preview_data j" using builder by (cases b) simp_all
    then show ?thesis using eq Preview_data assms(1,2)
      by (auto simp: preview_aad_fields_def preview_aad_valid_def intro!: preview_aad.equality)
  next
    case (Wrap_data i)
    then obtain j where "b = Wrap_data j" using builder by (cases b) simp_all
    then show ?thesis using eq Wrap_data assms(1,2)
      by (auto simp: wrap_aad_fields_def wrap_aad_valid_def intro!: wrap_aad.equality)
  next
    case (Binding_data i)
    then obtain j where "b = Binding_data j" using builder by (cases b) simp_all
    then show ?thesis using eq Binding_data assms(1,2)
      by (auto simp: key_binding_fields_def key_binding_valid_def intro!: key_binding.equality)
  next
    case (Transcript_data i)
    then obtain j where "b = Transcript_data j" using builder by (cases b) simp_all
    then show ?thesis using eq Transcript_data assms(3,4)
      by (auto simp: link_transcript_fields_def num_string_inject intro!: link_transcript.equality)
  next
    case (Confirmation_data r d)
    then obtain r' d' where "b = Confirmation_data r' d'" using builder by (cases b) simp_all
    then show ?thesis using eq Confirmation_data by (auto simp: confirmation_fields_def)
  next
    case (Safety_data d g e)
    then obtain d' g' e' where "b = Safety_data d' g' e'" using builder by (cases b) simp_all
    then show ?thesis using eq Safety_data assms(3,4) by (auto simp: safety_code_fields_def num_string_inject)
  qed
qed

lemma authenticated_bytes_inject:
  assumes "authenticated_bytes a = ok x" "authenticated_bytes b = ok x" "clean_input a" "clean_input b"
  shows "a = b"
proof -
  have v: "accepted_input a" "accepted_input b"
    and eq: "encodeLengthPrefixedFields (authenticated_fields a) = encodeLengthPrefixedFields (authenticated_fields b)"
    using assms(1,2) by (simp_all add: authenticated_bytes_iff)
  show ?thesis
    by (rule authenticated_fields_inject[OF v assms(3,4)])
      (rule encode_fields_inject[OF eq authenticated_fields_well_formed[OF v(1) assms(3)]
        authenticated_fields_well_formed[OF v(2) assms(4)]])
qed

end
