(* ===== verification/Upload_Decisions.thy ===== *)
theory Upload_Decisions
  imports Ariava_Prelude
begin

section \<open>Upload outcomes\<close>

text \<open>
  \<open>e2e/upload-failures.ts\<close> and \<open>e2e/upload-decisions.ts\<close>: what an upload workflow does after the
  Relay answered. A thrown value is what the code looks at: whether it is a \<open>RelayClientError\<close>, its
  numeric status and its string reason.
\<close>

record thrown =
  th_relayClient :: bool
  th_status :: "int option"
  th_reason :: "jsstring option"

datatype failure_category =
  Cat_network | Cat_http | Cat_recipient_set | Cat_session_revision | Cat_event_content | Cat_local_validation
  | Cat_local_spool_record

definition RECIPIENT_SET_CHANGED_REASON :: jsstring where
  "RECIPIENT_SET_CHANGED_REASON = js ''e2e_recipient_set_changed''"

definition PERMANENT_EVENT_CONFLICT_CATEGORIES :: "(jsstring \<times> failure_category) list" where
  "PERMANENT_EVENT_CONFLICT_CATEGORIES = [
    (js ''session_revision_stale'', Cat_session_revision),
    (js ''session_revision_gap'', Cat_session_revision),
    (js ''session revision conflict'', Cat_session_revision),
    (js ''encrypted event conflict'', Cat_event_content),
    (js ''encrypted upload conflict'', Cat_event_content)]"

abbreviation reason_text :: "jsstring option \<Rightarrow> jsstring" where
  "reason_text r \<equiv> (case r of Some x \<Rightarrow> x | None \<Rightarrow> [])"

definition isRelayConflict :: "thrown \<Rightarrow> bool" where
  "isRelayConflict e \<longleftrightarrow> (if th_relayClient e then th_status e = Some 409
    else th_status e = Some 409 \<and> th_reason e \<noteq> None)"

definition isPermanentEventConflict :: "thrown \<Rightarrow> bool" where
  "isPermanentEventConflict e \<longleftrightarrow> isRelayConflict e
    \<and> map_of PERMANENT_EVENT_CONFLICT_CATEGORIES (reason_text (th_reason e)) \<noteq> None"

definition relayFailureCategory :: "thrown \<Rightarrow> failure_category" where
  "relayFailureCategory e =
    (if th_reason e = Some (js ''e2e_recipient_set_changed'') then Cat_recipient_set
     else case map_of PERMANENT_EVENT_CONFLICT_CATEGORIES (reason_text (th_reason e)) of
       Some c \<Rightarrow> c
     | None \<Rightarrow> if th_status e = None then Cat_network else Cat_http)"

subsection \<open>The decision for a Session\<close>

datatype session_decision =
    Session_commit int
  | Session_reconcile
  | Session_refresh_reencrypt int
  | Session_retry_next_revision int
  | Session_defer failure_category
  | Session_fail_closed string

record session_decision_input =
  sd_publishSucceeded :: bool
  sd_conflictReason :: "jsstring option"
  sd_reconcileCommitted :: "bool option"
  sd_attemptedRecipientVersion :: int
  sd_refreshedRecipientVersion :: "int option"
  sd_currentRevision :: int
  sd_sameVersionCommitRetryExhausted :: bool
  sd_failureCategory :: failure_category

definition decideSessionUpload :: "session_decision_input \<Rightarrow> session_decision" where
  "decideSessionUpload i =
    (if sd_publishSucceeded i then Session_commit (sd_currentRevision i)
     else case sd_conflictReason i of
       None \<Rightarrow> Session_defer (sd_failureCategory i)
     | Some reason \<Rightarrow>
       (case sd_reconcileCommitted i of
          None \<Rightarrow> Session_reconcile
        | Some committed \<Rightarrow>
          if reason \<noteq> RECIPIENT_SET_CHANGED_REASON
          then (if committed then Session_commit (sd_currentRevision i) else Session_defer (sd_failureCategory i))
          else case sd_refreshedRecipientVersion i of
            None \<Rightarrow> Session_defer Cat_recipient_set
          | Some refreshed \<Rightarrow>
            if refreshed = sd_attemptedRecipientVersion i \<and> \<not> committed
            then Session_fail_closed ''Session upload no-progress: refreshed recipient-set version equals attempted version''
            else if refreshed = sd_attemptedRecipientVersion i \<and> sd_sameVersionCommitRetryExhausted i
            then Session_fail_closed ''Session upload no-progress: repeated same-version reconcile-committed conflict''
            else if committed then Session_retry_next_revision (sd_currentRevision i + 1)
            else Session_refresh_reencrypt (sd_currentRevision i)))"

subsection \<open>The decision for an Event\<close>

datatype event_decision =
    Event_complete
  | Event_reconcile
  | Event_refresh_session_and_reencrypt
  | Event_quarantine failure_category
  | Event_defer failure_category

record event_decision_input =
  ed_publishSucceeded :: bool
  ed_conflictReason :: "jsstring option"
  ed_reconcileCommitted :: "bool option"
  ed_permanentEventConflict :: bool
  ed_recipientRefreshExhausted :: bool
  ed_failureCategory :: failure_category

definition decideEventUpload :: "event_decision_input \<Rightarrow> event_decision" where
  "decideEventUpload i =
    (if ed_publishSucceeded i then Event_complete
     else case ed_conflictReason i of
       None \<Rightarrow> Event_defer (ed_failureCategory i)
     | Some reason \<Rightarrow>
       (case ed_reconcileCommitted i of
          None \<Rightarrow> Event_reconcile
        | Some True \<Rightarrow> Event_complete
        | Some False \<Rightarrow>
          if reason = RECIPIENT_SET_CHANGED_REASON
          then (if ed_recipientRefreshExhausted i then Event_defer (ed_failureCategory i)
                else Event_refresh_session_and_reencrypt)
          else if ed_permanentEventConflict i then Event_quarantine (ed_failureCategory i)
          else Event_defer (ed_failureCategory i)))"

text \<open>Nothing is committed, completed or rebuilt without an answer of the Relay about the attempted upload.\<close>

lemma session_decision_cases:
  "decideSessionUpload i = Session_commit r \<Longrightarrow>
    r = sd_currentRevision i \<and> (sd_publishSucceeded i \<or> sd_reconcileCommitted i = Some True)"
  "decideSessionUpload i = Session_refresh_reencrypt r \<Longrightarrow>
    r = sd_currentRevision i \<and> sd_reconcileCommitted i = Some False
    \<and> (\<exists>v. sd_refreshedRecipientVersion i = Some v \<and> v \<noteq> sd_attemptedRecipientVersion i)"
  "decideSessionUpload i = Session_retry_next_revision r \<Longrightarrow>
    r = sd_currentRevision i + 1 \<and> sd_reconcileCommitted i = Some True
    \<and> (\<exists>v. sd_refreshedRecipientVersion i = Some v
        \<and> (v = sd_attemptedRecipientVersion i \<longrightarrow> \<not> sd_sameVersionCommitRetryExhausted i))"
  unfolding decideSessionUpload_def
  by (auto split: option.splits if_splits)

lemma event_decision_cases:
  "decideEventUpload i = Event_complete \<Longrightarrow> ed_publishSucceeded i \<or> ed_reconcileCommitted i = Some True"
  "decideEventUpload i = Event_refresh_session_and_reencrypt \<Longrightarrow>
    ed_reconcileCommitted i = Some False \<and> \<not> ed_recipientRefreshExhausted i"
  "decideEventUpload i = Event_quarantine c \<Longrightarrow>
    ed_reconcileCommitted i = Some False \<and> ed_permanentEventConflict i"
  unfolding decideEventUpload_def
  by (auto split: option.splits if_splits bool.splits)

end
