(* ===== verification/Upload_World.thy ===== *)
theory Upload_World
  imports Authenticated_Data Upload_Decisions
begin

section \<open>The ports of the upload workflows\<close>

text \<open>
  \<open>e2e/upload-actions.ts\<close> reaches the state store, the Relay, the cryptography and the key ring through
  capabilities it is given. Here they are functions over an arbitrary outside world that return a
  value or throw. Every call that matters for the evidence of an upload leaves an entry in a log,
  newest first: what was loaded or sealed, what the Relay answered, and each write when it is issued,
  whether it then succeeds or throws.
\<close>

subsection \<open>Uploads\<close>

record session_upload = relay_session_metadata +
  su_revision :: int
  su_recipientSetVersion :: int
  su_content :: encrypted_content
  su_keyWraps :: "key_wrap list"

record preview_envelope =
  pe_eventId :: jsstring
  pe_sessionId :: jsstring
  pe_eventType :: event_type
  pe_watchDeviceId :: jsstring
  pe_content :: encrypted_content
  pe_keyWrap :: key_wrap

record event_upload = relay_event_metadata +
  eu_recipientSetVersion :: int
  eu_content :: encrypted_content
  eu_keyWraps :: "key_wrap list"
  eu_notificationPreviews :: "preview_envelope list option"

record tuple_upload =
  tu_event :: event_upload
  tu_session :: session_upload

record recipient =
  rp_linkId :: jsstring
  rp_linkGeneration :: int
  rp_watchDeviceId :: jsstring
  rp_epoch :: int
  rp_state :: jsstring
  rp_watchBinding :: key_binding
  rp_bindingSignature :: jsstring

record recipient_snapshot =
  rs_hostId :: jsstring
  rs_recipientSetVersion :: int
  rs_recipients :: "recipient list"

datatype preflight = Ready jsstring | Invalid_content | Invalid_source_binding

datatype session_lookup =
    Lookup_missing | Lookup_v2 session_upload | Lookup_legacy session_upload
  | Lookup_cross_bound session_upload | Lookup_malformed

datatype inflight_kind = Inflight_v2 | Inflight_legacy | Inflight_malformed

record loaded_inflight =
  li_digest :: "jsstring option"
  li_raw :: "byte list"
  li_upload :: tuple_upload

text \<open>A \<open>LoadedEventInflight\<close> has a digest exactly if it is of kind \<open>v2\<close>.\<close>

datatype source_failure =
  Source_utf8_invalid | Source_json_bad | Source_shape_bad | Source_binding_bad | Source_gone

datatype load_result =
    Loaded canonical_event canonical_session "loaded_inflight option"
  | Source_failed source_failure "loaded_inflight option"
  | Inflight_failed

datatype dead_letter_reason =
  Protected_content_invalid | Event_session_binding_invalid | Source_utf8_dead | Source_json_dead
  | Relay_permanent_conflict

record descriptor =
  ds_eventId :: jsstring
  ds_sessionId :: jsstring

subsection \<open>The log\<close>

datatype upload_call =
    Session_loaded jsstring "session_upload option"
  | Digest_read jsstring "jsstring option"
  | Session_sealed canonical_session int int session_upload
  | Event_loaded jsstring "tuple_upload option"
  | Event_sealed canonical_event canonical_session int int tuple_upload
  | Session_published session_upload
  | Session_verdict session_upload bool
  | Event_published tuple_upload
  | Event_verdict tuple_upload bool
  | Recipients_read int
  | Completion_seen jsstring
  | Revision_commit jsstring int
  | Session_persist jsstring session_upload jsstring
  | Session_replace jsstring session_upload jsstring
  | Session_remove jsstring
  | Event_persist jsstring jsstring tuple_upload jsstring
  | Event_replace jsstring jsstring tuple_upload jsstring
  | Completion_begin jsstring jsstring int jsstring jsstring
  | Completion_run jsstring
  | Quarantine descriptor dead_letter_reason "byte list option"
  | Version_set int

record 'w client =
  cl_world :: 'w
  cl_log :: "upload_call list"

type_synonym ('w, 'a) port = "'w \<Rightarrow> (thrown + 'a) \<times> 'w"
type_synonym ('w, 'a) act = "'w client \<Rightarrow> (thrown + 'a) \<times> 'w client"

text \<open>\<open>'r\<close> is the recipient material, visible only to the cryptography.\<close>

record ('w, 'r) upload_ports =
  p_getSession :: "jsstring \<Rightarrow> ('w, canonical_session option) port"
  p_listSessions :: "('w, canonical_session list) port"
  p_listPendingEventDescriptors :: "('w, descriptor list) port"
  p_listEventInflightRecords :: "('w, (jsstring \<times> jsstring \<times> inflight_kind) list) port"
  p_loadPendingEventParts :: "descriptor \<Rightarrow> ('w, load_result) port"
  p_hasEventUploadCompletion :: "jsstring \<Rightarrow> ('w, bool) port"
  p_openInflightEventRaw :: "jsstring \<Rightarrow> ('w, byte list option) port"
  p_getInflightEventUpload :: "jsstring \<Rightarrow> ('w, tuple_upload option) port"
  p_persistInflightEventUpload :: "jsstring \<Rightarrow> jsstring \<Rightarrow> tuple_upload \<Rightarrow> jsstring \<Rightarrow> ('w, unit) port"
  p_replaceInflightEventUpload :: "jsstring \<Rightarrow> jsstring \<Rightarrow> tuple_upload \<Rightarrow> jsstring \<Rightarrow> ('w, unit) port"
  p_listInflightSessionIds :: "('w, jsstring list) port"
  p_getInflightSessionUpload :: "jsstring \<Rightarrow> ('w, session_upload option) port"
  p_getSessionInflightLookup :: "jsstring \<Rightarrow> ('w, session_lookup) port"
  p_getSessionInflightDigest :: "jsstring \<Rightarrow> ('w, jsstring option) port"
  p_persistInflightSessionUpload :: "jsstring \<Rightarrow> session_upload \<Rightarrow> jsstring \<Rightarrow> ('w, unit) port"
  p_replaceInflightSessionUpload :: "jsstring \<Rightarrow> session_upload \<Rightarrow> jsstring \<Rightarrow> ('w, unit) port"
  p_removeInflightSessionUpload :: "jsstring \<Rightarrow> ('w, unit) port"
  p_nextSessionRevision :: "jsstring \<Rightarrow> ('w, int) port"
  p_commitSessionRevision :: "jsstring \<Rightarrow> int \<Rightarrow> ('w, unit) port"
  p_getRecipientSetVersion :: "('w, int option) port"
  p_setRecipientSetVersion :: "int \<Rightarrow> ('w, unit) port"
  p_beginEventUploadCompletion :: "jsstring \<Rightarrow> jsstring \<Rightarrow> int \<Rightarrow> jsstring \<Rightarrow> jsstring \<Rightarrow> ('w, unit) port"
  p_completeEventUpload :: "jsstring \<Rightarrow> ('w, unit) port"
  p_quarantinePendingEventRaw :: "descriptor \<Rightarrow> dead_letter_reason \<Rightarrow> byte list option \<Rightarrow> ('w, bool) port"
  p_recipientSnapshot :: "('w, recipient_snapshot) port"
  p_publishEncryptedEvent :: "tuple_upload \<Rightarrow> ('w, unit) port"
  p_reconcileEncryptedEvent :: "tuple_upload \<Rightarrow> ('w, bool) port"
  p_reconcileEncryptedSession :: "session_upload \<Rightarrow> ('w, bool) port"
  p_publishEncryptedSession :: "session_upload \<Rightarrow> ('w, unit) port"
  p_reconcileRecipients :: "recipient_snapshot \<Rightarrow> ('w, 'r) port"
  p_encryptSessionSnapshot :: "canonical_session \<Rightarrow> int \<Rightarrow> int \<Rightarrow> 'r \<Rightarrow> ('w, session_upload) port"
  p_encryptEventUpload :: "canonical_event \<Rightarrow> canonical_session \<Rightarrow> int \<Rightarrow> int \<Rightarrow> 'r \<Rightarrow> ('w, tuple_upload) port"
  p_preflightSession :: "canonical_session \<Rightarrow> thrown + preflight"
  p_sessionSourceDigest :: "canonical_session \<Rightarrow> thrown + jsstring"
  p_preflightEvent :: "canonical_event \<Rightarrow> canonical_session \<Rightarrow> thrown + preflight"
  p_eventSourceDigest :: "canonical_event \<Rightarrow> canonical_session \<Rightarrow> thrown + jsstring"

text \<open>\<open>new Set(xs)\<close>: the first of each.\<close>

definition js_set :: "'a list \<Rightarrow> 'a list" where
  "js_set xs = foldl (\<lambda>seen x. if x \<in> set seen then seen else seen @ [x]) [] xs"

subsection \<open>Effects\<close>

definition a_return :: "'a \<Rightarrow> ('w, 'a) act" where
  "a_return a c = (Inr a, c)"

definition a_bind :: "('w, 'a) act \<Rightarrow> ('a \<Rightarrow> ('w, 'b) act) \<Rightarrow> ('w, 'b) act" where
  "a_bind m f c = (case m c of (Inl e, c') \<Rightarrow> (Inl e, c') | (Inr a, c') \<Rightarrow> f a c')"

text \<open>\<open>try { m } catch (e) { handler }\<close>, the rest of the workflow in \<open>f\<close>.\<close>

definition a_try :: "('w, 'a) act \<Rightarrow> ('a \<Rightarrow> ('w, 'b) act) \<Rightarrow> (thrown \<Rightarrow> ('w, 'b) act) \<Rightarrow> ('w, 'b) act" where
  "a_try m f g c = (case m c of (Inl e, c') \<Rightarrow> g e c' | (Inr a, c') \<Rightarrow> f a c')"

definition a_lift :: "thrown + 'a \<Rightarrow> ('w, 'a) act" where
  "a_lift r c = (r, c)"

definition note_call :: "upload_call \<Rightarrow> ('w, unit) act" where
  "note_call e c = (Inr (), c\<lparr>cl_log := e # cl_log c\<rparr>)"

definition call :: "('w, 'a) port \<Rightarrow> ('w, 'a) act" where
  "call p c = (case p (cl_world c) of (r, w) \<Rightarrow> (r, c\<lparr>cl_world := w\<rparr>))"

text \<open>A call whose answer is noted, and a write that is noted before it is issued.\<close>

definition noted :: "('w, 'a) port \<Rightarrow> ('a \<Rightarrow> upload_call) \<Rightarrow> ('w, 'a) act" where
  "noted p entry = a_bind (call p) (\<lambda>a. a_bind (note_call (entry a)) (\<lambda>_. a_return a))"

definition issued :: "upload_call \<Rightarrow> ('w, 'a) port \<Rightarrow> ('w, 'a) act" where
  "issued entry p = a_bind (note_call entry) (\<lambda>_. call p)"

end
