(* ===== verification/Upload_Actions.thy ===== *)
theory Upload_Actions
  imports Upload_World
begin

section \<open>The upload workflows: Sessions\<close>

text \<open>
  \<open>createEncryptedUploadActions\<close> (\<open>e2e/upload-actions.ts\<close>). The report hooks have no effect on the
  workflows and are left out. A \<open>for (;;)\<close> loop takes fuel; \<open>None\<close> is out of fuel.
\<close>

definition source_digest_pattern :: "jsstring \<Rightarrow> bool" where
  "source_digest_pattern v \<longleftrightarrow> length v = 43 \<and> list_all (\<lambda>u. char_sextet u \<noteq> None) v"

text \<open>Two digests are compared as the 32 bytes they decode to.\<close>

definition digest_bytes :: "jsstring \<Rightarrow> byte list" where
  "digest_bytes v = decode_sextets (map (\<lambda>u. the (char_sextet u)) v)"

definition digestsEqual :: "jsstring \<Rightarrow> jsstring \<Rightarrow> bool" where
  "digestsEqual left right \<longleftrightarrow>
    (if length left \<noteq> length right \<or> \<not> source_digest_pattern left \<or> \<not> source_digest_pattern right then False
     else digest_bytes left = digest_bytes right)"

subsection \<open>The calls\<close>

definition load_session :: "('w, 'r) upload_ports \<Rightarrow> jsstring \<Rightarrow> ('w, session_upload option) act" where
  "load_session P sid = noted (p_getInflightSessionUpload P sid) (Session_loaded sid)"

definition reconcile_session :: "('w, 'r) upload_ports \<Rightarrow> session_upload \<Rightarrow> ('w, bool) act" where
  "reconcile_session P u = noted (p_reconcileEncryptedSession P u) (Session_verdict u)"

definition publish_session :: "('w, 'r) upload_ports \<Rightarrow> session_upload \<Rightarrow> ('w, unit) act" where
  "publish_session P u = noted (p_publishEncryptedSession P u) (\<lambda>_. Session_published u)"

definition seal_session ::
  "('w, 'r) upload_ports \<Rightarrow> canonical_session \<Rightarrow> int \<Rightarrow> int \<Rightarrow> 'r \<Rightarrow> ('w, session_upload) act" where
  "seal_session P session revision version recipients =
     noted (p_encryptSessionSnapshot P session revision version recipients) (Session_sealed session revision version)"

definition commit_revision :: "('w, 'r) upload_ports \<Rightarrow> jsstring \<Rightarrow> int \<Rightarrow> ('w, unit) act" where
  "commit_revision P sid revision = issued (Revision_commit sid revision) (p_commitSessionRevision P sid revision)"

definition remove_session_inflight :: "('w, 'r) upload_ports \<Rightarrow> jsstring \<Rightarrow> ('w, unit) act" where
  "remove_session_inflight P sid = issued (Session_remove sid) (p_removeInflightSessionUpload P sid)"

definition persist_session_inflight ::
  "('w, 'r) upload_ports \<Rightarrow> jsstring \<Rightarrow> session_upload \<Rightarrow> jsstring \<Rightarrow> ('w, unit) act" where
  "persist_session_inflight P sid u digest =
     issued (Session_persist sid u digest) (p_persistInflightSessionUpload P sid u digest)"

definition replace_session_inflight ::
  "('w, 'r) upload_ports \<Rightarrow> jsstring \<Rightarrow> session_upload \<Rightarrow> jsstring \<Rightarrow> ('w, unit) act" where
  "replace_session_inflight P sid u digest =
     issued (Session_replace sid u digest) (p_replaceInflightSessionUpload P sid u digest)"

definition complete_session_inflight :: "('w, 'r) upload_ports \<Rightarrow> jsstring \<Rightarrow> int \<Rightarrow> ('w, unit) act" where
  "complete_session_inflight P sid revision =
     a_bind (commit_revision P sid revision) (\<lambda>_. remove_session_inflight P sid)"

text \<open>The recipients after a refresh: snapshot and key material.\<close>

definition refresh_recipients :: "('w, 'r) upload_ports \<Rightarrow> ('w, recipient_snapshot \<times> 'r) act" where
  "refresh_recipients P =
     a_bind (noted (p_recipientSnapshot P) (\<lambda>s. Recipients_read (rs_recipientSetVersion s))) (\<lambda>snapshot.
     a_bind (call (p_reconcileRecipients P snapshot)) (\<lambda>recipients. a_return (snapshot, recipients)))"

subsection \<open>The authoritative publication\<close>

datatype block_reason = Protected_content_blocked | Session_source_blocked

datatype authoritative_outcome =
    Published int "(jsstring, int) object"
  | Locally_blocked block_reason
  | Deferred_network | Deferred_recipient_set
  | Publication_failed_closed

fun publicationBlockReason :: "preflight \<Rightarrow> block_reason" where
  "publicationBlockReason Invalid_source_binding = Session_source_blocked"
| "publicationBlockReason _ = Protected_content_blocked"

fun is_ready :: "preflight \<Rightarrow> bool" where
  "is_ready (Ready _) = True"
| "is_ready _ = False"

fun preflight_sessions ::
  "('w, 'r) upload_ports \<Rightarrow> canonical_session list \<Rightarrow> nat \<Rightarrow> block_reason \<Rightarrow> thrown + nat \<times> block_reason" where
  "preflight_sessions P [] blocked reason = Inr (blocked, reason)"
| "preflight_sessions P (session # sessions) blocked reason =
    (case p_preflightSession P session of
       Inl e \<Rightarrow> Inl e
     | Inr (Ready _) \<Rightarrow> preflight_sessions P sessions blocked reason
     | Inr Invalid_source_binding \<Rightarrow> preflight_sessions P sessions (Suc blocked) Session_source_blocked
     | Inr Invalid_content \<Rightarrow> preflight_sessions P sessions (Suc blocked) reason)"

definition preflightAuthoritativeSessionSet ::
  "('w, 'r) upload_ports \<Rightarrow> canonical_session list \<Rightarrow> thrown + nat \<times> block_reason" where
  "preflightAuthoritativeSessionSet P sessions = preflight_sessions P sessions 0 Protected_content_blocked"

text \<open>Sealing the current source, unless it is blocked.\<close>

definition seal_ready ::
  "('w, 'r) upload_ports \<Rightarrow> canonical_session \<Rightarrow> int \<Rightarrow> int \<Rightarrow> 'r
    \<Rightarrow> (session_upload \<Rightarrow> ('w, authoritative_outcome + 'b) act) \<Rightarrow> ('w, authoritative_outcome + 'b) act" where
  "seal_ready P session revision version recipients rest =
     a_bind (a_lift (p_preflightSession P session)) (\<lambda>preflight.
       if \<not> is_ready preflight then a_return (Inl (Locally_blocked (publicationBlockReason preflight)))
       else a_bind (seal_session P session revision version recipients) rest)"

text \<open>The second half of the preparation: an upload for the version of the pass, sealed if there is none.\<close>

definition ensure_upload ::
  "('w, 'r) upload_ports \<Rightarrow> canonical_session \<Rightarrow> int \<Rightarrow> 'r \<Rightarrow> session_upload option
    \<Rightarrow> ('w, authoritative_outcome + session_upload) act" where
  "ensure_upload P session version recipients upload =
    (let sid = cs_sessionId session in
     case upload of
       Some u \<Rightarrow>
         if su_recipientSetVersion u = version then a_return (Inr u)
         else seal_ready P session (su_revision u) version recipients (\<lambda>v.
           a_bind (a_lift (p_sessionSourceDigest P session)) (\<lambda>digest.
           a_bind (replace_session_inflight P sid v digest) (\<lambda>_. a_return (Inr v))))
     | None \<Rightarrow>
         a_bind (a_lift (p_preflightSession P session)) (\<lambda>preflight.
           if \<not> is_ready preflight then a_return (Inl (Locally_blocked (publicationBlockReason preflight)))
           else a_bind (call (p_nextSessionRevision P sid)) (\<lambda>revision.
             a_bind (seal_session P session revision version recipients) (\<lambda>v.
             a_bind (a_lift (p_sessionSourceDigest P session)) (\<lambda>digest.
             a_bind (persist_session_inflight P sid v digest) (\<lambda>_. a_return (Inr v)))))))"

text \<open>An inflight upload is reconciled before it is reused or rebuilt.\<close>

definition prepare_upload ::
  "('w, 'r) upload_ports \<Rightarrow> canonical_session \<Rightarrow> int \<Rightarrow> 'r \<Rightarrow> ('w, authoritative_outcome + session_upload) act" where
  "prepare_upload P session version recipients =
    (let sid = cs_sessionId session; ensure = ensure_upload P session version recipients in
     a_bind (load_session P sid) (\<lambda>upload.
     case upload of
       None \<Rightarrow> ensure None
     | Some u \<Rightarrow>
         a_try (reconcile_session P u)
           (\<lambda>committed.
             if committed then a_bind (complete_session_inflight P sid (su_revision u)) (\<lambda>_. ensure None)
             else (let digest = (case p_sessionSourceDigest P session of Inr d \<Rightarrow> d | Inl _ \<Rightarrow> []) in
               a_bind (noted (p_getSessionInflightDigest P sid) (Digest_read sid)) (\<lambda>recorded.
               if (case recorded of None \<Rightarrow> False | Some d \<Rightarrow> digest \<noteq> [] \<and> digestsEqual d digest)
                   \<and> su_recipientSetVersion u = version
               then ensure (Some u)
               else seal_ready P session (su_revision u) version recipients (\<lambda>v.
                 a_bind (replace_session_inflight P sid v digest) (\<lambda>_. ensure (Some v))))))
           (\<lambda>e. a_return (Inl Deferred_network))))"

text \<open>What one Session leaves of a pass: its revision, a restart with the refreshed recipients, or the
  outcome of the whole publication.\<close>

datatype 'r session_step =
    Step_done int
  | Step_restart recipient_snapshot 'r bool
  | Step_return authoritative_outcome

definition session_conflict ::
  "('w, 'r) upload_ports \<Rightarrow> canonical_session \<Rightarrow> session_upload \<Rightarrow> int \<Rightarrow> bool \<Rightarrow> thrown \<Rightarrow> bool
    \<Rightarrow> bool \<Rightarrow> recipient_snapshot \<times> 'r \<Rightarrow> ('w, 'r session_step) act" where
  "session_conflict P session upload version exhausted error committed refreshed current =
    (let sid = cs_sessionId session; (currentSnapshot, currentRecipients) = current in
     case decideSessionUpload \<lparr>sd_publishSucceeded = False, sd_conflictReason = th_reason error,
         sd_reconcileCommitted = Some committed, sd_attemptedRecipientVersion = version,
         sd_refreshedRecipientVersion = (if refreshed then Some (rs_recipientSetVersion currentSnapshot) else None),
         sd_currentRevision = su_revision upload, sd_sameVersionCommitRetryExhausted = exhausted,
         sd_failureCategory = relayFailureCategory error\<rparr> of
       Session_commit revision \<Rightarrow>
         a_bind (complete_session_inflight P sid revision) (\<lambda>_. a_return (Step_done revision))
     | Session_defer category \<Rightarrow>
         a_return (Step_return (if category = Cat_recipient_set then Deferred_recipient_set else Deferred_network))
     | Session_fail_closed _ \<Rightarrow> a_return (Step_return Publication_failed_closed)
     | Session_reconcile \<Rightarrow> a_return (Step_return Deferred_network)
     | Session_refresh_reencrypt revision \<Rightarrow>
         a_bind (a_lift (p_preflightSession P session)) (\<lambda>preflight.
         if \<not> is_ready preflight then a_return (Step_return (Locally_blocked (publicationBlockReason preflight)))
         else a_bind (seal_session P session revision (rs_recipientSetVersion currentSnapshot) currentRecipients) (\<lambda>v.
           a_bind (a_lift (p_sessionSourceDigest P session)) (\<lambda>digest.
           a_bind (replace_session_inflight P sid v digest) (\<lambda>_.
           a_return (Step_restart currentSnapshot currentRecipients exhausted)))))
     | Session_retry_next_revision revision \<Rightarrow>
         a_bind (complete_session_inflight P sid (su_revision upload)) (\<lambda>_.
         a_return (Step_restart currentSnapshot currentRecipients (rs_recipientSetVersion currentSnapshot = version))))"

definition publish_one ::
  "('w, 'r) upload_ports \<Rightarrow> canonical_session \<Rightarrow> session_upload \<Rightarrow> recipient_snapshot \<Rightarrow> 'r \<Rightarrow> bool
    \<Rightarrow> ('w, 'r session_step) act" where
  "publish_one P session upload snapshot recipients exhausted =
    (let conflict = session_conflict P session upload (rs_recipientSetVersion snapshot) exhausted in
     a_try (publish_session P upload)
       (\<lambda>_. a_bind (complete_session_inflight P (cs_sessionId session) (su_revision upload)) (\<lambda>_.
          a_return (Step_done (su_revision upload))))
       (\<lambda>error.
          if \<not> isRelayConflict error then a_return (Step_return Deferred_network)
          else a_try (reconcile_session P upload)
            (\<lambda>committed.
               if th_reason error = Some RECIPIENT_SET_CHANGED_REASON
               then a_try (refresh_recipients P) (\<lambda>current. conflict error committed True current)
                 (\<lambda>_. a_return (Step_return Deferred_recipient_set))
               else conflict error committed False (snapshot, recipients))
            (\<lambda>_. a_return (Step_return Deferred_network))))"

text \<open>One pass over the Sessions with one version of the recipient set.\<close>

datatype 'r pass_result =
    Pass_done "(jsstring, int) object"
  | Pass_restart recipient_snapshot 'r bool
  | Pass_return authoritative_outcome

fun authoritative_pass ::
  "('w, 'r) upload_ports \<Rightarrow> canonical_session list \<Rightarrow> recipient_snapshot \<Rightarrow> 'r \<Rightarrow> bool \<Rightarrow> (jsstring, int) object
    \<Rightarrow> ('w, 'r pass_result) act" where
  "authoritative_pass P [] snapshot recipients exhausted revisions = a_return (Pass_done revisions)"
| "authoritative_pass P (session # sessions) snapshot recipients exhausted revisions =
    a_bind (prepare_upload P session (rs_recipientSetVersion snapshot) recipients) (\<lambda>prepared.
    case prepared of
      Inl outcome \<Rightarrow> a_return (Pass_return outcome)
    | Inr upload \<Rightarrow>
        a_bind (publish_one P session upload snapshot recipients exhausted) (\<lambda>step.
        case step of
          Step_done revision \<Rightarrow> authoritative_pass P sessions snapshot recipients exhausted
            (oput (cs_sessionId session) revision revisions)
        | Step_restart snapshot' recipients' exhausted' \<Rightarrow> a_return (Pass_restart snapshot' recipients' exhausted')
        | Step_return outcome \<Rightarrow> a_return (Pass_return outcome)))"

fun authoritative_loop ::
  "nat \<Rightarrow> ('w, 'r) upload_ports \<Rightarrow> canonical_session list \<Rightarrow> recipient_snapshot \<Rightarrow> 'r \<Rightarrow> bool
    \<Rightarrow> ('w, authoritative_outcome option) act" where
  "authoritative_loop 0 P sessions snapshot recipients exhausted = a_return None"
| "authoritative_loop (Suc fuel) P sessions snapshot recipients exhausted =
    a_bind (authoritative_pass P sessions snapshot recipients exhausted []) (\<lambda>result.
    case result of
      Pass_done revisions \<Rightarrow>
        a_bind (issued (Version_set (rs_recipientSetVersion snapshot))
            (p_setRecipientSetVersion P (rs_recipientSetVersion snapshot))) (\<lambda>_.
        a_return (Some (Published (rs_recipientSetVersion snapshot) revisions)))
    | Pass_restart snapshot' recipients' exhausted' \<Rightarrow> authoritative_loop fuel P sessions snapshot' recipients' exhausted'
    | Pass_return outcome \<Rightarrow> a_return (Some outcome))"

definition publishAuthoritativeSnapshots ::
  "nat \<Rightarrow> ('w, 'r) upload_ports \<Rightarrow> recipient_snapshot \<Rightarrow> 'r \<Rightarrow> canonical_session list
    \<Rightarrow> ('w, authoritative_outcome option) act" where
  "publishAuthoritativeSnapshots fuel P snapshot recipients sessions =
     a_bind (a_lift (preflightAuthoritativeSessionSet P sessions)) (\<lambda>(blocked, reason).
       if 0 < blocked then a_return (Some (Locally_blocked reason))
       else authoritative_loop fuel P sessions snapshot recipients False)"

subsection \<open>Reconciliation without publishing\<close>

definition lookup_session :: "('w, 'r) upload_ports \<Rightarrow> jsstring \<Rightarrow> ('w, session_lookup) act" where
  "lookup_session P sid = a_bind (call (p_getSessionInflightLookup P sid)) (\<lambda>lookup.
     a_bind (case lookup of
         Lookup_v2 u \<Rightarrow> note_call (Session_loaded sid (Some u))
       | Lookup_legacy u \<Rightarrow> note_call (Session_loaded sid (Some u))
       | _ \<Rightarrow> a_return ()) (\<lambda>_. a_return lookup))"

fun reconcile_inflights ::
  "('w, 'r) upload_ports \<Rightarrow> jsstring set \<Rightarrow> jsstring list \<Rightarrow> bool \<Rightarrow> ('w, bool) act" where
  "reconcile_inflights P active [] deferred = a_return deferred"
| "reconcile_inflights P active (sid # sids) deferred =
    (let next = reconcile_inflights P active sids;
         reconcile = (\<lambda>u. a_try (reconcile_session P u)
           (\<lambda>committed. if committed
              then a_bind (complete_session_inflight P sid (su_revision u)) (\<lambda>_. next deferred)
              else next (deferred \<or> sid \<notin> active))
           (\<lambda>_. next True))
     in a_bind (lookup_session P sid) (\<lambda>lookup.
        case lookup of
          Lookup_missing \<Rightarrow> next deferred
        | Lookup_malformed \<Rightarrow> next True
        | Lookup_cross_bound _ \<Rightarrow> next True
        | Lookup_v2 u \<Rightarrow> reconcile u
        | Lookup_legacy u \<Rightarrow> reconcile u))"

definition reconcileSessionInflights ::
  "('w, 'r) upload_ports \<Rightarrow> canonical_session list \<Rightarrow> ('w, bool) act" where
  "reconcileSessionInflights P sessions =
     a_bind (call (p_listInflightSessionIds P)) (\<lambda>sids.
     reconcile_inflights P (set (map cs_sessionId sessions)) sids False)"

subsection \<open>After a change of the recipients\<close>

text \<open>First every Session without an inflight upload gets one.\<close>

fun seal_all ::
  "('w, 'r) upload_ports \<Rightarrow> recipient_snapshot \<Rightarrow> 'r \<Rightarrow> canonical_session list \<Rightarrow> jsstring list
    \<Rightarrow> ('w, jsstring list option) act" where
  "seal_all P snapshot recipients [] pending = a_return (Some pending)"
| "seal_all P snapshot recipients (session # sessions) pending =
    (let sid = cs_sessionId session in
     a_bind (load_session P sid) (\<lambda>upload.
     if upload \<noteq> None then seal_all P snapshot recipients sessions pending
     else a_bind (a_lift (p_preflightSession P session)) (\<lambda>preflight.
       if \<not> is_ready preflight then a_return None
       else a_bind (call (p_nextSessionRevision P sid)) (\<lambda>revision.
         a_bind (seal_session P session revision (rs_recipientSetVersion snapshot) recipients) (\<lambda>u.
         a_bind (a_lift (p_sessionSourceDigest P session)) (\<lambda>digest.
         a_bind (persist_session_inflight P sid u digest) (\<lambda>_.
         seal_all P snapshot recipients sessions (if sid \<in> set pending then pending else pending @ [sid]))))))))"

text \<open>What one attempt to publish leaves: it is committed, it is tried again, or the workflow gives up.\<close>

datatype 'r change_step =
    Change_committed "recipient_snapshot \<times> 'r"
  | Change_again session_upload bool "recipient_snapshot \<times> 'r"
  | Change_gave_up

definition change_decision ::
  "('w, 'r) upload_ports \<Rightarrow> jsstring \<Rightarrow> session_upload \<Rightarrow> bool \<Rightarrow> recipient_snapshot \<times> 'r
    \<Rightarrow> (canonical_session \<times> recipient_snapshot \<times> 'r) option \<Rightarrow> session_decision \<Rightarrow> ('w, 'r change_step) act" where
  "change_decision P sid upload exhausted current refreshed decision = (case decision of
     Session_commit revision \<Rightarrow>
       a_bind (complete_session_inflight P sid revision) (\<lambda>_. a_return (Change_committed current))
   | Session_defer _ \<Rightarrow> a_return Change_gave_up
   | Session_reconcile \<Rightarrow> a_return Change_gave_up
   | Session_fail_closed _ \<Rightarrow> a_return Change_gave_up
   | Session_refresh_reencrypt revision \<Rightarrow> (case refreshed of
       None \<Rightarrow> a_return Change_gave_up
     | Some (session, snapshot, recipients) \<Rightarrow>
         a_bind (a_lift (p_preflightSession P session)) (\<lambda>preflight.
         if \<not> is_ready preflight then a_return Change_gave_up
         else a_bind (seal_session P session revision (rs_recipientSetVersion snapshot) recipients) (\<lambda>v.
           a_bind (a_lift (p_sessionSourceDigest P session)) (\<lambda>digest.
           a_bind (replace_session_inflight P sid v digest) (\<lambda>_. a_return (Change_again v exhausted current))))))
   | Session_retry_next_revision revision \<Rightarrow> (case refreshed of
       None \<Rightarrow> a_return Change_gave_up
     | Some (session, snapshot, recipients) \<Rightarrow>
         a_bind (a_lift (p_preflightSession P session)) (\<lambda>preflight.
         if \<not> is_ready preflight then a_return Change_gave_up
         else a_bind (complete_session_inflight P sid (su_revision upload)) (\<lambda>_.
           a_bind (seal_session P session revision (rs_recipientSetVersion snapshot) recipients) (\<lambda>v.
           a_bind (a_lift (p_sessionSourceDigest P session)) (\<lambda>digest.
           a_bind (persist_session_inflight P sid v digest) (\<lambda>_.
           a_return (Change_again v (rs_recipientSetVersion snapshot = su_recipientSetVersion upload) current))))))))"

definition change_input ::
  "session_upload \<Rightarrow> bool \<Rightarrow> bool \<Rightarrow> jsstring option \<Rightarrow> bool option \<Rightarrow> int option \<Rightarrow> failure_category \<Rightarrow> session_decision_input" where
  "change_input upload exhausted succeeded reason committed refreshed category =
    \<lparr>sd_publishSucceeded = succeeded, sd_conflictReason = reason, sd_reconcileCommitted = committed,
     sd_attemptedRecipientVersion = su_recipientSetVersion upload, sd_refreshedRecipientVersion = refreshed,
     sd_currentRevision = su_revision upload, sd_sameVersionCommitRetryExhausted = exhausted,
     sd_failureCategory = category\<rparr>"

definition change_attempt ::
  "('w, 'r) upload_ports \<Rightarrow> jsstring \<Rightarrow> session_upload \<Rightarrow> bool \<Rightarrow> recipient_snapshot \<times> 'r \<Rightarrow> ('w, 'r change_step) act" where
  "change_attempt P sid upload exhausted current =
    (let decide = (\<lambda>cur refreshed i. change_decision P sid upload exhausted cur refreshed (decideSessionUpload i)) in
     a_try (publish_session P upload)
       (\<lambda>_. decide current None (change_input upload False True None None None Cat_http))
       (\<lambda>error.
          if \<not> isRelayConflict error
          then decide current None (change_input upload False False None None None (relayFailureCategory error))
          else a_try (reconcile_session P upload)
            (\<lambda>committed.
               if th_reason error = Some RECIPIENT_SET_CHANGED_REASON
               then a_bind (call (p_getSession P sid)) (\<lambda>session.
                 case session of
                   None \<Rightarrow> a_return Change_gave_up
                 | Some s \<Rightarrow> a_try (refresh_recipients P)
                     (\<lambda>(snapshot, recipients). decide (snapshot, recipients) (Some (s, snapshot, recipients))
                        (change_input upload exhausted False (th_reason error) (Some committed)
                          (Some (rs_recipientSetVersion snapshot)) (relayFailureCategory error)))
                     (\<lambda>_. a_return Change_gave_up))
               else decide current None (change_input upload exhausted False (th_reason error) (Some committed) None
                      (relayFailureCategory error)))
            (\<lambda>_. a_return Change_gave_up)))"

fun change_loop ::
  "nat \<Rightarrow> ('w, 'r) upload_ports \<Rightarrow> jsstring \<Rightarrow> session_upload \<Rightarrow> bool \<Rightarrow> recipient_snapshot \<times> 'r
    \<Rightarrow> ('w, (recipient_snapshot \<times> 'r) option option) act" where
  "change_loop 0 P sid upload exhausted current = a_return None"
| "change_loop (Suc fuel) P sid upload exhausted current =
    a_bind (change_attempt P sid upload exhausted current) (\<lambda>step.
    case step of
      Change_committed current' \<Rightarrow> a_return (Some (Some current'))
    | Change_again upload' exhausted' current' \<Rightarrow> change_loop fuel P sid upload' exhausted' current'
    | Change_gave_up \<Rightarrow> a_return (Some None))"

fun publish_changes ::
  "nat \<Rightarrow> ('w, 'r) upload_ports \<Rightarrow> jsstring list \<Rightarrow> recipient_snapshot \<times> 'r
    \<Rightarrow> ('w, (recipient_snapshot \<times> 'r) option option) act" where
  "publish_changes fuel P [] current = a_return (Some (Some current))"
| "publish_changes fuel P (sid # sids) current =
    a_bind (load_session P sid) (\<lambda>upload.
    case upload of
      None \<Rightarrow> a_return (Some None)
    | Some u \<Rightarrow>
        a_bind (change_loop fuel P sid u False current) (\<lambda>result.
        case result of
          Some (Some current') \<Rightarrow> publish_changes fuel P sids current'
        | _ \<Rightarrow> a_return result))"

definition publishRecipientChangeSnapshots ::
  "nat \<Rightarrow> ('w, 'r) upload_ports \<Rightarrow> recipient_snapshot \<Rightarrow> 'r \<Rightarrow> ('w, bool option) act" where
  "publishRecipientChangeSnapshots fuel P snapshot recipients =
     a_bind (call (p_listInflightSessionIds P)) (\<lambda>sids.
     a_bind (call (p_listSessions P)) (\<lambda>sessions.
     a_bind (seal_all P snapshot recipients sessions (js_set sids)) (\<lambda>pending.
     case pending of
       None \<Rightarrow> a_return (Some False)
     | Some ids \<Rightarrow>
         a_bind (publish_changes fuel P ids (snapshot, recipients)) (\<lambda>result.
         case result of
           None \<Rightarrow> a_return None
         | Some None \<Rightarrow> a_return (Some False)
         | Some (Some (final, _)) \<Rightarrow>
             a_bind (issued (Version_set (rs_recipientSetVersion final))
               (p_setRecipientSetVersion P (rs_recipientSetVersion final))) (\<lambda>_. a_return (Some True))))))"

end
