(* ===== verification/Upload_Events.thy ===== *)
theory Upload_Events
  imports Upload_Actions
begin

section \<open>The upload workflows: Events\<close>

text \<open>
  The rest of \<open>createEncryptedUploadActions\<close>: the state machine of a pending Event, the conversion of
  legacy inflight records and the flush. The material of the recipients is threaded through the flush,
  as the context of the code is updated in place by a refresh.
\<close>

definition publish_event :: "('w, 'r) upload_ports \<Rightarrow> tuple_upload \<Rightarrow> ('w, unit) act" where
  "publish_event P u = noted (p_publishEncryptedEvent P u) (\<lambda>_. Event_published u)"

definition reconcile_event :: "('w, 'r) upload_ports \<Rightarrow> tuple_upload \<Rightarrow> ('w, bool) act" where
  "reconcile_event P u = noted (p_reconcileEncryptedEvent P u) (Event_verdict u)"

definition encryptEvent ::
  "('w, 'r) upload_ports \<Rightarrow> canonical_event \<Rightarrow> canonical_session \<Rightarrow> int \<Rightarrow> int \<Rightarrow> 'r \<Rightarrow> ('w, tuple_upload) act" where
  "encryptEvent P event session revision version recipients =
     noted (p_encryptEventUpload P event session revision version recipients)
       (Event_sealed event session revision version)"

definition persist_event_inflight ::
  "('w, 'r) upload_ports \<Rightarrow> jsstring \<Rightarrow> jsstring \<Rightarrow> tuple_upload \<Rightarrow> jsstring \<Rightarrow> ('w, unit) act" where
  "persist_event_inflight P eid sid u digest =
     issued (Event_persist eid sid u digest) (p_persistInflightEventUpload P eid sid u digest)"

definition replace_event_inflight ::
  "('w, 'r) upload_ports \<Rightarrow> jsstring \<Rightarrow> jsstring \<Rightarrow> tuple_upload \<Rightarrow> jsstring \<Rightarrow> ('w, unit) act" where
  "replace_event_inflight P eid sid u digest =
     issued (Event_replace eid sid u digest) (p_replaceInflightEventUpload P eid sid u digest)"

definition run_completion :: "('w, 'r) upload_ports \<Rightarrow> jsstring \<Rightarrow> ('w, unit) act" where
  "run_completion P eid = issued (Completion_run eid) (p_completeEventUpload P eid)"

definition completeFromInflight ::
  "('w, 'r) upload_ports \<Rightarrow> jsstring \<Rightarrow> jsstring \<Rightarrow> tuple_upload \<Rightarrow> ('w, unit) act" where
  "completeFromInflight P eid sid u =
    (let revision = su_revision (tu_session u); eventContent = co_contentId (eu_content (tu_event u));
         sessionContent = co_contentId (su_content (tu_session u))
     in a_bind (issued (Completion_begin eid sid revision eventContent sessionContent)
          (p_beginEventUploadCompletion P eid sid revision eventContent sessionContent)) (\<lambda>_.
        run_completion P eid))"

datatype descriptor_outcome = Completed | Flushed | Quarantined | Deferred | Recovery_required

text \<open>The original inflight envelope goes to the Relay before it is replaced or archived: either the
  descriptor is settled, or the envelope is proven uncommitted.\<close>

definition reconcileInflightBeforeOverwrite ::
  "('w, 'r) upload_ports \<Rightarrow> descriptor \<Rightarrow> loaded_inflight \<Rightarrow> ('w, descriptor_outcome option) act" where
  "reconcileInflightBeforeOverwrite P d inflight =
    a_try (reconcile_event P (li_upload inflight))
      (\<lambda>committed. if committed
         then a_bind (completeFromInflight P (ds_eventId d) (ds_sessionId d) (li_upload inflight)) (\<lambda>_. a_return (Some Completed))
         else a_return None)
      (\<lambda>_. a_return (Some Deferred))"

text \<open>\<open>if (inflight) { \<dots> }\<close> in front of the rest of a workflow.\<close>

definition after_reconcile ::
  "('w, 'r) upload_ports \<Rightarrow> descriptor \<Rightarrow> loaded_inflight option \<Rightarrow> ('w, descriptor_outcome \<times> 'c) act \<Rightarrow> 'c
    \<Rightarrow> ('w, descriptor_outcome \<times> 'c) act" where
  "after_reconcile P d inflight rest ctx = (case inflight of
     None \<Rightarrow> rest
   | Some i \<Rightarrow> a_bind (reconcileInflightBeforeOverwrite P d i) (\<lambda>settled.
       case settled of Some outcome \<Rightarrow> a_return (outcome, ctx) | None \<Rightarrow> rest))"

definition quarantine_event ::
  "('w, 'r) upload_ports \<Rightarrow> descriptor \<Rightarrow> dead_letter_reason \<Rightarrow> byte list option \<Rightarrow> ('w, bool) act" where
  "quarantine_event P d reason raw = issued (Quarantine d reason raw) (p_quarantinePendingEventRaw P d reason raw)"

definition quarantineEvent ::
  "('w, 'r) upload_ports \<Rightarrow> descriptor \<Rightarrow> dead_letter_reason \<Rightarrow> byte list option \<Rightarrow> ('w, descriptor_outcome) act" where
  "quarantineEvent P d reason raw =
     a_try (quarantine_event P d reason raw) (\<lambda>ok. a_return (if ok then Quarantined else Deferred)) (\<lambda>_. a_return Deferred)"

definition quarantinePermanentlyConflictingEvent ::
  "('w, 'r) upload_ports \<Rightarrow> canonical_event \<Rightarrow> ('w, bool) act" where
  "quarantinePermanentlyConflictingEvent P event =
     a_bind (call (p_openInflightEventRaw P (ev_eventId event))) (\<lambda>raw.
     a_try (quarantine_event P \<lparr>ds_eventId = ev_eventId event, ds_sessionId = ev_sessionId event\<rparr> Relay_permanent_conflict raw)
       a_return (\<lambda>_. a_return False))"

fun sourceDeadLetterReason :: "source_failure \<Rightarrow> dead_letter_reason option" where
  "sourceDeadLetterReason Source_utf8_invalid = Some Source_utf8_dead"
| "sourceDeadLetterReason Source_json_bad = Some Source_json_dead"
| "sourceDeadLetterReason Source_shape_bad = Some Source_json_dead"
| "sourceDeadLetterReason Source_binding_bad = Some Event_session_binding_invalid"
| "sourceDeadLetterReason Source_gone = None"

subsection \<open>Publishing one upload\<close>

definition settle_decision ::
  "('w, 'r) upload_ports \<Rightarrow> canonical_event \<Rightarrow> descriptor \<Rightarrow> tuple_upload \<Rightarrow> event_decision \<Rightarrow> ('w, descriptor_outcome) act" where
  "settle_decision P event d upload decision = (case decision of
     Event_complete \<Rightarrow>
       a_bind (completeFromInflight P (ds_eventId d) (ds_sessionId d) upload) (\<lambda>_. a_return Flushed)
   | Event_quarantine _ \<Rightarrow>
       a_bind (quarantinePermanentlyConflictingEvent P event) (\<lambda>done.
         a_return (if done then Quarantined else Deferred))
   | _ \<Rightarrow> a_return Deferred)"

text \<open>The second and last attempt, after the refresh.\<close>

definition publish_refreshed ::
  "('w, 'r) upload_ports \<Rightarrow> canonical_event \<Rightarrow> canonical_session \<Rightarrow> descriptor \<Rightarrow> tuple_upload \<Rightarrow> recipient_snapshot \<times> 'r
    \<Rightarrow> ('w, descriptor_outcome \<times> recipient_snapshot \<times> 'r) act" where
  "publish_refreshed P event session d upload ctx =
    (let settle = (\<lambda>v decision. a_bind (settle_decision P event d v decision) (\<lambda>outcome. a_return (outcome, ctx)));
         input = (\<lambda>error committed. \<lparr>ed_publishSucceeded = False,
           ed_conflictReason = (if isRelayConflict error then th_reason error else None),
           ed_reconcileCommitted = committed, ed_permanentEventConflict = isPermanentEventConflict error,
           ed_recipientRefreshExhausted = True, ed_failureCategory = relayFailureCategory error\<rparr>)
     in a_bind (encryptEvent P event session (su_revision (tu_session upload)) (rs_recipientSetVersion (fst ctx)) (snd ctx)) (\<lambda>v.
        a_bind (a_lift (p_eventSourceDigest P event session)) (\<lambda>digest.
        a_bind (replace_event_inflight P (ds_eventId d) (ds_sessionId d) v digest) (\<lambda>_.
        a_try (publish_event P v) (\<lambda>_. settle v Event_complete)
          (\<lambda>error. if isRelayConflict error
             then a_try (reconcile_event P v) (\<lambda>committed. settle v (decideEventUpload (input error (Some committed))))
               (\<lambda>_. a_return (Deferred, ctx))
             else settle v (decideEventUpload (input error None)))))))"

definition publishEventUpload ::
  "('w, 'r) upload_ports \<Rightarrow> canonical_event \<Rightarrow> canonical_session \<Rightarrow> descriptor \<Rightarrow> tuple_upload \<Rightarrow> recipient_snapshot \<times> 'r
    \<Rightarrow> ('w, descriptor_outcome \<times> recipient_snapshot \<times> 'r) act" where
  "publishEventUpload P event session d upload ctx =
    (let settle = (\<lambda>decision.
       if decision = Event_refresh_session_and_reencrypt
       then a_try (refresh_recipients P) (\<lambda>ctx'. publish_refreshed P event session d upload ctx')
         (\<lambda>_. a_return (Deferred, ctx))
       else a_bind (settle_decision P event d upload decision) (\<lambda>outcome. a_return (outcome, ctx)))
     in a_try (publish_event P upload) (\<lambda>_. settle Event_complete)
       (\<lambda>error. if \<not> isRelayConflict error then a_return (Deferred, ctx)
          else a_try (reconcile_event P upload)
            (\<lambda>committed. settle (decideEventUpload \<lparr>ed_publishSucceeded = False, ed_conflictReason = th_reason error,
               ed_reconcileCommitted = Some committed, ed_permanentEventConflict = isPermanentEventConflict error,
               ed_recipientRefreshExhausted = False, ed_failureCategory = relayFailureCategory error\<rparr>))
            (\<lambda>_. a_return (Deferred, ctx))))"

subsection \<open>One descriptor\<close>

definition digest_differs :: "loaded_inflight option \<Rightarrow> jsstring \<Rightarrow> bool" where
  "digest_differs inflight digest = (case inflight of
     None \<Rightarrow> False
   | Some i \<Rightarrow> (case li_digest i of None \<Rightarrow> False | Some d \<Rightarrow> \<not> digestsEqual d digest))"

definition recipients_differ :: "loaded_inflight option \<Rightarrow> int \<Rightarrow> bool" where
  "recipients_differ inflight version = (case inflight of
     None \<Rightarrow> False
   | Some i \<Rightarrow> eu_recipientSetVersion (tu_event (li_upload i)) \<noteq> version
       \<or> su_recipientSetVersion (tu_session (li_upload i)) \<noteq> version)"

text \<open>A blocked source: archived once its inflight upload is proven uncommitted, unless the digest shows
  that the upload was sealed from another source.\<close>

definition blocked_source ::
  "('w, 'r) upload_ports \<Rightarrow> descriptor \<Rightarrow> canonical_event \<Rightarrow> canonical_session \<Rightarrow> loaded_inflight option \<Rightarrow> dead_letter_reason
    \<Rightarrow> recipient_snapshot \<times> 'r \<Rightarrow> ('w, descriptor_outcome \<times> recipient_snapshot \<times> 'r) act" where
  "blocked_source P d event session inflight reason ctx =
     after_reconcile P d inflight
       (if (case p_eventSourceDigest P event session of Inl _ \<Rightarrow> False | Inr digest \<Rightarrow> digest_differs inflight digest)
        then a_return (Recovery_required, ctx)
        else a_bind (quarantineEvent P d reason (map_option li_raw inflight)) (\<lambda>outcome. a_return (outcome, ctx))) ctx"

definition ready_source ::
  "('w, 'r) upload_ports \<Rightarrow> descriptor \<Rightarrow> canonical_event \<Rightarrow> canonical_session \<Rightarrow> loaded_inflight option \<Rightarrow> jsstring
    \<Rightarrow> recipient_snapshot \<times> 'r \<Rightarrow> ('w, descriptor_outcome \<times> recipient_snapshot \<times> 'r) act" where
  "ready_source P d event session inflight digest ctx =
    (let version = rs_recipientSetVersion (fst ctx); eid = ds_eventId d; sid = ds_sessionId d;
         mismatch = digest_differs inflight digest; changed = recipients_differ inflight version;
         upload = (case inflight of
           None \<Rightarrow> a_bind (call (p_nextSessionRevision P (ev_sessionId event))) (\<lambda>revision.
             a_bind (encryptEvent P event session revision version (snd ctx)) (\<lambda>u.
             a_bind (persist_event_inflight P eid sid u digest) (\<lambda>_. a_return u)))
         | Some i \<Rightarrow> if \<not> changed then a_return (li_upload i)
             else a_bind (encryptEvent P event session (su_revision (tu_session (li_upload i))) version (snd ctx)) (\<lambda>u.
               a_bind (replace_event_inflight P eid sid u digest) (\<lambda>_. a_return u)))
     in after_reconcile P d (if mismatch \<or> changed then inflight else None)
       (if mismatch then a_return (Recovery_required, ctx)
        else a_bind upload (\<lambda>u. publishEventUpload P event session d u ctx)) ctx)"

definition load_event :: "('w, 'r) upload_ports \<Rightarrow> descriptor \<Rightarrow> ('w, load_result) act" where
  "load_event P d = noted (p_loadPendingEventParts P d) (\<lambda>loaded. Event_loaded (ds_eventId d) (case loaded of
     Loaded _ _ i \<Rightarrow> map_option li_upload i
   | Source_failed _ i \<Rightarrow> map_option li_upload i
   | Inflight_failed \<Rightarrow> None))"

definition has_completion :: "('w, 'r) upload_ports \<Rightarrow> jsstring \<Rightarrow> ('w, bool) act" where
  "has_completion P eid = a_bind (call (p_hasEventUploadCompletion P eid)) (\<lambda>b.
     a_bind (if b then note_call (Completion_seen eid) else a_return ()) (\<lambda>_. a_return b))"

definition processPendingEventDescriptor ::
  "('w, 'r) upload_ports \<Rightarrow> descriptor \<Rightarrow> recipient_snapshot \<times> 'r
    \<Rightarrow> ('w, descriptor_outcome \<times> recipient_snapshot \<times> 'r) act" where
  "processPendingEventDescriptor P d ctx =
     a_bind (has_completion P (ds_eventId d)) (\<lambda>journaled.
     if journaled then a_bind (run_completion P (ds_eventId d)) (\<lambda>_. a_return (Completed, ctx))
     else a_bind (load_event P d) (\<lambda>loaded.
     case loaded of
       Inflight_failed \<Rightarrow> a_return (Recovery_required, ctx)
     | Source_failed failure inflight \<Rightarrow> (case sourceDeadLetterReason failure of
         None \<Rightarrow> a_return (Recovery_required, ctx)
       | Some reason \<Rightarrow> after_reconcile P d inflight
           (a_bind (quarantineEvent P d reason (map_option li_raw inflight)) (\<lambda>outcome. a_return (outcome, ctx))) ctx)
     | Loaded event session inflight \<Rightarrow>
         a_bind (a_lift (p_preflightEvent P event session)) (\<lambda>preflight.
         case preflight of
           Ready digest \<Rightarrow> ready_source P d event session inflight digest ctx
         | Invalid_content \<Rightarrow> blocked_source P d event session inflight Protected_content_invalid ctx
         | Invalid_source_binding \<Rightarrow> blocked_source P d event session inflight Event_session_binding_invalid ctx)))"

subsection \<open>The flush\<close>

fun flush_descriptors ::
  "('w, 'r) upload_ports \<Rightarrow> descriptor list \<Rightarrow> recipient_snapshot \<times> 'r \<Rightarrow> nat \<Rightarrow> ('w, nat) act" where
  "flush_descriptors P [] ctx flushed = a_return flushed"
| "flush_descriptors P (d # ds) ctx flushed =
    a_bind (processPendingEventDescriptor P d ctx) (\<lambda>(outcome, ctx').
    case outcome of
      Completed \<Rightarrow> flush_descriptors P ds ctx' (Suc flushed)
    | Flushed \<Rightarrow> flush_descriptors P ds ctx' (Suc flushed)
    | Quarantined \<Rightarrow> flush_descriptors P ds ctx' flushed
    | Deferred \<Rightarrow> a_return flushed
    | Recovery_required \<Rightarrow> a_return flushed)"

text \<open>The conversion of legacy records: Events, then Sessions. The result is whether something is left.\<close>

definition convert_event ::
  "('w, 'r) upload_ports \<Rightarrow> jsstring \<times> jsstring \<times> inflight_kind \<Rightarrow> ('w, bool) act" where
  "convert_event P = (\<lambda>(eid, recorded, kind). case kind of
     Inflight_v2 \<Rightarrow> a_return False
   | Inflight_malformed \<Rightarrow> a_return True
   | Inflight_legacy \<Rightarrow>
       a_bind (noted (p_getInflightEventUpload P eid) (Event_loaded eid)) (\<lambda>upload.
       case upload of
         None \<Rightarrow> a_return True
       | Some u \<Rightarrow>
         (let sid = (if recorded \<noteq> [] then recorded else sm_sessionId (tu_session u));
              settle = (\<lambda>wrap. a_try (reconcile_event P u)
                (\<lambda>committed. if committed then a_bind (completeFromInflight P eid sid u) (\<lambda>_. a_return False)
                   else case wrap of
                     Some digest \<Rightarrow> a_bind (replace_event_inflight P eid sid u digest) (\<lambda>_. a_return False)
                   | None \<Rightarrow> a_return True)
                (\<lambda>_. a_return True))
          in a_bind (call (p_loadPendingEventParts P \<lparr>ds_eventId = eid, ds_sessionId = sid\<rparr>)) (\<lambda>loaded.
             case loaded of
               Loaded event session _ \<Rightarrow>
                 a_bind (a_lift (p_preflightEvent P event session)) (\<lambda>preflight.
                 case preflight of Ready digest \<Rightarrow> settle (Some digest) | _ \<Rightarrow> a_return False)
             | Source_failed Source_gone _ \<Rightarrow> settle None
             | _ \<Rightarrow> a_return False))))"

definition convert_session :: "('w, 'r) upload_ports \<Rightarrow> jsstring \<Rightarrow> ('w, bool) act" where
  "convert_session P sid =
     a_bind (lookup_session P sid) (\<lambda>lookup.
     case lookup of
       Lookup_missing \<Rightarrow> a_return False
     | Lookup_v2 _ \<Rightarrow> a_return False
     | Lookup_malformed \<Rightarrow> a_return True
     | Lookup_cross_bound _ \<Rightarrow> a_return True
     | Lookup_legacy u \<Rightarrow>
         a_bind (call (p_getSession P sid)) (\<lambda>session.
         a_bind (case session of None \<Rightarrow> a_return None | Some s \<Rightarrow>
             a_bind (a_lift (p_preflightSession P s)) (\<lambda>preflight. a_return (Some preflight))) (\<lambda>preflight.
         if (case preflight of None \<Rightarrow> False | Some p \<Rightarrow> \<not> is_ready p) then a_return False
         else a_try (reconcile_session P u)
           (\<lambda>committed. if committed then a_bind (complete_session_inflight P sid (su_revision u)) (\<lambda>_. a_return False)
              else case preflight of
                Some (Ready digest) \<Rightarrow> a_bind (replace_session_inflight P sid u digest) (\<lambda>_. a_return False)
              | _ \<Rightarrow> a_return True)
           (\<lambda>_. a_return True))))"

fun any_left :: "('a \<Rightarrow> ('w, bool) act) \<Rightarrow> 'a list \<Rightarrow> bool \<Rightarrow> ('w, bool) act" where
  "any_left f [] left = a_return left"
| "any_left f (x # xs) left = a_bind (f x) (\<lambda>b. any_left f xs (left \<or> b))"

definition convertLegacyInflightToV2 :: "('w, 'r) upload_ports \<Rightarrow> ('w, bool) act" where
  "convertLegacyInflightToV2 P =
     a_bind (call (p_listEventInflightRecords P)) (\<lambda>records.
     a_bind (any_left (convert_event P) records False) (\<lambda>left.
     a_bind (call (p_listInflightSessionIds P)) (\<lambda>sids.
     a_bind (any_left (convert_session P) sids left) (\<lambda>left'. a_return (\<not> left')))))"

definition flushPendingEvents :: "nat \<Rightarrow> ('w, 'r) upload_ports \<Rightarrow> ('w, nat option) act" where
  "flushPendingEvents fuel P =
     a_bind (convertLegacyInflightToV2 P) (\<lambda>converted.
     if \<not> converted then a_return (Some 0)
     else a_try (refresh_recipients P)
       (\<lambda>(snapshot, recipients).
          a_bind (call (p_getRecipientSetVersion P)) (\<lambda>version.
          a_bind (if version \<noteq> Some (rs_recipientSetVersion snapshot)
              then publishRecipientChangeSnapshots fuel P snapshot recipients else a_return (Some True)) (\<lambda>published.
          case published of
            None \<Rightarrow> a_return None
          | Some False \<Rightarrow> a_return (Some 0)
          | Some True \<Rightarrow>
              a_bind (call (p_listPendingEventDescriptors P)) (\<lambda>ds.
              a_bind (flush_descriptors P ds (snapshot, recipients) 0) (\<lambda>n. a_return (Some n))))))
       (\<lambda>_. a_return (Some 0)))"

end
