(* ===== verification/Upload_Evidence.thy ===== *)
theory Upload_Evidence
  imports Upload_Events "HOL-Library.Sublist"
begin

section \<open>What the log of an upload workflow justifies\<close>

text \<open>
  An inflight record is the only local evidence of an upload the Relay may have committed. The log
  says, for each write, what was known when it was issued: the evidence is replaced, archived or
  removed only after the Relay answered about exactly that upload.
\<close>

subsection \<open>Evidence\<close>

text \<open>The inflight upload of a Session or Event, as the log shows it, and the last answer of the Relay.\<close>

fun current_session :: "jsstring \<Rightarrow> upload_call list \<Rightarrow> session_upload option" where
  "current_session sid [] = None"
| "current_session sid (Session_loaded s u # l) = (if s = sid then u else current_session sid l)"
| "current_session sid (Session_persist s u d # l) = (if s = sid then Some u else current_session sid l)"
| "current_session sid (Session_replace s u d # l) = (if s = sid then Some u else current_session sid l)"
| "current_session sid (Session_remove s # l) = (if s = sid then None else current_session sid l)"
| "current_session sid (_ # l) = current_session sid l"

fun session_answer :: "session_upload \<Rightarrow> upload_call list \<Rightarrow> bool option" where
  "session_answer u [] = None"
| "session_answer u (Session_published v # l) = (if v = u then Some True else session_answer u l)"
| "session_answer u (Session_verdict v b # l) = (if v = u then Some b else session_answer u l)"
| "session_answer u (_ # l) = session_answer u l"

fun current_event :: "jsstring \<Rightarrow> upload_call list \<Rightarrow> tuple_upload option" where
  "current_event eid [] = None"
| "current_event eid (Event_loaded e u # l) = (if e = eid then u else current_event eid l)"
| "current_event eid (Event_persist e s u d # l) = (if e = eid then Some u else current_event eid l)"
| "current_event eid (Event_replace e s u d # l) = (if e = eid then Some u else current_event eid l)"
| "current_event eid (_ # l) = current_event eid l"

fun event_answer :: "tuple_upload \<Rightarrow> upload_call list \<Rightarrow> bool option" where
  "event_answer u [] = None"
| "event_answer u (Event_published v # l) = (if v = u then Some True else event_answer u l)"
| "event_answer u (Event_verdict v b # l) = (if v = u then Some b else event_answer u l)"
| "event_answer u (_ # l) = event_answer u l"

text \<open>A completion record was found in the store, or its write was issued.\<close>

fun completion_journaled :: "jsstring \<Rightarrow> upload_call list \<Rightarrow> bool" where
  "completion_journaled eid [] \<longleftrightarrow> False"
| "completion_journaled eid (Completion_seen e # l) \<longleftrightarrow> e = eid \<or> completion_journaled eid l"
| "completion_journaled eid (Completion_begin e s r c1 c2 # l) \<longleftrightarrow> e = eid \<or> completion_journaled eid l"
| "completion_journaled eid (_ # l) \<longleftrightarrow> completion_journaled eid l"

abbreviation session_settled :: "jsstring \<Rightarrow> bool \<Rightarrow> upload_call list \<Rightarrow> bool" where
  "session_settled sid b l \<equiv> (\<exists>u. current_session sid l = Some u \<and> session_answer u l = Some b)"

abbreviation event_settled :: "jsstring \<Rightarrow> bool \<Rightarrow> upload_call list \<Rightarrow> bool" where
  "event_settled eid b l \<equiv> (\<exists>u. current_event eid l = Some u \<and> event_answer u l = Some b)"

text \<open>What must be in the log when a write is issued.\<close>

fun justified :: "upload_call \<Rightarrow> upload_call list \<Rightarrow> bool" where
  "justified (Revision_commit sid revision) l \<longleftrightarrow>
    (\<exists>u. current_session sid l = Some u \<and> session_answer u l = Some True \<and> su_revision u = revision)"
| "justified (Session_remove sid) l \<longleftrightarrow> session_settled sid True l"
| "justified (Session_replace sid v d) l \<longleftrightarrow> session_settled sid False l"
| "justified (Session_persist sid u d) l \<longleftrightarrow> current_session sid l = None"
| "justified (Event_replace eid sid v d) l \<longleftrightarrow> event_settled eid False l"
| "justified (Event_persist eid sid u d) l \<longleftrightarrow> current_event eid l = None"
| "justified (Completion_begin eid sid revision c1 c2) l \<longleftrightarrow>
    (\<exists>u. current_event eid l = Some u \<and> event_answer u l = Some True \<and> su_revision (tu_session u) = revision
      \<and> co_contentId (eu_content (tu_event u)) = c1 \<and> co_contentId (su_content (tu_session u)) = c2)"
| "justified (Completion_run eid) l \<longleftrightarrow> completion_journaled eid l"
| "justified (Quarantine d reason raw) l \<longleftrightarrow>
    current_event (ds_eventId d) l = None \<or> event_settled (ds_eventId d) False l"
| "justified _ l \<longleftrightarrow> True"

fun evidence_ok :: "upload_call list \<Rightarrow> bool" where
  "evidence_ok [] \<longleftrightarrow> True"
| "evidence_ok (e # l) \<longleftrightarrow> justified e l \<and> evidence_ok l"

subsection \<open>Reasoning about a workflow through its log\<close>

definition leads :: "('w, 'a) act \<Rightarrow> (thrown + 'a \<Rightarrow> upload_call list \<Rightarrow> bool) \<Rightarrow> upload_call list \<Rightarrow> bool" where
  "leads m Q l \<longleftrightarrow> (\<forall>c. cl_log c = l \<longrightarrow> Q (fst (m c)) (cl_log (snd (m c))))"

lemma leadsD: "leads m Q (cl_log c) \<Longrightarrow> m c = (r, c') \<Longrightarrow> Q r (cl_log c')"
  by (auto simp: leads_def)

lemma leads_mono: "leads m Q l \<Longrightarrow> (\<And>r l'. Q r l' \<Longrightarrow> R r l') \<Longrightarrow> leads m R l"
  by (auto simp: leads_def)

lemma leads_conj: "leads m Q l \<Longrightarrow> leads m R l \<Longrightarrow> leads m (\<lambda>r l'. Q r l' \<and> R r l') l"
  by (auto simp: leads_def)

lemma leads_return: "leads (a_return a) Q l \<longleftrightarrow> Q (Inr a) l"
  by (auto simp: leads_def a_return_def intro: exI[of _ "\<lparr>cl_world = undefined, cl_log = l\<rparr>"])

lemma leads_lift: "(\<And>e. r = Inl e \<Longrightarrow> Q (Inl e) l) \<Longrightarrow> (\<And>a. r = Inr a \<Longrightarrow> Q (Inr a) l) \<Longrightarrow> leads (a_lift r) Q l"
  by (cases r) (auto simp: leads_def a_lift_def)

lemma leads_bind:
  assumes "leads m R l" and "\<And>e l'. R (Inl e) l' \<Longrightarrow> Q (Inl e) l'" and "\<And>a l'. R (Inr a) l' \<Longrightarrow> leads (f a) Q l'"
  shows "leads (a_bind m f) Q l"
  unfolding leads_def
proof (intro allI impI)
  fix c :: "'a client" assume c: "cl_log c = l"
  obtain r c' where m: "m c = (r, c')" by fastforce
  have "R r (cl_log c')" using leadsD[of m R c r c'] assms(1) c m by simp
  then show "Q (fst (a_bind m f c)) (cl_log (snd (a_bind m f c)))"
    using assms(2,3) m by (cases r) (auto simp: a_bind_def leads_def)
qed

lemma leads_try:
  assumes "leads m R l" and "\<And>e l'. R (Inl e) l' \<Longrightarrow> leads (g e) Q l'" and "\<And>a l'. R (Inr a) l' \<Longrightarrow> leads (f a) Q l'"
  shows "leads (a_try m f g) Q l"
  unfolding leads_def
proof (intro allI impI)
  fix c :: "'a client" assume c: "cl_log c = l"
  obtain r c' where m: "m c = (r, c')" by fastforce
  have "R r (cl_log c')" using leadsD[of m R c r c'] assms(1) c m by simp
  then show "Q (fst (a_try m f g c)) (cl_log (snd (a_try m f g c)))"
    using assms(2,3) m by (cases r) (auto simp: a_try_def leads_def)
qed

lemma leads_note: "Q (Inr ()) (e # l) \<Longrightarrow> leads (note_call e) Q l"
  by (auto simp: leads_def note_call_def)

lemma leads_call: "(\<And>r w w'. p w = (r, w') \<Longrightarrow> Q r l) \<Longrightarrow> leads (call p) Q l"
  by (auto simp: leads_def call_def split: prod.split)

lemma leads_noted:
  assumes "\<And>e. Q (Inl e) l" and "\<And>a w w'. p w = (Inr a, w') \<Longrightarrow> Q (Inr a) (entry a # l)"
  shows "leads (noted p entry) Q l"
  using assms
  by (auto simp: leads_def noted_def a_bind_def call_def note_call_def a_return_def split: prod.split sum.split)

lemma leads_issued: "(\<And>r. Q r (e # l)) \<Longrightarrow> leads (issued e p) Q l"
  by (auto simp: leads_def issued_def a_bind_def call_def note_call_def split: prod.split)

lemmas leads_rules = leads_bind leads_try leads_lift leads_note leads_call leads_noted leads_issued

text \<open>The log only grows.\<close>

definition grows :: "('w, 'a) act \<Rightarrow> bool" where
  "grows m \<longleftrightarrow> (\<forall>l. leads m (\<lambda>r l'. suffix l l') l)"

lemma grows_leads: "grows m \<Longrightarrow> leads m Q l \<Longrightarrow> leads m (\<lambda>r l'. Q r l' \<and> suffix l l') l"
  using leads_conj[of m Q l "\<lambda>r l'. suffix l l'"] by (simp add: grows_def)

lemma grows_return [intro!]: "grows (a_return a)"
  by (simp add: grows_def leads_return)

lemma grows_lift [intro!]: "grows (a_lift r)"
  by (auto simp: grows_def intro: leads_lift)

lemma grows_call [intro!]: "grows (call p)"
  by (auto simp: grows_def intro: leads_call)

lemma grows_note [intro!]: "grows (note_call e)"
  by (auto simp: grows_def intro!: leads_note suffix_ConsI)

lemma grows_noted [intro!]: "grows (noted p e)"
  by (auto simp: grows_def intro!: leads_noted suffix_ConsI)

lemma grows_issued [intro!]: "grows (issued e p)"
  by (auto simp: grows_def intro!: leads_issued suffix_ConsI)

lemma grows_after: "grows m \<Longrightarrow> suffix l l' \<Longrightarrow> leads m (\<lambda>r. suffix l) l'"
  by (auto simp: grows_def intro: leads_mono suffix_order.trans)

lemma grows_bind [intro!]:
  assumes "grows m" and "\<And>a. grows (f a)"
  shows "grows (a_bind m f)"
  unfolding grows_def
proof
  fix l
  have "leads m (\<lambda>r. suffix l) l" using assms(1) by (simp add: grows_def)
  then show "leads (a_bind m f) (\<lambda>r. suffix l) l"
    by (rule leads_bind) (auto intro: grows_after assms(2))
qed

lemma grows_try [intro!]:
  assumes "grows m" and "\<And>a. grows (f a)" and "\<And>e. grows (g e)"
  shows "grows (a_try m f g)"
  unfolding grows_def
proof
  fix l
  have "leads m (\<lambda>r. suffix l) l" using assms(1) by (simp add: grows_def)
  then show "leads (a_try m f g) (\<lambda>r. suffix l) l"
    by (rule leads_try) (auto intro: grows_after assms(2,3))
qed

lemma leads_grows: "grows m \<Longrightarrow> leads m (\<lambda>r l'. suffix l l' \<longrightarrow> Q r l') l \<Longrightarrow> leads m Q l"
  by (drule (1) grows_leads) (auto intro: leads_mono)

text \<open>Weakest preconditions: a workflow is taken apart call by call.\<close>

lemma lead_bind: "leads m (\<lambda>r l'. case r of Inl e \<Rightarrow> Q (Inl e) l' | Inr a \<Rightarrow> leads (f a) Q l') l \<Longrightarrow> leads (a_bind m f) Q l"
  by (erule leads_bind) simp_all

lemma lead_try: "leads m (\<lambda>r l'. case r of Inl e \<Rightarrow> leads (g e) Q l' | Inr a \<Rightarrow> leads (f a) Q l') l \<Longrightarrow> leads (a_try m f g) Q l"
  by (erule leads_try) simp_all

lemma lead_return: "Q (Inr a) l \<Longrightarrow> leads (a_return a) Q l"
  by (simp add: leads_return)

lemma lead_call: "(\<And>e. Q (Inl e) l) \<Longrightarrow> (\<And>a w w'. p w = (Inr a, w') \<Longrightarrow> Q (Inr a) l) \<Longrightarrow> leads (call p) Q l"
  by (rule leads_call) (metis sum.exhaust)

lemma lead_issued: "(\<And>e'. Q (Inl e') (e # l)) \<Longrightarrow> (\<And>a. Q (Inr a) (e # l)) \<Longrightarrow> leads (issued e p) Q l"
  by (rule leads_issued) (metis sum.exhaust)

lemma lead_noted: "(\<And>e. Q (Inl e) l) \<Longrightarrow> (\<And>a w w'. p w = (Inr a, w') \<Longrightarrow> Q (Inr a) (entry a # l)) \<Longrightarrow> leads (noted p entry) Q l"
  by (rule leads_noted)

lemma lead_if: "(b \<Longrightarrow> leads m Q l) \<Longrightarrow> (\<not> b \<Longrightarrow> leads n Q l) \<Longrightarrow> leads (if b then m else n) Q l"
  by simp

lemmas lead_rules = lead_bind lead_try lead_return leads_lift leads_note lead_call lead_issued lead_noted lead_if

lemmas session_calls = load_session_def reconcile_session_def publish_session_def seal_session_def
  commit_revision_def remove_session_inflight_def persist_session_inflight_def replace_session_inflight_def
  complete_session_inflight_def

text \<open>The versions of the recipient set that were read, newest first.\<close>

fun versions_read :: "upload_call list \<Rightarrow> int list" where
  "versions_read [] = []"
| "versions_read (Recipients_read v # l) = v # versions_read l"
| "versions_read (_ # l) = versions_read l"

text \<open>The Relay holds the upload.\<close>

definition accepted :: "session_upload \<Rightarrow> upload_call list \<Rightarrow> bool" where
  "accepted u l \<longleftrightarrow> Session_published u \<in> set l \<or> Session_verdict u True \<in> set l"

lemma answer_accepted: "session_answer u l = Some True \<Longrightarrow> accepted u l"
  by (induction u l rule: session_answer.induct) (auto simp: accepted_def split: if_splits)

lemma accepted_suffix: "accepted u l \<Longrightarrow> suffix l l' \<Longrightarrow> accepted u l'"
  by (auto simp: accepted_def dest: set_mono_suffix)

end
