(* ===== verification/Upload_Safety.thy ===== *)
theory Upload_Safety
  imports Upload_Evidence
begin

section \<open>Uploads: what every run leaves behind\<close>

text \<open>
  Rules for the operations of the upload workflows over the log of a run: what each leaves, on each
  outcome, and that every write it issues is justified by the log in front of it.
\<close>

subsection \<open>What the capabilities promise\<close>

text \<open>
  An upload is sealed for the version of the recipient set that was asked for (\<open>e2e/envelope.ts\<close>), and a
  loaded Event is the Event of the descriptor (the store checks the binding before it returns one).
\<close>

definition upload_contract :: "('w, 'r) upload_ports \<Rightarrow> bool" where
  "upload_contract P \<longleftrightarrow>
     (\<forall>s r v k w u w'. p_encryptSessionSnapshot P s r v k w = (Inr u, w') \<longrightarrow>
        su_recipientSetVersion u = v \<and> su_revision u = r \<and> sm_sessionId u = cs_sessionId s)
   \<and> (\<forall>sid w u w'. p_getInflightSessionUpload P sid w = (Inr (Some u), w') \<longrightarrow> sm_sessionId u = sid)
   \<and> (\<forall>d w event session i w'.
        p_loadPendingEventParts P d w = (Inr (Loaded event session i), w') \<longrightarrow> ev_eventId event = ds_eventId d)"

lemma sealed_asked:
  assumes "upload_contract P" and "p_encryptSessionSnapshot P s r v k w = (Inr u, w')"
  shows "su_recipientSetVersion u = v" and "su_revision u = r" and "sm_sessionId u = cs_sessionId s"
  using assms unfolding upload_contract_def by blast+

lemma loaded_bound:
  "upload_contract P \<Longrightarrow> p_getInflightSessionUpload P sid w = (Inr (Some u), w') \<Longrightarrow> sm_sessionId u = sid"
  unfolding upload_contract_def by blast

lemma loaded_described:
  "upload_contract P \<Longrightarrow> p_loadPendingEventParts P d w = (Inr (Loaded event session i), w') \<Longrightarrow>
    ev_eventId event = ds_eventId d"
  unfolding upload_contract_def by blast

text \<open>An upload of the current source of a Session: sealed from it in this run, or loaded with the digest of it.\<close>

definition current_source :: "('w, 'r) upload_ports \<Rightarrow> canonical_session \<Rightarrow> session_upload \<Rightarrow> upload_call list \<Rightarrow> bool" where
  "current_source P session u l \<longleftrightarrow>
     Session_sealed session (su_revision u) (su_recipientSetVersion u) u \<in> set l
   \<or> Session_loaded (cs_sessionId session) (Some u) \<in> set l
     \<and> (\<exists>d d'. Digest_read (cs_sessionId session) (Some d) \<in> set l \<and> p_sessionSourceDigest P session = Inr d'
          \<and> digestsEqual d d')"

lemma current_source_loaded:
  "digestsEqual d d' \<Longrightarrow> p_sessionSourceDigest P session = Inr d' \<Longrightarrow>
    current_source P session u
      (Digest_read (cs_sessionId session) (Some d) # e # Session_loaded (cs_sessionId session) (Some u) # l)"
  unfolding current_source_def by auto

lemma current_source_Cons [simp]: "current_source P session u l \<Longrightarrow> current_source P session u (e # l)"
  by (auto simp: current_source_def)

lemma current_source_suffix: "current_source P session u l \<Longrightarrow> suffix l l' \<Longrightarrow> current_source P session u l'"
  by (auto simp: current_source_def dest!: set_mono_suffix) (blast+)?

lemma seal_session_wp:
  assumes "upload_contract P" and "\<And>e. Q (Inl e) l"
    and "\<And>u. su_recipientSetVersion u = version \<Longrightarrow> su_revision u = revision \<Longrightarrow> sm_sessionId u = cs_sessionId session \<Longrightarrow>
      current_source P session u (Session_sealed session revision version u # l) \<Longrightarrow>
      Q (Inr u) (Session_sealed session revision version u # l)"
  shows "leads (seal_session P session revision version recipients) Q l"
  using assms(2) sealed_asked[OF assms(1)] unfolding seal_session_def
  by (auto intro!: lead_noted assms(3) simp: current_source_def)

lemma load_session_wp:
  assumes "upload_contract P" and "\<And>e. Q (Inl e) l" and "Q (Inr None) (Session_loaded sid None # l)"
    and "\<And>u. sm_sessionId u = sid \<Longrightarrow> Q (Inr (Some u)) (Session_loaded sid (Some u) # l)"
  shows "leads (load_session P sid) Q l"
  unfolding load_session_def
proof (rule lead_noted)
  fix a w w' assume "p_getInflightSessionUpload P sid w = (Inr a, w')"
  then show "Q (Inr a) (Session_loaded sid a # l)"
    using assms(3,4) loaded_bound[OF assms(1)] by (cases a) auto
qed (rule assms(2))

lemmas session_defs = reconcile_session_def publish_session_def
  commit_revision_def remove_session_inflight_def persist_session_inflight_def replace_session_inflight_def
  complete_session_inflight_def seal_ready_def refresh_recipients_def Let_def

subsection \<open>The authoritative publication\<close>

lemma ensure_upload_wp:
  assumes contract: "upload_contract P" and "evidence_ok l" and "current_session (cs_sessionId session) l = upload"
    and reuse: "\<And>u. upload = Some u \<Longrightarrow> sm_sessionId u = cs_sessionId session \<and> current_source P session u l
      \<and> (session_answer u l = Some False \<or> su_recipientSetVersion u = version)"
    and fail: "\<And>e l'. evidence_ok l' \<Longrightarrow> Q (Inl e) l'"
    and blocked: "\<And>b. Q (Inr (Inl (Locally_blocked b))) l"
    and ready: "\<And>u l'. evidence_ok l' \<Longrightarrow> current_session (cs_sessionId session) l' = Some u \<Longrightarrow>
      su_recipientSetVersion u = version \<Longrightarrow> sm_sessionId u = cs_sessionId session \<Longrightarrow> current_source P session u l' \<Longrightarrow>
      versions_read l' = versions_read l \<Longrightarrow> Q (Inr (Inr u)) l'"
  shows "leads (ensure_upload P session version recipients upload) Q l"
  using assms(2-4)
  by (auto simp: ensure_upload_def session_defs
      intro!: lead_rules seal_session_wp[OF contract] fail blocked ready split: option.splits)

lemma prepare_upload_wp:
  assumes contract: "upload_contract P" and "evidence_ok l"
    and fail: "\<And>e l'. evidence_ok l' \<Longrightarrow> Q (Inl e) l'"
    and stop: "\<And>b l'. evidence_ok l' \<Longrightarrow> (\<And>w rs. b \<noteq> Published w rs) \<Longrightarrow> Q (Inr (Inl b)) l'"
    and ready: "\<And>u l'. evidence_ok l' \<Longrightarrow> current_session (cs_sessionId session) l' = Some u \<Longrightarrow>
      su_recipientSetVersion u = version \<Longrightarrow> sm_sessionId u = cs_sessionId session \<Longrightarrow> current_source P session u l' \<Longrightarrow>
      versions_read l' = versions_read l \<Longrightarrow> Q (Inr (Inr u)) l'"
  shows "leads (prepare_upload P session version recipients) Q l"
  using assms(2)
  by (auto simp: prepare_upload_def session_defs
      intro!: lead_rules seal_session_wp[OF contract] fail stop ready ensure_upload_wp[OF contract]
        load_session_wp[OF contract] split: option.splits sum.splits) (erule (1) current_source_loaded)

text \<open>A revision that the Relay holds, of this version and this source.\<close>

definition delivered :: "('w, 'r) upload_ports \<Rightarrow> int \<Rightarrow> canonical_session \<Rightarrow> int \<Rightarrow> upload_call list \<Rightarrow> bool" where
  "delivered P version session revision l \<longleftrightarrow>
     (\<exists>u. su_recipientSetVersion u = version \<and> su_revision u = revision \<and> sm_sessionId u = cs_sessionId session
       \<and> current_source P session u l \<and> accepted u l \<and> Revision_commit (cs_sessionId session) revision \<in> set l)"

lemma delivered_suffix: "delivered P v session r l \<Longrightarrow> suffix l l' \<Longrightarrow> delivered P v session r l'"
  unfolding delivered_def by (blast dest: accepted_suffix current_source_suffix set_mono_suffix)

lemma publish_one_wp:
  assumes contract: "upload_contract P" and "evidence_ok l" and "current_session (cs_sessionId session) l = Some u"
    and source: "su_recipientSetVersion u = rs_recipientSetVersion snapshot" "sm_sessionId u = cs_sessionId session"
      "current_source P session u l"
    and fail: "\<And>e l'. evidence_ok l' \<Longrightarrow> Q (Inl e) l'"
    and stop: "\<And>b l'. evidence_ok l' \<Longrightarrow> (\<And>w rs. b \<noteq> Published w rs) \<Longrightarrow> Q (Inr (Step_return b)) l'"
    and committed: "\<And>r l'. evidence_ok l' \<Longrightarrow> delivered P (rs_recipientSetVersion snapshot) session r l' \<Longrightarrow>
      versions_read l' = versions_read l \<Longrightarrow> Q (Inr (Step_done r)) l'"
    and restart: "\<And>s k x l'. evidence_ok l' \<Longrightarrow> versions_read l' = rs_recipientSetVersion s # versions_read l \<Longrightarrow>
      (rs_recipientSetVersion s = rs_recipientSetVersion snapshot \<Longrightarrow> \<not> exhausted \<and> x) \<Longrightarrow>
      Q (Inr (Step_restart s k x)) l'"
  shows "leads (publish_one P session u snapshot recipients exhausted) Q l"
proof -
  have held: "delivered P (rs_recipientSetVersion snapshot) session (su_revision u) l'"
    if "suffix l l'" and "accepted u l'" and "Revision_commit (cs_sessionId session) (su_revision u) \<in> set l'" for l'
    using source(1,2) that current_source_suffix[OF source(3) that(1)] unfolding delivered_def by blast
  show ?thesis
    using assms(2,3)
    by (auto simp: publish_one_def session_conflict_def session_defs decideSessionUpload_def accepted_def suffix_Cons
        intro!: lead_rules seal_session_wp[OF contract] fail stop committed restart held split: option.splits)
qed

lemmas grows_defs = session_defs load_session_def seal_session_def

lemma grows_if [intro!]: "grows m \<Longrightarrow> grows n \<Longrightarrow> grows (if b then m else n)"
  by simp

lemma grows_ensure: "grows (ensure_upload P session version recipients upload)"
  by (auto simp: ensure_upload_def grows_defs split: option.splits)

lemma grows_prepare: "grows (prepare_upload P session version recipients)"
  by (auto simp: prepare_upload_def grows_defs intro!: grows_ensure split: option.splits sum.splits)

lemma grows_publish_one: "grows (publish_one P session u snapshot recipients exhausted)"
  by (auto simp: publish_one_def session_conflict_def grows_defs decideSessionUpload_def split: option.splits)

definition all_delivered ::
  "('w, 'r) upload_ports \<Rightarrow> int \<Rightarrow> canonical_session list \<Rightarrow> (jsstring, int) object \<Rightarrow> upload_call list \<Rightarrow> bool" where
  "all_delivered P version sessions revisions l \<longleftrightarrow>
     (\<forall>session \<in> set sessions. \<exists>r. oget revisions (cs_sessionId session) = Some r \<and> delivered P version session r l)"

lemma all_delivered_suffix:
  "all_delivered P v sessions revisions l \<Longrightarrow> suffix l l' \<Longrightarrow> all_delivered P v sessions revisions l'"
  unfolding all_delivered_def by (blast intro: delivered_suffix)

lemmas all_delivered_Cons = all_delivered_suffix[OF _ suffix_ConsI[OF suffix_order.refl]]

lemma all_delivered_oput:
  assumes "all_delivered P v sessions revisions l" and "delivered P v session r l"
    and "cs_sessionId session \<notin> cs_sessionId ` set sessions"
  shows "all_delivered P v (sessions @ [session]) (oput (cs_sessionId session) r revisions) l"
  using assms by (auto simp: all_delivered_def oget_oput) (metis image_eqI)

lemma authoritative_pass_wp:
  assumes contract: "upload_contract P" and "evidence_ok l"
    and "distinct (map cs_sessionId (before @ sessions))"
    and "all_delivered P (rs_recipientSetVersion snapshot) before revisions l"
    and fail: "\<And>e l'. evidence_ok l' \<Longrightarrow> Q (Inl e) l'"
    and stop: "\<And>b l'. evidence_ok l' \<Longrightarrow> (\<And>w rs. b \<noteq> Published w rs) \<Longrightarrow> Q (Inr (Pass_return b)) l'"
    and delivered: "\<And>rs l'. evidence_ok l' \<Longrightarrow>
      all_delivered P (rs_recipientSetVersion snapshot) (before @ sessions) rs l' \<Longrightarrow> Q (Inr (Pass_done rs)) l'"
    and restart: "\<And>s k x l'. evidence_ok l' \<Longrightarrow> versions_read l' = rs_recipientSetVersion s # versions_read l \<Longrightarrow>
      (rs_recipientSetVersion s = rs_recipientSetVersion snapshot \<Longrightarrow> \<not> exhausted \<and> x) \<Longrightarrow>
      Q (Inr (Pass_restart s k x)) l'"
  shows "leads (authoritative_pass P sessions snapshot recipients exhausted revisions) Q l"
  using assms(2-4) delivered restart
proof (induction sessions arbitrary: before revisions l)
  case Nil
  then show ?case by (auto intro: lead_return)
next
  case (Cons session sessions)
  let ?v = "rs_recipientSetVersion snapshot"
  have onward: "leads (authoritative_pass P sessions snapshot recipients exhausted (oput (cs_sessionId session) r revisions)) Q l'"
    if "evidence_ok l'" and "suffix l l'" and "delivered P ?v session r l'" and "versions_read l' = versions_read l" for r l'
  proof -
    have "all_delivered P ?v before revisions l'"
      using Cons.prems(3) that(2) by (rule all_delivered_suffix)
    then show ?thesis
      using Cons.prems that by (intro Cons.IH[of l' "before @ [session]"]) (auto intro!: all_delivered_oput)
  qed
  show ?case
    unfolding authoritative_pass.simps
  proof (rule lead_bind, rule leads_grows[OF grows_prepare], rule prepare_upload_wp[OF contract Cons.prems(1)], goal_cases)
    case (3 u l')
    note prepared = 3
    show ?case
    proof (simp, intro impI, rule lead_bind, rule leads_grows[OF grows_publish_one],
        rule publish_one_wp[OF contract prepared(1,2,3,4,5)], goal_cases)
      case (3 r l'')
      then show ?case using prepared(6) by (auto intro!: onward intro: suffix_order.trans)
    next
      case (4 s k x l'')
      then show ?case using prepared(6) by (auto intro!: lead_return Cons.prems(5))
    qed (auto intro!: lead_return fail stop)
  qed (auto intro!: lead_return fail stop)
qed

text \<open>How often the version of the recipient set changed, over the versions read in order.\<close>

fun version_changes :: "int \<Rightarrow> int list \<Rightarrow> nat" where
  "version_changes v [] = 0"
| "version_changes v (w # ws) = (if w = v then 0 else 1) + version_changes w ws"

lemma authoritative_loop_wp:
  assumes contract: "upload_contract P" and "evidence_ok l" and ids: "distinct (map cs_sessionId sessions)"
    and fail: "\<And>e l'. evidence_ok l' \<Longrightarrow> Q (Inl e) l'"
    and stop: "\<And>b l'. evidence_ok l' \<Longrightarrow> (\<And>w rs. b \<noteq> Published w rs) \<Longrightarrow> Q (Inr (Some b)) l'"
    and published: "\<And>v rs l'. evidence_ok l' \<Longrightarrow> all_delivered P v sessions rs l' \<Longrightarrow> Version_set v \<in> set l' \<Longrightarrow>
      Q (Inr (Some (Published v rs))) l'"
    and spent: "\<And>read l'. evidence_ok l' \<Longrightarrow> versions_read l' = rev read @ versions_read l \<Longrightarrow>
      fuel \<le> 2 * version_changes (rs_recipientSetVersion snapshot) read + (if exhausted then 0 else 1) \<Longrightarrow> Q (Inr None) l'"
  shows "leads (authoritative_loop fuel P sessions snapshot recipients exhausted) Q l"
  using assms(2) spent
proof (induction fuel arbitrary: snapshot recipients exhausted l)
  case 0
  show ?case using 0(1) by (auto intro!: lead_return 0(2)[of l "[]"])
next
  case (Suc fuel)
  show ?case
    unfolding authoritative_loop.simps
  proof (rule lead_bind, rule authoritative_pass_wp[OF contract Suc.prems(1), of "[]"], goal_cases)
    case (6 s k x l')
    have "leads (authoritative_loop fuel P sessions s k x) Q l'"
    proof (rule Suc.IH[OF 6(1)])
      fix read l'' assume after: "evidence_ok l''" "versions_read l'' = rev read @ versions_read l'"
        "fuel \<le> 2 * version_changes (rs_recipientSetVersion s) read + (if x then 0 else 1)"
      show "Q (Inr None) l''"
        by (rule Suc.prems(2)[of l'' "rs_recipientSetVersion s # read"])
          (use after 6(2,3) in \<open>auto split: if_splits\<close>)
    qed
    then show ?case by simp
  next
    case (5 rs l')
    then show ?case by (auto intro!: lead_rules fail published simp: all_delivered_Cons)
  qed (auto simp: all_delivered_def ids intro!: lead_return fail stop)
qed

lemma publishAuthoritativeSnapshots_wp:
  assumes "upload_contract P" and "evidence_ok l" and "distinct (map cs_sessionId sessions)"
    and fail: "\<And>e l'. evidence_ok l' \<Longrightarrow> Q (Inl e) l'"
    and stop: "\<And>b l'. evidence_ok l' \<Longrightarrow> (\<And>w rs. b \<noteq> Published w rs) \<Longrightarrow> Q (Inr (Some b)) l'"
    and published: "\<And>v rs l'. evidence_ok l' \<Longrightarrow> all_delivered P v sessions rs l' \<Longrightarrow> Version_set v \<in> set l' \<Longrightarrow>
      Q (Inr (Some (Published v rs))) l'"
    and spent: "\<And>read l'. evidence_ok l' \<Longrightarrow> versions_read l' = rev read @ versions_read l \<Longrightarrow>
      fuel \<le> 2 * version_changes (rs_recipientSetVersion snapshot) read + 1 \<Longrightarrow> Q (Inr None) l'"
  shows "leads (publishAuthoritativeSnapshots fuel P snapshot recipients sessions) Q l"
proof -
  have loop: "leads (authoritative_loop fuel P sessions snapshot recipients False) Q l"
  proof (rule authoritative_loop_wp[OF assms(1,2,3)])
    fix read l' assume "evidence_ok l'" and "versions_read l' = rev read @ versions_read l"
      and "fuel \<le> 2 * version_changes (rs_recipientSetVersion snapshot) read + (if False then 0 else 1)"
    then show "Q (Inr None) l'" by (intro spent[of l' read]) auto
  qed (fact fail, fact stop, fact published)
  show ?thesis
    unfolding publishAuthoritativeSnapshots_def
    by (rule lead_bind, rule leads_lift) (auto intro!: loop fail stop lead_return assms(2) split: if_splits)
qed

end
