(* ===== verification/Upload_Flush.thy ===== *)
theory Upload_Flush
  imports Upload_Safety
begin

section \<open>Uploads: reconciliation, changed recipients and Events\<close>

text \<open>The rules of the other workflows; the flush runs most of them.\<close>

abbreviation safe :: "('w, 'a) act \<Rightarrow> upload_call list \<Rightarrow> bool" where
  "safe m l \<equiv> leads m (\<lambda>r l'. evidence_ok l') l"

lemma safe_after: "safe m l \<Longrightarrow> (\<And>r l'. evidence_ok l' \<Longrightarrow> Q r l') \<Longrightarrow> leads m Q l"
  by (rule leads_mono)

lemma safe_bind:
  "safe m l \<Longrightarrow> (\<And>a l'. evidence_ok l' \<Longrightarrow> safe (f a) l') \<Longrightarrow> safe (a_bind m f) l"
  by (erule leads_bind) auto

lemma safe_try:
  "safe m l \<Longrightarrow> (\<And>e l'. evidence_ok l' \<Longrightarrow> safe (g e) l') \<Longrightarrow> (\<And>a l'. evidence_ok l' \<Longrightarrow> safe (f a) l') \<Longrightarrow>
    safe (a_try m f g) l"
  by (erule leads_try) auto

lemma safe_return: "evidence_ok l \<Longrightarrow> safe (a_return a) l"
  by (rule lead_return)

lemma safe_call: "evidence_ok l \<Longrightarrow> safe (call p) l"
  by (rule lead_call)

subsection \<open>Sessions\<close>

lemma lookup_session_wp:
  assumes "evidence_ok l" and "\<And>e. Q (Inl e) l"
    and "\<And>u. Q (Inr (Lookup_v2 u)) (Session_loaded sid (Some u) # l)"
    and "\<And>u. Q (Inr (Lookup_legacy u)) (Session_loaded sid (Some u) # l)"
    and "Q (Inr Lookup_missing) l" and "Q (Inr Lookup_malformed) l" and "\<And>u. Q (Inr (Lookup_cross_bound u)) l"
  shows "leads (lookup_session P sid) Q l"
  using assms unfolding lookup_session_def
  by (auto intro!: lead_rules split: session_lookup.splits)

lemma reconcile_inflights_safe: "evidence_ok l \<Longrightarrow> safe (reconcile_inflights P active sids deferred) l"
  by (induction sids arbitrary: l deferred)
    (auto simp: session_defs intro!: lead_rules lookup_session_wp)

lemma reconcileSessionInflights_safe: "evidence_ok l \<Longrightarrow> safe (reconcileSessionInflights P sessions) l"
  by (auto simp: reconcileSessionInflights_def intro!: lead_rules reconcile_inflights_safe)

lemma seal_all_safe: "evidence_ok l \<Longrightarrow> safe (seal_all P snapshot recipients sessions pending) l"
  by (induction sessions arbitrary: l pending)
    (auto simp: session_calls Let_def intro!: lead_rules)

lemma change_attempt_wp:
  assumes "evidence_ok l" and "current_session sid l = Some u"
    and fail: "\<And>e l'. evidence_ok l' \<Longrightarrow> Q (Inl e) l'"
    and committed: "\<And>c l'. evidence_ok l' \<Longrightarrow> accepted u l' \<Longrightarrow> Q (Inr (Change_committed c)) l'"
    and again: "\<And>v x c l'. evidence_ok l' \<Longrightarrow> current_session sid l' = Some v \<Longrightarrow> Q (Inr (Change_again v x c)) l'"
    and gave_up: "\<And>l'. evidence_ok l' \<Longrightarrow> Q (Inr Change_gave_up) l'"
  shows "leads (change_attempt P sid u exhausted current) Q l"
  using assms(1,2)
  by (auto simp: change_attempt_def change_decision_def change_input_def decideSessionUpload_def session_calls
      refresh_recipients_def Let_def accepted_def
      intro!: lead_rules fail committed again gave_up split: option.splits)

lemma change_loop_safe:
  "evidence_ok l \<Longrightarrow> current_session sid l = Some u \<Longrightarrow> safe (change_loop fuel P sid u exhausted current) l"
  by (induction fuel arbitrary: l u exhausted current)
    (auto intro!: lead_return lead_bind change_attempt_wp)

lemma publish_changes_safe: "evidence_ok l \<Longrightarrow> safe (publish_changes fuel P sids current) l"
  by (induction sids arbitrary: l current)
    (auto simp: load_session_def intro!: lead_rules safe_after[OF change_loop_safe] split: option.splits sum.splits)

lemma publishRecipientChangeSnapshots_safe:
  "evidence_ok l \<Longrightarrow> safe (publishRecipientChangeSnapshots fuel P snapshot recipients) l"
  by (auto simp: publishRecipientChangeSnapshots_def
      intro!: lead_rules safe_after[OF seal_all_safe] safe_after[OF publish_changes_safe] split: option.splits sum.splits)

subsection \<open>Events\<close>

lemmas event_defs = publish_event_def reconcile_event_def encryptEvent_def persist_event_inflight_def
  replace_event_inflight_def run_completion_def completeFromInflight_def quarantine_event_def quarantineEvent_def
  quarantinePermanentlyConflictingEvent_def reconcileInflightBeforeOverwrite_def Let_def

lemma settle_decision_safe:
  assumes "evidence_ok l" and "current_event (ds_eventId d) l = Some u" and "ev_eventId event = ds_eventId d"
    and "decision = Event_complete \<Longrightarrow> event_answer u l = Some True"
    and "\<And>c. decision = Event_quarantine c \<Longrightarrow> event_answer u l = Some False"
  shows "safe (settle_decision P event d u decision) l"
  using assms
  by (auto simp: settle_decision_def event_defs intro!: lead_rules split: event_decision.splits)

lemma publish_refreshed_safe:
  assumes "evidence_ok l" and "current_event (ds_eventId d) l = Some u" and "ev_eventId event = ds_eventId d"
    and "event_answer u l = Some False"
  shows "safe (publish_refreshed P event session d u ctx) l"
  using assms
  by (auto simp: publish_refreshed_def publish_event_def reconcile_event_def encryptEvent_def
      replace_event_inflight_def Let_def decideEventUpload_def
      intro!: lead_rules safe_after[OF settle_decision_safe] split: option.splits bool.splits sum.splits)

lemma publishEventUpload_safe:
  assumes "evidence_ok l" and "current_event (ds_eventId d) l = Some u" and "ev_eventId event = ds_eventId d"
  shows "safe (publishEventUpload P event session d u ctx) l"
  using assms
  by (auto simp: publishEventUpload_def publish_event_def reconcile_event_def refresh_recipients_def
      Let_def decideEventUpload_def
      intro!: lead_rules safe_after[OF settle_decision_safe] safe_after[OF publish_refreshed_safe]
      split: option.splits bool.splits sum.splits)

lemma after_reconcile_safe:
  assumes "evidence_ok l" and "\<And>i. inflight = Some i \<Longrightarrow> current_event (ds_eventId d) l = Some (li_upload i)"
    and "inflight = None \<Longrightarrow> safe rest l"
    and "\<And>i l'. inflight = Some i \<Longrightarrow> evidence_ok l' \<Longrightarrow> current_event (ds_eventId d) l' = Some (li_upload i) \<Longrightarrow>
      event_answer (li_upload i) l' = Some False \<Longrightarrow> safe rest l'"
  shows "safe (after_reconcile P d inflight rest ctx) l"
  using assms
  by (auto simp: after_reconcile_def event_defs intro!: lead_rules split: option.splits)

lemma blocked_source_safe:
  assumes "evidence_ok l" and "current_event (ds_eventId d) l = map_option li_upload inflight"
  shows "safe (blocked_source P d event session inflight reason ctx) l"
  using assms
  by (auto simp: blocked_source_def quarantineEvent_def quarantine_event_def
      intro!: after_reconcile_safe lead_rules split: sum.splits)

lemma ready_source_safe:
  assumes "evidence_ok l" and "current_event (ds_eventId d) l = map_option li_upload inflight"
    and "ev_eventId event = ds_eventId d"
  shows "safe (ready_source P d event session inflight digest ctx) l"
  using assms
  by (auto simp: ready_source_def encryptEvent_def persist_event_inflight_def replace_event_inflight_def Let_def
      recipients_differ_def digest_differs_def
      intro!: after_reconcile_safe lead_rules safe_after[OF publishEventUpload_safe] split: option.splits if_splits)

lemma processPendingEventDescriptor_safe:
  assumes "upload_contract P" and "evidence_ok l"
  shows "safe (processPendingEventDescriptor P d ctx) l"
  using assms(2)
  by (auto simp: processPendingEventDescriptor_def has_completion_def run_completion_def load_event_def
      quarantineEvent_def quarantine_event_def
      intro!: lead_rules safe_after[OF ready_source_safe] safe_after[OF blocked_source_safe] after_reconcile_safe
        loaded_described[OF assms(1)]
      split: load_result.splits preflight.splits option.splits)

lemma flush_descriptors_safe:
  "upload_contract P \<Longrightarrow> evidence_ok l \<Longrightarrow> safe (flush_descriptors P ds ctx n) l"
  by (induction ds arbitrary: l ctx n)
    (auto intro!: lead_return lead_bind safe_after[OF processPendingEventDescriptor_safe] split: sum.splits descriptor_outcome.splits)

lemma convert_event_safe: "evidence_ok l \<Longrightarrow> safe (convert_event P x) l"
  by (cases x)
    (auto simp: convert_event_def event_defs intro!: lead_rules
      split: inflight_kind.splits option.splits load_result.splits preflight.splits source_failure.splits)

lemma convert_session_safe: "evidence_ok l \<Longrightarrow> safe (convert_session P sid) l"
  by (auto simp: convert_session_def session_defs intro!: lead_rules lookup_session_wp
      split: option.splits preflight.splits)

lemma any_left_safe:
  assumes step: "\<And>x l. evidence_ok l \<Longrightarrow> safe (f x) l"
  shows "evidence_ok l \<Longrightarrow> safe (any_left f xs left) l"
proof (induction xs arbitrary: l left)
  case Nil
  then show ?case by (simp add: safe_return)
next
  case (Cons x xs)
  show ?case
    unfolding any_left.simps by (rule safe_bind[OF step[OF Cons.prems] Cons.IH])
qed

lemma convertLegacyInflightToV2_safe: "evidence_ok l \<Longrightarrow> safe (convertLegacyInflightToV2 P) l"
  unfolding convertLegacyInflightToV2_def
  by (intro safe_bind safe_call safe_return any_left_safe convert_event_safe convert_session_safe)

lemma refresh_recipients_safe: "evidence_ok l \<Longrightarrow> safe (refresh_recipients P) l"
  by (auto simp: refresh_recipients_def intro!: lead_rules)

lemma flushPendingEvents_safe:
  assumes contract: "upload_contract P" and "evidence_ok l"
  shows "safe (flushPendingEvents fuel P) l"
  unfolding flushPendingEvents_def
proof (rule safe_bind[OF convertLegacyInflightToV2_safe[OF assms(2)]], rule lead_if,
    erule safe_return, rule safe_try[OF refresh_recipients_safe], assumption, erule safe_return, clarsimp)
  fix l' snapshot recipients assume ok: "evidence_ok l'"
  have flush: "safe (a_bind (call (p_listPendingEventDescriptors P)) (\<lambda>ds.
      a_bind (flush_descriptors P ds (snapshot, recipients) 0) (\<lambda>n. a_return (Some n)))) l''" if "evidence_ok l''" for l''
    by (rule safe_bind[OF safe_call[OF that]], rule safe_bind[OF flush_descriptors_safe[OF contract]])
      (auto intro: safe_return)
  show "safe (a_bind (call (p_getRecipientSetVersion P)) (\<lambda>version.
      a_bind (if version \<noteq> Some (rs_recipientSetVersion snapshot)
          then publishRecipientChangeSnapshots fuel P snapshot recipients else a_return (Some True)) (\<lambda>published.
      case published of
        None \<Rightarrow> a_return None
      | Some False \<Rightarrow> a_return (Some 0)
      | Some True \<Rightarrow>
          a_bind (call (p_listPendingEventDescriptors P)) (\<lambda>ds.
          a_bind (flush_descriptors P ds (snapshot, recipients) 0) (\<lambda>n. a_return (Some n)))))) l'"
    by (rule safe_bind[OF safe_call[OF ok]], rule safe_bind, rule lead_if,
        erule publishRecipientChangeSnapshots_safe, erule safe_return)
      (auto intro: safe_return flush split: option.splits bool.splits)
qed

end
