(* ===== verification/Upload_Examples.thy ===== *)
theory Upload_Examples
  imports Upload_Flush
begin

section \<open>A desk: concrete ports\<close>

text \<open>
  A store with its Sessions, Events and inflight records, and a Relay that keeps what it accepted. The
  version of the recipient set follows a schedule: each attempt to publish to the Relay moves it on.
  An upload for another version than the current one is refused with \<open>e2e_recipient_set_changed\<close>.
\<close>

record desk =
  dk_sessions :: "canonical_session list"
  dk_events :: "(canonical_event \<times> canonical_session) list"
  dk_session_inflights :: "(jsstring, session_upload \<times> jsstring) object"
  dk_event_inflights :: "(jsstring, tuple_upload \<times> jsstring) object"
  dk_revisions :: "(jsstring, int) object"
  dk_version :: "int option"
  dk_schedule :: "int list"
  dk_held_sessions :: "session_upload list"
  dk_held_events :: "tuple_upload list"

definition desk_content :: encrypted_content where
  "desk_content = \<lparr>co_suite = [], co_contentId = [1], co_payloadKind = [], co_nonce = [], co_ciphertext = []\<rparr>"

definition desk_seal :: "canonical_session \<Rightarrow> int \<Rightarrow> int \<Rightarrow> session_upload" where
  "desk_seal s revision version =
    \<lparr>sm_hostId = cs_hostId s, sm_sessionId = cs_sessionId s, sm_provider = cs_provider s, sm_status = cs_status s,
     sm_updatedAt = cs_updatedAt s, sm_lastEventId = cs_lastEventId s, sm_snoozedUntil = cs_snoozedUntil s,
     su_revision = revision, su_recipientSetVersion = version, su_content = desk_content, su_keyWraps = []\<rparr>"

definition desk_seal_event :: "canonical_event \<Rightarrow> canonical_session \<Rightarrow> int \<Rightarrow> int \<Rightarrow> tuple_upload" where
  "desk_seal_event e s revision version =
    \<lparr>tu_event = \<lparr>em_eventId = ev_eventId e, em_hostId = ev_hostId e, em_sessionId = ev_sessionId e,
       em_provider = ev_provider e, em_type = Type_done, em_status = cs_status s, em_createdAt = ev_createdAt e,
       eu_recipientSetVersion = version, eu_content = desk_content, eu_keyWraps = [], eu_notificationPreviews = None\<rparr>,
     tu_session = desk_seal s revision version\<rparr>"

definition desk_snapshot :: "int \<Rightarrow> recipient_snapshot" where
  "desk_snapshot v = \<lparr>rs_hostId = [], rs_recipientSetVersion = v, rs_recipients = []\<rparr>"

definition recipients_changed :: thrown where
  "recipients_changed = \<lparr>th_relayClient = True, th_status = Some 409, th_reason = Some RECIPIENT_SET_CHANGED_REASON\<rparr>"

definition desk_publish :: "int \<Rightarrow> (desk \<Rightarrow> desk) \<Rightarrow> (desk, unit) port" where
  "desk_publish version keep w =
    (let current = hd (dk_schedule w);
         w' = (if tl (dk_schedule w) = [] then w else w\<lparr>dk_schedule := tl (dk_schedule w)\<rparr>)
     in if version = current then (Inr (), keep w') else (Inl recipients_changed, w'))"

definition desk_digest :: jsstring where
  "desk_digest = replicate 43 65"

definition desk_ports :: "(desk, unit) upload_ports" where
  "desk_ports = \<lparr>
    p_getSession = (\<lambda>sid w. (Inr (find (\<lambda>s. cs_sessionId s = sid) (dk_sessions w)), w)),
    p_listSessions = (\<lambda>w. (Inr (dk_sessions w), w)),
    p_listPendingEventDescriptors = (\<lambda>w. (Inr (map (\<lambda>(e, s).
      \<lparr>ds_eventId = ev_eventId e, ds_sessionId = ev_sessionId e\<rparr>) (dk_events w)), w)),
    p_listEventInflightRecords = (\<lambda>w. (Inr (map (\<lambda>(eid, u, _).
      (eid, sm_sessionId (tu_session u), Inflight_v2)) (dk_event_inflights w)), w)),
    p_loadPendingEventParts = (\<lambda>d w. (Inr (case find (\<lambda>(e, s). ev_eventId e = ds_eventId d) (dk_events w) of
        None \<Rightarrow> Source_failed Source_gone None
      | Some (e, s) \<Rightarrow> Loaded e s (map_option (\<lambda>(u, digest).
          \<lparr>li_digest = Some digest, li_raw = [], li_upload = u\<rparr>) (oget (dk_event_inflights w) (ds_eventId d)))), w)),
    p_hasEventUploadCompletion = (\<lambda>_ w. (Inr False, w)),
    p_openInflightEventRaw = (\<lambda>_ w. (Inr None, w)),
    p_getInflightEventUpload = (\<lambda>eid w. (Inr (map_option fst (oget (dk_event_inflights w) eid)), w)),
    p_persistInflightEventUpload = (\<lambda>eid _ u digest w.
      (Inr (), w\<lparr>dk_event_inflights := oput eid (u, digest) (dk_event_inflights w)\<rparr>)),
    p_replaceInflightEventUpload = (\<lambda>eid _ u digest w.
      (Inr (), w\<lparr>dk_event_inflights := oput eid (u, digest) (dk_event_inflights w)\<rparr>)),
    p_listInflightSessionIds = (\<lambda>w. (Inr (okeys (dk_session_inflights w)), w)),
    p_getInflightSessionUpload = (\<lambda>sid w. (Inr (case oget (dk_session_inflights w) sid of
        None \<Rightarrow> None | Some (u, _) \<Rightarrow> if sm_sessionId u = sid then Some u else None), w)),
    p_getSessionInflightLookup = (\<lambda>sid w. (Inr (case oget (dk_session_inflights w) sid of
        None \<Rightarrow> Lookup_missing | Some (u, _) \<Rightarrow> Lookup_v2 u), w)),
    p_getSessionInflightDigest = (\<lambda>sid w. (Inr (map_option snd (oget (dk_session_inflights w) sid)), w)),
    p_persistInflightSessionUpload = (\<lambda>sid u digest w.
      (Inr (), w\<lparr>dk_session_inflights := oput sid (u, digest) (dk_session_inflights w)\<rparr>)),
    p_replaceInflightSessionUpload = (\<lambda>sid u digest w.
      (Inr (), w\<lparr>dk_session_inflights := oput sid (u, digest) (dk_session_inflights w)\<rparr>)),
    p_removeInflightSessionUpload = (\<lambda>sid w.
      (Inr (), w\<lparr>dk_session_inflights := odel sid (dk_session_inflights w)\<rparr>)),
    p_nextSessionRevision = (\<lambda>sid w. (Inr (case oget (dk_revisions w) sid of None \<Rightarrow> 1 | Some r \<Rightarrow> r + 1), w)),
    p_commitSessionRevision = (\<lambda>sid r w. (Inr (), w\<lparr>dk_revisions := oput sid r (dk_revisions w)\<rparr>)),
    p_getRecipientSetVersion = (\<lambda>w. (Inr (dk_version w), w)),
    p_setRecipientSetVersion = (\<lambda>v w. (Inr (), w\<lparr>dk_version := Some v\<rparr>)),
    p_beginEventUploadCompletion = (\<lambda>_ _ _ _ _ w. (Inr (), w)),
    p_completeEventUpload = (\<lambda>eid w. (Inr (), w\<lparr>dk_event_inflights := odel eid (dk_event_inflights w),
      dk_events := filter (\<lambda>(e, s). ev_eventId e \<noteq> eid) (dk_events w)\<rparr>)),
    p_quarantinePendingEventRaw = (\<lambda>_ _ _ w. (Inr False, w)),
    p_recipientSnapshot = (\<lambda>w. (Inr (desk_snapshot (hd (dk_schedule w))), w)),
    p_publishEncryptedEvent = (\<lambda>u. desk_publish (eu_recipientSetVersion (tu_event u))
      (\<lambda>w. w\<lparr>dk_held_events := u # dk_held_events w\<rparr>)),
    p_reconcileEncryptedEvent = (\<lambda>u w. (Inr (u \<in> set (dk_held_events w)), w)),
    p_reconcileEncryptedSession = (\<lambda>u w. (Inr (u \<in> set (dk_held_sessions w)), w)),
    p_publishEncryptedSession = (\<lambda>u. desk_publish (su_recipientSetVersion u)
      (\<lambda>w. w\<lparr>dk_held_sessions := u # dk_held_sessions w\<rparr>)),
    p_reconcileRecipients = (\<lambda>_ w. (Inr (), w)),
    p_encryptSessionSnapshot = (\<lambda>s r v _ w. (Inr (desk_seal s r v), w)),
    p_encryptEventUpload = (\<lambda>e s r v _ w. (Inr (desk_seal_event e s r v), w)),
    p_preflightSession = (\<lambda>_. Inr (Ready desk_digest)),
    p_sessionSourceDigest = (\<lambda>_. Inr desk_digest),
    p_preflightEvent = (\<lambda>_ _. Inr (Ready desk_digest)),
    p_eventSourceDigest = (\<lambda>_ _. Inr desk_digest)\<rparr>"

lemma desk_contract: "upload_contract desk_ports"
  by (auto simp: upload_contract_def desk_ports_def desk_seal_def find_Some_iff split: option.splits if_splits)

definition desk_session :: "nat \<Rightarrow> canonical_session" where
  "desk_session n = \<lparr>cs_sessionId = [of_nat n], cs_hostId = [], cs_provider = [], cs_projectName = [], cs_nameText = [],
     cs_openingText = None, cs_latestActivityText = None, cs_workingDirectory = None, cs_harnessProvider = None,
     cs_status = Session_idle, cs_updatedAt = [], cs_lastEventId = None, cs_snoozedUntil = None\<rparr>"

definition desk_event :: "nat \<Rightarrow> canonical_event" where
  "desk_event n = \<lparr>ev_eventId = [100 + of_nat n], ev_hostId = [], ev_sessionId = [of_nat n], ev_provider = [],
     ev_agentText = [], ev_humanText = None, ev_projectName = None, ev_workingDirectory = None,
     ev_harnessProvider = None, ev_createdAt = [], ev_body = Event_done\<rparr>"

text \<open>Two Sessions, a pending Event, and a recipient set that changes after the first Session is published.\<close>

definition busy_desk :: desk where
  "busy_desk = \<lparr>dk_sessions = [desk_session 1, desk_session 2], dk_events = [(desk_event 1, desk_session 1)],
     dk_session_inflights = [], dk_event_inflights = [], dk_revisions = [], dk_version = None, dk_schedule = [1, 2],
     dk_held_sessions = [], dk_held_events = []\<rparr>"

end
