(* ===== verification/Upload_Properties.thy ===== *)
theory Upload_Properties
  imports Upload_Examples
begin

section \<open>Properties of the upload workflows\<close>

text \<open>
  Each statement is about a run from an empty log; the witnesses run the workflows on the desk of
  \<open>Upload_Examples\<close>, where the recipient set changes between the two Sessions.
\<close>

abbreviation started :: "'w \<Rightarrow> 'w client" where
  "started w \<equiv> \<lparr>cl_world = w, cl_log = []\<rparr>"

lemma leads_run: "leads m Q [] \<Longrightarrow> Q (fst (m (started w))) (cl_log (snd (m (started w))))"
  by (simp add: leads_def)

lemma safe_run: "safe m [] \<Longrightarrow> evidence_ok (cl_log (snd (m (started w))))"
  by (rule leads_run)

lemma busy_ids: "distinct (map cs_sessionId [desk_session 1, desk_session 2])"
  by (simp add: desk_session_def)

text \<open>
  C17. No workflow loses the evidence of an upload the Relay may hold. In every run of the flush, the
  authoritative publication, the publication after a recipient change, the reconciliation and the
  legacy conversion, whatever the store, the Relay and the cryptography answer or throw: an inflight
  upload is written over another one, or archived with its Event, only after the Relay said that this
  very upload is not committed; it is removed, its revision committed or its Event completed only after
  the Relay accepted it or said that it is committed; and a first inflight upload is written only
  where none was found.
\<close>

theorem uploads_keep_their_evidence:
  assumes contract: "upload_contract P" and ids: "distinct (map cs_sessionId sessions)"
  shows "evidence_ok (cl_log (snd (flushPendingEvents fuel P (started w))))
    \<and> evidence_ok (cl_log (snd (publishAuthoritativeSnapshots fuel P snapshot recipients sessions (started w))))
    \<and> evidence_ok (cl_log (snd (publishRecipientChangeSnapshots fuel P snapshot recipients (started w))))
    \<and> evidence_ok (cl_log (snd (reconcileSessionInflights P sessions (started w))))
    \<and> evidence_ok (cl_log (snd (convertLegacyInflightToV2 P (started w))))"
proof -
  have "safe (publishAuthoritativeSnapshots fuel P snapshot recipients sessions) []"
    by (rule publishAuthoritativeSnapshots_wp[OF contract _ ids]) simp_all
  moreover have "safe (flushPendingEvents fuel P) []" by (simp add: flushPendingEvents_safe[OF contract])
  moreover have "safe (publishRecipientChangeSnapshots fuel P snapshot recipients) []"
    by (simp add: publishRecipientChangeSnapshots_safe)
  moreover have "safe (reconcileSessionInflights P sessions) []" by (simp add: reconcileSessionInflights_safe)
  moreover have "safe (convertLegacyInflightToV2 P) []" by (simp add: convertLegacyInflightToV2_safe)
  ultimately show ?thesis by (simp add: safe_run)
qed

lemma uploads_keep_their_evidence_witness:
  "evidence_ok (cl_log (snd (flushPendingEvents 4 desk_ports (started busy_desk))))
   \<and> list_ex (\<lambda>e. case e of Session_replace s u d \<Rightarrow> s = [2] \<and> su_recipientSetVersion u = 2 | _ \<Rightarrow> False)
       (cl_log (snd (flushPendingEvents 4 desk_ports (started busy_desk))))"
proof
  show "evidence_ok (cl_log (snd (flushPendingEvents 4 desk_ports (started busy_desk))))"
    by (rule uploads_keep_their_evidence[OF desk_contract busy_ids, THEN conjunct1])
qed code_simp

text \<open>
  C18. A published authoritative set is complete and of one version: for every Session of the set the
  returned revision is that of an upload of this Session, sealed for the returned version of the
  recipient set from the given Session or found with the digest of it, that the Relay accepted in this
  run, and whose revision was committed. This holds however often the recipients changed on the way.
\<close>

theorem published_sessions_are_held_by_the_relay:
  assumes "upload_contract P" and "distinct (map cs_sessionId sessions)"
    and run: "publishAuthoritativeSnapshots fuel P snapshot recipients sessions (started w)
      = (Inr (Some (Published version revisions)), c')"
    and "session \<in> set sessions"
  shows "\<exists>r u. oget revisions (cs_sessionId session) = Some r
      \<and> su_revision u = r \<and> su_recipientSetVersion u = version \<and> sm_sessionId u = cs_sessionId session
      \<and> current_source P session u (cl_log c') \<and> accepted u (cl_log c')
      \<and> Revision_commit (cs_sessionId session) r \<in> set (cl_log c')"
proof -
  have "leads (publishAuthoritativeSnapshots fuel P snapshot recipients sessions)
    (\<lambda>r l. \<forall>v rs. r = Inr (Some (Published v rs)) \<longrightarrow> all_delivered P v sessions rs l) []"
    by (rule publishAuthoritativeSnapshots_wp[OF assms(1) _ assms(2)]) auto
  from leads_run[OF this, of w] run assms(4) show ?thesis
    by (fastforce simp: all_delivered_def delivered_def)
qed

text \<open>
  C19. The passes of the authoritative publication end: a restart needs a new version of the recipient
  set or uses up the single retry of a version, so more than \<open>2 k + 1\<close> passes are enough if the
  versions read in the run changed \<open>k\<close> times, and the publication returns an outcome.
\<close>

theorem authoritative_passes_end:
  assumes "upload_contract P" and "distinct (map cs_sessionId sessions)"
    and run: "publishAuthoritativeSnapshots fuel P snapshot recipients sessions (started w) = (r, c')"
    and "2 * version_changes (rs_recipientSetVersion snapshot) (rev (versions_read (cl_log c'))) + 1 < fuel"
  shows "r \<noteq> Inr None"
proof -
  have "leads (publishAuthoritativeSnapshots fuel P snapshot recipients sessions)
    (\<lambda>r l. r = Inr None \<longrightarrow>
      fuel \<le> 2 * version_changes (rs_recipientSetVersion snapshot) (rev (versions_read l)) + 1) []"
    by (rule publishAuthoritativeSnapshots_wp[OF assms(1) _ assms(2)]) auto
  from leads_run[OF this, of w] run assms(4) show ?thesis by auto
qed

abbreviation busy_run :: "(thrown + authoritative_outcome option) \<times> desk client" where
  "busy_run \<equiv> publishAuthoritativeSnapshots 4 desk_ports (desk_snapshot 1) () [desk_session 1, desk_session 2]
     (started busy_desk)"

lemma busy_outcome: "fst busy_run = Inr (Some (Published 2 [([1], 2), ([2], 1)]))"
  by code_simp

lemma busy_changes: "2 * version_changes (rs_recipientSetVersion (desk_snapshot 1)) (rev (versions_read (cl_log (snd busy_run)))) + 1 < (4 :: nat)"
  by code_simp

lemma published_sessions_are_held_by_the_relay_witness:
  "\<exists>u. su_revision u = 2 \<and> su_recipientSetVersion u = 2 \<and> sm_sessionId u = [1]
     \<and> current_source desk_ports (desk_session 1) u (cl_log (snd busy_run)) \<and> accepted u (cl_log (snd busy_run))"
proof -
  have "busy_run = (Inr (Some (Published 2 [([1], 2), ([2], 1)])), snd busy_run)"
    by (metis busy_outcome prod.collapse)
  from published_sessions_are_held_by_the_relay[OF desk_contract busy_ids this, of "desk_session 1"]
  show ?thesis by (fastforce simp: desk_session_def)
qed

lemma authoritative_passes_end_witness: "fst busy_run \<noteq> Inr None"
  by (rule authoritative_passes_end[OF desk_contract busy_ids surjective_pairing busy_changes])

text \<open>
  An example run: the publication after a recipient change has no such restart. Here the recipients change
  again after the first Session was published; the call reports success and records the new version, though
  the first Session was published for the old version only and has no inflight upload left.
\<close>

lemma recipient_change_leaves_a_session_behind:
  "let (r, c) = publishRecipientChangeSnapshots 3 desk_ports (desk_snapshot 1) () (started busy_desk) in
     r = Inr (Some True) \<and> dk_version (cl_world c) = Some 2 \<and> dk_session_inflights (cl_world c) = []
     \<and> map su_recipientSetVersion (filter (\<lambda>u. sm_sessionId u = [1]) (dk_held_sessions (cl_world c))) = [1]
     \<and> map su_recipientSetVersion (filter (\<lambda>u. sm_sessionId u = [2]) (dk_held_sessions (cl_world c))) = [2]"
  by code_simp

end
