(* ===== verification/Link_Keyring.thy ===== *)
theory Link_Keyring
  imports Upload_World Bridge_Store
begin

section \<open>The key ring of the links\<close>

text \<open>
  \<open>LocalLinkKeyring\<close> (\<open>e2e/link-keyring.ts\<close>): for each link of the Host with a Watch a pin that fixes
  both encryption keys, in memory and in a file that several processes share. An operation is a
  function from the object and the world to a result and both; an object that another process opened
  is another \<open>keyring\<close> over the same world. A lock taken by \<open>acquireProcessAwareLock\<close> is held for one
  operation. \<open>JSON.stringify\<close> is used to compare values only, and stands for equality.
\<close>

subsection \<open>Data\<close>

datatype pin_status = Pin_active | Pin_retiring | Pin_revoked

record link_pin =
  pn_status :: pin_status
  pn_linkId :: jsstring
  pn_hostId :: jsstring
  pn_watchDeviceId :: jsstring
  pn_linkGeneration :: int
  pn_epoch :: int
  pn_transcriptDigest :: jsstring
  pn_hostBinding :: key_binding
  pn_hostSignature :: jsstring
  pn_hostBindingDigest :: jsstring
  pn_watchBinding :: key_binding
  pn_watchSignature :: jsstring
  pn_watchBindingDigest :: jsstring
  pn_peerProofDigest :: jsstring
  pn_activatedAt :: jsstring
  pn_retiringAt :: "jsstring option"

record pending_activation =
  pd_linkId :: jsstring
  pd_linkGeneration :: int
  pd_epoch :: int
  pd_peerProofDigest :: jsstring
  pd_activatedAt :: jsstring
  pd_pin :: link_pin

record keyring_state =
  ks_pins :: "link_pin list"
  ks_pending :: "pending_activation list"

text \<open>A \<open>HostEncryptionIdentity\<close>.\<close>

record host_key =
  hk_hostId :: jsstring
  hk_encryptionKeyId :: jsstring
  hk_publicKey :: jsstring
  hk_sequence :: int
  hk_createdAt :: jsstring
  hk_privateKey :: "byte list"

record keyring =
  kr_pins :: "link_pin list"
  kr_pending :: "pending_activation list"
  kr_persisted :: keyring_state

record keyring_world =
  kw_file :: "keyring_state option"
  kw_keys :: "host_key list"
  kw_currentKey :: jsstring
  kw_calls :: nat

text \<open>What the environment decides: SHA-256 in base64url, the Host, the outcome of each write of the file and
  of each pruning of the key store, whether a lock is free, and what its release answers: \<open>release\<close> reads the
  lock file again and removes it, and either may throw.\<close>

record keyring_env =
  ke_hash :: "byte list \<Rightarrow> jsstring"
  ke_hostId :: jsstring
  ke_write :: "nat \<Rightarrow> write_outcome"
  ke_lock :: "nat \<Rightarrow> bool"
  ke_release :: "nat \<Rightarrow> unit result"

type_synonym 'a keyring_op = "keyring \<times> keyring_world \<Rightarrow> 'a result \<times> keyring \<times> keyring_world"

definition k_return :: "'a \<Rightarrow> 'a keyring_op" where
  "k_return a = (\<lambda>s. (ok a, s))"

definition k_lift :: "'a result \<Rightarrow> 'a keyring_op" where
  "k_lift r = (\<lambda>s. (r, s))"

definition k_bind :: "'a keyring_op \<Rightarrow> ('a \<Rightarrow> 'b keyring_op) \<Rightarrow> 'b keyring_op" where
  "k_bind m f = (\<lambda>s. case m s of (Inl e, s') \<Rightarrow> (Inl e, s') | (Inr a, s') \<Rightarrow> f a s')"

definition k_get :: "(keyring \<times> keyring_world) keyring_op" where
  "k_get = (\<lambda>s. (ok s, s))"

definition k_memory :: "(keyring \<Rightarrow> keyring) \<Rightarrow> unit keyring_op" where
  "k_memory f = (\<lambda>(k, w). (ok (), f k, w))"

subsection \<open>Tuples and keys\<close>

definition pinKey :: "jsstring \<Rightarrow> int \<Rightarrow> int \<Rightarrow> jsstring" where
  "pinKey linkId generation epoch = linkId @ js '':'' @ num_string generation @ js '':'' @ num_string epoch"

definition key_of :: "link_pin \<Rightarrow> jsstring" where
  "key_of p = pinKey (pn_linkId p) (pn_linkGeneration p) (pn_epoch p)"

definition pin_tuple :: "link_pin \<Rightarrow> int \<times> int" where
  "pin_tuple p = (pn_linkGeneration p, pn_epoch p)"

definition comparePinTuple :: "int \<times> int \<Rightarrow> int \<times> int \<Rightarrow> int" where
  "comparePinTuple left right = (if fst left = fst right then snd left - snd right else fst left - fst right)"

definition latestPin :: "link_pin \<Rightarrow> link_pin \<Rightarrow> link_pin" where
  "latestPin left right = (if 0 \<le> comparePinTuple (pin_tuple left) (pin_tuple right) then left else right)"

subsection \<open>Validation\<close>

definition validateEncryptionKeyBindingV1 :: "key_binding \<Rightarrow> jsstring \<Rightarrow> bool" where
  "validateEncryptionKeyBindingV1 b signature \<longleftrightarrow> key_binding_valid b \<and> isBase64UrlBytes signature 64"

text \<open>\<open>None\<close> where the code throws.\<close>

definition deriveHostEncryptionKeyId :: "keyring_env \<Rightarrow> jsstring \<Rightarrow> jsstring option" where
  "deriveHostEncryptionKeyId E publicKey = (case base64UrlDecode publicKey (Some 32) of
     Inl _ \<Rightarrow> None | Inr raw \<Rightarrow> Some (js ''ekey_'' @ ke_hash E raw))"

definition bindingDigestSync :: "keyring_env \<Rightarrow> key_binding \<Rightarrow> jsstring option" where
  "bindingDigestSync E b = (case buildEncryptionBindingBytes b of
     Inl _ \<Rightarrow> None | Inr bytes \<Rightarrow> Some (ke_hash E bytes))"

definition transcriptDigestSync :: "keyring_env \<Rightarrow> link_pin \<Rightarrow> jsstring" where
  "transcriptDigestSync E p = ke_hash E (buildLinkTranscriptBytes
     \<lparr>lt_linkId = pn_linkId p, lt_hostId = pn_hostId p, lt_watchDeviceId = pn_watchDeviceId p,
      lt_linkGeneration = pn_linkGeneration p, lt_epoch = pn_epoch p, lt_hostBindingDigest = pn_hostBindingDigest p,
      lt_watchBindingDigest = pn_watchBindingDigest p, lt_suite = None\<rparr>)"

definition find_key :: "host_key list \<Rightarrow> jsstring \<Rightarrow> host_key option" where
  "find_key keys keyId = find (\<lambda>k. hk_encryptionKeyId k = keyId) keys"

definition bindingMatchesIdentity :: "keyring_env \<Rightarrow> key_binding \<Rightarrow> host_key \<Rightarrow> bool" where
  "bindingMatchesIdentity E b k \<longleftrightarrow> kb_entityType b = Host_entity \<and> kb_entityId b = hk_hostId k
     \<and> kb_encryptionKeyId b = hk_encryptionKeyId k \<and> kb_publicKey b = hk_publicKey k
     \<and> kb_sequence b = hk_sequence k \<and> kb_createdAt b = hk_createdAt k
     \<and> deriveHostEncryptionKeyId E (kb_publicKey b) = Some (kb_encryptionKeyId b)"

definition isPinDigest :: "jsstring \<Rightarrow> bool" where
  "isPinDigest v \<longleftrightarrow> isBase64UrlBytes v 32"

definition pin_shape_ok :: "keyring_env \<Rightarrow> link_pin \<Rightarrow> bool" where
  "pin_shape_ok E p \<longleftrightarrow> pn_hostId p = ke_hostId E \<and> isPositiveInteger (pn_linkGeneration p) \<and> isPositiveInteger (pn_epoch p)
     \<and> isPinDigest (pn_transcriptDigest p) \<and> isPinDigest (pn_hostBindingDigest p) \<and> isPinDigest (pn_watchBindingDigest p)
     \<and> isPinDigest (pn_peerProofDigest p) \<and> is_canonical_timestamp (pn_activatedAt p)
     \<and> (case pn_retiringAt p of None \<Rightarrow> True | Some t \<Rightarrow> is_canonical_timestamp t)
     \<and> validateEncryptionKeyBindingV1 (pn_hostBinding p) (pn_hostSignature p)
     \<and> validateEncryptionKeyBindingV1 (pn_watchBinding p) (pn_watchSignature p)"

fun retirement_ok :: "pin_status \<Rightarrow> jsstring option \<Rightarrow> jsstring \<Rightarrow> bool" where
  "retirement_ok Pin_active retiringAt activatedAt \<longleftrightarrow> retiringAt = None"
| "retirement_ok Pin_retiring retiringAt activatedAt \<longleftrightarrow>
     (case retiringAt of None \<Rightarrow> False | Some t \<Rightarrow> activatedAt \<le> t)"
| "retirement_ok Pin_revoked retiringAt activatedAt \<longleftrightarrow>
     (case retiringAt of None \<Rightarrow> True | Some t \<Rightarrow> activatedAt \<le> t)"

definition pin_binding_ok :: "keyring_env \<Rightarrow> link_pin \<Rightarrow> bool" where
  "pin_binding_ok E p \<longleftrightarrow> kb_entityType (pn_hostBinding p) = Host_entity \<and> kb_entityId (pn_hostBinding p) = ke_hostId E
     \<and> kb_entityType (pn_watchBinding p) = Watch_entity \<and> kb_entityId (pn_watchBinding p) = pn_watchDeviceId p
     \<and> deriveHostEncryptionKeyId E (kb_publicKey (pn_watchBinding p)) = Some (kb_encryptionKeyId (pn_watchBinding p))
     \<and> kb_encryptionKeyId (pn_hostBinding p) \<noteq> kb_encryptionKeyId (pn_watchBinding p)
     \<and> bindingDigestSync E (pn_hostBinding p) = Some (pn_hostBindingDigest p)
     \<and> bindingDigestSync E (pn_watchBinding p) = Some (pn_watchBindingDigest p)
     \<and> pn_transcriptDigest p = transcriptDigestSync E p"

definition pin_key_ok :: "keyring_env \<Rightarrow> host_key list \<Rightarrow> link_pin \<Rightarrow> bool" where
  "pin_key_ok E keys p \<longleftrightarrow> (case find_key keys (kb_encryptionKeyId (pn_hostBinding p)) of
     None \<Rightarrow> False | Some k \<Rightarrow> bindingMatchesIdentity E (pn_hostBinding p) k)"

definition assertValidPin :: "keyring_env \<Rightarrow> host_key list \<Rightarrow> link_pin \<Rightarrow> unit result" where
  "assertValidPin E keys p =
    (if \<not> pin_shape_ok E p then throw (TypeError ''local E2E pin is invalid'')
     else if \<not> retirement_ok (pn_status p) (pn_retiringAt p) (pn_activatedAt p)
     then throw (TypeError ''local E2E pin retirement boundary is invalid'')
     else if \<not> pin_binding_ok E p then throw (TypeError ''local E2E pin binding is invalid'')
     else if \<not> pin_key_ok E keys p then throw (TypeError ''local E2E pin Host key is unavailable'')
     else ok ())"

definition pending_matches :: "pending_activation \<Rightarrow> bool" where
  "pending_matches d \<longleftrightarrow> pn_status (pd_pin d) = Pin_active \<and> pn_retiringAt (pd_pin d) = None
     \<and> pd_linkId d = pn_linkId (pd_pin d) \<and> pd_linkGeneration d = pn_linkGeneration (pd_pin d)
     \<and> pd_epoch d = pn_epoch (pd_pin d) \<and> pd_peerProofDigest d = pn_peerProofDigest (pd_pin d)
     \<and> pd_activatedAt d = pn_activatedAt (pd_pin d)"

definition assertValidPending :: "keyring_env \<Rightarrow> host_key list \<Rightarrow> pending_activation \<Rightarrow> unit result" where
  "assertValidPending E keys d =
    (if \<not> is_safe_integer (pd_linkGeneration d) \<or> \<not> is_safe_integer (pd_epoch d) \<or> \<not> isPinDigest (pd_peerProofDigest d)
        \<or> \<not> is_canonical_timestamp (pd_activatedAt d)
     then throw (TypeError ''pending activation is invalid'')
     else rbind (assertValidPin E keys (pd_pin d)) (\<lambda>_.
       if \<not> pending_matches d then throw (TypeError ''pending activation tuple mismatch'') else ok ()))"

fun check_pins :: "keyring_env \<Rightarrow> host_key list \<Rightarrow> link_pin list \<Rightarrow> jsstring list \<Rightarrow> jsstring list result" where
  "check_pins E keys [] tuples = ok tuples"
| "check_pins E keys (p # ps) tuples = rbind (assertValidPin E keys p) (\<lambda>_.
     if key_of p \<in> set tuples then throw (TypeError ''duplicate local E2E pin tuple'')
     else check_pins E keys ps (key_of p # tuples))"

fun check_pending ::
  "keyring_env \<Rightarrow> host_key list \<Rightarrow> jsstring list \<Rightarrow> pending_activation list \<Rightarrow> jsstring list \<Rightarrow> jsstring list \<Rightarrow> unit result" where
  "check_pending E keys tuples [] pendingTuples pendingWatches = ok ()"
| "check_pending E keys tuples (d # ds) pendingTuples pendingWatches = rbind (assertValidPending E keys d) (\<lambda>_.
     let key = key_of (pd_pin d); watch = pn_watchDeviceId (pd_pin d) in
     if key \<in> set tuples \<or> key \<in> set pendingTuples \<or> watch \<in> set pendingWatches
     then throw (TypeError ''duplicate pending local E2E activation'')
     else check_pending E keys tuples ds (key # pendingTuples) (watch # pendingWatches))"

definition check_watch :: "keyring_state \<Rightarrow> jsstring \<Rightarrow> unit result" where
  "check_watch s watch =
    (let pins = filter (\<lambda>p. pn_watchDeviceId p = watch) (ks_pins s);
         active = filter (\<lambda>p. pn_status p = Pin_active) pins;
         maximal = foldl latestPin (hd pins) (tl pins)
     in if 1 < length active then throw (TypeError ''multiple active local E2E pins for Watch'')
        else if \<exists>p \<in> set active. comparePinTuple (pin_tuple p) (pin_tuple maximal) \<noteq> 0
        then throw (TypeError ''local E2E pin rollback detected'')
        else case find (\<lambda>d. pn_watchDeviceId (pd_pin d) = watch) (ks_pending s) of
          None \<Rightarrow> ok ()
        | Some d \<Rightarrow> if comparePinTuple (pin_tuple (pd_pin d)) (pin_tuple maximal) \<le> 0
            then throw (TypeError ''pending local E2E activation rollback detected'') else ok ())"

fun check_watches :: "keyring_state \<Rightarrow> jsstring list \<Rightarrow> unit result" where
  "check_watches s [] = ok ()"
| "check_watches s (watch # watches) = rbind (check_watch s watch) (\<lambda>_. check_watches s watches)"

definition validateState :: "keyring_env \<Rightarrow> host_key list \<Rightarrow> keyring_state \<Rightarrow> unit result" where
  "validateState E keys s =
     rbind (check_pins E keys (ks_pins s) []) (\<lambda>tuples.
     rbind (check_pending E keys tuples (ks_pending s) [] []) (\<lambda>_.
     check_watches s (js_set (map pn_watchDeviceId (ks_pins s)))))"

end
