(* ===== verification/Keyring_Operations.thy ===== *)
theory Keyring_Operations
  imports Link_Keyring
begin

section \<open>The operations of the key ring\<close>

subsection \<open>The file\<close>

text \<open>\<open>writeSecureJson\<close> and the remembered state.\<close>

definition persistState :: "keyring_env \<Rightarrow> keyring_state \<Rightarrow> unit keyring_op" where
  "persistState E s = (\<lambda>(k, w). let w' = w\<lparr>kw_calls := Suc (kw_calls w)\<rparr> in
     case ke_write E (kw_calls w) of
       Written \<Rightarrow> (ok (), k\<lparr>kr_persisted := s\<rparr>, w'\<lparr>kw_file := Some s\<rparr>)
     | Not_written \<Rightarrow> (throw (PlainError ''write failed''), k, w')
     | Written_then_failed \<Rightarrow> (throw (PlainError ''write failed''), k, w'\<lparr>kw_file := Some s\<rparr>))"

definition memory_state :: "keyring \<Rightarrow> keyring_state" where
  "memory_state k = \<lparr>ks_pins = kr_pins k, ks_pending = kr_pending k\<rparr>"

definition persist :: "keyring_env \<Rightarrow> unit keyring_op" where
  "persist E = k_bind k_get (\<lambda>(k, w). persistState E (memory_state k))"

definition load :: "keyring_env \<Rightarrow> keyring_state keyring_op" where
  "load E = k_bind k_get (\<lambda>(k, w). case kw_file w of
     None \<Rightarrow> k_return \<lparr>ks_pins = [], ks_pending = []\<rparr>
   | Some s \<Rightarrow> k_bind (k_lift (validateState E (kw_keys w) s)) (\<lambda>_. k_return s))"

definition set_memory :: "keyring_state \<Rightarrow> keyring \<Rightarrow> keyring" where
  "set_memory s k = k\<lparr>kr_pins := ks_pins s, kr_pending := ks_pending s, kr_persisted := s\<rparr>"

text \<open>The constructor; also what a restart does.\<close>

definition open_keyring :: "keyring_env \<Rightarrow> unit keyring_op" where
  "open_keyring E = k_bind k_get (\<lambda>(k, w).
     if find_key (kw_keys w) (kw_currentKey w) = None
     then k_lift (throw (TypeError ''Host encryption identity is unavailable''))
     else k_bind (load E) (\<lambda>s. k_memory (set_memory s)))"

definition refreshPersisted :: "keyring_env \<Rightarrow> unit keyring_op" where
  "refreshPersisted E = k_bind (load E) (\<lambda>s. k_memory (set_memory s))"

definition acquire_lock :: "keyring_env \<Rightarrow> unit keyring_op" where
  "acquire_lock E = (\<lambda>(k, w). let w' = w\<lparr>kw_calls := Suc (kw_calls w)\<rparr> in
     if ke_lock E (kw_calls w) then (ok (), k, w')
     else (throw (TypeError ''local E2E keyring mutation is already in progress''), k, w'))"

definition release_lock :: "keyring_env \<Rightarrow> unit keyring_op" where
  "release_lock E = (\<lambda>(k, w). (ke_release E (kw_calls w), k, w))"

text \<open>\<open>try ... finally\<close>: an error of the cleanup replaces the outcome of the body.\<close>

definition k_finally :: "'a keyring_op \<Rightarrow> unit keyring_op \<Rightarrow> 'a keyring_op" where
  "k_finally m cleanup = (\<lambda>s. case m s of (r, s') \<Rightarrow>
     (case cleanup s' of (Inl e, s'') \<Rightarrow> (Inl e, s'') | (Inr _, s'') \<Rightarrow> (r, s'')))"

definition updatePersisted :: "keyring_env \<Rightarrow> unit keyring_op \<Rightarrow> unit keyring_op" where
  "updatePersisted E mutate =
     k_bind (acquire_lock E) (\<lambda>_.
     k_finally (k_bind (load E) (\<lambda>latest.
       k_bind (k_memory (set_memory latest)) (\<lambda>_.
       k_bind mutate (\<lambda>_.
       k_bind k_get (\<lambda>(k, w).
       k_bind (k_lift (validateState E (kw_keys w) (memory_state k))) (\<lambda>_.
       if memory_state k \<noteq> latest then persistState E (memory_state k) else k_return ()))))))
     (release_lock E))"

subsection \<open>Queries\<close>

definition same_tuple :: "jsstring \<Rightarrow> int \<Rightarrow> int \<Rightarrow> link_pin \<Rightarrow> bool" where
  "same_tuple linkId generation epoch p \<longleftrightarrow>
     pn_linkId p = linkId \<and> pn_linkGeneration p = generation \<and> pn_epoch p = epoch"

definition listActive :: "keyring \<Rightarrow> link_pin list" where
  "listActive k = filter (\<lambda>p. pn_status p = Pin_active) (kr_pins k)"

definition listRetiring :: "keyring \<Rightarrow> link_pin list" where
  "listRetiring k = filter (\<lambda>p. pn_status p = Pin_retiring) (kr_pins k)"

definition referencedHostEncryptionKeyIds :: "keyring \<Rightarrow> jsstring list" where
  "referencedHostEncryptionKeyIds k =
     js_set (map (\<lambda>p. kb_encryptionKeyId (pn_hostBinding p)) (kr_pins k)
       @ map (\<lambda>d. kb_encryptionKeyId (pn_hostBinding (pd_pin d))) (kr_pending k))"

definition getUsable :: "keyring \<Rightarrow> jsstring \<Rightarrow> int \<Rightarrow> int \<Rightarrow> link_pin option" where
  "getUsable k linkId generation epoch =
     find (\<lambda>p. pn_status p \<noteq> Pin_revoked \<and> same_tuple linkId generation epoch p) (kr_pins k)"

definition reference_of :: "link_pin \<Rightarrow> pin_reference" where
  "reference_of p = \<lparr>pin_linkId = pn_linkId p, pin_linkGeneration = pn_linkGeneration p, pin_epoch = pn_epoch p,
     pin_transcriptDigest = pn_transcriptDigest p, pin_hostEncryptionKeyId = kb_encryptionKeyId (pn_hostBinding p),
     pin_watchEncryptionKeyId = kb_encryptionKeyId (pn_watchBinding p)\<rparr>"

definition resolvePinReference :: "keyring \<Rightarrow> jsstring \<Rightarrow> int \<Rightarrow> int \<Rightarrow> pin_reference option" where
  "resolvePinReference k linkId generation epoch = map_option reference_of (getUsable k linkId generation epoch)"

definition resolvePinMaterial ::
  "keyring_env \<Rightarrow> keyring \<Rightarrow> host_key list \<Rightarrow> jsstring \<Rightarrow> int \<Rightarrow> int \<Rightarrow> (link_pin \<times> host_key) result" where
  "resolvePinMaterial E k keys linkId generation epoch = (case getUsable k linkId generation epoch of
     None \<Rightarrow> throw (TypeError ''link pin is unavailable'')
   | Some p \<Rightarrow> (case find_key keys (kb_encryptionKeyId (pn_hostBinding p)) of
       None \<Rightarrow> throw (TypeError ''Host identity for link pin is unavailable'')
     | Some i \<Rightarrow> if bindingMatchesIdentity E (pn_hostBinding p) i then ok (p, i)
         else throw (TypeError ''Host identity for link pin is unavailable'')))"

datatype receipt_pin_status = Pin_deliverable | Receipt_revoked | Pin_unavailable

definition resolveCommandReceiptPinStatus :: "keyring \<Rightarrow> pin_reference \<Rightarrow> jsstring \<Rightarrow> receipt_pin_status" where
  "resolveCommandReceiptPinStatus k r issuedAt =
    (case find (same_tuple (pin_linkId r) (pin_linkGeneration r) (pin_epoch r)) (kr_pins k) of
       None \<Rightarrow> Pin_unavailable
     | Some p \<Rightarrow>
         if reference_of p \<noteq> r then Pin_unavailable
         else if pn_status p = Pin_revoked then Receipt_revoked
         else if pn_status p = Pin_retiring \<and> (case pn_retiringAt p of None \<Rightarrow> True | Some t \<Rightarrow> t \<le> issuedAt)
         then Pin_unavailable else Pin_deliverable)"

definition pendingActivation :: "keyring \<Rightarrow> jsstring \<Rightarrow> int \<Rightarrow> int \<Rightarrow> pending_activation option" where
  "pendingActivation k linkId generation epoch =
     find (\<lambda>d. pd_linkId d = linkId \<and> pd_linkGeneration d = generation \<and> pd_epoch d = epoch) (kr_pending k)"

subsection \<open>Activation\<close>

definition laterTimestamp :: "jsstring \<Rightarrow> jsstring \<Rightarrow> jsstring" where
  "laterTimestamp left right = (if right \<le> left then left else right)"

definition drop_pending :: "link_pin \<Rightarrow> pending_activation list \<Rightarrow> pending_activation list" where
  "drop_pending p ds = filter (\<lambda>d. \<not> (pd_linkId d = pn_linkId p \<and> pd_linkGeneration d = pn_linkGeneration p
     \<and> pd_epoch d = pn_epoch p)) ds"

definition rolls_back :: "link_pin \<Rightarrow> link_pin \<Rightarrow> bool" where
  "rolls_back p item \<longleftrightarrow> pn_linkGeneration item > pn_linkGeneration p
     \<or> pn_linkGeneration item = pn_linkGeneration p
       \<and> (pn_epoch item > pn_epoch p \<or> pn_epoch item = pn_epoch p \<and> pn_linkId item \<noteq> pn_linkId p)
     \<or> kb_sequence (pn_watchBinding item) > kb_sequence (pn_watchBinding p)
     \<or> kb_sequence (pn_hostBinding item) > kb_sequence (pn_hostBinding p)"

definition retire_before :: "link_pin \<Rightarrow> jsstring \<Rightarrow> link_pin \<Rightarrow> link_pin" where
  "retire_before p now item =
    (if pn_watchDeviceId item = pn_watchDeviceId p \<and> pn_status item = Pin_active
        \<and> 0 < comparePinTuple (pin_tuple p) (pin_tuple item)
     then item\<lparr>pn_status := Pin_retiring, pn_retiringAt := Some (laterTimestamp now (pn_activatedAt item))\<rparr> else item)"

definition activate_pin :: "link_pin \<Rightarrow> jsstring \<Rightarrow> unit keyring_op" where
  "activate_pin p now = k_bind k_get (\<lambda>(k, w).
     if \<exists>item \<in> set (kr_pins k). pn_watchDeviceId item = pn_watchDeviceId p \<and> rolls_back p item
     then k_lift (throw (TypeError ''active link pin rollback rejected''))
     else case find (same_tuple (pn_linkId p) (pn_linkGeneration p) (pn_epoch p)) (kr_pins k) of
       Some existing \<Rightarrow>
         if existing \<noteq> p then k_lift (throw (TypeError ''active link pin immutable tuple conflict''))
         else k_memory (\<lambda>k. k\<lparr>kr_pending := drop_pending p (kr_pending k)\<rparr>)
     | None \<Rightarrow> k_memory (\<lambda>k. k\<lparr>kr_pins := map (retire_before p now) (kr_pins k) @ [p],
         kr_pending := drop_pending p (kr_pending k)\<rparr>))"

definition persistActive :: "keyring_env \<Rightarrow> link_pin \<Rightarrow> jsstring \<Rightarrow> unit keyring_op" where
  "persistActive E p now = k_bind k_get (\<lambda>(k, w).
     k_bind (k_lift (assertValidPin E (kw_keys w) p)) (\<lambda>_.
     if pn_status p \<noteq> Pin_active then k_lift (throw (TypeError ''new link pin must be active''))
     else updatePersisted E (activate_pin p now)))"

definition stage_pending :: "pending_activation \<Rightarrow> unit keyring_op" where
  "stage_pending d = k_bind k_get (\<lambda>(k, w).
     case pendingActivation k (pd_linkId d) (pd_linkGeneration d) (pd_epoch d) of
       Some existing \<Rightarrow> if existing \<noteq> d then k_lift (throw (TypeError ''pending activation conflict'')) else k_return ()
     | None \<Rightarrow> k_memory (\<lambda>k. k\<lparr>kr_pending := kr_pending k @ [d]\<rparr>))"

definition stageActivation :: "keyring_env \<Rightarrow> pending_activation \<Rightarrow> unit keyring_op" where
  "stageActivation E d = k_bind k_get (\<lambda>(k, w).
     k_bind (k_lift (assertValidPending E (kw_keys w) d)) (\<lambda>_. updatePersisted E (stage_pending d)))"

subsection \<open>Revocation\<close>

definition revoked :: "link_pin \<Rightarrow> link_pin" where
  "revoked p = p\<lparr>pn_status := Pin_revoked, pn_retiringAt := None\<rparr>"

definition revokeWatch :: "keyring_env \<Rightarrow> jsstring \<Rightarrow> unit keyring_op" where
  "revokeWatch E watch = k_bind k_get (\<lambda>(k, w).
     let pins = map (\<lambda>p. if pn_watchDeviceId p = watch then revoked p else p) (kr_pins k) in
     k_bind (k_memory (\<lambda>k. k\<lparr>kr_pins := pins\<rparr>)) (\<lambda>_.
     if pins \<noteq> kr_pins k then persist E else k_return ()))"

definition revokeWatchGeneration :: "keyring_env \<Rightarrow> jsstring \<Rightarrow> int \<Rightarrow> unit keyring_op" where
  "revokeWatchGeneration E watch generation =
    (if watch = [] \<or> \<not> isPositiveInteger generation
     then k_lift (throw (TypeError ''Watch relation generation is invalid''))
     else updatePersisted E (k_memory (\<lambda>k. k\<lparr>
       kr_pins := map (\<lambda>p. if pn_watchDeviceId p = watch \<and> pn_linkGeneration p = generation then revoked p else p) (kr_pins k),
       kr_pending := filter (\<lambda>d. pn_watchDeviceId (pd_pin d) \<noteq> watch \<or> pd_linkGeneration d \<noteq> generation) (kr_pending k)\<rparr>)))"

definition compromised :: "jsstring \<Rightarrow> link_pin \<Rightarrow> bool" where
  "compromised keyId p \<longleftrightarrow> pn_status p \<noteq> Pin_revoked \<and> kb_encryptionKeyId (pn_hostBinding p) = keyId"

definition revokeCompromisedEncryptionKey :: "keyring_env \<Rightarrow> jsstring \<Rightarrow> nat keyring_op" where
  "revokeCompromisedEncryptionKey E keyId = k_bind k_get (\<lambda>(k, w).
     let before = length (filter (compromised keyId) (kr_pins k)) in
     k_bind (k_memory (\<lambda>k. k\<lparr>kr_pins :=
       map (\<lambda>p. if compromised keyId p then p\<lparr>pn_status := Pin_revoked\<rparr> else p) (kr_pins k)\<rparr>)) (\<lambda>_.
     k_bind (if 0 < before then persist E else k_return ()) (\<lambda>_. k_return before)))"

subsection \<open>Pruning\<close>

text \<open>The six maps of \<open>PinRetentionReferences\<close>, each from pin keys to timestamps.\<close>

type_synonym pin_retention = "(jsstring, jsstring) object option list"

text \<open>\<open>/^.+:[1-9][0-9]*:[1-9][0-9]*$/u\<close>, read from the end.\<close>

definition is_digit :: "code_unit \<Rightarrow> bool" where
  "is_digit u \<longleftrightarrow> 48 \<le> u \<and> u \<le> 57"

definition counter_text :: "jsstring \<Rightarrow> bool" where
  "counter_text v \<longleftrightarrow> (case v of [] \<Rightarrow> False | u # _ \<Rightarrow> u \<noteq> 48 \<and> list_all is_digit v)"

definition line_terminator :: "code_unit \<Rightarrow> bool" where
  "line_terminator u \<longleftrightarrow> u \<in> {10, 13, 0x2028, 0x2029}"

definition pin_key_text :: "jsstring \<Rightarrow> bool" where
  "pin_key_text v =
    (let epoch = rev (takeWhile is_digit (rev v)); rest = dropWhile is_digit (rev v) in
     case rest of
       c # rest' \<Rightarrow>
         (let generation = rev (takeWhile is_digit rest'); link = dropWhile is_digit rest' in
          case link of
            c' # link' \<Rightarrow> c = 58 \<and> c' = 58 \<and> counter_text epoch \<and> counter_text generation \<and> link' \<noteq> []
              \<and> \<not> list_ex line_terminator link'
          | [] \<Rightarrow> False)
     | [] \<Rightarrow> False)"

definition assertCanonicalRetentionReferences :: "pin_retention \<Rightarrow> jsstring \<Rightarrow> unit result" where
  "assertCanonicalRetentionReferences input now =
    (if \<not> is_canonical_timestamp now then throw (TypeError ''pin retention clock is invalid'')
     else if \<not> list_all (\<lambda>refs. case refs of None \<Rightarrow> True
         | Some m \<Rightarrow> list_all (\<lambda>(key, t). pin_key_text key \<and> is_canonical_timestamp t) m) input
     then throw (TypeError ''pin retention reference is invalid'') else ok ())"

definition maxTimestamp :: "jsstring option list \<Rightarrow> jsstring option" where
  "maxTimestamp values = (case List.map_filter id values of
     [] \<Rightarrow> None
   | v # vs \<Rightarrow> Some (foldl (\<lambda>latest value. if latest < value then value else latest) v vs))"

definition retained :: "pin_retention \<Rightarrow> jsstring \<Rightarrow> link_pin \<Rightarrow> bool" where
  "retained input now p \<longleftrightarrow> pn_status p = Pin_active
     \<or> (case maxTimestamp (map (\<lambda>refs. case refs of None \<Rightarrow> None | Some m \<Rightarrow> oget m (key_of p)) input) of
          None \<Rightarrow> False | Some t \<Rightarrow> t \<noteq> [] \<and> now \<le> t)"

text \<open>\<open>prune\<close> of the key store: the current key and the referenced ones stay.\<close>

definition prune_keys :: "keyring_env \<Rightarrow> unit keyring_op" where
  "prune_keys E = (\<lambda>(k, w).
     let kept = filter (\<lambda>i. hk_encryptionKeyId i = kw_currentKey w
           \<or> hk_encryptionKeyId i \<in> set (referencedHostEncryptionKeyIds k)) (kw_keys w);
         w' = w\<lparr>kw_calls := Suc (kw_calls w)\<rparr>
     in if kept = kw_keys w then (ok (), k, w)
        else case ke_write E (kw_calls w) of
          Written \<Rightarrow> (ok (), k, w'\<lparr>kw_keys := kept\<rparr>)
        | Not_written \<Rightarrow> (throw (PlainError ''write failed''), k, w')
        | Written_then_failed \<Rightarrow> (throw (PlainError ''write failed''), k, w'\<lparr>kw_keys := kept\<rparr>))"

definition pruneRetiring :: "keyring_env \<Rightarrow> pin_retention \<Rightarrow> jsstring \<Rightarrow> link_pin list keyring_op" where
  "pruneRetiring E input now = k_bind (k_lift (assertCanonicalRetentionReferences input now)) (\<lambda>_.
     k_bind k_get (\<lambda>(k, w).
     let removed = filter (\<lambda>p. \<not> retained input now p) (kr_pins k) in
     k_bind (k_memory (\<lambda>k. k\<lparr>kr_pins := filter (retained input now) (kr_pins k)\<rparr>)) (\<lambda>_.
     if removed \<noteq> [] then k_bind (persist E) (\<lambda>_. k_bind (prune_keys E) (\<lambda>_. k_return removed))
     else k_return removed)))"

subsection \<open>Recipients\<close>

record recipient_material = recipient +
  rm_transcriptDigest :: jsstring
  rm_hostBinding :: key_binding
  rm_hostIdentity :: host_key

definition recipient_key :: "recipient \<Rightarrow> jsstring" where
  "recipient_key r = pinKey (rp_linkId r) (rp_linkGeneration r) (rp_epoch r)"

definition materialForRecipient ::
  "keyring_env \<Rightarrow> keyring \<Rightarrow> host_key list \<Rightarrow> recipient \<Rightarrow> recipient_material result" where
  "materialForRecipient E k keys r =
    (case resolvePinMaterial E k keys (rp_linkId r) (rp_linkGeneration r) (rp_epoch r) of
       Inl _ \<Rightarrow> throw (TypeError ''recipient lacks a matching locally verified active pin'')
     | Inr (p, i) \<Rightarrow>
         if pn_status p \<noteq> Pin_active \<or> rp_state r \<noteq> js ''active'' \<or> rp_watchDeviceId r \<noteq> pn_watchDeviceId p
            \<or> rp_watchBinding r \<noteq> pn_watchBinding p \<or> rp_bindingSignature r \<noteq> pn_watchSignature p
         then throw (TypeError ''recipient lacks a matching locally verified active pin'')
         else ok (recipient.extend r \<lparr>rm_transcriptDigest = pn_transcriptDigest p, rm_hostBinding = pn_hostBinding p,
           rm_hostIdentity = i\<rparr>))"

fun materials :: "keyring_env \<Rightarrow> keyring \<Rightarrow> host_key list \<Rightarrow> recipient list \<Rightarrow> recipient_material list result" where
  "materials E k keys [] = ok []"
| "materials E k keys (r # rs) = rbind (materialForRecipient E k keys r) (\<lambda>m.
     rbind (materials E k keys rs) (\<lambda>ms. ok (m # ms)))"

definition reconcile_pin :: "recipient list \<Rightarrow> link_pin \<Rightarrow> link_pin" where
  "reconcile_pin recipients p =
    (if pn_status p = Pin_revoked \<or> key_of p \<in> set (map recipient_key recipients) then p
     else case map_of (rev (map (\<lambda>r. (rp_watchDeviceId r, r)) recipients)) (pn_watchDeviceId p) of
       Some successor \<Rightarrow> if pn_status p = Pin_retiring
           \<and> 0 < comparePinTuple (rp_linkGeneration successor, rp_epoch successor) (pin_tuple p) then p else revoked p
     | None \<Rightarrow> revoked p)"

definition reconciledPins :: "link_pin list \<Rightarrow> recipient list \<Rightarrow> jsstring list option \<Rightarrow> link_pin list result" where
  "reconciledPins pins recipients knownBeforeRefresh =
    (let active = map recipient_key recipients in
     if (case knownBeforeRefresh of None \<Rightarrow> False
         | Some known \<Rightarrow> \<exists>p \<in> set pins. pn_status p = Pin_active \<and> key_of p \<notin> set active \<and> key_of p \<notin> set known)
     then throw (TypeError ''recipient snapshot predates a locally persisted active pin'')
     else ok (map (reconcile_pin recipients) pins))"

text \<open>The first half: the material from memory, or from the file after a refresh.\<close>

definition current_materials :: "keyring_env \<Rightarrow> recipient list \<Rightarrow> (recipient_material list \<times> bool) keyring_op" where
  "current_materials E recipients = k_bind k_get (\<lambda>(k, w).
     case materials E k (kw_keys w) recipients of
       Inr ms \<Rightarrow> k_return (ms, False)
     | Inl e \<Rightarrow> k_bind (refreshPersisted E) (\<lambda>_. k_bind k_get (\<lambda>(k', w').
         case materials E k' (kw_keys w') recipients of
           Inr ms \<Rightarrow> k_return (ms, True)
         | Inl _ \<Rightarrow> k_lift (throw e))))"

text \<open>The second half, under the lock: the file may have changed in between.\<close>

definition write_pins :: "keyring_env \<Rightarrow> link_pin list \<Rightarrow> recipient_material list \<Rightarrow> recipient_material list keyring_op" where
  "write_pins E pins ms = k_bind (k_memory (\<lambda>k. k\<lparr>kr_pins := pins\<rparr>)) (\<lambda>_. k_bind (persist E) (\<lambda>_. k_return ms))"

definition reconcile_locked ::
  "keyring_env \<Rightarrow> recipient list \<Rightarrow> jsstring list \<Rightarrow> recipient_material list \<Rightarrow> link_pin list \<Rightarrow> recipient_material list keyring_op" where
  "reconcile_locked E recipients known ms reconciled = k_bind k_get (\<lambda>(k, w).
     k_bind (acquire_lock E) (\<lambda>_.
     k_finally (k_bind (load E) (\<lambda>latest.
       if latest \<noteq> kr_persisted k
       then k_bind (k_memory (set_memory latest)) (\<lambda>_.
         k_bind (k_lift (materials E (set_memory latest k) (kw_keys w) recipients)) (\<lambda>ms'.
         k_bind (k_lift (reconciledPins (ks_pins latest) recipients (Some known))) (\<lambda>pins. write_pins E pins ms')))
       else write_pins E reconciled ms))
     (release_lock E)))"

definition reconcileRecipients :: "keyring_env \<Rightarrow> recipient_snapshot \<Rightarrow> recipient_material list keyring_op" where
  "reconcileRecipients E snapshot = k_bind k_get (\<lambda>(k, w).
     if rs_hostId snapshot \<noteq> ke_hostId E \<or> \<not> isPositiveInteger (rs_recipientSetVersion snapshot)
     then k_lift (throw (TypeError ''recipient snapshot is invalid''))
     else (let known = map key_of (kr_pins k); recipients = rs_recipients snapshot in
       k_bind (current_materials E recipients) (\<lambda>(ms, refreshed).
       k_bind k_get (\<lambda>(k', w').
       k_bind (k_lift (reconciledPins (kr_pins k') recipients (if refreshed then Some known else None))) (\<lambda>reconciled.
       if reconciled = kr_pins k' then k_return ms else reconcile_locked E recipients known ms reconciled)))))"

end
