(* ===== verification/Keyring_Relations.thy ===== *)
theory Keyring_Relations
  imports Keyring_Operations "HOL-Library.Product_Lexorder"
begin

section \<open>What the loader of the key ring demands\<close>

text \<open>
  The checks of \<open>validateState\<close> as one predicate: valid pins and pendings, no tuple twice, at most one
  pending activation of a Watch, its active pin the latest of its pins, and its pending activation
  later than all of them.
\<close>

lemma js_set_fold: "set (foldl (\<lambda>seen x. if x \<in> set seen then seen else seen @ [x]) acc xs) = set acc \<union> set xs"
  by (induction xs arbitrary: acc) auto

lemma set_js_set [simp]: "set (js_set xs) = set xs"
  by (simp add: js_set_def js_set_fold)

lemma comparePinTuple_order [simp]:
  "comparePinTuple a b \<le> 0 \<longleftrightarrow> a \<le> b" "0 < comparePinTuple a b \<longleftrightarrow> b < a"
  "0 \<le> comparePinTuple a b \<longleftrightarrow> b \<le> a" "comparePinTuple a b = 0 \<longleftrightarrow> a = b"
  by (cases a; cases b; auto simp: comparePinTuple_def less_eq_prod_def less_prod_def)+

lemma latestPin_fold:
  "foldl latestPin p ps \<in> insert p (set ps) \<and> (\<forall>q \<in> insert p (set ps). pin_tuple q \<le> pin_tuple (foldl latestPin p ps))"
proof (induction ps arbitrary: p)
  case (Cons q ps)
  from Cons[of "latestPin p q"] show ?case
    by (auto simp: latestPin_def split: if_splits)
qed simp

definition valid_pin :: "keyring_env \<Rightarrow> host_key list \<Rightarrow> link_pin \<Rightarrow> bool" where
  "valid_pin E keys p \<longleftrightarrow> pin_shape_ok E p \<and> retirement_ok (pn_status p) (pn_retiringAt p) (pn_activatedAt p)
     \<and> pin_binding_ok E p \<and> pin_key_ok E keys p"

definition valid_pending :: "keyring_env \<Rightarrow> host_key list \<Rightarrow> pending_activation \<Rightarrow> bool" where
  "valid_pending E keys d \<longleftrightarrow> assertValidPending E keys d = ok ()"

lemma assertValidPin_iff: "assertValidPin E keys p = ok () \<longleftrightarrow> valid_pin E keys p"
  by (simp add: assertValidPin_def valid_pin_def)

lemma valid_pending_pin: "valid_pending E keys d \<Longrightarrow> valid_pin E keys (pd_pin d) \<and> pending_matches d"
  by (auto simp: valid_pending_def assertValidPending_def assertValidPin_iff[symmetric] rbind_Inr_iff split: if_splits)

abbreviation pending_key :: "pending_activation \<Rightarrow> jsstring" where
  "pending_key d \<equiv> key_of (pd_pin d)"

abbreviation pending_watch :: "pending_activation \<Rightarrow> jsstring" where
  "pending_watch d \<equiv> pn_watchDeviceId (pd_pin d)"

definition pins_ok :: "keyring_env \<Rightarrow> host_key list \<Rightarrow> link_pin list \<Rightarrow> bool" where
  "pins_ok E keys ps \<longleftrightarrow> (\<forall>p \<in> set ps. valid_pin E keys p) \<and> distinct (map key_of ps)
     \<and> (\<forall>p \<in> set ps. \<forall>q \<in> set ps. pn_watchDeviceId p = pn_watchDeviceId q \<longrightarrow> pn_status p = Pin_active \<longrightarrow>
          pin_tuple q \<le> pin_tuple p \<and> (pn_status q = Pin_active \<longrightarrow> p = q))"

definition pending_ok :: "keyring_env \<Rightarrow> host_key list \<Rightarrow> link_pin list \<Rightarrow> pending_activation list \<Rightarrow> bool" where
  "pending_ok E keys ps ds \<longleftrightarrow> (\<forall>d \<in> set ds. valid_pending E keys d) \<and> distinct (map pending_key ds)
     \<and> distinct (map pending_watch ds) \<and> (\<forall>d \<in> set ds. pending_key d \<notin> key_of ` set ps)
     \<and> (\<forall>d \<in> set ds. \<forall>p \<in> set ps. pn_watchDeviceId p = pending_watch d \<longrightarrow> pin_tuple p < pin_tuple (pd_pin d))"

definition keyring_ok :: "keyring_env \<Rightarrow> host_key list \<Rightarrow> keyring_state \<Rightarrow> bool" where
  "keyring_ok E keys s \<longleftrightarrow> pins_ok E keys (ks_pins s) \<and> pending_ok E keys (ks_pins s) (ks_pending s)"

lemma check_pins_iff:
  "check_pins E keys ps tuples = ok r \<longleftrightarrow>
    (\<forall>p \<in> set ps. valid_pin E keys p) \<and> distinct (map key_of ps) \<and> key_of ` set ps \<inter> set tuples = {}
    \<and> r = rev (map key_of ps) @ tuples"
  by (induction ps arbitrary: tuples) (auto simp: rbind_Inr_iff assertValidPin_iff)

lemma check_pending_iff:
  "check_pending E keys tuples ds ks ws = ok u \<longleftrightarrow>
    (\<forall>d \<in> set ds. valid_pending E keys d) \<and> distinct (map pending_key ds) \<and> distinct (map pending_watch ds)
    \<and> pending_key ` set ds \<inter> (set tuples \<union> set ks) = {} \<and> pending_watch ` set ds \<inter> set ws = {}"
  by (induction ds arbitrary: ks ws) (auto simp: rbind_Inr_iff valid_pending_def Let_def)

lemma check_watches_iff: "check_watches s ws = ok u \<longleftrightarrow> (\<forall>w \<in> set ws. check_watch s w = ok ())"
  by (induction ws) (auto simp: rbind_Inr_iff)

lemma short_filter: "distinct xs \<Longrightarrow> length (filter P xs) \<le> 1 \<longleftrightarrow> (\<forall>x \<in> set xs. \<forall>y \<in> set xs. P x \<longrightarrow> P y \<longrightarrow> x = y)"
  by (induction xs) (auto simp: filter_empty_conv)

lemma check_watch_iff:
  assumes "w \<in> pn_watchDeviceId ` set (ks_pins s)" and "distinct (ks_pins s)" and "distinct (map pending_watch (ks_pending s))"
  shows "check_watch s w = ok () \<longleftrightarrow>
    (\<forall>p \<in> set (ks_pins s). \<forall>q \<in> set (ks_pins s). pn_watchDeviceId p = w \<longrightarrow> pn_watchDeviceId q = w \<longrightarrow>
      pn_status p = Pin_active \<longrightarrow> pin_tuple q \<le> pin_tuple p \<and> (pn_status q = Pin_active \<longrightarrow> p = q))
    \<and> (\<forall>d \<in> set (ks_pending s). \<forall>p \<in> set (ks_pins s). pending_watch d = w \<longrightarrow> pn_watchDeviceId p = w \<longrightarrow>
      pin_tuple p < pin_tuple (pd_pin d))"
proof -
  define pins where "pins = filter (\<lambda>p. pn_watchDeviceId p = w) (ks_pins s)"
  define top where "top = foldl latestPin (hd pins) (tl pins)"
  have "pins \<noteq> []" using assms(1) by (auto simp: pins_def filter_empty_conv)
  then have "insert (hd pins) (set (tl pins)) = set pins" by (cases pins) auto
  then have top: "top \<in> set pins" "\<forall>q \<in> set pins. pin_tuple q \<le> pin_tuple top"
    using latestPin_fold[of "hd pins" "tl pins"] by (auto simp: top_def)
  have active: "filter (\<lambda>p. pn_status p = Pin_active) pins
      = filter (\<lambda>p. pn_watchDeviceId p = w \<and> pn_status p = Pin_active) (ks_pins s)"
    by (simp add: pins_def conj_commute)
  have one: "\<not> 1 < length (filter (\<lambda>p. pn_status p = Pin_active) pins) \<longleftrightarrow>
      (\<forall>p \<in> set pins. \<forall>q \<in> set pins. pn_status p = Pin_active \<longrightarrow> pn_status q = Pin_active \<longrightarrow> p = q)"
    using short_filter[of pins "\<lambda>p. pn_status p = Pin_active"] assms(2) by (auto simp: pins_def not_less)
  have latest: "\<not> (\<exists>p \<in> set (filter (\<lambda>p. pn_status p = Pin_active) pins). pin_tuple p \<noteq> pin_tuple top) \<longleftrightarrow>
      (\<forall>p \<in> set pins. \<forall>q \<in> set pins. pn_status p = Pin_active \<longrightarrow> pin_tuple q \<le> pin_tuple p)"
    using top by (auto intro: antisym)
  have behind: "(case find (\<lambda>d. pending_watch d = w) (ks_pending s) of None \<Rightarrow> True
        | Some d \<Rightarrow> \<not> pin_tuple (pd_pin d) \<le> pin_tuple top) \<longleftrightarrow>
      (\<forall>d \<in> set (ks_pending s). \<forall>p \<in> set pins. pending_watch d = w \<longrightarrow> pin_tuple p < pin_tuple (pd_pin d))"
  proof (cases "find (\<lambda>d. pending_watch d = w) (ks_pending s)")
    case None
    then have "\<forall>d \<in> set (ks_pending s). pending_watch d \<noteq> w" by (auto simp: find_None_iff)
    with None show ?thesis by simp
  next
    case (Some d)
    then have d: "d \<in> set (ks_pending s)" "pending_watch d = w" by (auto simp: find_Some_iff)
    then have "e \<in> set (ks_pending s) \<and> pending_watch e = w \<longleftrightarrow> e = d" for e
      using assms(3) by (auto simp: distinct_map inj_on_def)
    then have "(\<forall>e \<in> set (ks_pending s). \<forall>p \<in> set pins. pending_watch e = w \<longrightarrow> pin_tuple p < pin_tuple (pd_pin e))
        \<longleftrightarrow> (\<forall>p \<in> set pins. pin_tuple p < pin_tuple (pd_pin d))" by metis
    also have "\<dots> \<longleftrightarrow> pin_tuple top < pin_tuple (pd_pin d)"
      using top by (blast intro: le_less_trans)
    finally show ?thesis using Some by (simp add: not_le)
  qed
  have "check_watch s w = ok () \<longleftrightarrow> \<not> 1 < length (filter (\<lambda>p. pn_status p = Pin_active) pins)
      \<and> \<not> (\<exists>p \<in> set (filter (\<lambda>p. pn_status p = Pin_active) pins). pin_tuple p \<noteq> pin_tuple top)
      \<and> (case find (\<lambda>d. pending_watch d = w) (ks_pending s) of None \<Rightarrow> True
        | Some d \<Rightarrow> \<not> pin_tuple (pd_pin d) \<le> pin_tuple top)"
    unfolding check_watch_def Let_def pins_def[symmetric] top_def[symmetric]
    by (auto split: option.splits)
  then show ?thesis
    unfolding one latest behind by (auto simp: pins_def)
qed

theorem validateState_iff: "validateState E keys s = ok () \<longleftrightarrow> keyring_ok E keys s"
proof (cases "distinct (map key_of (ks_pins s)) \<and> distinct (map pending_watch (ks_pending s))")
  case True
  then have "distinct (ks_pins s)" by (simp add: distinct_map)
  with True show ?thesis
    by (auto simp: validateState_def rbind_Inr_iff check_pins_iff check_pending_iff check_watches_iff check_watch_iff
        keyring_ok_def pins_ok_def pending_ok_def)
next
  case False
  then show ?thesis
    by (auto simp: validateState_def rbind_Inr_iff check_pins_iff check_pending_iff keyring_ok_def pins_ok_def pending_ok_def)
qed

end
