(* ===== verification/Keyring_Safety.thy ===== *)
theory Keyring_Safety
  imports Keyring_Relations
begin

section \<open>The key ring through its operations\<close>

subsection \<open>Weakest preconditions\<close>

definition k_after :: "'a keyring_op \<Rightarrow> ('a result \<Rightarrow> keyring \<times> keyring_world \<Rightarrow> bool) \<Rightarrow> keyring \<times> keyring_world \<Rightarrow> bool" where
  "k_after m Q s \<longleftrightarrow> Q (fst (m s)) (snd (m s))"

lemma k_after_mono: "k_after m Q s \<Longrightarrow> (\<And>r s'. Q r s' \<Longrightarrow> R r s') \<Longrightarrow> k_after m R s"
  by (simp add: k_after_def)

lemma k_after_simps [simp]:
  "k_after (k_return a) P s \<longleftrightarrow> P (ok a) s"
  "k_after (k_lift r) P s \<longleftrightarrow> P r s"
  "k_after k_get G s \<longleftrightarrow> G (ok s) s"
  "k_after (k_memory h) M (k, w) \<longleftrightarrow> M (ok ()) (h k, w)"
  "k_after (k_bind m f) Q s \<longleftrightarrow> k_after m (\<lambda>r s'. case r of Inl e \<Rightarrow> Q (Inl e) s' | Inr a \<Rightarrow> k_after (f a) Q s') s"
  by (auto simp: k_after_def k_return_def k_lift_def k_get_def k_memory_def k_bind_def split: prod.splits sum.splits)

text \<open>The release of a lock changes nothing, and its error replaces the outcome.\<close>

lemma k_after_release:
  assumes "k_after m (\<lambda>r s. Q r s \<and> (\<forall>e. Q (Inl e) s)) s"
  shows "k_after (k_finally m (release_lock E)) Q s"
  using assms by (auto simp: k_after_def k_finally_def release_lock_def split: prod.splits sum.splits)

lemma k_after_released:
  "(\<forall>n. ke_release E n = ok ()) \<Longrightarrow> k_after (k_finally m (release_lock E)) Q s = k_after m Q s"
  by (simp add: k_after_def k_finally_def release_lock_def split: prod.split)

lemma k_after_get: "k_after (k_bind k_get (\<lambda>(k, w). f k w)) Q (k, w) \<longleftrightarrow> k_after (f k w) Q (k, w)"
  by simp

lemma k_after_load [simp]:
  "k_after (load E) Q (k, w) \<longleftrightarrow> (case kw_file w of
     None \<Rightarrow> Q (ok \<lparr>ks_pins = [], ks_pending = []\<rparr>) (k, w)
   | Some s \<Rightarrow> (case validateState E (kw_keys w) s of Inl e \<Rightarrow> Q (Inl e) (k, w) | Inr _ \<Rightarrow> Q (ok s) (k, w)))"
  by (simp add: load_def split: option.split sum.split)

lemma k_after_lock [simp]:
  "k_after (acquire_lock E) Q (k, w) \<longleftrightarrow>
    (if ke_lock E (kw_calls w) then Q (ok ()) (k, w\<lparr>kw_calls := Suc (kw_calls w)\<rparr>)
     else Q (throw (TypeError ''local E2E keyring mutation is already in progress'')) (k, w\<lparr>kw_calls := Suc (kw_calls w)\<rparr>))"
  by (simp add: k_after_def acquire_lock_def Let_def)

lemma k_after_persistState:
  "k_after (persistState E s) Q (k, w) \<longleftrightarrow> (case ke_write E (kw_calls w) of
     Written \<Rightarrow> Q (ok ()) (k\<lparr>kr_persisted := s\<rparr>, w\<lparr>kw_calls := Suc (kw_calls w), kw_file := Some s\<rparr>)
   | Not_written \<Rightarrow> Q (throw (PlainError ''write failed'')) (k, w\<lparr>kw_calls := Suc (kw_calls w)\<rparr>)
   | Written_then_failed \<Rightarrow> Q (throw (PlainError ''write failed'')) (k, w\<lparr>kw_calls := Suc (kw_calls w), kw_file := Some s\<rparr>))"
  by (simp add: k_after_def persistState_def Let_def split: write_outcome.split)

lemma k_after_persist [simp]: "k_after (persist E) Q (k, w) \<longleftrightarrow> k_after (persistState E (memory_state k)) Q (k, w)"
  by (simp add: persist_def)

lemma memory_set [simp]: "memory_state (set_memory s k) = s" "kr_pins (set_memory s k) = ks_pins s"
  "kr_pending (set_memory s k) = ks_pending s" "kr_persisted (set_memory s k) = s"
  by (simp_all add: memory_state_def set_memory_def)

subsection \<open>What keeps the demands of the loader\<close>

lemma pins_ok_map:
  assumes "pins_ok E keys ps"
    and f: "\<And>p. p \<in> set ps \<Longrightarrow> valid_pin E keys p \<Longrightarrow> valid_pin E keys (f p)" "\<And>p. key_of (f p) = key_of p"
      "\<And>p. pin_tuple (f p) = pin_tuple p" "\<And>p. pn_watchDeviceId (f p) = pn_watchDeviceId p"
      "\<And>p. pn_status (f p) = Pin_active \<Longrightarrow> f p = p"
  shows "pins_ok E keys (map f ps)"
  unfolding pins_ok_def
proof (intro conjI ballI impI)
  show "distinct (map key_of (map f ps))"
    using assms(1) by (simp add: pins_ok_def comp_def f(2))
next
  fix p assume "p \<in> set (map f ps)"
  then show "valid_pin E keys p" using assms(1) by (auto simp: pins_ok_def f(1))
next
  fix p q assume p: "p \<in> set (map f ps)" and q: "q \<in> set (map f ps)"
    and same: "pn_watchDeviceId p = pn_watchDeviceId q" and active: "pn_status p = Pin_active"
  obtain p' q' where pq: "p = f p'" "p' \<in> set ps" "q = f q'" "q' \<in> set ps" using p q by auto
  have p': "p = p'" using active pq(1) f(5)[of p'] by simp
  have "pn_watchDeviceId p' = pn_watchDeviceId q'" using same pq by (simp add: f(4))
  then have top: "pin_tuple q' \<le> pin_tuple p' \<and> (pn_status q' = Pin_active \<longrightarrow> p' = q')"
    using assms(1) pq(2,4) active p' unfolding pins_ok_def by blast
  then show "pin_tuple q \<le> pin_tuple p" using pq p' by (simp add: f(3))
  assume "pn_status q = Pin_active"
  then have "q = q'" using pq(3) f(5)[of q'] by simp
  then show "p = q" using top p' \<open>pn_status q = Pin_active\<close> by simp
qed

lemma pins_ok_filter: "pins_ok E keys ps \<Longrightarrow> pins_ok E keys (filter P ps)"
  by (auto simp: pins_ok_def distinct_map_filter)

lemma pending_ok_pins:
  assumes "pending_ok E keys ps ds" and "key_of ` set ps' \<subseteq> key_of ` set ps"
    and "\<And>p. p \<in> set ps' \<Longrightarrow> \<exists>q \<in> set ps. pn_watchDeviceId q = pn_watchDeviceId p \<and> pin_tuple q = pin_tuple p"
  shows "pending_ok E keys ps' ds"
proof -
  have "pin_tuple p < pin_tuple (pd_pin d)" if "d \<in> set ds" "p \<in> set ps'" "pn_watchDeviceId p = pending_watch d" for d p
  proof -
    obtain q where "q \<in> set ps" "pn_watchDeviceId q = pn_watchDeviceId p" "pin_tuple q = pin_tuple p"
      using assms(3)[OF \<open>p \<in> set ps'\<close>] by blast
    then show ?thesis using assms(1) that unfolding pending_ok_def by metis
  qed
  moreover have "pending_key d \<notin> key_of ` set ps'" if "d \<in> set ds" for d
    using assms(1,2) that unfolding pending_ok_def by blast
  ultimately show ?thesis using assms(1) unfolding pending_ok_def by blast
qed

lemma pending_ok_map:
  assumes "pending_ok E keys ps ds" and "\<And>p. key_of (f p) = key_of p" "\<And>p. pin_tuple (f p) = pin_tuple p"
    "\<And>p. pn_watchDeviceId (f p) = pn_watchDeviceId p"
  shows "pending_ok E keys (map f ps) ds"
  using assms(1) by (rule pending_ok_pins) (auto simp: assms(2-4) image_image)

lemma pending_ok_filter: "pending_ok E keys ps ds \<Longrightarrow> pending_ok E keys (filter P ps) ds"
  by (rule pending_ok_pins) auto

lemma pending_ok_fewer: "pending_ok E keys ps ds \<Longrightarrow> pending_ok E keys ps (filter P ds)"
  by (auto simp: pending_ok_def distinct_map_filter)

text \<open>A change of status only.\<close>

lemma restatus_simps [simp]:
  "key_of (p\<lparr>pn_status := x\<rparr>) = key_of p" "key_of (p\<lparr>pn_status := x, pn_retiringAt := t\<rparr>) = key_of p"
  "pin_tuple (p\<lparr>pn_status := x\<rparr>) = pin_tuple p" "pin_tuple (p\<lparr>pn_status := x, pn_retiringAt := t\<rparr>) = pin_tuple p"
  "key_of (revoked p) = key_of p" "pin_tuple (revoked p) = pin_tuple p"
  "pn_watchDeviceId (revoked p) = pn_watchDeviceId p" "pn_status (revoked p) = Pin_revoked"
  by (simp_all add: key_of_def pin_tuple_def revoked_def)

lemma restatus_ok:
  "pin_binding_ok E (p\<lparr>pn_status := x, pn_retiringAt := t\<rparr>) = pin_binding_ok E p"
  "pin_key_ok E keys (p\<lparr>pn_status := x, pn_retiringAt := t\<rparr>) = pin_key_ok E keys p"
  by (simp_all add: pin_binding_ok_def transcriptDigestSync_def pin_key_ok_def cong: option.case_cong)

lemma restatus_shape:
  assumes "pin_shape_ok E p" and "case t of None \<Rightarrow> True | Some u \<Rightarrow> is_canonical_timestamp u"
  shows "pin_shape_ok E (p\<lparr>pn_status := x, pn_retiringAt := t\<rparr>)"
  using assms by (simp add: pin_shape_ok_def)

lemma valid_restatus:
  assumes "valid_pin E keys p" and "retirement_ok x t (pn_activatedAt p)"
    and "case t of None \<Rightarrow> True | Some u \<Rightarrow> is_canonical_timestamp u"
  shows "valid_pin E keys (p\<lparr>pn_status := x, pn_retiringAt := t\<rparr>)"
  using assms(1,2) restatus_shape[OF _ assms(3)] unfolding valid_pin_def restatus_ok by simp

lemma valid_revoked [simp]: "valid_pin E keys p \<Longrightarrow> valid_pin E keys (revoked p)"
  unfolding revoked_def by (rule valid_restatus) simp_all

lemma valid_compromised:
  assumes "valid_pin E keys p"
  shows "valid_pin E keys (p\<lparr>pn_status := Pin_revoked\<rparr>)"
proof -
  have "retirement_ok Pin_revoked (pn_retiringAt p) (pn_activatedAt p)"
    using assms by (cases "pn_status p") (auto simp: valid_pin_def split: option.splits)
  moreover have "case pn_retiringAt p of None \<Rightarrow> True | Some u \<Rightarrow> is_canonical_timestamp u"
    using assms by (simp add: valid_pin_def pin_shape_ok_def)
  ultimately have "valid_pin E keys (p\<lparr>pn_status := Pin_revoked, pn_retiringAt := pn_retiringAt p\<rparr>)"
    by (rule valid_restatus[OF assms])
  then show ?thesis by simp
qed

definition file_ok :: "keyring_env \<Rightarrow> keyring_world \<Rightarrow> bool" where
  "file_ok E w \<longleftrightarrow> pred_option (keyring_ok E (kw_keys w)) (kw_file w)"

definition sound :: "keyring_env \<Rightarrow> keyring \<times> keyring_world \<Rightarrow> bool" where
  "sound E = (\<lambda>(k, w). keyring_ok E (kw_keys w) (memory_state k) \<and> file_ok E w)"

text \<open>A valid state written over the file keeps both; a failed write leaves one of the two files.\<close>

lemma sound_persist:
  assumes "sound E (k, w)" and "keyring_ok E (kw_keys w) s" and "memory_state k = s"
    and "\<And>r k' w'. sound E (k', w') \<Longrightarrow> memory_state k' = s \<Longrightarrow> kw_keys w' = kw_keys w \<Longrightarrow> kw_currentKey w' = kw_currentKey w \<Longrightarrow>
      (r = ok () \<Longrightarrow> kw_file w' = Some s \<and> kr_persisted k' = s) \<Longrightarrow> Q r (k', w')"
  shows "k_after (persistState E s) Q (k, w)"
  using assms(1-3) unfolding k_after_persistState
  by (auto simp: sound_def file_ok_def memory_state_def intro!: assms(4) split: write_outcome.split)

lemma sound_calls [simp]: "sound E (k, w\<lparr>kw_calls := n\<rparr>) = sound E (k, w)"
  by (simp add: sound_def file_ok_def)

subsection \<open>Operations under the lock\<close>

text \<open>What the file holds, an empty key ring where there is none.\<close>

definition stored :: "keyring_world \<Rightarrow> keyring_state" where
  "stored w = (case kw_file w of None \<Rightarrow> \<lparr>ks_pins = [], ks_pending = []\<rparr> | Some s \<Rightarrow> s)"

lemma keyring_ok_empty [simp]: "keyring_ok E keys \<lparr>ks_pins = [], ks_pending = []\<rparr>"
  by (simp add: keyring_ok_def pins_ok_def pending_ok_def)

lemma stored_ok: "file_ok E w \<Longrightarrow> keyring_ok E (kw_keys w) (stored w)"
  by (cases "kw_file w") (simp_all add: file_ok_def stored_def)

lemma k_after_load_ok:
  assumes "file_ok E w" and "Q (ok (stored w)) (k, w)"
  shows "k_after (load E) Q (k, w)"
proof (cases "kw_file w")
  case (Some s)
  then have "validateState E (kw_keys w) s = ok ()" using assms(1) by (simp add: file_ok_def validateState_iff)
  then show ?thesis using assms(2) Some by (simp add: stored_def)
qed (use assms(2) in \<open>simp add: stored_def\<close>)

text \<open>A change of the memory alone, tried on the stored key ring.\<close>

definition pure_change :: "unit keyring_op \<Rightarrow> bool" where
  "pure_change m \<longleftrightarrow> (\<forall>k w. snd (snd (m (k, w))) = w \<and> kr_persisted (fst (snd (m (k, w)))) = kr_persisted k)"

lemma pure_change_run:
  assumes "pure_change m"
  obtains r k' where "m (k, w) = (r, k', w)" and "kr_persisted k' = kr_persisted k"
  using assms unfolding pure_change_def by (metis prod.collapse)

lemma update_rule:
  assumes "file_ok E w" and pure: "pure_change m"
    and locked: "\<And>e w'. w' = w\<lparr>kw_calls := Suc (kw_calls w)\<rparr> \<Longrightarrow> Q (Inl e) (k, w')"
    and rejected: "\<And>e k' w'. w' = w\<lparr>kw_calls := Suc (kw_calls w)\<rparr> \<Longrightarrow>
      (\<exists>e'. fst (m (set_memory (stored w) k, w')) = Inl e') \<or> \<not> keyring_ok E (kw_keys w) (memory_state k') \<Longrightarrow>
      k' = fst (snd (m (set_memory (stored w) k, w'))) \<Longrightarrow> Q (Inl e) (k', w')"
    and accepted: "\<And>r k1 k' w' w''. w' = w\<lparr>kw_calls := Suc (kw_calls w)\<rparr> \<Longrightarrow>
      m (set_memory (stored w) k, w') = (ok (), k1, w') \<Longrightarrow>
      keyring_ok E (kw_keys w) (memory_state k1) \<Longrightarrow> memory_state k' = memory_state k1 \<Longrightarrow>
      kw_keys w'' = kw_keys w \<Longrightarrow> kw_currentKey w'' = kw_currentKey w \<Longrightarrow> file_ok E w'' \<Longrightarrow>
      (r = ok () \<Longrightarrow> stored w'' = memory_state k1 \<and> kr_persisted k' = memory_state k1) \<Longrightarrow> Q r (k', w'')"
  shows "k_after (updatePersisted E m) Q (k, w)"
proof (cases "ke_lock E (kw_calls w)")
  case False
  then show ?thesis by (simp add: updatePersisted_def locked)
next
  case True
  define w' where "w' = w\<lparr>kw_calls := Suc (kw_calls w)\<rparr>"
  have w': "file_ok E w'" "stored w' = stored w" "kw_keys w' = kw_keys w" "kw_currentKey w' = kw_currentKey w"
    using assms(1) by (simp_all add: w'_def file_ok_def stored_def)
  obtain r k1 where m: "m (set_memory (stored w) k, w') = (r, k1, w')" and kept: "kr_persisted k1 = stored w"
    using pure by (rule pure_change_run[where k = "set_memory (stored w) k" and w = w']) simp
  have after_m: "k_after m P (set_memory (stored w) k, w') \<longleftrightarrow> P r (k1, w')" for P
    using m by (simp add: k_after_def)
  define R where "R r s \<longleftrightarrow> Q r s \<and> (\<forall>e. Q (Inl e) s)" for r s
  have result: "case r of Inl e \<Rightarrow> R (Inl e) (k1, w') | Inr _ \<Rightarrow>
      (case validateState E (kw_keys w) (memory_state k1) of Inl e \<Rightarrow> R (Inl e) (k1, w')
       | Inr _ \<Rightarrow> k_after (if memory_state k1 \<noteq> stored w then persistState E (memory_state k1) else k_return ()) R (k1, w'))"
  proof (cases "r = ok () \<and> keyring_ok E (kw_keys w) (memory_state k1)")
    case True
    then have r: "r = ok ()" and good: "keyring_ok E (kw_keys w) (memory_state k1)"
      and valid: "validateState E (kw_keys w) (memory_state k1) = ok ()" by (simp_all add: validateState_iff)
    have accept: "R r' (k', w'')" if "memory_state k' = memory_state k1" "kw_keys w'' = kw_keys w"
      "kw_currentKey w'' = kw_currentKey w" "file_ok E w''"
      "r' = ok () \<Longrightarrow> stored w'' = memory_state k1 \<and> kr_persisted k' = memory_state k1" for r' k' w''
      using accepted[OF w'_def _ good that] accepted[OF w'_def _ good that(1-4), of "Inl e" for e] m r by (simp add: R_def)
    show ?thesis
    proof (cases "memory_state k1 = stored w")
      case True
      then have "R (ok ()) (k1, w')" using w' kept by (intro accept) simp_all
      then show ?thesis using True valid r by simp
    next
      case False
      define w1 where "w1 = w'\<lparr>kw_calls := Suc (kw_calls w'), kw_file := Some (memory_state k1)\<rparr>"
      have w1: "file_ok E w1" "stored w1 = memory_state k1" "kw_keys w1 = kw_keys w" "kw_currentKey w1 = kw_currentKey w"
        using good w'(3,4) by (simp_all add: w1_def file_ok_def stored_def)
      define k2 where "k2 = k1\<lparr>kr_persisted := memory_state k1\<rparr>"
      have k2: "memory_state k2 = memory_state k1" "kr_persisted k2 = memory_state k1"
        by (simp_all add: k2_def memory_state_def)
      have "R (ok ()) (k2, w1)" using w1 k2 by (intro accept) simp_all
      moreover have "R (throw (PlainError ''write failed'')) (k1, w1)" using w1 by (intro accept) simp_all
      moreover have "R (throw (PlainError ''write failed'')) (k1, w'\<lparr>kw_calls := Suc (kw_calls w')\<rparr>)"
        using w' by (intro accept) (simp_all add: file_ok_def)
      ultimately have "k_after (persistState E (memory_state k1)) R (k1, w')"
        unfolding k_after_persistState k2_def[symmetric] w1_def[symmetric] by (simp split: write_outcome.split)
      then show ?thesis using False valid r by simp
    qed
  next
    case False
    show ?thesis
    proof (cases r)
      case (Inl e)
      then have "R (Inl e) (k1, w')" unfolding R_def by (intro conjI allI rejected[OF w'_def]) (simp_all add: m)
      then show ?thesis using Inl by simp
    next
      case (Inr u)
      then have bad: "\<not> keyring_ok E (kw_keys w) (memory_state k1)" using False by simp
      then obtain e where e: "validateState E (kw_keys w) (memory_state k1) = Inl e"
        by (cases "validateState E (kw_keys w) (memory_state k1)") (auto simp: validateState_iff[symmetric])
      have "R (Inl e) (k1, w')" unfolding R_def by (intro conjI allI rejected[OF w'_def]) (simp_all add: m bad)
      then show ?thesis using Inr e by simp
    qed
  qed
  let ?body = "k_bind (load E) (\<lambda>latest. k_bind (k_memory (set_memory latest)) (\<lambda>_. k_bind m (\<lambda>_. k_bind k_get (\<lambda>(k, w).
        k_bind (k_lift (validateState E (kw_keys w) (memory_state k))) (\<lambda>_.
        if memory_state k \<noteq> latest then persistState E (memory_state k) else k_return ())))))"
  have "k_after (load E) (\<lambda>r s'. case r of Inl e \<Rightarrow> R (Inl e) s' | Inr latest \<Rightarrow>
      k_after (k_bind (k_memory (set_memory latest)) (\<lambda>_. k_bind m (\<lambda>_. k_bind k_get (\<lambda>(k, w).
        k_bind (k_lift (validateState E (kw_keys w) (memory_state k))) (\<lambda>_.
        if memory_state k \<noteq> latest then persistState E (memory_state k) else k_return ()))))) R s') (k, w')"
    by (rule k_after_load_ok[OF w'(1)], cases r) (use result in \<open>simp_all add: after_m w'(2,3)\<close>)
  then have "k_after ?body (\<lambda>r s. Q r s \<and> (\<forall>e. Q (Inl e) s)) (k, w')"
    unfolding k_after_simps(5) R_def .
  then have "k_after (k_finally ?body (release_lock E)) Q (k, w')" by (rule k_after_release)
  then show ?thesis using True by (simp add: updatePersisted_def w'_def)
qed

subsection \<open>Each operation\<close>

text \<open>What an operation leaves behind: a file the loader accepts and a memory as sound as the file.\<close>

abbreviation keeps :: "keyring_env \<Rightarrow> 'a result \<Rightarrow> keyring \<times> keyring_world \<Rightarrow> bool" where
  "keeps E \<equiv> \<lambda>r s. sound E s"

lemma pure_activate: "pure_change (activate_pin p now)"
  by (simp add: pure_change_def activate_pin_def k_bind_def k_get_def k_lift_def k_memory_def split: option.split)

lemma pure_stage: "pure_change (stage_pending d)"
  by (simp add: pure_change_def stage_pending_def k_bind_def k_get_def k_lift_def k_memory_def k_return_def split: option.split)

lemma pure_memory: "(\<And>k. kr_persisted (f k) = kr_persisted k) \<Longrightarrow> pure_change (k_memory f)"
  by (simp add: pure_change_def k_memory_def)

text \<open>Where the validation may reject the change, the memory is sound unless the call throws.\<close>

lemma update_keeps:
  assumes "sound E (k, w)" and "pure_change m"
  shows "k_after (updatePersisted E m) (\<lambda>r s. file_ok E (snd s) \<and> (r = ok () \<longrightarrow> sound E s)) (k, w)"
  using assms by (intro update_rule) (auto simp: sound_def file_ok_def)

text \<open>Where it never does, it is sound.\<close>

lemma update_always:
  assumes "sound E (k, w)" and "pure_change (k_memory f)"
    and "keyring_ok E (kw_keys w) (memory_state (f (set_memory (stored w) k)))"
  shows "k_after (updatePersisted E (k_memory f)) (keeps E) (k, w)"
proof (rule update_rule)
  fix e k' w' assume "w' = w\<lparr>kw_calls := Suc (kw_calls w)\<rparr>"
    "(\<exists>e'. fst (k_memory f (set_memory (stored w) k, w')) = Inl e') \<or> \<not> keyring_ok E (kw_keys w) (memory_state k')"
    "k' = fst (snd (k_memory f (set_memory (stored w) k, w')))"
  then show "sound E (k', w')" using assms(3) by (simp add: k_memory_def)
qed (use assms(1,2) in \<open>auto simp: sound_def file_ok_def\<close>)

lemma persistActive_keeps:
  assumes "sound E (k, w)"
  shows "k_after (persistActive E p now) (\<lambda>r s. file_ok E (snd s) \<and> (r = ok () \<longrightarrow> sound E s)) (k, w)"
  using assms update_keeps[OF assms pure_activate]
  by (auto simp: persistActive_def sound_def split: sum.split)

lemma stageActivation_keeps:
  assumes "sound E (k, w)"
  shows "k_after (stageActivation E d) (\<lambda>r s. file_ok E (snd s) \<and> (r = ok () \<longrightarrow> sound E s)) (k, w)"
  using assms update_keeps[OF assms pure_stage]
  by (auto simp: stageActivation_def sound_def split: sum.split)

lemma keyring_ok_restatus:
  assumes "keyring_ok E keys \<lparr>ks_pins = ps, ks_pending = ds\<rparr>"
    and f: "\<And>p. valid_pin E keys p \<Longrightarrow> valid_pin E keys (f p)" "\<And>p. key_of (f p) = key_of p"
      "\<And>p. pin_tuple (f p) = pin_tuple p" "\<And>p. pn_watchDeviceId (f p) = pn_watchDeviceId p"
      "\<And>p. pn_status (f p) = Pin_active \<Longrightarrow> f p = p"
  shows "keyring_ok E keys \<lparr>ks_pins = map f ps, ks_pending = filter P ds\<rparr>"
proof -
  have "pins_ok E keys (map f ps)" using assms(1) by (intro pins_ok_map) (simp_all add: keyring_ok_def f)
  moreover have "pending_ok E keys (map f ps) (filter P ds)"
    using assms(1) by (intro pending_ok_fewer pending_ok_map) (simp_all add: keyring_ok_def f)
  ultimately show ?thesis by (simp add: keyring_ok_def)
qed

text \<open>Revoking some of the pins.\<close>

lemma keyring_ok_revoke:
  "keyring_ok E keys \<lparr>ks_pins = ps, ks_pending = ds\<rparr> \<Longrightarrow>
    keyring_ok E keys \<lparr>ks_pins = map (\<lambda>p. if S p then revoked p else p) ps, ks_pending = filter P ds\<rparr>"
  by (rule keyring_ok_restatus) auto

lemma memory_pins: "memory_state (k\<lparr>kr_pins := ps\<rparr>) = \<lparr>ks_pins = ps, ks_pending = kr_pending k\<rparr>"
  by (simp add: memory_state_def)

text \<open>A change of the pins in memory, written without the lock.\<close>

lemma unlocked_persist:
  assumes "sound E (k, w)" and "keyring_ok E (kw_keys w) \<lparr>ks_pins = ps, ks_pending = kr_pending k\<rparr>"
    and "\<And>r k' w'. sound E (k', w') \<Longrightarrow> memory_state k' = \<lparr>ks_pins = ps, ks_pending = kr_pending k\<rparr> \<Longrightarrow>
      kw_keys w' = kw_keys w \<Longrightarrow> kw_currentKey w' = kw_currentKey w \<Longrightarrow>
      (r = ok () \<Longrightarrow> kw_file w' = Some (memory_state k') \<and> kr_persisted k' = memory_state k') \<Longrightarrow> Q r (k', w')"
  shows "k_after (persist E) Q (k\<lparr>kr_pins := ps\<rparr>, w)"
proof -
  have "sound E (k\<lparr>kr_pins := ps\<rparr>, w)" using assms(1,2) by (simp add: sound_def memory_pins)
  then have "k_after (persistState E \<lparr>ks_pins = ps, ks_pending = kr_pending k\<rparr>) Q (k\<lparr>kr_pins := ps\<rparr>, w)"
    using assms(2) by (rule sound_persist) (auto simp: memory_pins intro: assms(3))
  then show ?thesis by (simp add: memory_pins)
qed

lemma revokeWatch_keeps:
  assumes "sound E (k, w)"
  shows "k_after (revokeWatch E watch) (keeps E) (k, w)"
proof -
  let ?pins = "map (\<lambda>p. if pn_watchDeviceId p = watch then revoked p else p) (kr_pins k)"
  have "keyring_ok E (kw_keys w) \<lparr>ks_pins = ?pins, ks_pending = filter (\<lambda>_. True) (kr_pending k)\<rparr>"
    using assms by (intro keyring_ok_revoke) (simp add: sound_def memory_state_def)
  then have valid: "keyring_ok E (kw_keys w) \<lparr>ks_pins = ?pins, ks_pending = kr_pending k\<rparr>" by simp
  then have "k_after (persist E) (keeps E) (k\<lparr>kr_pins := ?pins\<rparr>, w)"
    by (rule unlocked_persist[OF assms])
  moreover have "sound E (k\<lparr>kr_pins := ?pins\<rparr>, w)" using assms valid by (simp add: sound_def memory_pins)
  ultimately show ?thesis using assms by (simp add: revokeWatch_def Let_def)
qed

lemma revokeCompromised_keeps:
  assumes "sound E (k, w)"
  shows "k_after (revokeCompromisedEncryptionKey E keyId) (keeps E) (k, w)"
proof -
  let ?pins = "map (\<lambda>p. if compromised keyId p then p\<lparr>pn_status := Pin_revoked\<rparr> else p) (kr_pins k)"
  have "keyring_ok E (kw_keys w) \<lparr>ks_pins = ?pins, ks_pending = filter (\<lambda>_. True) (kr_pending k)\<rparr>"
    using assms by (intro keyring_ok_restatus) (auto simp: sound_def memory_state_def valid_compromised split: if_splits)
  then have valid: "keyring_ok E (kw_keys w) \<lparr>ks_pins = ?pins, ks_pending = kr_pending k\<rparr>" by simp
  have "k_after (persist E) (\<lambda>r s. sound E s) (k\<lparr>kr_pins := ?pins\<rparr>, w)"
    using valid by (rule unlocked_persist[OF assms])
  then have "k_after (persist E) (\<lambda>r s. case r of Inl e \<Rightarrow> sound E s | Inr _ \<Rightarrow> k_after (k_return n) (keeps E) s)
      (k\<lparr>kr_pins := ?pins\<rparr>, w)" for n :: nat
    by (rule k_after_mono) (simp split: sum.split)
  moreover have "sound E (k\<lparr>kr_pins := ?pins\<rparr>, w)" using assms valid by (simp add: sound_def memory_pins)
  ultimately show ?thesis
    by (simp add: revokeCompromisedEncryptionKey_def Let_def del: k_after_persist)
qed

lemma revokeGeneration_keeps:
  assumes "sound E (k, w)"
  shows "k_after (revokeWatchGeneration E watch generation) (keeps E) (k, w)"
proof -
  have "keyring_ok E (kw_keys w) (stored w)" using assms by (simp add: sound_def stored_ok)
  then have "keyring_ok E (kw_keys w) \<lparr>ks_pins = ks_pins (stored w), ks_pending = ks_pending (stored w)\<rparr>"
    by (simp add: keyring_ok_def)
  then show ?thesis
    using assms unfolding revokeWatchGeneration_def
    by (auto intro!: update_always pure_memory simp: memory_state_def keyring_ok_revoke)
qed

subsection \<open>Pruning, reconciling, opening\<close>

lemma find_filter: "(\<And>x. Q x \<Longrightarrow> P x) \<Longrightarrow> find Q (filter P xs) = find Q xs"
  by (induction xs) auto

text \<open>The keys that the memory names stay, and so does what the memory and an equal file need of them.\<close>

lemma pin_key_kept:
  assumes "pin_key_ok E keys p" and "\<And>i. hk_encryptionKeyId i = kb_encryptionKeyId (pn_hostBinding p) \<Longrightarrow> P i"
  shows "pin_key_ok E (filter P keys) p"
proof -
  have "find_key (filter P keys) (kb_encryptionKeyId (pn_hostBinding p)) = find_key keys (kb_encryptionKeyId (pn_hostBinding p))"
    unfolding find_key_def by (rule find_filter) (rule assms(2))
  then show ?thesis using assms(1) by (simp add: pin_key_ok_def)
qed

lemma valid_pending_iff:
  "valid_pending E keys d \<longleftrightarrow> is_safe_integer (pd_linkGeneration d) \<and> is_safe_integer (pd_epoch d)
     \<and> isPinDigest (pd_peerProofDigest d) \<and> is_canonical_timestamp (pd_activatedAt d)
     \<and> valid_pin E keys (pd_pin d) \<and> pending_matches d"
  by (auto simp: valid_pending_def assertValidPending_def assertValidPin_iff[symmetric] rbind_Inr_iff)

lemma keyring_ok_keys:
  assumes "keyring_ok E keys s"
    and "\<And>p. p \<in> set (ks_pins s) \<union> pd_pin ` set (ks_pending s) \<Longrightarrow> pin_key_ok E keys p \<Longrightarrow> pin_key_ok E keys' p"
  shows "keyring_ok E keys' s"
proof -
  have valid: "valid_pin E keys' p" if "valid_pin E keys p" "p \<in> set (ks_pins s) \<union> pd_pin ` set (ks_pending s)" for p
    using that assms(2) by (simp add: valid_pin_def)
  then have "pins_ok E keys' (ks_pins s)" using assms(1) by (auto simp: keyring_ok_def pins_ok_def)
  moreover have "pending_ok E keys' (ks_pins s) (ks_pending s)"
    using assms(1) valid by (auto simp: keyring_ok_def pending_ok_def valid_pending_iff)
  ultimately show ?thesis by (simp add: keyring_ok_def)
qed

lemma referenced_keys:
  "set (referencedHostEncryptionKeyIds k) = (\<lambda>p. kb_encryptionKeyId (pn_hostBinding p)) ` set (kr_pins k)
    \<union> (\<lambda>d. kb_encryptionKeyId (pn_hostBinding (pd_pin d))) ` set (kr_pending k)"
  by (simp add: referencedHostEncryptionKeyIds_def)

lemma prune_keys_keeps:
  assumes "sound E (k, w)" and "kw_file w = Some (memory_state k)"
  shows "k_after (prune_keys E) (keeps E) (k, w)"
proof -
  let ?keys = "filter (\<lambda>i. hk_encryptionKeyId i = kw_currentKey w
    \<or> hk_encryptionKeyId i \<in> set (referencedHostEncryptionKeyIds k)) (kw_keys w)"
  have "keyring_ok E ?keys (memory_state k)"
  proof (rule keyring_ok_keys[where keys = "kw_keys w"])
    show "keyring_ok E (kw_keys w) (memory_state k)" using assms(1) by (simp add: sound_def)
    fix p assume "p \<in> set (ks_pins (memory_state k)) \<union> pd_pin ` set (ks_pending (memory_state k))"
    then have "kb_encryptionKeyId (pn_hostBinding p) \<in> set (referencedHostEncryptionKeyIds k)"
      by (auto simp: referenced_keys memory_state_def)
    moreover assume "pin_key_ok E (kw_keys w) p"
    ultimately show "pin_key_ok E ?keys p" by (intro pin_key_kept) auto
  qed
  then have "sound E (k, w\<lparr>kw_calls := n, kw_keys := ?keys\<rparr>)" for n
    using assms(2) by (simp add: sound_def file_ok_def)
  then show ?thesis using assms(1)
    by (simp add: k_after_def prune_keys_def Let_def split: write_outcome.split)
qed

lemma pruneRetiring_keeps:
  assumes "sound E (k, w)"
  shows "k_after (pruneRetiring E input now) (keeps E) (k, w)"
proof -
  let ?pins = "filter (retained input now) (kr_pins k)"
  have valid: "keyring_ok E (kw_keys w) \<lparr>ks_pins = ?pins, ks_pending = kr_pending k\<rparr>"
    using assms by (simp add: sound_def keyring_ok_def memory_state_def pins_ok_filter pending_ok_filter)
  have "k_after (k_bind (persist E) (\<lambda>_. k_bind (prune_keys E) (\<lambda>_. k_return removed))) (keeps E)
      (k\<lparr>kr_pins := ?pins\<rparr>, w)" for removed :: "link_pin list"
    unfolding k_after_simps(5)
  proof (rule unlocked_persist[OF assms valid])
    fix r k' w' assume "sound E (k', w')" and "r = ok () \<Longrightarrow> kw_file w' = Some (memory_state k') \<and> kr_persisted k' = memory_state k'"
    then show "case r of Inl e \<Rightarrow> sound E (k', w') | Inr a \<Rightarrow> k_after (prune_keys E)
        (\<lambda>r s. case r of Inl e \<Rightarrow> sound E s | Inr a \<Rightarrow> k_after (k_return removed) (keeps E) s) (k', w')"
      by (auto intro!: k_after_mono[OF prune_keys_keeps] split: sum.split)
  qed
  moreover have "sound E (k\<lparr>kr_pins := ?pins\<rparr>, w)" using assms valid by (simp add: sound_def memory_pins)
  ultimately show ?thesis using assms
    by (cases "assertCanonicalRetentionReferences input now") (simp_all add: pruneRetiring_def Let_def del: k_after_persist)
qed

lemma set_memory_sound: "file_ok E w \<Longrightarrow> sound E (set_memory (stored w) k, w)"
  by (simp add: sound_def stored_ok)

lemma refresh_keeps:
  assumes "file_ok E w" and "Q (ok ()) (set_memory (stored w) k, w)"
  shows "k_after (refreshPersisted E) Q (k, w)"
  using assms by (auto simp: refreshPersisted_def simp del: k_after_load intro!: k_after_load_ok)

lemma open_keeps:
  assumes "sound E (k, w)"
  shows "k_after (open_keyring E) (keeps E) (k, w)"
proof -
  have "file_ok E w" using assms by (simp add: sound_def)
  then show ?thesis using assms set_memory_sound
    by (auto simp: open_keyring_def simp del: k_after_load intro!: k_after_load_ok)
qed

lemma reconcile_pin_cases: "reconcile_pin rs p = p \<or> reconcile_pin rs p = revoked p"
  by (simp add: reconcile_pin_def split: option.split)

lemma keyring_ok_reconciled:
  assumes "keyring_ok E keys \<lparr>ks_pins = ps, ks_pending = ds\<rparr>" and "reconciledPins ps rs known = ok ps'"
  shows "keyring_ok E keys \<lparr>ks_pins = ps', ks_pending = ds\<rparr>"
proof -
  have ps': "ps' = map (reconcile_pin rs) ps"
    using assms(2) by (simp add: reconciledPins_def Let_def split: if_splits)
  have facts: "key_of (reconcile_pin rs p) = key_of p" "pin_tuple (reconcile_pin rs p) = pin_tuple p"
    "pn_watchDeviceId (reconcile_pin rs p) = pn_watchDeviceId p"
    "pn_status (reconcile_pin rs p) = Pin_active \<Longrightarrow> reconcile_pin rs p = p"
    "valid_pin E keys p \<Longrightarrow> valid_pin E keys (reconcile_pin rs p)" for p
    using reconcile_pin_cases[of rs p] by auto
  have "keyring_ok E keys \<lparr>ks_pins = map (reconcile_pin rs) ps, ks_pending = filter (\<lambda>_. True) ds\<rparr>"
    by (rule keyring_ok_restatus[OF assms(1)]) (auto simp: facts)
  then show ?thesis by (simp add: ps')
qed

lemma reconciled_persist:
  assumes "sound E (k, w)" and "reconciledPins (kr_pins k) rs known = ok ps"
    and "\<And>r s. sound E s \<Longrightarrow> memory_state (fst s) = \<lparr>ks_pins = ps, ks_pending = kr_pending k\<rparr> \<Longrightarrow>
      kw_keys (snd s) = kw_keys w \<Longrightarrow> (r = ok () \<Longrightarrow> stored (snd s) = memory_state (fst s)) \<Longrightarrow> Q r s"
  shows "k_after (persist E) Q (k\<lparr>kr_pins := ps\<rparr>, w)"
proof (rule unlocked_persist[OF assms(1)])
  show "keyring_ok E (kw_keys w) \<lparr>ks_pins = ps, ks_pending = kr_pending k\<rparr>"
    using assms(1) keyring_ok_reconciled[OF _ assms(2)] by (simp add: sound_def memory_state_def)
qed (auto intro!: assms(3) simp: stored_def)

lemma current_materials_rule:
  assumes "sound E (k, w)"
    and "\<And>e k'. sound E (k', w) \<Longrightarrow> Q (Inl e) (k', w)"
    and "\<And>ms refreshed k'. sound E (k', w) \<Longrightarrow> materials E k' (kw_keys w) recipients = ok ms \<Longrightarrow> Q (ok (ms, refreshed)) (k', w)"
  shows "k_after (current_materials E recipients) Q (k, w)"
proof -
  have "file_ok E w" using assms(1) by (simp add: sound_def)
  then have fresh: "sound E (set_memory (stored w) k, w)" by (rule set_memory_sound)
  show ?thesis
  proof (cases "materials E k (kw_keys w) recipients")
    case (Inl e)
    have "k_after (refreshPersisted E) (\<lambda>r s'. case r of Inl e \<Rightarrow> Q (Inl e) s'
        | Inr a \<Rightarrow> k_after (k_bind k_get (\<lambda>(k', w'). case materials E k' (kw_keys w') recipients of
           Inr ms \<Rightarrow> k_return (ms, True) | Inl _ \<Rightarrow> k_lift (throw e))) Q s') (k, w)"
      using \<open>file_ok E w\<close> assms(2,3) fresh by (intro refresh_keeps) (auto split: sum.split)
    then show ?thesis using Inl by (simp add: current_materials_def)
  next
    case (Inr ms)
    then show ?thesis using assms(1,3) by (simp add: current_materials_def)
  qed
qed

text \<open>Where the reconciliation succeeds, the materials are those of its memory and the pins are reconciled ones.\<close>

lemma materials_pins:
  assumes "materials E k keys rs = ok ms" and "kr_pins k' = kr_pins k"
  shows "materials E k' keys rs = ok ms"
  using assms by (induction rs arbitrary: ms) (auto simp: rbind_Inr_iff materialForRecipient_def resolvePinMaterial_def getUsable_def)

definition reconciled_to :: "keyring_env \<Rightarrow> recipient list \<Rightarrow> recipient_material list \<Rightarrow> keyring \<times> keyring_world \<Rightarrow> bool" where
  "reconciled_to E recipients ms = (\<lambda>(k, w). \<exists>pins known.
     materials E (k\<lparr>kr_pins := pins\<rparr>) (kw_keys w) recipients = ok ms \<and> reconciledPins pins recipients known = ok (kr_pins k))"

lemma reconciled_to_I:
  assumes "materials E k (kw_keys w) rs = ok ms" and "reconciledPins (kr_pins k) rs known = ok (kr_pins k')"
    and "kw_keys w' = kw_keys w"
  shows "reconciled_to E rs ms (k', w')"
proof -
  have "materials E (k'\<lparr>kr_pins := kr_pins k\<rparr>) (kw_keys w') rs = ok ms"
    using materials_pins[OF assms(1), of "k'\<lparr>kr_pins := kr_pins k\<rparr>"] assms(3) by simp
  with assms(2) show ?thesis unfolding reconciled_to_def by auto
qed

abbreviation reconciles :: "keyring_env \<Rightarrow> recipient list \<Rightarrow> recipient_material list result \<Rightarrow> keyring \<times> keyring_world \<Rightarrow> bool" where
  "reconciles E rs \<equiv> \<lambda>r s. sound E s \<and> (\<forall>ms. r = ok ms \<longrightarrow> reconciled_to E rs ms s)"

lemma write_reconciled:
  assumes "sound E (k, w)" and "materials E k (kw_keys w) rs = ok ms" and "reconciledPins (kr_pins k) rs known = ok pins"
  shows "k_after (write_pins E pins ms) (reconciles E rs) (k, w)"
proof -
  have "k_after (persist E) (\<lambda>r s. case r of Inl e \<Rightarrow> reconciles E rs (Inl e) s | Inr _ \<Rightarrow> k_after (k_return ms) (reconciles E rs) s)
      (k\<lparr>kr_pins := pins\<rparr>, w)"
  proof (rule reconciled_persist[OF assms(1,3)])
    fix r :: "unit result" and s :: "keyring \<times> keyring_world"
    assume s: "sound E s" "memory_state (fst s) = \<lparr>ks_pins = pins, ks_pending = kr_pending k\<rparr>" "kw_keys (snd s) = kw_keys w"
    obtain k' w' where kw: "s = (k', w')" by (cases s)
    have "kr_pins k' = pins" using s(2) kw by (simp add: memory_state_def)
    then have "reconciled_to E rs ms (k', w')" using reconciled_to_I[OF assms(2), of known] assms(3) s(3) kw by simp
    then show "case r of Inl e \<Rightarrow> reconciles E rs (Inl e) s | Inr _ \<Rightarrow> k_after (k_return ms) (reconciles E rs) s"
      using s(1) kw by (simp split: sum.split)
  qed
  then show ?thesis by (simp add: write_pins_def del: k_after_persist)
qed

lemma reconcile_locked_rule:
  assumes k: "sound E (k, w)" "materials E k (kw_keys w) rs = ok ms" "reconciledPins (kr_pins k) rs known' = ok reconciled"
  shows "k_after (reconcile_locked E rs known ms reconciled) (reconciles E rs) (k, w)"
proof (cases "ke_lock E (kw_calls w)")
  case True
  define w1 where "w1 = w\<lparr>kw_calls := Suc (kw_calls w)\<rparr>"
  define k2 where "k2 = set_memory (stored w1) k"
  have w1: "sound E (k, w1)" "kw_keys w1 = kw_keys w" using k(1) by (simp_all add: w1_def)
  then have ok1: "file_ok E w1" by (simp add: sound_def)
  then have k2: "sound E (k2, w1)" unfolding k2_def by (rule set_memory_sound)
  have write2: "k_after (write_pins E pins ms') (reconciles E rs) (k2, w1)"
    if "materials E k2 (kw_keys w) rs = ok ms'" "reconciledPins (ks_pins (stored w1)) rs (Some known) = ok pins" for ms' pins
    using that w1(2) by (intro write_reconciled[OF k2]) (simp_all add: k2_def)
  have write1: "k_after (write_pins E reconciled ms) (reconciles E rs) (k, w1)"
    using k(2,3) w1(2) by (intro write_reconciled[OF w1(1)]) simp_all
  let ?body = "k_bind (load E) (\<lambda>latest.
       if latest \<noteq> kr_persisted k
       then k_bind (k_memory (set_memory latest)) (\<lambda>_.
         k_bind (k_lift (materials E (set_memory latest k) (kw_keys w) rs)) (\<lambda>ms'.
         k_bind (k_lift (reconciledPins (ks_pins latest) rs (Some known))) (\<lambda>pins. write_pins E pins ms')))
       else write_pins E reconciled ms)"
  have "k_after ?body (reconciles E rs) (k, w1)"
    using k2 write1 write2
    by (auto simp: k2_def[symmetric] simp del: k_after_load intro!: k_after_load_ok[OF ok1] split: sum.split)
  then have "k_after ?body (\<lambda>r s. reconciles E rs r s \<and> (\<forall>e. reconciles E rs (Inl e) s)) (k, w1)"
    by (rule k_after_mono) simp
  then have "k_after (k_finally ?body (release_lock E)) (reconciles E rs) (k, w1)" by (rule k_after_release)
  then show ?thesis using True unfolding w1_def by (simp add: reconcile_locked_def)
qed (use k(1) in \<open>simp add: reconcile_locked_def\<close>)

lemma reconcileRecipients_rule:
  assumes "sound E (k, w)"
  shows "k_after (reconcileRecipients E snapshot) (reconciles E (rs_recipients snapshot)) (k, w)"
proof (cases "rs_hostId snapshot \<noteq> ke_hostId E \<or> \<not> isPositiveInteger (rs_recipientSetVersion snapshot)")
  case False
  define rs known where "rs = rs_recipients snapshot" and "known = map key_of (kr_pins k)"
  have "k_after (current_materials E rs) (\<lambda>r s'. case r of Inl e \<Rightarrow> reconciles E rs (Inl e) s'
      | Inr (ms, refreshed) \<Rightarrow> k_after (k_bind k_get (\<lambda>(k', w').
       k_bind (k_lift (reconciledPins (kr_pins k') rs (if refreshed then Some known else None))) (\<lambda>reconciled.
       if reconciled = kr_pins k' then k_return ms else reconcile_locked E rs known ms reconciled))) (reconciles E rs) s') (k, w)"
    using assms
    by (rule current_materials_rule)
      (auto split: sum.split intro: reconcile_locked_rule reconciled_to_I)
  then have "k_after (k_bind (current_materials E rs) (\<lambda>(ms, refreshed). k_bind k_get (\<lambda>(k', w').
       k_bind (k_lift (reconciledPins (kr_pins k') rs (if refreshed then Some known else None))) (\<lambda>reconciled.
       if reconciled = kr_pins k' then k_return ms else reconcile_locked E rs known ms reconciled)))) (reconciles E rs) (k, w)"
    unfolding k_after_simps(5) by (rule k_after_mono) (auto split: sum.splits)
  from this[unfolded rs_def known_def] show ?thesis using False
    by (simp add: reconcileRecipients_def Let_def k_after_get del: k_after_simps)
qed (use assms in \<open>simp add: reconcileRecipients_def\<close>)

end
