(* ===== verification/Keyring_Outcomes.thy ===== *)
theory Keyring_Outcomes
  imports Keyring_Safety
begin

section \<open>What the operations of the key ring achieve\<close>

text \<open>
  The state after a successful activation and a successful reconciliation, and when an activation is
  accepted.
\<close>

subsection \<open>Activation\<close>

lemma retire_before_simps [simp]:
  "key_of (retire_before p now q) = key_of q" "pin_tuple (retire_before p now q) = pin_tuple q"
  "pn_watchDeviceId (retire_before p now q) = pn_watchDeviceId q"
  by (simp_all add: retire_before_def)

lemma retire_before_active: "pn_status (retire_before p now q) = Pin_active \<Longrightarrow> retire_before p now q = q"
  by (cases "pn_watchDeviceId q = pn_watchDeviceId p \<and> pn_status q = Pin_active \<and> 0 < comparePinTuple (pin_tuple p) (pin_tuple q)")
    (simp_all only: retire_before_def if_True if_False, simp)

lemma laterTimestamp_ge [simp]: "t \<le> laterTimestamp now t"
  by (simp add: laterTimestamp_def)

lemma valid_retire_before:
  assumes "valid_pin E keys q" and "is_canonical_timestamp now"
  shows "valid_pin E keys (retire_before p now q)"
proof -
  have "is_canonical_timestamp (pn_activatedAt q)" using assms(1) by (simp add: valid_pin_def pin_shape_ok_def)
  then have "is_canonical_timestamp (laterTimestamp now (pn_activatedAt q))" using assms(2) by (simp add: laterTimestamp_def)
  then have "valid_pin E keys (q\<lparr>pn_status := Pin_retiring, pn_retiringAt := Some (laterTimestamp now (pn_activatedAt q))\<rparr>)"
    by (intro valid_restatus[OF assms(1)]) simp_all
  then show ?thesis using assms(1) by (simp add: retire_before_def)
qed

lemma not_rolls_back:
  assumes "\<not> rolls_back p q" and "\<not> same_tuple (pn_linkId p) (pn_linkGeneration p) (pn_epoch p) q"
  shows "pin_tuple q < pin_tuple p"
  using assms by (auto simp: rolls_back_def same_tuple_def pin_tuple_def less_prod_def)

lemma same_tuple_key: "same_tuple (pn_linkId p) (pn_linkGeneration p) (pn_epoch p) q \<Longrightarrow> key_of q = key_of p"
  by (simp add: same_tuple_def key_of_def)

text \<open>The new pin on top of the older ones of its Watch.\<close>

lemma activated_ok:
  assumes ring: "keyring_ok E keys \<lparr>ks_pins = ps, ks_pending = ds\<rparr>"
    and p: "valid_pin E keys p" "pn_status p = Pin_active" and now: "is_canonical_timestamp now"
    and fresh: "key_of p \<notin> key_of ` set ps"
    and ahead: "\<And>q. q \<in> set ps \<Longrightarrow> pn_watchDeviceId q = pn_watchDeviceId p \<Longrightarrow> \<not> rolls_back p q"
    and free: "\<And>d. d \<in> set (drop_pending p ds) \<Longrightarrow> pending_watch d \<noteq> pn_watchDeviceId p \<and> pending_key d \<noteq> key_of p"
  shows "keyring_ok E keys \<lparr>ks_pins = map (retire_before p now) ps @ [p], ks_pending = drop_pending p ds\<rparr>"
proof -
  let ?old = "map (retire_before p now) ps"
  have before: "pin_tuple q < pin_tuple p" if "q \<in> set ps" "pn_watchDeviceId q = pn_watchDeviceId p" for q
  proof (rule not_rolls_back[OF ahead[OF that]], rule notI)
    assume "same_tuple (pn_linkId p) (pn_linkGeneration p) (pn_epoch p) q"
    then have "key_of p \<in> key_of ` set ps" using that(1) by (metis same_tuple_key image_eqI)
    then show False using fresh by simp
  qed
  have old: "pins_ok E keys ?old"
    using ring by (intro pins_ok_map) (auto simp: keyring_ok_def valid_retire_before now dest: retire_before_active)
  have retired: "pn_status q \<noteq> Pin_active \<and> pin_tuple q < pin_tuple p"
    if q: "q \<in> set ?old" and watch: "pn_watchDeviceId q = pn_watchDeviceId p" for q
  proof -
    obtain q0 where q0: "q0 \<in> set ps" "q = retire_before p now q0" using q by auto
    then have "pin_tuple q0 < pin_tuple p" using before watch by simp
    then show ?thesis using watch q0(2) by (auto simp: retire_before_def split: if_splits)
  qed
  have "pins_ok E keys (?old @ [p])"
    unfolding pins_ok_def
  proof (intro conjI ballI impI)
    show "distinct (map key_of (?old @ [p]))" using ring fresh by (simp add: keyring_ok_def pins_ok_def comp_def)
  next
    fix q assume "q \<in> set (?old @ [p])"
    then show "valid_pin E keys q" using old p(1) unfolding pins_ok_def by auto
  next
    fix a b assume a: "a \<in> set (?old @ [p])" and b: "b \<in> set (?old @ [p])"
      and same: "pn_watchDeviceId a = pn_watchDeviceId b" and active: "pn_status a = Pin_active"
    have cases: "a \<in> set ?old \<and> b \<in> set ?old \<or> a = p \<and> b \<in> set ?old \<or> a = p \<and> b = p"
      using a b same active retired by auto
    then show "pin_tuple b \<le> pin_tuple a"
    proof (elim disjE conjE)
      assume "a \<in> set ?old" "b \<in> set ?old"
      then show ?thesis using old same active unfolding pins_ok_def by blast
    next
      assume "a = p" "b \<in> set ?old"
      then show ?thesis using retired[of b] same by (simp add: order.strict_implies_order)
    qed simp
    assume "pn_status b = Pin_active"
    then show "a = b" using cases
    proof (elim disjE conjE)
      assume "a \<in> set ?old" "b \<in> set ?old"
      then show ?thesis using old same active \<open>pn_status b = Pin_active\<close> unfolding pins_ok_def by blast
    next
      assume "a = p" "b \<in> set ?old"
      then show ?thesis using retired[of b] same \<open>pn_status b = Pin_active\<close> by simp
    qed simp
  qed
  moreover have "pending_ok E keys (?old @ [p]) (drop_pending p ds)"
  proof -
    have "pending_ok E keys ?old (drop_pending p ds)"
      unfolding drop_pending_def using ring by (intro pending_ok_fewer pending_ok_map) (simp_all add: keyring_ok_def)
    moreover have "\<forall>d \<in> set (drop_pending p ds). pn_watchDeviceId p \<noteq> pending_watch d \<and> pending_key d \<noteq> key_of p"
      using free by metis
    ultimately show ?thesis unfolding pending_ok_def by auto
  qed
  ultimately show ?thesis by (simp add: keyring_ok_def)
qed

lemma activate_pin_result:
  assumes "activate_pin p now (k, w) = (ok (), k', w')"
  shows "w' = w \<and> p \<in> set (kr_pins k') \<and> kr_pending k' = drop_pending p (kr_pending k)
    \<and> (kr_pins k' = kr_pins k \<or> kr_pins k' = map (retire_before p now) (kr_pins k) @ [p])"
  using assms
  by (auto simp: activate_pin_def k_bind_def k_get_def k_lift_def k_memory_def find_Some_iff split: if_splits option.splits)

text \<open>A successful activation: memory and file agree, the pin is the active one of its Watch and the latest.\<close>

definition is_active_pin :: "link_pin \<Rightarrow> link_pin list \<Rightarrow> bool" where
  "is_active_pin p ps \<longleftrightarrow> p \<in> set ps \<and> pn_status p = Pin_active \<and>
     (\<forall>q \<in> set ps. pn_watchDeviceId q = pn_watchDeviceId p \<longrightarrow> q = p \<or> pn_status q \<noteq> Pin_active \<and> pin_tuple q \<le> pin_tuple p)"

lemma persistActive_result:
  assumes "sound E (k, w)"
  shows "k_after (persistActive E p now) (\<lambda>r (k', w'). r = ok () \<longrightarrow> stored w' = memory_state k'
      \<and> is_active_pin p (kr_pins k') \<and> ks_pending (stored w') = drop_pending p (ks_pending (stored w))
      \<and> (\<forall>q \<in> set (ks_pins (stored w)). q \<in> set (kr_pins k') \<or> retire_before p now q \<in> set (kr_pins k'))) (k, w)"
proof -
  have update: "k_after (updatePersisted E (activate_pin p now)) (\<lambda>r (k', w'). r = ok () \<longrightarrow> stored w' = memory_state k'
      \<and> is_active_pin p (kr_pins k') \<and> ks_pending (stored w') = drop_pending p (ks_pending (stored w))
      \<and> (\<forall>q \<in> set (ks_pins (stored w)). q \<in> set (kr_pins k') \<or> retire_before p now q \<in> set (kr_pins k'))) (k, w)"
    if active: "pn_status p = Pin_active"
  proof (rule update_rule)
    fix r k1 k' w' w''
    assume run: "activate_pin p now (set_memory (stored w) k, w') = (ok (), k1, w')"
      and good: "keyring_ok E (kw_keys w) (memory_state k1)" and same: "memory_state k' = memory_state k1"
      and kept: "r = ok () \<Longrightarrow> stored w'' = memory_state k1 \<and> kr_persisted k' = memory_state k1"
    have pins: "kr_pins k' = kr_pins k1" "kr_pending k' = kr_pending k1" using same by (simp_all add: memory_state_def)
    have "is_active_pin p (kr_pins k1)"
      using good active activate_pin_result[OF run]
      unfolding is_active_pin_def keyring_ok_def pins_ok_def memory_state_def by auto
    then show "case (k', w'') of (k', w') \<Rightarrow> r = ok () \<longrightarrow> stored w' = memory_state k'
      \<and> is_active_pin p (kr_pins k') \<and> ks_pending (stored w') = drop_pending p (ks_pending (stored w))
      \<and> (\<forall>q \<in> set (ks_pins (stored w)). q \<in> set (kr_pins k') \<or> retire_before p now q \<in> set (kr_pins k'))"
      using activate_pin_result[OF run] kept same pins by (auto simp: memory_state_def)
  qed (use assms pure_activate in \<open>auto simp: sound_def\<close>)
  then show ?thesis by (cases "assertValidPin E (kw_keys w) p") (simp_all add: persistActive_def)
qed

text \<open>When the lock is free, the file can be written and nothing stands against the pin, it is activated.\<close>

lemma updatePersisted_accepts:
  assumes "file_ok E w" and "ke_lock E (kw_calls w)" and "ke_write E (Suc (kw_calls w)) = Written"
    and "m (set_memory (stored w) k, w\<lparr>kw_calls := Suc (kw_calls w)\<rparr>) = (ok (), k1, w\<lparr>kw_calls := Suc (kw_calls w)\<rparr>)"
    and "keyring_ok E (kw_keys w) (memory_state k1)" and "\<forall>n. ke_release E n = ok ()"
  shows "k_after (updatePersisted E m) (\<lambda>r s. r = ok ()) (k, w)"
proof -
  define w1 where "w1 = w\<lparr>kw_calls := Suc (kw_calls w)\<rparr>"
  have w1: "file_ok E w1" "stored w1 = stored w" "kw_keys w1 = kw_keys w" "kw_calls w1 = Suc (kw_calls w)"
    using assms(1) by (simp_all add: w1_def file_ok_def stored_def)
  have run: "k_after m P (set_memory (stored w) k, w1) \<longleftrightarrow> P (ok ()) (k1, w1)" for P
    using assms(4) by (simp add: k_after_def w1_def)
  have valid: "validateState E (kw_keys w) (memory_state k1) = ok ()" using assms(5) by (simp add: validateState_iff)
  show ?thesis using assms(2,3) valid w1
    by (auto simp: updatePersisted_def w1_def[symmetric] k_after_released[OF assms(6)] run k_after_persistState simp del: k_after_load
        intro!: k_after_load_ok[OF w1(1)])
qed

lemma activate_pin_fresh:
  assumes "key_of p \<notin> key_of ` set (kr_pins k)"
    and "\<And>q. q \<in> set (kr_pins k) \<Longrightarrow> pn_watchDeviceId q = pn_watchDeviceId p \<Longrightarrow> \<not> rolls_back p q"
  shows "activate_pin p now (k, w) = (ok (), k\<lparr>kr_pins := map (retire_before p now) (kr_pins k) @ [p],
    kr_pending := drop_pending p (kr_pending k)\<rparr>, w)"
proof -
  have "find (same_tuple (pn_linkId p) (pn_linkGeneration p) (pn_epoch p)) (kr_pins k) = None"
    unfolding find_None_iff using assms(1) by (metis same_tuple_key image_eqI)
  then show ?thesis using assms(2) by (auto simp: activate_pin_def k_bind_def k_get_def k_lift_def k_memory_def)
qed

lemma persistActive_accepts:
  assumes "file_ok E w" and "ke_lock E (kw_calls w)" and "ke_write E (Suc (kw_calls w)) = Written"
    and "valid_pin E (kw_keys w) p" "pn_status p = Pin_active" "is_canonical_timestamp now"
    and "key_of p \<notin> key_of ` set (ks_pins (stored w))"
    and "\<And>q. q \<in> set (ks_pins (stored w)) \<Longrightarrow> pn_watchDeviceId q = pn_watchDeviceId p \<Longrightarrow> \<not> rolls_back p q"
    and "\<And>d. d \<in> set (drop_pending p (ks_pending (stored w))) \<Longrightarrow> pending_watch d \<noteq> pn_watchDeviceId p \<and> pending_key d \<noteq> key_of p"
    and "\<forall>n. ke_release E n = ok ()"
  shows "k_after (persistActive E p now) (\<lambda>r s. r = ok ()) (k, w)"
proof -
  have run: "activate_pin p now (set_memory (stored w) k, w') = (ok (), set_memory (stored w) k
      \<lparr>kr_pins := map (retire_before p now) (ks_pins (stored w)) @ [p], kr_pending := drop_pending p (ks_pending (stored w))\<rparr>, w')" for w'
    using activate_pin_fresh[of p "set_memory (stored w) k"] assms(7,8) by simp
  have "keyring_ok E (kw_keys w) \<lparr>ks_pins = ks_pins (stored w), ks_pending = ks_pending (stored w)\<rparr>"
    using stored_ok[OF assms(1)] by (simp add: keyring_ok_def)
  from activated_ok[OF this assms(4-9)]
  have "k_after (updatePersisted E (activate_pin p now)) (\<lambda>r s. r = ok ()) (k, w)"
    by (intro updatePersisted_accepts[where m = "activate_pin p now", OF assms(1-3) run[of "w\<lparr>kw_calls := Suc (kw_calls w)\<rparr>"]])
      (simp_all add: memory_state_def assms(10))
  moreover have "assertValidPin E (kw_keys w) p = ok ()" using assms(4) by (simp add: assertValidPin_iff)
  ultimately show ?thesis using assms(5) by (simp add: persistActive_def)
qed

subsection \<open>Reconciliation\<close>

text \<open>The active pin behind the material of a recipient.\<close>

definition pin_behind :: "keyring_env \<Rightarrow> link_pin list \<Rightarrow> recipient \<Rightarrow> recipient_material \<Rightarrow> bool" where
  "pin_behind E ps r m \<longleftrightarrow> recipient.truncate m = r \<and> (\<exists>p \<in> set ps. pn_status p = Pin_active
     \<and> same_tuple (rp_linkId r) (rp_linkGeneration r) (rp_epoch r) p
     \<and> pn_watchDeviceId p = rp_watchDeviceId r \<and> pn_watchBinding p = rp_watchBinding r
     \<and> pn_watchSignature p = rp_bindingSignature r \<and> rm_transcriptDigest m = pn_transcriptDigest p
     \<and> rm_hostBinding m = pn_hostBinding p \<and> bindingMatchesIdentity E (pn_hostBinding p) (rm_hostIdentity m))"

lemma truncate_extend: "recipient.truncate (recipient.extend r x) = r"
  by (simp add: recipient.truncate_def recipient.extend_def)

lemma extend_fields:
  "rm_transcriptDigest (recipient.extend r \<lparr>rm_transcriptDigest = t, rm_hostBinding = b, rm_hostIdentity = i\<rparr>) = t"
  "rm_hostBinding (recipient.extend r \<lparr>rm_transcriptDigest = t, rm_hostBinding = b, rm_hostIdentity = i\<rparr>) = b"
  "rm_hostIdentity (recipient.extend r \<lparr>rm_transcriptDigest = t, rm_hostBinding = b, rm_hostIdentity = i\<rparr>) = i"
  by (simp_all add: recipient.extend_def)

lemma material_behind:
  assumes "materialForRecipient E k keys r = ok m"
  shows "pin_behind E (kr_pins k) r m"
proof -
  obtain p i where pi: "resolvePinMaterial E k keys (rp_linkId r) (rp_linkGeneration r) (rp_epoch r) = ok (p, i)"
    and m: "m = recipient.extend r \<lparr>rm_transcriptDigest = pn_transcriptDigest p, rm_hostBinding = pn_hostBinding p, rm_hostIdentity = i\<rparr>"
    and p: "pn_status p = Pin_active" "rp_watchDeviceId r = pn_watchDeviceId p" "rp_watchBinding r = pn_watchBinding p"
      "rp_bindingSignature r = pn_watchSignature p"
    using assms by (auto simp: materialForRecipient_def split: sum.splits if_splits)
  have "p \<in> set (kr_pins k)" "same_tuple (rp_linkId r) (rp_linkGeneration r) (rp_epoch r) p"
    "bindingMatchesIdentity E (pn_hostBinding p) i"
    using pi by (auto simp: resolvePinMaterial_def getUsable_def find_Some_iff split: option.splits if_splits)
  then show ?thesis unfolding pin_behind_def m extend_fields truncate_extend using p by auto
qed

lemma materials_behind: "materials E k keys rs = ok ms \<Longrightarrow> list_all2 (pin_behind E (kr_pins k)) rs ms"
  by (induction rs arbitrary: ms) (auto simp: rbind_Inr_iff intro: material_behind)

text \<open>Which pins survive a reconciliation.\<close>

definition follows :: "recipient list \<Rightarrow> link_pin \<Rightarrow> bool" where
  "follows rs p \<longleftrightarrow> pn_status p = Pin_revoked \<or> key_of p \<in> recipient_key ` set rs
     \<or> pn_status p = Pin_retiring \<and> (\<exists>r \<in> set rs. rp_watchDeviceId r = pn_watchDeviceId p
          \<and> pin_tuple p < (rp_linkGeneration r, rp_epoch r))"

lemma reconcile_pin_follows: "follows rs (reconcile_pin rs p)"
proof -
  consider (same) "pn_status p = Pin_revoked \<or> key_of p \<in> set (map recipient_key rs)"
    | (older) r where "map_of (rev (map (\<lambda>r. (rp_watchDeviceId r, r)) rs)) (pn_watchDeviceId p) = Some r"
        "pn_status p = Pin_retiring" "pin_tuple p < (rp_linkGeneration r, rp_epoch r)" "reconcile_pin rs p = p"
    | (gone) "reconcile_pin rs p = revoked p"
    by (cases "map_of (rev (map (\<lambda>r. (rp_watchDeviceId r, r)) rs)) (pn_watchDeviceId p)")
      (fastforce simp: reconcile_pin_def)+
  then show ?thesis
  proof cases
    case same
    then have "reconcile_pin rs p = p" by (simp add: reconcile_pin_def)
    then show ?thesis using same by (auto simp: follows_def)
  next
    case older
    then have "r \<in> set rs \<and> rp_watchDeviceId r = pn_watchDeviceId p" using map_of_SomeD[OF older(1)] by auto
    then show ?thesis using older by (auto simp: follows_def)
  qed (simp add: follows_def)
qed

lemma recipient_pin_kept:
  assumes "pin_behind E ps r m" and "r \<in> set rs"
  shows "pin_behind E (map (reconcile_pin rs) ps) r m"
proof -
  have "reconcile_pin rs p = p" if "same_tuple (rp_linkId r) (rp_linkGeneration r) (rp_epoch r) p" for p
    using that assms(2) by (auto simp: reconcile_pin_def same_tuple_def key_of_def recipient_key_def)
  then show ?thesis using assms(1) unfolding pin_behind_def by force
qed

lemma reconciled_to_follows:
  assumes "reconciled_to E rs ms (k, w)"
  shows "list_all2 (pin_behind E (kr_pins k)) rs ms \<and> (\<forall>p \<in> set (kr_pins k). follows rs p)"
proof -
  obtain pins known where "materials E (k\<lparr>kr_pins := pins\<rparr>) (kw_keys w) rs = ok ms"
    and "reconciledPins pins rs known = ok (kr_pins k)"
    using assms by (auto simp: reconciled_to_def)
  then have behind: "list_all2 (pin_behind E pins) rs ms" and k: "kr_pins k = map (reconcile_pin rs) pins"
    using materials_behind[of E "k\<lparr>kr_pins := pins\<rparr>"] by (auto simp: reconciledPins_def Let_def split: if_splits)
  have "list_all2 (pin_behind E (kr_pins k)) rs ms"
    using behind by (rule list.rel_mono_strong) (simp add: k recipient_pin_kept)
  then show ?thesis by (auto simp: k reconcile_pin_follows)
qed

end
