(* ===== verification/Keyring_Examples.thy ===== *)
theory Keyring_Examples
  imports Keyring_Outcomes Bridge_Examples
begin

section \<open>A concrete key ring\<close>

text \<open>
  A Host with one encryption key, Watches named by a letter, and pins of them that the validation
  accepts. The hash tells only the Watch key from everything else.
\<close>

definition other_bytes :: jsstring where
  "other_bytes = base64UrlEncode (replicate 32 1)"

definition ring_hash :: "byte list \<Rightarrow> jsstring" where
  "ring_hash b = (if last b = 1 then other_bytes else sample_digest)"

definition ring_host :: jsstring where
  "ring_host = js (''host_'' @ replicate 43 CHR ''h'')"

definition ring_watch :: "char \<Rightarrow> jsstring" where
  "ring_watch c = js (''watch_'' @ replicate 43 c)"

definition ring_env :: keyring_env where
  "ring_env = \<lparr>ke_hash = ring_hash, ke_hostId = ring_host, ke_write = (\<lambda>_. Written), ke_lock = (\<lambda>_. True),
    ke_release = (\<lambda>_. ok ())\<rparr>"

definition ring_host_key :: jsstring where
  "ring_host_key = js ''ekey_'' @ sample_digest"

definition ring_watch_key :: jsstring where
  "ring_watch_key = js ''ekey_'' @ other_bytes"

definition ring_host_binding :: key_binding where
  "ring_host_binding = \<lparr>kb_entityType = Host_entity, kb_entityId = ring_host,
     kb_identityKeyId = js (''key_'' @ replicate 43 CHR ''i''), kb_encryptionKeyId = ring_host_key,
     kb_suite = E2E_SUITE_V1, kb_publicKey = sample_digest, kb_sequence = 1, kb_createdAt = sample_time 0\<rparr>"

definition ring_watch_binding :: "char \<Rightarrow> key_binding" where
  "ring_watch_binding c = \<lparr>kb_entityType = Watch_entity, kb_entityId = ring_watch c,
     kb_identityKeyId = js (''key_'' @ replicate 43 CHR ''i''), kb_encryptionKeyId = ring_watch_key,
     kb_suite = E2E_SUITE_V1, kb_publicKey = other_bytes, kb_sequence = 1, kb_createdAt = sample_time 0\<rparr>"

definition ring_keys :: "host_key list" where
  "ring_keys = [\<lparr>hk_hostId = ring_host, hk_encryptionKeyId = ring_host_key, hk_publicKey = sample_digest,
     hk_sequence = 1, hk_createdAt = sample_time 0, hk_privateKey = []\<rparr>]"

definition ring_pin :: "char \<Rightarrow> int \<Rightarrow> link_pin" where
  "ring_pin c generation = \<lparr>pn_status = Pin_active, pn_linkId = js ''link'', pn_hostId = ring_host,
     pn_watchDeviceId = ring_watch c, pn_linkGeneration = generation, pn_epoch = 1, pn_transcriptDigest = sample_digest,
     pn_hostBinding = ring_host_binding, pn_hostSignature = sample_bytes 64, pn_hostBindingDigest = sample_digest,
     pn_watchBinding = ring_watch_binding c, pn_watchSignature = sample_bytes 64, pn_watchBindingDigest = sample_digest,
     pn_peerProofDigest = sample_digest, pn_activatedAt = sample_time 0, pn_retiringAt = None\<rparr>"

definition ring_pending :: "char \<Rightarrow> int \<Rightarrow> pending_activation" where
  "ring_pending c generation = \<lparr>pd_linkId = js ''link'', pd_linkGeneration = generation, pd_epoch = 1,
     pd_peerProofDigest = sample_digest, pd_activatedAt = sample_time 0, pd_pin = ring_pin c generation\<rparr>"

definition ring_state :: "link_pin list \<Rightarrow> pending_activation list \<Rightarrow> keyring_state" where
  "ring_state ps ds = \<lparr>ks_pins = ps, ks_pending = ds\<rparr>"

definition ring_memory :: "link_pin list \<Rightarrow> pending_activation list \<Rightarrow> keyring" where
  "ring_memory ps ds = \<lparr>kr_pins = ps, kr_pending = ds, kr_persisted = ring_state ps ds\<rparr>"

definition ring_world :: "keyring_state \<Rightarrow> keyring_world" where
  "ring_world s = \<lparr>kw_file = Some s, kw_keys = ring_keys, kw_currentKey = ring_host_key, kw_calls = 0\<rparr>"

subsection \<open>The pins are valid\<close>

lemma utf8_last: "utf8 (x @ [10]) \<noteq> [] \<and> last (utf8 (x @ [10])) = 10"
proof -
  have low: "\<not> is_high 10 \<and> \<not> is_low 10" by (simp add: is_high_def is_low_def)
  then have ten: "utf8 [10] = [10]" by (simp add: utf8_unit_def Let_def byte_def)
  show ?thesis
  proof (induction x rule: utf8.induct)
    case (2 u)
    then show ?case using ten low by (auto simp: utf8_unit_def Let_def)
  qed (use ten in \<open>auto simp: utf8_unit_def Let_def\<close>)
qed

lemma encoded_last: "last (encodeLengthPrefixedFields (f # fs)) = 10"
proof (induction fs arbitrary: f)
  case Nil
  then show ?case using utf8_last[of "decimal (length (utf8 f)) @ js '':'' @ f"]
    by (simp add: encodeLengthPrefixedFields_def encode_field_def)
next
  case (Cons g gs)
  have "encodeLengthPrefixedFields (g # gs) \<noteq> []"
    using utf8_last[of "decimal (length (utf8 g)) @ js '':'' @ g"]
    by (simp add: encodeLengthPrefixedFields_def encode_field_def)
  moreover have "encodeLengthPrefixedFields (f # g # gs) = encode_field f @ encodeLengthPrefixedFields (g # gs)"
    by (simp add: encodeLengthPrefixedFields_def)
  ultimately show ?case using Cons[of g] by simp
qed

lemma hash_encoded: "ring_hash (encodeLengthPrefixedFields (f # fs)) = sample_digest"
  using encoded_last[of f fs] by (simp add: ring_hash_def)

lemma other_bytes_valid: "isBase64UrlBytes other_bytes 32" "isBase64UrlBytes sample_digest 32"
  "base64UrlDecode other_bytes (Some 32) = ok (replicate 32 1)" "base64UrlDecode sample_digest (Some 32) = ok (replicate 32 0)"
  using base64_decode_encode[of "replicate 32 1" "Some 32"] base64_decode_encode[of "replicate 32 0" "Some 32"]
  by (simp_all add: isBase64UrlBytes_def other_bytes_def sample_digest_def sample_bytes_def)

lemma id_pattern_append: "id_pattern p (js p @ v) \<longleftrightarrow> length v = 43 \<and> list_all (\<lambda>u. char_sextet u \<noteq> None) v"
  by (simp add: id_pattern_def js_def)

lemma ring_sextets:
  "list_all (\<lambda>u. char_sextet u \<noteq> None) (js (replicate 43 CHR ''h''))"
  "list_all (\<lambda>u. char_sextet u \<noteq> None) (js (replicate 43 CHR ''i''))"
  "list_all (\<lambda>u. char_sextet u \<noteq> None) (js (replicate 43 CHR ''a''))"
  "list_all (\<lambda>u. char_sextet u \<noteq> None) (js (replicate 43 CHR ''b''))"
  "list_all (\<lambda>u. char_sextet u \<noteq> None) sample_digest \<and> length sample_digest = 43"
  "list_all (\<lambda>u. char_sextet u \<noteq> None) other_bytes \<and> length other_bytes = 43"
  by code_simp+

lemma ring_ids:
  "id_pattern ''host_'' ring_host" "id_pattern ''key_'' (js (''key_'' @ replicate 43 CHR ''i''))"
  "id_pattern ''ekey_'' ring_host_key" "id_pattern ''ekey_'' ring_watch_key"
  "id_pattern ''watch_'' (ring_watch CHR ''a'')" "id_pattern ''watch_'' (ring_watch CHR ''b'')"
proof -
  show "id_pattern ''host_'' ring_host" "id_pattern ''key_'' (js (''key_'' @ replicate 43 CHR ''i''))"
    "id_pattern ''watch_'' (ring_watch CHR ''a'')" "id_pattern ''watch_'' (ring_watch CHR ''b'')"
    unfolding ring_host_def ring_watch_def js_append id_pattern_append using ring_sextets(1-4) by (simp_all add: js_def)
  show "id_pattern ''ekey_'' ring_host_key" "id_pattern ''ekey_'' ring_watch_key"
    unfolding ring_host_key_def ring_watch_key_def id_pattern_append using ring_sextets(5,6) by auto
qed

lemma ring_distinct: "other_bytes \<noteq> sample_digest" "ring_watch CHR ''a'' \<noteq> ring_watch CHR ''b''"
proof -
  show "other_bytes \<noteq> sample_digest" using other_bytes_valid(3,4) by auto
  show "ring_watch CHR ''a'' \<noteq> ring_watch CHR ''b''" by (simp add: ring_watch_def js_def)
qed

lemma ring_derive:
  "deriveHostEncryptionKeyId ring_env sample_digest = Some ring_host_key"
  "deriveHostEncryptionKeyId ring_env other_bytes = Some ring_watch_key"
  by (simp_all add: deriveHostEncryptionKeyId_def other_bytes_valid ring_env_def ring_hash_def ring_host_key_def ring_watch_key_def)

lemma ring_binding_valid:
  "key_binding_valid ring_host_binding"
  "c \<in> {CHR ''a'', CHR ''b''} \<Longrightarrow> key_binding_valid (ring_watch_binding c)"
  using ring_ids by (auto simp: key_binding_valid_def ring_host_binding_def ring_watch_binding_def other_bytes_valid
      isPositiveInteger_def is_safe_integer_def)

lemma ring_pin_valid:
  assumes "c \<in> {CHR ''a'', CHR ''b''}" and "isPositiveInteger g"
  shows "valid_pin ring_env ring_keys (ring_pin c g)"
proof -
  have hash: "ke_hash ring_env = ring_hash" by (simp add: ring_env_def)
  have digest: "bindingDigestSync ring_env b = Some sample_digest" if "key_binding_valid b" for b
    by (simp only: bindingDigestSync_def buildEncryptionBindingBytes_def that if_True sum.case key_binding_fields_def
        hash_encoded hash)
  have "bindingDigestSync ring_env ring_host_binding = Some sample_digest"
    "bindingDigestSync ring_env (ring_watch_binding c) = Some sample_digest"
    using ring_binding_valid assms(1) by (intro digest; simp)+
  moreover have "transcriptDigestSync ring_env (ring_pin c g) = sample_digest"
    by (simp only: transcriptDigestSync_def buildLinkTranscriptBytes_def link_transcript_fields_def hash_encoded hash)
  moreover have "isPositiveInteger 1" by (simp add: isPositiveInteger_def is_safe_integer_def)
  ultimately show ?thesis
    using ring_binding_valid assms ring_distinct(1) ring_derive
    by (simp add: valid_pin_def pin_shape_ok_def pin_binding_ok_def pin_key_ok_def ring_pin_def isPinDigest_def other_bytes_valid
        validateEncryptionKeyBindingV1_def bindingMatchesIdentity_def find_key_def ring_keys_def ring_env_def
        ring_host_key_def ring_watch_key_def
        ring_host_binding_def ring_watch_binding_def)
qed

lemma ring_pin_simps [simp]:
  "pn_status (ring_pin c g) = Pin_active" "pn_watchDeviceId (ring_pin c g) = ring_watch c"
  "pin_tuple (ring_pin c g) = (g, 1)" "key_of (ring_pin c g) = pinKey (js ''link'') g 1"
  "pd_pin (ring_pending c g) = ring_pin c g" "pending_matches (ring_pending c g)"
  by (simp_all add: ring_pin_def ring_pending_def pin_tuple_def key_of_def pending_matches_def)

lemma ring_numbers [simp]: "isPositiveInteger 1" "isPositiveInteger 2" "isPositiveInteger 3" "is_safe_integer 1"
  by (simp_all add: isPositiveInteger_def is_safe_integer_def)

lemma ring_keys_distinct: "pinKey l 1 1 \<noteq> pinKey l 2 1" "pinKey l 1 1 \<noteq> pinKey l 3 1" "pinKey l 2 1 \<noteq> pinKey l 3 1"
  by (simp_all add: pinKey_def num_string_inject)

lemma ring_pending_valid:
  assumes "c \<in> {CHR ''a'', CHR ''b''}" and "isPositiveInteger g"
  shows "valid_pending ring_env ring_keys (ring_pending c g)"
  using ring_pin_valid[OF assms] assms(2)
  by (simp add: valid_pending_iff) (simp add: ring_pending_def isPositiveInteger_def isPinDigest_def other_bytes_valid)

text \<open>Watch \<open>a\<close> linked and an activation of Watch \<open>b\<close> under way.\<close>

lemma ring_ok:
  "keyring_ok ring_env ring_keys (ring_state [] [])"
  "keyring_ok ring_env ring_keys (ring_state [ring_pin CHR ''a'' 1] [])"
  "keyring_ok ring_env ring_keys (ring_state [ring_pin CHR ''a'' 1] [ring_pending CHR ''b'' 2])"
proof -
  have "valid_pin ring_env ring_keys (ring_pin CHR ''a'' 1)" "valid_pending ring_env ring_keys (ring_pending CHR ''b'' 2)"
    by (intro ring_pin_valid ring_pending_valid; simp)+
  then show "keyring_ok ring_env ring_keys (ring_state [] [])"
    "keyring_ok ring_env ring_keys (ring_state [ring_pin CHR ''a'' 1] [])"
    "keyring_ok ring_env ring_keys (ring_state [ring_pin CHR ''a'' 1] [ring_pending CHR ''b'' 2])"
    by (simp_all add: keyring_ok_def pins_ok_def pending_ok_def ring_state_def ring_distinct
        ring_keys_distinct ring_keys_distinct[symmetric])
qed

lemma ring_sound:
  "keyring_ok ring_env ring_keys (ring_state ps ds) \<Longrightarrow> keyring_ok ring_env ring_keys s \<Longrightarrow>
    sound ring_env (ring_memory ps ds, ring_world s)"
  by (simp add: sound_def file_ok_def ring_world_def ring_memory_def memory_state_def ring_state_def)

end
