(* ===== verification/Keyring_Properties.thy ===== *)
theory Keyring_Properties
  imports Keyring_Examples
begin

section \<open>Properties of the key ring\<close>

subsection \<open>Well-formedness\<close>

text \<open>A call of one of the operations.\<close>

datatype keyring_call = Call_open | Call_activate link_pin jsstring | Call_stage pending_activation
  | Call_revoke_watch jsstring | Call_revoke_generation jsstring int | Call_revoke_key jsstring
  | Call_prune pin_retention jsstring | Call_reconcile recipient_snapshot

fun run_call :: "keyring_env \<Rightarrow> keyring_call \<Rightarrow> unit keyring_op" where
  "run_call E Call_open = open_keyring E"
| "run_call E (Call_activate p now) = persistActive E p now"
| "run_call E (Call_stage d) = stageActivation E d"
| "run_call E (Call_revoke_watch watch) = revokeWatch E watch"
| "run_call E (Call_revoke_generation watch generation) = revokeWatchGeneration E watch generation"
| "run_call E (Call_revoke_key keyId) = k_bind (revokeCompromisedEncryptionKey E keyId) (\<lambda>_. k_return ())"
| "run_call E (Call_prune input now) = k_bind (pruneRetiring E input now) (\<lambda>_. k_return ())"
| "run_call E (Call_reconcile snapshot) = k_bind (reconcileRecipients E snapshot) (\<lambda>_. k_return ())"

fun activates :: "keyring_call \<Rightarrow> bool" where
  "activates (Call_activate p now) = True"
| "activates (Call_stage d) = True"
| "activates _ = False"

text \<open>What the loader accepts, in the code's own terms.\<close>

definition loads :: "keyring_env \<Rightarrow> keyring_world \<Rightarrow> bool" where
  "loads E w \<longleftrightarrow> (case kw_file w of None \<Rightarrow> True | Some s \<Rightarrow> validateState E (kw_keys w) s = ok ())"

definition healthy :: "keyring_env \<Rightarrow> keyring \<Rightarrow> keyring_world \<Rightarrow> bool" where
  "healthy E k w \<longleftrightarrow> validateState E (kw_keys w) (memory_state k) = ok () \<and> loads E w"

lemma loads_file_ok: "loads E w \<longleftrightarrow> file_ok E w"
  by (simp add: loads_def file_ok_def validateState_iff split: option.split)

lemma healthy_sound: "healthy E k w \<longleftrightarrow> sound E (k, w)"
  by (simp add: healthy_def sound_def loads_file_ok validateState_iff)

lemma k_after_result: "k_after m Q s \<Longrightarrow> m s = (r, k', w') \<Longrightarrow> Q r (k', w')"
  by (simp add: k_after_def)

lemma k_after_returns:
  assumes "k_after m (\<lambda>r s. \<exists>a. r = ok a) s"
  shows "\<exists>a k' w'. m s = (ok a, k', w')"
proof -
  obtain a where "fst (m s) = ok a" using assms by (auto simp: k_after_def)
  then show ?thesis by (cases "m s") auto
qed

lemma keeps_discard:
  assumes "k_after m (keeps E) s"
  shows "k_after (k_bind m (\<lambda>_. k_return ())) (keeps E) s"
proof -
  have "k_after m (\<lambda>r s'. case r of Inl e \<Rightarrow> sound E s' | Inr a \<Rightarrow> k_after (k_return ()) (keeps E) s') s"
    using assms by (rule k_after_mono) (simp split: sum.split)
  then show ?thesis by simp
qed

lemma run_call_keeps:
  assumes "sound E (k, w)"
  shows "k_after (run_call E c) (\<lambda>r s. file_ok E (snd s) \<and> (r = ok () \<or> \<not> activates c \<longrightarrow> sound E s)) (k, w)"
proof (cases "activates c")
  case True
  then show ?thesis
    using persistActive_keeps[OF assms] stageActivation_keeps[OF assms] by (cases c) auto
next
  case False
  have "k_after (reconcileRecipients E snapshot) (keeps E) (k, w)" for snapshot
    using reconcileRecipients_rule[OF assms] by (rule k_after_mono) simp
  then have "k_after (run_call E c) (keeps E) (k, w)"
    using False open_keeps[OF assms] revokeWatch_keeps[OF assms] revokeGeneration_keeps[OF assms]
      revokeCompromised_keeps[OF assms] pruneRetiring_keeps[OF assms]
    by (cases c) (simp_all add: keeps_discard del: k_after_simps)
  then show ?thesis by (rule k_after_mono) (simp add: sound_def split: prod.splits)
qed

text \<open>
  C20. From a memory and a file the validation accepts, every operation of the key ring leaves a file that the
  loader accepts, whatever the lock, its release, the writes and the pruning of the key store do, and a
  memory that would be accepted too; only an activation or a staging that throws may leave another memory,
  and what an unvalidated write then makes of it is the subject of the defect below.
\<close>

theorem keyring_stays_loadable:
  assumes "healthy E k w" and "run_call E c (k, w) = (r, k', w')"
  shows "loads E w' \<and> (r = ok () \<or> \<not> activates c \<longrightarrow> healthy E k' w')"
  using k_after_result[OF run_call_keeps assms(2)] assms(1) by (simp add: healthy_sound loads_file_ok)

lemma ring_healthy: "healthy ring_env (ring_memory [ring_pin CHR ''a'' 1] [])
    (ring_world (ring_state [ring_pin CHR ''a'' 1] [ring_pending CHR ''b'' 2]))"
  unfolding healthy_sound using ring_ok(2,3) by (rule ring_sound)

theorem keyring_stays_loadable_witness:
  "\<exists>r k' w'. run_call ring_env (Call_revoke_watch (ring_watch CHR ''a'')) (ring_memory [ring_pin CHR ''a'' 1] [],
      ring_world (ring_state [ring_pin CHR ''a'' 1] [ring_pending CHR ''b'' 2])) = (r, k', w')
    \<and> loads ring_env w' \<and> healthy ring_env k' w'"
proof -
  obtain r k' w' where run: "run_call ring_env (Call_revoke_watch (ring_watch CHR ''a'')) (ring_memory [ring_pin CHR ''a'' 1] [],
      ring_world (ring_state [ring_pin CHR ''a'' 1] [ring_pending CHR ''b'' 2])) = (r, k', w')"
    by (metis prod.exhaust)
  from keyring_stays_loadable[OF ring_healthy run] run show ?thesis by auto
qed

subsection \<open>Activation\<close>

text \<open>
  C21. A successful activation: memory and file agree, the pin is the only active one of its Watch and the
  latest, its pending activation is gone, and every pin of the file is still there, as it was or retired.
\<close>

theorem activation_makes_the_pin_current:
  assumes "healthy E k w" and "persistActive E p now (k, w) = (ok (), k', w')"
  shows "stored w' = memory_state k' \<and> p \<in> set (kr_pins k') \<and> pn_status p = Pin_active
    \<and> (\<forall>q \<in> set (kr_pins k'). pn_watchDeviceId q = pn_watchDeviceId p \<longrightarrow>
         q = p \<or> pn_status q \<noteq> Pin_active \<and> 0 \<le> comparePinTuple (pin_tuple p) (pin_tuple q))
    \<and> ks_pending (stored w') = drop_pending p (ks_pending (stored w))
    \<and> (\<forall>q \<in> set (ks_pins (stored w)). q \<in> set (kr_pins k') \<or> retire_before p now q \<in> set (kr_pins k'))"
  using k_after_result[OF persistActive_result assms(2)] assms(1) by (auto simp: healthy_sound is_active_pin_def)

text \<open>
  C22. From a memory and a file the validation accepts, with the lock free and released without an error and
  the file writable, a valid active pin with a new tuple that rolls no pin of its Watch back and does not
  meet another pending activation is activated: the call returns, memory and file agree, the pin is in
  both as the only active one of its Watch and the latest, and its pending activation is gone.
\<close>

theorem activation_succeeds:
  assumes "healthy E k w" and "ke_lock E (kw_calls w)" and "ke_write E (Suc (kw_calls w)) = Written"
    and "assertValidPin E (kw_keys w) p = ok ()" and "pn_status p = Pin_active" and "is_canonical_timestamp now"
    and "\<forall>q \<in> set (ks_pins (stored w)). key_of q \<noteq> key_of p"
    and "\<forall>q \<in> set (ks_pins (stored w)). pn_watchDeviceId q = pn_watchDeviceId p \<longrightarrow> \<not> rolls_back p q"
    and "\<forall>d \<in> set (drop_pending p (ks_pending (stored w))). pending_watch d \<noteq> pn_watchDeviceId p \<and> pending_key d \<noteq> key_of p"
    and "\<forall>n. ke_release E n = ok ()"
  shows "\<exists>k' w'. persistActive E p now (k, w) = (ok (), k', w') \<and> stored w' = memory_state k'
    \<and> p \<in> set (kr_pins k') \<and> pn_status p = Pin_active
    \<and> (\<forall>q \<in> set (kr_pins k'). pn_watchDeviceId q = pn_watchDeviceId p \<longrightarrow>
         q = p \<or> pn_status q \<noteq> Pin_active \<and> 0 \<le> comparePinTuple (pin_tuple p) (pin_tuple q))
    \<and> ks_pending (stored w') = drop_pending p (ks_pending (stored w))"
proof -
  have "k_after (persistActive E p now) (\<lambda>r s. r = ok ()) (k, w)"
    using assms by (intro persistActive_accepts) (auto simp: healthy_sound sound_def assertValidPin_iff image_iff)
  then have "k_after (persistActive E p now) (\<lambda>r s. \<exists>a. r = ok a) (k, w)" by (rule k_after_mono) simp
  from k_after_returns[OF this] obtain k' w' where run: "persistActive E p now (k, w) = (ok (), k', w')" by auto
  have sound: "sound E (k, w)" using assms(1) by (simp add: healthy_sound)
  from k_after_result[OF persistActive_result[OF sound] run] run show ?thesis
    by (intro exI[of _ k'] exI[of _ w']) (auto simp: is_active_pin_def)
qed

text \<open>The second generation of the link with Watch \<open>a\<close>.\<close>

lemma ring_forward: "\<not> rolls_back (ring_pin c 2) (ring_pin c 1)"
  by (simp add: rolls_back_def ring_pin_def)

lemma ring_activation:
  "\<exists>k' w'. persistActive ring_env (ring_pin CHR ''a'' 2) (sample_time 1) (ring_memory ps ds,
    ring_world (ring_state [ring_pin CHR ''a'' 1] [])) = (ok (), k', w')"
proof -
  have "k_after (persistActive ring_env (ring_pin CHR ''a'' 2) (sample_time 1)) (\<lambda>r s. r = ok ()) (ring_memory ps ds,
    ring_world (ring_state [ring_pin CHR ''a'' 1] []))"
  proof (rule persistActive_accepts)
    show "file_ok ring_env (ring_world (ring_state [ring_pin CHR ''a'' 1] []))"
      using ring_ok(2) by (simp add: file_ok_def ring_world_def)
    show "valid_pin ring_env (kw_keys (ring_world (ring_state [ring_pin CHR ''a'' 1] []))) (ring_pin CHR ''a'' 2)"
      using ring_pin_valid[of "CHR ''a''" 2] by (simp add: ring_world_def)
    show "key_of (ring_pin CHR ''a'' 2) \<notin> key_of ` set (ks_pins (stored (ring_world (ring_state [ring_pin CHR ''a'' 1] []))))"
      by (simp add: ring_world_def stored_def ring_state_def ring_keys_distinct[symmetric])
    show "\<not> rolls_back (ring_pin CHR ''a'' 2) q" if "q \<in> set (ks_pins (stored (ring_world (ring_state [ring_pin CHR ''a'' 1] []))))" for q
      using that by (simp add: ring_world_def stored_def ring_state_def ring_forward)
  qed (simp_all add: ring_env_def ring_world_def stored_def ring_state_def drop_pending_def)
  then have "k_after (persistActive ring_env (ring_pin CHR ''a'' 2) (sample_time 1)) (\<lambda>r s. \<exists>a. r = ok a) (ring_memory ps ds,
    ring_world (ring_state [ring_pin CHR ''a'' 1] []))" by (rule k_after_mono) simp
  from k_after_returns[OF this] show ?thesis by simp
qed

lemma ring_linked: "healthy ring_env (ring_memory [] []) (ring_world (ring_state [ring_pin CHR ''a'' 1] []))"
  unfolding healthy_sound using ring_ok(1,2) by (rule ring_sound)

theorem activation_succeeds_witness:
  "\<exists>k' w'. persistActive ring_env (ring_pin CHR ''a'' 2) (sample_time 1) (ring_memory [] [],
      ring_world (ring_state [ring_pin CHR ''a'' 1] [])) = (ok (), k', w')
    \<and> stored w' = memory_state k' \<and> ring_pin CHR ''a'' 2 \<in> set (kr_pins k')"
proof -
  let ?w = "ring_world (ring_state [ring_pin CHR ''a'' 1] [])"
  have valid: "assertValidPin ring_env (kw_keys ?w) (ring_pin CHR ''a'' 2) = ok ()"
    using ring_pin_valid[of "CHR ''a''" 2] by (simp add: ring_world_def assertValidPin_iff)
  have "ke_lock ring_env (kw_calls ?w)" "ke_write ring_env (Suc (kw_calls ?w)) = Written"
    "pn_status (ring_pin CHR ''a'' 2) = Pin_active" "is_canonical_timestamp (sample_time 1)"
    "\<forall>q \<in> set (ks_pins (stored ?w)). key_of q \<noteq> key_of (ring_pin CHR ''a'' 2)"
    "\<forall>q \<in> set (ks_pins (stored ?w)). pn_watchDeviceId q = pn_watchDeviceId (ring_pin CHR ''a'' 2) \<longrightarrow>
       \<not> rolls_back (ring_pin CHR ''a'' 2) q"
    "\<forall>d \<in> set (drop_pending (ring_pin CHR ''a'' 2) (ks_pending (stored ?w))).
       pending_watch d \<noteq> pn_watchDeviceId (ring_pin CHR ''a'' 2) \<and> pending_key d \<noteq> key_of (ring_pin CHR ''a'' 2)"
    "\<forall>n. ke_release ring_env n = ok ()"
    by (simp_all add: ring_env_def ring_world_def stored_def ring_state_def ring_keys_distinct drop_pending_def ring_forward)
  from activation_succeeds[OF ring_linked this(1,2) valid this(3-8)] show ?thesis by blast
qed

theorem activation_makes_the_pin_current_witness:
  "\<exists>k' w'. persistActive ring_env (ring_pin CHR ''a'' 2) (sample_time 1) (ring_memory [] [],
      ring_world (ring_state [ring_pin CHR ''a'' 1] [])) = (ok (), k', w')
    \<and> ring_pin CHR ''a'' 2 \<in> set (kr_pins k') \<and> stored w' = memory_state k'"
proof -
  obtain k' w' where run: "persistActive ring_env (ring_pin CHR ''a'' 2) (sample_time 1) (ring_memory [] [],
      ring_world (ring_state [ring_pin CHR ''a'' 1] [])) = (ok (), k', w')"
    using ring_activation by blast
  from activation_makes_the_pin_current[OF ring_linked run] run show ?thesis by blast
qed

subsection \<open>Reconciliation with the Relay\<close>

text \<open>
  C27. When the reconciliation with a recipient snapshot succeeds, there is one material for each recipient, in
  order, made from an active pin with the tuple, the Watch and the signed key of the recipient and with a
  Host key that matches the pin; and every pin that is not revoked is that of a recipient, or a retiring one
  that a later link of the same Watch replaces.
\<close>

theorem reconciliation_follows_the_recipients:
  assumes "healthy E k w" and "reconcileRecipients E snapshot (k, w) = (ok ms, k', w')"
  shows "list_all2 (pin_behind E (kr_pins k')) (rs_recipients snapshot) ms
    \<and> (\<forall>p \<in> set (kr_pins k'). follows (rs_recipients snapshot) p) \<and> healthy E k' w'"
  using k_after_result[OF reconcileRecipients_rule assms(2)] assms(1) reconciled_to_follows
  by (fastforce simp: healthy_sound)

definition ring_recipient :: "char \<Rightarrow> int \<Rightarrow> recipient" where
  "ring_recipient c g = \<lparr>rp_linkId = js ''link'', rp_linkGeneration = g, rp_watchDeviceId = ring_watch c, rp_epoch = 1, rp_state = js ''active'',
     rp_watchBinding = ring_watch_binding c, rp_bindingSignature = sample_bytes 64\<rparr>"

definition ring_snapshot :: recipient_snapshot where
  "ring_snapshot = \<lparr>rs_hostId = ring_host, rs_recipientSetVersion = 1, rs_recipients = [ring_recipient CHR ''a'' 1]\<rparr>"

lemma ring_material:
  "\<exists>m. materialForRecipient ring_env (ring_memory [ring_pin CHR ''a'' 1, ring_pin CHR ''b'' 2] []) ring_keys
    (ring_recipient CHR ''a'' 1) = ok m"
proof -
  have "bindingMatchesIdentity ring_env ring_host_binding (hd ring_keys)"
    by (simp add: bindingMatchesIdentity_def ring_host_binding_def ring_keys_def ring_derive)
  then show ?thesis
    by (simp add: materialForRecipient_def resolvePinMaterial_def getUsable_def same_tuple_def ring_recipient_def
        ring_memory_def find_key_def ring_keys_def) (simp add: ring_pin_def ring_host_binding_def)
qed

lemma ring_ok_both: "keyring_ok ring_env ring_keys (ring_state [ring_pin CHR ''a'' 1, ring_pin CHR ''b'' 2] [])"
proof -
  have "valid_pin ring_env ring_keys (ring_pin CHR ''a'' 1)" "valid_pin ring_env ring_keys (ring_pin CHR ''b'' 2)"
    by (intro ring_pin_valid; simp)+
  then show ?thesis
    by (simp add: keyring_ok_def pins_ok_def pending_ok_def ring_state_def ring_distinct ring_distinct[symmetric] ring_keys_distinct)
qed

lemma ring_release: "k_after (k_finally m (release_lock ring_env)) Q s = k_after m Q s"
  by (rule k_after_released) (simp add: ring_env_def)

theorem reconciliation_follows_the_recipients_witness:
  "\<exists>ms k' w'. reconcileRecipients ring_env ring_snapshot (ring_memory [ring_pin CHR ''a'' 1, ring_pin CHR ''b'' 2] [],
      ring_world (ring_state [ring_pin CHR ''a'' 1, ring_pin CHR ''b'' 2] [])) = (ok ms, k', w')
    \<and> list_all2 (pin_behind ring_env (kr_pins k')) [ring_recipient CHR ''a'' 1] ms"
proof -
  let ?k = "ring_memory [ring_pin CHR ''a'' 1, ring_pin CHR ''b'' 2] []"
  let ?s = "ring_state [ring_pin CHR ''a'' 1, ring_pin CHR ''b'' 2] []"
  obtain m where m: "materialForRecipient ring_env ?k ring_keys (ring_recipient CHR ''a'' 1) = ok m"
    using ring_material by blast
  have healthy: "healthy ring_env ?k (ring_world ?s)"
    unfolding healthy_sound using ring_ok_both ring_ok_both by (rule ring_sound)
  have valid: "validateState ring_env ring_keys ?s = ok ()" using ring_ok_both by (simp add: validateState_iff)
  have "k_after (reconcileRecipients ring_env ring_snapshot) (\<lambda>r s. \<exists>ms. r = ok ms) (?k, ring_world ?s)"
    using m valid
    by (simp add: reconcileRecipients_def ring_snapshot_def current_materials_def reconciledPins_def Let_def
        ring_memory_def ring_world_def)
      (simp add: reconcile_locked_def write_pins_def ring_release, simp add: k_after_persistState ring_env_def)
  then obtain ms k' w' where run: "reconcileRecipients ring_env ring_snapshot (?k, ring_world ?s) = (ok ms, k', w')"
    using k_after_returns by blast
  from reconciliation_follows_the_recipients[OF healthy run] run show ?thesis by (auto simp: ring_snapshot_def)
qed

subsection \<open>What the file can lose\<close>

text \<open>A second staged activation of a Watch: rejected, but left in memory.\<close>

definition staged :: "keyring_world \<Rightarrow> pending_activation \<Rightarrow> keyring \<Rightarrow> keyring" where
  "staged w d k = (set_memory (stored w) k)\<lparr>kr_pending := ks_pending (stored w) @ [d]\<rparr>"

lemma second_staging_invalid:
  assumes "d0 \<in> set ds" and "pending_watch d0 = pending_watch d"
  shows "\<not> keyring_ok E keys \<lparr>ks_pins = ps, ks_pending = ds @ [d]\<rparr>"
proof -
  have "pending_watch d \<in> pending_watch ` set ds" using assms by (metis image_eqI)
  then show ?thesis by (simp add: keyring_ok_def pending_ok_def)
qed

lemma second_staging:
  assumes "file_ok E w" and "ke_lock E (kw_calls w)" and "assertValidPending E (kw_keys w) d = ok ()"
    and "d0 \<in> set (ks_pending (stored w))" and "pending_watch d0 = pending_watch d"
    and "\<forall>d' \<in> set (ks_pending (stored w)). \<not> (pd_linkId d' = pd_linkId d \<and> pd_linkGeneration d' = pd_linkGeneration d
      \<and> pd_epoch d' = pd_epoch d)"
  shows "k_after (stageActivation E d) (\<lambda>r s. (\<exists>e. r = Inl e) \<and> s = (staged w d k, w\<lparr>kw_calls := Suc (kw_calls w)\<rparr>)) (k, w)"
proof -
  define w1 where "w1 = w\<lparr>kw_calls := Suc (kw_calls w)\<rparr>"
  have w1: "file_ok E w1" "stored w1 = stored w" using assms(1) by (simp_all add: w1_def file_ok_def stored_def)
  have none: "pendingActivation (set_memory (stored w) k) (pd_linkId d) (pd_linkGeneration d) (pd_epoch d) = None"
    using assms(6) by (auto simp: pendingActivation_def find_None_iff)
  have memory: "memory_state (staged w d k) = \<lparr>ks_pins = ks_pins (stored w), ks_pending = ks_pending (stored w) @ [d]\<rparr>"
    by (simp add: staged_def memory_state_def)
  then have "\<not> keyring_ok E (kw_keys w1) (memory_state (staged w d k))"
    using second_staging_invalid[OF assms(4,5)] by simp
  then obtain e where invalid: "validateState E (kw_keys w1) (memory_state (staged w d k)) = Inl e"
    by (cases "validateState E (kw_keys w1) (memory_state (staged w d k))") (auto simp: validateState_iff[symmetric])
  have mutate: "k_after (stage_pending d) P (set_memory (stored w) k, w1) \<longleftrightarrow> P (ok ()) (staged w d k, w1)" for P
    using none by (simp add: stage_pending_def staged_def)
  have "k_after (updatePersisted E (stage_pending d)) (\<lambda>r s. (\<exists>e. r = Inl e) \<and> s = (staged w d k, w1)) (k, w)"
    using assms(2) invalid w1(2)
    by (auto simp: updatePersisted_def w1_def[symmetric] mutate simp del: k_after_load
        intro!: k_after_release k_after_load_ok[OF w1(1)])
  then show ?thesis using assms(3) by (simp add: stageActivation_def w1_def)
qed

lemma revokeWatch_writes:
  assumes "p \<in> set (kr_pins k)" and "pn_status p \<noteq> Pin_revoked" and "ke_write E (kw_calls w) = Written"
  shows "k_after (revokeWatch E (pn_watchDeviceId p)) (\<lambda>r s. r = ok ()
    \<and> (\<exists>ps. kw_file (snd s) = Some \<lparr>ks_pins = ps, ks_pending = kr_pending k\<rparr>) \<and> kw_keys (snd s) = kw_keys w) (k, w)"
proof -
  have "map (\<lambda>q. if pn_watchDeviceId q = pn_watchDeviceId p then revoked q else q) (kr_pins k) \<noteq> kr_pins k"
  proof
    assume "map (\<lambda>q. if pn_watchDeviceId q = pn_watchDeviceId p then revoked q else q) (kr_pins k) = kr_pins k"
    then have "(if pn_watchDeviceId p = pn_watchDeviceId p then revoked p else p) = p"
      using assms(1) by (metis (mono_tags, lifting) list.map_ident map_eq_conv)
    then have "pn_status (revoked p) = pn_status p" by simp
    then show False using assms(2) by simp
  qed
  then show ?thesis using assms(3)
    by (simp add: revokeWatch_def Let_def k_after_persistState memory_state_def)
qed

text \<open>
  C35. A second activation staged for a Watch is rejected and not written, but stays in memory: the next
  revocation of any Watch with a pin not yet revoked writes it without validation, and from then on the
  file does not load.
\<close>

theorem rejected_staging_reaches_the_file:
  assumes "healthy E k w" and "ke_lock E (kw_calls w)" and "ke_write E (Suc (kw_calls w)) = Written"
    and "assertValidPending E (kw_keys w) d = ok ()"
    and "d0 \<in> set (ks_pending (stored w))" and "pending_watch d0 = pending_watch d"
    and "\<forall>d' \<in> set (ks_pending (stored w)). \<not> (pd_linkId d' = pd_linkId d \<and> pd_linkGeneration d' = pd_linkGeneration d
      \<and> pd_epoch d' = pd_epoch d)"
    and "p \<in> set (ks_pins (stored w))" and "pn_status p \<noteq> Pin_revoked"
  shows "\<exists>e k1 w1 k2 w2. stageActivation E d (k, w) = (Inl e, k1, w1) \<and> kw_file w1 = kw_file w \<and> loads E w1
    \<and> revokeWatch E (pn_watchDeviceId p) (k1, w1) = (ok (), k2, w2) \<and> \<not> loads E w2"
proof -
  define w1 where "w1 = w\<lparr>kw_calls := Suc (kw_calls w)\<rparr>"
  have loaded: "file_ok E w" using assms(1) by (simp add: healthy_sound sound_def)
  obtain e where stage: "stageActivation E d (k, w) = (Inl e, staged w d k, w1)"
    using second_staging[OF loaded assms(2,4-7), of k] unfolding k_after_def w1_def[symmetric]
    by (cases "stageActivation E d (k, w)") auto
  have "k_after (revokeWatch E (pn_watchDeviceId p)) (\<lambda>r s. r = ok ()
      \<and> (\<exists>ps. kw_file (snd s) = Some \<lparr>ks_pins = ps, ks_pending = ks_pending (stored w) @ [d]\<rparr>)
      \<and> kw_keys (snd s) = kw_keys w1) (staged w d k, w1)"
    using revokeWatch_writes[of p "staged w d k" E w1] assms(3,8,9) by (simp add: staged_def w1_def)
  then obtain k2 w2 ps where revoke: "revokeWatch E (pn_watchDeviceId p) (staged w d k, w1) = (ok (), k2, w2)"
    and written: "kw_file w2 = Some \<lparr>ks_pins = ps, ks_pending = ks_pending (stored w) @ [d]\<rparr>"
    unfolding k_after_def by (cases "revokeWatch E (pn_watchDeviceId p) (staged w d k, w1)") auto
  have "\<not> loads E w2"
    using written second_staging_invalid[OF assms(5,6)] by (simp add: loads_file_ok file_ok_def)
  moreover have "kw_file w1 = kw_file w \<and> loads E w1" using loaded by (simp add: w1_def loads_file_ok file_ok_def)
  ultimately show ?thesis using stage revoke by blast
qed

lemma ring_stored: "stored (ring_world s) = s"
  by (simp add: stored_def ring_world_def)

lemma ring_second_staging:
  "assertValidPending ring_env ring_keys (ring_pending CHR ''b'' 3) = ok ()"
  using ring_pending_valid[of "CHR ''b''" 3] by (simp add: valid_pending_def)

theorem rejected_staging_reaches_the_file_witness:
  "\<exists>e k1 w1 k2 w2. stageActivation ring_env (ring_pending CHR ''b'' 3) (ring_memory [ring_pin CHR ''a'' 1] [],
      ring_world (ring_state [ring_pin CHR ''a'' 1] [ring_pending CHR ''b'' 2])) = (Inl e, k1, w1)
    \<and> loads ring_env w1 \<and> revokeWatch ring_env (ring_watch CHR ''a'') (k1, w1) = (ok (), k2, w2) \<and> \<not> loads ring_env w2"
proof -
  let ?w = "ring_world (ring_state [ring_pin CHR ''a'' 1] [ring_pending CHR ''b'' 2])"
  have "\<exists>e k1 w1 k2 w2. stageActivation ring_env (ring_pending CHR ''b'' 3) (ring_memory [ring_pin CHR ''a'' 1] [], ?w) = (Inl e, k1, w1)
    \<and> kw_file w1 = kw_file ?w \<and> loads ring_env w1
    \<and> revokeWatch ring_env (pn_watchDeviceId (ring_pin CHR ''a'' 1)) (k1, w1) = (ok (), k2, w2) \<and> \<not> loads ring_env w2"
  proof (rule rejected_staging_reaches_the_file[OF ring_healthy])
    show "ring_pending CHR ''b'' 2 \<in> set (ks_pending (stored ?w))" by (simp add: ring_stored ring_state_def)
    show "assertValidPending ring_env (kw_keys ?w) (ring_pending CHR ''b'' 3) = ok ()"
      using ring_second_staging by (simp add: ring_world_def)
  qed (simp_all add: ring_stored ring_state_def ring_env_def, simp_all add: ring_pending_def)
  then show ?thesis by auto
qed

text \<open>
  C36. A pin that another process activates is in the file. When a process with an older memory then prunes
  anything, it writes that memory without the lock and without reading the file, and the new pin is lost.
\<close>

theorem pruning_loses_a_concurrent_activation:
  assumes "persistActive E p now (other, w) = (ok (), other', w1)" and "healthy E other w"
    and "p \<notin> set (kr_pins k)" and "assertCanonicalRetentionReferences input now' = ok ()"
    and "q \<in> set (kr_pins k)" and "\<not> retained input now' q"
    and "ke_write E (kw_calls w1) = Written" and "ke_write E (Suc (kw_calls w1)) = Written"
  shows "p \<in> set (ks_pins (stored w1)) \<and> (\<exists>removed k' w2. pruneRetiring E input now' (k, w1) = (ok removed, k', w2)
    \<and> p \<notin> set (ks_pins (stored w2)))"
proof
  show "p \<in> set (ks_pins (stored w1))"
    using k_after_result[OF persistActive_result assms(1)] assms(2) by (auto simp: healthy_sound is_active_pin_def memory_state_def)
  have "filter (\<lambda>p. \<not> retained input now' p) (kr_pins k) \<noteq> []" using assms(5,6) by (auto simp: filter_empty_conv)
  then have "k_after (pruneRetiring E input now') (\<lambda>r s. (\<exists>removed. r = ok removed) \<and> p \<notin> set (ks_pins (stored (snd s)))) (k, w1)"
    using assms(3,4,7,8)
    by (simp add: pruneRetiring_def Let_def k_after_persistState)
      (simp add: k_after_def prune_keys_def k_return_def Let_def stored_def memory_state_def)
  then show "\<exists>removed k' w2. pruneRetiring E input now' (k, w1) = (ok removed, k', w2) \<and> p \<notin> set (ks_pins (stored w2))"
    unfolding k_after_def by (cases "pruneRetiring E input now' (k, w1)") auto
qed

text \<open>Process one knows an old revoked pin of Watch \<open>b\<close> only; process two activates one for Watch \<open>a\<close>.\<close>

theorem pruning_loses_a_concurrent_activation_witness:
  "\<exists>other' w1 removed k' w2. persistActive ring_env (ring_pin CHR ''a'' 2) (sample_time 1) (ring_memory [] [],
      ring_world (ring_state [ring_pin CHR ''a'' 1] [])) = (ok (), other', w1)
    \<and> ring_pin CHR ''a'' 2 \<in> set (ks_pins (stored w1))
    \<and> pruneRetiring ring_env [] (sample_time 2) (ring_memory [revoked (ring_pin CHR ''a'' 1)] [], w1) = (ok removed, k', w2)
    \<and> ring_pin CHR ''a'' 2 \<notin> set (ks_pins (stored w2))"
proof -
  obtain other' w1 where run: "persistActive ring_env (ring_pin CHR ''a'' 2) (sample_time 1) (ring_memory [] [],
      ring_world (ring_state [ring_pin CHR ''a'' 1] [])) = (ok (), other', w1)"
    using ring_activation by blast
  have revoked: "\<not> retained [] (sample_time 2) (revoked (ring_pin CHR ''a'' 1))"
    by (simp add: retained_def maxTimestamp_def)
  have new: "ring_pin CHR ''a'' 2 \<notin> set (kr_pins (ring_memory [revoked (ring_pin CHR ''a'' 1)] []))"
  proof
    assume "ring_pin CHR ''a'' 2 \<in> set (kr_pins (ring_memory [revoked (ring_pin CHR ''a'' 1)] []))"
    then have "pn_status (ring_pin CHR ''a'' 2) = pn_status (revoked (ring_pin CHR ''a'' 1))" by (simp add: ring_memory_def)
    then show False by simp
  qed
  have "ring_pin CHR ''a'' 2 \<in> set (ks_pins (stored w1)) \<and> (\<exists>removed k' w2.
      pruneRetiring ring_env [] (sample_time 2) (ring_memory [revoked (ring_pin CHR ''a'' 1)] [], w1) = (ok removed, k', w2)
      \<and> ring_pin CHR ''a'' 2 \<notin> set (ks_pins (stored w2)))"
    by (rule pruning_loses_a_concurrent_activation[OF run ring_linked new _ _ revoked])
      (simp_all add: assertCanonicalRetentionReferences_def ring_memory_def ring_env_def)
  with run show ?thesis by blast
qed

end
