(* ===== verification/Process_Lock.thy ===== *)
theory Process_Lock
  imports Timestamps Bridge_Store
begin

section \<open>Locks that know their process\<close>

text \<open>
  The record in a lock file, the inspection of the process it names and the acquisition of
  \<open>acquireProcessAwareLock\<close> (\<open>host-manager/process-aware-lock.ts\<close>). Files are created by \<open>link\<close> with their
  contents and never changed, so a read sees a whole record.
\<close>

subsection \<open>Records\<close>

record lock_record =
  lr_schemaVersion :: int
  lr_pid :: int
  lr_processStart :: jsstring
  lr_createdAt :: jsstring
  lr_ownerToken :: jsstring

datatype process_inspection = Process_alive jsstring | Process_absent | Process_unprovable

text \<open>The identity by which a record is compared with a process.\<close>

type_synonym process_ident = "int \<times> jsstring"

definition record_ident :: "lock_record \<Rightarrow> process_ident" where
  "record_ident r = (lr_pid r, lr_processStart r)"

definition lower_hex :: "code_unit \<Rightarrow> bool" where
  "lower_hex u \<longleftrightarrow> 48 \<le> u \<and> u \<le> 57 \<or> 97 \<le> u \<and> u \<le> 102"

definition record_shape :: "lock_record \<Rightarrow> bool" where
  "record_shape r \<longleftrightarrow> lr_schemaVersion r = 1 \<and> is_safe_integer (lr_pid r) \<and> 0 < lr_pid r
     \<and> lr_processStart r \<noteq> [] \<and> date_parse (lr_createdAt r) \<noteq> None"

text \<open>The checks of \<open>readValidatedRecord\<close> and of \<open>parseRecord\<close>.\<close>

definition readValidatedRecord :: "lock_record \<Rightarrow> bool" where
  "readValidatedRecord r \<longleftrightarrow> record_shape r \<and> 32 \<le> length (lr_ownerToken r) \<and> list_all lower_hex (lr_ownerToken r)"

definition parseRecord :: "lock_record \<Rightarrow> bool" where
  "parseRecord r \<longleftrightarrow> record_shape r \<and> length (lr_ownerToken r) = 48 \<and> list_all lower_hex (lr_ownerToken r)"

definition isDemonstrablyDead :: "lock_record \<Rightarrow> process_inspection \<Rightarrow> bool" where
  "isDemonstrablyDead r i \<longleftrightarrow> (case i of
     Process_absent \<Rightarrow> True | Process_alive start \<Rightarrow> start \<noteq> lr_processStart r | Process_unprovable \<Rightarrow> False)"

definition canRecover :: "lock_record \<Rightarrow> int \<Rightarrow> int \<Rightarrow> process_inspection \<Rightarrow> bool" where
  "canRecover r now staleAgeMs i \<longleftrightarrow> (case date_parse (lr_createdAt r) of
     None \<Rightarrow> False
   | Some created \<Rightarrow> if now - created < staleAgeMs then False else isDemonstrablyDead r i)"

definition DEFAULT_STALE_LOCK_AGE_MS :: int where
  "DEFAULT_STALE_LOCK_AGE_MS = 5 * 60000"

subsection \<open>The start of a process\<close>

text \<open>White space of \<open>\s\<close> and of \<open>trim\<close>.\<close>

definition js_space :: "code_unit \<Rightarrow> bool" where
  "js_space u \<longleftrightarrow> 9 \<le> u \<and> u \<le> 13 \<or> 8192 \<le> u \<and> u \<le> 8202
     \<or> u \<in> {32, 160, 5760, 8232, 8233, 8239, 8287, 12288, 65279}"

definition js_trim :: "jsstring \<Rightarrow> jsstring" where
  "js_trim v = rev (dropWhile js_space (rev (dropWhile js_space v)))"

text \<open>\<open>split(/\s+/)\<close>.\<close>

function split_space :: "jsstring \<Rightarrow> jsstring list" where
  "split_space v = (case dropWhile (\<lambda>u. \<not> js_space u) v of
     [] \<Rightarrow> [v]
   | u # rest \<Rightarrow> takeWhile (\<lambda>u. \<not> js_space u) v # split_space (dropWhile js_space rest))"
  by pat_completeness auto
termination
proof (relation "measure length")
  fix v u rest assume "dropWhile (\<lambda>u. \<not> js_space u) v = u # rest"
  then have "Suc (length rest) \<le> length v" using length_dropWhile_le[of "\<lambda>u. \<not> js_space u" v] by simp
  moreover have "length (dropWhile js_space rest) \<le> length rest" by (rule length_dropWhile_le)
  ultimately show "(dropWhile js_space rest, v) \<in> measure length" by simp
qed simp

declare split_space.simps [simp del]

definition decimal_digits :: "jsstring \<Rightarrow> bool" where
  "decimal_digits v \<longleftrightarrow> v \<noteq> [] \<and> list_all (\<lambda>u. 48 \<le> u \<and> u \<le> 57) v"

definition parseLinuxProcessStart :: "jsstring \<Rightarrow> jsstring option" where
  "parseLinuxProcessStart stat = (if 41 \<notin> set stat then None
     else (let after = rev (takeWhile (\<lambda>u. u \<noteq> 41) (rev stat));
               columns = split_space (js_trim after)
           in if 19 < length columns \<and> decimal_digits (columns ! 19) then Some (columns ! 19) else None))"

text \<open>Columns joined by single spaces: \<open>replace(/\s+/g, ' ')\<close> of a trimmed text joins what \<open>split\<close> gives.\<close>

fun spaced :: "jsstring list \<Rightarrow> jsstring" where
  "spaced [] = []"
| "spaced [c] = c"
| "spaced (c # cs) = c @ 32 # spaced cs"

definition weekday_names :: "jsstring list" where
  "weekday_names = map js [''Mon'', ''Tue'', ''Wed'', ''Thu'', ''Fri'', ''Sat'', ''Sun'']"

definition month_names :: "jsstring list" where
  "month_names = map js [''Jan'', ''Feb'', ''Mar'', ''Apr'', ''May'', ''Jun'', ''Jul'', ''Aug'', ''Sep'', ''Oct'', ''Nov'', ''Dec'']"

definition dec_digit :: "code_unit \<Rightarrow> bool" where
  "dec_digit u \<longleftrightarrow> 48 \<le> u \<and> u \<le> 57"

fun mac_day :: "jsstring \<Rightarrow> bool" where
  "mac_day [u] \<longleftrightarrow> 49 \<le> u \<and> u \<le> 57"
| "mac_day [t, u] \<longleftrightarrow> t \<in> {49, 50} \<and> dec_digit u \<or> t = 51 \<and> u \<in> {48, 49}"
| "mac_day _ \<longleftrightarrow> False"

definition mac_clock :: "jsstring \<Rightarrow> bool" where
  "mac_clock v \<longleftrightarrow> list_all2 (\<lambda>digit u. if digit then dec_digit u else u = 58)
     [True, True, False, True, True, False, True, True] v"

definition normalizeMacProcessStart :: "jsstring \<Rightarrow> jsstring option" where
  "normalizeMacProcessStart value = (case split_space (js_trim value) of
     [w, m, d, t, y] \<Rightarrow>
       if w \<in> set weekday_names \<and> m \<in> set month_names \<and> mac_day d \<and> mac_clock t
         \<and> length y = 4 \<and> list_all dec_digit y
       then Some (spaced [w, m, d, t, y]) else None
   | _ \<Rightarrow> None)"

text \<open>The inspection on Linux (\<open>None\<close> is a missing file) and on macOS, with the status and output of \<open>ps\<close>.\<close>

definition inspect_linux :: "(int \<Rightarrow> jsstring option) \<Rightarrow> int \<Rightarrow> process_inspection" where
  "inspect_linux readText pid = (case readText pid of
     None \<Rightarrow> Process_absent
   | Some stat \<Rightarrow> (case parseLinuxProcessStart stat of None \<Rightarrow> Process_unprovable | Some start \<Rightarrow> Process_alive start))"

definition inspect_mac :: "(int \<Rightarrow> int option \<times> jsstring) \<Rightarrow> int \<Rightarrow> process_inspection" where
  "inspect_mac ps pid = (case ps pid of (status, stdout) \<Rightarrow>
     if status = Some 1 \<and> js_trim stdout = [] then Process_absent
     else if status \<noteq> Some 0 then Process_unprovable
     else (case normalizeMacProcessStart stdout of None \<Rightarrow> Process_unprovable | Some start \<Rightarrow> Process_alive start))"

datatype platform = Linux | Darwin | Other_platform

definition createProcessInspector ::
  "platform \<Rightarrow> (int \<Rightarrow> int option \<times> jsstring) \<Rightarrow> (int \<Rightarrow> jsstring option) \<Rightarrow> int \<Rightarrow> process_inspection" where
  "createProcessInspector platform ps readText pid = (case platform of
     Linux \<Rightarrow> inspect_linux readText pid | Darwin \<Rightarrow> inspect_mac ps pid | Other_platform \<Rightarrow> Process_unprovable)"

lemma split_space_word: "list_all (\<lambda>u. \<not> js_space u) v \<Longrightarrow> split_space v = [v]"
proof -
  assume "list_all (\<lambda>u. \<not> js_space u) v"
  then have "dropWhile (\<lambda>u. \<not> js_space u) v = []" by (simp add: list_all_iff)
  then show ?thesis by (subst split_space.simps) (simp only: list.case)
qed

lemma split_space_Cons:
  assumes "list_all (\<lambda>u. \<not> js_space u) v" and "rest \<noteq> []" and "\<not> js_space (hd rest)"
  shows "split_space (v @ 32 # rest) = v # split_space rest"
proof -
  have "js_space 32" by (simp add: js_space_def)
  then have "dropWhile (\<lambda>u. \<not> js_space u) (v @ 32 # rest) = 32 # rest"
    "takeWhile (\<lambda>u. \<not> js_space u) (v @ 32 # rest) = v"
    using assms(1) by (simp_all add: list_all_iff)
  moreover have "dropWhile js_space rest = rest" using assms(2,3) by (cases rest) simp_all
  ultimately show ?thesis by (subst split_space.simps) simp
qed

definition word :: "jsstring \<Rightarrow> bool" where
  "word c \<longleftrightarrow> c \<noteq> [] \<and> list_all (\<lambda>u. \<not> js_space u \<and> u \<noteq> 41) c"

lemma word_facts: "word c \<Longrightarrow> c \<noteq> [] \<and> \<not> js_space (hd c) \<and> \<not> js_space (last c) \<and> list_all (\<lambda>u. \<not> js_space u) c \<and> 41 \<notin> set c"
  by (cases c) (auto simp: word_def list_all_iff)

lemma spaced_facts:
  "list_all word cs \<Longrightarrow> cs \<noteq> [] \<Longrightarrow> spaced cs \<noteq> [] \<and> \<not> js_space (hd (spaced cs)) \<and> \<not> js_space (last (spaced cs)) \<and> 41 \<notin> set (spaced cs)"
  by (induction cs rule: spaced.induct) (use word_facts in \<open>auto simp: hd_append\<close>)

lemma split_spaced: "list_all word cs \<Longrightarrow> cs \<noteq> [] \<Longrightarrow> split_space (spaced cs) = cs"
proof (induction cs rule: spaced.induct)
  case (2 c)
  then show ?case using word_facts[of c] by (simp add: split_space_word)
next
  case (3 c d ds)
  then have "spaced (d # ds) \<noteq> []" "\<not> js_space (hd (spaced (d # ds)))" using spaced_facts[of "d # ds"] by auto
  then show ?case using 3 word_facts[of c] split_space_Cons[of c "spaced (d # ds)"] by simp
qed simp

lemma trim_spaced:
  assumes "list_all word cs" and "cs \<noteq> []"
  shows "js_trim (32 # spaced cs @ [10]) = spaced cs"
proof -
  have v: "spaced cs \<noteq> []" "\<not> js_space (hd (spaced cs))" "\<not> js_space (last (spaced cs))" using spaced_facts[OF assms] by auto
  have drop: "dropWhile js_space w = w" if "w \<noteq> []" "\<not> js_space (hd w)" for w
    using that by (cases w) simp_all
  have "dropWhile js_space (32 # spaced cs @ [10]) = spaced cs @ [10]"
    using v drop[of "spaced cs @ [10]"] by (simp add: js_space_def)
  moreover have "dropWhile js_space (rev (spaced cs @ [10])) = rev (spaced cs)"
    using v drop[of "rev (spaced cs)"] by (simp add: js_space_def hd_rev)
  ultimately show ?thesis by (simp add: js_trim_def)
qed

text \<open>Whatever the command is called, parentheses, spaces and all, the start is the twentieth column after it.\<close>

lemma parse_start:
  assumes "list_all word cs" and "19 < length cs" and "decimal_digits (cs ! 19)"
  shows "parseLinuxProcessStart (pid @ command @ 41 # 32 # spaced cs @ [10]) = Some (cs ! 19)"
proof -
  have cs: "cs \<noteq> []" using assms(2) by auto
  have "41 \<notin> set (32 # spaced cs @ [10])" using spaced_facts[OF assms(1) cs] by simp
  then have "takeWhile (\<lambda>u. u \<noteq> 41) (rev (32 # spaced cs @ [10]) @ 41 # rev (pid @ command)) = rev (32 # spaced cs @ [10])"
    by (subst takeWhile_append2) auto
  then have "rev (takeWhile (\<lambda>u. u \<noteq> 41) (rev (pid @ command @ 41 # 32 # spaced cs @ [10]))) = 32 # spaced cs @ [10]"
    by simp
  then show ?thesis
    using assms trim_spaced[OF assms(1) cs] split_spaced[OF assms(1) cs]
    by (simp add: parseLinuxProcessStart_def Let_def)
qed

lemma inspection_reads_the_start:
  assumes "readText pid = Some (before @ command @ 41 # 32 # spaced cs @ [10])"
    and "list_all word cs" and "19 < length cs" and "decimal_digits (cs ! 19)"
  shows "createProcessInspector Linux ps readText pid = Process_alive (cs ! 19)"
  using assms parse_start[OF assms(2-4), of before command]
  by (simp add: createProcessInspector_def inspect_linux_def)

end
