(* ===== verification/Runtime_Lock.thy ===== *)
theory Runtime_Lock
  imports Process_Lock
begin

section \<open>The runtime lock\<close>

text \<open>
  \<open>acquireRuntimeLock\<close> and \<open>ownedRuntimeLock\<close> (\<open>runtime-lock.ts\<close>) as programs of processes that share a
  main lock file and a chain of takeover mutexes. Each access to a file and each inspection of a process
  is one step (\<open>readSnapshot\<close>, which looks at the file again after reading it, counts as one access), so the steps of several processes interleave freely, and a process may die between any
  two. What a step meets outside (the outcome of the access, the record made, the inode, the answer of
  the inspection) is its \<open>answer\<close>. The position of a process in the code is its \<open>stage\<close>, with the local
  variables that are still needed there.
\<close>

subsection \<open>Files and stages\<close>

text \<open>A lock file; the device and inode number are one number.\<close>

record lock_file =
  lf_inode :: nat
  lf_record :: lock_record

record disk =
  dk_main :: "lock_file option"
  dk_mutex :: "nat \<Rightarrow> lock_file option"

text \<open>For what the takeover mutex is claimed: to take over with a record, or to release a lock. The flag of
  a lock is not in the code: it is lost once its own removal, reported as failed, has removed the file.\<close>

datatype purpose = Take_over lock_record | Give_back bool lock_file

datatype stage =
    Idle
  | Owned bool lock_file
  | Fast_check lock_record
  | Fast_create lock_record
  | Fast_undo lock_record lock_file
  | Fast_read lock_record
  | Fast_main lock_record
  | Fast_mutex lock_record
  | Mutex_create purpose nat
  | Mutex_undo purpose nat lock_file
  | Mutex_own purpose nat
  | Mutex_evidence purpose nat
  | Mutex_read purpose nat
  | Mutex_judge purpose nat lock_file
  | Mutex_assert purpose nat lock_file
  | Main_evidence lock_record nat lock_file
  | Main_read lock_record nat lock_file
  | Main_judge lock_record nat lock_file lock_file
  | Main_assert lock_record nat lock_file lock_file
  | Main_mutex lock_record nat lock_file lock_file
  | Main_remove lock_record nat lock_file lock_file
  | Again_mutex lock_record nat lock_file
  | Main_create lock_record nat lock_file
  | Main_undo lock_record nat lock_file lock_file
  | Created_mutex lock_record nat lock_file
  | Created_read lock_record nat lock_file
  | Back_main bool lock_file nat lock_file
  | Back_mutex bool lock_file nat lock_file
  | Back_remove bool lock_file nat lock_file
  | Clean_check "(bool \<times> lock_file) option" nat lock_file
  | Clean_remove "(bool \<times> lock_file) option" nat lock_file

text \<open>After the cleanup of the mutex: with a lock, or without.\<close>

definition after_cleanup :: "(bool \<times> lock_file) option \<Rightarrow> stage" where
  "after_cleanup out = (case out of None \<Rightarrow> Idle | Some (held, f) \<Rightarrow> Owned held f)"

text \<open>Where a failed claim of the mutex leaves the caller.\<close>

fun abandon :: "purpose \<Rightarrow> stage" where
  "abandon (Take_over r) = Idle"
| "abandon (Give_back held f) = Owned held f"

fun with_mutex :: "purpose \<Rightarrow> nat \<Rightarrow> lock_file \<Rightarrow> stage" where
  "with_mutex (Take_over r) g m = Main_evidence r g m"
| "with_mutex (Give_back held f) g m = Back_main held f g m"

record answer =
  an_outcome :: write_outcome
  an_record :: lock_record
  an_inode :: nat
  an_inspection :: process_inspection

text \<open>An access that does not write either succeeds or throws.\<close>

definition reads :: "answer \<Rightarrow> bool" where
  "reads a \<longleftrightarrow> an_outcome a = Written"

text \<open>\<open>readSnapshot\<close>, which also parses, and \<open>assertSnapshot\<close>.\<close>

definition readSnapshot :: "answer \<Rightarrow> lock_file option \<Rightarrow> lock_file option" where
  "readSnapshot a file = (case file of
     Some f \<Rightarrow> if reads a \<and> parseRecord (lf_record f) then Some f else None | None \<Rightarrow> None)"

definition assertSnapshot :: "answer \<Rightarrow> lock_file option \<Rightarrow> lock_file \<Rightarrow> bool" where
  "assertSnapshot a file expected \<longleftrightarrow> readSnapshot a file = Some expected"

definition sameOwner :: "lock_record \<Rightarrow> lock_record \<Rightarrow> bool" where
  "sameOwner left right \<longleftrightarrow> lr_ownerToken left = lr_ownerToken right \<and> lr_pid left = lr_pid right
     \<and> lr_processStart left = lr_processStart right"

subsection \<open>Steps\<close>

text \<open>\<open>writeSecureJsonExclusive\<close>: linked, linked and to be undone, or refused.\<close>

definition new_file :: "answer \<Rightarrow> lock_record \<Rightarrow> lock_file" where
  "new_file a r = \<lparr>lf_inode = an_inode a, lf_record = r\<rparr>"

definition create_main :: "answer \<Rightarrow> lock_record \<Rightarrow> disk \<Rightarrow> stage \<Rightarrow> (lock_file \<Rightarrow> stage) \<Rightarrow> stage \<Rightarrow> stage \<times> disk" where
  "create_main a r d created undo refused = (let f = new_file a r in
     if dk_main d \<noteq> None then (refused, d)
     else case an_outcome a of
       Written \<Rightarrow> (created, d\<lparr>dk_main := Some f\<rparr>)
     | Written_then_failed \<Rightarrow> (undo f, d\<lparr>dk_main := Some f\<rparr>)
     | Not_written \<Rightarrow> (refused, d))"

definition create_mutex :: "answer \<Rightarrow> nat \<Rightarrow> disk \<Rightarrow> stage \<Rightarrow> (lock_file \<Rightarrow> stage) \<Rightarrow> stage \<Rightarrow> stage \<times> disk" where
  "create_mutex a g d created undo refused = (let f = new_file a (an_record a) in
     if dk_mutex d g \<noteq> None then (refused, d)
     else case an_outcome a of
       Written \<Rightarrow> (created, d\<lparr>dk_mutex := (dk_mutex d)(g := Some f)\<rparr>)
     | Written_then_failed \<Rightarrow> (undo f, d\<lparr>dk_mutex := (dk_mutex d)(g := Some f)\<rparr>)
     | Not_written \<Rightarrow> (refused, d))"

text \<open>The undo removes its own inode only, and its errors are swallowed.\<close>

definition undo_main :: "answer \<Rightarrow> lock_file \<Rightarrow> disk \<Rightarrow> disk" where
  "undo_main a f d = (case dk_main d of
     Some f' \<Rightarrow> if lf_inode f' = lf_inode f \<and> an_outcome a \<noteq> Not_written then d\<lparr>dk_main := None\<rparr> else d
   | None \<Rightarrow> d)"

definition undo_mutex :: "answer \<Rightarrow> nat \<Rightarrow> lock_file \<Rightarrow> disk \<Rightarrow> disk" where
  "undo_mutex a g f d = (case dk_mutex d g of
     Some f' \<Rightarrow> if lf_inode f' = lf_inode f \<and> an_outcome a \<noteq> Not_written
       then d\<lparr>dk_mutex := (dk_mutex d)(g := None)\<rparr> else d
   | None \<Rightarrow> d)"

text \<open>\<open>removeSecureFile\<close> of the main file: by path, whatever it holds.\<close>

definition remove_main :: "answer \<Rightarrow> disk \<Rightarrow> stage \<Rightarrow> stage \<Rightarrow> stage \<Rightarrow> stage \<times> disk" where
  "remove_main a d removed refused failed =
    (if dk_main d = None then (refused, d)
     else case an_outcome a of
       Written \<Rightarrow> (removed, d\<lparr>dk_main := None\<rparr>)
     | Not_written \<Rightarrow> (refused, d)
     | Written_then_failed \<Rightarrow> (failed, d\<lparr>dk_main := None\<rparr>))"

fun acquire_step :: "answer \<Rightarrow> disk \<Rightarrow> stage \<Rightarrow> stage \<times> disk" where
  "acquire_step a d (Fast_check r) =
    (if \<not> reads a then Idle else if dk_mutex d 0 = None then Fast_create r else Mutex_create (Take_over r) 0, d)"
| "acquire_step a d (Fast_create r) = create_main a r d (Fast_read r) (Fast_undo r) (Fast_main r)"
| "acquire_step a d (Fast_undo r f) = (Fast_main r, undo_main a f d)"
| "acquire_step a d (Fast_read r) = (case readSnapshot a (dk_main d) of Some f \<Rightarrow> Owned True f | None \<Rightarrow> Fast_main r, d)"
| "acquire_step a d (Fast_main r) =
    (if \<not> reads a then Idle else if dk_main d = None then Fast_mutex r else Mutex_create (Take_over r) 0, d)"
| "acquire_step a d (Fast_mutex r) =
    (if \<not> reads a then Idle else if dk_mutex d 0 = None then Idle else Mutex_create (Take_over r) 0, d)"
| "acquire_step a d (Main_evidence r g m) =
    (if \<not> reads a then Clean_check None g m else if dk_main d = None then Again_mutex r g m else Main_read r g m, d)"
| "acquire_step a d (Main_read r g m) =
    (case readSnapshot a (dk_main d) of Some f \<Rightarrow> Main_judge r g m f | None \<Rightarrow> Clean_check None g m, d)"
| "acquire_step a d (Main_judge r g m f) =
    (if isDemonstrablyDead (lf_record f) (an_inspection a) then Main_assert r g m f else Clean_check None g m, d)"
| "acquire_step a d (Main_assert r g m f) =
    (if assertSnapshot a (dk_main d) f then Main_mutex r g m f else Clean_check None g m, d)"
| "acquire_step a d (Main_mutex r g m f) =
    (if assertSnapshot a (dk_mutex d g) m then Main_remove r g m f else Clean_check None g m, d)"
| "acquire_step a d (Main_remove r g m f) =
    remove_main a d (Again_mutex r g m) (Clean_check None g m) (Clean_check None g m)"
| "acquire_step a d (Again_mutex r g m) =
    (if assertSnapshot a (dk_mutex d g) m then Main_create r g m else Clean_check None g m, d)"
| "acquire_step a d (Main_create r g m) =
    create_main a r d (Created_mutex r g m) (Main_undo r g m) (Clean_check None g m)"
| "acquire_step a d (Main_undo r g m f) = (Clean_check None g m, undo_main a f d)"
| "acquire_step a d (Created_mutex r g m) =
    (if assertSnapshot a (dk_mutex d g) m then Created_read r g m else Clean_check None g m, d)"
| "acquire_step a d (Created_read r g m) = (case readSnapshot a (dk_main d) of
      Some f \<Rightarrow> if sameOwner (lf_record f) r then Clean_check (Some (True, f)) g m else Clean_check None g m
    | None \<Rightarrow> Clean_check None g m, d)"
| "acquire_step a d s = (s, d)"

fun mutex_step :: "answer \<Rightarrow> disk \<Rightarrow> stage \<Rightarrow> stage \<times> disk" where
  "mutex_step a d (Mutex_create p g) = create_mutex a g d (Mutex_own p g) (Mutex_undo p g) (Mutex_evidence p g)"
| "mutex_step a d (Mutex_undo p g f) = (Mutex_evidence p g, undo_mutex a g f d)"
| "mutex_step a d (Mutex_own p g) =
    (case readSnapshot a (dk_mutex d g) of Some m \<Rightarrow> with_mutex p g m | None \<Rightarrow> Mutex_evidence p g, d)"
| "mutex_step a d (Mutex_evidence p g) =
    (if reads a \<and> dk_mutex d g \<noteq> None then Mutex_read p g else abandon p, d)"
| "mutex_step a d (Mutex_read p g) =
    (case readSnapshot a (dk_mutex d g) of Some f \<Rightarrow> Mutex_judge p g f | None \<Rightarrow> abandon p, d)"
| "mutex_step a d (Mutex_judge p g f) =
    (if isDemonstrablyDead (lf_record f) (an_inspection a) then Mutex_assert p g f else abandon p, d)"
| "mutex_step a d (Mutex_assert p g f) =
    (if assertSnapshot a (dk_mutex d g) f then Mutex_create p (Suc g) else abandon p, d)"
| "mutex_step a d (Clean_check out g m) =
    (if assertSnapshot a (dk_mutex d g) m then Clean_remove out g m else after_cleanup out, d)"
| "mutex_step a d (Clean_remove out g m) =
    (after_cleanup out, if an_outcome a = Not_written then d else d\<lparr>dk_mutex := (dk_mutex d)(g := None)\<rparr>)"
| "mutex_step a d s = (s, d)"

fun release_step :: "answer \<Rightarrow> disk \<Rightarrow> stage \<Rightarrow> stage \<times> disk" where
  "release_step a d (Back_main held f g m) =
    (if assertSnapshot a (dk_main d) f then Back_mutex held f g m else Clean_check (Some (held, f)) g m, d)"
| "release_step a d (Back_mutex held f g m) =
    (if assertSnapshot a (dk_mutex d g) m then Back_remove held f g m else Clean_check (Some (held, f)) g m, d)"
| "release_step a d (Back_remove held f g m) =
    remove_main a d (Clean_check None g m) (Clean_check (Some (held, f)) g m) (Clean_check (Some (False, f)) g m)"
| "release_step a d s = (s, d)"

fun mutex_stage :: "stage \<Rightarrow> bool" where
  "mutex_stage (Mutex_create p g) = True"
| "mutex_stage (Mutex_undo p g f) = True"
| "mutex_stage (Mutex_own p g) = True"
| "mutex_stage (Mutex_evidence p g) = True"
| "mutex_stage (Mutex_read p g) = True"
| "mutex_stage (Mutex_judge p g f) = True"
| "mutex_stage (Mutex_assert p g f) = True"
| "mutex_stage (Clean_check out g m) = True"
| "mutex_stage (Clean_remove out g m) = True"
| "mutex_stage _ = False"

fun release_stage :: "stage \<Rightarrow> bool" where
  "release_stage (Back_main held f g m) = True"
| "release_stage (Back_mutex held f g m) = True"
| "release_stage (Back_remove held f g m) = True"
| "release_stage _ = False"

text \<open>A process without the lock calls \<open>acquireRuntimeLock\<close>, one with it calls \<open>release\<close>.\<close>

definition lock_step :: "answer \<Rightarrow> disk \<Rightarrow> stage \<Rightarrow> stage \<times> disk" where
  "lock_step a d s = (case s of
     Idle \<Rightarrow> (Fast_check (an_record a), d)
   | Owned held f \<Rightarrow> (Mutex_create (Give_back held f) 0, d)
   | _ \<Rightarrow> if mutex_stage s then mutex_step a d s else if release_stage s then release_step a d s else acquire_step a d s)"

subsection \<open>Interleaving\<close>

datatype life = Unborn | Living | Dead

record lock_world =
  lw_disk :: disk
  lw_stage :: "nat \<Rightarrow> stage"
  lw_life :: "nat \<Rightarrow> life"

text \<open>
  An answer is admissible when a record made by \<open>createLockRecord\<close> names its process and the inspection
  tells the truth: of a process that lives, that it is alive with its start, or that nothing can be
  proved. Of a process identifier that no living process has, it may say anything.
\<close>

fun inspected :: "stage \<Rightarrow> lock_record option" where
  "inspected (Mutex_judge p g f) = Some (lf_record f)"
| "inspected (Main_judge r g m f) = Some (lf_record f)"
| "inspected _ = None"

definition truthful :: "(nat \<Rightarrow> process_ident) \<Rightarrow> (nat \<Rightarrow> life) \<Rightarrow> int \<Rightarrow> process_inspection \<Rightarrow> bool" where
  "truthful ident life pid i \<longleftrightarrow>
     (\<forall>q. life q = Living \<longrightarrow> fst (ident q) = pid \<longrightarrow> i = Process_unprovable \<or> i = Process_alive (snd (ident q)))"

definition admissible :: "(nat \<Rightarrow> process_ident) \<Rightarrow> lock_world \<Rightarrow> nat \<Rightarrow> answer \<Rightarrow> bool" where
  "admissible ident w p a \<longleftrightarrow> record_ident (an_record a) = ident p
     \<and> (case inspected (lw_stage w p) of None \<Rightarrow> True | Some r \<Rightarrow> truthful ident (lw_life w) (lr_pid r) (an_inspection a))"

text \<open>A process starts under an identifier that no living process has, runs its code, and may die anywhere.\<close>

inductive lock_world_step :: "(nat \<Rightarrow> process_ident) \<Rightarrow> lock_world \<Rightarrow> lock_world \<Rightarrow> bool" for ident where
  starts: "lw_life w p = Unborn \<Longrightarrow> \<forall>q. lw_life w q = Living \<longrightarrow> fst (ident q) \<noteq> fst (ident p) \<Longrightarrow>
    lock_world_step ident w (w\<lparr>lw_life := (lw_life w)(p := Living)\<rparr>)"
| proceeds: "lw_life w p = Living \<Longrightarrow> admissible ident w p a \<Longrightarrow> lock_step a (lw_disk w) (lw_stage w p) = (s, d) \<Longrightarrow>
    lock_world_step ident w (w\<lparr>lw_disk := d, lw_stage := (lw_stage w)(p := s)\<rparr>)"
| dies: "lw_life w p = Living \<Longrightarrow> lock_world_step ident w (w\<lparr>lw_life := (lw_life w)(p := Dead)\<rparr>)"

inductive_cases lock_world_stepE: "lock_world_step ident w w'"

text \<open>At first no process runs; whatever files earlier ones left are there.\<close>

inductive lock_reachable :: "(nat \<Rightarrow> process_ident) \<Rightarrow> disk \<Rightarrow> lock_world \<Rightarrow> bool" for ident d where
  initial: "lock_reachable ident d \<lparr>lw_disk = d, lw_stage = \<lambda>_. Idle, lw_life = \<lambda>_. Unborn\<rparr>"
| later: "lock_reachable ident d w \<Longrightarrow> lock_world_step ident w w' \<Longrightarrow> lock_reachable ident d w'"

text \<open>The identities of the processes are their own, and the files left behind name none of them.\<close>

definition file_ident :: "lock_file \<Rightarrow> process_ident" where
  "file_ident f = record_ident (lf_record f)"

definition on_disk :: "disk \<Rightarrow> lock_file \<Rightarrow> bool" where
  "on_disk d f \<longleftrightarrow> dk_main d = Some f \<or> (\<exists>g. dk_mutex d g = Some f)"

definition fresh_identities :: "(nat \<Rightarrow> process_ident) \<Rightarrow> disk \<Rightarrow> bool" where
  "fresh_identities ident d \<longleftrightarrow> inj ident \<and> (\<forall>f p. on_disk d f \<longrightarrow> file_ident f \<noteq> ident p)"

text \<open>A process that may write: its \<open>assertOwned\<close> succeeds.\<close>

definition assertOwned :: "disk \<Rightarrow> stage \<Rightarrow> bool" where
  "assertOwned d s \<longleftrightarrow> (case s of Owned held f \<Rightarrow> dk_main d = Some f | _ \<Rightarrow> False)"

end
