(* ===== verification/Runtime_Lock_Safety.thy ===== *)
theory Runtime_Lock_Safety
  imports Runtime_Lock
begin

section \<open>The runtime lock under interference\<close>

text \<open>
  Each stage of a living process is annotated with what holds of the disk there. A step of the process
  itself leads from one annotation to the next, and a step of another process, which can change the
  disk in a few ways only, leaves the annotation true.
\<close>

subsection \<open>Annotations\<close>

definition mine :: "(nat \<Rightarrow> process_ident) \<Rightarrow> nat \<Rightarrow> lock_file \<Rightarrow> bool" where
  "mine ident p f \<longleftrightarrow> file_ident f = ident p"

definition born :: "(nat \<Rightarrow> process_ident) \<Rightarrow> (nat \<Rightarrow> life) \<Rightarrow> lock_file \<Rightarrow> bool" where
  "born ident life f \<longleftrightarrow> (\<forall>q. file_ident f = ident q \<longrightarrow> life q \<noteq> Unborn)"

definition dead :: "(nat \<Rightarrow> process_ident) \<Rightarrow> (nat \<Rightarrow> life) \<Rightarrow> lock_file \<Rightarrow> bool" where
  "dead ident life f \<longleftrightarrow> (\<forall>q. file_ident f = ident q \<longrightarrow> life q = Dead)"

definition below :: "(nat \<Rightarrow> process_ident) \<Rightarrow> (nat \<Rightarrow> life) \<Rightarrow> disk \<Rightarrow> nat \<Rightarrow> bool" where
  "below ident life d g \<longleftrightarrow> (\<forall>i < g. \<exists>f. dk_mutex d i = Some f \<and> dead ident life f)"

text \<open>The process has the mutex of generation \<open>g\<close>.\<close>

definition critical :: "(nat \<Rightarrow> process_ident) \<Rightarrow> (nat \<Rightarrow> life) \<Rightarrow> disk \<Rightarrow> nat \<Rightarrow> nat \<Rightarrow> lock_file \<Rightarrow> bool" where
  "critical ident life d p g m \<longleftrightarrow> dk_mutex d g = Some m \<and> mine ident p m \<and> below ident life d g"

definition owns :: "(nat \<Rightarrow> process_ident) \<Rightarrow> disk \<Rightarrow> nat \<Rightarrow> bool \<Rightarrow> lock_file \<Rightarrow> bool" where
  "owns ident d p held f \<longleftrightarrow> mine ident p f \<and> (held \<longrightarrow> dk_main d = Some f)"

definition main_is_mine :: "(nat \<Rightarrow> process_ident) \<Rightarrow> disk \<Rightarrow> nat \<Rightarrow> bool" where
  "main_is_mine ident d p \<longleftrightarrow> (\<exists>f. dk_main d = Some f \<and> mine ident p f)"

fun purpose_ok :: "(nat \<Rightarrow> process_ident) \<Rightarrow> disk \<Rightarrow> nat \<Rightarrow> purpose \<Rightarrow> bool" where
  "purpose_ok ident d p (Take_over r) = (record_ident r = ident p)"
| "purpose_ok ident d p (Give_back held f) = owns ident d p held f"

definition outcome_ok :: "(nat \<Rightarrow> process_ident) \<Rightarrow> disk \<Rightarrow> nat \<Rightarrow> (bool \<times> lock_file) option \<Rightarrow> bool" where
  "outcome_ok ident d p out \<longleftrightarrow> (case out of None \<Rightarrow> True | Some (held, f) \<Rightarrow> owns ident d p held f)"

fun stage_ok :: "(nat \<Rightarrow> process_ident) \<Rightarrow> (nat \<Rightarrow> life) \<Rightarrow> disk \<Rightarrow> nat \<Rightarrow> stage \<Rightarrow> bool" where
  "stage_ok ident life d p Idle = True"
| "stage_ok ident life d p (Owned held f) = owns ident d p held f"
| "stage_ok ident life d p (Fast_check r) = (record_ident r = ident p)"
| "stage_ok ident life d p (Fast_create r) = (record_ident r = ident p)"
| "stage_ok ident life d p (Fast_undo r f) = (record_ident r = ident p \<and> dk_main d = Some f \<and> mine ident p f)"
| "stage_ok ident life d p (Fast_read r) = (record_ident r = ident p \<and> main_is_mine ident d p)"
| "stage_ok ident life d p (Fast_main r) = (record_ident r = ident p)"
| "stage_ok ident life d p (Fast_mutex r) = (record_ident r = ident p)"
| "stage_ok ident life d p (Mutex_create u g) = (purpose_ok ident d p u \<and> below ident life d g)"
| "stage_ok ident life d p (Mutex_undo u g f) =
    (purpose_ok ident d p u \<and> below ident life d g \<and> dk_mutex d g = Some f \<and> mine ident p f)"
| "stage_ok ident life d p (Mutex_own u g) =
    (purpose_ok ident d p u \<and> (\<exists>f. critical ident life d p g f))"
| "stage_ok ident life d p (Mutex_evidence u g) = (purpose_ok ident d p u \<and> below ident life d g)"
| "stage_ok ident life d p (Mutex_read u g) = (purpose_ok ident d p u \<and> below ident life d g)"
| "stage_ok ident life d p (Mutex_judge u g f) = (purpose_ok ident d p u \<and> below ident life d g \<and> born ident life f)"
| "stage_ok ident life d p (Mutex_assert u g f) = (purpose_ok ident d p u \<and> below ident life d g \<and> dead ident life f)"
| "stage_ok ident life d p (Main_evidence r g m) = (record_ident r = ident p \<and> critical ident life d p g m)"
| "stage_ok ident life d p (Main_read r g m) = (record_ident r = ident p \<and> critical ident life d p g m)"
| "stage_ok ident life d p (Main_judge r g m f) =
    (record_ident r = ident p \<and> critical ident life d p g m \<and> born ident life f)"
| "stage_ok ident life d p (Main_assert r g m f) =
    (record_ident r = ident p \<and> critical ident life d p g m \<and> dead ident life f)"
| "stage_ok ident life d p (Main_mutex r g m f) =
    (record_ident r = ident p \<and> critical ident life d p g m \<and> dead ident life f \<and> dk_main d = Some f)"
| "stage_ok ident life d p (Main_remove r g m f) =
    (record_ident r = ident p \<and> critical ident life d p g m \<and> dead ident life f \<and> dk_main d = Some f)"
| "stage_ok ident life d p (Again_mutex r g m) = (record_ident r = ident p \<and> critical ident life d p g m)"
| "stage_ok ident life d p (Main_create r g m) = (record_ident r = ident p \<and> critical ident life d p g m)"
| "stage_ok ident life d p (Main_undo r g m f) =
    (critical ident life d p g m \<and> dk_main d = Some f \<and> mine ident p f)"
| "stage_ok ident life d p (Created_mutex r g m) = (critical ident life d p g m \<and> main_is_mine ident d p)"
| "stage_ok ident life d p (Created_read r g m) = (critical ident life d p g m \<and> main_is_mine ident d p)"
| "stage_ok ident life d p (Back_main held f g m) = (critical ident life d p g m \<and> owns ident d p held f)"
| "stage_ok ident life d p (Back_mutex held f g m) =
    (critical ident life d p g m \<and> owns ident d p held f \<and> dk_main d = Some f)"
| "stage_ok ident life d p (Back_remove held f g m) =
    (critical ident life d p g m \<and> owns ident d p held f \<and> dk_main d = Some f)"
| "stage_ok ident life d p (Clean_check out g m) = (critical ident life d p g m \<and> outcome_ok ident d p out)"
| "stage_ok ident life d p (Clean_remove out g m) = (critical ident life d p g m \<and> outcome_ok ident d p out)"

subsection \<open>What a step does to the disk\<close>

text \<open>The ways in which a process changes the disk.\<close>

inductive moves :: "(nat \<Rightarrow> process_ident) \<Rightarrow> (nat \<Rightarrow> life) \<Rightarrow> nat \<Rightarrow> disk \<Rightarrow> disk \<Rightarrow> bool" for ident life p d where
  nothing: "moves ident life p d d"
| makes_main: "dk_main d = None \<Longrightarrow> mine ident p f \<Longrightarrow> moves ident life p d (d\<lparr>dk_main := Some f\<rparr>)"
| removes_own: "dk_main d = Some f \<Longrightarrow> mine ident p f \<Longrightarrow> moves ident life p d (d\<lparr>dk_main := None\<rparr>)"
| removes_dead: "dk_main d = Some f \<Longrightarrow> dead ident life f \<Longrightarrow> critical ident life d p g m \<Longrightarrow>
    moves ident life p d (d\<lparr>dk_main := None\<rparr>)"
| makes_mutex: "dk_mutex d g = None \<Longrightarrow> mine ident p f \<Longrightarrow> moves ident life p d (d\<lparr>dk_mutex := (dk_mutex d)(g := Some f)\<rparr>)"
| removes_mutex: "dk_mutex d g = Some f \<Longrightarrow> mine ident p f \<Longrightarrow> moves ident life p d (d\<lparr>dk_mutex := (dk_mutex d)(g := None)\<rparr>)"

lemma new_file_mine: "record_ident r = ident p \<Longrightarrow> mine ident p (new_file a r)"
  by (simp add: mine_def file_ident_def new_file_def)

lemma create_main_moves:
  assumes "create_main a r d created undo refused = (s, d')" and "record_ident r = ident p"
  shows "moves ident life p d d'"
  using assms new_file_mine[of r ident p a, OF assms(2)]
  by (auto simp: create_main_def Let_def intro: moves.intros split: if_splits write_outcome.splits)

lemma create_mutex_moves:
  assumes "create_mutex a g d created undo refused = (s, d')" and "record_ident (an_record a) = ident p"
  shows "moves ident life p d d'"
  using assms new_file_mine[of "an_record a" ident p a, OF assms(2)]
  by (auto simp: create_mutex_def Let_def intro: moves.intros split: if_splits write_outcome.splits)

lemma undo_main_moves: "dk_main d = Some f \<Longrightarrow> mine ident p f \<Longrightarrow> moves ident life p d (undo_main a f d)"
  by (auto simp: undo_main_def intro: moves.intros)

lemma undo_mutex_moves: "dk_mutex d g = Some f \<Longrightarrow> mine ident p f \<Longrightarrow> moves ident life p d (undo_mutex a g f d)"
  by (auto simp: undo_mutex_def intro: moves.intros)

lemma step_moves:
  assumes "stage_ok ident life d p s" and "record_ident (an_record a) = ident p" and "lock_step a d s = (s', d')"
  shows "moves ident life p d d'"
  using assms
  by (cases s)
    (auto simp: lock_step_def critical_def owns_def remove_main_def
      intro: moves.intros create_main_moves create_mutex_moves undo_main_moves undo_mutex_moves
      split: if_splits write_outcome.splits option.splits)

subsection \<open>From one annotation to the next\<close>

text \<open>An inspection that tells the truth finds dead only what is dead.\<close>

lemma inspection_dead:
  assumes "truthful ident life (lr_pid (lf_record f)) i" and "isDemonstrablyDead (lf_record f) i" and "born ident life f"
  shows "dead ident life f"
  unfolding dead_def
proof (intro allI impI)
  fix q assume q: "file_ident f = ident q"
  then have pid: "fst (ident q) = lr_pid (lf_record f)" "snd (ident q) = lr_processStart (lf_record f)"
    by (auto simp: file_ident_def record_ident_def prod_eq_iff)
  have "life q \<noteq> Living"
  proof
    assume "life q = Living"
    then have "i = Process_unprovable \<or> i = Process_alive (snd (ident q))"
      using assms(1) pid(1) by (simp add: truthful_def)
    then show False using assms(2) pid(2) by (auto simp: isDemonstrablyDead_def)
  qed
  then show "life q = Dead" using assms(3) q by (cases "life q") (auto simp: born_def)
qed

definition all_born :: "(nat \<Rightarrow> process_ident) \<Rightarrow> (nat \<Rightarrow> life) \<Rightarrow> disk \<Rightarrow> bool" where
  "all_born ident life d \<longleftrightarrow> (\<forall>f. on_disk d f \<longrightarrow> born ident life f)"

lemma snapshot_born: "all_born ident life d \<Longrightarrow> readSnapshot a (dk_main d) = Some f \<Longrightarrow> born ident life f"
  "all_born ident life d \<Longrightarrow> readSnapshot a (dk_mutex d g) = Some f \<Longrightarrow> born ident life f"
  by (auto simp: readSnapshot_def all_born_def on_disk_def split: option.splits if_splits)

lemma snapshot_some: "readSnapshot a file = Some f \<Longrightarrow> file = Some f" "assertSnapshot a file f \<Longrightarrow> file = Some f"
  by (auto simp: readSnapshot_def assertSnapshot_def split: option.splits if_splits)

lemma below_Suc: "below ident life d g \<Longrightarrow> dk_mutex d g = Some f \<Longrightarrow> dead ident life f \<Longrightarrow> below ident life d (Suc g)"
  by (auto simp: below_def less_Suc_eq)

lemma below_main [simp]: "below ident life (d\<lparr>dk_main := x\<rparr>) g = below ident life d g"
  "critical ident life (d\<lparr>dk_main := x\<rparr>) p g m = critical ident life d p g m"
  by (simp_all add: below_def critical_def)

lemma purpose_mutex [simp]: "purpose_ok ident (d\<lparr>dk_mutex := x\<rparr>) p u = purpose_ok ident d p u"
  "outcome_ok ident (d\<lparr>dk_mutex := x\<rparr>) p out = outcome_ok ident d p out"
  by (cases u, simp_all add: owns_def outcome_ok_def split: option.split)

lemma below_new: "below ident life d g \<Longrightarrow> below ident life (d\<lparr>dk_mutex := (dk_mutex d)(g := x)\<rparr>) g"
  by (simp add: below_def)

lemma abandon_ok: "purpose_ok ident d p u \<Longrightarrow> stage_ok ident life d p (abandon u)"
  by (cases u) simp_all

lemma cleanup_ok: "outcome_ok ident d p out \<Longrightarrow> stage_ok ident life d p (after_cleanup out)"
  by (auto simp: outcome_ok_def after_cleanup_def split: option.splits prod.splits)

lemma with_mutex_ok: "purpose_ok ident d p u \<Longrightarrow> critical ident life d p g m \<Longrightarrow> stage_ok ident life d p (with_mutex u g m)"
  by (cases u) simp_all

lemma outcome_None [simp]: "outcome_ok ident d p None" "outcome_ok ident d p (Some (h, f)) = owns ident d p h f"
  by (simp_all add: outcome_ok_def)

lemma own_new: "below ident life d g \<Longrightarrow> mine ident p f \<Longrightarrow>
    \<exists>m. critical ident life (d\<lparr>dk_mutex := (dk_mutex d)(g := Some f)\<rparr>) p g m"
  by (simp add: critical_def below_def)

lemma own_snapshot: "critical ident life d p g f \<Longrightarrow> readSnapshot a (dk_mutex d g) = Some m \<Longrightarrow> critical ident life d p g m"
  using snapshot_some(1)[of a "dk_mutex d g" m] by (simp add: critical_def)

lemma below_assert: "below ident life d g \<Longrightarrow> dead ident life f \<Longrightarrow> assertSnapshot a (dk_mutex d g) f \<Longrightarrow>
    below ident life d (Suc g)"
  by (rule below_Suc[OF _ snapshot_some(2)])

lemma critical_below: "critical ident life d p g m \<Longrightarrow> below ident life d g"
  by (simp add: critical_def)

lemma mutex_step_ok:
  assumes "stage_ok ident life d p s" and "record_ident (an_record a) = ident p" and "mutex_stage s"
    and "case inspected s of None \<Rightarrow> True | Some r \<Rightarrow> truthful ident life (lr_pid r) (an_inspection a)"
    and "all_born ident life d" and "mutex_step a d s = (s', d')"
  shows "stage_ok ident life d' p s'"
  using assms new_file_mine[of "an_record a" ident p a, OF assms(2)]
  by (cases s)
    (auto simp: create_mutex_def undo_mutex_def Let_def reads_def below_new
      intro: abandon_ok cleanup_ok with_mutex_ok own_new own_snapshot below_assert critical_below inspection_dead snapshot_born(2)
      split: if_splits write_outcome.splits option.splits)

lemma acquire_step_ok:
  assumes "stage_ok ident life d p s" and "record_ident (an_record a) = ident p"
    and "\<not> mutex_stage s" "\<not> release_stage s" "s \<noteq> Idle" "\<And>held f. s \<noteq> Owned held f"
    and "case inspected s of None \<Rightarrow> True | Some r \<Rightarrow> truthful ident life (lr_pid r) (an_inspection a)"
    and "all_born ident life d" and "acquire_step a d s = (s', d')"
  shows "stage_ok ident life d' p s'"
  using assms new_file_mine
  by (cases s)
    (auto simp: create_main_def undo_main_def remove_main_def Let_def main_is_mine_def owns_def below_def
      intro: inspection_dead snapshot_born(1) dest: snapshot_some
      split: if_splits write_outcome.splits option.splits)

lemma release_step_ok:
  assumes "stage_ok ident life d p s" and "release_stage s" and "release_step a d s = (s', d')"
  shows "stage_ok ident life d' p s'"
  using assms
  by (cases s)
    (auto simp: remove_main_def owns_def dest: snapshot_some split: if_splits write_outcome.splits)

lemma step_ok:
  assumes "stage_ok ident life d p s" and "record_ident (an_record a) = ident p"
    and "case inspected s of None \<Rightarrow> True | Some r \<Rightarrow> truthful ident life (lr_pid r) (an_inspection a)"
    and "all_born ident life d" and "lock_step a d s = (s', d')"
  shows "stage_ok ident life d' p s'"
proof (cases "s = Idle \<or> (\<exists>held f. s = Owned held f)")
  case True
  then show ?thesis using assms by (auto simp: lock_step_def below_def)
next
  case False
  then have "lock_step a d s = (if mutex_stage s then mutex_step a d s
      else if release_stage s then release_step a d s else acquire_step a d s)"
    by (cases s) (auto simp: lock_step_def)
  then show ?thesis
    using assms False mutex_step_ok[OF assms(1,2) _ assms(3,4)] release_step_ok[OF assms(1)]
      acquire_step_ok[OF assms(1,2) _ _ _ _ assms(3,4)]
    by (auto split: if_splits)
qed

subsection \<open>Interference\<close>

lemma mine_dead: "mine ident p f \<Longrightarrow> dead ident life f \<Longrightarrow> life p = Dead"
  by (simp add: mine_def dead_def)

lemma mine_unique: "inj ident \<Longrightarrow> mine ident p f \<Longrightarrow> mine ident q f \<Longrightarrow> p = q"
  by (metis mine_def injD)

text \<open>No two living processes have a mutex: the one of the lower generation would be dead for the other.\<close>

lemma critical_exclusive:
  assumes "inj ident" and "life p = Living" and "life q = Living"
    and "critical ident life d p g m" and "critical ident life d q g' m'"
  shows "p = q"
proof (cases g g' rule: linorder_cases)
  case equal
  then show ?thesis using assms by (auto simp: critical_def intro: mine_unique)
next
  case less
  then obtain f where "dk_mutex d g = Some f" "dead ident life f" using assms(5) by (auto simp: critical_def below_def)
  then show ?thesis using assms(2,4) by (auto simp: critical_def dest: mine_dead)
next
  case greater
  then obtain f where "dk_mutex d g' = Some f" "dead ident life f" using assms(4) by (auto simp: critical_def below_def)
  then show ?thesis using assms(3,5) by (auto simp: critical_def dest: mine_dead)
qed

lemma moves_below:
  assumes "moves ident life p d d'" and "life p = Living" and "below ident life d g"
  shows "below ident life d' g"
  using assms
proof cases
  case (removes_mutex i f)
  have "i \<ge> g"
  proof (rule ccontr)
    assume "\<not> i \<ge> g"
    then have "i < g" by simp
    then obtain f' where "dk_mutex d i = Some f'" "dead ident life f'" using assms(3) unfolding below_def by blast
    then show False using removes_mutex assms(2) by (auto dest: mine_dead)
  qed
  then show ?thesis using removes_mutex(1) assms(3) by (auto simp: below_def)
qed (use assms(3) in \<open>auto simp: below_def\<close>)

lemma moves_mutex:
  assumes "moves ident life p d d'" and "inj ident" and "p \<noteq> q" and "dk_mutex d g = Some f" and "mine ident q f"
  shows "dk_mutex d' g = Some f"
  using assms by cases (auto dest: mine_unique)

lemma moves_main:
  assumes "moves ident life p d d'" and "inj ident" and "p \<noteq> q" and "life q = Living" and "dk_main d = Some f" and "mine ident q f"
  shows "dk_main d' = Some f"
  using assms by cases (auto dest: mine_unique mine_dead)

lemma moves_critical:
  assumes "moves ident life p d d'" and "inj ident" and "p \<noteq> q" and "life p = Living" and "critical ident life d q g m"
  shows "critical ident life d' q g m"
  using moves_below[OF assms(1,4)] moves_mutex[OF assms(1-3)] assms(5) by (simp add: critical_def)

lemma moves_stale:
  assumes "moves ident life p d d'" and "inj ident" and "p \<noteq> q" and "life p = Living" and "life q = Living"
    and "critical ident life d q g m" and "dk_main d = Some f" and "dead ident life f"
  shows "dk_main d' = Some f"
  using assms(1)
proof cases
  case (removes_dead f' g' m')
  then show ?thesis using critical_exclusive[OF assms(2,4,5) _ assms(6)] assms(3) by blast
next
  case (removes_own f')
  then show ?thesis using assms(4,7,8) by (auto dest: mine_dead)
qed (use assms(7) in auto)

lemma moves_owns:
  assumes "moves ident life p d d'" and "inj ident" and "p \<noteq> q" and "life q = Living" and "owns ident d q held f"
  shows "owns ident d' q held f"
  using assms(5) moves_main[OF assms(1-4)] by (auto simp: owns_def)

lemma moves_main_is_mine:
  assumes "moves ident life p d d'" and "inj ident" and "p \<noteq> q" and "life q = Living" and "main_is_mine ident d q"
  shows "main_is_mine ident d' q"
  using assms(5) moves_main[OF assms(1-4)] unfolding main_is_mine_def by blast

lemma moves_purpose:
  assumes "moves ident life p d d'" and "inj ident" and "p \<noteq> q" and "life q = Living" and "purpose_ok ident d q u"
  shows "purpose_ok ident d' q u"
  using assms(5) moves_owns[OF assms(1-4)] by (cases u) simp_all

lemma moves_outcome:
  assumes "moves ident life p d d'" and "inj ident" and "p \<noteq> q" and "life q = Living" and "outcome_ok ident d q out"
  shows "outcome_ok ident d' q out"
  using assms(5) moves_owns[OF assms(1-4)] by (auto simp: outcome_ok_def split: option.splits)

lemma interference:
  assumes "moves ident life p d d'" and "inj ident" and "p \<noteq> q" and "life p = Living" and "life q = Living"
    and "stage_ok ident life d q s"
  shows "stage_ok ident life d' q s"
proof -
  note keep = moves_below[OF assms(1,4)] moves_mutex[OF assms(1-3)] moves_main[OF assms(1-3,5)]
    moves_critical[OF assms(1-4)] moves_stale[OF assms(1-5)] moves_owns[OF assms(1-3,5)]
    moves_main_is_mine[OF assms(1-3,5)] moves_purpose[OF assms(1-3,5)] moves_outcome[OF assms(1-3,5)]
  have own_main: "owns ident d q held f \<Longrightarrow> dk_main d = Some f \<Longrightarrow> dk_main d' = Some f" for held f
    using moves_main[OF assms(1-3,5)] by (auto simp: owns_def)
  show ?thesis
    using assms(6) by (cases s) (auto intro: keep own_main)
qed

subsection \<open>Births and deaths\<close>

definition older :: "(nat \<Rightarrow> life) \<Rightarrow> (nat \<Rightarrow> life) \<Rightarrow> bool" where
  "older life life' \<longleftrightarrow> (\<forall>q. (life q = Dead \<longrightarrow> life' q = Dead) \<and> (life q \<noteq> Unborn \<longrightarrow> life' q \<noteq> Unborn))"

lemma older_life:
  assumes "older life life'"
  shows "dead ident life f \<Longrightarrow> dead ident life' f" and "born ident life f \<Longrightarrow> born ident life' f"
  using assms by (auto simp: dead_def born_def older_def)

lemma older_below:
  assumes "older life life'"
  shows "below ident life d g \<Longrightarrow> below ident life' d g"
  using older_life(1)[OF assms] unfolding below_def by blast

lemma older_critical:
  assumes "older life life'"
  shows "critical ident life d p g m \<Longrightarrow> critical ident life' d p g m"
  using older_below[OF assms] unfolding critical_def by blast

lemma older_born:
  assumes "older life life'"
  shows "all_born ident life d \<Longrightarrow> all_born ident life' d"
  using older_life(2)[OF assms] unfolding all_born_def by blast

lemma older_stage:
  assumes "older life life'" and "stage_ok ident life d p s"
  shows "stage_ok ident life' d p s"
  using assms(2) by (cases s) (auto intro: older_life[OF assms(1)] older_below[OF assms(1)] older_critical[OF assms(1)])

lemma older_update: "life p = Unborn \<Longrightarrow> older life (life(p := Living))" "life p = Living \<Longrightarrow> older life (life(p := Dead))"
  by (auto simp: older_def)

subsection \<open>The invariant\<close>

definition lock_invariant :: "(nat \<Rightarrow> process_ident) \<Rightarrow> lock_world \<Rightarrow> bool" where
  "lock_invariant ident w \<longleftrightarrow> all_born ident (lw_life w) (lw_disk w)
     \<and> (\<forall>p. lw_life w p = Unborn \<longrightarrow> lw_stage w p = Idle)
     \<and> (\<forall>p. lw_life w p = Living \<longrightarrow> stage_ok ident (lw_life w) (lw_disk w) p (lw_stage w p))"

lemma moves_born:
  assumes "moves ident life p d d'" and "inj ident" and "life p = Living" and "all_born ident life d"
  shows "all_born ident life d'"
proof -
  have new: "born ident life f" if "mine ident p f" for f
    using that assms(2,3) by (auto simp: born_def mine_def dest: injD)
  show ?thesis using assms(1,4) new
    by cases (auto simp: all_born_def on_disk_def split: if_splits)
qed

lemma lock_invariant_step:
  assumes "inj ident" and "lock_invariant ident w" and "lock_world_step ident w w'"
  shows "lock_invariant ident w'"
  using assms(3)
proof cases
  case (starts p)
  have old: "older (lw_life w) ((lw_life w)(p := Living))" using starts(2) by (rule older_update)
  have "stage_ok ident ((lw_life w)(p := Living)) (lw_disk w) q (lw_stage w q)" if "lw_life w q = Living \<or> q = p" for q
    using that assms(2) starts(2) older_stage[OF old] by (auto simp: lock_invariant_def)
  then show ?thesis
    using assms(2) starts(1) older_born[OF old] by (auto simp: lock_invariant_def split: if_splits)
next
  case (dies p)
  have old: "older (lw_life w) ((lw_life w)(p := Dead))" using dies(2) by (rule older_update)
  have "stage_ok ident ((lw_life w)(p := Dead)) (lw_disk w) q (lw_stage w q)" if "lw_life w q = Living" for q
    using that assms(2) older_stage[OF old] by (auto simp: lock_invariant_def)
  then show ?thesis
    using assms(2) dies(1) older_born[OF old] by (auto simp: lock_invariant_def split: if_splits)
next
  case (proceeds p a s d)
  have inv: "all_born ident (lw_life w) (lw_disk w)" "stage_ok ident (lw_life w) (lw_disk w) p (lw_stage w p)"
    using assms(2) proceeds(2) by (auto simp: lock_invariant_def)
  have answer: "record_ident (an_record a) = ident p"
    "case inspected (lw_stage w p) of None \<Rightarrow> True | Some r \<Rightarrow> truthful ident (lw_life w) (lr_pid r) (an_inspection a)"
    using proceeds(3) by (simp_all add: admissible_def)
  have moved: "moves ident (lw_life w) p (lw_disk w) d" using step_moves[OF inv(2) answer(1) proceeds(4)] .
  have next_stage: "stage_ok ident (lw_life w) d p s" using step_ok[OF inv(2) answer inv(1) proceeds(4)] .
  have others: "stage_ok ident (lw_life w) d q (lw_stage w q)" if "q \<noteq> p" "lw_life w q = Living" for q
    using interference[OF moved assms(1) that(1)[symmetric] proceeds(2) that(2)] assms(2) that(2) by (simp add: lock_invariant_def)
  have "all_born ident (lw_life w) d" using moves_born[OF moved assms(1) proceeds(2) inv(1)] .
  then show ?thesis using assms(2) proceeds(1,2) next_stage others by (auto simp: lock_invariant_def)
qed

lemma lock_invariant_reachable:
  assumes "fresh_identities ident d" and "lock_reachable ident d w"
  shows "lock_invariant ident w"
  using assms(2)
proof induction
  case initial
  then show ?case using assms(1)
    by (auto simp: lock_invariant_def all_born_def born_def fresh_identities_def)
next
  case (later w w')
  then show ?case using assms(1) by (auto simp: fresh_identities_def intro: lock_invariant_step)
qed

end
