(* ===== verification/Process_Lock_Steps.thy ===== *)
theory Process_Lock_Steps
  imports Runtime_Lock_Safety
begin

section \<open>The process-aware lock under interference\<close>

text \<open>
  \<open>acquireProcessAwareLock\<close> and its \<open>release\<close> as programs whose accesses to the one lock file interleave.
  The lock has no mutex: a stale record is read, judged, read again and then removed by path. The world,
  the births and deaths and the truth of an inspection are those of the runtime lock; \<open>held\<close> is again
  lost only by an own removal reported as failed.
\<close>

subsection \<open>Stages\<close>

datatype aware_stage =
    Aware_idle
  | Aware_create lock_record
  | Aware_undo bool lock_record lock_file
  | Aware_exists lock_record
  | Aware_read lock_record
  | Aware_judge lock_record lock_file
  | Aware_recheck lock_record lock_file
  | Aware_remove lock_record lock_file
  | Aware_recreate lock_record
  | Aware_held bool lock_record
  | Aware_release_read bool lock_record
  | Aware_release bool lock_record

record aware_answer = answer +
  an_now :: int

text \<open>\<open>readValidatedRecord\<close> on the file.\<close>

definition read_record :: "'a answer_scheme \<Rightarrow> lock_file option \<Rightarrow> lock_file option" where
  "read_record a file = (case file of
     Some f \<Rightarrow> if reads (answer.truncate a) \<and> readValidatedRecord (lf_record f) then Some f else None | None \<Rightarrow> None)"

text \<open>\<open>create\<close> of the dependencies; the undo of a failed creation leads on to what a refusal leads to.\<close>

definition aware_create :: "aware_answer \<Rightarrow> lock_record \<Rightarrow> lock_file option \<Rightarrow> bool \<Rightarrow> aware_stage \<Rightarrow> aware_stage \<times> lock_file option" where
  "aware_create a r file again refused = (let f = \<lparr>lf_inode = an_inode a, lf_record = r\<rparr> in
     if file \<noteq> None then (refused, file)
     else case an_outcome a of
       Written \<Rightarrow> (Aware_held True r, Some f)
     | Written_then_failed \<Rightarrow> (Aware_undo again r f, Some f)
     | Not_written \<Rightarrow> (refused, file))"

fun aware_step :: "int \<Rightarrow> aware_answer \<Rightarrow> lock_file option \<Rightarrow> aware_stage \<Rightarrow> aware_stage \<times> lock_file option" where
  "aware_step staleAgeMs a file Aware_idle = (Aware_create (an_record a), file)"
| "aware_step staleAgeMs a file (Aware_create r) = aware_create a r file False (Aware_exists r)"
| "aware_step staleAgeMs a file (Aware_undo again r f) =
    (if again then Aware_idle else Aware_exists r,
     case file of Some f' \<Rightarrow> if lf_inode f' = lf_inode f \<and> an_outcome a \<noteq> Not_written then None else file | None \<Rightarrow> None)"
| "aware_step staleAgeMs a file (Aware_exists r) = (if an_outcome a = Written \<and> file \<noteq> None then Aware_read r else Aware_idle, file)"
| "aware_step staleAgeMs a file (Aware_read r) =
    (case read_record a file of Some f \<Rightarrow> Aware_judge r f | None \<Rightarrow> Aware_idle, file)"
| "aware_step staleAgeMs a file (Aware_judge r f) =
    (if canRecover (lf_record f) (an_now a) staleAgeMs (an_inspection a) then Aware_recheck r f else Aware_idle, file)"
| "aware_step staleAgeMs a file (Aware_recheck r f) = (case read_record a file of
      Some f' \<Rightarrow> if lf_record f' = lf_record f then Aware_remove r f else Aware_idle | None \<Rightarrow> Aware_idle, file)"
| "aware_step staleAgeMs a file (Aware_remove r f) =
    (if file = None then (Aware_idle, file)
     else case an_outcome a of
       Written \<Rightarrow> (Aware_recreate r, None)
     | Not_written \<Rightarrow> (Aware_idle, file)
     | Written_then_failed \<Rightarrow> (Aware_idle, None))"
| "aware_step staleAgeMs a file (Aware_recreate r) = aware_create a r file True Aware_idle"
| "aware_step staleAgeMs a file (Aware_held held r) = (Aware_release_read held r, file)"
| "aware_step staleAgeMs a file (Aware_release_read held r) = (case read_record a file of
      Some f \<Rightarrow> if lr_ownerToken (lf_record f) = lr_ownerToken r then Aware_release held r else Aware_held held r
    | None \<Rightarrow> Aware_held held r, file)"
| "aware_step staleAgeMs a file (Aware_release held r) =
    (if file = None then (Aware_held held r, file)
     else case an_outcome a of
       Written \<Rightarrow> (Aware_idle, None)
     | Not_written \<Rightarrow> (Aware_held held r, file)
     | Written_then_failed \<Rightarrow> (Aware_held False r, None))"

subsection \<open>Interleaving\<close>

record aware_world =
  aw_file :: "lock_file option"
  aw_stage :: "nat \<Rightarrow> aware_stage"
  aw_life :: "nat \<Rightarrow> life"

fun recovering :: "aware_stage \<Rightarrow> bool" where
  "recovering (Aware_recheck r f) = True"
| "recovering (Aware_remove r f) = True"
| "recovering _ = False"

fun aware_inspected :: "aware_stage \<Rightarrow> lock_record option" where
  "aware_inspected (Aware_judge r f) = Some (lf_record f)"
| "aware_inspected _ = None"

text \<open>Tokens are random: the one in a record tells which process made it, \<open>None\<close> for one from earlier.\<close>

definition aware_admissible ::
  "(nat \<Rightarrow> process_ident) \<Rightarrow> (jsstring \<Rightarrow> nat option) \<Rightarrow> aware_world \<Rightarrow> nat \<Rightarrow> aware_answer \<Rightarrow> bool" where
  "aware_admissible ident maker w p a \<longleftrightarrow> record_ident (an_record a) = ident p \<and> maker (lr_ownerToken (an_record a)) = Some p
     \<and> (case aware_inspected (aw_stage w p) of None \<Rightarrow> True
        | Some r \<Rightarrow> truthful ident (aw_life w) (lr_pid r) (an_inspection a))"

text \<open>With \<open>lone\<close>, no process starts to recover while another living one does.\<close>

definition lone_recovery :: "aware_world \<Rightarrow> nat \<Rightarrow> aware_stage \<Rightarrow> bool" where
  "lone_recovery w p s \<longleftrightarrow> (recovering s \<longrightarrow> (\<forall>q. q \<noteq> p \<longrightarrow> aw_life w q = Living \<longrightarrow> \<not> recovering (aw_stage w q)))"

inductive aware_world_step ::
  "(nat \<Rightarrow> process_ident) \<Rightarrow> (jsstring \<Rightarrow> nat option) \<Rightarrow> int \<Rightarrow> bool \<Rightarrow> aware_world \<Rightarrow> aware_world \<Rightarrow> bool"
  for ident maker staleAgeMs lone where
  aware_starts: "aw_life w p = Unborn \<Longrightarrow> \<forall>q. aw_life w q = Living \<longrightarrow> fst (ident q) \<noteq> fst (ident p) \<Longrightarrow>
    aware_world_step ident maker staleAgeMs lone w (w\<lparr>aw_life := (aw_life w)(p := Living)\<rparr>)"
| aware_proceeds: "aw_life w p = Living \<Longrightarrow> aware_admissible ident maker w p a \<Longrightarrow>
    aware_step staleAgeMs a (aw_file w) (aw_stage w p) = (s, f) \<Longrightarrow> lone \<longrightarrow> lone_recovery w p s \<Longrightarrow>
    aware_world_step ident maker staleAgeMs lone w (w\<lparr>aw_file := f, aw_stage := (aw_stage w)(p := s)\<rparr>)"
| aware_dies: "aw_life w p = Living \<Longrightarrow>
    aware_world_step ident maker staleAgeMs lone w (w\<lparr>aw_life := (aw_life w)(p := Dead)\<rparr>)"

inductive aware_reachable ::
  "(nat \<Rightarrow> process_ident) \<Rightarrow> (jsstring \<Rightarrow> nat option) \<Rightarrow> int \<Rightarrow> bool \<Rightarrow> lock_file option \<Rightarrow> aware_world \<Rightarrow> bool"
  for ident maker staleAgeMs lone left where
  aware_initial: "aware_reachable ident maker staleAgeMs lone left
    \<lparr>aw_file = left, aw_stage = \<lambda>_. Aware_idle, aw_life = \<lambda>_. Unborn\<rparr>"
| aware_later: "aware_reachable ident maker staleAgeMs lone left w \<Longrightarrow> aware_world_step ident maker staleAgeMs lone w w' \<Longrightarrow>
    aware_reachable ident maker staleAgeMs lone left w'"

text \<open>The identities are their own, and a file left behind names no process and has a token of none.\<close>

definition fresh_file :: "(nat \<Rightarrow> process_ident) \<Rightarrow> (jsstring \<Rightarrow> nat option) \<Rightarrow> lock_file option \<Rightarrow> bool" where
  "fresh_file ident maker left \<longleftrightarrow> inj ident \<and> (\<forall>f. left = Some f \<longrightarrow> (\<forall>p. file_ident f \<noteq> ident p)
     \<and> maker (lr_ownerToken (lf_record f)) = None)"

subsection \<open>Annotations\<close>

definition own_record :: "(nat \<Rightarrow> process_ident) \<Rightarrow> (jsstring \<Rightarrow> nat option) \<Rightarrow> nat \<Rightarrow> lock_record \<Rightarrow> bool" where
  "own_record ident maker p r \<longleftrightarrow> record_ident r = ident p \<and> maker (lr_ownerToken r) = Some p"

definition holds_record :: "lock_file option \<Rightarrow> lock_record \<Rightarrow> bool" where
  "holds_record file r \<longleftrightarrow> (\<exists>f. file = Some f \<and> lf_record f = r)"

fun aware_ok :: "(nat \<Rightarrow> process_ident) \<Rightarrow> (jsstring \<Rightarrow> nat option) \<Rightarrow> (nat \<Rightarrow> life) \<Rightarrow> lock_file option \<Rightarrow> nat \<Rightarrow> aware_stage \<Rightarrow> bool" where
  "aware_ok ident maker life file p Aware_idle = True"
| "aware_ok ident maker life file p (Aware_create r) = own_record ident maker p r"
| "aware_ok ident maker life file p (Aware_undo again r f) = (own_record ident maker p r \<and> file = Some f \<and> mine ident p f)"
| "aware_ok ident maker life file p (Aware_exists r) = own_record ident maker p r"
| "aware_ok ident maker life file p (Aware_read r) = own_record ident maker p r"
| "aware_ok ident maker life file p (Aware_judge r f) = (own_record ident maker p r \<and> born ident life f)"
| "aware_ok ident maker life file p (Aware_recheck r f) = (own_record ident maker p r \<and> dead ident life f)"
| "aware_ok ident maker life file p (Aware_remove r f) =
    (own_record ident maker p r \<and> dead ident life f \<and> holds_record file (lf_record f))"
| "aware_ok ident maker life file p (Aware_recreate r) = own_record ident maker p r"
| "aware_ok ident maker life file p (Aware_held held r) = (own_record ident maker p r \<and> (held \<longrightarrow> holds_record file r))"
| "aware_ok ident maker life file p (Aware_release_read held r) =
    (own_record ident maker p r \<and> (held \<longrightarrow> holds_record file r))"
| "aware_ok ident maker life file p (Aware_release held r) =
    (own_record ident maker p r \<and> (held \<longrightarrow> holds_record file r) \<and> (\<exists>f. file = Some f \<and> mine ident p f))"

text \<open>The file is of a process that was born, and its token tells the truth.\<close>

definition file_fine :: "(nat \<Rightarrow> process_ident) \<Rightarrow> (jsstring \<Rightarrow> nat option) \<Rightarrow> (nat \<Rightarrow> life) \<Rightarrow> lock_file option \<Rightarrow> bool" where
  "file_fine ident maker life file \<longleftrightarrow> (\<forall>f. file = Some f \<longrightarrow> born ident life f
     \<and> (\<forall>q. maker (lr_ownerToken (lf_record f)) = Some q \<longrightarrow> mine ident q f))"

lemma same_record_dead: "lf_record f' = lf_record f \<Longrightarrow> dead ident life f' = dead ident life f"
  "lf_record f' = lf_record f \<Longrightarrow> mine ident p f' = mine ident p f"
  by (simp_all add: dead_def mine_def file_ident_def)

lemma canRecover_dead: "canRecover r now staleAgeMs i \<Longrightarrow> isDemonstrablyDead r i"
  by (auto simp: canRecover_def split: option.splits if_splits)

lemma read_record_some: "read_record a file = Some f \<Longrightarrow> file = Some f"
  by (auto simp: read_record_def split: option.splits if_splits)

lemma aware_step_ok:
  assumes "aware_ok ident maker life file p s" and "own_record ident maker p (an_record a)"
    and "case aware_inspected s of None \<Rightarrow> True | Some r \<Rightarrow> truthful ident life (lr_pid r) (an_inspection a)"
    and "file_fine ident maker life file" and "aware_step staleAgeMs a file s = (s', file')"
  shows "aware_ok ident maker life file' p s'"
proof (cases s)
  case (Aware_judge r f)
  then show ?thesis
    using assms inspection_dead[of ident life f "an_inspection a"] canRecover_dead[of "lf_record f" "an_now a" staleAgeMs "an_inspection a"]
    by (auto split: if_splits)
next
  case (Aware_release_read held r)
  then show ?thesis
    using assms(1,4,5) read_record_some[of a "file"]
    by (auto simp: file_fine_def own_record_def split: if_splits option.splits)
next
  case (Aware_create r)
  then show ?thesis using assms(1,5)
    by (auto simp: aware_create_def Let_def holds_record_def own_record_def mine_def file_ident_def
        split: if_splits write_outcome.splits)
next
  case (Aware_recreate r)
  then show ?thesis using assms(1,5)
    by (auto simp: aware_create_def Let_def holds_record_def own_record_def mine_def file_ident_def
        split: if_splits write_outcome.splits)
next
  case (Aware_recheck r f)
  then show ?thesis using assms(1,5) read_record_some[of a "file"]
    by (auto simp: holds_record_def split: if_splits option.splits)
next
  case (Aware_read r)
  then show ?thesis using assms(1,4,5) read_record_some[of a "file"]
    by (auto simp: file_fine_def split: option.splits)
next
  case (Aware_remove r f)
  then show ?thesis using assms(1,5) by (auto split: if_splits write_outcome.splits)
next
  case (Aware_release held r)
  then show ?thesis using assms(1,5) by (auto split: if_splits write_outcome.splits)
qed (use assms in \<open>auto split: if_splits\<close>)

subsection \<open>Interference\<close>

text \<open>What a process does to the file: nothing, or it makes its own, removes its own or removes a dead one.\<close>

inductive file_moves :: "(nat \<Rightarrow> process_ident) \<Rightarrow> (jsstring \<Rightarrow> nat option) \<Rightarrow> (nat \<Rightarrow> life) \<Rightarrow> nat \<Rightarrow> bool \<Rightarrow>
    lock_file option \<Rightarrow> lock_file option \<Rightarrow> bool" for ident maker life p removing where
  file_kept: "file_moves ident maker life p removing left left"
| file_made: "own_record ident maker p (lf_record f) \<Longrightarrow> file_moves ident maker life p removing None (Some f)"
| file_own: "mine ident p f \<Longrightarrow> file_moves ident maker life p removing (Some f) None"
| file_dead: "removing \<Longrightarrow> dead ident life f \<Longrightarrow> file_moves ident maker life p removing (Some f) None"

lemma aware_create_moves:
  "aware_create a r left again refused = (s, left') \<Longrightarrow> own_record ident maker p r \<Longrightarrow> file_moves ident maker life p x left left'"
  by (auto simp: aware_create_def Let_def intro: file_moves.intros split: if_splits write_outcome.splits)

lemma aware_step_moves:
  assumes "aware_ok ident maker life left p s" and "own_record ident maker p (an_record a)"
    and "aware_step staleAgeMs a left s = (s', left')"
  shows "file_moves ident maker life p (recovering s) left left'"
proof (cases s)
  case (Aware_remove r f)
  then obtain f' where f': "left = Some f'" "lf_record f' = lf_record f" "dead ident life f"
    using assms(1) by (auto simp: holds_record_def)
  then have "dead ident life f'" using same_record_dead(1)[of f' f] by simp
  then have "file_moves ident maker life p (recovering s) left None" using f'(1) Aware_remove by (simp add: file_dead)
  moreover have "left' = left \<or> left' = None"
    using assms(3) Aware_remove f'(1) by (simp split: write_outcome.splits)
  ultimately show ?thesis by (auto intro: file_kept)
qed (use assms in \<open>auto intro: file_moves.intros aware_create_moves split: if_splits write_outcome.splits option.splits\<close>)

lemma aware_interference:
  assumes "file_moves ident maker life p x left left'" and "inj ident" and "p \<noteq> q"
    and "life p = Living" and "life q = Living" and "x \<longrightarrow> \<not> recovering s"
    and "aware_ok ident maker life left q s"
  shows "aware_ok ident maker life left' q s"
proof -
  have held: "holds_record left' r" if "holds_record left r" "own_record ident maker q r" for r
    using assms(1)
  proof cases
    case (file_own f)
    then have "mine ident q f" using that by (simp add: holds_record_def own_record_def mine_def file_ident_def)
    then show ?thesis using file_own assms(2,3) by (auto dest: mine_unique)
  next
    case (file_dead f)
    then have "mine ident q f" using that by (simp add: holds_record_def own_record_def mine_def file_ident_def)
    then show ?thesis using file_dead assms(5) by (auto dest: mine_dead)
  qed (use that in \<open>auto simp: holds_record_def\<close>)
  have own: "left' = Some f" if "left = Some f" "mine ident q f" for f
    using assms(1)
  proof cases
    case (file_own f')
    then show ?thesis using that mine_unique[OF assms(2), of p f q] assms(3) by simp
  next
    case (file_dead f')
    then show ?thesis using that mine_dead[of ident q f life] assms(5) by simp
  qed (use that in simp_all)
  have stale: "holds_record left' (lf_record f)" if "holds_record left (lf_record f)" "dead ident life f" "recovering s" for f
    using assms(1)
  proof cases
    case (file_own f')
    then have "dead ident life f'" using that same_record_dead(1)[of f' f] by (simp add: holds_record_def)
    then show ?thesis using file_own assms(4) by (auto dest: mine_dead)
  next
    case (file_dead f')
    then show ?thesis using that assms(6) by simp
  qed (use that in \<open>auto simp: holds_record_def\<close>)
  show ?thesis using assms(7)
    by (cases s) (auto intro: held own stale)
qed

subsection \<open>The invariant\<close>

definition aware_invariant :: "(nat \<Rightarrow> process_ident) \<Rightarrow> (jsstring \<Rightarrow> nat option) \<Rightarrow> aware_world \<Rightarrow> bool" where
  "aware_invariant ident maker w \<longleftrightarrow> file_fine ident maker (aw_life w) (aw_file w)
     \<and> (\<forall>p. aw_life w p = Unborn \<longrightarrow> aw_stage w p = Aware_idle)
     \<and> (\<forall>p. aw_life w p = Living \<longrightarrow> aware_ok ident maker (aw_life w) (aw_file w) p (aw_stage w p))
     \<and> (\<forall>p q. aw_life w p = Living \<longrightarrow> aw_life w q = Living \<longrightarrow> recovering (aw_stage w p) \<longrightarrow> recovering (aw_stage w q) \<longrightarrow> p = q)"

lemma older_aware:
  assumes "older life life'" and "aware_ok ident maker life left p s"
  shows "aware_ok ident maker life' left p s"
  using assms(2) by (cases s) (auto intro: older_life[OF assms(1)])

lemma older_file: "older life life' \<Longrightarrow> file_fine ident maker life left \<Longrightarrow> file_fine ident maker life' left"
  unfolding file_fine_def by (blast intro: older_life)

lemma moves_file_fine:
  assumes "file_moves ident maker life p x left left'" and "inj ident" and "life p = Living" and "file_fine ident maker life left"
  shows "file_fine ident maker life left'"
  using assms(1)
proof cases
  case (file_made f)
  have "born ident life f" if "file_ident f = ident p" using that assms(2,3) by (auto simp: born_def dest: injD)
  then show ?thesis using file_made by (auto simp: file_fine_def own_record_def mine_def file_ident_def)
qed (use assms(4) in \<open>auto simp: file_fine_def\<close>)

lemma aware_invariant_step:
  assumes "inj ident" and "aware_invariant ident maker w" and "aware_world_step ident maker staleAgeMs True w w'"
  shows "aware_invariant ident maker w'"
  using assms(3)
proof cases
  case (aware_starts p)
  have old: "older (aw_life w) ((aw_life w)(p := Living))" using aware_starts(2) by (rule older_update)
  have idle: "aw_stage w p = Aware_idle" using assms(2) aware_starts(2) by (simp add: aware_invariant_def)
  have "aware_ok ident maker ((aw_life w)(p := Living)) (aw_file w) q (aw_stage w q)" if "aw_life w q = Living \<or> q = p" for q
    using that assms(2) idle older_aware[OF old] by (auto simp: aware_invariant_def)
  moreover have "aw_life w q = Living \<or> q = p" if "((aw_life w)(p := Living)) q = Living" for q
    using that by (auto split: if_splits)
  moreover have "q \<noteq> p" if "recovering (aw_stage w q)" for q using that idle by auto
  ultimately show ?thesis
    using assms(2) aware_starts(1) older_file[OF old] unfolding aware_invariant_def by (auto split: if_splits)
next
  case (aware_dies p)
  have old: "older (aw_life w) ((aw_life w)(p := Dead))" using aware_dies(2) by (rule older_update)
  have "aware_ok ident maker ((aw_life w)(p := Dead)) (aw_file w) q (aw_stage w q)" if "aw_life w q = Living" for q
    using that assms(2) older_aware[OF old] by (auto simp: aware_invariant_def)
  then show ?thesis
    using assms(2) aware_dies(1) older_file[OF old] unfolding aware_invariant_def by (auto split: if_splits)
next
  case (aware_proceeds p a s f)
  have inv: "file_fine ident maker (aw_life w) (aw_file w)" "aware_ok ident maker (aw_life w) (aw_file w) p (aw_stage w p)"
    using assms(2) aware_proceeds(2) by (auto simp: aware_invariant_def)
  have answer: "own_record ident maker p (an_record a)"
    "case aware_inspected (aw_stage w p) of None \<Rightarrow> True | Some r \<Rightarrow> truthful ident (aw_life w) (lr_pid r) (an_inspection a)"
    using aware_proceeds(3) by (simp_all add: aware_admissible_def own_record_def)
  have moved: "file_moves ident maker (aw_life w) p (recovering (aw_stage w p)) (aw_file w) f"
    using aware_step_moves[OF inv(2) answer(1) aware_proceeds(4)] .
  have own: "aware_ok ident maker (aw_life w) f p s" using aware_step_ok[OF inv(2) answer inv(1) aware_proceeds(4)] .
  have one: "recovering (aw_stage w p) \<longrightarrow> \<not> recovering (aw_stage w q)" if "q \<noteq> p" "aw_life w q = Living" for q
    using assms(2) aware_proceeds(2) that unfolding aware_invariant_def by metis
  have others: "aware_ok ident maker (aw_life w) f q (aw_stage w q)" if "q \<noteq> p" "aw_life w q = Living" for q
    using aware_interference[OF moved assms(1) that(1)[symmetric] aware_proceeds(2) that(2) one[OF that]]
      assms(2) that(2) by (simp add: aware_invariant_def)
  have alone: "\<not> (recovering s \<and> recovering (aw_stage w q))" if "q \<noteq> p" "aw_life w q = Living" for q
    using aware_proceeds(5) that by (auto simp: lone_recovery_def)
  have fine: "file_fine ident maker (aw_life w) f" using moves_file_fine[OF moved assms(1) aware_proceeds(2) inv(1)] .
  have lone: "\<forall>q r. aw_life w q = Living \<longrightarrow> aw_life w r = Living \<longrightarrow> recovering (((aw_stage w)(p := s)) q) \<longrightarrow>
      recovering (((aw_stage w)(p := s)) r) \<longrightarrow> q = r"
  proof (intro allI impI)
    fix q r assume live: "aw_life w q = Living" "aw_life w r = Living"
      and both: "recovering (((aw_stage w)(p := s)) q)" "recovering (((aw_stage w)(p := s)) r)"
    show "q = r"
    proof (cases "q = p \<or> r = p")
      case True
      then show ?thesis using alone[of q] alone[of r] live both by (cases "q = p"; cases "r = p") auto
    next
      case False
      then have "recovering (aw_stage w q)" "recovering (aw_stage w r)" using both by simp_all
      then show ?thesis using live assms(2) unfolding aware_invariant_def by blast
    qed
  qed
  have unborn: "\<forall>q. aw_life w q = Unborn \<longrightarrow> ((aw_stage w)(p := s)) q = Aware_idle"
    using assms(2) aware_proceeds(2) by (auto simp: aware_invariant_def)
  have stages: "\<forall>q. aw_life w q = Living \<longrightarrow> aware_ok ident maker (aw_life w) f q (((aw_stage w)(p := s)) q)"
    using own others by simp
  show ?thesis unfolding aware_invariant_def aware_proceeds(1) using lone unborn stages fine by simp
qed

lemma aware_invariant_reachable:
  assumes "fresh_file ident maker left" and "aware_reachable ident maker staleAgeMs True left w"
  shows "aware_invariant ident maker w"
  using assms(2)
proof induction
  case aware_initial
  then show ?case using assms(1) by (auto simp: aware_invariant_def file_fine_def fresh_file_def born_def)
next
  case (aware_later w w')
  then show ?case using assms(1) by (auto simp: fresh_file_def intro: aware_invariant_step)
qed

end
