(* ===== verification/Lock_Properties.thy ===== *)
theory Lock_Properties
  imports Process_Lock_Steps Bridge_Examples
begin

section \<open>Properties of the locks\<close>

subsection \<open>The runtime lock\<close>

text \<open>
  C23. At most one process has the runtime lock. Whatever lock files earlier processes left, however the
  steps of any number of processes interleave, whatever accesses fail and wherever processes die: a
  living process that was given the lock and has not removed it finds its own file in place, and no
  other living process was given the lock, nor would its \<open>assertOwned\<close> succeed.
\<close>

theorem runtime_lock_is_exclusive:
  assumes "fresh_identities ident d" and "lock_reachable ident d w"
    and "lw_life w p = Living" and "lw_stage w p = Owned True f"
  shows "assertOwned (lw_disk w) (lw_stage w p) \<and> (\<forall>q. q \<noteq> p \<longrightarrow> lw_life w q = Living \<longrightarrow>
    (\<forall>g. lw_stage w q \<noteq> Owned True g) \<and> \<not> assertOwned (lw_disk w) (lw_stage w q))"
proof -
  have inj: "inj ident" using assms(1) by (simp add: fresh_identities_def)
  have inv: "stage_ok ident (lw_life w) (lw_disk w) q (lw_stage w q)" if "lw_life w q = Living" for q
    using lock_invariant_reachable[OF assms(1,2)] that by (simp add: lock_invariant_def)
  have p: "mine ident p f" "dk_main (lw_disk w) = Some f" using inv[OF assms(3)] assms(4) by (simp_all add: owns_def)
  have "q = p" if "lw_life w q = Living" "lw_stage w q = Owned held g" "dk_main (lw_disk w) = Some g" for q held g
    using inv[OF that(1)] that(2,3) p mine_unique[OF inj, of p f q] by (auto simp: owns_def)
  moreover have "dk_main (lw_disk w) = Some g" if "lw_life w q = Living" "lw_stage w q = Owned True g" for q g
    using inv[OF that(1)] that(2) by (simp add: owns_def)
  ultimately show ?thesis using assms(4) p(2) by (auto simp: assertOwned_def split: stage.splits)
qed

text \<open>A record, and one process that acquires the lock on an empty disk.\<close>

definition lock_record_of :: "process_ident \<Rightarrow> lock_record" where
  "lock_record_of i = \<lparr>lr_schemaVersion = 1, lr_pid = fst i, lr_processStart = snd i,
     lr_createdAt = sample_time 0, lr_ownerToken = replicate 48 97\<rparr>"

lemma lock_record_of_valid: "0 < fst i \<Longrightarrow> is_safe_integer (fst i) \<Longrightarrow> snd i \<noteq> [] \<Longrightarrow> parseRecord (lock_record_of i)"
  using sample_time_canonical[of 0]
  by (auto simp: parseRecord_def record_shape_def lock_record_of_def lower_hex_def list_all_replicate_iff is_canonical_timestamp_def
      simp del: sample_time_canonical split: option.splits)

definition ident_of :: "nat \<Rightarrow> process_ident" where
  "ident_of p = (2 * int p + 1, js ''17'')"

definition empty_disk :: disk where
  "empty_disk = \<lparr>dk_main = None, dk_mutex = \<lambda>_. None\<rparr>"

definition plain_answer :: "lock_record \<Rightarrow> nat \<Rightarrow> process_inspection \<Rightarrow> answer" where
  "plain_answer r i v = \<lparr>an_outcome = Written, an_record = r, an_inode = i, an_inspection = v\<rparr>"

lemma ident_of_fresh: "fresh_identities ident_of empty_disk"
  by (auto simp: fresh_identities_def inj_def ident_of_def on_disk_def empty_disk_def)

lemma record_ident_of [simp]: "record_ident (lock_record_of i) = i"
  by (simp add: record_ident_def lock_record_of_def)

text \<open>One step of the only living process, at a stage where nothing is inspected.\<close>

lemma lone_step:
  assumes "lock_reachable ident d w" and "lw_life w p = Living" and "inspected (lw_stage w p) = None"
    and "record_ident r = ident p" and "lock_step (plain_answer r i v) (lw_disk w) (lw_stage w p) = (s, d')"
  shows "lock_reachable ident d (w\<lparr>lw_disk := d', lw_stage := (lw_stage w)(p := s)\<rparr>)"
  using assms by (intro later[OF assms(1)] proceeds[where a = "plain_answer r i v"]) (simp_all add: admissible_def plain_answer_def)

definition first_file :: lock_file where
  "first_file = \<lparr>lf_inode = 7, lf_record = lock_record_of (ident_of 0)\<rparr>"

lemma first_owner:
  "\<exists>w. lock_reachable ident_of empty_disk w \<and> lw_life w 0 = Living \<and> lw_stage w 0 = Owned True first_file"
proof -
  let ?r = "lock_record_of (ident_of 0)"
  let ?a = "plain_answer ?r 7 Process_unprovable"
  let ?w0 = "\<lparr>lw_disk = empty_disk, lw_stage = \<lambda>_. Idle, lw_life = (\<lambda>_. Unborn)(0 := Living)\<rparr>"
  have valid: "parseRecord ?r" by (rule lock_record_of_valid) (simp_all add: ident_of_def is_safe_integer_def)
  have "lock_reachable ident_of empty_disk ?w0"
    using later[OF initial starts[of _ 0 ident_of], of empty_disk] by simp
  from lone_step[OF this, of 0 ?r 7 Process_unprovable "Fast_check ?r" empty_disk]
  have "lock_reachable ident_of empty_disk (?w0\<lparr>lw_stage := (\<lambda>_. Idle)(0 := Fast_check ?r)\<rparr>)"
    by (simp add: lock_step_def plain_answer_def)
  from lone_step[OF this, of 0 ?r 7 Process_unprovable "Fast_create ?r" empty_disk]
  have "lock_reachable ident_of empty_disk (?w0\<lparr>lw_stage := (\<lambda>_. Idle)(0 := Fast_create ?r)\<rparr>)"
    by (simp add: lock_step_def plain_answer_def reads_def empty_disk_def)
  from lone_step[OF this, of 0 ?r 7 Process_unprovable "Fast_read ?r" "empty_disk\<lparr>dk_main := Some first_file\<rparr>"]
  have "lock_reachable ident_of empty_disk (?w0\<lparr>lw_disk := empty_disk\<lparr>dk_main := Some first_file\<rparr>,
      lw_stage := (\<lambda>_. Idle)(0 := Fast_read ?r)\<rparr>)"
    by (simp add: lock_step_def plain_answer_def create_main_def Let_def empty_disk_def new_file_def first_file_def)
  from lone_step[OF this, of 0 ?r 7 Process_unprovable "Owned True first_file" "empty_disk\<lparr>dk_main := Some first_file\<rparr>"] valid
  have "lock_reachable ident_of empty_disk (?w0\<lparr>lw_disk := empty_disk\<lparr>dk_main := Some first_file\<rparr>,
      lw_stage := (\<lambda>_. Idle)(0 := Owned True first_file)\<rparr>)"
    by (simp add: lock_step_def plain_answer_def readSnapshot_def reads_def first_file_def)
  then show ?thesis by (intro exI conjI) (assumption, simp_all)
qed

theorem runtime_lock_is_exclusive_witness:
  "\<exists>w. lock_reachable ident_of empty_disk w \<and> assertOwned (lw_disk w) (lw_stage w 0)"
proof -
  obtain w where w: "lock_reachable ident_of empty_disk w" "lw_life w 0 = Living" "lw_stage w 0 = Owned True first_file"
    using first_owner by blast
  from runtime_lock_is_exclusive[OF ident_of_fresh w] w(1) show ?thesis by blast
qed

subsection \<open>Stale locks do not block\<close>

text \<open>A process whose accesses succeed and whose inspections answer \<open>insp\<close>, from one stage to the next. What
  \<open>createLockRecord\<close> makes and the inode the file system gives are, at each stage, whatever \<open>made\<close> says: the
  record of a takeover mutex has an owner token of its own, its file an inode of its own.\<close>

type_synonym makes = "stage \<Rightarrow> lock_record \<times> nat"

definition solo :: "(int \<Rightarrow> process_inspection) \<Rightarrow> makes \<Rightarrow> stage \<times> disk \<Rightarrow> stage \<times> disk" where
  "solo insp made = (\<lambda>(s, d). lock_step (plain_answer (fst (made s)) (snd (made s)) (case inspected s of
     None \<Rightarrow> Process_unprovable | Some r' \<Rightarrow> insp (lr_pid r'))) d s)"

definition gets_to :: "(int \<Rightarrow> process_inspection) \<Rightarrow> makes \<Rightarrow> stage \<times> disk \<Rightarrow> stage \<times> disk \<Rightarrow> bool" where
  "gets_to insp made x y \<longleftrightarrow> (\<exists>n. (solo insp made ^^ n) x = y)"

lemma gets_to_refl: "gets_to insp made x x"
  by (auto simp: gets_to_def intro: exI[of _ 0])

lemma gets_to_step: "solo insp made x = x' \<Longrightarrow> gets_to insp made x' y \<Longrightarrow> gets_to insp made x y"
  unfolding gets_to_def by (metis comp_apply funpow_Suc_right)

lemma gets_to_trans:
  assumes "gets_to insp made x y" and "gets_to insp made y z"
  shows "gets_to insp made x z"
proof -
  obtain m n where "(solo insp made ^^ m) x = y" "(solo insp made ^^ n) y = z" using assms by (auto simp: gets_to_def)
  then have "(solo insp made ^^ (n + m)) x = z" by (simp add: funpow_add)
  then show ?thesis unfolding gets_to_def by blast
qed

definition stale_file :: "(int \<Rightarrow> process_inspection) \<Rightarrow> lock_file \<Rightarrow> bool" where
  "stale_file insp f \<longleftrightarrow> parseRecord (lf_record f) \<and> isDemonstrablyDead (lf_record f) (insp (lr_pid (lf_record f)))"

lemmas solo_simps = solo_def lock_step_def plain_answer_def reads_def readSnapshot_def assertSnapshot_def stale_file_def
  create_main_def create_mutex_def remove_main_def new_file_def Let_def

text \<open>Past a stale mutex.\<close>

lemma past_mutex:
  assumes "dk_mutex d g = Some f" and "stale_file insp f"
  shows "gets_to insp made (Mutex_create u g, d) (Mutex_create u (Suc g), d)"
proof -
  have "gets_to insp made (Mutex_assert u g f, d) (Mutex_create u (Suc g), d)"
    by (rule gets_to_step[OF _ gets_to_refl]) (use assms in \<open>simp add: solo_simps\<close>)
  then have "gets_to insp made (Mutex_judge u g f, d) (Mutex_create u (Suc g), d)"
    by (rule gets_to_step[rotated]) (use assms in \<open>simp add: solo_simps\<close>)
  then have "gets_to insp made (Mutex_read u g, d) (Mutex_create u (Suc g), d)"
    by (rule gets_to_step[rotated]) (use assms in \<open>simp add: solo_simps\<close>)
  then have "gets_to insp made (Mutex_evidence u g, d) (Mutex_create u (Suc g), d)"
    by (rule gets_to_step[rotated]) (use assms in \<open>simp add: solo_simps\<close>)
  then show ?thesis
    by (rule gets_to_step[rotated]) (use assms in \<open>simp add: solo_simps\<close>)
qed

lemma past_chain:
  assumes "\<forall>i < g. \<exists>f. dk_mutex d i = Some f \<and> stale_file insp f"
  shows "gets_to insp made (Mutex_create u 0, d) (Mutex_create u g, d)"
  using assms
proof (induction g)
  case (Suc g)
  then obtain f where "dk_mutex d g = Some f" "stale_file insp f" by blast
  from past_mutex[OF this] Suc show ?case by (auto intro: gets_to_trans)
qed (rule gets_to_refl)

text \<open>With the mutex, a free main file is taken and the mutex cleaned up.\<close>

lemma takes_main:
  assumes "dk_main d = None" and "parseRecord r" and "dk_mutex d g = Some m" and "parseRecord (lf_record m)"
  shows "\<exists>f d'. gets_to insp made (Again_mutex r g m, d) (Owned True f, d') \<and> dk_main d' = Some f \<and> lf_record f = r"
proof -
  let ?f = "\<lparr>lf_inode = snd (made (Main_create r g m)), lf_record = r\<rparr>"
  let ?d = "d\<lparr>dk_main := Some ?f\<rparr>"
  let ?d' = "?d\<lparr>dk_mutex := (dk_mutex d)(g := None)\<rparr>"
  let ?goal = "(Owned True ?f, ?d')"
  have "gets_to insp made (Clean_remove (Some (True, ?f)) g m, ?d) ?goal"
    by (rule gets_to_step[OF _ gets_to_refl]) (use assms in \<open>simp add: solo_simps after_cleanup_def\<close>)
  then have "gets_to insp made (Clean_check (Some (True, ?f)) g m, ?d) ?goal"
    by (rule gets_to_step[rotated]) (use assms in \<open>simp add: solo_simps\<close>)
  then have "gets_to insp made (Created_read r g m, ?d) ?goal"
    by (rule gets_to_step[rotated]) (use assms in \<open>simp add: solo_simps sameOwner_def\<close>)
  then have "gets_to insp made (Created_mutex r g m, ?d) ?goal"
    by (rule gets_to_step[rotated]) (use assms in \<open>simp add: solo_simps\<close>)
  then have "gets_to insp made (Main_create r g m, d) ?goal"
    by (rule gets_to_step[rotated]) (use assms in \<open>simp add: solo_simps\<close>)
  then have "gets_to insp made (Again_mutex r g m, d) ?goal"
    by (rule gets_to_step[rotated]) (use assms in \<open>simp add: solo_simps\<close>)
  then show ?thesis by (intro exI[of _ ?f] exI[of _ ?d']) simp
qed

text \<open>A stale main file is removed first.\<close>

lemma clears_main:
  assumes "dk_main d = Some f" and "stale_file insp f" and "dk_mutex d g = Some m" and "parseRecord (lf_record m)"
  shows "gets_to insp made (Main_evidence r g m, d) (Again_mutex r g m, d\<lparr>dk_main := None\<rparr>)"
proof -
  let ?goal = "(Again_mutex r g m, d\<lparr>dk_main := None\<rparr>)"
  have "gets_to insp made (Main_remove r g m f, d) ?goal"
    by (rule gets_to_step[OF _ gets_to_refl]) (use assms in \<open>simp add: solo_simps\<close>)
  then have "gets_to insp made (Main_mutex r g m f, d) ?goal"
    by (rule gets_to_step[rotated]) (use assms in \<open>simp add: solo_simps\<close>)
  then have "gets_to insp made (Main_assert r g m f, d) ?goal"
    by (rule gets_to_step[rotated]) (use assms in \<open>simp add: solo_simps\<close>)
  then have "gets_to insp made (Main_judge r g m f, d) ?goal"
    by (rule gets_to_step[rotated]) (use assms in \<open>simp add: solo_simps\<close>)
  then have "gets_to insp made (Main_read r g m, d) ?goal"
    by (rule gets_to_step[rotated]) (use assms in \<open>simp add: solo_simps\<close>)
  then show ?thesis
    by (rule gets_to_step[rotated]) (use assms in \<open>simp add: solo_simps\<close>)
qed

definition reaches_ownership :: "(int \<Rightarrow> process_inspection) \<Rightarrow> makes \<Rightarrow> lock_record \<Rightarrow> stage \<times> disk \<Rightarrow> bool" where
  "reaches_ownership insp made r x \<longleftrightarrow> (\<exists>f d'. gets_to insp made x (Owned True f, d')
     \<and> dk_main d' = Some f \<and> lf_record f = r)"

lemma ownership_via: "gets_to insp made x y \<Longrightarrow> reaches_ownership insp made r y \<Longrightarrow> reaches_ownership insp made r x"
  unfolding reaches_ownership_def by (blast intro: gets_to_trans)

lemma ownership_step: "solo insp made x = y \<Longrightarrow> reaches_ownership insp made r y \<Longrightarrow> reaches_ownership insp made r x"
  by (rule ownership_via[OF gets_to_step[OF _ gets_to_refl]])

lemma takes_over:
  assumes "\<forall>s. parseRecord (fst (made s))" and "parseRecord r"
    and "dk_main d = None \<or> (\<exists>f. dk_main d = Some f \<and> stale_file insp f)" and "dk_mutex d g = None"
  shows "reaches_ownership insp made r (Mutex_create (Take_over r) g, d)"
proof -
  let ?at = "made (Mutex_create (Take_over r) g)"
  let ?m = "\<lparr>lf_inode = snd ?at, lf_record = fst ?at\<rparr>"
  let ?d = "d\<lparr>dk_mutex := (dk_mutex d)(g := Some ?m)\<rparr>"
  have "reaches_ownership insp made r (Main_evidence r g ?m, ?d)"
  proof (cases "dk_main d")
    case None
    have "reaches_ownership insp made r (Again_mutex r g ?m, ?d)"
      unfolding reaches_ownership_def by (rule takes_main) (use None assms(1,2) in simp_all)
    then show ?thesis by (rule ownership_step[rotated]) (use None in \<open>simp add: solo_simps\<close>)
  next
    case (Some f)
    then have "stale_file insp f" using assms(3) by auto
    then have "gets_to insp made (Main_evidence r g ?m, ?d) (Again_mutex r g ?m, ?d\<lparr>dk_main := None\<rparr>)"
      using Some assms(1) by (intro clears_main) simp_all
    moreover have "reaches_ownership insp made r (Again_mutex r g ?m, ?d\<lparr>dk_main := None\<rparr>)"
      unfolding reaches_ownership_def by (rule takes_main) (use assms(1,2) in simp_all)
    ultimately show ?thesis by (rule ownership_via)
  qed
  then have "reaches_ownership insp made r (Mutex_own (Take_over r) g, ?d)"
    by (rule ownership_step[rotated]) (use assms(1) in \<open>simp add: solo_simps\<close>)
  then show ?thesis
    by (rule ownership_step[rotated]) (use assms(4) in \<open>simp add: solo_simps\<close>)
qed

lemma chain_end:
  fixes mutex :: "nat \<Rightarrow> lock_file option"
  assumes "mutex n = None"
  shows "\<exists>g. mutex g = None \<and> (\<forall>i < g. mutex i \<noteq> None)"
  using assms by (intro exI[of _ "LEAST g. mutex g = None"]) (auto intro: LeastI dest: not_less_Least)

text \<open>
  C24. Lock files of dead processes never block a start: where every file on the disk is a record whose
  process is found dead and the chain of takeover mutexes has an end, a process that runs alone gets the
  lock after finitely many steps, with the record it made at first in the main file, whatever valid records
  it makes for the takeover mutexes and whatever inodes its files get.
\<close>

theorem dead_processes_never_block:
  assumes "\<forall>f. on_disk d f \<longrightarrow> stale_file insp f" and "dk_mutex d n = None" and "\<forall>s. parseRecord (fst (made s))"
  shows "\<exists>steps f d'. (solo insp made ^^ steps) (Idle, d) = (Owned True f, d')
    \<and> lf_record f = fst (made Idle) \<and> assertOwned d' (Owned True f)"
proof -
  let ?r = "fst (made Idle)"
  have r: "parseRecord ?r" using assms(3) by simp
  obtain g where g: "dk_mutex d g = None" "\<forall>j < g. dk_mutex d j \<noteq> None" using chain_end[of "dk_mutex d" n, OF assms(2)] by blast
  have chain: "\<forall>j < g. \<exists>f. dk_mutex d j = Some f \<and> stale_file insp f"
    using g(2) assms(1) by (fastforce simp: on_disk_def)
  have main: "dk_main d = None \<or> (\<exists>f. dk_main d = Some f \<and> stale_file insp f)"
    using assms(1) by (cases "dk_main d") (auto simp: on_disk_def)
  have over: "reaches_ownership insp made ?r (Mutex_create (Take_over ?r) 0, d)"
    using past_chain[OF chain] takes_over[OF assms(3) r main g(1)] by (rule ownership_via)
  have "reaches_ownership insp made ?r (Fast_check ?r, d)"
  proof (cases "dk_mutex d 0")
    case (Some f)
    show ?thesis by (rule ownership_step[OF _ over]) (simp add: solo_simps Some)
  next
    case None
    have "reaches_ownership insp made ?r (Fast_create ?r, d)"
    proof (cases "dk_main d")
      case (Some f)
      have "reaches_ownership insp made ?r (Fast_main ?r, d)"
        by (rule ownership_step[OF _ over]) (simp add: solo_simps Some)
      then show ?thesis by (rule ownership_step[rotated]) (simp add: solo_simps Some)
    next
      case None
      let ?f = "\<lparr>lf_inode = snd (made (Fast_create ?r)), lf_record = ?r\<rparr>"
      have "reaches_ownership insp made ?r (Owned True ?f, d\<lparr>dk_main := Some ?f\<rparr>)"
        unfolding reaches_ownership_def
        by (intro exI[of _ ?f] exI[of _ "d\<lparr>dk_main := Some ?f\<rparr>"]) (simp add: gets_to_refl)
      then have "reaches_ownership insp made ?r (Fast_read ?r, d\<lparr>dk_main := Some ?f\<rparr>)"
        by (rule ownership_step[rotated]) (use r in \<open>simp add: solo_simps\<close>)
      then show ?thesis by (rule ownership_step[rotated]) (simp add: solo_simps None)
    qed
    then show ?thesis by (rule ownership_step[rotated]) (simp add: solo_simps None)
  qed
  then have "reaches_ownership insp made ?r (Idle, d)"
    by (rule ownership_step[rotated]) (simp add: solo_simps)
  then show ?thesis by (auto simp: reaches_ownership_def gets_to_def assertOwned_def)
qed

text \<open>A crash during a takeover: the old main file and a mutex of another dead process.\<close>

definition crashed_disk :: disk where
  "crashed_disk = \<lparr>dk_main = Some \<lparr>lf_inode = 1, lf_record = lock_record_of (1, js ''5'')\<rparr>,
     dk_mutex = (\<lambda>_. None)(0 := Some \<lparr>lf_inode = 2, lf_record = lock_record_of (2, js ''6'')\<rparr>)\<rparr>"

text \<open>The main file and each takeover mutex get a token and an inode of their own.\<close>

definition takeover_makes :: makes where
  "takeover_makes s = (case s of
     Mutex_create p g \<Rightarrow> ((lock_record_of (3, js ''7''))\<lparr>lr_ownerToken := replicate 48 98\<rparr>, 10 + g)
   | _ \<Rightarrow> (lock_record_of (3, js ''7''), 9))"

lemma takeover_makes_valid: "parseRecord (fst (takeover_makes s))"
proof -
  have r: "parseRecord (lock_record_of (3, js ''7''))"
    by (rule lock_record_of_valid) (simp_all add: is_safe_integer_def)
  then have "parseRecord ((lock_record_of (3, js ''7''))\<lparr>lr_ownerToken := replicate 48 98\<rparr>)"
    by (simp add: parseRecord_def record_shape_def lower_hex_def list_all_replicate_iff)
  with r show ?thesis by (cases s) (simp_all add: takeover_makes_def)
qed

theorem dead_processes_never_block_witness:
  "\<exists>steps f d'. (solo (\<lambda>_. Process_absent) takeover_makes ^^ steps) (Idle, crashed_disk) = (Owned True f, d')
    \<and> lf_record f = fst (takeover_makes Idle) \<and> assertOwned d' (Owned True f)"
proof (rule dead_processes_never_block)
  show "\<forall>f. on_disk crashed_disk f \<longrightarrow> stale_file (\<lambda>_. Process_absent) f"
    by (auto simp: on_disk_def crashed_disk_def stale_file_def isDemonstrablyDead_def is_safe_integer_def
        intro!: lock_record_of_valid split: if_splits)
  show "dk_mutex crashed_disk 1 = None" by (simp add: crashed_disk_def)
  show "\<forall>s. parseRecord (fst (takeover_makes s))" using takeover_makes_valid by blast
qed

subsection \<open>The process-aware lock\<close>

text \<open>
  C25. As long as no two living processes recover a stale record at once, the process-aware lock is
  exclusive: a living process that was given it and has not removed it finds its record in the file, and
  no other living process was given it.
\<close>

theorem lone_recovery_is_exclusive:
  assumes "fresh_file ident maker left" and "aware_reachable ident maker staleAgeMs True left w"
    and "aw_life w p = Living" and "aw_stage w p = Aware_held True r"
  shows "holds_record (aw_file w) r \<and> (\<forall>q r'. q \<noteq> p \<longrightarrow> aw_life w q = Living \<longrightarrow> aw_stage w q \<noteq> Aware_held True r')"
proof -
  have inj: "inj ident" using assms(1) by (simp add: fresh_file_def)
  have held: "holds_record (aw_file w) r' \<and> record_ident r' = ident q"
    if "aw_life w q = Living" "aw_stage w q = Aware_held True r'" for q r'
    using aware_invariant_reachable[OF assms(1,2)] that by (auto simp: aware_invariant_def own_record_def)
  have "q = p" if "aw_life w q = Living" "aw_stage w q = Aware_held True r'" for q r'
    using held[OF that] held[OF assms(3,4)] injD[OF inj, of q p] by (auto simp: holds_record_def)
  then show ?thesis using held[OF assms(3,4)] by blast
qed

text \<open>Two processes, their tokens, and a record of a process that is gone.\<close>

definition token_of :: "nat \<Rightarrow> jsstring" where
  "token_of p = replicate 48 (if p = 0 then 98 else 99)"

definition maker_of :: "jsstring \<Rightarrow> nat option" where
  "maker_of t = (if t = token_of 0 then Some 0 else if t = token_of 1 then Some 1 else None)"

definition aware_record :: "nat \<Rightarrow> lock_record" where
  "aware_record p = (lock_record_of (ident_of p))\<lparr>lr_ownerToken := token_of p\<rparr>"

definition stale_left :: lock_file where
  "stale_left = \<lparr>lf_inode = 0, lf_record = lock_record_of (2, js ''5'')\<rparr>"

definition aware_answer_of :: "nat \<Rightarrow> aware_answer" where
  "aware_answer_of p = \<lparr>an_outcome = Written, an_record = aware_record p, an_inode = p + 1,
     an_inspection = Process_absent, an_now = sample_instant + DEFAULT_STALE_LOCK_AGE_MS\<rparr>"

text \<open>One step of a process where the inspection, if any, is of an even process identifier.\<close>

definition aware_turn :: "aware_world \<Rightarrow> nat \<Rightarrow> aware_world option" where
  "aware_turn w p = (if aw_life w p = Living \<and> p < 2
      \<and> (case aware_inspected (aw_stage w p) of None \<Rightarrow> True | Some r \<Rightarrow> even (lr_pid r))
     then (case aware_step DEFAULT_STALE_LOCK_AGE_MS (aware_answer_of p) (aw_file w) (aw_stage w p) of
       (s, f) \<Rightarrow> Some (w\<lparr>aw_file := f, aw_stage := (aw_stage w)(p := s)\<rparr>))
     else None)"

fun aware_turns :: "nat list \<Rightarrow> aware_world \<Rightarrow> aware_world option" where
  "aware_turns [] w = Some w"
| "aware_turns (p # ps) w = (case aware_turn w p of None \<Rightarrow> None | Some w' \<Rightarrow> aware_turns ps w')"

abbreviation pair_reachable :: "bool \<Rightarrow> aware_world \<Rightarrow> bool" where
  "pair_reachable lone \<equiv> aware_reachable ident_of maker_of DEFAULT_STALE_LOCK_AGE_MS lone (Some stale_left)"

lemma aware_record_own: "p < 2 \<Longrightarrow> own_record ident_of maker_of p (aware_record p)"
  by (auto simp: own_record_def aware_record_def record_ident_def lock_record_of_def maker_of_def token_of_def less_2_cases_iff)

lemma aware_turn_reachable:
  assumes "pair_reachable lone w" and "aware_turn w p = Some w'" and "lone \<longrightarrow> (\<forall>q. q \<noteq> p \<longrightarrow> aw_life w q \<noteq> Living)"
  shows "pair_reachable lone w' \<and> aw_life w' = aw_life w"
proof -
  obtain s f where step: "aware_step DEFAULT_STALE_LOCK_AGE_MS (aware_answer_of p) (aw_file w) (aw_stage w p) = (s, f)"
    by fastforce
  then have w': "w' = w\<lparr>aw_file := f, aw_stage := (aw_stage w)(p := s)\<rparr>" "aw_life w p = Living" "p < 2"
    and even: "case aware_inspected (aw_stage w p) of None \<Rightarrow> True | Some r \<Rightarrow> even (lr_pid r)"
    using assms(2) by (auto simp: aware_turn_def split: if_splits)
  have "truthful ident_of (aw_life w) pid Process_absent" if "even pid" for pid
    using that by (auto simp: truthful_def ident_of_def)
  then have "aware_admissible ident_of maker_of w p (aware_answer_of p)"
    using even aware_record_own[OF w'(3)]
    by (auto simp: aware_admissible_def aware_answer_of_def own_record_def split: option.splits)
  moreover have "lone \<longrightarrow> lone_recovery w p s" using assms(3) by (simp add: lone_recovery_def)
  ultimately show ?thesis using aware_later[OF assms(1) aware_proceeds[OF w'(2) _ step]] by (simp add: w'(1))
qed

lemma aware_turns_reachable:
  assumes "pair_reachable lone w" and "aware_turns ps w = Some w'"
    and "lone \<longrightarrow> (\<forall>p q. p \<in> set ps \<longrightarrow> q \<noteq> p \<longrightarrow> aw_life w q \<noteq> Living)"
  shows "pair_reachable lone w'"
  using assms
proof (induction ps arbitrary: w)
  case (Cons p ps)
  then obtain v where v: "aware_turn w p = Some v" "aware_turns ps v = Some w'" by (auto split: option.splits)
  have "pair_reachable lone v \<and> aw_life v = aw_life w"
    using aware_turn_reachable[OF Cons.prems(1) v(1)] Cons.prems(3) by simp
  then show ?case using Cons.IH[of v] v(2) Cons.prems(3) by simp
qed simp

definition pair_world :: aware_world where
  "pair_world = \<lparr>aw_file = Some stale_left, aw_stage = \<lambda>_. Aware_idle, aw_life = (\<lambda>_. Unborn)(0 := Living, 1 := Living)\<rparr>"

lemma pair_world_reachable: "pair_reachable lone pair_world"
proof -
  have "pair_reachable lone \<lparr>aw_file = Some stale_left, aw_stage = \<lambda>_. Aware_idle, aw_life = (\<lambda>_. Unborn)(0 := Living)\<rparr>"
    using aware_later[OF aware_initial aware_starts[of _ 0]] by fastforce
  from aware_later[OF this aware_starts[of _ 1]] show ?thesis
    by (fastforce simp: pair_world_def ident_of_def)
qed

lemma sample_parse: "date_parse (sample_time 0) = Some sample_instant"
  using date_parse_canonical[of "sample_time 0"] by simp

lemma stale_readable: "readValidatedRecord (lf_record stale_left)"
  by (simp add: readValidatedRecord_def record_shape_def stale_left_def lock_record_of_def is_safe_integer_def
      lower_hex_def list_all_replicate_iff sample_parse)

lemma stale_even: "even (lr_pid (lf_record stale_left))"
  by (simp add: stale_left_def lock_record_of_def)

lemma stale_recoverable:
  "canRecover (lf_record stale_left) (sample_instant + DEFAULT_STALE_LOCK_AGE_MS) DEFAULT_STALE_LOCK_AGE_MS Process_absent"
  by (simp add: canRecover_def stale_left_def lock_record_of_def sample_parse isDemonstrablyDead_def)

lemma turns_append: "aware_turns (xs @ ys) w = (case aware_turns xs w of None \<Rightarrow> None | Some w' \<Rightarrow> aware_turns ys w')"
  by (induction xs arbitrary: w) (auto split: option.splits)

lemma turns_to_removal:
  assumes "aw_file w = Some stale_left" and "aw_life w p = Living" and "p < 2" and "aw_stage w p = Aware_idle"
  shows "aware_turns (replicate 6 p) w = Some (w\<lparr>aw_stage := (aw_stage w)(p := Aware_remove (aware_record p) stale_left)\<rparr>)"
  using assms stale_readable stale_recoverable stale_even
  by (simp add: eval_nat_numeral aware_turn_def aware_answer_of_def aware_create_def read_record_def reads_def answer.defs)

lemma turns_past_removal:
  assumes "aw_file w = Some left" and "aw_life w p = Living" and "p < 2" and "aw_stage w p = Aware_remove (aware_record p) stale_left"
  shows "aware_turns [p, p] w = Some (w\<lparr>aw_file := Some \<lparr>lf_inode = p + 1, lf_record = aware_record p\<rparr>,
    aw_stage := (aw_stage w)(p := Aware_held True (aware_record p))\<rparr>)"
  using assms by (simp add: aware_turn_def aware_answer_of_def aware_create_def Let_def)

text \<open>A process that recovers alone.\<close>

definition single_world :: aware_world where
  "single_world = \<lparr>aw_file = Some stale_left, aw_stage = \<lambda>_. Aware_idle, aw_life = (\<lambda>_. Unborn)(0 := Living)\<rparr>"

lemma single_world_reachable: "pair_reachable lone single_world"
  using aware_later[OF aware_initial aware_starts[of _ 0]] unfolding single_world_def by fastforce

lemma pair_fresh: "fresh_file ident_of maker_of (Some stale_left)"
proof -
  have "file_ident stale_left \<noteq> ident_of p" for p
    by (simp add: file_ident_def record_ident_of stale_left_def ident_of_def)
  then show ?thesis
    by (auto simp: fresh_file_def inj_def ident_of_def stale_left_def lock_record_of_def maker_of_def token_of_def)
qed

theorem lone_recovery_is_exclusive_witness:
  "\<exists>w. pair_reachable True w \<and> aw_stage w 0 = Aware_held True (aware_record 0) \<and> holds_record (aw_file w) (aware_record 0)"
proof -
  let ?v = "single_world\<lparr>aw_stage := (aw_stage single_world)(0 := Aware_remove (aware_record 0) stale_left)\<rparr>"
  let ?w = "?v\<lparr>aw_file := Some \<lparr>lf_inode = 0 + 1, lf_record = aware_record 0\<rparr>,
    aw_stage := (aw_stage ?v)(0 := Aware_held True (aware_record 0))\<rparr>"
  have "aware_turns (replicate 6 0) single_world = Some ?v"
    by (rule turns_to_removal) (simp_all add: single_world_def)
  moreover have "aware_turns [0, 0] ?v = Some ?w" by (rule turns_past_removal[of _ stale_left]) (simp_all add: single_world_def)
  ultimately have "aware_turns (replicate 6 0 @ [0, 0]) single_world = Some ?w" by (simp add: turns_append)
  from aware_turns_reachable[OF single_world_reachable this, of True]
  have w: "pair_reachable True ?w" by (simp add: single_world_def)
  from lone_recovery_is_exclusive[OF pair_fresh this, of 0 "aware_record 0"]
  have "holds_record (aw_file ?w) (aware_record 0)" by (simp add: single_world_def)
  then show ?thesis using w by (intro exI[of _ ?w]) simp
qed

text \<open>
  C37. Two processes that recover the same stale record at once can both be given the process-aware lock:
  the record is removed by path after it was read again, so the second removes the record the first has
  just made. Both callers then go on, and the file holds the second record only.
\<close>

theorem concurrent_recoveries_admit_two_holders:
  "\<exists>w. pair_reachable False w \<and> aw_life w 0 = Living \<and> aw_life w 1 = Living
     \<and> aw_stage w 0 = Aware_held True (aware_record 0) \<and> aw_stage w 1 = Aware_held True (aware_record 1)
     \<and> aw_file w = Some \<lparr>lf_inode = 2, lf_record = aware_record 1\<rparr>"
proof -
  let ?a = "pair_world\<lparr>aw_stage := (aw_stage pair_world)(0 := Aware_remove (aware_record 0) stale_left)\<rparr>"
  let ?b = "?a\<lparr>aw_stage := (aw_stage ?a)(1 := Aware_remove (aware_record 1) stale_left)\<rparr>"
  let ?c = "?b\<lparr>aw_file := Some \<lparr>lf_inode = 0 + 1, lf_record = aware_record 0\<rparr>,
    aw_stage := (aw_stage ?b)(0 := Aware_held True (aware_record 0))\<rparr>"
  let ?d = "?c\<lparr>aw_file := Some \<lparr>lf_inode = 1 + 1, lf_record = aware_record 1\<rparr>,
    aw_stage := (aw_stage ?c)(1 := Aware_held True (aware_record 1))\<rparr>"
  have "aware_turns (replicate 6 0) pair_world = Some ?a"
    by (rule turns_to_removal) (simp_all add: pair_world_def)
  moreover have "aware_turns (replicate 6 1) ?a = Some ?b" by (rule turns_to_removal) (simp_all add: pair_world_def)
  moreover have "aware_turns [0, 0] ?b = Some ?c" by (rule turns_past_removal[of _ stale_left]) (simp_all add: pair_world_def)
  moreover have "aware_turns [1, 1] ?c = Some ?d" by (rule turns_past_removal) (simp_all add: pair_world_def)
  ultimately have "aware_turns (replicate 6 0 @ replicate 6 1 @ [0, 0] @ [1, 1]) pair_world = Some ?d"
    by (simp only: turns_append option.case)
  from aware_turns_reachable[OF pair_world_reachable this, of False] have "pair_reachable False ?d" by simp
  then show ?thesis by (intro exI[of _ ?d]) (simp add: pair_world_def)
qed

end
