(* ===== verification/Runtime_Coordinator.thy ===== *)
theory Runtime_Coordinator
  imports Ariava_Prelude
begin

section \<open>The coordinators of a process\<close>

text \<open>
  \<open>acquireRuntimeCoordinator\<close> (\<open>runtime-lock.ts\<close>): the registry of the coordinators of one process, the one
  state writer of each, and their disposal. Paths are lists of segments; \<open>realpath\<close> is a function. Whether
  the runtime lock is given, still owned or released is the outcome of each call.
\<close>

subsection \<open>Paths\<close>

type_synonym path = "string list"

text \<open>The deepest ancestor that exists is resolved and the missing names follow; the path comes reversed.\<close>

fun canonical_from :: "(path \<Rightarrow> path option) \<Rightarrow> path \<Rightarrow> path \<Rightarrow> path option" where
  "canonical_from realpath [] missing = (case realpath [] of None \<Rightarrow> None | Some p \<Rightarrow> Some (p @ missing))"
| "canonical_from realpath (base # parents) missing = (case realpath (rev (base # parents)) of
     Some p \<Rightarrow> Some (p @ missing)
   | None \<Rightarrow> canonical_from realpath parents (base # missing))"

definition canonicalRuntimePath :: "(path \<Rightarrow> path option) \<Rightarrow> path \<Rightarrow> path option" where
  "canonicalRuntimePath realpath p = canonical_from realpath (rev p) []"

text \<open>The canonical paths of a state file and of its spool, which is beside it unless it is given.\<close>

definition runtime_paths :: "(path \<Rightarrow> path option) \<Rightarrow> path \<Rightarrow> path option \<Rightarrow> (path \<times> path) option" where
  "runtime_paths realpath statePath spoolPath = (case canonicalRuntimePath realpath statePath of
     None \<Rightarrow> None
   | Some st \<Rightarrow> (case canonicalRuntimePath realpath (case spoolPath of
         None \<Rightarrow> butlast statePath @ [last statePath @ ''.spool.json''] | Some sp \<Rightarrow> sp) of
       None \<Rightarrow> None | Some sp \<Rightarrow> Some (st, sp)))"

lemma canonical_from_prefix:
  "canonical_from realpath (rev p) missing = Some q \<Longrightarrow>
   \<exists>k \<le> length p. \<exists>r. realpath (take k p) = Some r \<and> q = r @ drop k p @ missing"
proof (induction p arbitrary: missing rule: rev_induct)
  case (snoc base p)
  show ?case
  proof (cases "realpath (p @ [base])")
    case None
    then have "canonical_from realpath (rev p) (base # missing) = Some q" using snoc.prems by simp
    from snoc.IH[OF this] obtain k r where "k \<le> length p" "realpath (take k p) = Some r" "q = r @ drop k p @ base # missing"
      by blast
    then show ?thesis by (intro exI[of _ k]) simp
  next
    case (Some r)
    then show ?thesis using snoc.prems by (intro exI[of _ "Suc (length p)"]) simp
  qed
qed (auto split: option.splits)

subsection \<open>Coordinators\<close>

text \<open>A coordinator without paths keeps its state in memory and has no lock.\<close>

record coordinator =
  co_paths :: "(path \<times> path) option"
  co_disposed :: bool
  co_stateWriterClaimed :: bool

text \<open>A claim is the closure \<open>claimStateWriter\<close> returns: its coordinator and its \<open>released\<close>.\<close>

record coordinators =
  cs_registry :: "path \<times> path \<Rightarrow> nat option"
  cs_all :: "coordinator list"
  cs_claims :: "(nat \<times> bool) list"

datatype coordinator_error = Coordinator_active | Runtime_locked | Path_unresolved

definition no_coordinators :: coordinators where
  "no_coordinators = \<lparr>cs_registry = Map.empty, cs_all = [], cs_claims = []\<rparr>"

definition fresh_coordinator :: "(path \<times> path) option \<Rightarrow> coordinator" where
  "fresh_coordinator paths = \<lparr>co_paths = paths, co_disposed = False, co_stateWriterClaimed = False\<rparr>"

text \<open>Operations answer with the new coordinators and an error or a result.\<close>

definition memoryRuntimeCoordinator :: "coordinators \<Rightarrow> coordinators" where
  "memoryRuntimeCoordinator w = w\<lparr>cs_all := cs_all w @ [fresh_coordinator None]\<rparr>"

definition acquireRuntimeCoordinator ::
  "(path \<Rightarrow> path option) \<Rightarrow> path option \<Rightarrow> path option \<Rightarrow> bool \<Rightarrow> coordinators \<Rightarrow>
    coordinators \<times> (coordinator_error + nat)" where
  "acquireRuntimeCoordinator realpath statePath spoolPath locked w = (case statePath of
     None \<Rightarrow> (memoryRuntimeCoordinator w, Inr (length (cs_all w)))
   | Some p \<Rightarrow> (case runtime_paths realpath p spoolPath of
       None \<Rightarrow> (w, Inl Path_unresolved)
     | Some key \<Rightarrow>
         if cs_registry w key \<noteq> None then (w, Inl Coordinator_active)
         else if \<not> locked then (w, Inl Runtime_locked)
         else (w\<lparr>cs_registry := (cs_registry w)(key \<mapsto> length (cs_all w)),
                cs_all := cs_all w @ [fresh_coordinator (Some key)]\<rparr>, Inr (length (cs_all w)))))"

definition coordinator_assertOwned :: "nat \<Rightarrow> bool \<Rightarrow> coordinators \<Rightarrow> coordinator_error + unit" where
  "coordinator_assertOwned i owned w = (let c = cs_all w ! i in
     if co_disposed c then Inl Coordinator_active
     else if co_paths c \<noteq> None \<and> \<not> owned then Inl Runtime_locked
     else Inr ())"

definition claimStateWriter :: "nat \<Rightarrow> coordinators \<Rightarrow> coordinators \<times> (coordinator_error + nat)" where
  "claimStateWriter i w = (let c = cs_all w ! i in
     if co_disposed c \<or> co_stateWriterClaimed c then (w, Inl Coordinator_active)
     else (w\<lparr>cs_all := (cs_all w)[i := c\<lparr>co_stateWriterClaimed := True\<rparr>], cs_claims := cs_claims w @ [(i, False)]\<rparr>,
           Inr (length (cs_claims w))))"

definition release_claim :: "nat \<Rightarrow> coordinators \<Rightarrow> coordinators" where
  "release_claim k w = (case cs_claims w ! k of (i, released) \<Rightarrow>
     if released \<or> co_disposed (cs_all w ! i) then w
     else w\<lparr>cs_claims := (cs_claims w)[k := (i, True)],
            cs_all := (cs_all w)[i := (cs_all w ! i)\<lparr>co_stateWriterClaimed := False\<rparr>]\<rparr>)"

definition disposed_coordinator :: "coordinator \<Rightarrow> coordinator" where
  "disposed_coordinator c = c\<lparr>co_disposed := True, co_stateWriterClaimed := False\<rparr>"

definition dispose :: "nat \<Rightarrow> bool \<Rightarrow> coordinators \<Rightarrow> coordinators \<times> (coordinator_error + unit)" where
  "dispose i released w = (let c = cs_all w ! i; w' = w\<lparr>cs_all := (cs_all w)[i := disposed_coordinator c]\<rparr> in
     case co_paths c of
       None \<Rightarrow> (w', Inr ())
     | Some key \<Rightarrow>
         if co_disposed c then (w, Inr ())
         else if \<not> released then (w, Inl Runtime_locked)
         else if cs_registry w key \<noteq> Some i then (w, Inl Coordinator_active)
         else (w'\<lparr>cs_registry := (cs_registry w)(key := None)\<rparr>, Inr ()))"

definition assertRuntimeCoordinatorPaths ::
  "(path \<Rightarrow> path option) \<Rightarrow> coordinator \<Rightarrow> path option \<Rightarrow> path option \<Rightarrow> bool" where
  "assertRuntimeCoordinatorPaths realpath c statePath spoolPath \<longleftrightarrow> (case statePath of
     None \<Rightarrow> co_paths c = None
   | Some p \<Rightarrow> co_paths c \<noteq> None \<and> co_paths c = runtime_paths realpath p spoolPath)"

subsection \<open>Sequences of calls\<close>

datatype coordinator_call =
    Acquire "path \<Rightarrow> path option" "path option" "path option" bool
  | Claim nat
  | Release_claim nat
  | Dispose nat bool

text \<open>A program calls only what it was given.\<close>

fun call_step :: "coordinators \<Rightarrow> coordinator_call \<Rightarrow> coordinators" where
  "call_step w (Acquire realpath statePath spoolPath locked) = fst (acquireRuntimeCoordinator realpath statePath spoolPath locked w)"
| "call_step w (Claim i) = (if i < length (cs_all w) then fst (claimStateWriter i w) else w)"
| "call_step w (Release_claim k) = (if k < length (cs_claims w) then release_claim k w else w)"
| "call_step w (Dispose i released) = (if i < length (cs_all w) then fst (dispose i released w) else w)"

definition after_calls :: "coordinator_call list \<Rightarrow> coordinators" where
  "after_calls = foldl call_step no_coordinators"

text \<open>An open claim: not released, of a coordinator that is not disposed.\<close>

definition open_claim :: "coordinators \<Rightarrow> nat \<Rightarrow> nat \<Rightarrow> bool" where
  "open_claim w i k \<longleftrightarrow> k < length (cs_claims w) \<and> cs_claims w ! k = (i, False) \<and> \<not> co_disposed (cs_all w ! i)"

text \<open>The registry lists exactly the coordinators that are not disposed; the flag tells of an open claim.\<close>

definition registry_exact :: "coordinators \<Rightarrow> bool" where
  "registry_exact w \<longleftrightarrow> (\<forall>key i. cs_registry w key = Some i \<longleftrightarrow>
     i < length (cs_all w) \<and> co_paths (cs_all w ! i) = Some key \<and> \<not> co_disposed (cs_all w ! i))"

definition claims_exact :: "coordinators \<Rightarrow> bool" where
  "claims_exact w \<longleftrightarrow> (\<forall>c \<in> set (cs_claims w). fst c < length (cs_all w))
     \<and> (\<forall>i k. open_claim w i k \<longrightarrow> co_stateWriterClaimed (cs_all w ! i))
     \<and> (\<forall>i k l. open_claim w i k \<longrightarrow> open_claim w i l \<longrightarrow> k = l)"

lemma claim_bound: "claims_exact w \<Longrightarrow> k < length (cs_claims w) \<Longrightarrow> cs_claims w ! k = (i, r) \<Longrightarrow> i < length (cs_all w)"
  unfolding claims_exact_def by (metis fst_conv nth_mem)

text \<open>Nothing but claim flags changed.\<close>

lemma registry_flags:
  assumes "registry_exact w" and "cs_registry w' = cs_registry w" and "length (cs_all w') = length (cs_all w)"
    and "\<forall>i < length (cs_all w). co_paths (cs_all w' ! i) = co_paths (cs_all w ! i) \<and> co_disposed (cs_all w' ! i) = co_disposed (cs_all w ! i)"
  shows "registry_exact w'"
  using assms by (auto simp: registry_exact_def)

lemma registry_listed: "registry_exact w \<Longrightarrow> cs_registry w key = Some i \<longleftrightarrow>
     i < length (cs_all w) \<and> co_paths (cs_all w ! i) = Some key \<and> \<not> co_disposed (cs_all w ! i)"
  unfolding registry_exact_def by blast

lemma registry_unique:
  assumes "registry_exact w" and "i < length (cs_all w)" and "j < length (cs_all w)"
    and "co_paths (cs_all w ! i) = Some key" and "co_paths (cs_all w ! j) = Some key"
    and "\<not> co_disposed (cs_all w ! i)" and "\<not> co_disposed (cs_all w ! j)"
  shows "i = j"
  using assms unfolding registry_exact_def by (metis option.inject)

lemma registry_step:
  assumes "registry_exact w" and "claims_exact w"
  shows "registry_exact (call_step w c)"
proof (cases c)
  case (Acquire realpath statePath spoolPath locked)
  then show ?thesis using assms(1)
    by (auto simp: registry_exact_def acquireRuntimeCoordinator_def memoryRuntimeCoordinator_def fresh_coordinator_def
        nth_append less_Suc_eq split: option.splits)
next
  case (Claim i)
  then show ?thesis
    by (intro registry_flags[OF assms(1)]) (auto simp: claimStateWriter_def Let_def nth_list_update)
next
  case (Release_claim k)
  show ?thesis
    by (rule registry_flags[OF assms(1)])
      (use claim_bound[OF assms(2), of k] in \<open>auto simp: Release_claim release_claim_def nth_list_update split: prod.splits if_splits\<close>)
next
  case (Dispose i released)
  show ?thesis
  proof (cases "i < length (cs_all w) \<and> released \<and> co_paths (cs_all w ! i) \<noteq> None \<and> \<not> co_disposed (cs_all w ! i)")
    case True
    then obtain key where key: "co_paths (cs_all w ! i) = Some key" by auto
    then have "cs_registry w key = Some i" using registry_listed[OF assms(1)] True by simp
    then have step: "call_step w c = w\<lparr>cs_all := (cs_all w)[i := disposed_coordinator (cs_all w ! i)],
        cs_registry := (cs_registry w)(key := None)\<rparr>"
      using True key Dispose by (simp add: dispose_def Let_def)
    have "((cs_registry w)(key := None)) k = Some j \<longleftrightarrow> j < length (cs_all w) \<and> co_paths ((cs_all w)[i := disposed_coordinator (cs_all w ! i)] ! j) = Some k
        \<and> \<not> co_disposed ((cs_all w)[i := disposed_coordinator (cs_all w ! i)] ! j)" for k j
    proof (cases "j = i")
      case True
      then show ?thesis using key registry_listed[OF assms(1), of k i]
        by (cases "k = key") (auto simp: nth_list_update disposed_coordinator_def)
    next
      case False
      then have "cs_registry w key \<noteq> Some j" using \<open>cs_registry w key = Some i\<close> by simp
      then show ?thesis using False assms(1) registry_listed[OF assms(1), of k j] registry_listed[OF assms(1), of key j] by (cases "k = key") simp_all
    qed
    then show ?thesis unfolding step registry_exact_def by simp
  next
    case False
    then show ?thesis using Dispose assms(1)
      by (auto simp: registry_exact_def dispose_def disposed_coordinator_def Let_def nth_list_update split: option.splits)
  qed
qed

lemma claims_step:
  assumes "registry_exact w" and "claims_exact w"
  shows "claims_exact (call_step w c)"
proof (cases c)
  case (Acquire realpath statePath spoolPath locked)
  then show ?thesis using assms(2) claim_bound[OF assms(2)]
    by (auto simp: claims_exact_def open_claim_def acquireRuntimeCoordinator_def memoryRuntimeCoordinator_def fresh_coordinator_def
        nth_append less_SucI split: option.splits)
next
  case (Claim i)
  then show ?thesis using assms(2)
    by (auto simp: claims_exact_def open_claim_def claimStateWriter_def Let_def nth_list_update nth_append less_Suc_eq)
next
  case (Release_claim k)
  then show ?thesis using assms(2) claim_bound[OF assms(2), of k]
    by (auto simp: claims_exact_def open_claim_def release_claim_def nth_list_update dest!: subsetD[OF set_update_subset_insert] split: prod.splits)
next
  case (Dispose i released)
  then show ?thesis using assms(2) claim_bound[OF assms(2)]
    by (auto simp: claims_exact_def open_claim_def dispose_def disposed_coordinator_def Let_def nth_list_update split: option.splits)
qed

subsection \<open>Properties\<close>

lemma after_calls_exact: "registry_exact (after_calls cs) \<and> claims_exact (after_calls cs)"
proof (induction cs rule: rev_induct)
  case Nil
  then show ?case
    by (simp add: after_calls_def no_coordinators_def registry_exact_def claims_exact_def open_claim_def)
next
  case (snoc c cs)
  then show ?case using registry_step claims_step by (simp add: after_calls_def)
qed

text \<open>
  C26. Within a process, whatever calls are made in whatever order: two coordinators for the same paths are
  never both undisposed, a coordinator has at most one open claim of its state writer, and disposing of a
  coordinator whose runtime lock is released always succeeds, so the registry never keeps a path that
  nobody owns.
\<close>

theorem one_writer_per_runtime:
  assumes "w = after_calls cs"
  shows "(\<forall>key i j. i < length (cs_all w) \<longrightarrow> j < length (cs_all w) \<longrightarrow> co_paths (cs_all w ! i) = Some key \<longrightarrow>
      co_paths (cs_all w ! j) = Some key \<longrightarrow> \<not> co_disposed (cs_all w ! i) \<longrightarrow> \<not> co_disposed (cs_all w ! j) \<longrightarrow> i = j)
   \<and> (\<forall>i k l. open_claim w i k \<longrightarrow> open_claim w i l \<longrightarrow> k = l)
   \<and> (\<forall>i < length (cs_all w). snd (dispose i True w) = Inr ())"
proof (intro conjI)
  have registry: "registry_exact w" and claims: "claims_exact w" using after_calls_exact[of cs] assms by simp_all
  show "\<forall>key i j. i < length (cs_all w) \<longrightarrow> j < length (cs_all w) \<longrightarrow> co_paths (cs_all w ! i) = Some key \<longrightarrow>
    co_paths (cs_all w ! j) = Some key \<longrightarrow> \<not> co_disposed (cs_all w ! i) \<longrightarrow> \<not> co_disposed (cs_all w ! j) \<longrightarrow> i = j"
    using registry_unique[OF registry] by blast
  show "\<forall>i k l. open_claim w i k \<longrightarrow> open_claim w i l \<longrightarrow> k = l" using claims by (simp add: claims_exact_def)
  show "\<forall>i < length (cs_all w). snd (dispose i True w) = Inr ()"
    using registry by (auto simp: registry_exact_def dispose_def Let_def split: option.splits)
qed

text \<open>A claim, its release and a new one, then a second coordinator after the first is disposed of.\<close>

definition some_calls :: "coordinator_call list" where
  "some_calls = (let acquire = Acquire (\<lambda>p. if p = [] then Some [] else None) (Some [''var'', ''state'']) None True in
     [acquire, Claim 0, Claim 0, Release_claim 0, Release_claim 0, Claim 0, acquire, Dispose 0 True, acquire])"

theorem one_writer_per_runtime_witness:
  "length (cs_all (after_calls some_calls)) = 2 \<and> length (cs_claims (after_calls some_calls)) = 2
   \<and> snd (dispose 1 True (after_calls some_calls)) = Inr ()"
proof -
  have lengths: "length (cs_all (after_calls some_calls)) = 2" "length (cs_claims (after_calls some_calls)) = 2"
    by (simp_all add: some_calls_def after_calls_def no_coordinators_def acquireRuntimeCoordinator_def claimStateWriter_def
        release_claim_def dispose_def disposed_coordinator_def fresh_coordinator_def runtime_paths_def canonicalRuntimePath_def Let_def)
  then have "1 < length (cs_all (after_calls some_calls))" by simp
  with one_writer_per_runtime[of "after_calls some_calls" some_calls] have "snd (dispose 1 True (after_calls some_calls)) = Inr ()"
    by blast
  with lengths show ?thesis by blast
qed

end
