(* ===== verification/Protocol_Properties.thy ===== *)
theory Protocol_Properties
  imports Authenticated_Data Bridge_Examples
begin

section \<open>Properties of the end-to-end protocol\<close>

text \<open>
  C40. What is authenticated determines what was meant. Over the eleven builders of authenticated bytes
  (content, receipt, preview and wrap data, key bindings, link transcript, confirmation proof, safety
  code), two accepted inputs with the same bytes are the same input of the same builder, if they are clean where
  their builder does not check them itself: the fields of a reply, of a transcript and the digests of a
  confirmation and of a safety code are well-formed Unicode, the counters of a transcript and of a safety
  code are not negative, and a transcript is of the default suite. The last lemma shows that two replies
  which are not clean can have the same bytes.
\<close>

theorem authenticated_data_determines_its_input:
  assumes "authenticated_bytes a = ok x" and "authenticated_bytes b = ok x" and "clean_input a" and "clean_input b"
  shows "a = b"
  using assms by (rule authenticated_bytes_inject)

definition sample_wrap_aad :: "protected_payload_kind \<Rightarrow> int \<Rightarrow> wrap_aad" where
  "sample_wrap_aad kind epoch = \<lparr>wa_direction = Bridge_to_watch, wa_linkId = js ''link-1'', wa_linkGeneration = 1,
    wa_epoch = epoch, wa_hostId = js ''host-1'', wa_watchDeviceId = js ''watch-1'',
    wa_senderEncryptionKeyId = js ''ekey_H'', wa_recipientEncryptionKeyId = js ''ekey_W'',
    wa_contentId = js ''content-1'', wa_payloadKind = kind\<rparr>"

theorem authenticated_data_determines_its_input_witness:
  "is_ok (buildWrapAAD (sample_wrap_aad Event_content 1)) \<and> is_ok (buildWrapAAD (sample_wrap_aad Event_content 2))
    \<and> buildWrapAAD (sample_wrap_aad Event_content 1) \<noteq> buildWrapAAD (sample_wrap_aad Event_content 2)"
proof -
  have "plain ''ekey_H''" "plain ''ekey_W''" by (simp_all add: plain_def list_all_iff)
  then have ok: "is_ok (buildWrapAAD (sample_wrap_aad Event_content e))" if "isPositiveInteger e" for e
    using that by (auto simp: buildWrapAAD_def build_def wrap_aad_valid_def sample_wrap_aad_def plain_bounded
        isPositiveInteger_def is_safe_integer_def)
  then have both: "is_ok (buildWrapAAD (sample_wrap_aad Event_content 1))" "is_ok (buildWrapAAD (sample_wrap_aad Event_content 2))"
    by (simp_all add: isPositiveInteger_def is_safe_integer_def)
  have "sample_wrap_aad Event_content 1 \<noteq> sample_wrap_aad Event_content 2" by (simp add: sample_wrap_aad_def)
  then show ?thesis
    using both authenticated_data_determines_its_input[of "Wrap_data (sample_wrap_aad Event_content 1)" _
        "Wrap_data (sample_wrap_aad Event_content 2)"]
    by (auto simp: is_ok_iff)
qed

text \<open>Why the reply builder needs the condition: it checks only the content id, and every lone surrogate is
  encoded as the same three bytes.\<close>

definition sample_reply_aad :: "code_unit \<Rightarrow> reply_aad" where
  "sample_reply_aad u = \<lparr>ra_hostId = js ''host-1'', ra_watchDeviceId = js ''watch-1'', ra_sessionId = js ''session-1'',
    ra_commandId = [u], ra_targetAlertEventId = js ''event-1'', ra_issuedAt = sample_time 0,
    ra_expiresAt = sample_time 500, ra_nonce = js ''nonce-1'', ra_contentId = js ''content-1''\<rparr>"

lemma reply_data_collides_on_lone_surrogates:
  "sample_reply_aad 0xD800 \<noteq> sample_reply_aad 0xD801
    \<and> is_ok (buildReplyContentAAD (sample_reply_aad 0xD800))
    \<and> buildReplyContentAAD (sample_reply_aad 0xD800) = buildReplyContentAAD (sample_reply_aad 0xD801)"
proof -
  have one: "utf8 [0xD800] = utf8 [0xD801]" "utf8 [0xD800, 10] = utf8 [0xD801, 10]"
    by (simp_all add: is_high_def is_low_def)
  have "is_ascii (decimal n @ js '':'')" for n by (simp add: decimal_ascii js_ascii)
  then have "utf8 ((decimal n @ js '':'') @ [0xD800, 10]) = utf8 ((decimal n @ js '':'') @ [0xD801, 10])" for n
    using one(2) by (simp only: utf8_ascii_append)
  then have "encode_field [0xD800] = encode_field [0xD801]" using one(1) by (simp add: encode_field_def)
  then show ?thesis
    by (simp add: buildReplyContentAAD_def build_def reply_aad_fields_def sample_reply_aad_def plain_bounded
        encodeLengthPrefixedFields_def)
qed

end
