(* ===== verification/Spec2Isabelle.thy ===== *)
theory Spec2Isabelle
  imports Reset_Properties Store_Properties Spool_Properties Upload_Properties Keyring_Properties Lock_Properties
    Runtime_Coordinator Protocol_Properties
begin

text \<open>
  A verification development of the Ariava Bridge (\<open>apps/bridge/src\<close>) and of the parts of the protocol
  package (\<open>packages/protocol/src\<close>) it rests on.

  \<^bold>\<open>The program.\<close> The Bridge is a daemon on the Host of a coding agent. It keeps the Sessions, Events and
  commands of the agents in a state file, journals what it still has to send in an encrypted spool
  beside it, executes commands a Watch sends through the Relay at most once, and can reset the
  identity of its Host through a journaled, resumable procedure. All of it must survive a crash between
  any two writes: the next start validates both files and refuses them when they disagree, so an
  operation that leaves a state the validation refuses bricks the Bridge until someone repairs it. The
  properties are about that: what each operation leaves when a write fails, what the next start
  accepts, what happens at most once.

  \<^bold>\<open>Theories.\<close> A theory stands for one file or one group of functions, keeps their names, and gives every
  \<open>throw\<close> and early return a branch.

  \<^item> \<open>Ariava_Prelude\<close>: JavaScript strings (UTF-16 code units), results (an error or a value), objects as
  association lists in insertion order with \<open>oget\<close>, \<open>oput\<close>, \<open>odel\<close>. \<open>Timestamps\<close>: the canonical
  timestamps of \<open>validation.ts\<close> with the calendar of \<open>Date\<close>, and milliseconds added to one.
  \<open>Wire_Encoding\<close>, \<open>Base64_Url\<close>: UTF-8, \<open>encodeLengthPrefixedFields\<close>, base64url.

  \<^item> Host reset (\<open>cli/operations/host-domain-reset*.ts\<close>): \<open>Reset_Journal\<close> (the journal and its schema),
  \<open>Reset_Policy\<close> (allowed transitions), \<open>Reset_Machine\<close> (legal journals, next action), \<open>Reset_World\<close> (the
  host: journal file, log of effects, ports; locale \<open>host_order\<close> for what every effect keeps),
  \<open>Reset_Store\<close> (the journal file), \<open>Reset_Executor\<close>, \<open>Reset_Coordinator\<close> (the actions and the loop).
  \<open>Reset_Order\<close> and \<open>Reset_Safety\<close> interpret \<open>host_order\<close> and follow the journal through any failure,
  \<open>Reset_Commit\<close> shows that a transition with well-formed payload is accepted, \<open>Reset_Examples\<close> holds the
  inputs and \<open>Reset_Properties\<close> the claims.

  \<^item> State store (\<open>state-store.ts\<close>, \<open>state-store/*.ts\<close>): \<open>Bridge_State\<close> (the persisted data),
  \<open>Session_Transitions\<close>, \<open>Event_Transitions\<close>, \<open>Publication\<close>, \<open>Host_Health\<close>, \<open>Command_Journal\<close> (the pure
  transitions), \<open>Command_Wire\<close> (envelopes and receipts, their validators and binding bytes),
  \<open>Bridge_Store\<close> (access, the two commit orders, the three outcomes of a write; locale
  \<open>keeping_transition\<close>: what a kept transition gives a store with a failing file), \<open>State_Record\<close> (the
  values a state file may hold, \<open>isCurrentStateRecord\<close>), \<open>Bridge_Relations\<close> (the relationships the next start
  demands besides, \<open>parseCurrentState\<close>), \<open>Store_Operations\<close> (the methods of the store as one type of operations).
  \<open>Event_Retention\<close>, \<open>Bridge_Keeping\<close>, \<open>Bridge_Keeping_Events\<close>, \<open>Command_Lifecycle\<close> show that each
  transition keeps the relationships, \<open>State_Values\<close> and \<open>Store_Values\<close> that it keeps the values valid, under
  guards that say what the callers owe (\<open>op_guard\<close>, \<open>values_guard\<close>); \<open>Store_Safety\<close> and \<open>Command_Progress\<close> interpret
  \<open>keeping_transition\<close> for it and for the progress of a command. \<open>Bridge_Examples\<close> holds inputs,
  \<open>Store_Properties\<close> and \<open>Command_Properties\<close> the claims.

  \<^item> Spool (\<open>e2e/local-spool.ts\<close>, \<open>state-store/spool-transactions.ts\<close>): \<open>Local_Spool\<close> (items, file, key,
  operations), \<open>Spool_Transactions\<close> (reservation, queueing, cancellation, completion, recovery over both
  files), \<open>Spool_Relations\<close> (what the next start demands of the two files). \<open>Spool_Files\<close> is a calculus of
  weakest preconditions for these programs with a rule per operation: it takes effect in the file and in memory or in neither, unless a write that was
  done is reported as failed and cannot be read back (\<open>torn\<close>). \<open>Spool_Completion\<close>,
  \<open>Spool_Cancellation\<close>, \<open>Spool_Queue\<close> and \<open>Spool_Recovery\<close> follow each transaction through every pattern
  of failures. A Bridge that starts reads the spool from its file, so what is safe is a pair of a state and
  the file. A completion is followed when no older one of its Session is in the journal, the recovery for a
  journal in the order in which completions begin; a completion that is left behind while its Session goes
  on is the defect \<open>second_completion_breaks_the_next_start\<close>. \<open>Spool_Examples\<close> and \<open>Spool_Properties\<close> hold inputs and claims.

  \<^item> End-to-end uploads (\<open>e2e/upload-*.ts\<close>): \<open>Upload_Decisions\<close> (failure categories, what follows an answer of
  the Relay), \<open>Upload_World\<close> (uploads, the ports of the workflows, the log of calls), \<open>Upload_Actions\<close> and
  \<open>Upload_Events\<close> (the six workflows of \<open>createEncryptedUploadActions\<close>), \<open>Upload_Evidence\<close> (what the log
  must hold before each write; a calculus over logs), \<open>Upload_Safety\<close> and \<open>Upload_Flush\<close> (a rule per
  operation), \<open>Upload_Examples\<close> and \<open>Upload_Properties\<close>. \<open>Authenticated_Data\<close> (\<open>protocol/src/encryption.ts\<close>):
  the builders of authenticated bytes, with \<open>Protocol_Properties\<close>.

  \<^item> Key ring (\<open>e2e/link-keyring.ts\<close>): \<open>Link_Keyring\<close> (pins, pending activations, \<open>validateState\<close>),
  \<open>Keyring_Operations\<close> (\<open>LocalLinkKeyring\<close>: file, lock, activation, revocation, pruning, reconciliation with
  the recipients of the Relay), \<open>Keyring_Relations\<close> (\<open>validateState\<close> as one predicate), \<open>Keyring_Safety\<close>
  (every operation keeps it), \<open>Keyring_Outcomes\<close> (what activation and reconciliation achieve),
  \<open>Keyring_Examples\<close> and \<open>Keyring_Properties\<close>. Several processes share the file; each has its own memory,
  and an object of another process is another first component over the same world. The release of the lock may
  fail after the file was written (\<open>k_finally\<close>).

  \<^item> Locks between processes (\<open>runtime-lock.ts\<close>, \<open>host-manager/process-aware-lock.ts\<close>): \<open>Process_Lock\<close> (the
  record, its checks, the inspection of a process), \<open>Runtime_Lock\<close> (\<open>acquireRuntimeLock\<close>, the chain of
  takeover mutexes, \<open>release\<close>), \<open>Runtime_Lock_Safety\<close> (an assertion per stage, what one process may do to
  the files under the others, the invariant), \<open>Process_Lock_Steps\<close> (the same for
  \<open>acquireProcessAwareLock\<close>), \<open>Lock_Properties\<close>, \<open>Runtime_Coordinator\<close> (the coordinators of one process). A
  process is at a stage of its code; one step is one access to a lock file or one inspection
  (reading a snapshot, with its second look at the file, is one), so the
  steps of any number of processes interleave, and a process may die between any two. A file that was
  linked is undone, when a later access of its creation fails, in a step of its own. Assumed: a process
  has an identifier and start time that no other process and no file left behind has, the inspection
  tells the truth or that it cannot tell, and an owner token tells which process drew it. The runtime
  lock then is exclusive in every interleaving; the process-aware lock is so only when recoveries of a
  stale record do not overlap. That a process alone gets the lock is shown for any records it makes and any
  inodes of its files.

  \<^bold>\<open>State and effects.\<close> The live state is a value of \<open>bridge_state\<close> where the code swaps an object; the
  transitions of the code clone it first, so no aliasing is lost. A program over the state and the spool
  is a function from a world to a result and a world. What the environment answers (the outcome of a
  file write, the key store, whether the state file and the spool file can be read) is a function of a counter of
  calls, and the reset's ports are functions of an arbitrary outside world: a statement over all of them
  covers every pattern of failures, and a crash is a run that stops after the last write that did
  succeed. A write is done, refused, or done and then reported as failed.

  \<^bold>\<open>Bounds.\<close> The \<open>while (true)\<close> loop of the reset is recursion with fuel 13, one more than the actions a
  journal can still need: every iteration moves the phase, and \<open>reset_loop_returns\<close> proves that the fuel
  does not run out. The publication loops of the uploads take their fuel as an argument, because they run
  as long as the recipients change; \<open>authoritative_passes_end\<close> gives the fuel that is enough for a number
  of changes. Revisions and versions are unbounded integers guarded, where the code guards them,
  by \<open>Number.isSafeInteger\<close>; above \<open>2 ^ 53\<close> the code's numbers would round.

  \<^bold>\<open>What stands for code that is not in the repository.\<close> The AEAD is symbolic: a sealed value opens under
  its key and its associated data and under nothing else. Digests, \<open>JSON.stringify\<close> of a body and
  Unicode normalisation are parameters. Statements on encodings assume well-formed Unicode where the code
  does not check it: lone surrogates are all encoded as the same bytes. \<open>localeCompare\<close> is a parameter, and where an order matters the
  statement assumes that it is a total preorder. No other assumption is made on them. The upload
  workflows reach store, Relay, cryptography and key ring through ports; their statements assume what
  \<open>upload_contract\<close> says of them, that an upload is sealed for what was asked and that the store checks the
  binding of what it returns.

  \<^bold>\<open>Not modelled.\<close> The structural checks of parsed JSON (exact keys, \<open>typeof\<close>) hold by the record types. Where
  the code compares the JSON texts of two parsed records, the model compares the records: it does not see the
  order of keys.
  Object keys that look like array indices, which JavaScript orders first, and inherited keys such as
  \<open>__proto__\<close> are outside the model of objects. Older schemas and their migration, the stores of keys
  (Keychain, Secret Service, files), the use of the locks by the operation lease, the
  normalisation of error messages in the reset coordinator, the report hooks of the uploads and the
  zeroing of buffers, the preflight of an upload and the sealing itself, \<open>collectEncryptedUploadPinReferences\<close> and
  \<open>buildQuarantineRecord\<close>, which walk untyped JSON, are not modelled; neither are the HTTP client and server, the
  daemon's timers, the installers and services, the command line, the Pi extension and the scripts,
  which are glue over processes and the network.
\<close>

end
